(* ===== verification/Disnix_Prelude.thy ===== *)
theory Disnix_Prelude
  imports
    Main
    "HOL-Library.AList"
    "HOL-Library.Multiset"
    "HOL-Library.Char_ord"
    "HOL-Library.List_Lexorder"
    "HOL-Library.Product_Lexorder"
    "HOL-Library.Option_ord"
    "HOL-Library.Word"
begin

text \<open>
  Shared vocabulary of the development: the ways a C function can fail to return, C strings
  that may be NULL, the two GLib containers the program is built on (pointer arrays and
  string-keyed hash tables), the C library's \<open>bsearch\<close>, and the contract of a sort by a
  comparison function. Generic lemmas live here, so that the component theories state
  only facts about the program.
\<close>

section \<open>Automation\<close>

named_theorems result_simps \<open>how results propagate through a sequence of C statements\<close>
named_theorems order_simps \<open>comparison functions as orders on keys\<close>

section \<open>Functions that may not return\<close>

text \<open>
  A C function that dereferences NULL does not return, and neither does one that loops
  forever. Reading outside an array or an uninitialised variable, which C leaves undefined,
  counts as not returning. Loops and recursions whose bound is not in the code carry a fuel argument;
  running out of it is a fault of its own, so that a theorem that a function returns
  says that the given fuel is enough.
\<close>

datatype fault = Null_Deref | Out_Of_Bounds | Uninitialised | Fuel_Exhausted

type_synonym 'a result = "fault + 'a"

definition bindr :: "'a result \<Rightarrow> ('a \<Rightarrow> 'b result) \<Rightarrow> 'b result" where
  "bindr m f = (case m of Inl e \<Rightarrow> Inl e | Inr x \<Rightarrow> f x)"

lemma bindr_simps [simp]:
  "bindr (Inr x) f = f x"
  "bindr (Inl e) f = Inl e"
  by (simp_all add: bindr_def)

lemma bindr_cong [fundef_cong]:
  assumes "m = m'" and "\<And>x. m' = Inr x \<Longrightarrow> f x = f' x"
  shows "bindr m f = bindr m' f'"
  using assms by (cases m') auto

lemma bindr_eq_Inr [result_simps]:
  "bindr m f = Inr y \<longleftrightarrow> (\<exists>x. m = Inr x \<and> f x = Inr y)"
  by (cases m) auto

lemma bindr_eq_Inl [result_simps]:
  "bindr m f = Inl e \<longleftrightarrow> m = Inl e \<or> (\<exists>x. m = Inr x \<and> f x = Inl e)"
  by (cases m) auto

text \<open>\<open>deref p\<close> is the object a pointer refers to.\<close>

definition deref :: "'a option \<Rightarrow> 'a result" where
  "deref p = (case p of None \<Rightarrow> Inl Null_Deref | Some x \<Rightarrow> Inr x)"

lemma deref_simps [simp]:
  "deref (Some x) = Inr x"
  "deref None = Inl Null_Deref"
  by (simp_all add: deref_def)

lemma deref_eq_Inr [result_simps]: "deref p = Inr x \<longleftrightarrow> p = Some x"
  by (cases p) auto

lemma deref_eq_Inl [result_simps]: "deref p = Inl e \<longleftrightarrow> p = None \<and> e = Null_Deref"
  by (cases p) auto

section \<open>C strings\<close>

text \<open>
  A \<open>char*\<close>, \<open>gchar*\<close> or \<open>xmlChar*\<close> is a string or NULL. \<open>strcmp\<close> compares bytes as
  unsigned values; \<open>xmlStrcmp\<close> and \<open>g_strcmp0\<close> are documented as \<open>strcmp\<close> extended to
  NULL, which comes before every string. Only the sign of the result is used.
\<close>

type_synonym cstr = "string option"

definition xmlStrcmp :: "cstr \<Rightarrow> cstr \<Rightarrow> int" where
  "xmlStrcmp l r = (if l = r then 0 else if l < r then -1 else 1)"

lemma xmlStrcmp_order [order_simps]:
  "xmlStrcmp l r = 0 \<longleftrightarrow> l = r"
  "xmlStrcmp l r < 0 \<longleftrightarrow> l < r"
  "0 < xmlStrcmp l r \<longleftrightarrow> r < l"
  by (auto simp: xmlStrcmp_def)

section \<open>GLib containers\<close>

text \<open>
  A \<open>GPtrArray\<close> is the list of its elements. A \<open>GHashTable\<close> with string keys is the
  list of its entries in the table's own iteration order; GLib does not say which order
  that is, and the theorems hold for every list. \<open>g_str_hash\<close> reads the bytes of the key,
  so a lookup with a NULL key does not return.
\<close>

type_synonym 'v hashtable = "(string \<times> 'v) list"

definition g_hash_table_lookup :: "'v hashtable \<Rightarrow> cstr \<Rightarrow> ('v option) result" where
  "g_hash_table_lookup t k = bindr (deref k) (\<lambda>s. Inr (map_of t s))"

definition g_hash_table_contains :: "'v hashtable \<Rightarrow> cstr \<Rightarrow> bool result" where
  "g_hash_table_contains t k = bindr (deref k) (\<lambda>s. Inr (map_of t s \<noteq> None))"

definition g_hash_table_insert :: "string \<Rightarrow> 'v \<Rightarrow> 'v hashtable \<Rightarrow> 'v hashtable" where
  "g_hash_table_insert k v t = AList.update k v t"

abbreviation wf_table :: "'v hashtable \<Rightarrow> bool" where
  "wf_table t \<equiv> distinct (map fst t)"

lemma g_hash_table_lookup_Some [simp]: "g_hash_table_lookup t (Some k) = Inr (map_of t k)"
  by (simp add: g_hash_table_lookup_def)

lemma g_hash_table_lookup_None [simp]: "g_hash_table_lookup t None = Inl Null_Deref"
  by (simp add: g_hash_table_lookup_def)

lemma g_hash_table_lookup_eq_Inr [result_simps]:
  "g_hash_table_lookup t k = Inr r \<longleftrightarrow> (\<exists>s. k = Some s \<and> map_of t s = r)"
  by (cases k) auto

lemma g_hash_table_contains_Some [simp]:
  "g_hash_table_contains t (Some k) = Inr (map_of t k \<noteq> None)"
  by (simp add: g_hash_table_contains_def)

lemma g_hash_table_contains_None [simp]: "g_hash_table_contains t None = Inl Null_Deref"
  by (simp add: g_hash_table_contains_def)

lemma map_of_g_hash_table_insert [simp]:
  "map_of (g_hash_table_insert k v t) = (map_of t)(k \<mapsto> v)"
  by (simp add: g_hash_table_insert_def update_conv')

lemma wf_g_hash_table_insert [simp]: "wf_table t \<Longrightarrow> wf_table (g_hash_table_insert k v t)"
  by (simp add: g_hash_table_insert_def distinct_update)

lemma g_hash_table_insert_keys:
  "map fst (g_hash_table_insert k v t) = (if k \<in> fst ` set t then map fst t else map fst t @ [k])"
  by (induction t) (auto simp: g_hash_table_insert_def)

lemma map_of_keys_eqI:
  "map_of t = map_of t' \<Longrightarrow> map fst t = map fst t' \<Longrightarrow> wf_table t' \<Longrightarrow> t = t'"
proof (induction t arbitrary: t')
  case (Cons e t)
  from Cons.prems(2) obtain e' u where t': "t' = e' # u" "fst e = fst e'" "map fst t = map fst u" by (cases t') auto
  with Cons.prems(3) have fresh: "fst e \<notin> fst ` set t" "fst e \<notin> fst ` set u" by (metis distinct.simps(2) list.set_map list.simps(9))+
  have "snd e = snd e'" using fun_cong [OF Cons.prems(1), of "fst e"] t' by (cases e; cases e') simp
  moreover have "map_of t n = map_of u n" for n
  proof (cases "n = fst e")
    case True
    with fresh have "map_of t n = None" "map_of u n = None" by (simp_all add: map_of_eq_None_iff)
    then show ?thesis by simp
  next
    case False
    then show ?thesis using fun_cong [OF Cons.prems(1), of n] t' by (cases e; cases e') auto
  qed
  then have "map_of t = map_of u" by (rule ext)
  then have "t = u" using Cons.IH t' Cons.prems(3) by simp
  ultimately show ?case using t' by (simp add: prod_eq_iff)
qed simp

section \<open>Sorting by a comparison function\<close>

text \<open>
  \<open>g_ptr_array_sort\<close> is GLib's; the models that sort take the sort as an argument. What the
  program relies on is that the result holds the same elements in ascending order of the
  comparison function.
\<close>

type_synonym 'a sort_function = "('a \<Rightarrow> 'a \<Rightarrow> int) \<Rightarrow> 'a list \<Rightarrow> 'a list"

definition ascending :: "('a \<Rightarrow> 'a \<Rightarrow> int) \<Rightarrow> 'a list \<Rightarrow> bool" where
  "ascending cmp xs \<longleftrightarrow> sorted_wrt (\<lambda>a b. cmp a b \<le> 0) xs"

definition sorts_by :: "'a sort_function \<Rightarrow> ('a \<Rightarrow> 'a \<Rightarrow> int) \<Rightarrow> bool" where
  "sorts_by srt cmp \<longleftrightarrow> (\<forall>xs. mset (srt cmp xs) = mset xs \<and> ascending cmp (srt cmp xs))"

lemma sorts_by_mset: "sorts_by srt cmp \<Longrightarrow> mset (srt cmp xs) = mset xs"
  by (simp add: sorts_by_def)

lemma sorts_by_set: "sorts_by srt cmp \<Longrightarrow> set (srt cmp xs) = set xs"
  by (metis sorts_by_mset mset_eq_setD)

lemma sorts_by_ascending: "sorts_by srt cmp \<Longrightarrow> ascending cmp (srt cmp xs)"
  by (simp add: sorts_by_def)

text \<open>A stable insertion sort is one function that meets the contract.\<close>

fun insert_by :: "('a \<Rightarrow> 'a \<Rightarrow> int) \<Rightarrow> 'a \<Rightarrow> 'a list \<Rightarrow> 'a list" where
  "insert_by cmp x [] = [x]"
| "insert_by cmp x (y # ys) = (if cmp x y \<le> 0 then x # y # ys else y # insert_by cmp x ys)"

definition isort_by :: "'a sort_function" where
  "isort_by cmp xs = foldr (insert_by cmp) xs []"

lemma mset_insert_by [simp]: "mset (insert_by cmp x xs) = add_mset x (mset xs)"
  by (induction xs) auto

lemma set_insert_by [simp]: "set (insert_by cmp x xs) = insert x (set xs)"
  by (induction xs) auto

lemma mset_isort_by: "mset (isort_by cmp xs) = mset xs"
  by (induction xs) (auto simp: isort_by_def)

section \<open>Binary search\<close>

text \<open>
  \<open>bsearch\<close> of the C library, as the search by halving the interval from \<open>l\<close> up to, not
  including, \<open>u\<close>. The pointer it returns is the index of the element found.
\<close>

function bsearch_between :: "('k \<Rightarrow> 'e \<Rightarrow> int) \<Rightarrow> 'k \<Rightarrow> 'e list \<Rightarrow> nat \<Rightarrow> nat \<Rightarrow> nat option" where
  "bsearch_between cmp k xs l u =
     (if l < u then
        (let i = (l + u) div 2; c = cmp k (xs ! i) in
         if c < 0 then bsearch_between cmp k xs l i
         else if 0 < c then bsearch_between cmp k xs (Suc i) u
         else Some i)
      else None)"
  by pat_completeness auto
termination
  by (relation "measure (\<lambda>(cmp, k, xs, l, u). u - l)") auto

declare bsearch_between.simps [simp del]

definition bsearch :: "('k \<Rightarrow> 'e \<Rightarrow> int) \<Rightarrow> 'k \<Rightarrow> 'e list \<Rightarrow> nat option" where
  "bsearch cmp k xs = bsearch_between cmp k xs 0 (length xs)"

text \<open>
  The interface of a comparison function: it compares a search key with an element by
  comparing their keys in a linear order. Searching needs only this and a sorted array.
\<close>

locale key_comparison =
  fixes cmp :: "'k \<Rightarrow> 'e \<Rightarrow> int"
    and kkey :: "'k \<Rightarrow> 'o::linorder"
    and ekey :: "'e \<Rightarrow> 'o"
  assumes cmp_neg: "cmp k e < 0 \<longleftrightarrow> kkey k < ekey e"
    and cmp_pos: "0 < cmp k e \<longleftrightarrow> ekey e < kkey k"
begin

lemma cmp_zero: "cmp k e = 0 \<longleftrightarrow> kkey k = ekey e"
  by (metis cmp_neg cmp_pos less_irrefl linorder_less_linear)

lemma cmp_le_zero: "cmp k e \<le> 0 \<longleftrightarrow> kkey k \<le> ekey e"
  using cmp_pos by (metis not_less)

lemma bsearch_between_sound:
  "bsearch_between cmp k xs l u = Some i \<Longrightarrow> l \<le> i \<and> i < u \<and> ekey (xs ! i) = kkey k"
proof (induction "u - l" arbitrary: l u rule: less_induct)
  case less
  let ?m = "(l + u) div 2"
  from less.prems have lu: "l < u"
    by (subst (asm) bsearch_between.simps) (auto split: if_splits)
  consider (lt) "cmp k (xs ! ?m) < 0" | (gt) "0 < cmp k (xs ! ?m)" | (eq) "cmp k (xs ! ?m) = 0"
    by linarith
  then show ?case
  proof cases
    case lt
    with less.prems lu have "bsearch_between cmp k xs l ?m = Some i"
      by (subst (asm) bsearch_between.simps) (simp add: Let_def)
    with less.hyps [of ?m l] lu show ?thesis by fastforce
  next
    case gt
    with less.prems lu have "bsearch_between cmp k xs (Suc ?m) u = Some i"
      by (subst (asm) bsearch_between.simps) (simp add: Let_def)
    with less.hyps [of u "Suc ?m"] lu show ?thesis by fastforce
  next
    case eq
    with less.prems lu have "i = ?m"
      by (subst (asm) bsearch_between.simps) (simp add: Let_def)
    with eq lu show ?thesis by (auto simp: cmp_zero)
  qed
qed

lemma bsearch_between_complete:
  assumes "sorted (map ekey xs)" and "u \<le> length xs"
    and "l \<le> j" and "j < u" and "ekey (xs ! j) = kkey k"
  shows "bsearch_between cmp k xs l u \<noteq> None"
  using assms
proof (induction "u - l" arbitrary: l u rule: less_induct)
  case less
  let ?m = "(l + u) div 2"
  have mono: "ekey (xs ! a) \<le> ekey (xs ! b)" if "a \<le> b" "b < length xs" for a b
    using sorted_nth_mono [OF less.prems(1), of a b] that by simp
  have lu: "l < u" and m: "l \<le> ?m" "?m < u" using less.prems by auto
  consider (lt) "cmp k (xs ! ?m) < 0" | (gt) "0 < cmp k (xs ! ?m)" | (eq) "cmp k (xs ! ?m) = 0"
    by linarith
  then show ?case
  proof cases
    case lt
    then have "ekey (xs ! j) < ekey (xs ! ?m)" using less.prems by (simp add: cmp_neg)
    then have "j < ?m" using mono [of ?m j] less.prems by (meson leD leI le_trans less_le_trans)
    with less.hyps [of ?m l] less.prems m lu
    have "bsearch_between cmp k xs l ?m \<noteq> None" by simp
    with lt lu show ?thesis by (subst bsearch_between.simps) (simp add: Let_def)
  next
    case gt
    then have "ekey (xs ! ?m) < ekey (xs ! j)" using less.prems by (simp add: cmp_pos)
    then have "?m < j" using mono [of j ?m] less.prems m by (meson leD leI le_less_trans less_le_trans)
    with less.hyps [of u "Suc ?m"] less.prems m lu
    have "bsearch_between cmp k xs (Suc ?m) u \<noteq> None" by simp
    with gt lu show ?thesis by (subst bsearch_between.simps) (simp add: Let_def)
  next
    case eq
    with lu show ?thesis by (subst bsearch_between.simps) (simp add: Let_def)
  qed
qed

lemma bsearch_sound: "bsearch cmp k xs = Some i \<Longrightarrow> i < length xs \<and> ekey (xs ! i) = kkey k"
  using bsearch_between_sound unfolding bsearch_def by blast

lemma bsearch_complete:
  assumes "sorted (map ekey xs)" and "e \<in> set xs" and "ekey e = kkey k"
  shows "bsearch cmp k xs \<noteq> None"
proof -
  from \<open>e \<in> set xs\<close> obtain j where "j < length xs" "xs ! j = e" by (auto simp: in_set_conv_nth)
  with assms show ?thesis
    unfolding bsearch_def by (intro bsearch_between_complete [where j = j]) auto
qed

lemma bsearch_None_iff:
  assumes "sorted (map ekey xs)"
  shows "bsearch cmp k xs = None \<longleftrightarrow> (\<forall>e \<in> set xs. ekey e \<noteq> kkey k)"
proof
  assume "bsearch cmp k xs = None"
  then show "\<forall>e \<in> set xs. ekey e \<noteq> kkey k" using bsearch_complete [OF assms] by blast
next
  assume none: "\<forall>e \<in> set xs. ekey e \<noteq> kkey k"
  show "bsearch cmp k xs = None"
  proof (cases "bsearch cmp k xs")
    case (Some i)
    with bsearch_sound none show ?thesis by (meson nth_mem)
  qed simp
qed

lemma bsearch_Some:
  assumes "sorted (map ekey xs)" and "e \<in> set xs" and "ekey e = kkey k"
  obtains i where "bsearch cmp k xs = Some i" "i < length xs" "ekey (xs ! i) = ekey e"
  using bsearch_complete [OF assms] bsearch_sound assms(3) by (metis option.exhaust)

end

text \<open>Comparison of two elements by their own keys: arrays sorted by it have ascending keys.\<close>

locale element_comparison = key_comparison cmp key key
  for cmp :: "'e \<Rightarrow> 'e \<Rightarrow> int" and key :: "'e \<Rightarrow> 'o::linorder"
begin

lemma ascending_iff: "ascending cmp xs \<longleftrightarrow> sorted (map key xs)"
  by (simp add: ascending_def cmp_le_zero sorted_map)

lemma sorted_insert_by: "sorted (map key xs) \<Longrightarrow> sorted (map key (insert_by cmp x xs))"
  by (induction xs) (auto simp: cmp_le_zero not_le)

lemma isort_by_sorts: "sorts_by isort_by cmp"
proof -
  have "sorted (map key (isort_by cmp xs))" for xs
    by (induction xs) (auto simp: isort_by_def sorted_insert_by)
  then show ?thesis by (simp add: sorts_by_def mset_isort_by ascending_iff)
qed

lemma sort_sorted: "sorts_by srt cmp \<Longrightarrow> sorted (map key (srt cmp xs))"
  using sorts_by_ascending ascending_iff by blast

end

section \<open>Lists\<close>

lemma sum_list_update_nat:
  "i < length xs \<Longrightarrow> sum_list (xs[i := (v :: nat)]) + xs ! i = sum_list xs + v"
  by (induction xs arbitrary: i) (auto split: nat.splits)

section \<open>Association lists\<close>

lemma alist_update_new: "k \<notin> fst ` set al \<Longrightarrow> AList.update k v al = al @ [(k, v)]"
  by (induction al) auto

lemma alist_delete_filter: "AList.delete k al = filter (\<lambda>e. fst e \<noteq> k) al"
  by (auto simp: AList.delete_eq intro!: filter_cong)

lemma alist_delete_snd: "distinct (map snd al) \<Longrightarrow> distinct (map snd (AList.delete k al))"
  by (simp add: alist_delete_filter distinct_map_filter)

lemma alist_delete_fst: "distinct (map fst al) \<Longrightarrow> distinct (map fst (AList.delete k al))"
  by (simp add: alist_delete_filter distinct_map_filter)

lemma set_alist_delete: "set (AList.delete k al) = {e \<in> set al. fst e \<noteq> k}"
  by (simp add: alist_delete_filter)

end
