(* ===== verification/NixXML.thy ===== *)
theory NixXML
  imports Disnix_Prelude
begin

text \<open>
  The values of \<open>libnixxml\<close> and \<open>libnixxml-glib\<close>: abstract syntax nodes of Nix
  expressions, their comparison, the checks on hash tables and arrays, iteration over a
  hash table in the order of its keys, and the \<open>KEY=VALUE\<close> environment variables that
  become the arguments of a deployment activity.
\<close>

section \<open>Nodes (nixxml-node.h)\<close>

datatype NixXML_Node =
    NIX_XML_TYPE_STRING string
  | NIX_XML_TYPE_INT string
  | NIX_XML_TYPE_FLOAT string
  | NIX_XML_TYPE_BOOL string
  | NIX_XML_TYPE_PATH string
  | NIX_XML_TYPE_LIST "NixXML_Node list"
  | NIX_XML_TYPE_ATTRSET "(string \<times> NixXML_Node) list"

section \<open>Arrays and hash tables (nixxml-gptrarray.c, nixxml-ghashtable.c)\<close>

text \<open>The loops over an array or a table run to the end and remember a failed check.\<close>

fun NixXML_check_g_ptr_array :: "('a \<Rightarrow> bool) \<Rightarrow> 'a list \<Rightarrow> bool" where
  "NixXML_check_g_ptr_array check_element [] = True"
| "NixXML_check_g_ptr_array check_element (x # xs) =
     (let status = NixXML_check_g_ptr_array check_element xs in
      if \<not> check_element x then False else status)"

fun NixXML_check_g_hash_table :: "('v \<Rightarrow> bool) \<Rightarrow> 'v hashtable \<Rightarrow> bool" where
  "NixXML_check_g_hash_table check_function [] = True"
| "NixXML_check_g_hash_table check_function ((key, value) # t) =
     (let status = NixXML_check_g_hash_table check_function t in
      if \<not> check_function value then False else status)"

fun compare_elements :: "('a \<Rightarrow> 'b \<Rightarrow> bool) \<Rightarrow> 'a list \<Rightarrow> 'b list \<Rightarrow> bool" where
  "compare_elements compare_element (x # xs) (y # ys) =
     (if \<not> compare_element x y then False else compare_elements compare_element xs ys)"
| "compare_elements compare_element _ _ = True"

definition NixXML_compare_g_ptr_arrays :: "('a \<Rightarrow> 'b \<Rightarrow> bool) \<Rightarrow> 'a list \<Rightarrow> 'b list \<Rightarrow> bool" where
  "NixXML_compare_g_ptr_arrays compare_element left right =
     (if length left = length right then compare_elements compare_element left right else False)"

fun compare_entries :: "('v \<Rightarrow> 'u \<Rightarrow> bool) \<Rightarrow> 'v hashtable \<Rightarrow> 'u hashtable \<Rightarrow> bool" where
  "compare_entries compare_function [] t2 = True"
| "compare_entries compare_function ((key, value) # t1) t2 =
     (case map_of t2 key of
        None \<Rightarrow> False
      | Some value2 \<Rightarrow>
          if \<not> compare_function value value2 then False else compare_entries compare_function t1 t2)"

definition NixXML_compare_g_hash_tables ::
  "('v \<Rightarrow> 'u \<Rightarrow> bool) \<Rightarrow> 'v hashtable \<Rightarrow> 'u hashtable \<Rightarrow> bool" where
  "NixXML_compare_g_hash_tables compare_function t1 t2 =
     (if length t1 = length t2 then compare_entries compare_function t1 t2 else False)"

lemma check_g_ptr_array_iff [simp]:
  "NixXML_check_g_ptr_array check xs \<longleftrightarrow> (\<forall>x \<in> set xs. check x)"
  by (induction xs) (auto simp: Let_def)

lemma check_g_hash_table_iff [simp]:
  "NixXML_check_g_hash_table check t \<longleftrightarrow> (\<forall>(k, v) \<in> set t. check v)"
  by (induction t) (auto simp: Let_def split: if_splits)

lemma compare_elements_iff:
  "length xs = length ys \<Longrightarrow> compare_elements c xs ys \<longleftrightarrow> list_all2 c xs ys"
  by (induction xs ys rule: list_induct2) auto

lemma compare_g_ptr_arrays_iff: "NixXML_compare_g_ptr_arrays c xs ys \<longleftrightarrow> list_all2 c xs ys"
  unfolding NixXML_compare_g_ptr_arrays_def
  by (auto simp: compare_elements_iff dest: list_all2_lengthD)

lemma compare_entries_iff:
  "compare_entries c t1 t2 \<longleftrightarrow> (\<forall>(k, v) \<in> set t1. \<exists>v2. map_of t2 k = Some v2 \<and> c v v2)"
proof (induction t1)
  case (Cons e t1)
  obtain k v where e: "e = (k, v)" by fastforce
  show ?case
  proof (cases "map_of t2 k")
    case None
    then show ?thesis using e by auto
  next
    case (Some v2)
    with e Cons.IH show ?thesis by (cases "c v v2") auto
  qed
qed simp

lemma card_table: "wf_table t \<Longrightarrow> card (fst ` set t) = length t"
  using distinct_card [of "map fst t"] by simp

text \<open>Tables of the same size that agree on the entries of one agree on all entries.\<close>

lemma compare_g_hash_tables_iff:
  assumes "wf_table t1" and "wf_table t2"
  shows "NixXML_compare_g_hash_tables c t1 t2 \<longleftrightarrow>
    (\<forall>k. rel_option c (map_of t1 k) (map_of t2 k))"
proof
  assume "NixXML_compare_g_hash_tables c t1 t2"
  then have len: "length t1 = length t2" and all: "compare_entries c t1 t2"
    by (auto simp: NixXML_compare_g_hash_tables_def split: if_splits)
  from all have "fst ` set t1 \<subseteq> fst ` set t2"
    by (force simp: compare_entries_iff dest: map_of_SomeD)
  moreover have "card (fst ` set t1) = card (fst ` set t2)"
    using card_table [OF assms(1)] card_table [OF assms(2)] len by simp
  ultimately have dom: "fst ` set t1 = fst ` set t2"
    by (simp add: card_subset_eq)
  show "\<forall>k. rel_option c (map_of t1 k) (map_of t2 k)"
  proof
    fix k
    show "rel_option c (map_of t1 k) (map_of t2 k)"
    proof (cases "map_of t1 k")
      case None
      then have "k \<notin> fst ` set t2" using dom by (simp add: map_of_eq_None_iff)
      then have "map_of t2 k = None" by (simp add: map_of_eq_None_iff)
      with None show ?thesis by simp
    next
      case (Some v)
      then have "(k, v) \<in> set t1" by (rule map_of_SomeD)
      with all Some show ?thesis by (auto simp: compare_entries_iff)
    qed
  qed
next
  assume r: "\<forall>k. rel_option c (map_of t1 k) (map_of t2 k)"
  have "map_of t1 k = None \<longleftrightarrow> map_of t2 k = None" for k
    using spec [OF r, of k] by (cases "map_of t1 k"; cases "map_of t2 k") auto
  then have "dom (map_of t1) = dom (map_of t2)" by (simp add: dom_def)
  then have "card (fst ` set t1) = card (fst ` set t2)" by (simp add: dom_map_of_conv_image_fst)
  then have "length t1 = length t2"
    using card_table [OF assms(1)] card_table [OF assms(2)] by simp
  moreover have "compare_entries c t1 t2"
    unfolding compare_entries_iff
  proof clarify
    fix k v assume "(k, v) \<in> set t1"
    with assms(1) have "map_of t1 k = Some v" by simp
    with r have "rel_option c (Some v) (map_of t2 k)" by metis
    then show "\<exists>v2. map_of t2 k = Some v2 \<and> c v v2" by (cases "map_of t2 k") auto
  qed
  ultimately show "NixXML_compare_g_hash_tables c t1 t2" by (simp add: NixXML_compare_g_hash_tables_def)
qed

text \<open>The property tables of strings: equal as maps exactly if they compare equal.\<close>

definition NixXML_compare_xml_strings :: "cstr \<Rightarrow> cstr \<Rightarrow> bool" where
  "NixXML_compare_xml_strings left right = (xmlStrcmp left right = 0)"

definition NixXML_compare_g_property_tables :: "string hashtable \<Rightarrow> string hashtable \<Rightarrow> bool" where
  "NixXML_compare_g_property_tables t1 t2 =
     NixXML_compare_g_hash_tables (\<lambda>a b. NixXML_compare_xml_strings (Some a) (Some b)) t1 t2"

lemma compare_g_property_tables_iff:
  assumes "wf_table t1" and "wf_table t2"
  shows "NixXML_compare_g_property_tables t1 t2 \<longleftrightarrow> map_of t1 = map_of t2"
proof -
  have "NixXML_compare_g_property_tables t1 t2 \<longleftrightarrow>
      (\<forall>k. rel_option (=) (map_of t1 k) (map_of t2 k))"
    unfolding NixXML_compare_g_property_tables_def compare_g_hash_tables_iff [OF assms]
    by (simp add: NixXML_compare_xml_strings_def order_simps)
  then show ?thesis by (simp add: option.rel_eq fun_eq_iff)
qed

section \<open>Iteration in the order of the keys (nixxml-ghashtable-iter.c)\<close>

text \<open>
  The iterator sorts an array of the keys with \<open>qsort\<close> and \<open>g_strcmp0\<close>, then looks every
  key up again.
\<close>

record 'v NixXML_GHashTableOrderedIter =
  hash_table :: "'v hashtable"
  keys :: "string list"
  index :: nat

definition NixXML_g_hash_table_ordered_iter_init :: "'v hashtable \<Rightarrow> 'v NixXML_GHashTableOrderedIter" where
  "NixXML_g_hash_table_ordered_iter_init t = \<lparr>hash_table = t, keys = sort (map fst t), index = 0\<rparr>"

definition NixXML_g_hash_table_ordered_iter_next ::
  "'v NixXML_GHashTableOrderedIter \<Rightarrow> ((string \<times> 'v option) \<times> 'v NixXML_GHashTableOrderedIter) option" where
  "NixXML_g_hash_table_ordered_iter_next iter =
     (if index iter < length (keys iter)
      then (let key = keys iter ! index iter in
            Some ((key, map_of (hash_table iter) key), iter\<lparr>index := index iter + 1\<rparr>))
      else None)"

function ordered_entries :: "'v NixXML_GHashTableOrderedIter \<Rightarrow> (string \<times> 'v option) list" where
  "ordered_entries iter =
     (case NixXML_g_hash_table_ordered_iter_next iter of
        None \<Rightarrow> []
      | Some (entry, iter') \<Rightarrow> entry # ordered_entries iter')"
  by pat_completeness auto
termination
  by (relation "measure (\<lambda>iter. length (keys iter) - index iter)")
    (auto simp: NixXML_g_hash_table_ordered_iter_next_def Let_def split: if_splits)

declare ordered_entries.simps [simp del]

lemma ordered_entries_drop:
  "ordered_entries iter =
     map (\<lambda>k. (k, map_of (hash_table iter) k)) (drop (index iter) (keys iter))"
proof (induction iter rule: ordered_entries.induct)
  case (1 iter)
  show ?case
  proof (cases "index iter < length (keys iter)")
    case True
    then have "NixXML_g_hash_table_ordered_iter_next iter =
      Some ((keys iter ! index iter, map_of (hash_table iter) (keys iter ! index iter)),
        iter\<lparr>index := index iter + 1\<rparr>)"
      by (simp add: NixXML_g_hash_table_ordered_iter_next_def Let_def)
    with 1 True show ?thesis
      by (subst ordered_entries.simps) (simp flip: Cons_nth_drop_Suc)
  next
    case False
    then show ?thesis
      by (subst ordered_entries.simps) (simp add: NixXML_g_hash_table_ordered_iter_next_def)
  qed
qed

lemma ordered_iteration:
  assumes "wf_table t"
  shows "ordered_entries (NixXML_g_hash_table_ordered_iter_init t)
    = map (\<lambda>(k, v). (k, Some v)) (sort_key fst t)"
proof -
  have "map fst (sort_key fst t) = sort (map fst t)"
  proof (rule sorted_distinct_set_unique)
    show "distinct (map fst (sort_key fst t))"
      using assms by (metis distinct_map distinct_sort set_sort)
  qed (use assms in simp_all)
  then have "ordered_entries (NixXML_g_hash_table_ordered_iter_init t)
      = map (\<lambda>k. (k, map_of t k)) (map fst (sort_key fst t))"
    by (simp add: ordered_entries_drop NixXML_g_hash_table_ordered_iter_init_def)
  also have "\<dots> = map (\<lambda>(k, v). (k, Some v)) (sort_key fst t)"
    using assms by auto
  finally show ?thesis .
qed

section \<open>Comparison of nodes (nixxml-node.c, nixxml-glib.c)\<close>

text \<open>The comparisons call the element comparison on members only.\<close>

lemma compare_g_ptr_arrays_cong [fundef_cong]:
  assumes "xs = xs'" and "ys = ys'"
    and "\<And>x y. x \<in> set xs' \<Longrightarrow> y \<in> set ys' \<Longrightarrow> c x y = c' x y"
  shows "NixXML_compare_g_ptr_arrays c xs ys = NixXML_compare_g_ptr_arrays c' xs' ys'"
  using assms by (simp add: compare_g_ptr_arrays_iff list_all2_conv_all_nth cong: conj_cong)

lemma compare_g_hash_tables_cong [fundef_cong]:
  assumes "t = t'" and "u = u'"
    and "\<And>k x k' y. (k, x) \<in> set t' \<Longrightarrow> (k', y) \<in> set u' \<Longrightarrow> c x y = c' x y"
  shows "NixXML_compare_g_hash_tables c t u = NixXML_compare_g_hash_tables c' t' u'"
proof -
  have "compare_entries c t u \<longleftrightarrow> compare_entries c' t u"
    unfolding compare_entries_iff
  proof (intro ball_cong refl, clarsimp)
    fix k v assume "(k, v) \<in> set t"
    then show "(\<exists>v2. map_of u k = Some v2 \<and> c v v2) \<longleftrightarrow> (\<exists>v2. map_of u k = Some v2 \<and> c' v v2)"
      using assms by (metis map_of_SomeD)
  qed
  with assms(1,2) show ?thesis by (simp add: NixXML_compare_g_hash_tables_def)
qed

lemma size_list_member: "x \<in> set xs \<Longrightarrow> size x < Suc (size_list size xs)"
  by (simp add: less_Suc_eq_le size_list_estimation')

lemma size_table_member:
  "(k, x) \<in> set t \<Longrightarrow> size x < Suc (size_list (size_prod (\<lambda>x. 0) size) t)"
  by (rule less_SucI, rule size_list_estimation [of "(k, x)"]) auto

function (sequential) NixXML_compare_nodes_glib :: "NixXML_Node \<Rightarrow> NixXML_Node \<Rightarrow> bool" where
  "NixXML_compare_nodes_glib (NIX_XML_TYPE_STRING l) (NIX_XML_TYPE_STRING r) =
     (xmlStrcmp (Some l) (Some r) = 0)"
| "NixXML_compare_nodes_glib (NIX_XML_TYPE_INT l) (NIX_XML_TYPE_INT r) =
     (xmlStrcmp (Some l) (Some r) = 0)"
| "NixXML_compare_nodes_glib (NIX_XML_TYPE_FLOAT l) (NIX_XML_TYPE_FLOAT r) =
     (xmlStrcmp (Some l) (Some r) = 0)"
| "NixXML_compare_nodes_glib (NIX_XML_TYPE_BOOL l) (NIX_XML_TYPE_BOOL r) =
     (xmlStrcmp (Some l) (Some r) = 0)"
| "NixXML_compare_nodes_glib (NIX_XML_TYPE_PATH l) (NIX_XML_TYPE_PATH r) =
     (xmlStrcmp (Some l) (Some r) = 0)"
| "NixXML_compare_nodes_glib (NIX_XML_TYPE_LIST l) (NIX_XML_TYPE_LIST r) =
     NixXML_compare_g_ptr_arrays NixXML_compare_nodes_glib l r"
| "NixXML_compare_nodes_glib (NIX_XML_TYPE_ATTRSET l) (NIX_XML_TYPE_ATTRSET r) =
     NixXML_compare_g_hash_tables NixXML_compare_nodes_glib l r"
| "NixXML_compare_nodes_glib _ _ = False"
  by pat_completeness auto
termination
  by (relation "measure (\<lambda>(l, r). size l)")
    (simp_all add: size_list_member size_table_member)


text \<open>
  Two nodes compare equal exactly if they have the same canonical form, in which every
  attribute set is sorted by its names: the order of the entries does not matter, the
  order of list elements and the types do.
\<close>

fun wf_node :: "NixXML_Node \<Rightarrow> bool" where
  "wf_node (NIX_XML_TYPE_LIST xs) = (\<forall>x \<in> set xs. wf_node x)"
| "wf_node (NIX_XML_TYPE_ATTRSET t) = (wf_table t \<and> (\<forall>e \<in> set t. wf_node (snd e)))"
| "wf_node _ = True"

function canonical :: "NixXML_Node \<Rightarrow> NixXML_Node" where
  "canonical (NIX_XML_TYPE_LIST xs) = NIX_XML_TYPE_LIST (map canonical xs)"
| "canonical (NIX_XML_TYPE_ATTRSET t) =
     NIX_XML_TYPE_ATTRSET (sort_key fst (map (\<lambda>e. (fst e, canonical (snd e))) t))"
| "canonical (NIX_XML_TYPE_STRING s) = NIX_XML_TYPE_STRING s"
| "canonical (NIX_XML_TYPE_INT s) = NIX_XML_TYPE_INT s"
| "canonical (NIX_XML_TYPE_FLOAT s) = NIX_XML_TYPE_FLOAT s"
| "canonical (NIX_XML_TYPE_BOOL s) = NIX_XML_TYPE_BOOL s"
| "canonical (NIX_XML_TYPE_PATH s) = NIX_XML_TYPE_PATH s"
  by pat_completeness auto
termination
  by (relation "measure size") (auto simp: size_list_member intro: size_table_member)

lemma map_of_sort_key: "wf_table t \<Longrightarrow> map_of (sort_key fst t) = map_of t"
  by (rule map_of_inject_set [THEN iffD2]) (simp_all add: distinct_map)

lemma sort_key_eq_iff:
  assumes "wf_table t" and "wf_table u"
  shows "sort_key fst t = sort_key fst u \<longleftrightarrow> map_of t = map_of u"
proof
  assume "sort_key fst t = sort_key fst u"
  with assms show "map_of t = map_of u" by (metis map_of_sort_key)
next
  assume "map_of t = map_of u"
  with assms have "set t = set u" by (simp add: map_of_inject_set)
  moreover have "distinct t" "distinct u" using assms by (simp_all add: distinct_map)
  ultimately have "mset t = mset u" by (simp add: set_eq_iff_mset_eq_distinct)
  then have "mset (sort_key fst u) = mset t" by simp
  moreover have "inj_on fst (set t)" using assms(1) by (simp add: distinct_map)
  ultimately show "sort_key fst t = sort_key fst u"
    by (intro sort_key_inj_key_eq) simp_all
qed

lemma rel_option_canonical:
  assumes "\<And>x y. ox = Some x \<Longrightarrow> oy = Some y \<Longrightarrow> c x y \<longleftrightarrow> f x = f y"
  shows "rel_option c ox oy \<longleftrightarrow> map_option f ox = map_option f oy"
  using assms by (cases ox; cases oy) auto

lemma map_of_canonical:
  "map_of (map (\<lambda>e. (fst e, f (snd e))) t) k = map_option f (map_of t k)"
  by (induction t) auto

lemma compare_attrsets_canonical:
  assumes "wf_table t" and "wf_table u"
    and "\<And>k x k' y. (k, x) \<in> set t \<Longrightarrow> (k', y) \<in> set u \<Longrightarrow> c x y \<longleftrightarrow> f x = f y"
  shows "NixXML_compare_g_hash_tables c t u \<longleftrightarrow>
    sort_key fst (map (\<lambda>e. (fst e, f (snd e))) t) = sort_key fst (map (\<lambda>e. (fst e, f (snd e))) u)"
proof -
  have keys: "map fst (map (\<lambda>e. (fst e, f (snd e))) v) = map fst v" for v :: "(string \<times> 'a) list"
    by simp
  have wf: "wf_table (map (\<lambda>e. (fst e, f (snd e))) t)" "wf_table (map (\<lambda>e. (fst e, f (snd e))) u)"
    using assms(1,2) by (simp_all only: keys)
  have "NixXML_compare_g_hash_tables c t u \<longleftrightarrow>
      (\<forall>k. map_option f (map_of t k) = map_option f (map_of u k))"
    unfolding compare_g_hash_tables_iff [OF assms(1,2)]
    using assms(3) by (intro all_cong1 rel_option_canonical) (blast dest: map_of_SomeD)
  also have "\<dots> \<longleftrightarrow> map_of (map (\<lambda>e. (fst e, f (snd e))) t) = map_of (map (\<lambda>e. (fst e, f (snd e))) u)"
    by (simp add: fun_eq_iff map_of_canonical)
  finally show ?thesis by (simp only: sort_key_eq_iff [OF wf])
qed

lemma compare_lists_canonical:
  assumes "\<And>x y. x \<in> set xs \<Longrightarrow> y \<in> set ys \<Longrightarrow> c x y \<longleftrightarrow> f x = f y"
  shows "NixXML_compare_g_ptr_arrays c xs ys \<longleftrightarrow> map f xs = map f ys"
  unfolding compare_g_ptr_arrays_iff list_all2_conv_all_nth list_eq_iff_nth_eq
  using assms by auto

lemma compare_nodes_canonical:
  assumes "wf_node l" and "wf_node r"
  shows "NixXML_compare_nodes_glib l r \<longleftrightarrow> canonical l = canonical r"
  using assms
proof (induction l r rule: NixXML_compare_nodes_glib.induct)
  case (6 l r)
  then have "NixXML_compare_g_ptr_arrays NixXML_compare_nodes_glib l r \<longleftrightarrow> map canonical l = map canonical r"
    by (intro compare_lists_canonical) auto
  then show ?case by simp
next
  case (7 l r)
  have "NixXML_compare_g_hash_tables NixXML_compare_nodes_glib l r \<longleftrightarrow>
    sort_key fst (map (\<lambda>e. (fst e, canonical (snd e))) l) = sort_key fst (map (\<lambda>e. (fst e, canonical (snd e))) r)"
    using 7 by (intro compare_attrsets_canonical) fastforce+
  then show ?case by simp
qed (simp_all add: order_simps)

section \<open>Environment variables (nixxml-generate-env.c)\<close>

text \<open>\<open>xmlStrcat\<close> on a string that is not NULL; adding NULL changes nothing.\<close>

definition xmlStrcat :: "string \<Rightarrow> cstr \<Rightarrow> string" where
  "xmlStrcat cur add = (case add of None \<Rightarrow> cur | Some a \<Rightarrow> cur @ a)"

definition NixXML_generate_env_value_from_string :: "string \<Rightarrow> cstr" where
  "NixXML_generate_env_value_from_string value = Some value"

definition NixXML_generate_env_value_from_bool :: "int \<Rightarrow> cstr" where
  "NixXML_generate_env_value_from_bool value = (if value \<noteq> 0 then Some ''1'' else Some '''')"

definition NixXML_generate_env_value_from_bool_string :: "string \<Rightarrow> cstr" where
  "NixXML_generate_env_value_from_bool_string value =
     (if xmlStrcmp (Some value) (Some ''true'') = 0 then Some ''1'' else Some '''')"

definition NixXML_append_value_to_list_env_value :: "cstr \<Rightarrow> cstr \<Rightarrow> cstr" where
  "NixXML_append_value_to_list_env_value value add_value =
     (case value of
        None \<Rightarrow> add_value
      | Some v \<Rightarrow> Some (xmlStrcat (xmlStrcat v (Some '' '')) add_value))"

definition NixXML_generate_env_variable :: "string \<Rightarrow> 'a \<Rightarrow> ('a \<Rightarrow> cstr) \<Rightarrow> string" where
  "NixXML_generate_env_variable key value generate_value =
     xmlStrcat (xmlStrcat key (Some ''='')) (generate_value value)"

definition NixXML_generate_env_value_from_g_ptrarray :: "('a \<Rightarrow> cstr) \<Rightarrow> 'a list \<Rightarrow> cstr" where
  "NixXML_generate_env_value_from_g_ptrarray generate_value xs =
     foldl (\<lambda>result v. NixXML_append_value_to_list_env_value result (generate_value v)) None xs"

lemma env_value_from_g_ptrarray_cong [fundef_cong]:
  assumes "xs = ys" and "\<And>x. x \<in> set ys \<Longrightarrow> g x = h x"
  shows "NixXML_generate_env_value_from_g_ptrarray g xs = NixXML_generate_env_value_from_g_ptrarray h ys"
  unfolding NixXML_generate_env_value_from_g_ptrarray_def using assms
  by (intro foldl_cong) auto

function NixXML_generate_env_value_from_node :: "NixXML_Node \<Rightarrow> cstr" where
  "NixXML_generate_env_value_from_node (NIX_XML_TYPE_STRING s) = NixXML_generate_env_value_from_string s"
| "NixXML_generate_env_value_from_node (NIX_XML_TYPE_PATH s) = NixXML_generate_env_value_from_string s"
| "NixXML_generate_env_value_from_node (NIX_XML_TYPE_INT s) = NixXML_generate_env_value_from_string s"
| "NixXML_generate_env_value_from_node (NIX_XML_TYPE_FLOAT s) = NixXML_generate_env_value_from_string s"
| "NixXML_generate_env_value_from_node (NIX_XML_TYPE_BOOL s) = NixXML_generate_env_value_from_bool_string s"
| "NixXML_generate_env_value_from_node (NIX_XML_TYPE_ATTRSET t) = None"
| "NixXML_generate_env_value_from_node (NIX_XML_TYPE_LIST xs) =
     NixXML_generate_env_value_from_g_ptrarray NixXML_generate_env_value_from_node xs"
  by pat_completeness auto
termination
  by (relation "measure size") (auto simp: size_list_member)

definition NixXML_generate_env_vars_from_g_hash_table :: "('v \<Rightarrow> cstr) \<Rightarrow> 'v hashtable \<Rightarrow> string list" where
  "NixXML_generate_env_vars_from_g_hash_table generate_value t =
     map (\<lambda>(key, obj). NixXML_generate_env_variable key obj generate_value) t"

text \<open>A table that does not exist has neither a size nor entries to iterate over.\<close>

definition NixXML_generate_env_vars_generic_glib :: "NixXML_Node hashtable option \<Rightarrow> string list result" where
  "NixXML_generate_env_vars_generic_glib t =
     bindr (deref t) (\<lambda>t. Inr (NixXML_generate_env_vars_from_g_hash_table NixXML_generate_env_value_from_node t))"

text \<open>The value of a list is its members' values joined by single blanks.\<close>

lemma env_list_joined:
  "NixXML_generate_env_value_from_g_ptrarray Some (x # xs) = Some (x @ concat (map (\<lambda>s. '' '' @ s) xs))"
proof -
  have "foldl (\<lambda>r v. NixXML_append_value_to_list_env_value r (Some v)) (Some a) xs
      = Some (a @ concat (map (\<lambda>s. '' '' @ s) xs))" for a
    by (induction xs arbitrary: a) (simp_all add: NixXML_append_value_to_list_env_value_def xmlStrcat_def)
  then show ?thesis
    by (simp add: NixXML_generate_env_value_from_g_ptrarray_def NixXML_append_value_to_list_env_value_def)
qed

end
