(* ===== verification/NixXML_Parse.thy ===== *)
theory NixXML_Parse
  imports NixXML
begin

text \<open>
  The combinators of \<open>libnixxml/nixxml-parse.c\<close> and \<open>nixxml-parse-generic.c\<close>, which turn the
  tree libxml2 has built from a document into lists, records and hash tables. An object that
  a parse function does not build is NULL, the value None.
\<close>

section \<open>The document tree\<close>

text \<open>
  An element has a name, attributes and child nodes. An attribute whose value is empty has
  no text node, and its content is not there to be read.
\<close>

datatype xmlNode =
    XML_ELEMENT_NODE (node_name: string) (node_properties: "(string \<times> cstr) list") (node_children: "xmlNode list")
  | XML_TEXT_NODE (node_content: string)
  | XML_OTHER_NODE (node_name: string)

definition xml_name :: "xmlNode \<Rightarrow> string" where
  "xml_name n = (case n of
     XML_ELEMENT_NODE name _ _ \<Rightarrow> name | XML_TEXT_NODE _ \<Rightarrow> ''text'' | XML_OTHER_NODE name \<Rightarrow> name)"

definition xml_properties :: "xmlNode \<Rightarrow> (string \<times> cstr) list" where
  "xml_properties n = (case n of XML_ELEMENT_NODE _ ps _ \<Rightarrow> ps | _ \<Rightarrow> [])"

definition xml_children :: "xmlNode \<Rightarrow> xmlNode list" where
  "xml_children n = (case n of XML_ELEMENT_NODE _ _ cs \<Rightarrow> cs | _ \<Rightarrow> [])"

definition is_element :: "xmlNode \<Rightarrow> bool" where
  "is_element n = (case n of XML_ELEMENT_NODE _ _ _ \<Rightarrow> True | _ \<Rightarrow> False)"

lemma xml_simps [simp]:
  "xml_name (XML_ELEMENT_NODE n p c) = n"
  "xml_properties (XML_ELEMENT_NODE n p c) = p"
  "xml_children (XML_ELEMENT_NODE n p c) = c"
  "is_element (XML_ELEMENT_NODE n p c)"
  "xml_children (XML_TEXT_NODE s) = []"
  "\<not> is_element (XML_TEXT_NODE s)"
  "\<not> is_element (XML_OTHER_NODE s)"
  by (simp_all add: xml_name_def xml_properties_def xml_children_def is_element_def)

section \<open>Values and attributes\<close>

text \<open>The last attribute with the name counts.\<close>

fun find_property_from :: "cstr \<Rightarrow> string \<Rightarrow> (string \<times> cstr) list \<Rightarrow> cstr result" where
  "find_property_from result property_name [] = Inr result"
| "find_property_from result property_name ((name, children) # ps) =
     (if xmlStrcmp (Some name) (Some property_name) = 0
      then bindr (deref children) (\<lambda>content. find_property_from (Some content) property_name ps)
      else find_property_from result property_name ps)"

definition NixXML_find_property :: "xmlNode \<Rightarrow> string \<Rightarrow> cstr result" where
  "NixXML_find_property element property_name =
     find_property_from None property_name (xml_properties element)"

definition NixXML_parse_value :: "xmlNode \<Rightarrow> string" where
  "NixXML_parse_value element =
     (case xml_children element of XML_TEXT_NODE content # _ \<Rightarrow> content | _ \<Rightarrow> '''')"

text \<open>
  \<open>atoi\<close>: leading blanks, an optional sign and the digits that follow. The C standard leaves
  a value that does not fit an \<open>int\<close> undefined; the model returns the number itself.
\<close>

definition is_digit :: "char \<Rightarrow> bool" where
  "is_digit c \<longleftrightarrow> 48 \<le> (of_char c :: nat) \<and> (of_char c :: nat) \<le> 57"

definition is_space :: "char \<Rightarrow> bool" where
  "is_space c \<longleftrightarrow> of_char c = (32 :: nat) \<or> 9 \<le> (of_char c :: nat) \<and> (of_char c :: nat) \<le> 13"

definition digits_value :: "string \<Rightarrow> int" where
  "digits_value s = foldl (\<lambda>n c. 10 * n + int (of_char c - 48)) 0 (takeWhile is_digit s)"

definition atoi :: "string \<Rightarrow> int" where
  "atoi s = (case dropWhile is_space s of
       [] \<Rightarrow> 0
     | c # cs \<Rightarrow> if c = CHR ''-'' then - digits_value cs
                 else if c = CHR ''+'' then digits_value cs
                 else digits_value (c # cs))"

definition NixXML_parse_int :: "xmlNode \<Rightarrow> int option" where
  "NixXML_parse_int element =
     (case xml_children element of XML_TEXT_NODE content # _ \<Rightarrow> Some (atoi content) | _ \<Rightarrow> None)"

section \<open>Lists\<close>

definition selected :: "cstr \<Rightarrow> xmlNode \<Rightarrow> bool" where
  "selected child_element_name n \<longleftrightarrow>
     is_element n \<and> (child_element_name = None \<or> xmlStrcmp (Some (xml_name n)) child_element_name = 0)"

definition NixXML_add_value_to_g_ptr_array :: "'a list \<Rightarrow> 'a option \<Rightarrow> 'a list" where
  "NixXML_add_value_to_g_ptr_array list value = (case value of None \<Rightarrow> list | Some v \<Rightarrow> list @ [v])"

fun parse_list_children ::
  "cstr \<Rightarrow> (xmlNode \<Rightarrow> 'a option result) \<Rightarrow> 'a list \<Rightarrow> xmlNode list \<Rightarrow> 'a list result" where
  "parse_list_children child_element_name parse_object list [] = Inr list"
| "parse_list_children child_element_name parse_object list (child # rest) =
     (if selected child_element_name child
      then bindr (parse_object child) (\<lambda>value.
        parse_list_children child_element_name parse_object
          (NixXML_add_value_to_g_ptr_array list value) rest)
      else parse_list_children child_element_name parse_object list rest)"

definition NixXML_parse_g_ptr_array ::
  "xmlNode \<Rightarrow> cstr \<Rightarrow> (xmlNode \<Rightarrow> 'a option result) \<Rightarrow> 'a list result" where
  "NixXML_parse_g_ptr_array element child_element_name parse_object =
     parse_list_children child_element_name parse_object [] (xml_children element)"

section \<open>Attribute sets\<close>

text \<open>
  In the simple notation an attribute is an element named after it, in the verbose one it
  is a child element with an attribute that holds the name. What happens to an attribute is
  a function on the object under construction.
\<close>

fun parse_simple_children ::
  "(xmlNode \<Rightarrow> string \<Rightarrow> 't \<Rightarrow> 't result) \<Rightarrow> 't \<Rightarrow> xmlNode list \<Rightarrow> 't result" where
  "parse_simple_children process_value table [] = Inr table"
| "parse_simple_children process_value table (child # rest) =
     (if is_element child
      then bindr (process_value child (xml_name child) table)
             (\<lambda>table'. parse_simple_children process_value table' rest)
      else parse_simple_children process_value table rest)"

definition parse_simple_attrset ::
  "xmlNode \<Rightarrow> 't \<Rightarrow> (xmlNode \<Rightarrow> string \<Rightarrow> 't \<Rightarrow> 't result) \<Rightarrow> 't result" where
  "parse_simple_attrset element table process_value =
     parse_simple_children process_value table (xml_children element)"

fun parse_verbose_children ::
  "cstr \<Rightarrow> string \<Rightarrow> (xmlNode \<Rightarrow> string \<Rightarrow> 't \<Rightarrow> 't result) \<Rightarrow> 't \<Rightarrow> xmlNode list \<Rightarrow> 't result" where
  "parse_verbose_children child_element_name name_property_name process_value table [] = Inr table"
| "parse_verbose_children child_element_name name_property_name process_value table (child # rest) =
     (if selected child_element_name child
      then bindr (NixXML_find_property child name_property_name) (\<lambda>key.
        case key of
          None \<Rightarrow> parse_verbose_children child_element_name name_property_name process_value table rest
        | Some k \<Rightarrow> bindr (process_value child k table)
            (\<lambda>table'. parse_verbose_children child_element_name name_property_name process_value table' rest))
      else parse_verbose_children child_element_name name_property_name process_value table rest)"

definition parse_verbose_attrset ::
  "xmlNode \<Rightarrow> cstr \<Rightarrow> string \<Rightarrow> 't \<Rightarrow> (xmlNode \<Rightarrow> string \<Rightarrow> 't \<Rightarrow> 't result) \<Rightarrow> 't result" where
  "parse_verbose_attrset element child_element_name name_property_name table process_value =
     parse_verbose_children child_element_name name_property_name process_value table (xml_children element)"

text \<open>Parsing a value and inserting it: a value that is NULL is not inserted.\<close>

definition NixXML_insert_into_g_hash_table :: "'v hashtable \<Rightarrow> string \<Rightarrow> 'v option \<Rightarrow> 'v hashtable" where
  "NixXML_insert_into_g_hash_table table key value =
     (case value of None \<Rightarrow> table | Some v \<Rightarrow> g_hash_table_insert key v table)"

definition execute_parse_and_insert_functions ::
  "(xmlNode \<Rightarrow> 'a option result) \<Rightarrow> ('t \<Rightarrow> string \<Rightarrow> 'a option \<Rightarrow> 't) \<Rightarrow> xmlNode \<Rightarrow> string \<Rightarrow> 't \<Rightarrow> 't result" where
  "execute_parse_and_insert_functions parse_object insert_object child key table =
     bindr (parse_object child) (\<lambda>value. Inr (insert_object table key value))"

definition NixXML_parse_simple_attrset ::
  "xmlNode \<Rightarrow> 't \<Rightarrow> (xmlNode \<Rightarrow> 'a option result) \<Rightarrow> ('t \<Rightarrow> string \<Rightarrow> 'a option \<Rightarrow> 't) \<Rightarrow> 't result" where
  "NixXML_parse_simple_attrset element table parse_object insert_object =
     parse_simple_attrset element table (execute_parse_and_insert_functions parse_object insert_object)"

definition NixXML_parse_verbose_attrset ::
  "xmlNode \<Rightarrow> cstr \<Rightarrow> string \<Rightarrow> 't \<Rightarrow> (xmlNode \<Rightarrow> 'a option result)
    \<Rightarrow> ('t \<Rightarrow> string \<Rightarrow> 'a option \<Rightarrow> 't) \<Rightarrow> 't result" where
  "NixXML_parse_verbose_attrset element child_element_name name_property_name table parse_object insert_object =
     parse_verbose_attrset element child_element_name name_property_name table
       (execute_parse_and_insert_functions parse_object insert_object)"

definition NixXML_parse_simple_heterogeneous_attrset ::
  "xmlNode \<Rightarrow> 't \<Rightarrow> (xmlNode \<Rightarrow> string \<Rightarrow> 't \<Rightarrow> 't result) \<Rightarrow> 't result" where
  "NixXML_parse_simple_heterogeneous_attrset element table parse_and_insert_object =
     parse_simple_attrset element table parse_and_insert_object"

definition NixXML_parse_g_hash_table_verbose ::
  "xmlNode \<Rightarrow> string \<Rightarrow> string \<Rightarrow> (xmlNode \<Rightarrow> 'v option result) \<Rightarrow> 'v hashtable result" where
  "NixXML_parse_g_hash_table_verbose element child_element_name name_property_name parse_object =
     NixXML_parse_verbose_attrset element (Some child_element_name) name_property_name []
       parse_object NixXML_insert_into_g_hash_table"

definition NixXML_parse_g_hash_table_simple ::
  "xmlNode \<Rightarrow> (xmlNode \<Rightarrow> 'v option result) \<Rightarrow> 'v hashtable result" where
  "NixXML_parse_g_hash_table_simple element parse_object =
     NixXML_parse_simple_attrset element [] parse_object NixXML_insert_into_g_hash_table"

text \<open>A table that is parsed has every key once.\<close>

lemma parse_verbose_children_inv:
  assumes "parse_verbose_children c nm pv t ns = Inr t'" and "P t"
    and "\<And>n k u u'. n \<in> set ns \<Longrightarrow> P u \<Longrightarrow> pv n k u = Inr u' \<Longrightarrow> P u'"
  shows "P t'"
  using assms
proof (induction ns arbitrary: t)
  case (Cons n ns)
  then show ?case
    by (auto simp: result_simps split: if_splits option.splits) blast+
qed simp

lemma parse_simple_children_inv:
  assumes "parse_simple_children pv t ns = Inr t'" and "P t"
    and "\<And>n k u u'. n \<in> set ns \<Longrightarrow> P u \<Longrightarrow> pv n k u = Inr u' \<Longrightarrow> P u'"
  shows "P t'"
  using assms
proof (induction ns arbitrary: t)
  case (Cons n ns)
  then show ?case
    by (auto simp: result_simps split: if_splits) blast+
qed simp

lemma wf_insert_into_g_hash_table [simp]:
  "wf_table t \<Longrightarrow> wf_table (NixXML_insert_into_g_hash_table t k v)"
  by (auto simp: NixXML_insert_into_g_hash_table_def split: option.splits)

lemma parse_g_hash_table_verbose_wf:
  assumes "NixXML_parse_g_hash_table_verbose e c nm f = Inr t"
  shows "wf_table t"
  by (rule parse_verbose_children_inv [where P = wf_table])
    (use assms in \<open>auto simp: NixXML_parse_g_hash_table_verbose_def NixXML_parse_verbose_attrset_def
      parse_verbose_attrset_def execute_parse_and_insert_functions_def result_simps\<close>)

section \<open>Expressions of any type (nixxml-parse-generic.c)\<close>

lemma parse_g_ptr_array_cong [fundef_cong]:
  assumes "e = e'" and "c = c'" and "\<And>n. n \<in> set (xml_children e') \<Longrightarrow> f n = g n"
  shows "NixXML_parse_g_ptr_array e c f = NixXML_parse_g_ptr_array e' c' g"
proof -
  have "parse_list_children c f xs ns = parse_list_children c g xs ns"
    if "\<And>n. n \<in> set ns \<Longrightarrow> f n = g n" for xs ns
    using that by (induction ns arbitrary: xs) (auto intro!: bindr_cong)
  with assms show ?thesis by (simp add: NixXML_parse_g_ptr_array_def)
qed

lemma parse_verbose_attrset_cong [fundef_cong]:
  assumes "e = e'" and "c = c'" and "nm = nm'" and "t = t'" and "ins = ins'"
    and "\<And>n. n \<in> set (xml_children e') \<Longrightarrow> f n = g n"
  shows "NixXML_parse_verbose_attrset e c nm t f ins = NixXML_parse_verbose_attrset e' c' nm' t' g ins'"
proof -
  have "parse_verbose_children c nm (execute_parse_and_insert_functions f ins) t ns
      = parse_verbose_children c nm (execute_parse_and_insert_functions g ins) t ns"
    if "\<And>n. n \<in> set ns \<Longrightarrow> f n = g n" for t ns
    using that by (induction ns arbitrary: t)
      (auto simp: execute_parse_and_insert_functions_def intro!: bindr_cong split: option.splits)
  with assms show ?thesis
    by (simp add: NixXML_parse_verbose_attrset_def parse_verbose_attrset_def)
qed

lemma parse_simple_attrset_cong [fundef_cong]:
  assumes "e = e'" and "t = t'" and "ins = ins'"
    and "\<And>n. n \<in> set (xml_children e') \<Longrightarrow> f n = g n"
  shows "NixXML_parse_simple_attrset e t f ins = NixXML_parse_simple_attrset e' t' g ins'"
proof -
  have "parse_simple_children (execute_parse_and_insert_functions f ins) t ns
      = parse_simple_children (execute_parse_and_insert_functions g ins) t ns"
    if "\<And>n. n \<in> set ns \<Longrightarrow> f n = g n" for t ns
    using that by (induction ns arbitrary: t)
      (auto simp: execute_parse_and_insert_functions_def intro!: bindr_cong)
  with assms show ?thesis
    by (simp add: NixXML_parse_simple_attrset_def parse_simple_attrset_def)
qed

lemma size_xml_child: "n \<in> set (xml_children e) \<Longrightarrow> size n < size e"
  by (cases e) (auto simp: xml_children_def less_Suc_eq_le intro: size_list_estimation' trans_le_add2)

record NixXML_ParseExprParams =
  type_property_name :: string
  name_property_name :: string
  verbose_xml :: bool

text \<open>
  An element without a type, or with a type that is not known, yields NULL, which is then
  left out of the list or table it is in.
\<close>

function NixXML_parse_expr :: "NixXML_ParseExprParams \<Rightarrow> xmlNode \<Rightarrow> NixXML_Node option result" where
  "NixXML_parse_expr params element =
     bindr (NixXML_find_property element (type_property_name params)) (\<lambda>type.
       if type = None then Inr None
       else if xmlStrcmp type (Some ''list'') = 0
       then bindr (NixXML_parse_g_ptr_array element None (NixXML_parse_expr params))
              (\<lambda>xs. Inr (Some (NIX_XML_TYPE_LIST xs)))
       else if xmlStrcmp type (Some ''attrs'') = 0
       then (if verbose_xml params
             then bindr (NixXML_parse_verbose_attrset element None (name_property_name params) []
                    (NixXML_parse_expr params) NixXML_insert_into_g_hash_table)
                    (\<lambda>t. Inr (Some (NIX_XML_TYPE_ATTRSET t)))
             else bindr (NixXML_parse_simple_attrset element []
                    (NixXML_parse_expr params) NixXML_insert_into_g_hash_table)
                    (\<lambda>t. Inr (Some (NIX_XML_TYPE_ATTRSET t))))
       else if xmlStrcmp type (Some ''string'') = 0
       then Inr (Some (NIX_XML_TYPE_STRING (NixXML_parse_value element)))
       else if xmlStrcmp type (Some ''path'') = 0
       then Inr (Some (NIX_XML_TYPE_PATH (NixXML_parse_value element)))
       else if xmlStrcmp type (Some ''int'') = 0
       then Inr (Some (NIX_XML_TYPE_INT (NixXML_parse_value element)))
       else if xmlStrcmp type (Some ''float'') = 0
       then Inr (Some (NIX_XML_TYPE_FLOAT (NixXML_parse_value element)))
       else if xmlStrcmp type (Some ''bool'') = 0
       then Inr (Some (NIX_XML_TYPE_BOOL (NixXML_parse_value element)))
       else Inr None)"
  by pat_completeness auto
termination
  by (relation "measure (\<lambda>(p, e). size e)") (auto simp: size_xml_child)

declare NixXML_parse_expr.simps [simp del]

definition NixXML_generic_parse_simple_expr :: "xmlNode \<Rightarrow> string \<Rightarrow> NixXML_Node option result" where
  "NixXML_generic_parse_simple_expr element tp =
     NixXML_parse_expr \<lparr>type_property_name = tp, name_property_name = '''', verbose_xml = False\<rparr> element"

definition NixXML_generic_parse_verbose_expr :: "xmlNode \<Rightarrow> string \<Rightarrow> string \<Rightarrow> NixXML_Node option result" where
  "NixXML_generic_parse_verbose_expr element tp nm =
     NixXML_parse_expr \<lparr>type_property_name = tp, name_property_name = nm, verbose_xml = True\<rparr> element"

lemma parse_list_children_members:
  assumes "parse_list_children c f xs ns = Inr ys" and "\<forall>x \<in> set xs. P x"
    and "\<forall>n \<in> set ns. \<forall>x. f n = Inr (Some x) \<longrightarrow> P x"
  shows "\<forall>y \<in> set ys. P y"
  using assms
proof (induction ns arbitrary: xs)
  case (Cons n ns)
  show ?case
  proof (cases "selected c n")
    case True
    with Cons.prems(1) obtain v where v: "f n = Inr v"
      "parse_list_children c f (NixXML_add_value_to_g_ptr_array xs v) ns = Inr ys"
      by (auto simp: result_simps)
    have "\<forall>x \<in> set (NixXML_add_value_to_g_ptr_array xs v). P x"
      using Cons.prems(2,3) v(1)
      by (auto simp: NixXML_add_value_to_g_ptr_array_def split: option.splits)
    then show ?thesis by (rule Cons.IH [OF v(2)]) (use Cons.prems(3) in simp)
  next
    case False
    show ?thesis by (rule Cons.IH) (use Cons.prems False in simp_all)
  qed
qed simp

lemma parse_g_ptr_array_members:
  assumes "NixXML_parse_g_ptr_array e c f = Inr ys"
    and "\<And>n x. n \<in> set (xml_children e) \<Longrightarrow> f n = Inr (Some x) \<Longrightarrow> P x"
  shows "\<forall>y \<in> set ys. P y"
proof (rule parse_list_children_members)
  show "parse_list_children c f [] (xml_children e) = Inr ys"
    using assms(1) by (simp add: NixXML_parse_g_ptr_array_def)
qed (use assms(2) in auto)

text \<open>What a table holds has been parsed from a child, under a key seen once.\<close>

abbreviation table_of :: "('v \<Rightarrow> bool) \<Rightarrow> 'v hashtable \<Rightarrow> bool" where
  "table_of P t \<equiv> wf_table t \<and> (\<forall>e \<in> set t. P (snd e))"

lemma table_of_insert:
  assumes "table_of P t" and "\<And>x. v = Some x \<Longrightarrow> P x"
  shows "table_of P (NixXML_insert_into_g_hash_table t k v)"
proof (cases v)
  case (Some x)
  have "set (AList.update k x t) \<subseteq> insert (k, x) (set t)"
    by (induction t) auto
  with Some assms show ?thesis
    by (auto simp: NixXML_insert_into_g_hash_table_def g_hash_table_insert_def distinct_update)
qed (use assms in \<open>simp add: NixXML_insert_into_g_hash_table_def\<close>)

lemma parse_verbose_attrset_table:
  assumes "NixXML_parse_verbose_attrset e c nm [] f NixXML_insert_into_g_hash_table = Inr t"
    and "\<And>n x. n \<in> set (xml_children e) \<Longrightarrow> f n = Inr (Some x) \<Longrightarrow> P x"
  shows "table_of P t"
proof (rule parse_verbose_children_inv [where P = "table_of P"])
  show "parse_verbose_children c nm
      (execute_parse_and_insert_functions f NixXML_insert_into_g_hash_table) [] (xml_children e) = Inr t"
    using assms(1) by (simp add: NixXML_parse_verbose_attrset_def parse_verbose_attrset_def)
  fix n k and u u' :: "'a hashtable"
  assume "n \<in> set (xml_children e)" and u: "table_of P u"
    and "execute_parse_and_insert_functions f NixXML_insert_into_g_hash_table n k u = Inr u'"
  then obtain v where "f n = Inr v" "u' = NixXML_insert_into_g_hash_table u k v"
    by (auto simp: execute_parse_and_insert_functions_def result_simps)
  with table_of_insert [OF u, of v k] assms(2) \<open>n \<in> set (xml_children e)\<close>
  show "table_of P u'" by blast
qed simp

lemma parse_simple_attrset_table:
  assumes "NixXML_parse_simple_attrset e [] f NixXML_insert_into_g_hash_table = Inr t"
    and "\<And>n x. n \<in> set (xml_children e) \<Longrightarrow> f n = Inr (Some x) \<Longrightarrow> P x"
  shows "table_of P t"
proof (rule parse_simple_children_inv [where P = "table_of P"])
  show "parse_simple_children
      (execute_parse_and_insert_functions f NixXML_insert_into_g_hash_table) [] (xml_children e) = Inr t"
    using assms(1) by (simp add: NixXML_parse_simple_attrset_def parse_simple_attrset_def)
  fix n k and u u' :: "'a hashtable"
  assume "n \<in> set (xml_children e)" and u: "table_of P u"
    and "execute_parse_and_insert_functions f NixXML_insert_into_g_hash_table n k u = Inr u'"
  then obtain v where "f n = Inr v" "u' = NixXML_insert_into_g_hash_table u k v"
    by (auto simp: execute_parse_and_insert_functions_def result_simps)
  with table_of_insert [OF u, of v k] assms(2) \<open>n \<in> set (xml_children e)\<close>
  show "table_of P u'" by blast
qed simp

text \<open>So every expression that is parsed is well formed.\<close>

lemma parse_expr_wf_node:
  "NixXML_parse_expr params element = Inr (Some node) \<Longrightarrow> wf_node node"
proof (induction "size element" arbitrary: element node rule: less_induct)
  case less
  have IH: "wf_node x" if "n \<in> set (xml_children element)" "NixXML_parse_expr params n = Inr (Some x)" for n x
    using less.hyps [OF size_xml_child [OF that(1)] that(2)] .
  have list: "wf_node (NIX_XML_TYPE_LIST xs)"
    if "NixXML_parse_g_ptr_array element None (NixXML_parse_expr params) = Inr xs" for xs
    using parse_g_ptr_array_members [OF that, of wf_node] IH by simp
  have verbose: "wf_node (NIX_XML_TYPE_ATTRSET t)"
    if "NixXML_parse_verbose_attrset element None (name_property_name params) []
      (NixXML_parse_expr params) NixXML_insert_into_g_hash_table = Inr t" for t
    using parse_verbose_attrset_table [OF that, of wf_node] IH by simp
  have simple: "wf_node (NIX_XML_TYPE_ATTRSET t)"
    if "NixXML_parse_simple_attrset element [] (NixXML_parse_expr params)
      NixXML_insert_into_g_hash_table = Inr t" for t
    using parse_simple_attrset_table [OF that, of wf_node] IH by simp
  from less.prems show ?case
    by (subst (asm) NixXML_parse_expr.simps)
      (auto simp: result_simps simp del: wf_node.simps(1,2) split: if_splits
        dest: list verbose simple)
qed

end
