(* ===== verification/Infrastructure.thy ===== *)
theory Infrastructure
  imports NixXML_Parse
begin

text \<open>
  The infrastructure model of \<open>libinfrastructure\<close>: target machines with their properties,
  containers and CPU cores. The cores are the semaphore that bounds how many activities run
  on a machine at the same time.
\<close>

section \<open>Property and container tables (targetpropertiestable.c, containerstable.c)\<close>

type_synonym properties = "NixXML_Node hashtable"
type_synonym containers = "properties hashtable"

definition generic_parse_expr :: "xmlNode \<Rightarrow> NixXML_Node option result" where
  "generic_parse_expr element = NixXML_generic_parse_verbose_expr element ''type'' ''name''"

definition parse_target_properties_table :: "xmlNode \<Rightarrow> properties result" where
  "parse_target_properties_table element =
     NixXML_parse_g_hash_table_verbose element ''property'' ''name'' generic_parse_expr"

definition parse_containers_table :: "xmlNode \<Rightarrow> containers result" where
  "parse_containers_table element =
     NixXML_parse_g_hash_table_verbose element ''container'' ''name''
       (\<lambda>child. bindr (parse_target_properties_table child) (\<lambda>t. Inr (Some t)))"

definition compare_target_properties_tables :: "properties \<Rightarrow> properties \<Rightarrow> bool" where
  "compare_target_properties_tables left right =
     NixXML_compare_g_hash_tables NixXML_compare_nodes_glib left right"

definition compare_container_tables :: "containers \<Rightarrow> containers \<Rightarrow> bool" where
  "compare_container_tables t1 t2 = NixXML_compare_g_hash_tables compare_target_properties_tables t1 t2"

section \<open>Targets (target.c)\<close>

record Target =
  properties_table :: "properties option"
  containers_table :: "containers option"
  system :: cstr
  client_interface :: cstr
  target_property :: cstr
  num_of_cores :: int
  available_cores :: int

definition create_target_from_element :: Target where
  "create_target_from_element =
     \<lparr>properties_table = None, containers_table = None, system = None, client_interface = None,
      target_property = None, num_of_cores = 1, available_cores = 0\<rparr>"

definition parse_and_insert_target_attributes :: "xmlNode \<Rightarrow> string \<Rightarrow> Target \<Rightarrow> Target result" where
  "parse_and_insert_target_attributes element key target =
     (if xmlStrcmp (Some key) (Some ''system'') = 0
      then Inr (target\<lparr>system := Some (NixXML_parse_value element)\<rparr>)
      else if xmlStrcmp (Some key) (Some ''clientInterface'') = 0
      then Inr (target\<lparr>client_interface := Some (NixXML_parse_value element)\<rparr>)
      else if xmlStrcmp (Some key) (Some ''targetProperty'') = 0
      then Inr (target\<lparr>target_property := Some (NixXML_parse_value element)\<rparr>)
      else if xmlStrcmp (Some key) (Some ''numOfCores'') = 0
      then (let n = atoi (NixXML_parse_value element) in
            Inr (target\<lparr>num_of_cores := n, available_cores := n\<rparr>))
      else if xmlStrcmp (Some key) (Some ''properties'') = 0
      then bindr (parse_target_properties_table element)
             (\<lambda>t. Inr (target\<lparr>properties_table := Some t\<rparr>))
      else if xmlStrcmp (Some key) (Some ''containers'') = 0
      then bindr (parse_containers_table element) (\<lambda>t. Inr (target\<lparr>containers_table := Some t\<rparr>))
      else Inr target)"

definition parse_target :: "xmlNode \<Rightarrow> Target result" where
  "parse_target element =
     bindr (NixXML_parse_simple_heterogeneous_attrset element create_target_from_element
              parse_and_insert_target_attributes) (\<lambda>target.
       let target' = (if properties_table target = None then target\<lparr>properties_table := Some []\<rparr> else target);
           target'' = (if containers_table target' = None then target'\<lparr>containers_table := Some []\<rparr> else target')
       in Inr target'')"

definition check_target :: "Target \<Rightarrow> bool result" where
  "check_target target =
     (let status = True;
          status = (if num_of_cores target = 0 then False else status);
          status = (if target_property target = None then False else status);
          status = (if client_interface target = None then False else status)
      in if status
         then bindr (deref (properties_table target)) (\<lambda>props.
              bindr (g_hash_table_contains props (target_property target)) (\<lambda>defined.
              Inr (if \<not> defined then False else status)))
         else Inr status)"

definition compare_targets :: "Target \<Rightarrow> Target \<Rightarrow> bool result" where
  "compare_targets left right =
     bindr (deref (properties_table left)) (\<lambda>pl. bindr (deref (properties_table right)) (\<lambda>pr.
     bindr (deref (containers_table left)) (\<lambda>cl. bindr (deref (containers_table right)) (\<lambda>cr.
       Inr (compare_target_properties_tables pl pr
          \<and> compare_container_tables cl cr
          \<and> xmlStrcmp (system left) (system right) = 0
          \<and> xmlStrcmp (client_interface left) (client_interface right) = 0
          \<and> xmlStrcmp (target_property left) (target_property right) = 0
          \<and> num_of_cores left = num_of_cores right)))))"

text \<open>
  A property that is not in the table is looked at all the same; one that is a path, a list
  or an attribute set has no text.
\<close>

definition find_target_property :: "Target \<Rightarrow> cstr \<Rightarrow> cstr result" where
  "find_target_property target name =
     (case properties_table target of
        None \<Rightarrow> Inr None
      | Some props \<Rightarrow>
          if name = None then Inr None
          else bindr (g_hash_table_lookup props name) (\<lambda>found. bindr (deref found) (\<lambda>node.
            Inr (case node of
                   NIX_XML_TYPE_STRING s \<Rightarrow> Some s
                 | NIX_XML_TYPE_INT s \<Rightarrow> Some s
                 | NIX_XML_TYPE_FLOAT s \<Rightarrow> Some s
                 | NIX_XML_TYPE_BOOL s \<Rightarrow> Some s
                 | _ \<Rightarrow> None))))"

definition find_target_key :: "Target \<Rightarrow> cstr result" where
  "find_target_key target = find_target_property target (target_property target)"

definition find_container :: "containers option \<Rightarrow> cstr \<Rightarrow> (properties option) result" where
  "find_container containers name =
     (case containers of None \<Rightarrow> Inr None | Some t \<Rightarrow> g_hash_table_lookup t name)"

definition generate_activation_arguments_for_target :: "Target \<Rightarrow> cstr \<Rightarrow> string list result" where
  "generate_activation_arguments_for_target target container_name =
     bindr (find_container (containers_table target) container_name) (\<lambda>container_table.
       case container_table of
         None \<Rightarrow> Inr []
       | Some t \<Rightarrow> NixXML_generate_env_vars_generic_glib (Some t))"

definition request_available_target_core :: "Target \<Rightarrow> bool \<times> Target" where
  "request_available_target_core target =
     (if 0 < available_cores target
      then (True, target\<lparr>available_cores := available_cores target - 1\<rparr>)
      else (False, target))"

definition signal_available_target_core :: "Target \<Rightarrow> Target" where
  "signal_available_target_core target = target\<lparr>available_cores := available_cores target + 1\<rparr>"

section \<open>The targets table (targetstable.c)\<close>

definition parse_targets_table :: "xmlNode \<Rightarrow> Target hashtable result" where
  "parse_targets_table element =
     NixXML_parse_g_hash_table_verbose element ''target'' ''name''
       (\<lambda>child. bindr (parse_target child) (\<lambda>t. Inr (Some t)))"

definition augment_default_properties :: "Target hashtable \<Rightarrow> cstr \<Rightarrow> cstr \<Rightarrow> Target hashtable" where
  "augment_default_properties targets_table default_target_property default_client_interface =
     (if default_target_property \<noteq> None \<or> default_client_interface \<noteq> None
      then map (\<lambda>(key, target).
             (let target = (if target_property target = None
                            then target\<lparr>target_property := default_target_property\<rparr> else target);
                  target = (if client_interface target = None
                            then target\<lparr>client_interface := default_client_interface\<rparr> else target)
              in (key, target))) targets_table
      else targets_table)"

text \<open>The checks of all targets are made, also after one has failed.\<close>

fun check_targets_table :: "Target hashtable \<Rightarrow> bool result" where
  "check_targets_table [] = Inr True"
| "check_targets_table ((key, target) # t) =
     bindr (check_target target) (\<lambda>valid. bindr (check_targets_table t) (\<lambda>status.
       Inr (if \<not> valid then False else status)))"

fun compare_target_entries :: "Target hashtable \<Rightarrow> Target hashtable \<Rightarrow> bool result" where
  "compare_target_entries [] t2 = Inr True"
| "compare_target_entries ((key, target) # t1) t2 =
     (case map_of t2 key of
        None \<Rightarrow> Inr False
      | Some target2 \<Rightarrow> bindr (compare_targets target target2) (\<lambda>same.
          if \<not> same then Inr False else compare_target_entries t1 t2))"

definition compare_targets_tables :: "Target hashtable \<Rightarrow> Target hashtable \<Rightarrow> bool result" where
  "compare_targets_tables t1 t2 =
     (if length t1 = length t2 then compare_target_entries t1 t2 else Inr False)"

section \<open>What the checks establish\<close>

text \<open>
  A target that passes the check and comes from the parser has a property table with its
  target property in it, so looking up its key returns.
\<close>

lemma check_target_iff:
  "check_target target = Inr True \<longleftrightarrow>
     num_of_cores target \<noteq> 0 \<and> client_interface target \<noteq> None \<and>
     (\<exists>props name. properties_table target = Some props \<and> target_property target = Some name
        \<and> map_of props name \<noteq> None)"
  by (auto simp: check_target_def Let_def result_simps split: if_splits)

lemma check_target_find_key:
  assumes "check_target target = Inr True"
  shows "\<exists>key. find_target_key target = Inr key"
  using assms by (auto simp: check_target_iff find_target_key_def find_target_property_def)

lemma check_targets_table_iff:
  "check_targets_table t = Inr True \<longleftrightarrow> (\<forall>e \<in> set t. check_target (snd e) = Inr True)"
  by (induction t) (auto simp: result_simps split: if_splits)

text \<open>Both tables of a parsed target are there, and its key or interface may come from the defaults.\<close>

lemma parse_target_tables:
  assumes "parse_target element = Inr target"
  shows "properties_table target \<noteq> None \<and> containers_table target \<noteq> None"
proof -
  from assms obtain x where "target =
    (let target' = (if properties_table x = None then x\<lparr>properties_table := Some []\<rparr> else x)
     in if containers_table target' = None then target'\<lparr>containers_table := Some []\<rparr> else target')"
    by (auto simp: parse_target_def result_simps Let_def)
  then show ?thesis by (cases "properties_table x"; cases "containers_table x") (simp_all add: Let_def)
qed

lemma map_of_augment_default_properties:
  "map_of (augment_default_properties t p i) k = map_option (\<lambda>target.
     if p \<noteq> None \<or> i \<noteq> None
     then target\<lparr>target_property := (if target_property target = None then p else target_property target),
                 client_interface := (if client_interface target = None then i else client_interface target)\<rparr>
     else target) (map_of t k)"
  by (induction t) (auto simp: augment_default_properties_def Let_def)

text \<open>Requesting a core never makes the count negative, and it fails exactly if there is none.\<close>

lemma request_core_cases:
  assumes "request_available_target_core target = (granted, target')"
  shows "if granted then 0 < available_cores target
           \<and> target' = target\<lparr>available_cores := available_cores target - 1\<rparr>
         else available_cores target \<le> 0 \<and> target' = target"
  using assms by (auto simp: request_available_target_core_def split: if_splits)

lemma signal_request [simp]:
  "0 < available_cores target \<Longrightarrow>
     signal_available_target_core (snd (request_available_target_core target)) = target"
  by (simp add: signal_available_target_core_def request_available_target_core_def)

text \<open>
  A target without a \<open>numOfCores\<close> element is given one core of which none is available: it
  passes the check, and no core is ever granted.
\<close>

lemma parse_simple_children_no_cores:
  assumes "parse_simple_children parse_and_insert_target_attributes t ns = Inr t'"
    and "\<forall>n \<in> set ns. \<not> (is_element n \<and> xml_name n = ''numOfCores'')"
  shows "num_of_cores t' = num_of_cores t \<and> available_cores t' = available_cores t"
  using assms
proof (induction ns arbitrary: t)
  case (Cons n ns)
  show ?case
  proof (cases "is_element n")
    case True
    with Cons.prems obtain u where
      u: "parse_and_insert_target_attributes n (xml_name n) t = Inr u"
        "parse_simple_children parse_and_insert_target_attributes u ns = Inr t'"
        and nm: "xml_name n \<noteq> ''numOfCores''"
      by (auto simp: result_simps)
    have "num_of_cores u = num_of_cores t \<and> available_cores u = available_cores t"
      using u(1) nm
      by (auto simp: parse_and_insert_target_attributes_def order_simps result_simps split: if_splits)
    with Cons.IH [OF u(2)] Cons.prems(2) show ?thesis by simp
  next
    case False
    with Cons show ?thesis by simp
  qed
qed simp

lemma parse_target_default_cores:
  assumes "parse_target element = Inr target"
    and "\<forall>n \<in> set (xml_children element). \<not> (is_element n \<and> xml_name n = ''numOfCores'')"
  shows "num_of_cores target = 1 \<and> available_cores target = 0"
proof -
  from assms(1) obtain t where
    t: "parse_simple_children parse_and_insert_target_attributes create_target_from_element (xml_children element) = Inr t"
    and "num_of_cores target = num_of_cores t" "available_cores target = available_cores t"
    by (auto simp: parse_target_def NixXML_parse_simple_heterogeneous_attrset_def
        parse_simple_attrset_def result_simps Let_def split: if_splits)
  with parse_simple_children_no_cores [OF t assms(2)] show ?thesis
    by (simp add: create_target_from_element_def)
qed

end
