(* ===== verification/NixXML_Print.thy ===== *)
theory NixXML_Print
  imports NixXML
begin

text \<open>
  The printers of \<open>libnixxml\<close>: Nix expressions and XML. A printer is modelled by the text it
  writes to the file. What the text means is given by two readers, one for the body of a
  Nix string literal and one for XML character data, which are part of the specification
  and not of the program.
\<close>

section \<open>Numbers and indentation\<close>

fun decimal :: "nat \<Rightarrow> string" where
  "decimal n = (if n < 10 then [char_of (48 + n)] else decimal (n div 10) @ [char_of (48 + n mod 10)])"

declare decimal.simps [simp del]

text \<open>\<open>printf("%d")\<close>\<close>

definition format_d :: "int \<Rightarrow> string" where
  "format_d i = (if i < 0 then ''-'' @ decimal (nat (- i)) else decimal (nat i))"

definition NixXML_print_indentation :: "int \<Rightarrow> string" where
  "NixXML_print_indentation indent_level =
     (if 0 \<le> indent_level then concat (replicate (nat indent_level) ''  '') else '''')"

definition inner_level :: "int \<Rightarrow> int" where
  "inner_level indent_level = (if 0 \<le> indent_level then indent_level + 1 else indent_level)"

section \<open>Nix values (nixxml-print-nix.c)\<close>

definition quote :: char where "quote = CHR 34"
definition backslash :: char where "backslash = CHR 92"
definition newline :: char where "newline = CHR 10"

definition escape_nix :: "char \<Rightarrow> string" where
  "escape_nix c =
     (if c = quote \<or> c = backslash then [backslash, c]
      else if c = newline then [backslash, CHR ''n'']
      else [c])"

definition NixXML_print_string_nix :: "string \<Rightarrow> string" where
  "NixXML_print_string_nix value = [quote] @ concat (map escape_nix value) @ [quote]"

definition NixXML_print_value_nix :: "string \<Rightarrow> string" where
  "NixXML_print_value_nix value = value"

definition NixXML_print_path_nix :: "string \<Rightarrow> string" where
  "NixXML_print_path_nix value =
     (if CHR '' '' \<in> set value
      then ''/. +'' @ NixXML_print_string_nix value
      else if (0 < length value \<and> value ! 0 = CHR ''/'')
        \<or> (1 < length value \<and> value ! 0 = CHR ''.'' \<and> value ! 1 = CHR ''/'')
      then NixXML_print_value_nix value
      else if value = '''' \<or> value = ''.'' then ''./.''
      else ''./'' @ NixXML_print_value_nix value)"

definition NixXML_print_int_nix :: "int \<Rightarrow> string" where
  "NixXML_print_int_nix value = format_d value"

definition NixXML_print_store_path_nix :: "string \<Rightarrow> string" where
  "NixXML_print_store_path_nix value = ''builtins.storePath '' @ value"

definition NixXML_print_list_element_nix :: "int \<Rightarrow> (int \<Rightarrow> 'a \<Rightarrow> string) \<Rightarrow> 'a \<Rightarrow> string" where
  "NixXML_print_list_element_nix indent_level print_value value =
     NixXML_print_indentation indent_level @ print_value indent_level value @ [newline]"

definition NixXML_print_list_nix :: "int \<Rightarrow> (int \<Rightarrow> 'l \<Rightarrow> string) \<Rightarrow> 'l \<Rightarrow> string" where
  "NixXML_print_list_nix indent_level print_list_elements list =
     ''['' @ [newline] @ print_list_elements (inner_level indent_level) list
       @ NixXML_print_indentation indent_level @ '']''"

definition NixXML_print_attribute_nix :: "int \<Rightarrow> (int \<Rightarrow> 'a \<Rightarrow> string) \<Rightarrow> string \<Rightarrow> 'a \<Rightarrow> string" where
  "NixXML_print_attribute_nix indent_level print_value name value =
     NixXML_print_indentation indent_level @ NixXML_print_string_nix name @ '' = ''
       @ print_value indent_level value @ '';'' @ [newline]"

definition NixXML_print_attrset_nix :: "int \<Rightarrow> (int \<Rightarrow> 't \<Rightarrow> string) \<Rightarrow> 't \<Rightarrow> string" where
  "NixXML_print_attrset_nix indent_level print_attributes table =
     ''{'' @ [newline] @ print_attributes (inner_level indent_level) table
       @ NixXML_print_indentation indent_level @ ''}''"

definition NixXML_print_g_ptr_array_elements_nix :: "(int \<Rightarrow> 'a \<Rightarrow> string) \<Rightarrow> int \<Rightarrow> 'a list \<Rightarrow> string" where
  "NixXML_print_g_ptr_array_elements_nix print_value indent_level array =
     concat (map (NixXML_print_list_element_nix indent_level print_value) array)"

definition NixXML_print_g_ptr_array_nix :: "int \<Rightarrow> (int \<Rightarrow> 'a \<Rightarrow> string) \<Rightarrow> 'a list \<Rightarrow> string" where
  "NixXML_print_g_ptr_array_nix indent_level print_value array =
     NixXML_print_list_nix indent_level (NixXML_print_g_ptr_array_elements_nix print_value) array"

definition NixXML_print_g_hash_table_attributes_nix ::
  "(int \<Rightarrow> 'v \<Rightarrow> string) \<Rightarrow> int \<Rightarrow> 'v hashtable \<Rightarrow> string" where
  "NixXML_print_g_hash_table_attributes_nix print_value indent_level t =
     concat (map (\<lambda>(key, obj). NixXML_print_attribute_nix indent_level print_value key obj) t)"

definition NixXML_print_g_hash_table_nix :: "int \<Rightarrow> (int \<Rightarrow> 'v \<Rightarrow> string) \<Rightarrow> 'v hashtable \<Rightarrow> string" where
  "NixXML_print_g_hash_table_nix indent_level print_value t =
     NixXML_print_attrset_nix indent_level (NixXML_print_g_hash_table_attributes_nix print_value) t"

definition NixXML_print_g_hash_table_ordered_attributes_nix ::
  "(int \<Rightarrow> 'v option \<Rightarrow> string) \<Rightarrow> int \<Rightarrow> 'v hashtable \<Rightarrow> string" where
  "NixXML_print_g_hash_table_ordered_attributes_nix print_value indent_level t =
     concat (map (\<lambda>(key, obj). NixXML_print_attribute_nix indent_level print_value key obj)
       (ordered_entries (NixXML_g_hash_table_ordered_iter_init t)))"

definition NixXML_print_g_hash_table_ordered_nix ::
  "int \<Rightarrow> (int \<Rightarrow> 'v option \<Rightarrow> string) \<Rightarrow> 'v hashtable \<Rightarrow> string" where
  "NixXML_print_g_hash_table_ordered_nix indent_level print_value t =
     NixXML_print_attrset_nix indent_level (NixXML_print_g_hash_table_ordered_attributes_nix print_value) t"

section \<open>Nix expressions (nixxml-print-generic-nix.c)\<close>

lemma print_g_ptr_array_nix_cong [fundef_cong]:
  assumes "i = j" and "xs = ys" and "\<And>n x. x \<in> set ys \<Longrightarrow> p n x = q n x"
  shows "NixXML_print_g_ptr_array_nix i p xs = NixXML_print_g_ptr_array_nix j q ys"
  using assms by (simp add: NixXML_print_g_ptr_array_nix_def NixXML_print_list_nix_def
      NixXML_print_g_ptr_array_elements_nix_def NixXML_print_list_element_nix_def cong: map_cong)

lemma print_g_hash_table_nix_cong [fundef_cong]:
  assumes "i = j" and "t = u" and "\<And>n k x. (k, x) \<in> set u \<Longrightarrow> p n x = q n x"
  shows "NixXML_print_g_hash_table_nix i p t = NixXML_print_g_hash_table_nix j q u"
  using assms by (auto simp: NixXML_print_g_hash_table_nix_def NixXML_print_attrset_nix_def
      NixXML_print_g_hash_table_attributes_nix_def NixXML_print_attribute_nix_def
      intro!: arg_cong [where f = concat])

function NixXML_print_expr_nix :: "int \<Rightarrow> NixXML_Node \<Rightarrow> string" where
  "NixXML_print_expr_nix indent_level (NIX_XML_TYPE_STRING s) = NixXML_print_string_nix s"
| "NixXML_print_expr_nix indent_level (NIX_XML_TYPE_INT s) = NixXML_print_value_nix s"
| "NixXML_print_expr_nix indent_level (NIX_XML_TYPE_FLOAT s) = NixXML_print_value_nix s"
| "NixXML_print_expr_nix indent_level (NIX_XML_TYPE_BOOL s) = NixXML_print_value_nix s"
| "NixXML_print_expr_nix indent_level (NIX_XML_TYPE_PATH s) = NixXML_print_path_nix s"
| "NixXML_print_expr_nix indent_level (NIX_XML_TYPE_LIST xs) =
     NixXML_print_g_ptr_array_nix indent_level NixXML_print_expr_nix xs"
| "NixXML_print_expr_nix indent_level (NIX_XML_TYPE_ATTRSET t) =
     NixXML_print_g_hash_table_nix indent_level NixXML_print_expr_nix t"
  by pat_completeness auto
termination
  by (relation "measure (\<lambda>(i, n). size n)") (auto simp: size_list_member intro: size_table_member)

section \<open>XML values (nixxml-print-xml.c)\<close>

definition escape_xml :: "char \<Rightarrow> string" where
  "escape_xml c = (if c = CHR ''<'' then ''&lt;'' else if c = CHR ''>'' then ''&gt;'' else [c])"

definition print_string_xml :: "string \<Rightarrow> string" where
  "print_string_xml string_value = concat (map escape_xml string_value)"

definition NixXML_print_open_root_tag :: "string \<Rightarrow> string" where
  "NixXML_print_open_root_tag root_element_name = ''<'' @ root_element_name"

definition NixXML_print_open_verbose_attr_tag :: "string \<Rightarrow> string \<Rightarrow> string \<Rightarrow> string" where
  "NixXML_print_open_verbose_attr_tag root_element_name name_property_name name =
     ''<'' @ root_element_name @ '' '' @ name_property_name @ ''='' @ [quote]
       @ print_string_xml name @ [quote]"

definition NixXML_print_close_root_tag :: "string \<Rightarrow> string" where
  "NixXML_print_close_root_tag root_element_name = ''</'' @ root_element_name @ ''>''"

definition print_type_suffix :: "cstr \<Rightarrow> string \<Rightarrow> string" where
  "print_type_suffix type_property_name type =
     (case type_property_name of
        None \<Rightarrow> ''''
      | Some p \<Rightarrow> '' '' @ p @ ''='' @ [quote] @ type @ [quote]) @ ''>''"

definition NixXML_print_string_xml :: "cstr \<Rightarrow> string \<Rightarrow> string" where
  "NixXML_print_string_xml type_property_name value =
     print_type_suffix type_property_name ''string'' @ print_string_xml value"

definition NixXML_print_string_as_path_xml :: "cstr \<Rightarrow> string \<Rightarrow> string" where
  "NixXML_print_string_as_path_xml type_property_name value =
     print_type_suffix type_property_name ''path'' @ print_string_xml value"

definition NixXML_print_string_as_int_xml :: "cstr \<Rightarrow> string \<Rightarrow> string" where
  "NixXML_print_string_as_int_xml type_property_name value =
     print_type_suffix type_property_name ''int'' @ print_string_xml value"

definition NixXML_print_string_as_float_xml :: "cstr \<Rightarrow> string \<Rightarrow> string" where
  "NixXML_print_string_as_float_xml type_property_name value =
     print_type_suffix type_property_name ''float'' @ print_string_xml value"

definition NixXML_print_string_as_bool_xml :: "cstr \<Rightarrow> string \<Rightarrow> string" where
  "NixXML_print_string_as_bool_xml type_property_name value =
     print_type_suffix type_property_name ''bool'' @ print_string_xml value"

definition NixXML_print_int_xml :: "cstr \<Rightarrow> int \<Rightarrow> string" where
  "NixXML_print_int_xml type_property_name value =
     print_type_suffix type_property_name ''int'' @ format_d value"

text \<open>Composite values: the closing angle bracket of the open tag is written by the value.\<close>

definition NixXML_print_list_element_xml ::
  "int \<Rightarrow> cstr \<Rightarrow> string \<Rightarrow> (int \<Rightarrow> cstr \<Rightarrow> 'a \<Rightarrow> string) \<Rightarrow> 'a \<Rightarrow> string" where
  "NixXML_print_list_element_xml indent_level type_property_name child_element_name print_value value =
     [newline] @ NixXML_print_indentation indent_level
       @ NixXML_print_open_root_tag child_element_name
       @ print_value indent_level type_property_name value
       @ NixXML_print_close_root_tag child_element_name"

definition NixXML_print_list_xml :: "int \<Rightarrow> cstr \<Rightarrow> (int \<Rightarrow> 'l \<Rightarrow> string) \<Rightarrow> 'l \<Rightarrow> string" where
  "NixXML_print_list_xml indent_level type_property_name print_list_elements list =
     print_type_suffix type_property_name ''list''
       @ print_list_elements (inner_level indent_level) list
       @ [newline] @ NixXML_print_indentation indent_level"

definition NixXML_print_simple_attribute_xml ::
  "int \<Rightarrow> cstr \<Rightarrow> (int \<Rightarrow> cstr \<Rightarrow> 'a \<Rightarrow> string) \<Rightarrow> string \<Rightarrow> 'a \<Rightarrow> string" where
  "NixXML_print_simple_attribute_xml indent_level type_property_name print_value name value =
     [newline] @ NixXML_print_indentation indent_level
       @ NixXML_print_open_root_tag name
       @ print_value indent_level type_property_name value
       @ NixXML_print_close_root_tag name"

definition NixXML_print_verbose_attribute_xml ::
  "int \<Rightarrow> cstr \<Rightarrow> string \<Rightarrow> string \<Rightarrow> (int \<Rightarrow> cstr \<Rightarrow> 'a \<Rightarrow> string) \<Rightarrow> string \<Rightarrow> 'a \<Rightarrow> string" where
  "NixXML_print_verbose_attribute_xml indent_level type_property_name child_element_name name_property_name
     print_value name value =
     [newline] @ NixXML_print_indentation indent_level
       @ NixXML_print_open_verbose_attr_tag child_element_name name_property_name name
       @ print_value indent_level type_property_name value
       @ NixXML_print_close_root_tag child_element_name"

definition NixXML_print_simple_attrset_xml :: "int \<Rightarrow> cstr \<Rightarrow> (int \<Rightarrow> 't \<Rightarrow> string) \<Rightarrow> 't \<Rightarrow> string" where
  "NixXML_print_simple_attrset_xml indent_level type_property_name print_attributes table =
     print_type_suffix type_property_name ''attrs''
       @ print_attributes (inner_level indent_level) table
       @ [newline] @ NixXML_print_indentation indent_level"

definition NixXML_print_verbose_attrset_xml :: "int \<Rightarrow> cstr \<Rightarrow> (int \<Rightarrow> 't \<Rightarrow> string) \<Rightarrow> 't \<Rightarrow> string" where
  "NixXML_print_verbose_attrset_xml indent_level type_property_name print_attributes table =
     print_type_suffix type_property_name ''attrs''
       @ print_attributes (inner_level indent_level) table
       @ [newline] @ NixXML_print_indentation indent_level"

definition NixXML_print_g_ptr_array_elements_xml ::
  "cstr \<Rightarrow> string \<Rightarrow> (int \<Rightarrow> cstr \<Rightarrow> 'a \<Rightarrow> string) \<Rightarrow> int \<Rightarrow> 'a list \<Rightarrow> string" where
  "NixXML_print_g_ptr_array_elements_xml type_property_name child_element_name print_value indent_level array =
     concat (map (NixXML_print_list_element_xml indent_level type_property_name child_element_name print_value) array)"

definition NixXML_print_g_ptr_array_xml ::
  "int \<Rightarrow> cstr \<Rightarrow> string \<Rightarrow> (int \<Rightarrow> cstr \<Rightarrow> 'a \<Rightarrow> string) \<Rightarrow> 'a list \<Rightarrow> string" where
  "NixXML_print_g_ptr_array_xml indent_level type_property_name child_element_name print_value array =
     NixXML_print_list_xml indent_level type_property_name
       (NixXML_print_g_ptr_array_elements_xml type_property_name child_element_name print_value) array"

definition NixXML_print_g_hash_table_simple_attributes_xml ::
  "cstr \<Rightarrow> (int \<Rightarrow> cstr \<Rightarrow> 'v \<Rightarrow> string) \<Rightarrow> int \<Rightarrow> 'v hashtable \<Rightarrow> string" where
  "NixXML_print_g_hash_table_simple_attributes_xml type_property_name print_value indent_level t =
     concat (map (\<lambda>(key, obj).
       NixXML_print_simple_attribute_xml indent_level type_property_name print_value key obj) t)"

definition NixXML_print_g_hash_table_simple_xml ::
  "int \<Rightarrow> cstr \<Rightarrow> (int \<Rightarrow> cstr \<Rightarrow> 'v \<Rightarrow> string) \<Rightarrow> 'v hashtable \<Rightarrow> string" where
  "NixXML_print_g_hash_table_simple_xml indent_level type_property_name print_value t =
     NixXML_print_simple_attrset_xml indent_level type_property_name
       (NixXML_print_g_hash_table_simple_attributes_xml type_property_name print_value) t"

definition NixXML_print_g_hash_table_verbose_attributes_xml ::
  "cstr \<Rightarrow> string \<Rightarrow> string \<Rightarrow> (int \<Rightarrow> cstr \<Rightarrow> 'v \<Rightarrow> string) \<Rightarrow> int \<Rightarrow> 'v hashtable \<Rightarrow> string" where
  "NixXML_print_g_hash_table_verbose_attributes_xml type_property_name child_element_name name_property_name
     print_value indent_level t =
     concat (map (\<lambda>(key, obj). NixXML_print_verbose_attribute_xml indent_level type_property_name
       child_element_name name_property_name print_value key obj) t)"

definition NixXML_print_g_hash_table_verbose_xml ::
  "int \<Rightarrow> cstr \<Rightarrow> string \<Rightarrow> string \<Rightarrow> (int \<Rightarrow> cstr \<Rightarrow> 'v \<Rightarrow> string) \<Rightarrow> 'v hashtable \<Rightarrow> string" where
  "NixXML_print_g_hash_table_verbose_xml indent_level type_property_name child_element_name name_property_name
     print_value t =
     NixXML_print_verbose_attrset_xml indent_level type_property_name
       (NixXML_print_g_hash_table_verbose_attributes_xml type_property_name child_element_name
         name_property_name print_value) t"

section \<open>XML expressions (nixxml-print-generic-xml.c)\<close>

lemma print_g_ptr_array_xml_cong [fundef_cong]:
  assumes "i = j" and "tp = tp'" and "c = c'" and "xs = ys"
    and "\<And>n p x. x \<in> set ys \<Longrightarrow> f n p x = g n p x"
  shows "NixXML_print_g_ptr_array_xml i tp c f xs = NixXML_print_g_ptr_array_xml j tp' c' g ys"
  using assms by (simp add: NixXML_print_g_ptr_array_xml_def NixXML_print_list_xml_def
      NixXML_print_g_ptr_array_elements_xml_def NixXML_print_list_element_xml_def cong: map_cong)

lemma print_g_hash_table_simple_xml_cong [fundef_cong]:
  assumes "i = j" and "tp = tp'" and "t = u"
    and "\<And>n p k x. (k, x) \<in> set u \<Longrightarrow> f n p x = g n p x"
  shows "NixXML_print_g_hash_table_simple_xml i tp f t = NixXML_print_g_hash_table_simple_xml j tp' g u"
  using assms by (auto simp: NixXML_print_g_hash_table_simple_xml_def NixXML_print_simple_attrset_xml_def
      NixXML_print_g_hash_table_simple_attributes_xml_def NixXML_print_simple_attribute_xml_def
      intro!: arg_cong [where f = concat])

lemma print_g_hash_table_verbose_xml_cong [fundef_cong]:
  assumes "i = j" and "tp = tp'" and "c = c'" and "nm = nm'" and "t = u"
    and "\<And>n p k x. (k, x) \<in> set u \<Longrightarrow> f n p x = g n p x"
  shows "NixXML_print_g_hash_table_verbose_xml i tp c nm f t
    = NixXML_print_g_hash_table_verbose_xml j tp' c' nm' g u"
  using assms by (auto simp: NixXML_print_g_hash_table_verbose_xml_def NixXML_print_verbose_attrset_xml_def
      NixXML_print_g_hash_table_verbose_attributes_xml_def NixXML_print_verbose_attribute_xml_def
      intro!: arg_cong [where f = concat])

function NixXML_print_expr_simple_xml :: "string \<Rightarrow> int \<Rightarrow> cstr \<Rightarrow> NixXML_Node \<Rightarrow> string" where
  "NixXML_print_expr_simple_xml list_element_name i tp (NIX_XML_TYPE_STRING s) = NixXML_print_string_xml tp s"
| "NixXML_print_expr_simple_xml list_element_name i tp (NIX_XML_TYPE_PATH s) = NixXML_print_string_as_path_xml tp s"
| "NixXML_print_expr_simple_xml list_element_name i tp (NIX_XML_TYPE_INT s) = NixXML_print_string_as_int_xml tp s"
| "NixXML_print_expr_simple_xml list_element_name i tp (NIX_XML_TYPE_FLOAT s) = NixXML_print_string_as_float_xml tp s"
| "NixXML_print_expr_simple_xml list_element_name i tp (NIX_XML_TYPE_BOOL s) = NixXML_print_string_as_bool_xml tp s"
| "NixXML_print_expr_simple_xml list_element_name i tp (NIX_XML_TYPE_LIST xs) =
     NixXML_print_g_ptr_array_xml i tp list_element_name (NixXML_print_expr_simple_xml list_element_name) xs"
| "NixXML_print_expr_simple_xml list_element_name i tp (NIX_XML_TYPE_ATTRSET t) =
     NixXML_print_g_hash_table_simple_xml i tp (NixXML_print_expr_simple_xml list_element_name) t"
  by pat_completeness auto
termination
  by (relation "measure (\<lambda>(l, i, tp, n). size n)") (auto simp: size_list_member intro: size_table_member)

definition NixXML_print_generic_expr_simple_xml ::
  "int \<Rightarrow> string \<Rightarrow> string \<Rightarrow> cstr \<Rightarrow> NixXML_Node \<Rightarrow> string" where
  "NixXML_print_generic_expr_simple_xml indent_level root_element_name list_element_name type_property_name value =
     NixXML_print_open_root_tag root_element_name
       @ NixXML_print_expr_simple_xml list_element_name indent_level type_property_name value
       @ NixXML_print_close_root_tag list_element_name"

function NixXML_print_expr_verbose_xml ::
  "string \<Rightarrow> string \<Rightarrow> string \<Rightarrow> int \<Rightarrow> cstr \<Rightarrow> NixXML_Node \<Rightarrow> string" where
  "NixXML_print_expr_verbose_xml l a nm i tp (NIX_XML_TYPE_INT s) = NixXML_print_string_as_int_xml tp s"
| "NixXML_print_expr_verbose_xml l a nm i tp (NIX_XML_TYPE_STRING s) = NixXML_print_string_xml tp s"
| "NixXML_print_expr_verbose_xml l a nm i tp (NIX_XML_TYPE_PATH s) = NixXML_print_string_as_path_xml tp s"
| "NixXML_print_expr_verbose_xml l a nm i tp (NIX_XML_TYPE_FLOAT s) = NixXML_print_string_as_float_xml tp s"
| "NixXML_print_expr_verbose_xml l a nm i tp (NIX_XML_TYPE_BOOL s) = NixXML_print_string_as_bool_xml tp s"
| "NixXML_print_expr_verbose_xml l a nm i tp (NIX_XML_TYPE_LIST xs) =
     NixXML_print_g_ptr_array_xml i tp l (NixXML_print_expr_verbose_xml l a nm) xs"
| "NixXML_print_expr_verbose_xml l a nm i tp (NIX_XML_TYPE_ATTRSET t) =
     NixXML_print_g_hash_table_verbose_xml i tp a nm (NixXML_print_expr_verbose_xml l a nm) t"
  by pat_completeness auto
termination
  by (relation "measure (\<lambda>(l, a, nm, i, tp, n). size n)")
    (auto simp: size_list_member intro: size_table_member)

definition NixXML_print_generic_expr_verbose_xml ::
  "int \<Rightarrow> string \<Rightarrow> string \<Rightarrow> string \<Rightarrow> string \<Rightarrow> cstr \<Rightarrow> NixXML_Node \<Rightarrow> string" where
  "NixXML_print_generic_expr_verbose_xml indent_level root_element_name list_element_name attr_element_name
     name_property_name type_property_name value =
     NixXML_print_open_root_tag root_element_name
       @ NixXML_print_expr_verbose_xml list_element_name attr_element_name name_property_name
           indent_level type_property_name value
       @ NixXML_print_close_root_tag root_element_name"

section \<open>What a printed string reads as\<close>

text \<open>
  The reader of a Nix string literal after its opening quote: a backslash escapes the next
  character, a dollar sign before a brace opens an antiquotation, which is not a literal, and
  a carriage return is not kept by Nix. It returns the value and the text after the
  closing quote.
\<close>

fun read_nix_string :: "string \<Rightarrow> (string \<times> string) option" where
  "read_nix_string [] = None"
| "read_nix_string (c # cs) =
     (if c = quote then Some ([], cs)
      else if c = CHR 13 \<or> (c = CHR ''$'' \<and> cs \<noteq> [] \<and> hd cs = CHR ''{'') then None
      else if c = backslash
      then (case cs of
              [] \<Rightarrow> None
            | e # ds \<Rightarrow> map_option (apfst ((#)
                (if e = CHR ''n'' then newline else if e = CHR ''r'' then CHR 13
                 else if e = CHR ''t'' then CHR 9 else e))) (read_nix_string ds))
      else map_option (apfst ((#) c)) (read_nix_string cs))"

fun plain_nix :: "string \<Rightarrow> bool" where
  "plain_nix [] = True"
| "plain_nix (c # cs) =
     (c \<noteq> CHR 13 \<and> \<not> (c = CHR ''$'' \<and> cs \<noteq> [] \<and> hd cs = CHR ''{'') \<and> plain_nix cs)"

text \<open>The reader of XML character data: the predefined entities and nothing else after an ampersand.\<close>

fun read_xml_text :: "string \<Rightarrow> string option" where
  "read_xml_text [] = Some []"
| "read_xml_text (c # cs) =
     (if c = CHR ''<'' then None
      else if c = CHR ''&''
      then (if take 3 cs = ''lt;'' then map_option ((#) (CHR ''<'')) (read_xml_text (drop 3 cs))
            else if take 3 cs = ''gt;'' then map_option ((#) (CHR ''>'')) (read_xml_text (drop 3 cs))
            else if take 4 cs = ''amp;'' then map_option ((#) (CHR ''&'')) (read_xml_text (drop 4 cs))
            else if take 5 cs = ''quot;'' then map_option ((#) quote) (read_xml_text (drop 5 cs))
            else if take 5 cs = ''apos;'' then map_option ((#) (CHR 39)) (read_xml_text (drop 5 cs))
            else None)
      else map_option ((#) c) (read_xml_text cs))"

lemma hd_escape_nix:
  "hd (concat (map escape_nix s) @ quote # rest) = CHR ''{'' \<longleftrightarrow> s \<noteq> [] \<and> hd s = CHR ''{''"
  by (cases s) (auto simp: escape_nix_def quote_def backslash_def newline_def)

lemma read_escaped_nix:
  "read_nix_string (concat (map escape_nix s) @ quote # rest) =
     (if plain_nix s then Some (s, rest) else None)"
proof (induction s)
  case Nil
  show ?case by simp
next
  case (Cons c s)
  let ?tail = "concat (map escape_nix s) @ quote # rest"
  have ne: "?tail \<noteq> []" by simp
  consider (esc) "c = quote \<or> c = backslash" | (nl) "c = newline"
    | (plain) "c \<noteq> quote" "c \<noteq> backslash" "c \<noteq> newline" by blast
  then show ?case
  proof cases
    case esc
    then have "escape_nix c = [backslash, c]" "c \<noteq> CHR 13" "c \<noteq> CHR ''$''"
      "c \<noteq> CHR ''n''" "c \<noteq> CHR ''r''" "c \<noteq> CHR ''t''"
      by (auto simp: escape_nix_def quote_def backslash_def)
    then show ?thesis using Cons.IH
      by (simp add: backslash_def quote_def)
  next
    case nl
    then have "escape_nix c = [backslash, CHR ''n'']" "c \<noteq> CHR 13" "c \<noteq> CHR ''$''"
      by (simp_all add: escape_nix_def newline_def quote_def backslash_def)
    then show ?thesis using Cons.IH nl
      by (simp add: backslash_def quote_def)
  next
    case plain
    then have "escape_nix c = [c]" by (simp add: escape_nix_def)
    then show ?thesis using Cons.IH plain hd_escape_nix [of s rest] ne by auto
  qed
qed

lemma print_xml_prefix:
  assumes "take (length e) (print_string_xml s) = e" and "CHR ''&'' \<notin> set e"
  shows "length e \<le> length s \<and> drop (length e) (print_string_xml s) = print_string_xml (drop (length e) s)"
  using assms
proof (induction e arbitrary: s)
  case Nil
  then show ?case by simp
next
  case (Cons x e)
  from Cons.prems obtain c s' where s: "s = c # s'" by (cases s) (auto simp: print_string_xml_def)
  with Cons.prems have c: "escape_xml c = [c]" by (auto simp: print_string_xml_def escape_xml_def)
  from Cons.prems s c have "take (length e) (print_string_xml s') = e" by (simp add: print_string_xml_def)
  with Cons.IH [of s'] Cons.prems s c show ?case by (simp add: print_string_xml_def)
qed

lemma read_printed_xml_length:
  "read_xml_text (print_string_xml s) = Some t \<Longrightarrow>
     length t \<le> length s \<and> (CHR ''&'' \<in> set s \<longrightarrow> length t < length s)"
proof (induction "length s" arbitrary: s t rule: less_induct)
  case less
  show ?case
  proof (cases s)
    case Nil
    with less.prems show ?thesis by (simp add: print_string_xml_def)
  next
    case (Cons c s')
    have entity: "Suc (length z) < length s"
      if "take n (print_string_xml s') = e" "read_xml_text (drop n (print_string_xml s')) = Some z"
        "CHR ''&'' \<notin> set e" "0 < n" "n = length e" for n e z
    proof -
      have "take (length e) (print_string_xml s') = e" using that(1,5) by simp
      from print_xml_prefix [OF this that(3)]
      have len: "length e \<le> length s'"
        and d: "drop (length e) (print_string_xml s') = print_string_xml (drop (length e) s')" by auto
      have "length (drop (length e) s') < length s" using Cons by simp
      with that(2,5) d have "length z \<le> length s' - length e"
        using less.hyps [of "drop (length e) s'" z] by auto
      with len that(4,5) have "length z < length s'" by linarith
      with Cons show ?thesis by simp
    qed
    consider (amp) "c = CHR ''&''" | (lt) "c = CHR ''<''" | (gt) "c = CHR ''>''"
      | (other) "c \<noteq> CHR ''&''" "c \<noteq> CHR ''<''" "c \<noteq> CHR ''>''" by blast
    then show ?thesis
    proof cases
      case amp
      with less.prems Cons have r: "read_xml_text (CHR ''&'' # print_string_xml s') = Some t"
        by (simp add: print_string_xml_def escape_xml_def)
      have "length t < length s"
        using r by (auto split: if_splits dest: entity)
      then show ?thesis by simp
    next
      case lt
      with less.prems Cons obtain t' where "t = CHR ''<'' # t'" "read_xml_text (print_string_xml s') = Some t'"
        by (auto simp: print_string_xml_def escape_xml_def)
      with less.hyps [of s' t'] Cons lt show ?thesis by auto
    next
      case gt
      with less.prems Cons obtain t' where "t = CHR ''>'' # t'" "read_xml_text (print_string_xml s') = Some t'"
        by (auto simp: print_string_xml_def escape_xml_def)
      with less.hyps [of s' t'] Cons gt show ?thesis by auto
    next
      case other
      with less.prems Cons obtain t' where "t = c # t'" "read_xml_text (print_string_xml s') = Some t'"
        by (auto simp: print_string_xml_def escape_xml_def)
      with less.hyps [of s' t'] Cons other show ?thesis by auto
    qed
  qed
qed

lemma read_printed_xml_plain:
  "CHR ''&'' \<notin> set s \<Longrightarrow> read_xml_text (print_string_xml s) = Some s"
  by (induction s) (auto simp: print_string_xml_def escape_xml_def)



end
