(* ===== verification/Manifest_Data.thy ===== *)
theory Manifest_Data
  imports Infrastructure NixXML_Print
begin

text \<open>
  The service part of the manifest model of \<open>libmanifest\<close>: inter-dependency mappings, service
  mappings and the sorted arrays of them, services and the services table, and the
  parameters of a deployment activity. The arrays are searched with \<open>bsearch\<close>, so that
  everything rests on their being sorted by target, container and service.
\<close>

section \<open>Inter-dependency mappings (interdependencymapping.c)\<close>

text \<open>
  A service mapping starts with the fields of an inter-dependency mapping, and the C code
  casts the one to the other; here it is an extension of the record, and functions on
  inter-dependency mappings take any extension.
\<close>

record InterDependencyMapping =
  service :: cstr
  container :: cstr
  target :: cstr

definition compare_interdependency_mappings ::
  "'a InterDependencyMapping_scheme \<Rightarrow> 'b InterDependencyMapping_scheme \<Rightarrow> int" where
  "compare_interdependency_mappings left right =
     (let status = xmlStrcmp (target left) (target right) in
      if status = 0
      then (let status = xmlStrcmp (container left) (container right) in
            if status = 0 then xmlStrcmp (service left) (service right) else status)
      else status)"

definition mapping_key :: "'a InterDependencyMapping_scheme \<Rightarrow> cstr \<times> cstr \<times> cstr" where
  "mapping_key m = (target m, container m, service m)"

lemma compare_interdependency_mappings_order [order_simps]:
  "compare_interdependency_mappings l r < 0 \<longleftrightarrow> mapping_key l < mapping_key r"
  "0 < compare_interdependency_mappings l r \<longleftrightarrow> mapping_key r < mapping_key l"
  by (auto simp: compare_interdependency_mappings_def mapping_key_def Let_def order_simps)

definition insert_interdependency_mapping_attributes ::
  "'a InterDependencyMapping_scheme \<Rightarrow> string \<Rightarrow> cstr \<Rightarrow> 'a InterDependencyMapping_scheme" where
  "insert_interdependency_mapping_attributes mapping key value =
     (if xmlStrcmp (Some key) (Some ''service'') = 0 then mapping\<lparr>service := value\<rparr>
      else if xmlStrcmp (Some key) (Some ''target'') = 0 then mapping\<lparr>target := value\<rparr>
      else if xmlStrcmp (Some key) (Some ''container'') = 0 then mapping\<lparr>container := value\<rparr>
      else mapping)"

definition parse_mapping_value :: "xmlNode \<Rightarrow> string option result" where
  "parse_mapping_value element = Inr (Some (NixXML_parse_value element))"

definition parse_interdependency_mapping :: "cstr \<Rightarrow> xmlNode \<Rightarrow> InterDependencyMapping result" where
  "parse_interdependency_mapping userdata element =
     bindr (NixXML_parse_simple_attrset element \<lparr>service = None, container = None, target = None\<rparr>
              parse_mapping_value insert_interdependency_mapping_attributes) (\<lambda>mapping.
       Inr (if target mapping = None then mapping\<lparr>target := userdata\<rparr> else mapping))"

definition check_interdependency_mapping :: "'a InterDependencyMapping_scheme \<Rightarrow> bool" where
  "check_interdependency_mapping mapping =
     (if service mapping = None then False
      else if container mapping = None then False
      else if target mapping = None then False
      else True)"

section \<open>Arrays of inter-dependency mappings (interdependencymappingarray.c)\<close>

definition find_interdependency_mapping ::
  "InterDependencyMapping list \<Rightarrow> 'k InterDependencyMapping_scheme \<Rightarrow> InterDependencyMapping option" where
  "find_interdependency_mapping array key =
     (case bsearch compare_interdependency_mappings key array of None \<Rightarrow> None | Some i \<Rightarrow> Some (array ! i))"

definition parse_interdependency_mapping_array ::
  "InterDependencyMapping sort_function \<Rightarrow> cstr \<Rightarrow> xmlNode \<Rightarrow> InterDependencyMapping list result" where
  "parse_interdependency_mapping_array srt userdata element =
     bindr (NixXML_parse_g_ptr_array element (Some ''mapping'')
              (\<lambda>child. bindr (parse_interdependency_mapping userdata child) (\<lambda>m. Inr (Some m))))
       (\<lambda>array. Inr (srt compare_interdependency_mappings array))"

definition check_interdependency_mapping_array :: "InterDependencyMapping list \<Rightarrow> bool" where
  "check_interdependency_mapping_array array = NixXML_check_g_ptr_array check_interdependency_mapping array"

fun all_interdependencies_found :: "InterDependencyMapping list \<Rightarrow> InterDependencyMapping list \<Rightarrow> bool" where
  "all_interdependencies_found array2 [] = True"
| "all_interdependencies_found array2 (mapping # rest) =
     (if find_interdependency_mapping array2 mapping = None then False
      else all_interdependencies_found array2 rest)"

definition compare_interdependency_mapping_arrays ::
  "InterDependencyMapping list \<Rightarrow> InterDependencyMapping list \<Rightarrow> bool" where
  "compare_interdependency_mapping_arrays array1 array2 =
     (if length array1 = length array2 then all_interdependencies_found array2 array1 else False)"

section \<open>Service mappings (servicemapping.c)\<close>

datatype ServiceMappingStatus =
    SERVICE_MAPPING_DEACTIVATED
  | SERVICE_MAPPING_IN_PROGRESS
  | SERVICE_MAPPING_ACTIVATED
  | SERVICE_MAPPING_ERROR

record ServiceMapping = InterDependencyMapping +
  container_provided_by_service :: cstr
  status :: ServiceMappingStatus

definition compare_service_mappings ::
  "'a InterDependencyMapping_scheme \<Rightarrow> 'b InterDependencyMapping_scheme \<Rightarrow> int" where
  "compare_service_mappings l r = compare_interdependency_mappings l r"

definition create_service_mapping_from_element :: ServiceMapping where
  "create_service_mapping_from_element =
     \<lparr>service = None, container = None, target = None, container_provided_by_service = None,
      status = SERVICE_MAPPING_DEACTIVATED\<rparr>"

definition insert_service_mapping_attributes :: "ServiceMapping \<Rightarrow> string \<Rightarrow> cstr \<Rightarrow> ServiceMapping" where
  "insert_service_mapping_attributes mapping key value =
     (if xmlStrcmp (Some key) (Some ''service'') = 0 then mapping\<lparr>service := value\<rparr>
      else if xmlStrcmp (Some key) (Some ''target'') = 0 then mapping\<lparr>target := value\<rparr>
      else if xmlStrcmp (Some key) (Some ''container'') = 0 then mapping\<lparr>container := value\<rparr>
      else if xmlStrcmp (Some key) (Some ''containerProvidedByService'') = 0
      then mapping\<lparr>container_provided_by_service := value\<rparr>
      else mapping)"

definition parse_service_mapping :: "cstr \<Rightarrow> xmlNode \<Rightarrow> ServiceMapping result" where
  "parse_service_mapping userdata element =
     bindr (NixXML_parse_simple_attrset element create_service_mapping_from_element
              parse_mapping_value insert_service_mapping_attributes) (\<lambda>mapping.
       Inr (if target mapping = None then mapping\<lparr>target := userdata\<rparr> else mapping))"

definition check_service_mapping :: "ServiceMapping \<Rightarrow> bool" where
  "check_service_mapping mapping = check_interdependency_mapping mapping"

section \<open>Arrays of service mappings (servicemappingarray.c)\<close>

text \<open>
  The pointer \<open>find_service_mapping\<close> returns is the index of the element: the traversal
  updates the status of the mapping it finds.
\<close>

definition find_service_mapping :: "ServiceMapping list \<Rightarrow> 'k InterDependencyMapping_scheme \<Rightarrow> nat option" where
  "find_service_mapping array key = bsearch compare_service_mappings key array"

definition parse_service_mapping_array ::
  "ServiceMapping sort_function \<Rightarrow> cstr \<Rightarrow> xmlNode \<Rightarrow> ServiceMapping list result" where
  "parse_service_mapping_array srt userdata element =
     bindr (NixXML_parse_g_ptr_array element (Some ''mapping'')
              (\<lambda>child. bindr (parse_service_mapping userdata child) (\<lambda>m. Inr (Some m))))
       (\<lambda>array. Inr (srt compare_service_mappings array))"

definition check_service_mapping_array :: "ServiceMapping list \<Rightarrow> bool" where
  "check_service_mapping_array array = NixXML_check_g_ptr_array check_service_mapping array"

fun all_service_mappings_found :: "ServiceMapping list \<Rightarrow> ServiceMapping list \<Rightarrow> bool" where
  "all_service_mappings_found array2 [] = True"
| "all_service_mappings_found array2 (mapping # rest) =
     (if find_service_mapping array2 mapping = None then False
      else all_service_mappings_found array2 rest)"

definition compare_service_mapping_arrays :: "ServiceMapping list \<Rightarrow> ServiceMapping list \<Rightarrow> bool" where
  "compare_service_mapping_arrays array1 array2 =
     (if length array1 = length array2 then all_service_mappings_found array2 array1 else False)"

definition intersect_service_mapping_array ::
  "ServiceMapping list \<Rightarrow> ServiceMapping list \<Rightarrow> ServiceMapping list" where
  "intersect_service_mapping_array left right =
     (if length left < length right
      then filter (\<lambda>left_mapping. find_service_mapping right left_mapping \<noteq> None) left
      else filter (\<lambda>right_mapping. find_service_mapping left right_mapping \<noteq> None) right)"

text \<open>
  The two loops write the status of every mapping of both arrays. The arrays come from two
  manifests and share no mapping object, so that the second loop does not touch what the
  first has added.
\<close>

definition unify_service_mapping_array ::
  "ServiceMapping sort_function \<Rightarrow> ServiceMapping list \<Rightarrow> ServiceMapping list \<Rightarrow> ServiceMapping list
    \<Rightarrow> ServiceMapping list" where
  "unify_service_mapping_array srt left right intersect =
     srt compare_service_mappings
       (map (\<lambda>mapping. mapping\<lparr>status := SERVICE_MAPPING_ACTIVATED\<rparr>) left
        @ filter (\<lambda>mapping. find_service_mapping intersect mapping = None)
            (map (\<lambda>mapping. mapping\<lparr>status := SERVICE_MAPPING_DEACTIVATED\<rparr>) right))"

definition substract_service_mapping_array ::
  "ServiceMapping list \<Rightarrow> ServiceMapping list \<Rightarrow> ServiceMapping list" where
  "substract_service_mapping_array left right =
     filter (\<lambda>mapping. find_service_mapping right mapping = None) left"

section \<open>Searching sorted arrays\<close>

abbreviation keys_of :: "'a InterDependencyMapping_scheme list \<Rightarrow> (cstr \<times> cstr \<times> cstr) set" where
  "keys_of xs \<equiv> mapping_key ` set xs"

abbreviation sorted_mappings :: "'a InterDependencyMapping_scheme list \<Rightarrow> bool" where
  "sorted_mappings xs \<equiv> sorted (map mapping_key xs)"

abbreviation distinct_mappings :: "'a InterDependencyMapping_scheme list \<Rightarrow> bool" where
  "distinct_mappings xs \<equiv> distinct (map mapping_key xs)"

interpretation dependency_search: key_comparison
  "compare_interdependency_mappings :: 'k InterDependencyMapping_scheme \<Rightarrow> InterDependencyMapping \<Rightarrow> int"
  mapping_key mapping_key
  by unfold_locales (simp_all add: order_simps)

interpretation dependency_order: element_comparison
  "compare_interdependency_mappings :: InterDependencyMapping \<Rightarrow> InterDependencyMapping \<Rightarrow> int" mapping_key
  by unfold_locales (simp_all add: order_simps)

interpretation service_search: key_comparison
  "compare_service_mappings :: 'k InterDependencyMapping_scheme \<Rightarrow> ServiceMapping \<Rightarrow> int"
  mapping_key mapping_key
  by unfold_locales (simp_all add: compare_service_mappings_def order_simps)

interpretation service_order: element_comparison
  "compare_service_mappings :: ServiceMapping \<Rightarrow> ServiceMapping \<Rightarrow> int" mapping_key
  by unfold_locales (simp_all add: compare_service_mappings_def order_simps)

lemma find_service_mapping_SomeD:
  "find_service_mapping xs k = Some i \<Longrightarrow> i < length xs \<and> mapping_key (xs ! i) = mapping_key k"
  using service_search.bsearch_sound by (simp add: find_service_mapping_def)

lemma find_service_mapping_None_iff:
  "sorted_mappings xs \<Longrightarrow> find_service_mapping xs k = None \<longleftrightarrow> mapping_key k \<notin> keys_of xs"
  unfolding find_service_mapping_def
  by (subst service_search.bsearch_None_iff) (simp_all add: image_iff eq_commute)

lemma find_service_mapping_index:
  assumes "sorted_mappings xs" and "distinct_mappings xs" and "i < length xs"
  shows "find_service_mapping xs (xs ! i) = Some i"
proof -
  have "find_service_mapping xs (xs ! i) \<noteq> None"
    using assms(3) by (subst find_service_mapping_None_iff [OF assms(1)]) auto
  then obtain j where "find_service_mapping xs (xs ! i) = Some j" by auto
  moreover from find_service_mapping_SomeD [OF this] assms(2,3) have "j = i"
    using nth_eq_iff_index_eq [of "map mapping_key xs" j i] by simp
  ultimately show ?thesis by simp
qed

text \<open>The result of a search depends on the keys only.\<close>

lemma compare_mapping_keys:
  "mapping_key k = mapping_key k' \<Longrightarrow> mapping_key x = mapping_key y \<Longrightarrow>
     compare_interdependency_mappings k x = compare_interdependency_mappings k' y"
  unfolding compare_interdependency_mappings_def mapping_key_def by (simp cong: if_cong)

lemma find_service_mapping_cong:
  assumes "mapping_key k = mapping_key k'" and "map mapping_key xs = map mapping_key ys"
  shows "find_service_mapping xs k = find_service_mapping ys k'"
proof -
  have len: "length xs = length ys" using assms(2) by (rule map_eq_imp_length_eq)
  have "mapping_key (xs ! i) = mapping_key (ys ! i)" if "i < length xs" for i
    using assms(2) that len by (metis nth_map)
  then have "bsearch_between compare_service_mappings k xs l u = bsearch_between compare_service_mappings k' ys l u"
    if "u \<le> length xs" for l u
    using that
  proof (induction "u - l" arbitrary: l u rule: less_induct)
    case less
    let ?m = "(l + u) div 2"
    show ?case
    proof (cases "l < u")
      case True
      then have m: "l \<le> ?m" "?m < u" by auto
      have "compare_service_mappings k (xs ! ?m) = compare_service_mappings k' (ys ! ?m)"
        using less.prems m by (simp add: compare_service_mappings_def compare_mapping_keys [OF assms(1)])
      moreover have "bsearch_between compare_service_mappings k xs l ?m = bsearch_between compare_service_mappings k' ys l ?m"
        using less m by auto
      moreover have "bsearch_between compare_service_mappings k xs (Suc ?m) u = bsearch_between compare_service_mappings k' ys (Suc ?m) u"
        using less m by auto
      ultimately show ?thesis
        by (subst (1 2) bsearch_between.simps) (simp add: Let_def)
    next
      case False
      then show ?thesis by (subst (1 2) bsearch_between.simps) simp
    qed
  qed
  with len show ?thesis by (simp add: find_service_mapping_def bsearch_def)
qed

lemma find_interdependency_mapping_None_iff:
  "sorted_mappings xs \<Longrightarrow> find_interdependency_mapping xs k = None \<longleftrightarrow> mapping_key k \<notin> keys_of xs"
proof -
  have "find_interdependency_mapping xs k = None \<longleftrightarrow> bsearch compare_interdependency_mappings k xs = None"
    by (simp add: find_interdependency_mapping_def split: option.split)
  moreover assume "sorted_mappings xs"
  ultimately show ?thesis
    by (subst (asm) dependency_search.bsearch_None_iff) (simp_all add: image_iff eq_commute)
qed

section \<open>Set operations on arrays\<close>

lemma keys_of_filter: "keys_of (filter (\<lambda>m. mapping_key m \<in> K) xs) = keys_of xs \<inter> K"
  by auto

lemma sorted_mappings_filter: "sorted_mappings xs \<Longrightarrow> sorted_mappings (filter P xs)"
  by (rule sorted_filter)

lemma distinct_mappings_filter: "distinct_mappings xs \<Longrightarrow> distinct_mappings (filter P xs)"
  by (rule distinct_map_filter)

lemma intersect_keys:
  assumes "sorted_mappings left" and "sorted_mappings right"
  shows "keys_of (intersect_service_mapping_array left right) = keys_of left \<inter> keys_of right"
proof -
  have "(find_service_mapping xs m \<noteq> None) = (mapping_key m \<in> keys_of xs)"
    if "sorted_mappings xs" for xs and m :: ServiceMapping
    by (simp only: find_service_mapping_None_iff [OF that] not_not)
  with assms show ?thesis
    unfolding intersect_service_mapping_array_def by (auto simp only: keys_of_filter split: if_splits)
qed

lemma intersect_sorted:
  "sorted_mappings left \<Longrightarrow> sorted_mappings right \<Longrightarrow> sorted_mappings (intersect_service_mapping_array left right)"
  by (simp add: intersect_service_mapping_array_def sorted_mappings_filter)

lemma substract_eq:
  "sorted_mappings right \<Longrightarrow>
     substract_service_mapping_array left right = filter (\<lambda>m. mapping_key m \<notin> keys_of right) left"
  unfolding substract_service_mapping_array_def
  by (rule filter_cong) (simp_all add: find_service_mapping_None_iff)

lemma mapping_key_status [simp]: "mapping_key (m\<lparr>status := s\<rparr>) = mapping_key m"
  by (simp add: mapping_key_def)

lemma unify_members:
  assumes "sorts_by srt compare_service_mappings" and "sorted_mappings intersect"
  shows "set (unify_service_mapping_array srt left right intersect)
    = (\<lambda>m. m\<lparr>status := SERVICE_MAPPING_ACTIVATED\<rparr>) ` set left
      \<union> (\<lambda>m. m\<lparr>status := SERVICE_MAPPING_DEACTIVATED\<rparr>) ` {m \<in> set right. mapping_key m \<notin> keys_of intersect}"
  using sorts_by_set [OF assms(1)]
  by (auto simp: unify_service_mapping_array_def find_service_mapping_None_iff [OF assms(2)])

lemma unify_sorted:
  "sorts_by srt compare_service_mappings \<Longrightarrow>
     sorted_mappings (unify_service_mapping_array srt left right intersect)"
  unfolding unify_service_mapping_array_def by (rule service_order.sort_sorted)

lemma unify_distinct:
  assumes "sorts_by srt compare_service_mappings" and "sorted_mappings intersect"
    and "distinct_mappings left" and "distinct_mappings right"
    and "keys_of intersect = keys_of left \<inter> keys_of right"
  shows "distinct_mappings (unify_service_mapping_array srt left right intersect)"
proof -
  let ?left = "map (\<lambda>m. m\<lparr>status := SERVICE_MAPPING_ACTIVATED\<rparr>) left"
  let ?right = "filter (\<lambda>m. find_service_mapping intersect m = None)
    (map (\<lambda>m. m\<lparr>status := SERVICE_MAPPING_DEACTIVATED\<rparr>) right)"
  have same: "map mapping_key (map (\<lambda>m. m\<lparr>status := s\<rparr>) xs) = map mapping_key xs"
    for s and xs :: "ServiceMapping list" by simp
  have "distinct_mappings ?left" using assms(3) by (simp only: same)
  moreover have "distinct_mappings ?right"
    using assms(4) by (intro distinct_mappings_filter) (simp only: same)
  moreover have "keys_of ?left \<inter> keys_of ?right = {}"
  proof -
    have out: "mapping_key y \<notin> keys_of left" if "y \<in> set ?right" for y
      using that assms(5) by (auto simp: find_service_mapping_None_iff [OF assms(2)])
    have "keys_of ?left = keys_of left" by (simp add: image_image)
    then have "k \<notin> keys_of ?left" if "k \<in> keys_of ?right" for k
      using that out by (elim imageE) (simp only: not_False_eq_True)
    then show ?thesis by (simp only: disjoint_iff) blast
  qed
  ultimately have "distinct (map mapping_key (?left @ ?right))"
    by (simp only: map_append distinct_append set_map simp_thms)
  moreover have "mset (map mapping_key (unify_service_mapping_array srt left right intersect))
      = mset (map mapping_key (?left @ ?right))"
    unfolding unify_service_mapping_array_def mset_map by (simp only: sorts_by_mset [OF assms(1)])
  ultimately show ?thesis by (metis mset_eq_imp_distinct_iff)
qed

lemma all_service_mappings_found_iff:
  "sorted_mappings ys \<Longrightarrow> all_service_mappings_found ys xs \<longleftrightarrow> keys_of xs \<subseteq> keys_of ys"
  by (induction xs) (auto simp: find_service_mapping_None_iff)

lemma compare_service_mapping_arrays_iff:
  assumes "sorted_mappings ys" and "distinct_mappings xs" and "distinct_mappings ys"
  shows "compare_service_mapping_arrays xs ys \<longleftrightarrow> keys_of xs = keys_of ys"
proof -
  have card: "card (keys_of zs) = length zs" if "distinct_mappings zs" for zs :: "ServiceMapping list"
    using distinct_card [OF that] by simp
  show ?thesis
    unfolding compare_service_mapping_arrays_def
    using all_service_mappings_found_iff [OF assms(1), of xs] card [OF assms(2)] card [OF assms(3)]
    by (auto dest: card_subset_eq [rotated])
qed

end
