(* ===== verification/Services.thy ===== *)
theory Services
  imports Manifest_Data
begin

text \<open>
  Services of a manifest and the services table (\<open>manifestservice.c\<close>,
  \<open>manifestservicestable.c\<close>), and the parameters of a deployment activity
  (\<open>mappingparameters.c\<close>).
\<close>

section \<open>Services (manifestservice.c)\<close>

record ManifestService =
  name :: cstr
  pkg :: cstr
  type_of :: cstr
  depends_on :: "InterDependencyMapping list option"
  connects_to :: "InterDependencyMapping list option"
  provides_containers_table :: "containers option"

definition create_manifest_service_from_element :: ManifestService where
  "create_manifest_service_from_element =
     \<lparr>name = None, pkg = None, type_of = None, depends_on = None, connects_to = None,
      provides_containers_table = None\<rparr>"

definition parse_and_insert_manifest_service_properties ::
  "InterDependencyMapping sort_function \<Rightarrow> cstr \<Rightarrow> xmlNode \<Rightarrow> string \<Rightarrow> ManifestService
    \<Rightarrow> ManifestService result" where
  "parse_and_insert_manifest_service_properties srt userdata element key svc =
     (if xmlStrcmp (Some key) (Some ''name'') = 0
      then Inr (svc\<lparr>name := Some (NixXML_parse_value element)\<rparr>)
      else if xmlStrcmp (Some key) (Some ''pkg'') = 0
      then Inr (svc\<lparr>pkg := Some (NixXML_parse_value element)\<rparr>)
      else if xmlStrcmp (Some key) (Some ''type'') = 0
      then Inr (svc\<lparr>type_of := Some (NixXML_parse_value element)\<rparr>)
      else if xmlStrcmp (Some key) (Some ''dependsOn'') = 0
      then bindr (parse_interdependency_mapping_array srt userdata element)
             (\<lambda>a. Inr (svc\<lparr>depends_on := Some a\<rparr>))
      else if xmlStrcmp (Some key) (Some ''connectsTo'') = 0
      then bindr (parse_interdependency_mapping_array srt userdata element)
             (\<lambda>a. Inr (svc\<lparr>connects_to := Some a\<rparr>))
      else if xmlStrcmp (Some key) (Some ''providesContainers'') = 0
      then bindr (parse_containers_table element) (\<lambda>t. Inr (svc\<lparr>provides_containers_table := Some t\<rparr>))
      else Inr svc)"

definition parse_manifest_service ::
  "InterDependencyMapping sort_function \<Rightarrow> cstr \<Rightarrow> xmlNode \<Rightarrow> ManifestService result" where
  "parse_manifest_service srt userdata element =
     bindr (NixXML_parse_simple_heterogeneous_attrset element create_manifest_service_from_element
              (parse_and_insert_manifest_service_properties srt userdata)) (\<lambda>svc.
       let svc = (if depends_on svc = None then svc\<lparr>depends_on := Some []\<rparr> else svc);
           svc = (if connects_to svc = None then svc\<lparr>connects_to := Some []\<rparr> else svc);
           svc = (if provides_containers_table svc = None
                  then svc\<lparr>provides_containers_table := Some []\<rparr> else svc)
       in Inr svc)"

definition check_manifest_service :: "ManifestService \<Rightarrow> bool result" where
  "check_manifest_service svc =
     (let status = True;
          status = (if name svc = None then False else status);
          status = (if pkg svc = None then False else status);
          status = (if type_of svc = None then False else status)
      in bindr (deref (depends_on svc)) (\<lambda>deps.
         let status = (if \<not> check_interdependency_mapping_array deps then False else status)
         in bindr (deref (connects_to svc)) (\<lambda>conns.
         let status = (if \<not> check_interdependency_mapping_array conns then False else status)
         in Inr status)))"

definition compare_manifest_services :: "ManifestService \<Rightarrow> ManifestService \<Rightarrow> bool result" where
  "compare_manifest_services left right =
     (if xmlStrcmp (name left) (name right) = 0
        \<and> xmlStrcmp (pkg left) (pkg right) = 0
        \<and> xmlStrcmp (type_of left) (type_of right) = 0
      then bindr (deref (depends_on left)) (\<lambda>dl. bindr (deref (depends_on right)) (\<lambda>dr.
           if compare_interdependency_mapping_arrays dl dr
           then bindr (deref (connects_to left)) (\<lambda>cl. bindr (deref (connects_to right)) (\<lambda>cr.
                if compare_interdependency_mapping_arrays cl cr
                then bindr (deref (provides_containers_table left)) (\<lambda>pl.
                     bindr (deref (provides_containers_table right)) (\<lambda>pr.
                     Inr (compare_container_tables pl pr)))
                else Inr False))
           else Inr False))
      else Inr False)"

definition generate_activation_arguments_for_container_service ::
  "ManifestService \<Rightarrow> cstr \<Rightarrow> string list result" where
  "generate_activation_arguments_for_container_service svc container_name =
     bindr (deref (provides_containers_table svc)) (\<lambda>t.
     bindr (g_hash_table_lookup t container_name) (\<lambda>container_properties.
     NixXML_generate_env_vars_generic_glib container_properties))"

section \<open>The services table (manifestservicestable.c)\<close>

type_synonym services_table = "ManifestService hashtable"

definition parse_services_table ::
  "InterDependencyMapping sort_function \<Rightarrow> cstr \<Rightarrow> xmlNode \<Rightarrow> services_table result" where
  "parse_services_table srt userdata element =
     NixXML_parse_g_hash_table_verbose element ''service'' ''name''
       (\<lambda>child. bindr (parse_manifest_service srt userdata child) (\<lambda>s. Inr (Some s)))"

fun check_services_table :: "services_table \<Rightarrow> bool result" where
  "check_services_table [] = Inr True"
| "check_services_table ((key, svc) # t) =
     bindr (check_manifest_service svc) (\<lambda>valid. bindr (check_services_table t) (\<lambda>status.
       Inr (if \<not> valid then False else status)))"

fun compare_service_entries :: "services_table \<Rightarrow> services_table \<Rightarrow> bool result" where
  "compare_service_entries [] t2 = Inr True"
| "compare_service_entries ((key, svc) # t1) t2 =
     (case map_of t2 key of
        None \<Rightarrow> Inr False
      | Some svc2 \<Rightarrow> bindr (compare_manifest_services svc svc2) (\<lambda>same.
          if \<not> same then Inr False else compare_service_entries t1 t2))"

definition compare_services_tables :: "services_table \<Rightarrow> services_table \<Rightarrow> bool result" where
  "compare_services_tables t1 t2 =
     (if length t1 = length t2 then compare_service_entries t1 t2 else Inr False)"

definition generate_union_services_table :: "services_table \<Rightarrow> services_table \<Rightarrow> services_table" where
  "generate_union_services_table left right =
     (let result_table = fold (\<lambda>(key, value) t. g_hash_table_insert key value t) left [] in
      fold (\<lambda>(key, value) t. if map_of left key = None then g_hash_table_insert key value t else t)
        right result_table)"

text \<open>The union holds the left table's service where both have one.\<close>

lemma map_of_insert_all:
  "wf_table xs \<Longrightarrow> map_of (fold (\<lambda>(k, v) t. g_hash_table_insert k v t) xs t0) = map_of t0 ++ map_of xs"
proof (induction xs arbitrary: t0)
  case (Cons e xs)
  obtain k v where e: "e = (k, v)" by fastforce
  with Cons.prems have "map_of xs k = None" by (auto simp: map_of_eq_None_iff)
  then have "(map_of t0)(k \<mapsto> v) ++ map_of xs = (map_of t0 ++ map_of xs)(k \<mapsto> v)"
    by (auto simp: fun_eq_iff map_add_def split: option.splits)
  moreover have "map_of t0 ++ map_of (e # xs) = (map_of t0 ++ map_of xs)(k \<mapsto> v)"
    using e by (auto simp: fun_eq_iff map_add_def)
  moreover have "map_of (fold (\<lambda>(k, v) t. g_hash_table_insert k v t) (e # xs) t0)
      = (map_of t0)(k \<mapsto> v) ++ map_of xs"
    using Cons.IH [of "g_hash_table_insert k v t0"] Cons.prems e by (simp add: fun_upd_def)
  ultimately show ?case by metis
qed simp

lemma map_of_insert_new:
  "wf_table xs \<Longrightarrow>
     map_of (fold (\<lambda>(k, v) t. if P k then g_hash_table_insert k v t else t) xs t0) =
     map_of t0 ++ (\<lambda>k. if P k then map_of xs k else None)"
proof (induction xs arbitrary: t0)
  case (Cons e xs)
  obtain k v where e: "e = (k, v)" by fastforce
  with Cons.prems have none: "map_of xs k = None" by (auto simp: map_of_eq_None_iff)
  with Cons e show ?case
    by (auto simp: fun_eq_iff map_add_def split: option.splits)
qed (simp add: map_add_def fun_eq_iff)

lemma map_of_union_services_table:
  assumes "wf_table left" and "wf_table right"
  shows "map_of (generate_union_services_table left right) = map_of right ++ map_of left"
  unfolding generate_union_services_table_def Let_def
    map_of_insert_new [OF assms(2), of "\<lambda>k. map_of left k = None"] map_of_insert_all [OF assms(1)]
  by (auto simp: fun_eq_iff map_add_def split: option.splits)

section \<open>Parameters of an activity (mappingparameters.c)\<close>

record MappingParameters =
  params_service :: "ManifestService option"
  params_container_service :: "ManifestService option"
  params_type :: cstr
  params_arguments :: "string list"
  params_arguments_size :: nat

definition determine_type :: "ManifestService option \<Rightarrow> ManifestService option \<Rightarrow> cstr result" where
  "determine_type svc container_service =
     (case container_service of
        None \<Rightarrow> bindr (deref svc) (\<lambda>s. Inr (type_of s))
      | Some c \<Rightarrow> Inr (pkg c))"

definition generate_activation_arguments ::
  "ManifestService option \<Rightarrow> Target \<Rightarrow> cstr \<Rightarrow> string list result" where
  "generate_activation_arguments container_service tgt container_name =
     (case container_service of
        None \<Rightarrow> generate_activation_arguments_for_target tgt container_name
      | Some c \<Rightarrow> generate_activation_arguments_for_container_service c container_name)"

definition create_mapping_parameters ::
  "cstr \<Rightarrow> cstr \<Rightarrow> cstr \<Rightarrow> cstr \<Rightarrow> services_table \<Rightarrow> Target \<Rightarrow> MappingParameters result" where
  "create_mapping_parameters svc cont target_name provided_by services tgt =
     bindr (g_hash_table_lookup services svc) (\<lambda>s.
     bindr (if provided_by = None then Inr None else g_hash_table_lookup services provided_by) (\<lambda>cs.
     bindr (determine_type s cs) (\<lambda>t.
     bindr (generate_activation_arguments cs tgt cont) (\<lambda>args.
     Inr \<lparr>params_service = s, params_container_service = cs, params_type = t,
          params_arguments = args, params_arguments_size = length args\<rparr>))))"

text \<open>
  The parameters can be created for a mapping that names a service of the table and, if its
  container is provided by a service, one that provides a container of that name.
\<close>

definition mapping_resolvable :: "services_table \<Rightarrow> Target \<Rightarrow> cstr \<Rightarrow> cstr \<Rightarrow> cstr \<Rightarrow> bool" where
  "mapping_resolvable services tgt svc cont provided_by \<longleftrightarrow>
     (\<exists>s sn cn. svc = Some sn \<and> cont = Some cn \<and> map_of services sn = Some s
        \<and> (\<forall>pn. provided_by = Some pn \<longrightarrow> (case map_of services pn of
              None \<Rightarrow> True
            | Some c \<Rightarrow> (\<exists>t props. provides_containers_table c = Some t \<and> map_of t cn = Some props))))"

lemma create_mapping_parameters_total:
  assumes "mapping_resolvable services tgt svc cont provided_by"
  shows "\<exists>p. create_mapping_parameters svc cont tn provided_by services tgt = Inr p
    \<and> params_service p = map_of services (the svc) \<and> params_service p \<noteq> None"
proof -
  from assms obtain s sn cn where
    sn: "svc = Some sn" "cont = Some cn" "map_of services sn = Some s"
    and pr: "\<And>pn. provided_by = Some pn \<Longrightarrow> (case map_of services pn of None \<Rightarrow> True
      | Some c \<Rightarrow> (\<exists>t props. provides_containers_table c = Some t \<and> map_of t cn = Some props))"
    unfolding mapping_resolvable_def by blast
  have target_args: "\<exists>args. generate_activation_arguments_for_target tgt cont = Inr args"
    using sn(2) by (auto simp: generate_activation_arguments_for_target_def find_container_def
        NixXML_generate_env_vars_generic_glib_def split: option.splits)
  show ?thesis
  proof (cases provided_by)
    case None
    with sn target_args show ?thesis
      by (auto simp: create_mapping_parameters_def determine_type_def generate_activation_arguments_def)
  next
    case (Some pn)
    show ?thesis
    proof (cases "map_of services pn")
      case None
      with Some sn target_args show ?thesis
        by (auto simp: create_mapping_parameters_def determine_type_def generate_activation_arguments_def)
    next
      case (Some c)
      with pr [OF \<open>provided_by = Some pn\<close>] \<open>provided_by = Some pn\<close> sn show ?thesis
        by (auto simp: create_mapping_parameters_def determine_type_def generate_activation_arguments_def
            generate_activation_arguments_for_container_service_def
            NixXML_generate_env_vars_generic_glib_def)
    qed
  qed
qed

end
