(* ===== verification/Snapshot_Data.thy ===== *)
theory Snapshot_Data
  imports Manifest_Data
begin

text \<open>
  Snapshot mappings (\<open>libmanifest/snapshotmapping.c\<close>) and the sorted arrays of them
  (\<open>snapshotmappingarray.c\<close>): which state of which component has to move from one machine to
  another. The difference of two arrays decides what a migration transfers.
\<close>

section \<open>Snapshot mappings (snapshotmapping.c)\<close>

text \<open>
  A mapping starts with the fields of its key, to which the C code casts it; functions on
  keys take the extension.
\<close>

record SnapshotMappingKey =
  component :: cstr
  snapshot_container :: cstr
  snapshot_target :: cstr

record SnapshotMapping = SnapshotMappingKey +
  snapshot_service :: cstr
  snapshot_container_provided_by_service :: cstr
  transferred :: bool

definition compare_snapshot_mapping_keys ::
  "'a SnapshotMappingKey_scheme \<Rightarrow> 'b SnapshotMappingKey_scheme \<Rightarrow> int" where
  "compare_snapshot_mapping_keys left right =
     (let status = xmlStrcmp (snapshot_target left) (snapshot_target right) in
      if status = 0
      then (let status = xmlStrcmp (snapshot_container left) (snapshot_container right) in
            if status = 0 then xmlStrcmp (component left) (component right) else status)
      else status)"

definition compare_snapshot_mapping ::
  "'a SnapshotMappingKey_scheme \<Rightarrow> 'b SnapshotMappingKey_scheme \<Rightarrow> int" where
  "compare_snapshot_mapping l r = compare_snapshot_mapping_keys l r"

definition create_snapshot_mapping_from_element :: SnapshotMapping where
  "create_snapshot_mapping_from_element =
     \<lparr>component = None, snapshot_container = None, snapshot_target = None, snapshot_service = None,
      snapshot_container_provided_by_service = None, transferred = False\<rparr>"

definition insert_snapshot_mapping_attributes :: "SnapshotMapping \<Rightarrow> string \<Rightarrow> cstr \<Rightarrow> SnapshotMapping" where
  "insert_snapshot_mapping_attributes mapping key value =
     (if xmlStrcmp (Some key) (Some ''component'') = 0 then mapping\<lparr>component := value\<rparr>
      else if xmlStrcmp (Some key) (Some ''container'') = 0 then mapping\<lparr>snapshot_container := value\<rparr>
      else if xmlStrcmp (Some key) (Some ''target'') = 0 then mapping\<lparr>snapshot_target := value\<rparr>
      else if xmlStrcmp (Some key) (Some ''service'') = 0 then mapping\<lparr>snapshot_service := value\<rparr>
      else if xmlStrcmp (Some key) (Some ''containerProvidedByService'') = 0
      then mapping\<lparr>snapshot_container_provided_by_service := value\<rparr>
      else mapping)"

definition parse_snapshot_mapping :: "cstr \<Rightarrow> xmlNode \<Rightarrow> SnapshotMapping result" where
  "parse_snapshot_mapping userdata element =
     bindr (NixXML_parse_simple_attrset element create_snapshot_mapping_from_element
              parse_mapping_value insert_snapshot_mapping_attributes) (\<lambda>mapping.
       Inr (if snapshot_target mapping = None then mapping\<lparr>snapshot_target := userdata\<rparr> else mapping))"

definition check_snapshot_mapping :: "SnapshotMapping \<Rightarrow> bool" where
  "check_snapshot_mapping mapping =
     (if component mapping = None then False
      else if snapshot_container mapping = None then False
      else if snapshot_service mapping = None then False
      else if snapshot_target mapping = None then False
      else True)"

text \<open>
  The printers pass the string on; printing a mapping whose string is NULL dereferences it,
  and \<open>check_snapshot_mapping\<close> has ruled that out.
\<close>

definition print_snapshot_mapping_attributes_nix :: "int \<Rightarrow> SnapshotMapping \<Rightarrow> string result" where
  "print_snapshot_mapping_attributes_nix indent_level mapping =
     (let attribute = \<lambda>attr_name value. bindr (deref value) (\<lambda>v.
            Inr (NixXML_print_attribute_nix indent_level (\<lambda>_. NixXML_print_string_nix) attr_name v)) in
      bindr (attribute ''service'' (snapshot_service mapping)) (\<lambda>a.
      bindr (attribute ''component'' (component mapping)) (\<lambda>b.
      bindr (attribute ''container'' (snapshot_container mapping)) (\<lambda>c.
      bindr (attribute ''target'' (snapshot_target mapping)) (\<lambda>d.
      bindr (if snapshot_container_provided_by_service mapping \<noteq> None
             then attribute ''containerProvidedByService'' (snapshot_container_provided_by_service mapping)
             else Inr '''') (\<lambda>e.
      Inr (a @ b @ c @ d @ e)))))))"

definition print_snapshot_mapping_attributes_xml :: "int \<Rightarrow> SnapshotMapping \<Rightarrow> string result" where
  "print_snapshot_mapping_attributes_xml indent_level mapping =
     (let attribute = \<lambda>attr_name value. bindr (deref value) (\<lambda>v.
            Inr (NixXML_print_simple_attribute_xml indent_level None (\<lambda>_. NixXML_print_string_xml) attr_name v)) in
      bindr (attribute ''service'' (snapshot_service mapping)) (\<lambda>a.
      bindr (attribute ''component'' (component mapping)) (\<lambda>b.
      bindr (attribute ''container'' (snapshot_container mapping)) (\<lambda>c.
      bindr (attribute ''target'' (snapshot_target mapping)) (\<lambda>d.
      bindr (if snapshot_container_provided_by_service mapping \<noteq> None
             then attribute ''containerProvidedByService'' (snapshot_container_provided_by_service mapping)
             else Inr '''') (\<lambda>e.
      Inr (a @ b @ c @ d @ e)))))))"

definition mapping_is_selected :: "SnapshotMapping \<Rightarrow> cstr \<Rightarrow> cstr \<Rightarrow> bool" where
  "mapping_is_selected mapping container_filter component_filter \<longleftrightarrow>
     (container_filter = None \<or> xmlStrcmp container_filter (snapshot_container mapping) = 0)
     \<and> (component_filter = None \<or> xmlStrcmp component_filter (component mapping) = 0)"

section \<open>Arrays of snapshot mappings (snapshotmappingarray.c)\<close>

definition filter_selected_mappings :: "SnapshotMapping list \<Rightarrow> cstr \<Rightarrow> cstr \<Rightarrow> SnapshotMapping list" where
  "filter_selected_mappings array container_filter component_filter =
     (if component_filter = None \<and> container_filter = None then array
      else filter (\<lambda>mapping. mapping_is_selected mapping container_filter component_filter) array)"

definition parse_snapshot_mapping_array ::
  "SnapshotMapping sort_function \<Rightarrow> cstr \<Rightarrow> cstr \<Rightarrow> cstr \<Rightarrow> xmlNode \<Rightarrow> SnapshotMapping list result" where
  "parse_snapshot_mapping_array srt container_filter component_filter userdata element =
     bindr (NixXML_parse_g_ptr_array element (Some ''mapping'')
              (\<lambda>child. bindr (parse_snapshot_mapping userdata child) (\<lambda>m. Inr (Some m))))
       (\<lambda>array. Inr (filter_selected_mappings (srt compare_snapshot_mapping array)
                       container_filter component_filter))"

definition check_snapshot_mapping_array :: "SnapshotMapping list \<Rightarrow> bool" where
  "check_snapshot_mapping_array array = NixXML_check_g_ptr_array check_snapshot_mapping array"

definition find_snapshot_mapping ::
  "SnapshotMapping list \<Rightarrow> 'k SnapshotMappingKey_scheme \<Rightarrow> SnapshotMapping option" where
  "find_snapshot_mapping array key =
     (case bsearch compare_snapshot_mapping key array of None \<Rightarrow> None | Some i \<Rightarrow> Some (array ! i))"

fun all_snapshot_mappings_found :: "SnapshotMapping list \<Rightarrow> SnapshotMapping list \<Rightarrow> bool" where
  "all_snapshot_mappings_found array2 [] = True"
| "all_snapshot_mappings_found array2 (mapping # rest) =
     (if find_snapshot_mapping array2 mapping = None then False
      else all_snapshot_mappings_found array2 rest)"

definition compare_snapshot_mapping_arrays :: "SnapshotMapping list \<Rightarrow> SnapshotMapping list \<Rightarrow> bool" where
  "compare_snapshot_mapping_arrays array1 array2 =
     (if length array1 = length array2 then all_snapshot_mappings_found array2 array1 else False)"

definition subtract_snapshot_mappings ::
  "SnapshotMapping list \<Rightarrow> SnapshotMapping list \<Rightarrow> SnapshotMapping list" where
  "subtract_snapshot_mappings array1 array2 =
     filter (\<lambda>mapping. find_snapshot_mapping array2 mapping = None) array1"

definition find_snapshot_mappings_per_target :: "SnapshotMapping list \<Rightarrow> cstr \<Rightarrow> SnapshotMapping list" where
  "find_snapshot_mappings_per_target array tgt =
     filter (\<lambda>mapping. xmlStrcmp (snapshot_target mapping) tgt = 0) array"

definition reset_snapshot_items_transferred_status :: "SnapshotMapping list \<Rightarrow> SnapshotMapping list" where
  "reset_snapshot_items_transferred_status array = map (\<lambda>mapping. mapping\<lparr>transferred := False\<rparr>) array"

section \<open>Searching and subtracting\<close>

definition snapshot_key :: "'a SnapshotMappingKey_scheme \<Rightarrow> cstr \<times> cstr \<times> cstr" where
  "snapshot_key m = (snapshot_target m, snapshot_container m, component m)"

lemma compare_snapshot_mapping_order [order_simps]:
  "compare_snapshot_mapping l r < 0 \<longleftrightarrow> snapshot_key l < snapshot_key r"
  "0 < compare_snapshot_mapping l r \<longleftrightarrow> snapshot_key r < snapshot_key l"
  by (auto simp: compare_snapshot_mapping_def compare_snapshot_mapping_keys_def snapshot_key_def Let_def order_simps)

interpretation snapshot_search: key_comparison
  "compare_snapshot_mapping :: 'k SnapshotMappingKey_scheme \<Rightarrow> SnapshotMapping \<Rightarrow> int"
  snapshot_key snapshot_key
  by unfold_locales (simp_all add: order_simps)

interpretation snapshot_order: element_comparison
  "compare_snapshot_mapping :: SnapshotMapping \<Rightarrow> SnapshotMapping \<Rightarrow> int" snapshot_key
  by unfold_locales (simp_all add: order_simps)

abbreviation snapshot_keys :: "SnapshotMapping list \<Rightarrow> (cstr \<times> cstr \<times> cstr) set" where
  "snapshot_keys xs \<equiv> snapshot_key ` set xs"

abbreviation sorted_snapshots :: "SnapshotMapping list \<Rightarrow> bool" where
  "sorted_snapshots xs \<equiv> sorted (map snapshot_key xs)"

lemma find_snapshot_mapping_None_iff:
  "sorted_snapshots xs \<Longrightarrow> find_snapshot_mapping xs k = None \<longleftrightarrow> snapshot_key k \<notin> snapshot_keys xs"
proof -
  have "find_snapshot_mapping xs k = None \<longleftrightarrow> bsearch compare_snapshot_mapping k xs = None"
    by (simp add: find_snapshot_mapping_def split: option.split)
  moreover assume "sorted_snapshots xs"
  ultimately show ?thesis
    by (subst (asm) snapshot_search.bsearch_None_iff) (simp_all add: image_iff eq_commute)
qed

lemma subtract_snapshot_mappings_eq:
  "sorted_snapshots ys \<Longrightarrow>
     subtract_snapshot_mappings xs ys = filter (\<lambda>m. snapshot_key m \<notin> snapshot_keys ys) xs"
  unfolding subtract_snapshot_mappings_def
  by (rule filter_cong) (simp_all add: find_snapshot_mapping_None_iff)

lemma parse_snapshot_mapping_array_sorted:
  assumes "sorts_by srt compare_snapshot_mapping"
    and "parse_snapshot_mapping_array srt cf mf userdata element = Inr array"
  shows "sorted_snapshots array \<and> (\<forall>m \<in> set array. mapping_is_selected m cf mf)"
proof -
  from assms(2) obtain xs where "array = filter_selected_mappings (srt compare_snapshot_mapping xs) cf mf"
    by (auto simp: parse_snapshot_mapping_array_def result_simps)
  moreover have "sorted_snapshots (srt compare_snapshot_mapping xs)"
    by (rule snapshot_order.sort_sorted [OF assms(1)])
  ultimately show ?thesis
    by (auto simp: filter_selected_mappings_def mapping_is_selected_def intro: sorted_filter)
qed

end
