(* ===== verification/Manifest.thy ===== *)
theory Manifest
  imports Services Snapshot_Data
begin

text \<open>
  Deployment manifests (\<open>libmanifest/manifest.c\<close>, \<open>profilemappingtable.c\<close>): parsing the parts a
  tool asks for, checking that every reference resolves, comparing two manifests, and the
  guard that keeps a migration from losing the state of a container.
\<close>

section \<open>Flags\<close>

unbundle bit_operations_syntax

type_synonym flags = "32 word"

definition has_flag :: "flags \<Rightarrow> flags \<Rightarrow> bool" where
  "has_flag flags f \<longleftrightarrow> flags AND f \<noteq> 0"

definition MANIFEST_PROFILES_FLAG :: flags where "MANIFEST_PROFILES_FLAG = 0x1"
definition MANIFEST_SERVICE_MAPPINGS_FLAG :: flags where "MANIFEST_SERVICE_MAPPINGS_FLAG = 0x2"
definition MANIFEST_SNAPSHOT_MAPPINGS_FLAG :: flags where "MANIFEST_SNAPSHOT_MAPPINGS_FLAG = 0x4"
definition MANIFEST_INFRASTRUCTURE_FLAG :: flags where "MANIFEST_INFRASTRUCTURE_FLAG = 0x8"

definition MANIFEST_ALL_FLAGS :: flags where
  "MANIFEST_ALL_FLAGS = MANIFEST_PROFILES_FLAG OR MANIFEST_SERVICE_MAPPINGS_FLAG
     OR MANIFEST_SNAPSHOT_MAPPINGS_FLAG OR MANIFEST_INFRASTRUCTURE_FLAG"

lemma manifest_all_flags [simp]:
  "has_flag MANIFEST_ALL_FLAGS MANIFEST_PROFILES_FLAG"
  "has_flag MANIFEST_ALL_FLAGS MANIFEST_SERVICE_MAPPINGS_FLAG"
  "has_flag MANIFEST_ALL_FLAGS MANIFEST_SNAPSHOT_MAPPINGS_FLAG"
  "has_flag MANIFEST_ALL_FLAGS MANIFEST_INFRASTRUCTURE_FLAG"
  by (simp_all add: has_flag_def MANIFEST_ALL_FLAGS_def MANIFEST_PROFILES_FLAG_def
      MANIFEST_SERVICE_MAPPINGS_FLAG_def MANIFEST_SNAPSHOT_MAPPINGS_FLAG_def MANIFEST_INFRASTRUCTURE_FLAG_def)

section \<open>Profile mappings (profilemappingtable.c)\<close>

type_synonym profile_mapping_table = "string hashtable"

definition parse_profile_mapping_table :: "xmlNode \<Rightarrow> profile_mapping_table result" where
  "parse_profile_mapping_table element =
     NixXML_parse_g_hash_table_verbose element ''profile'' ''name''
       (\<lambda>child. Inr (Some (NixXML_parse_value child)))"

text \<open>The check looks for values that are NULL, which a table of strings has not.\<close>

definition check_profile_mapping_table :: "profile_mapping_table \<Rightarrow> bool" where
  "check_profile_mapping_table t = NixXML_check_g_hash_table (\<lambda>value. True) t"

definition compare_profile_mapping_tables :: "profile_mapping_table \<Rightarrow> profile_mapping_table \<Rightarrow> bool" where
  "compare_profile_mapping_tables t1 t2 = NixXML_compare_g_property_tables t1 t2"

definition print_profile_mapping_table_nix :: "int \<Rightarrow> profile_mapping_table \<Rightarrow> string" where
  "print_profile_mapping_table_nix indent_level t =
     NixXML_print_g_hash_table_nix indent_level (\<lambda>_. NixXML_print_store_path_nix) t"

definition print_profile_mapping_table_xml :: "int \<Rightarrow> profile_mapping_table \<Rightarrow> string" where
  "print_profile_mapping_table_xml indent_level t =
     NixXML_print_g_hash_table_verbose_xml indent_level None ''profile'' ''name'' (\<lambda>_. NixXML_print_string_xml) t"

section \<open>Manifests (manifest.c)\<close>

record Manifest =
  profile_mapping_table :: "string hashtable"
  services_table :: "ManifestService hashtable"
  service_mapping_array :: "ServiceMapping list"
  snapshot_mapping_array :: "SnapshotMapping list"
  targets_table :: "Target hashtable"
  correct_version :: bool

text \<open>The struct while it is filled in: a part that has not been met is NULL.\<close>

record manifest_parts =
  profiles_part :: "string hashtable option"
  services_part :: "ManifestService hashtable option"
  service_mappings_part :: "ServiceMapping list option"
  snapshot_mappings_part :: "SnapshotMapping list option"
  infrastructure_part :: "Target hashtable option"

text \<open>An attribute of the root element: its value is there to be compared only if it is named version.\<close>

fun check_version_from :: "(string \<times> cstr) list \<Rightarrow> bool result" where
  "check_version_from [] = Inr False"
| "check_version_from ((key, value) # ps) =
     (if xmlStrcmp (Some key) (Some ''version'') = 0
      then bindr (deref value) (\<lambda>content.
        if xmlStrcmp (Some content) (Some ''2'') = 0 then Inr True else check_version_from ps)
      else check_version_from ps)"

definition check_version :: "xmlNode \<Rightarrow> bool result" where
  "check_version element = check_version_from (xml_properties element)"

text \<open>The two sorts of mapping arrays and of the dependencies of a service.\<close>

record sorts =
  sort_dependencies :: "InterDependencyMapping sort_function"
  sort_service_mappings :: "ServiceMapping sort_function"
  sort_snapshot_mappings :: "SnapshotMapping sort_function"

definition parse_manifest_child ::
  "sorts \<Rightarrow> flags \<Rightarrow> cstr \<Rightarrow> cstr \<Rightarrow> cstr \<Rightarrow> xmlNode \<Rightarrow> manifest_parts \<Rightarrow> manifest_parts result" where
  "parse_manifest_child S flags container_filter component_filter userdata child m =
     (let named = (\<lambda>key. xmlStrcmp (Some (xml_name child)) (Some key) = 0) in
      if has_flag flags MANIFEST_PROFILES_FLAG \<and> named ''profiles''
      then bindr (parse_profile_mapping_table child) (\<lambda>t. Inr (m\<lparr>profiles_part := Some t\<rparr>))
      else if (has_flag flags MANIFEST_SERVICE_MAPPINGS_FLAG \<or> has_flag flags MANIFEST_SNAPSHOT_MAPPINGS_FLAG)
              \<and> named ''services''
      then bindr (parse_services_table (sort_dependencies S) userdata child)
             (\<lambda>t. Inr (m\<lparr>services_part := Some t\<rparr>))
      else if has_flag flags MANIFEST_SERVICE_MAPPINGS_FLAG \<and> named ''serviceMappings''
      then bindr (parse_service_mapping_array (sort_service_mappings S) userdata child)
             (\<lambda>a. Inr (m\<lparr>service_mappings_part := Some a\<rparr>))
      else if has_flag flags MANIFEST_SNAPSHOT_MAPPINGS_FLAG \<and> named ''snapshotMappings''
      then bindr (parse_snapshot_mapping_array (sort_snapshot_mappings S) container_filter component_filter userdata child)
             (\<lambda>a. Inr (m\<lparr>snapshot_mappings_part := Some a\<rparr>))
      else if has_flag flags MANIFEST_INFRASTRUCTURE_FLAG \<and> named ''infrastructure''
      then bindr (parse_targets_table child) (\<lambda>t. Inr (m\<lparr>infrastructure_part := Some t\<rparr>))
      else Inr m)"

fun parse_manifest_children ::
  "sorts \<Rightarrow> flags \<Rightarrow> cstr \<Rightarrow> cstr \<Rightarrow> cstr \<Rightarrow> xmlNode list \<Rightarrow> manifest_parts \<Rightarrow> manifest_parts result" where
  "parse_manifest_children S flags cf mf userdata [] m = Inr m"
| "parse_manifest_children S flags cf mf userdata (child # rest) m =
     bindr (parse_manifest_child S flags cf mf userdata child m) (\<lambda>m.
       parse_manifest_children S flags cf mf userdata rest m)"

definition or_empty :: "'a list option \<Rightarrow> 'a list" where
  "or_empty p = (case p of None \<Rightarrow> [] | Some xs \<Rightarrow> xs)"

definition parse_manifest ::
  "sorts \<Rightarrow> flags \<Rightarrow> cstr \<Rightarrow> cstr \<Rightarrow> cstr \<Rightarrow> xmlNode \<Rightarrow> Manifest result" where
  "parse_manifest S flags container_filter component_filter userdata element =
     bindr (check_version element) (\<lambda>version_2.
       if version_2
       then bindr (parse_manifest_children S flags container_filter component_filter userdata (xml_children element)
              \<lparr>profiles_part = None, services_part = None, service_mappings_part = None,
               snapshot_mappings_part = None, infrastructure_part = None\<rparr>) (\<lambda>m.
            Inr \<lparr>profile_mapping_table = or_empty (profiles_part m), services_table = or_empty (services_part m),
                 service_mapping_array = or_empty (service_mappings_part m),
                 snapshot_mapping_array = or_empty (snapshot_mappings_part m),
                 targets_table = or_empty (infrastructure_part m), correct_version = True\<rparr>)
       else Inr \<lparr>profile_mapping_table = [], services_table = [], service_mapping_array = [],
                 snapshot_mapping_array = [], targets_table = [], correct_version = False\<rparr>)"

text \<open>
  Reading a file and finding its root element is libxml2's part: \<open>xmlParseFile\<close> gives NULL or a
  document, whose root may be NULL. The host name is the default target of a mapping.
\<close>

definition create_manifest ::
  "(string \<Rightarrow> xmlNode option option) \<Rightarrow> string \<Rightarrow> sorts \<Rightarrow> string \<Rightarrow> flags \<Rightarrow> cstr \<Rightarrow> cstr \<Rightarrow> Manifest option result" where
  "create_manifest xmlParseFile hostname S manifest_file flags container_filter component_filter =
     (case xmlParseFile manifest_file of
        None \<Rightarrow> Inr None
      | Some None \<Rightarrow> Inr None
      | Some (Some node_root) \<Rightarrow>
          bindr (parse_manifest S flags container_filter component_filter (Some hostname) node_root)
            (\<lambda>manifest. Inr (Some manifest)))"

fun check_service_mapping_array_references ::
  "ServiceMapping list \<Rightarrow> ManifestService hashtable \<Rightarrow> Target hashtable \<Rightarrow> bool result" where
  "check_service_mapping_array_references [] services tgts = Inr True"
| "check_service_mapping_array_references (mapping # rest) services tgts =
     bindr (g_hash_table_contains services (service mapping)) (\<lambda>service_found.
     bindr (g_hash_table_contains tgts (target mapping)) (\<lambda>target_found.
     bindr (check_service_mapping_array_references rest services tgts) (\<lambda>status.
       let status = (if \<not> service_found then False else status)
       in Inr (if \<not> target_found then False else status))))"

fun check_snapshot_mapping_array_references ::
  "SnapshotMapping list \<Rightarrow> ManifestService hashtable \<Rightarrow> Target hashtable \<Rightarrow> bool result" where
  "check_snapshot_mapping_array_references [] services tgts = Inr True"
| "check_snapshot_mapping_array_references (mapping # rest) services tgts =
     bindr (g_hash_table_contains services (snapshot_service mapping)) (\<lambda>service_found.
     bindr (g_hash_table_contains tgts (snapshot_target mapping)) (\<lambda>target_found.
     bindr (check_snapshot_mapping_array_references rest services tgts) (\<lambda>status.
       let status = (if \<not> service_found then False else status)
       in Inr (if \<not> target_found then False else status))))"

definition check_manifest :: "Manifest \<Rightarrow> bool result" where
  "check_manifest manifest =
     (let status = True;
          status = (if \<not> correct_version manifest then False else status);
          status = (if \<not> check_profile_mapping_table (profile_mapping_table manifest) then False else status) in
      bindr (check_services_table (services_table manifest)) (\<lambda>services_valid.
      let status = (if \<not> services_valid then False else status);
          status = (if \<not> check_service_mapping_array (service_mapping_array manifest) then False else status);
          status = (if \<not> check_snapshot_mapping_array (snapshot_mapping_array manifest) then False else status) in
      bindr (check_targets_table (targets_table manifest)) (\<lambda>targets_valid.
      let status = (if \<not> targets_valid then False else status) in
      if status
      then bindr (check_service_mapping_array_references (service_mapping_array manifest)
                    (services_table manifest) (targets_table manifest)) (\<lambda>services_resolve.
           let status = (if \<not> services_resolve then False else status) in
           bindr (check_snapshot_mapping_array_references (snapshot_mapping_array manifest)
                    (services_table manifest) (targets_table manifest)) (\<lambda>snapshots_resolve.
           Inr (if \<not> snapshots_resolve then False else status)))
      else Inr status)))"

definition compare_manifests :: "Manifest \<Rightarrow> Manifest \<Rightarrow> bool result" where
  "compare_manifests manifest1 manifest2 =
     (if compare_profile_mapping_tables (profile_mapping_table manifest1) (profile_mapping_table manifest2)
      then bindr (compare_services_tables (services_table manifest1) (services_table manifest2)) (\<lambda>services_equal.
           if services_equal
              \<and> compare_service_mapping_arrays (service_mapping_array manifest1) (service_mapping_array manifest2)
              \<and> compare_snapshot_mapping_arrays (snapshot_mapping_array manifest1) (snapshot_mapping_array manifest2)
           then compare_targets_tables (targets_table manifest1) (targets_table manifest2)
           else Inr False)
      else Inr False)"

text \<open>
  \<open>fopen\<close> decides whether there is a previous manifest; the path ends at the first
  NULL of \<open>g_strconcat\<close>.
\<close>

definition g_str :: "cstr \<Rightarrow> string" where
  "g_str s = (case s of None \<Rightarrow> '''' | Some x \<Rightarrow> x)"

definition determine_previous_manifest_file ::
  "(string \<Rightarrow> bool) \<Rightarrow> string \<Rightarrow> string \<Rightarrow> cstr \<Rightarrow> cstr \<Rightarrow> cstr" where
  "determine_previous_manifest_file readable LOCALSTATEDIR username coordinator_profile_path profile =
     (let old_manifest_file =
            (case coordinator_profile_path of
               None \<Rightarrow> LOCALSTATEDIR @ ''/nix/profiles/per-user/'' @ username @ ''/disnix-coordinator/'' @ g_str profile
             | Some path \<Rightarrow> path @ ''/'' @ g_str profile)
      in if \<not> readable old_manifest_file then None else Some old_manifest_file)"

definition open_provided_or_previous_manifest_file ::
  "(string \<Rightarrow> bool) \<Rightarrow> string \<Rightarrow> string \<Rightarrow> (string \<Rightarrow> xmlNode option option) \<Rightarrow> string \<Rightarrow> sorts
    \<Rightarrow> cstr \<Rightarrow> cstr \<Rightarrow> cstr \<Rightarrow> flags \<Rightarrow> cstr \<Rightarrow> cstr \<Rightarrow> Manifest option result" where
  "open_provided_or_previous_manifest_file readable LOCALSTATEDIR username xmlParseFile hostname S
     manifest_file coordinator_profile_path profile flags container_filter component_filter =
     (case manifest_file of
        None \<Rightarrow>
          (case determine_previous_manifest_file readable LOCALSTATEDIR username coordinator_profile_path profile of
             None \<Rightarrow> Inr None
           | Some old_manifest_file \<Rightarrow> create_manifest xmlParseFile hostname S old_manifest_file flags container_filter component_filter)
      | Some file \<Rightarrow> create_manifest xmlParseFile hostname S file flags container_filter component_filter)"

definition determine_manifest_to_open ::
  "(string \<Rightarrow> bool) \<Rightarrow> string \<Rightarrow> string \<Rightarrow> cstr \<Rightarrow> cstr \<Rightarrow> cstr \<Rightarrow> cstr" where
  "determine_manifest_to_open readable LOCALSTATEDIR username old_manifest coordinator_profile_path profile =
     (case old_manifest of
        None \<Rightarrow> determine_previous_manifest_file readable LOCALSTATEDIR username coordinator_profile_path profile
      | Some m \<Rightarrow> Some m)"

definition open_previous_manifest ::
  "(string \<Rightarrow> xmlNode option option) \<Rightarrow> string \<Rightarrow> sorts \<Rightarrow> cstr \<Rightarrow> flags \<Rightarrow> cstr \<Rightarrow> cstr \<Rightarrow> Manifest option result" where
  "open_previous_manifest xmlParseFile hostname S manifest_file flags container_filter component_filter =
     (case manifest_file of
        None \<Rightarrow> Inr None
      | Some file \<Rightarrow> create_manifest xmlParseFile hostname S file flags container_filter component_filter)"

fun containers_still_provided :: "SnapshotMapping list \<Rightarrow> ManifestService hashtable \<Rightarrow> bool result" where
  "containers_still_provided [] services = Inr True"
| "containers_still_provided (mapping # rest) services =
     bindr (if snapshot_container_provided_by_service mapping \<noteq> None
            then g_hash_table_contains services (snapshot_container_provided_by_service mapping)
            else Inr True) (\<lambda>provided.
     bindr (containers_still_provided rest services) (\<lambda>result.
       Inr (if \<not> provided then False else result)))"

definition check_safe_data_migration :: "Manifest option \<Rightarrow> Manifest \<Rightarrow> bool \<Rightarrow> bool result" where
  "check_safe_data_migration manifest_old manifest_new no_migration =
     (case manifest_old of
        None \<Rightarrow> Inr True
      | Some old \<Rightarrow>
          if no_migration then Inr True
          else containers_still_provided (snapshot_mapping_array old) (services_table manifest_new))"

section \<open>What the checks establish\<close>

lemma service_references_iff:
  "check_service_mapping_array_references ms services tgts = Inr True \<longleftrightarrow>
    (\<forall>m \<in> set ms. \<exists>sn tn. service m = Some sn \<and> map_of services sn \<noteq> None
       \<and> target m = Some tn \<and> map_of tgts tn \<noteq> None)"
  by (induction ms) (auto simp: result_simps g_hash_table_contains_def split: if_splits)

lemma snapshot_references_iff:
  "check_snapshot_mapping_array_references ms services tgts = Inr True \<longleftrightarrow>
    (\<forall>m \<in> set ms. \<exists>sn tn. snapshot_service m = Some sn \<and> map_of services sn \<noteq> None
       \<and> snapshot_target m = Some tn \<and> map_of tgts tn \<noteq> None)"
  by (induction ms) (auto simp: result_simps g_hash_table_contains_def split: if_splits)

definition valid_service :: "ManifestService \<Rightarrow> bool" where
  "valid_service s \<longleftrightarrow> name s \<noteq> None \<and> pkg s \<noteq> None \<and> type_of s \<noteq> None
     \<and> (\<exists>ds cs. depends_on s = Some ds \<and> connects_to s = Some cs
          \<and> (\<forall>d \<in> set ds. check_interdependency_mapping d) \<and> (\<forall>c \<in> set cs. check_interdependency_mapping c))"

lemma check_manifest_service_iff: "check_manifest_service s = Inr True \<longleftrightarrow> valid_service s"
  by (auto simp: check_manifest_service_def valid_service_def check_interdependency_mapping_array_def
      result_simps Let_def split: if_splits)

lemma check_services_table_iff:
  "check_services_table t = Inr True \<longleftrightarrow> (\<forall>e \<in> set t. valid_service (snd e))"
  by (induction t) (auto simp: result_simps check_manifest_service_iff split: if_splits)

text \<open>Everything an accepted manifest refers to is there.\<close>

lemma check_manifest_iff:
  "check_manifest m = Inr True \<longleftrightarrow> correct_version m
     \<and> (\<forall>e \<in> set (services_table m). valid_service (snd e))
     \<and> (\<forall>x \<in> set (service_mapping_array m). check_service_mapping x)
     \<and> (\<forall>x \<in> set (snapshot_mapping_array m). check_snapshot_mapping x)
     \<and> (\<forall>e \<in> set (targets_table m). check_target (snd e) = Inr True)
     \<and> (\<forall>x \<in> set (service_mapping_array m). \<exists>sn tn. service x = Some sn \<and> map_of (services_table m) sn \<noteq> None
          \<and> target x = Some tn \<and> map_of (targets_table m) tn \<noteq> None)
     \<and> (\<forall>x \<in> set (snapshot_mapping_array m). \<exists>sn tn. snapshot_service x = Some sn
          \<and> map_of (services_table m) sn \<noteq> None \<and> snapshot_target x = Some tn
          \<and> map_of (targets_table m) tn \<noteq> None)"
proof -
  have "check_manifest m = Inr True \<longleftrightarrow> correct_version m
     \<and> check_services_table (services_table m) = Inr True
     \<and> check_service_mapping_array (service_mapping_array m)
     \<and> check_snapshot_mapping_array (snapshot_mapping_array m)
     \<and> check_targets_table (targets_table m) = Inr True
     \<and> check_service_mapping_array_references (service_mapping_array m) (services_table m) (targets_table m) = Inr True
     \<and> check_snapshot_mapping_array_references (snapshot_mapping_array m) (services_table m) (targets_table m) = Inr True"
    by (auto simp: check_manifest_def check_profile_mapping_table_def result_simps Let_def split: if_splits)
  then show ?thesis
    unfolding check_services_table_iff check_targets_table_iff service_references_iff snapshot_references_iff
      check_service_mapping_array_def check_snapshot_mapping_array_def check_g_ptr_array_iff .
qed

section \<open>What the parser establishes\<close>

definition sorts_ok :: "sorts \<Rightarrow> bool" where
  "sorts_ok S \<longleftrightarrow> sorts_by (sort_dependencies S) compare_interdependency_mappings
     \<and> sorts_by (sort_service_mappings S) compare_service_mappings
     \<and> sorts_by (sort_snapshot_mappings S) compare_snapshot_mapping"

definition complete_service :: "ManifestService \<Rightarrow> bool" where
  "complete_service s \<longleftrightarrow> (\<exists>ds. depends_on s = Some ds \<and> sorted_mappings ds)
     \<and> connects_to s \<noteq> None \<and> provides_containers_table s \<noteq> None"

definition complete_target :: "Target \<Rightarrow> bool" where
  "complete_target t \<longleftrightarrow> properties_table t \<noteq> None \<and> containers_table t \<noteq> None"

definition parsed_manifest :: "Manifest \<Rightarrow> bool" where
  "parsed_manifest m \<longleftrightarrow> table_of complete_service (services_table m) \<and> table_of complete_target (targets_table m)
     \<and> wf_table (profile_mapping_table m)
     \<and> sorted_mappings (service_mapping_array m) \<and> sorted_snapshots (snapshot_mapping_array m)
     \<and> (\<forall>x \<in> set (service_mapping_array m). status x = SERVICE_MAPPING_DEACTIVATED)"

lemma parse_dependencies_sorted:
  assumes "sorts_by srt compare_interdependency_mappings"
    and "parse_interdependency_mapping_array srt userdata element = Inr ds"
  shows "sorted_mappings ds"
  using assms dependency_order.sort_sorted
  by (auto simp: parse_interdependency_mapping_array_def result_simps)

lemma parse_manifest_service_complete:
  assumes "sorts_by srt compare_interdependency_mappings" and "parse_manifest_service srt userdata element = Inr s"
  shows "complete_service s"
proof -
  let ?P = "\<lambda>s. \<forall>ds. depends_on s = Some ds \<longrightarrow> sorted_mappings ds"
  from assms(2) obtain s0 where s0: "parse_simple_children
      (parse_and_insert_manifest_service_properties srt userdata) create_manifest_service_from_element
      (xml_children element) = Inr s0"
    and s: "s = (let svc = (if depends_on s0 = None then s0\<lparr>depends_on := Some []\<rparr> else s0);
        svc = (if connects_to svc = None then svc\<lparr>connects_to := Some []\<rparr> else svc)
      in if provides_containers_table svc = None then svc\<lparr>provides_containers_table := Some []\<rparr> else svc)"
    by (auto simp: parse_manifest_service_def NixXML_parse_simple_heterogeneous_attrset_def
        parse_simple_attrset_def result_simps Let_def)
  have "?P s0"
  proof (rule parse_simple_children_inv [OF s0, where P = ?P])
    fix n k u u' assume "?P u"
      and "parse_and_insert_manifest_service_properties srt userdata n k u = Inr u'"
    then show "?P u'"
      by (auto simp: parse_and_insert_manifest_service_properties_def result_simps
          split: if_splits dest: parse_dependencies_sorted [OF assms(1)])
  qed (simp add: create_manifest_service_from_element_def)
  with s show ?thesis
    by (cases "depends_on s0"; cases "connects_to s0"; cases "provides_containers_table s0")
      (auto simp: complete_service_def)
qed

lemma parse_services_table_complete:
  assumes "sorts_by srt compare_interdependency_mappings" and "parse_services_table srt userdata element = Inr t"
  shows "table_of complete_service t"
  using assms(2) unfolding parse_services_table_def NixXML_parse_g_hash_table_verbose_def
  by (rule parse_verbose_attrset_table)
    (auto simp: result_simps dest: parse_manifest_service_complete [OF assms(1)])

lemma parse_targets_table_complete:
  assumes "parse_targets_table element = Inr t"
  shows "table_of complete_target t"
  using assms unfolding parse_targets_table_def NixXML_parse_g_hash_table_verbose_def
  by (rule parse_verbose_attrset_table) (auto simp: result_simps complete_target_def dest: parse_target_tables)

lemma parse_list_children_inv:
  assumes "parse_list_children c f xs ns = Inr ys" and "\<forall>x \<in> set xs. P x"
    and "\<And>n x. f n = Inr (Some x) \<Longrightarrow> P x"
  shows "\<forall>x \<in> set ys. P x"
  using assms
proof (induction ns arbitrary: xs)
  case (Cons n ns)
  show ?case
  proof (cases "selected c n")
    case True
    with Cons.prems(1) obtain v where "f n = Inr v"
      "parse_list_children c f (NixXML_add_value_to_g_ptr_array xs v) ns = Inr ys"
      by (auto simp: result_simps)
    moreover have "\<forall>x \<in> set (NixXML_add_value_to_g_ptr_array xs v). P x"
      using Cons.prems(2,3) \<open>f n = Inr v\<close> by (auto simp: NixXML_add_value_to_g_ptr_array_def split: option.splits)
    ultimately show ?thesis using Cons.IH Cons.prems(3) by blast
  next
    case False
    with Cons.prems(1) have "parse_list_children c f xs ns = Inr ys" by simp
    with Cons.IH Cons.prems(2,3) show ?thesis by blast
  qed
qed simp

lemma parse_service_mapping_status:
  assumes "parse_service_mapping userdata element = Inr x"
  shows "status x = SERVICE_MAPPING_DEACTIVATED"
proof -
  let ?P = "\<lambda>m. status m = SERVICE_MAPPING_DEACTIVATED"
  from assms obtain m where m: "parse_simple_children (execute_parse_and_insert_functions parse_mapping_value
      (insert_service_mapping_attributes)) create_service_mapping_from_element (xml_children element) = Inr m"
    and x: "x = (if target m = None then m\<lparr>target := userdata\<rparr> else m)"
    by (auto simp: parse_service_mapping_def NixXML_parse_simple_attrset_def parse_simple_attrset_def result_simps)
  have "?P m"
    by (rule parse_simple_children_inv [OF m, where P = ?P])
      (auto simp: create_service_mapping_from_element_def execute_parse_and_insert_functions_def
        insert_service_mapping_attributes_def result_simps)
  with x show ?thesis by simp
qed

lemma parse_service_mapping_array_inactive:
  assumes "sorts_by srt compare_service_mappings" and "parse_service_mapping_array srt userdata element = Inr ms"
  shows "sorted_mappings ms \<and> (\<forall>x \<in> set ms. status x = SERVICE_MAPPING_DEACTIVATED)"
proof -
  from assms(2) obtain xs where xs: "parse_list_children (Some ''mapping'')
      (\<lambda>child. bindr (parse_service_mapping userdata child) (\<lambda>m. Inr (Some m))) [] (xml_children element) = Inr xs"
    and ms: "ms = srt compare_service_mappings xs"
    by (auto simp: parse_service_mapping_array_def NixXML_parse_g_ptr_array_def result_simps)
  have "\<forall>x \<in> set xs. status x = SERVICE_MAPPING_DEACTIVATED"
    by (rule parse_list_children_inv [OF xs]) (auto simp: result_simps dest: parse_service_mapping_status)
  with ms sorts_by_set [OF assms(1)] service_order.sort_sorted [OF assms(1)] show ?thesis by auto
qed

lemma or_emptyI: "(\<And>x. p = Some x \<Longrightarrow> P x) \<Longrightarrow> P [] \<Longrightarrow> P (or_empty p)"
  by (cases p) (simp_all add: or_empty_def)

definition parts_ok :: "manifest_parts \<Rightarrow> bool" where
  "parts_ok p \<longleftrightarrow> (\<forall>t. profiles_part p = Some t \<longrightarrow> wf_table t)
     \<and> (\<forall>t. services_part p = Some t \<longrightarrow> table_of complete_service t)
     \<and> (\<forall>a. service_mappings_part p = Some a \<longrightarrow>
          sorted_mappings a \<and> (\<forall>x \<in> set a. status x = SERVICE_MAPPING_DEACTIVATED))
     \<and> (\<forall>a. snapshot_mappings_part p = Some a \<longrightarrow> sorted_snapshots a)
     \<and> (\<forall>t. infrastructure_part p = Some t \<longrightarrow> table_of complete_target t)"

lemma parts_ok_updates:
  "parts_ok p \<Longrightarrow> wf_table t \<Longrightarrow> parts_ok (p\<lparr>profiles_part := Some t\<rparr>)"
  "parts_ok p \<Longrightarrow> table_of complete_service st \<Longrightarrow> parts_ok (p\<lparr>services_part := Some st\<rparr>)"
  "parts_ok p \<Longrightarrow> sorted_mappings a \<and> (\<forall>x \<in> set a. status x = SERVICE_MAPPING_DEACTIVATED) \<Longrightarrow>
     parts_ok (p\<lparr>service_mappings_part := Some a\<rparr>)"
  "parts_ok p \<Longrightarrow> sorted_snapshots sa \<Longrightarrow> parts_ok (p\<lparr>snapshot_mappings_part := Some sa\<rparr>)"
  "parts_ok p \<Longrightarrow> table_of complete_target tt \<Longrightarrow> parts_ok (p\<lparr>infrastructure_part := Some tt\<rparr>)"
  by (simp_all add: parts_ok_def)

lemma parse_manifest_child_ok:
  assumes "sorts_ok S" and "parse_manifest_child S flags cf mf userdata child p = Inr p'" and "parts_ok p"
  shows "parts_ok p'"
proof -
  have S: "sorts_by (sort_dependencies S) compare_interdependency_mappings"
    "sorts_by (sort_service_mappings S) compare_service_mappings"
    "sorts_by (sort_snapshot_mappings S) compare_snapshot_mapping"
    using assms(1) by (simp_all add: sorts_ok_def)
  have "wf_table t" if "parse_profile_mapping_table child = Inr t" for t
    using that unfolding parse_profile_mapping_table_def by (rule parse_g_hash_table_verbose_wf)
  moreover have "table_of complete_service t" if "parse_services_table (sort_dependencies S) userdata child = Inr t" for t
    by (rule parse_services_table_complete [OF S(1) that])
  moreover have "sorted_mappings a \<and> (\<forall>x \<in> set a. status x = SERVICE_MAPPING_DEACTIVATED)"
    if "parse_service_mapping_array (sort_service_mappings S) userdata child = Inr a" for a
    by (rule parse_service_mapping_array_inactive [OF S(2) that])
  moreover have "sorted_snapshots a"
    if "parse_snapshot_mapping_array (sort_snapshot_mappings S) cf mf userdata child = Inr a" for a
    using parse_snapshot_mapping_array_sorted [OF S(3) that] ..
  moreover have "table_of complete_target t" if "parse_targets_table child = Inr t" for t
    by (rule parse_targets_table_complete [OF that])
  ultimately show ?thesis
    using assms(2,3) unfolding parse_manifest_child_def Let_def
    by (auto simp only: bindr_eq_Inr sum.inject split: if_splits intro!: parts_ok_updates)
qed

lemma parse_manifest_children_ok:
  "sorts_ok S \<Longrightarrow> parse_manifest_children S flags cf mf userdata ns p = Inr p' \<Longrightarrow> parts_ok p \<Longrightarrow> parts_ok p'"
proof (induction ns arbitrary: p)
  case (Cons n ns)
  from Cons.prems(2) obtain q where "parse_manifest_child S flags cf mf userdata n p = Inr q"
    "parse_manifest_children S flags cf mf userdata ns q = Inr p'" by (auto simp: bindr_eq_Inr)
  with Cons parse_manifest_child_ok show ?case by blast
qed simp

lemma parse_manifest_ok:
  assumes "sorts_ok S" and "parse_manifest S flags cf mf userdata element = Inr m"
  shows "parsed_manifest m"
proof -
  have init: "parts_ok \<lparr>profiles_part = None, services_part = None, service_mappings_part = None,
      snapshot_mappings_part = None, infrastructure_part = None\<rparr>" by (simp add: parts_ok_def)
  from assms(2) obtain version_2 where "check_version element = Inr version_2" by (auto simp: parse_manifest_def bindr_eq_Inr)
  with assms(2) consider (old) "m = \<lparr>profile_mapping_table = [], services_table = [], service_mapping_array = [],
      snapshot_mapping_array = [], targets_table = [], correct_version = False\<rparr>"
    | (new) p where "parts_ok p" "m = \<lparr>profile_mapping_table = or_empty (profiles_part p),
        services_table = or_empty (services_part p), service_mapping_array = or_empty (service_mappings_part p),
        snapshot_mapping_array = or_empty (snapshot_mappings_part p),
        targets_table = or_empty (infrastructure_part p), correct_version = True\<rparr>"
    using parse_manifest_children_ok [OF assms(1) _ init]
    by (cases version_2) (simp_all add: parse_manifest_def bindr_eq_Inr, blast)
  then show ?thesis
  proof cases
    case old
    then show ?thesis by (simp add: parsed_manifest_def)
  next
    case new
    note ok = new(1) [unfolded parts_ok_def]
    have "table_of complete_service (or_empty (services_part p))"
      by (rule or_emptyI) (use ok in blast, simp)
    moreover have "table_of complete_target (or_empty (infrastructure_part p))"
      by (rule or_emptyI) (use ok in blast, simp)
    moreover have "sorted_mappings (or_empty (service_mappings_part p))
        \<and> (\<forall>x \<in> set (or_empty (service_mappings_part p)). status x = SERVICE_MAPPING_DEACTIVATED)"
      by (rule or_emptyI) (use ok in blast, simp)
    moreover have "wf_table (or_empty (profiles_part p))" "sorted_snapshots (or_empty (snapshot_mappings_part p))"
      by (rule or_emptyI; use ok in simp)+
    ultimately show ?thesis using new(2) by (simp add: parsed_manifest_def)
  qed
qed

text \<open>On a parsed manifest the check reads no missing part.\<close>

lemma ex_bool [simp]: "\<exists>b. b"
  by (rule exI [of _ True]) simp

lemma check_services_table_total:
  "\<forall>e \<in> set t. complete_service (snd e) \<Longrightarrow> \<exists>b. check_services_table t = Inr b"
proof (induction t)
  case (Cons e t)
  obtain k s where e: "e = (k, s)" by fastforce
  with Cons.prems have "complete_service s" by simp
  then obtain b where "check_manifest_service s = Inr b"
    by (auto simp: check_manifest_service_def complete_service_def Let_def)
  moreover obtain c where "check_services_table t = Inr c" using Cons by auto
  ultimately show ?case by (simp add: e ex_bool_eq)
qed simp

lemma check_targets_table_total:
  "\<forall>e \<in> set t. complete_target (snd e) \<Longrightarrow> \<exists>b. check_targets_table t = Inr b"
proof (induction t)
  case (Cons e t)
  obtain k s where e: "e = (k, s)" by fastforce
  with Cons.prems have "complete_target s" by simp
  then obtain props where "properties_table s = Some props" by (auto simp: complete_target_def)
  then have "\<exists>b. check_target s = Inr b"
    by (cases "target_property s"; cases "num_of_cores s = 0"; cases "client_interface s")
      (simp_all add: check_target_def ex_bool_eq)
  then obtain b where "check_target s = Inr b" ..
  moreover obtain c where "check_targets_table t = Inr c" using Cons by auto
  ultimately show ?case by (simp add: e ex_bool_eq)
qed simp

lemma check_service_references_total:
  "\<forall>m \<in> set ms. check_service_mapping m \<Longrightarrow>
    \<exists>b. check_service_mapping_array_references ms services tgts = Inr b"
proof (induction ms)
  case (Cons m ms)
  then obtain b where "check_service_mapping_array_references ms services tgts = Inr b" by auto
  moreover from Cons.prems obtain sn tn where "service m = Some sn" "target m = Some tn"
    by (auto simp: check_service_mapping_def check_interdependency_mapping_def split: if_splits)
  ultimately show ?case by (simp add: ex_bool_eq)
qed simp

lemma check_snapshot_references_total:
  "\<forall>m \<in> set ms. check_snapshot_mapping m \<Longrightarrow>
    \<exists>b. check_snapshot_mapping_array_references ms services tgts = Inr b"
proof (induction ms)
  case (Cons m ms)
  then obtain b where "check_snapshot_mapping_array_references ms services tgts = Inr b" by auto
  moreover from Cons.prems obtain sn tn where "snapshot_service m = Some sn" "snapshot_target m = Some tn"
    by (auto simp: check_snapshot_mapping_def split: if_splits)
  ultimately show ?case by (simp add: ex_bool_eq)
qed simp

lemma check_manifest_total:
  assumes "parsed_manifest m"
  shows "\<exists>b. check_manifest m = Inr b"
proof -
  obtain b1 b2 where "check_services_table (services_table m) = Inr b1" "check_targets_table (targets_table m) = Inr b2"
    using assms check_services_table_total [of "services_table m"] check_targets_table_total [of "targets_table m"]
    by (auto simp: parsed_manifest_def)
  then show ?thesis
    using check_service_references_total [of "service_mapping_array m" "services_table m" "targets_table m"]
      check_snapshot_references_total [of "snapshot_mapping_array m" "services_table m" "targets_table m"]
    by (auto simp: check_manifest_def Let_def check_service_mapping_array_def check_snapshot_mapping_array_def)
qed

end
