(* ===== verification/Disnix_OS.thy ===== *)
theory Disnix_OS
  imports Disnix_Prelude
begin

text \<open>
  The part of the operating system the program relies on, and the process primitives of
  \<open>libprocreact/procreact_pid.c\<close> on top of it. The kernel is a parameter: it decides
  which pid a \<open>fork\<close> returns, which child a \<open>wait\<close> reaps and with which status, whether a
  \<open>pipe\<close> can be opened and in which pieces the output of a child is read from it, and when the
  user interrupts the program. Its decisions may depend on everything that happened
  before, which the state records as a trace.
\<close>

section \<open>Processes\<close>

text \<open>
  \<open>WIFEXITED\<close> distinguishes the two kinds of wait status; \<open>WEXITSTATUS\<close> is a byte. A child
  process either executes a program with an argument vector and extra environment variables,
  or runs a function of the program and exits with its result; its standard input or output may
  be a file.
\<close>

datatype wstatus = Exited "8 word" | Killed

datatype child =
    Exec "string list" "string list"
  | Run string "cstr list"
  | Input_From string child
  | Output_To string child

text \<open>\<open>execvp\<close> takes the argument vector up to the first NULL.\<close>

fun argv :: "cstr list \<Rightarrow> string list" where
  "argv [] = []"
| "argv (None # as) = []"
| "argv (Some a # as) = a # argv as"

definition execvp :: "cstr list \<Rightarrow> child" where
  "execvp args = Exec (argv args) []"

lemma argv_map_Some [simp]: "argv (map Some xs) = xs"
  by (induction xs) auto

lemma argv_append_Some [simp]: "argv (map Some xs @ ys) = xs @ argv ys"
  by (induction xs) auto

datatype event = Forked int child | Fork_Failed child | Reaped int wstatus | Wait_Failed

text \<open>The children not reaped yet, and everything that happened, the latest event first.\<close>

record os =
  children :: "int list"
  trace :: "event list"

record kernel =
  k_fork :: "os \<Rightarrow> int"
  k_wait :: "os \<Rightarrow> int \<times> wstatus"
  k_waitpid :: "int \<Rightarrow> os \<Rightarrow> int \<times> wstatus"
  k_interrupted :: "os \<Rightarrow> bool"
  k_pipe :: "os \<Rightarrow> bool"
  k_output :: "child \<Rightarrow> os \<Rightarrow> string list"

definition sys_fork :: "kernel \<Rightarrow> child \<Rightarrow> os \<Rightarrow> int \<times> os" where
  "sys_fork K c w =
     (let pid = k_fork K w in
      if pid = -1 then (-1, w\<lparr>trace := Fork_Failed c # trace w\<rparr>)
      else (pid, w\<lparr>children := pid # children w, trace := Forked pid c # trace w\<rparr>))"

definition reap :: "int \<times> wstatus \<Rightarrow> os \<Rightarrow> (int \<times> wstatus) \<times> os" where
  "reap r w =
     (if 0 < fst r
      then (r, w\<lparr>children := removeAll (fst r) (children w), trace := Reaped (fst r) (snd r) # trace w\<rparr>)
      else ((-1, snd r), w\<lparr>trace := Wait_Failed # trace w\<rparr>))"

definition sys_wait :: "kernel \<Rightarrow> os \<Rightarrow> (int \<times> wstatus) \<times> os" where
  "sys_wait K w = reap (k_wait K w) w"

definition sys_waitpid :: "kernel \<Rightarrow> int \<Rightarrow> os \<Rightarrow> (int \<times> wstatus) \<times> os" where
  "sys_waitpid K pid w = reap (k_waitpid K pid w) w"

definition wf_os :: "os \<Rightarrow> bool" where
  "wf_os w \<longleftrightarrow> distinct (children w) \<and> (\<forall>p \<in> set (children w). 0 < p)"

text \<open>
  What the program may rely on. \<open>kernel_ok\<close>: a fork fails with -1 or returns a positive pid
  no other child has, a wait fails with -1 or returns the pid of a child. \<open>kernel_live\<close>, in
  addition: forks succeed, and a wait succeeds while there is a child to wait for, so it is
  not interrupted by a signal.
\<close>

definition kernel_ok :: "kernel \<Rightarrow> bool" where
  "kernel_ok K \<longleftrightarrow>
     (\<forall>w. k_fork K w = -1 \<or> 0 < k_fork K w \<and> k_fork K w \<notin> set (children w)) \<and>
     (\<forall>w. fst (k_wait K w) = -1 \<or> 0 < fst (k_wait K w) \<and> fst (k_wait K w) \<in> set (children w)) \<and>
     (\<forall>w pid. fst (k_waitpid K pid w) = -1
        \<or> fst (k_waitpid K pid w) = pid \<and> 0 < pid \<and> pid \<in> set (children w))"

definition kernel_live :: "kernel \<Rightarrow> bool" where
  "kernel_live K \<longleftrightarrow> kernel_ok K \<and>
     (\<forall>w. k_fork K w \<noteq> -1) \<and>
     (\<forall>w. wf_os w \<and> children w \<noteq> [] \<longrightarrow> fst (k_wait K w) \<noteq> -1) \<and>
     (\<forall>w pid. wf_os w \<and> pid \<in> set (children w) \<longrightarrow> fst (k_waitpid K pid w) \<noteq> -1)"

text \<open>
  A kernel that meets both: it numbers its children, reaps the oldest one and lets every
  child exit with the status a function of its trace decides.
\<close>

definition demo_pid :: "os \<Rightarrow> int" where
  "demo_pid w = foldr max (children w) 0 + 1"

definition demo_kernel :: "(os \<Rightarrow> wstatus) \<Rightarrow> kernel" where
  "demo_kernel exits =
     \<lparr>k_fork = demo_pid,
      k_wait = (\<lambda>w. (let ps = filter (\<lambda>p. 0 < p) (children w)
                       in if ps = [] then -1 else last ps, exits w)),
      k_waitpid = (\<lambda>pid w. (if pid \<in> set (children w) \<and> 0 < pid then pid else -1, exits w)),
      k_interrupted = (\<lambda>w. False), k_pipe = (\<lambda>w. True), k_output = (\<lambda>c w. [])\<rparr>"

lemma sys_fork_cases:
  assumes "kernel_ok K" and "sys_fork K c w = (pid, w')"
  obtains (failed) "pid = -1" "w' = w\<lparr>trace := Fork_Failed c # trace w\<rparr>"
  | (forked) "0 < pid" "pid \<notin> set (children w)"
      "w' = w\<lparr>children := pid # children w, trace := Forked pid c # trace w\<rparr>"
proof -
  from assms(1) have "k_fork K w = -1 \<or> 0 < k_fork K w \<and> k_fork K w \<notin> set (children w)"
    by (simp add: kernel_ok_def)
  then show ?thesis
  proof
    assume "k_fork K w = -1"
    with assms(2) show ?thesis by (intro failed) (simp_all add: sys_fork_def)
  next
    assume "0 < k_fork K w \<and> k_fork K w \<notin> set (children w)"
    with assms(2) show ?thesis by (intro forked) (auto simp: sys_fork_def Let_def)
  qed
qed

lemma sys_fork_live:
  assumes "kernel_live K" and "sys_fork K c w = (pid, w')"
  shows "0 < pid \<and> pid \<notin> set (children w)
    \<and> w' = w\<lparr>children := pid # children w, trace := Forked pid c # trace w\<rparr>"
proof -
  from assms(1) have ok: "kernel_ok K" and "k_fork K w \<noteq> -1" by (simp_all add: kernel_live_def)
  with assms(2) have "pid \<noteq> -1" by (auto simp: sys_fork_def Let_def)
  from ok assms(2) show ?thesis
  proof (cases rule: sys_fork_cases)
    case failed
    with \<open>pid \<noteq> -1\<close> show ?thesis by simp
  next
    case forked
    then show ?thesis by simp
  qed
qed

lemma sys_wait_cases:
  assumes "kernel_ok K" and "sys_wait K w = ((pid, ws), w')"
  obtains (failed) "pid = -1" "w' = w\<lparr>trace := Wait_Failed # trace w\<rparr>"
  | (reaped) "0 < pid" "pid \<in> set (children w)"
      "w' = w\<lparr>children := removeAll pid (children w), trace := Reaped pid ws # trace w\<rparr>"
proof -
  let ?p = "fst (k_wait K w)"
  from assms(1) have "?p = -1 \<or> 0 < ?p \<and> ?p \<in> set (children w)" by (simp add: kernel_ok_def)
  then show ?thesis
  proof
    assume "?p = -1"
    with assms(2) show ?thesis by (intro failed) (simp_all add: sys_wait_def reap_def)
  next
    assume "0 < ?p \<and> ?p \<in> set (children w)"
    with assms(2) show ?thesis by (intro reaped) (auto simp: sys_wait_def reap_def)
  qed
qed

lemma sys_wait_live:
  assumes "kernel_live K" and "wf_os w" and "children w \<noteq> []"
    and "sys_wait K w = ((pid, ws), w')"
  shows "0 < pid \<and> pid \<in> set (children w)
    \<and> w' = w\<lparr>children := removeAll pid (children w), trace := Reaped pid ws # trace w\<rparr>"
proof -
  from assms(1) have ok: "kernel_ok K" by (simp add: kernel_live_def)
  from assms(1-3) have "fst (k_wait K w) \<noteq> -1" by (simp add: kernel_live_def)
  moreover have "fst (k_wait K w) = -1 \<or> 0 < fst (k_wait K w)" using ok by (auto simp: kernel_ok_def)
  ultimately have "0 < fst (k_wait K w)" by blast
  with assms(4) have "0 < pid" by (auto simp: sys_wait_def reap_def)
  from ok assms(4) show ?thesis
  proof (cases rule: sys_wait_cases)
    case failed
    with \<open>0 < pid\<close> show ?thesis by simp
  next
    case reaped
    then show ?thesis by simp
  qed
qed

lemma wf_os_fork:
  assumes "kernel_ok K" and "wf_os w" and "sys_fork K c w = (pid, w')"
  shows "wf_os w'"
  using assms(1,3)
proof (cases rule: sys_fork_cases)
  case failed
  with assms(2) show ?thesis by (simp add: wf_os_def)
next
  case forked
  with assms(2) show ?thesis by (simp add: wf_os_def)
qed

lemma wf_os_wait:
  assumes "kernel_ok K" and "wf_os w" and "sys_wait K w = ((pid, ws), w')"
  shows "wf_os w'"
  using assms(1,3)
proof (cases rule: sys_wait_cases)
  case failed
  with assms(2) show ?thesis by (simp add: wf_os_def)
next
  case reaped
  with assms(2) show ?thesis by (simp add: wf_os_def distinct_removeAll)
qed

lemma sys_waitpid_cases:
  assumes "kernel_ok K" and "sys_waitpid K p w = ((pid, ws), w')"
  obtains (failed) "pid = -1" "w' = w\<lparr>trace := Wait_Failed # trace w\<rparr>"
  | (reaped) "0 < p" "pid = p" "p \<in> set (children w)"
      "w' = w\<lparr>children := removeAll p (children w), trace := Reaped p ws # trace w\<rparr>"
proof -
  let ?p = "fst (k_waitpid K p w)"
  from assms(1) have "?p = -1 \<or> ?p = p \<and> 0 < p \<and> p \<in> set (children w)"
    by (simp add: kernel_ok_def)
  then show ?thesis
  proof
    assume "?p = -1"
    with assms(2) show ?thesis by (intro failed) (simp_all add: sys_waitpid_def reap_def)
  next
    assume "?p = p \<and> 0 < p \<and> p \<in> set (children w)"
    with assms(2) show ?thesis by (intro reaped) (auto simp: sys_waitpid_def reap_def)
  qed
qed

lemma kernel_live_ok: "kernel_live K \<Longrightarrow> kernel_ok K"
  by (simp add: kernel_live_def)

lemma foldr_max_ge: "x \<in> set xs \<Longrightarrow> x \<le> foldr max xs (0 :: int)"
  by (induction xs) (auto simp: max_def)

lemma foldr_max_nonneg: "0 \<le> foldr max xs (0 :: int)"
  by (induction xs) auto

lemma demo_kernel_ok: "kernel_ok (demo_kernel f)"
proof -
  have "demo_pid w \<notin> set (children w) \<and> 0 < demo_pid w" for w
    using foldr_max_ge [of "demo_pid w" "children w"] foldr_max_nonneg [of "children w"]
    by (auto simp: demo_pid_def)
  moreover have "last (filter (\<lambda>p. 0 < p) xs) \<in> set xs \<and> 0 < last (filter (\<lambda>p. 0 < p) xs)"
    if "filter (\<lambda>p. 0 < p) xs \<noteq> []" for xs :: "int list"
    using last_in_set [OF that] by auto
  ultimately show ?thesis unfolding kernel_ok_def demo_kernel_def by (simp add: Let_def)
qed

lemma demo_kernel_live: "kernel_live (demo_kernel f)"
proof -
  have "k_fork (demo_kernel f) w \<noteq> -1" for w
    using foldr_max_nonneg [of "children w"] by (simp add: demo_pid_def demo_kernel_def)
  moreover have "fst (k_wait (demo_kernel f) w) \<noteq> -1" if "wf_os w" "children w \<noteq> []" for w
  proof -
    from that have "filter (\<lambda>p. 0 < p) (children w) = children w" by (simp add: wf_os_def)
    moreover have "0 < last (children w)" using that by (simp add: wf_os_def)
    ultimately show ?thesis using that(2) by (simp add: demo_kernel_def)
  qed
  moreover have "fst (k_waitpid (demo_kernel f) pid w) \<noteq> -1"
    if "wf_os w" "pid \<in> set (children w)" for pid w
    using that by (auto simp: wf_os_def demo_kernel_def)
  ultimately show ?thesis by (simp add: kernel_live_def demo_kernel_ok)
qed

section \<open>Outcomes of a process (procreact\_pid.c)\<close>

datatype ProcReact_Status =
    PROCREACT_STATUS_OK
  | PROCREACT_STATUS_FORK_FAIL
  | PROCREACT_STATUS_WAIT_FAIL
  | PROCREACT_STATUS_ABNORMAL_TERMINATION

type_synonym ProcReact_RetrieveResult = "int \<Rightarrow> wstatus \<Rightarrow> ProcReact_Status \<times> int"

definition procreact_retrieve_exit_status :: ProcReact_RetrieveResult where
  "procreact_retrieve_exit_status pid wstatus =
     (if pid = -1 then (PROCREACT_STATUS_WAIT_FAIL, -1)
      else (case wstatus of
              Exited n \<Rightarrow> (PROCREACT_STATUS_OK, uint n)
            | Killed \<Rightarrow> (PROCREACT_STATUS_ABNORMAL_TERMINATION, -1)))"

definition procreact_retrieve_boolean :: ProcReact_RetrieveResult where
  "procreact_retrieve_boolean pid wstatus =
     (case procreact_retrieve_exit_status pid wstatus of
        (status, result) \<Rightarrow> (status, if result = 0 then 1 else 0))"

definition procreact_wait_and_retrieve ::
  "kernel \<Rightarrow> int \<Rightarrow> ProcReact_RetrieveResult \<Rightarrow> os \<Rightarrow> (ProcReact_Status \<times> int) \<times> os" where
  "procreact_wait_and_retrieve K pid retrieve w =
     (if pid = -1 then ((PROCREACT_STATUS_FORK_FAIL, -1), w)
      else (case sys_waitpid K pid w of ((ret, wstatus), w') \<Rightarrow>
        if ret = -1 then ((PROCREACT_STATUS_WAIT_FAIL, -1), w')
        else (retrieve pid wstatus, w')))"

definition procreact_wait_for_exit_status ::
  "kernel \<Rightarrow> int \<Rightarrow> os \<Rightarrow> (ProcReact_Status \<times> int) \<times> os" where
  "procreact_wait_for_exit_status K pid w =
     procreact_wait_and_retrieve K pid procreact_retrieve_exit_status w"

definition procreact_wait_for_boolean ::
  "kernel \<Rightarrow> int \<Rightarrow> os \<Rightarrow> (ProcReact_Status \<times> int) \<times> os" where
  "procreact_wait_for_boolean K pid w =
     procreact_wait_and_retrieve K pid procreact_retrieve_boolean w"

text \<open>
  The test the callers make on a boolean outcome: the status is OK and the result is
  not zero.
\<close>

abbreviation succeeded :: "ProcReact_Status \<times> int \<Rightarrow> bool" where
  "succeeded r \<equiv> fst r = PROCREACT_STATUS_OK \<and> snd r \<noteq> 0"

lemma succeeded_retrieve_boolean:
  "succeeded (procreact_retrieve_boolean pid ws) \<longleftrightarrow> pid \<noteq> -1 \<and> ws = Exited 0"
  by (auto simp: procreact_retrieve_boolean_def procreact_retrieve_exit_status_def
      uint_0_iff split: wstatus.splits)

lemma wait_for_boolean_success:
  assumes "kernel_ok K" and "procreact_wait_for_boolean K pid w = (r, w')" and "succeeded r"
  shows "0 < pid \<and> pid \<in> set (children w) \<and> trace w' = Reaped pid (Exited 0) # trace w
    \<and> children w' = removeAll pid (children w)"
proof -
  from assms(2,3) have "pid \<noteq> -1"
    by (auto simp: procreact_wait_for_boolean_def procreact_wait_and_retrieve_def)
  obtain ret ws w2 where sw: "sys_waitpid K pid w = ((ret, ws), w2)" by (metis surj_pair)
  with assms(2,3) \<open>pid \<noteq> -1\<close>
  have "ret \<noteq> -1" "w' = w2" and r: "r = procreact_retrieve_boolean pid ws"
    by (auto simp: procreact_wait_for_boolean_def procreact_wait_and_retrieve_def
        split: if_splits)
  from assms(3) have "ws = Exited 0" unfolding r by (simp only: succeeded_retrieve_boolean)
  with \<open>w' = w2\<close> sw have "sys_waitpid K pid w = ((ret, Exited 0), w')" by simp
  with assms(1) show ?thesis
    by (rule sys_waitpid_cases) (use \<open>ret \<noteq> -1\<close> in simp_all)
qed

end
