(* ===== verification/Procreact_Types.thy ===== *)
theory Procreact_Types
  imports Disnix_OS
begin

text \<open>
  Reading the output of a process: the type handlers of
  \<open>libprocreact/procreact_types.c\<close> and the futures of \<open>procreact_future.c\<close>. The output arrives in
  the pieces \<open>read\<close> returns; a file descriptor is modelled by the list of pieces still to
  come, after which \<open>read\<close> returns 0 or -1.
\<close>

section \<open>Bytes and strings\<close>

definition procreact_type_initialize_bytes :: string where
  "procreact_type_initialize_bytes = ''''"

definition procreact_type_append_bytes :: "string \<Rightarrow> string \<Rightarrow> string" where
  "procreact_type_append_bytes state buffer = state @ buffer"

definition procreact_type_finalize_bytes ::
  "kernel \<Rightarrow> string \<Rightarrow> int \<Rightarrow> os \<Rightarrow> (ProcReact_Status \<times> cstr) \<times> os" where
  "procreact_type_finalize_bytes K state pid w =
     (case procreact_wait_for_boolean K pid w of ((status, success), w') \<Rightarrow>
        if status = PROCREACT_STATUS_OK \<and> success \<noteq> 0 then ((status, Some state), w')
        else ((status, None), w'))"

text \<open>A string ends at the first NUL.\<close>

definition procreact_type_finalize_string ::
  "kernel \<Rightarrow> string \<Rightarrow> int \<Rightarrow> os \<Rightarrow> (ProcReact_Status \<times> cstr) \<times> os" where
  "procreact_type_finalize_string K state pid w =
     (case procreact_type_finalize_bytes K state pid w of ((status, bytes), w') \<Rightarrow>
        (case bytes of
           None \<Rightarrow> ((status, None), w')
         | Some data \<Rightarrow> ((status, Some (takeWhile (\<lambda>c. c \<noteq> CHR 0x00) data)), w')))"

section \<open>Arrays of strings\<close>

text \<open>
  The tokens read so far; the last slot is NULL when the next byte starts a new token.
\<close>

definition copy_substring :: "string \<Rightarrow> nat \<Rightarrow> nat \<Rightarrow> string" where
  "copy_substring str start_offset end_offset =
     (if start_offset < end_offset
      then takeWhile (\<lambda>c. c \<noteq> CHR 0x00) (take (end_offset - start_offset) (drop start_offset str))
      else '''')"

definition increase_tokens_array :: "cstr list \<Rightarrow> cstr list" where
  "increase_tokens_array tokens = tokens @ [None]"

definition append_or_concatenate_buffer :: "cstr list \<Rightarrow> string \<Rightarrow> nat \<Rightarrow> nat \<Rightarrow> cstr list" where
  "append_or_concatenate_buffer tokens buf start_offset pos =
     (let token = copy_substring buf start_offset pos in
      case last tokens of
        None \<Rightarrow> tokens[length tokens - 1 := Some token]
      | Some last_token \<Rightarrow> tokens[length tokens - 1 := Some (last_token @ token)])"

function tokens_loop :: "char \<Rightarrow> string \<Rightarrow> nat \<Rightarrow> nat \<Rightarrow> cstr list \<Rightarrow> cstr list \<times> nat" where
  "tokens_loop delimiter buf i start_offset tokens =
     (if i < length buf
      then (if buf ! i = delimiter
            then tokens_loop delimiter buf (i + 1) (i + 1)
                   (increase_tokens_array (append_or_concatenate_buffer tokens buf start_offset i))
            else tokens_loop delimiter buf (i + 1) start_offset tokens)
      else (tokens, start_offset))"
  by pat_completeness auto
termination
  by (relation "measure (\<lambda>(d, buf, i, s, t). length buf - i)") auto

declare tokens_loop.simps [simp del]

definition update_tokens_vector :: "cstr list \<Rightarrow> string \<Rightarrow> char \<Rightarrow> cstr list" where
  "update_tokens_vector tokens buf delimiter =
     (case tokens_loop delimiter buf 0 0 tokens of (tokens', start_offset) \<Rightarrow>
        if start_offset < length buf
        then append_or_concatenate_buffer tokens' buf start_offset (length buf)
        else tokens')"

definition procreact_type_initialize_string_array :: "cstr list" where
  "procreact_type_initialize_string_array = increase_tokens_array []"

definition procreact_type_append_strings_to_array :: "char \<Rightarrow> cstr list \<Rightarrow> string \<Rightarrow> cstr list" where
  "procreact_type_append_strings_to_array delimiter state buffer =
     update_tokens_vector state buffer delimiter"

definition procreact_type_finalize_string_array ::
  "kernel \<Rightarrow> cstr list \<Rightarrow> int \<Rightarrow> os \<Rightarrow> (ProcReact_Status \<times> (cstr list) option) \<times> os" where
  "procreact_type_finalize_string_array K state pid w =
     (case procreact_wait_for_boolean K pid w of ((status, success), w') \<Rightarrow>
        (let result = (if last state \<noteq> None then increase_tokens_array state else state) in
         if status \<noteq> PROCREACT_STATUS_OK \<or> success = 0 then ((status, None), w')
         else ((status, Some result), w')))"

section \<open>Futures (procreact\_future.c)\<close>

record ('s, 'r) ProcReact_Type =
  initialize :: 's
  append_piece :: "'s \<Rightarrow> string \<Rightarrow> 's"
  finalize :: "kernel \<Rightarrow> 's \<Rightarrow> int \<Rightarrow> os \<Rightarrow> (ProcReact_Status \<times> 'r option) \<times> os"

definition procreact_create_bytes_type :: "(string, string) ProcReact_Type" where
  "procreact_create_bytes_type =
     \<lparr>initialize = procreact_type_initialize_bytes, append_piece = procreact_type_append_bytes,
      finalize = procreact_type_finalize_bytes\<rparr>"

definition procreact_create_string_type :: "(string, string) ProcReact_Type" where
  "procreact_create_string_type =
     \<lparr>initialize = procreact_type_initialize_bytes, append_piece = procreact_type_append_bytes,
      finalize = procreact_type_finalize_string\<rparr>"

definition procreact_create_string_array_type :: "char \<Rightarrow> (cstr list, cstr list) ProcReact_Type" where
  "procreact_create_string_array_type delimiter =
     \<lparr>initialize = procreact_type_initialize_string_array,
      append_piece = procreact_type_append_strings_to_array delimiter,
      finalize = procreact_type_finalize_string_array\<rparr>"

record ('s, 'r) ProcReact_Future =
  future_type :: "('s, 'r) ProcReact_Type"
  future_pid :: int
  future_fd :: "string list"
  future_result :: "'r option"

text \<open>The parent's side of a future: the child writes to the pipe what the kernel delivers.\<close>

definition procreact_initialize_future ::
  "kernel \<Rightarrow> ('s, 'r) ProcReact_Type \<Rightarrow> child \<Rightarrow> os \<Rightarrow> ('s, 'r) ProcReact_Future \<times> os" where
  "procreact_initialize_future K type c w =
     (if k_pipe K w
      then (case sys_fork K c w of (p, w') \<Rightarrow>
        (\<lparr>future_type = type, future_pid = p, future_fd = (if p = -1 then [] else k_output K c w), future_result = None\<rparr>, w'))
      else (\<lparr>future_type = type, future_pid = -1, future_fd = [], future_result = None\<rparr>, w))"

definition procreact_future_get ::
  "kernel \<Rightarrow> ('s, 'r) ProcReact_Future \<Rightarrow> os
    \<Rightarrow> (ProcReact_Status option \<times> 'r option) \<times> ('s, 'r) ProcReact_Future \<times> os" where
  "procreact_future_get K future w =
     (case future_result future of
        Some r \<Rightarrow> ((None, Some r), future, w)
      | None \<Rightarrow>
          (let state = foldl (append_piece (future_type future)) (initialize (future_type future)) (future_fd future) in
           case finalize (future_type future) K state (future_pid future) w of ((status, r), w') \<Rightarrow>
             ((Some status, r), future\<lparr>future_fd := [], future_result := r\<rparr>, w')))"

section \<open>The tokens do not depend on the pieces\<close>

text \<open>
  Splitting a text at a delimiter, and the token array that stands for a text: the pieces before a
  delimiter are complete, and what follows the last one is NULL if it is empty.
\<close>

fun split_at :: "char \<Rightarrow> string \<Rightarrow> string list" where
  "split_at d [] = [[]]"
| "split_at d (c # cs) = (if c = d then [] # split_at d cs
     else (case split_at d cs of [] \<Rightarrow> [[c]] | p # ps \<Rightarrow> (c # p) # ps))"

definition tokens_of :: "char \<Rightarrow> string \<Rightarrow> cstr list" where
  "tokens_of d s = (let ps = split_at d s in
     map Some (butlast ps) @ [if last ps = [] then None else Some (last ps)])"

definition push_char :: "char \<Rightarrow> cstr list \<Rightarrow> char \<Rightarrow> cstr list" where
  "push_char d tokens c =
     (let x = (case last tokens of None \<Rightarrow> [] | Some x \<Rightarrow> x) in
      if c = d then butlast tokens @ [Some x, None] else butlast tokens @ [Some (x @ [c])])"

lemma split_at_nonempty [simp]: "split_at d s \<noteq> []"
  by (induction s) (auto split: list.splits)

lemma split_at_snoc:
  "split_at d (s @ [c]) = (if c = d then split_at d s @ [[]]
     else butlast (split_at d s) @ [last (split_at d s) @ [c]])"
  by (induction s) (auto split: list.splits)

lemma map_Some_split: "map Some (split_at d s) = map Some (butlast (split_at d s)) @ [Some (last (split_at d s))]"
  by (metis append_butlast_last_id list.map(1,2) map_append split_at_nonempty)

lemma tokens_of_snoc: "tokens_of d (s @ [c]) = push_char d (tokens_of d s) c"
  by (cases "last (split_at d s) = []")
    (simp_all add: tokens_of_def push_char_def split_at_snoc Let_def map_Some_split [of d s])

lemma tokens_of_foldl: "tokens_of d s = foldl (push_char d) [None] s"
proof (induction s rule: rev_induct)
  case Nil
  show ?case by (simp add: tokens_of_def)
qed (simp add: tokens_of_snoc)

definition last_text :: "cstr list \<Rightarrow> string" where
  "last_text tokens = (case last tokens of None \<Rightarrow> [] | Some x \<Rightarrow> x)"

lemma push_chars_plain:
  "d \<notin> set xs \<Longrightarrow> xs \<noteq> [] \<Longrightarrow>
     foldl (push_char d) tokens xs = butlast tokens @ [Some (last_text tokens @ xs)]"
proof (induction xs arbitrary: tokens)
  case (Cons x xs)
  then show ?case
    by (cases "xs = []") (auto simp: push_char_def last_text_def Let_def)
qed simp

lemma append_or_concatenate_eq:
  assumes "tokens \<noteq> []" and "CHR 0x00 \<notin> set buf"
  shows "append_or_concatenate_buffer tokens buf s i =
    butlast tokens @ [Some (last_text tokens @ take (i - s) (drop s buf))]"
proof -
  have "copy_substring buf s i = take (i - s) (drop s buf)"
  proof (cases "s < i")
    case True
    have "\<forall>c \<in> set (take (i - s) (drop s buf)). c \<noteq> CHR 0x00"
    proof
      fix c assume "c \<in> set (take (i - s) (drop s buf))"
      then have "c \<in> set buf" by (rule in_set_dropD [OF in_set_takeD])
      with assms(2) show "c \<noteq> CHR 0x00" by metis
    qed
    then have "takeWhile (\<lambda>c. c \<noteq> CHR 0x00) (take (i - s) (drop s buf)) = take (i - s) (drop s buf)"
      by (rule takeWhile_eq_all_conv [THEN iffD2])
    with True show ?thesis by (simp only: copy_substring_def if_True)
  qed (simp add: copy_substring_def)
  moreover have "tokens[length tokens - 1 := v] = butlast tokens @ [v]" for v
    using list_update_length [of "butlast tokens" "last tokens" "[]" v] assms(1) by simp
  ultimately show ?thesis
    by (simp add: append_or_concatenate_buffer_def last_text_def Let_def split: option.split)
qed

lemma tokens_loop_push:
  assumes "tokens \<noteq> []" and "CHR 0x00 \<notin> set buf" and "s \<le> i" and "i \<le> length buf"
    and "d \<notin> set (take (i - s) (drop s buf))"
  shows "(case tokens_loop d buf i s tokens of (t', s') \<Rightarrow>
       if s' < length buf then append_or_concatenate_buffer t' buf s' (length buf) else t')
     = foldl (push_char d) tokens (drop s buf)"
  using assms
proof (induction d buf i s tokens rule: tokens_loop.induct)
  case (1 d buf i s tokens)
  let ?sl = "take (i - s) (drop s buf)"
  have split: "drop s buf = ?sl @ drop i buf"
    using "1.prems"(3) by (metis append_take_drop_id drop_drop le_add_diff_inverse2)
  show ?case
  proof (cases "i < length buf")
    case False
    then have "i = length buf" using "1.prems"(4) by simp
    then show ?thesis
      using "1.prems" push_chars_plain [of d "drop s buf" tokens]
      by (subst tokens_loop.simps) (auto simp: append_or_concatenate_eq)
  next
    case True
    then have di: "drop i buf = buf ! i # drop (Suc i) buf" by (simp add: Cons_nth_drop_Suc)
    have sl: "take (Suc i - s) (drop s buf) = ?sl @ [buf ! i]"
      using True "1.prems"(3) by (simp add: Suc_diff_le take_Suc_conv_app_nth)
    show ?thesis
    proof (cases "buf ! i = d")
      case delim: True
      let ?t = "increase_tokens_array (append_or_concatenate_buffer tokens buf s i)"
      have "foldl (push_char d) tokens (?sl @ [d]) = ?t"
        using "1.prems" push_chars_plain [of d ?sl tokens]
        by (cases "?sl = []")
          (auto simp: append_or_concatenate_eq increase_tokens_array_def push_char_def last_text_def Let_def)
      then have "foldl (push_char d) tokens (drop s buf) = foldl (push_char d) ?t (drop (Suc i) buf)"
        by (subst split, subst di) (simp add: delim)
      moreover have "?t \<noteq> []" by (simp add: increase_tokens_array_def)
      ultimately show ?thesis
        using "1.IH"(1) [OF True delim] True delim "1.prems"
        by (subst tokens_loop.simps) simp
    next
      case False
      with "1.IH"(2) [OF True False] True "1.prems" sl show ?thesis
        by (subst tokens_loop.simps) simp
    qed
  qed
qed

lemma update_tokens_vector_push:
  assumes "tokens \<noteq> []" and "CHR 0x00 \<notin> set buf"
  shows "update_tokens_vector tokens buf d = foldl (push_char d) tokens buf"
  using tokens_loop_push [OF assms, of 0 0 d] by (simp add: update_tokens_vector_def)

lemma push_chars_nonempty: "tokens \<noteq> [] \<Longrightarrow> foldl (push_char d) tokens s \<noteq> []"
  by (induction s arbitrary: tokens) (auto simp: push_char_def Let_def)

lemma append_pieces_push:
  assumes "tokens \<noteq> []" and "\<forall>p \<in> set pieces. CHR 0x00 \<notin> set p"
  shows "foldl (procreact_type_append_strings_to_array d) tokens pieces
    = foldl (push_char d) tokens (concat pieces)"
  using assms
proof (induction pieces arbitrary: tokens)
  case (Cons p ps)
  then show ?case
    using push_chars_nonempty [of tokens d p]
    by (simp add: procreact_type_append_strings_to_array_def update_tokens_vector_push)
qed simp

text \<open>The lines of a text: the pieces between delimiters, without an empty piece at the end.\<close>

definition lines_of :: "char \<Rightarrow> string \<Rightarrow> string list" where
  "lines_of d s = (let ps = split_at d s in if last ps = [] then butlast ps else ps)"

lemma finalized_tokens:
  "(if last (tokens_of d s) \<noteq> None then increase_tokens_array (tokens_of d s) else tokens_of d s)
     = map Some (lines_of d s) @ [None]"
proof -
  show ?thesis by (simp add: tokens_of_def lines_of_def increase_tokens_array_def Let_def map_Some_split [of d s])
qed

text \<open>
  C25: Whatever the pieces in which the output of a process is read, the token array is the one
  of the whole output: how the kernel splits it never splits or joins a token.
\<close>

theorem string_array_of_output:
  assumes "\<forall>p \<in> set pieces. CHR 0x00 \<notin> set p"
  shows "foldl (procreact_type_append_strings_to_array d) procreact_type_initialize_string_array pieces
    = tokens_of d (concat pieces)"
  using append_pieces_push [OF _ assms, of "[None]" d]
  by (simp add: procreact_type_initialize_string_array_def increase_tokens_array_def tokens_of_foldl)

theorem string_array_of_output_witness:
  "foldl (procreact_type_append_strings_to_array (CHR 10)) procreact_type_initialize_string_array
     [''/nix/sto'', ''re/a'' @ [CHR 10] @ ''/nix/s'', ''tore/b'', [CHR 10]]
   = [Some ''/nix/store/a'', Some ''/nix/store/b'', None]"
  by (subst string_array_of_output) (simp_all add: tokens_of_def)

end
