(* ===== verification/Remote_Management.thy ===== *)
theory Remote_Management
  imports Procreact_Types NixXML_Print
begin

text \<open>
  The commands Disnix executes: on a target machine through its client interface
  (\<open>libstatemgmt/remote-*.c\<close>, \<open>libpkgmgmt/remote-package-management.c\<close>) and on the
  machine itself through Dysnomia (\<open>libstatemgmt/state-management.c\<close>). An operation forks a
  child that executes an argument vector; the vector ends at its first NULL, so an argument
  that is NULL drops everything after it.
\<close>

section \<open>Building argument vectors\<close>

text \<open>An array of C strings, read by index; the element after the last is NULL.\<close>

definition array_at :: "string list \<Rightarrow> nat \<Rightarrow> cstr" where
  "array_at xs i = (if i < length xs then Some (xs ! i) else None)"

definition array_args :: "string list \<Rightarrow> nat \<Rightarrow> cstr list" where
  "array_args xs n = map (array_at xs) [0..<n]"

definition optional_args :: "string \<Rightarrow> cstr \<Rightarrow> cstr list" where
  "optional_args option_name value = (if value = None then [] else [Some option_name, value])"

lemma array_args_all [simp]: "array_args xs (length xs) = map Some xs"
  by (rule nth_equalityI) (simp_all add: array_args_def array_at_def)

type_synonym strings_future = "(cstr list, cstr list) ProcReact_Future"
type_synonym string_future = "(string, string) ProcReact_Future"

text \<open>The lines a process prints, and its output as one string.\<close>

abbreviation exec_lines :: "kernel \<Rightarrow> cstr list \<Rightarrow> os \<Rightarrow> strings_future \<times> os" where
  "exec_lines K args w \<equiv> procreact_initialize_future K (procreact_create_string_array_type (CHR 10)) (execvp args) w"

abbreviation exec_string :: "kernel \<Rightarrow> cstr list \<Rightarrow> os \<Rightarrow> string_future \<times> os" where
  "exec_string K args w \<equiv> procreact_initialize_future K procreact_create_string_type (execvp args) w"

definition future_get_if_ok :: "kernel \<Rightarrow> ('s, 'r) ProcReact_Future \<times> os \<Rightarrow> 'r option \<times> os" where
  "future_get_if_ok K f =
     (case f of (future, w) \<Rightarrow>
      case procreact_future_get K future w of ((status, result), future', w') \<Rightarrow>
        if status = Some PROCREACT_STATUS_OK then (result, w') else (None, w'))"

definition wait_if_ok :: "kernel \<Rightarrow> int \<times> os \<Rightarrow> bool \<times> os" where
  "wait_if_ok K f =
     (case f of (pid, w) \<Rightarrow>
      case procreact_wait_for_boolean K pid w of ((status, exit_status), w') \<Rightarrow>
        (status = PROCREACT_STATUS_OK \<and> exit_status \<noteq> 0, w'))"

section \<open>Activities on a target machine (remote-state-management.c)\<close>

definition exec_dysnomia_activity ::
  "kernel \<Rightarrow> string \<Rightarrow> cstr \<Rightarrow> cstr \<Rightarrow> cstr \<Rightarrow> cstr \<Rightarrow> string list \<Rightarrow> nat \<Rightarrow> cstr \<Rightarrow> os
    \<Rightarrow> int \<times> os" where
  "exec_dysnomia_activity K operation interface target container type arguments arguments_size service w =
     sys_fork K (execvp
       ([interface, Some operation, Some ''--target'', target, Some ''--container'', container,
         Some ''--type'', type]
        @ concat (map (\<lambda>i. [Some ''--arguments'', array_at arguments i]) [0..<arguments_size])
        @ [service, None])) w"

definition statemgmt_remote_activate ::
  "kernel \<Rightarrow> cstr \<Rightarrow> cstr \<Rightarrow> cstr \<Rightarrow> cstr \<Rightarrow> string list \<Rightarrow> nat \<Rightarrow> cstr \<Rightarrow> os \<Rightarrow> int \<times> os" where
  "statemgmt_remote_activate K interface target container type arguments arguments_size service w =
     exec_dysnomia_activity K ''--activate'' interface target container type arguments arguments_size service w"

definition statemgmt_remote_deactivate ::
  "kernel \<Rightarrow> cstr \<Rightarrow> cstr \<Rightarrow> cstr \<Rightarrow> cstr \<Rightarrow> string list \<Rightarrow> nat \<Rightarrow> cstr \<Rightarrow> os \<Rightarrow> int \<times> os" where
  "statemgmt_remote_deactivate K interface target container type arguments arguments_size service w =
     exec_dysnomia_activity K ''--deactivate'' interface target container type arguments arguments_size service w"

definition remote_lock_or_unlock ::
  "kernel \<Rightarrow> string \<Rightarrow> cstr \<Rightarrow> cstr \<Rightarrow> cstr \<Rightarrow> os \<Rightarrow> int \<times> os" where
  "remote_lock_or_unlock K operation interface target profile w =
     sys_fork K (execvp [interface, Some operation, Some ''--target'', target, Some ''--profile'', profile, None]) w"

definition statemgmt_remote_lock ::
  "kernel \<Rightarrow> cstr \<Rightarrow> cstr \<Rightarrow> cstr \<Rightarrow> os \<Rightarrow> int \<times> os" where
  "statemgmt_remote_lock K interface target profile w =
     remote_lock_or_unlock K ''--lock'' interface target profile w"

definition statemgmt_remote_unlock ::
  "kernel \<Rightarrow> cstr \<Rightarrow> cstr \<Rightarrow> cstr \<Rightarrow> os \<Rightarrow> int \<times> os" where
  "statemgmt_remote_unlock K interface target profile w =
     remote_lock_or_unlock K ''--unlock'' interface target profile w"

definition statemgmt_remote_snapshot ::
  "kernel \<Rightarrow> cstr \<Rightarrow> cstr \<Rightarrow> cstr \<Rightarrow> cstr \<Rightarrow> string list \<Rightarrow> nat \<Rightarrow> cstr \<Rightarrow> os \<Rightarrow> int \<times> os" where
  "statemgmt_remote_snapshot K interface target container type arguments arguments_size service w =
     exec_dysnomia_activity K ''--snapshot'' interface target container type arguments arguments_size service w"

definition statemgmt_remote_restore ::
  "kernel \<Rightarrow> cstr \<Rightarrow> cstr \<Rightarrow> cstr \<Rightarrow> cstr \<Rightarrow> string list \<Rightarrow> nat \<Rightarrow> cstr \<Rightarrow> os \<Rightarrow> int \<times> os" where
  "statemgmt_remote_restore K interface target container type arguments arguments_size service w =
     exec_dysnomia_activity K ''--restore'' interface target container type arguments arguments_size service w"

definition statemgmt_remote_delete_state ::
  "kernel \<Rightarrow> cstr \<Rightarrow> cstr \<Rightarrow> cstr \<Rightarrow> cstr \<Rightarrow> string list \<Rightarrow> nat \<Rightarrow> cstr \<Rightarrow> os \<Rightarrow> int \<times> os" where
  "statemgmt_remote_delete_state K interface target container type arguments arguments_size service w =
     exec_dysnomia_activity K ''--delete-state'' interface target container type arguments arguments_size service w"

definition statemgmt_remote_shell ::
  "kernel \<Rightarrow> cstr \<Rightarrow> cstr \<Rightarrow> cstr \<Rightarrow> cstr \<Rightarrow> string list \<Rightarrow> nat \<Rightarrow> cstr \<Rightarrow> cstr \<Rightarrow> os \<Rightarrow> int \<times> os" where
  "statemgmt_remote_shell K interface target container type arguments arguments_size service command w =
     sys_fork K (execvp
       ([interface, Some ''--shell'', Some ''--target'', target, Some ''--container'', container,
         Some ''--type'', type]
        @ concat (map (\<lambda>i. [Some ''--arguments'', array_at arguments i]) [0..<arguments_size])
        @ [service]
        @ (if command = None then [None] else [Some ''--command'', command, None]))) w"

definition statemgmt_remote_capture_config ::
  "kernel \<Rightarrow> cstr \<Rightarrow> cstr \<Rightarrow> os \<Rightarrow> strings_future \<times> os" where
  "statemgmt_remote_capture_config K interface target w =
     exec_lines K [interface, Some ''--capture-config'', Some ''--target'', target, None] w"

definition statemgmt_dummy_command ::
  "kernel \<Rightarrow> os \<Rightarrow> int \<times> os" where
  "statemgmt_dummy_command K w =
     sys_fork K (execvp [Some ''true'', None]) w"

section \<open>Snapshots on a target machine (remote-snapshot-management.c)\<close>

definition statemgmt_remote_clean_snapshots ::
  "kernel \<Rightarrow> cstr \<Rightarrow> cstr \<Rightarrow> int \<Rightarrow> cstr \<Rightarrow> cstr \<Rightarrow> os \<Rightarrow> int \<times> os" where
  "statemgmt_remote_clean_snapshots K interface target keep container component w =
     sys_fork K (execvp
       ([interface, Some ''--target'', target, Some ''--clean-snapshots'', Some ''--keep'', Some (format_d keep)]
        @ optional_args ''--container'' container @ optional_args ''--component'' component @ [None])) w"

definition statemgmt_remote_query_all_snapshots ::
  "kernel \<Rightarrow> cstr \<Rightarrow> cstr \<Rightarrow> cstr \<Rightarrow> cstr \<Rightarrow> os \<Rightarrow> strings_future \<times> os" where
  "statemgmt_remote_query_all_snapshots K interface target container component w =
     exec_lines K
       ([interface, Some ''--target'', target, Some ''--query-all-snapshots'']
        @ optional_args ''--container'' container @ optional_args ''--component'' component @ [None]) w"

definition statemgmt_remote_query_all_snapshots_sync ::
  "kernel \<Rightarrow> cstr \<Rightarrow> cstr \<Rightarrow> cstr \<Rightarrow> cstr \<Rightarrow> os \<Rightarrow> (cstr list) option \<times> os" where
  "statemgmt_remote_query_all_snapshots_sync K interface target container component w =
     future_get_if_ok K (statemgmt_remote_query_all_snapshots K interface target container component w)"

definition statemgmt_remote_query_latest_snapshot ::
  "kernel \<Rightarrow> cstr \<Rightarrow> cstr \<Rightarrow> cstr \<Rightarrow> cstr \<Rightarrow> os \<Rightarrow> strings_future \<times> os" where
  "statemgmt_remote_query_latest_snapshot K interface target container component w =
     exec_lines K
       ([interface, Some ''--target'', target, Some ''--query-latest-snapshot'']
        @ optional_args ''--container'' container @ optional_args ''--component'' component @ [None]) w"

definition statemgmt_remote_query_latest_snapshot_sync ::
  "kernel \<Rightarrow> cstr \<Rightarrow> cstr \<Rightarrow> cstr \<Rightarrow> cstr \<Rightarrow> os \<Rightarrow> (cstr list) option \<times> os" where
  "statemgmt_remote_query_latest_snapshot_sync K interface target container component w =
     future_get_if_ok K (statemgmt_remote_query_latest_snapshot K interface target container component w)"

definition statemgmt_remote_print_missing_snapshots ::
  "kernel \<Rightarrow> cstr \<Rightarrow> cstr \<Rightarrow> string list \<Rightarrow> nat \<Rightarrow> os \<Rightarrow> strings_future \<times> os" where
  "statemgmt_remote_print_missing_snapshots K interface target snapshots snapshots_length w =
     exec_lines K
       ([interface, Some ''--target'', target, Some ''--print-missing-snapshots'']
        @ array_args snapshots snapshots_length @ [None]) w"

definition statemgmt_remote_print_missing_snapshots_sync ::
  "kernel \<Rightarrow> cstr \<Rightarrow> cstr \<Rightarrow> string list \<Rightarrow> nat \<Rightarrow> os \<Rightarrow> (cstr list) option \<times> os" where
  "statemgmt_remote_print_missing_snapshots_sync K interface target snapshots snapshots_length w =
     future_get_if_ok K (statemgmt_remote_print_missing_snapshots K interface target snapshots snapshots_length w)"

definition statemgmt_remote_resolve_snapshots ::
  "kernel \<Rightarrow> cstr \<Rightarrow> cstr \<Rightarrow> string list \<Rightarrow> nat \<Rightarrow> os \<Rightarrow> strings_future \<times> os" where
  "statemgmt_remote_resolve_snapshots K interface target snapshots snapshots_length w =
     exec_lines K
       ([interface, Some ''--target'', target, Some ''--resolve-snapshots'']
        @ array_args snapshots snapshots_length @ [None]) w"

definition statemgmt_remote_resolve_snapshots_sync ::
  "kernel \<Rightarrow> cstr \<Rightarrow> cstr \<Rightarrow> string list \<Rightarrow> nat \<Rightarrow> os \<Rightarrow> (cstr list) option \<times> os" where
  "statemgmt_remote_resolve_snapshots_sync K interface target snapshots snapshots_length w =
     future_get_if_ok K (statemgmt_remote_resolve_snapshots K interface target snapshots snapshots_length w)"

definition statemgmt_import_local_snapshots ::
  "kernel \<Rightarrow> cstr \<Rightarrow> cstr \<Rightarrow> cstr \<Rightarrow> cstr \<Rightarrow> string list \<Rightarrow> nat \<Rightarrow> os \<Rightarrow> int \<times> os" where
  "statemgmt_import_local_snapshots K interface target container component resolved_snapshots resolved_snapshots_length w =
     sys_fork K (execvp
       ([interface, Some ''--target'', target, Some ''--import-snapshots'', Some ''--localfile'',
         Some ''--container'', container, Some ''--component'', component]
        @ array_args resolved_snapshots resolved_snapshots_length @ [None])) w"

definition statemgmt_import_local_snapshots_sync ::
  "kernel \<Rightarrow> cstr \<Rightarrow> cstr \<Rightarrow> cstr \<Rightarrow> cstr \<Rightarrow> string list \<Rightarrow> nat \<Rightarrow> os \<Rightarrow> bool \<times> os" where
  "statemgmt_import_local_snapshots_sync K interface target container component resolved_snapshots resolved_snapshots_length w =
     wait_if_ok K (statemgmt_import_local_snapshots K interface target container component resolved_snapshots
       resolved_snapshots_length w)"

definition statemgmt_import_remote_snapshots ::
  "kernel \<Rightarrow> cstr \<Rightarrow> cstr \<Rightarrow> cstr \<Rightarrow> cstr \<Rightarrow> string list \<Rightarrow> nat \<Rightarrow> os \<Rightarrow> int \<times> os" where
  "statemgmt_import_remote_snapshots K interface target container component resolved_snapshots resolved_snapshots_length w =
     sys_fork K (execvp
       ([interface, Some ''--target'', target, Some ''--import-snapshots'', Some ''--remotefile'',
         Some ''--container'', container, Some ''--component'', component]
        @ array_args resolved_snapshots resolved_snapshots_length @ [None])) w"

definition statemgmt_import_remote_snapshots_sync ::
  "kernel \<Rightarrow> cstr \<Rightarrow> cstr \<Rightarrow> cstr \<Rightarrow> cstr \<Rightarrow> string list \<Rightarrow> nat \<Rightarrow> os \<Rightarrow> bool \<times> os" where
  "statemgmt_import_remote_snapshots_sync K interface target container component resolved_snapshots resolved_snapshots_length w =
     wait_if_ok K (statemgmt_import_remote_snapshots K interface target container component resolved_snapshots
       resolved_snapshots_length w)"

definition statemgmt_export_remote_snapshots ::
  "kernel \<Rightarrow> cstr \<Rightarrow> cstr \<Rightarrow> string list \<Rightarrow> nat \<Rightarrow> os \<Rightarrow> strings_future \<times> os" where
  "statemgmt_export_remote_snapshots K interface target resolved_snapshots resolved_snapshots_length w =
     exec_lines K
       ([interface, Some ''--target'', target, Some ''--export-snapshots'']
        @ array_args resolved_snapshots resolved_snapshots_length @ [None]) w"

definition statemgmt_export_remote_snapshots_sync ::
  "kernel \<Rightarrow> cstr \<Rightarrow> cstr \<Rightarrow> string list \<Rightarrow> nat \<Rightarrow> os \<Rightarrow> (cstr list) option \<times> os" where
  "statemgmt_export_remote_snapshots_sync K interface target resolved_snapshots resolved_snapshots_length w =
     future_get_if_ok K (statemgmt_export_remote_snapshots K interface target resolved_snapshots
       resolved_snapshots_length w)"

section \<open>Packages on a target machine (remote-package-management.c)\<close>

definition pkgmgmt_remote_collect_garbage ::
  "kernel \<Rightarrow> cstr \<Rightarrow> cstr \<Rightarrow> bool \<Rightarrow> os \<Rightarrow> int \<times> os" where
  "pkgmgmt_remote_collect_garbage K interface target delete_old w =
     (let delete_old_arg = (if delete_old then Some ''-d'' else None) in
      sys_fork K (execvp [interface, Some ''--target'', target, Some ''--collect-garbage'', delete_old_arg, None]) w)"

definition pkgmgmt_remote_set ::
  "kernel \<Rightarrow> cstr \<Rightarrow> cstr \<Rightarrow> cstr \<Rightarrow> cstr \<Rightarrow> os \<Rightarrow> int \<times> os" where
  "pkgmgmt_remote_set K interface target profile component w =
     sys_fork K (execvp [interface, Some ''--target'', target, Some ''--profile'', profile,
       Some ''--set'', component, None]) w"

definition pkgmgmt_remote_query_installed ::
  "kernel \<Rightarrow> cstr \<Rightarrow> cstr \<Rightarrow> cstr \<Rightarrow> os \<Rightarrow> string_future \<times> os" where
  "pkgmgmt_remote_query_installed K interface target profile w =
     exec_string K [interface, Some ''--target'', target, Some ''--profile'', profile,
       Some ''--query-installed'', None] w"

definition pkgmgmt_remote_realise ::
  "kernel \<Rightarrow> cstr \<Rightarrow> cstr \<Rightarrow> cstr \<Rightarrow> os \<Rightarrow> strings_future \<times> os" where
  "pkgmgmt_remote_realise K interface target derivation w =
     exec_lines K [interface, Some ''--realise'', Some ''--target'', target, derivation, None] w"

definition pkgmgmt_remote_query_requisites ::
  "kernel \<Rightarrow> cstr \<Rightarrow> cstr \<Rightarrow> string list \<Rightarrow> nat \<Rightarrow> os \<Rightarrow> strings_future \<times> os" where
  "pkgmgmt_remote_query_requisites K interface target paths paths_length w =
     exec_lines K
       ([interface, Some ''--query-requisites'', Some ''--target'', target]
        @ array_args paths paths_length @ [None]) w"

definition pkgmgmt_remote_query_requisites_sync ::
  "kernel \<Rightarrow> cstr \<Rightarrow> cstr \<Rightarrow> string list \<Rightarrow> nat \<Rightarrow> os \<Rightarrow> (cstr list) option \<times> os" where
  "pkgmgmt_remote_query_requisites_sync K interface target paths paths_length w =
     future_get_if_ok K (pkgmgmt_remote_query_requisites K interface target paths paths_length w)"

definition pkgmgmt_remote_print_invalid ::
  "kernel \<Rightarrow> cstr \<Rightarrow> cstr \<Rightarrow> string list \<Rightarrow> nat \<Rightarrow> os \<Rightarrow> strings_future \<times> os" where
  "pkgmgmt_remote_print_invalid K interface target paths paths_length w =
     exec_lines K
       ([interface, Some ''--target'', target, Some ''--print-invalid'']
        @ array_args paths paths_length @ [None]) w"

definition pkgmgmt_remote_print_invalid_sync ::
  "kernel \<Rightarrow> cstr \<Rightarrow> cstr \<Rightarrow> string list \<Rightarrow> nat \<Rightarrow> os \<Rightarrow> (cstr list) option \<times> os" where
  "pkgmgmt_remote_print_invalid_sync K interface target paths paths_length w =
     future_get_if_ok K (pkgmgmt_remote_print_invalid K interface target paths paths_length w)"

definition pkgmgmt_import_local_closure ::
  "kernel \<Rightarrow> cstr \<Rightarrow> cstr \<Rightarrow> cstr \<Rightarrow> os \<Rightarrow> int \<times> os" where
  "pkgmgmt_import_local_closure K interface target closure w =
     sys_fork K (execvp [interface, Some ''--import'', Some ''--target'', target,
       Some ''--localfile'', closure, None]) w"

definition pkgmgmt_import_local_closure_sync ::
  "kernel \<Rightarrow> cstr \<Rightarrow> cstr \<Rightarrow> cstr \<Rightarrow> os \<Rightarrow> bool \<times> os" where
  "pkgmgmt_import_local_closure_sync K interface target closure w =
     wait_if_ok K (pkgmgmt_import_local_closure K interface target closure w)"

definition pkgmgmt_export_remote_closure ::
  "kernel \<Rightarrow> cstr \<Rightarrow> cstr \<Rightarrow> string list \<Rightarrow> nat \<Rightarrow> os \<Rightarrow> string_future \<times> os" where
  "pkgmgmt_export_remote_closure K interface target paths paths_length w =
     exec_string K
       ([interface, Some ''--target'', target, Some ''--export'', Some ''--remotefile'']
        @ array_args paths paths_length @ [None]) w"

text \<open>Stripping the linefeed reads the last byte of the result, so an empty one is a fault.\<close>

definition pkgmgmt_export_remote_closure_sync ::
  "kernel \<Rightarrow> cstr \<Rightarrow> cstr \<Rightarrow> string list \<Rightarrow> nat \<Rightarrow> os \<Rightarrow> (cstr \<times> os) result" where
  "pkgmgmt_export_remote_closure_sync K interface target paths paths_length w =
     (case pkgmgmt_export_remote_closure K interface target paths paths_length w of (future, w1) \<Rightarrow>
      case procreact_future_get K future w1 of ((status, result), future', w2) \<Rightarrow>
        if status = Some PROCREACT_STATUS_OK
        then bindr (deref result) (\<lambda>r.
             if r = [] then Inl Out_Of_Bounds
             else if last r = CHR 10 then Inr (Some (butlast r), w2) else Inr (Some r, w2))
        else Inr (None, w2))"

section \<open>Activities on the machine itself (state-management.c)\<close>

text \<open>
  The environment variables are those of the array up to its NULL. The file descriptors for
  the output are not modelled.
\<close>

definition run_dysnomia_activity ::
  "kernel \<Rightarrow> cstr \<Rightarrow> string \<Rightarrow> cstr \<Rightarrow> cstr \<Rightarrow> string list \<Rightarrow> os \<Rightarrow> int \<times> os" where
  "run_dysnomia_activity K type activity component container arguments w =
     sys_fork K (Exec (argv [Some ''dysnomia'', Some ''--type'', type, Some ''--operation'', Some activity,
       Some ''--component'', component, Some ''--container'', container, Some ''--environment'', None])
       arguments) w"

definition statemgmt_activate ::
  "kernel \<Rightarrow> cstr \<Rightarrow> cstr \<Rightarrow> cstr \<Rightarrow> string list \<Rightarrow> os \<Rightarrow> int \<times> os" where
  "statemgmt_activate K type component container arguments w =
     run_dysnomia_activity K type ''activate'' component container arguments w"

definition statemgmt_deactivate ::
  "kernel \<Rightarrow> cstr \<Rightarrow> cstr \<Rightarrow> cstr \<Rightarrow> string list \<Rightarrow> os \<Rightarrow> int \<times> os" where
  "statemgmt_deactivate K type component container arguments w =
     run_dysnomia_activity K type ''deactivate'' component container arguments w"

definition statemgmt_snapshot ::
  "kernel \<Rightarrow> cstr \<Rightarrow> cstr \<Rightarrow> cstr \<Rightarrow> string list \<Rightarrow> os \<Rightarrow> int \<times> os" where
  "statemgmt_snapshot K type component container arguments w =
     run_dysnomia_activity K type ''snapshot'' component container arguments w"

definition statemgmt_restore ::
  "kernel \<Rightarrow> cstr \<Rightarrow> cstr \<Rightarrow> cstr \<Rightarrow> string list \<Rightarrow> os \<Rightarrow> int \<times> os" where
  "statemgmt_restore K type component container arguments w =
     run_dysnomia_activity K type ''restore'' component container arguments w"

definition statemgmt_collect_garbage ::
  "kernel \<Rightarrow> cstr \<Rightarrow> cstr \<Rightarrow> cstr \<Rightarrow> string list \<Rightarrow> os \<Rightarrow> int \<times> os" where
  "statemgmt_collect_garbage K type component container arguments w =
     run_dysnomia_activity K type ''collect-garbage'' component container arguments w"

definition local_lock_or_unlock ::
  "kernel \<Rightarrow> string \<Rightarrow> cstr \<Rightarrow> cstr \<Rightarrow> cstr \<Rightarrow> os \<Rightarrow> int \<times> os" where
  "local_lock_or_unlock K operation type container component w =
     sys_fork K (execvp [Some ''dysnomia'', Some ''--type'', type, Some ''--operation'', Some operation,
       Some ''--container'', container, Some ''--component'', component, Some ''--environment'', None]) w"

definition statemgmt_lock ::
  "kernel \<Rightarrow> cstr \<Rightarrow> cstr \<Rightarrow> cstr \<Rightarrow> os \<Rightarrow> int \<times> os" where
  "statemgmt_lock K type container component w =
     local_lock_or_unlock K ''lock'' type container component w"

definition statemgmt_unlock ::
  "kernel \<Rightarrow> cstr \<Rightarrow> cstr \<Rightarrow> cstr \<Rightarrow> os \<Rightarrow> int \<times> os" where
  "statemgmt_unlock K type container component w =
     local_lock_or_unlock K ''unlock'' type container component w"

definition statemgmt_shell ::
  "kernel \<Rightarrow> cstr \<Rightarrow> cstr \<Rightarrow> cstr \<Rightarrow> string list \<Rightarrow> cstr \<Rightarrow> os \<Rightarrow> int \<times> os" where
  "statemgmt_shell K type component container arguments command w =
     sys_fork K (Exec (argv
       (if command = None
        then [Some ''dysnomia'', Some ''--type'', type, Some ''--shell'', Some ''--component'', component,
              Some ''--container'', container, Some ''--environment'', None]
        else [Some ''dysnomia'', Some ''--type'', type, Some ''--shell'', Some ''--component'', component,
              Some ''--container'', container, Some ''--environment'', Some ''--command'', command, None]))
       arguments) w"

section \<open>The vectors when nothing is NULL\<close>

text \<open>
  With all strings present every argument reaches the child, the service last; a NULL container
  ends the vector before the type, the arguments and the service.
\<close>

lemma argv_cons [simp]: "argv (Some a # as) = a # argv as" "argv (None # as) = []"
  by simp_all

lemma argv_pairs:
  "argv (concat (map (\<lambda>i. [Some x, array_at xs i]) [0..<length xs]) @ rest)
     = concat (map (\<lambda>a. [x, a]) xs) @ argv rest"
proof -
  have "map (\<lambda>i. [Some x, array_at xs i]) [0..<length xs] = map (\<lambda>a. [Some x, Some a]) xs"
    by (rule nth_equalityI) (simp_all add: array_at_def)
  moreover have "argv (concat (map (\<lambda>a. [Some x, Some a]) ys) @ rest) = concat (map (\<lambda>a. [x, a]) ys) @ argv rest" for ys
    by (induction ys) auto
  ultimately show ?thesis by simp
qed

lemma exec_dysnomia_activity_argv:
  "exec_dysnomia_activity K operation (Some interface) (Some target) (Some container) (Some type)
     args (length args) (Some service) w =
   sys_fork K (Exec ([interface, operation, ''--target'', target, ''--container'', container, ''--type'', type]
     @ concat (map (\<lambda>a. [''--arguments'', a]) args) @ [service]) []) w"
  by (simp add: exec_dysnomia_activity_def execvp_def argv_pairs)

lemma exec_dysnomia_activity_null_container:
  "exec_dysnomia_activity K operation (Some interface) (Some target) None type args n service w =
   sys_fork K (Exec [interface, operation, ''--target'', target, ''--container''] []) w"
  by (simp add: exec_dysnomia_activity_def execvp_def)

end
