(* ===== verification/Service_Traverse.thy ===== *)
theory Service_Traverse
  imports Services Disnix_OS
begin

text \<open>
  The traversal of the dependency graph of service mappings
  (\<open>libmanifest/servicemapping-traverse.c\<close>), with which Disnix activates services after the
  services they depend on and deactivates them before. Every round visits the mappings of
  an array, starts what can be started while cores are left, and waits for one process.
\<close>

section \<open>State\<close>

text \<open>
  The traversal changes the statuses in the unified array of mappings, the available cores in
  the targets table and the table of running processes; the services table is read only.
  The process table maps a pid to the index of its mapping.
\<close>

record traverse_state =
  unified :: "ServiceMapping list"
  targets :: "Target hashtable"
  pid_table :: "(int \<times> nat) list"
  world :: os

datatype ServiceStatus = SERVICE_ERROR | SERVICE_IN_PROGRESS | SERVICE_WAIT | SERVICE_DONE

type_synonym service_mapping_function =
  "ServiceMapping \<Rightarrow> ManifestService option \<Rightarrow> Target \<Rightarrow> cstr \<Rightarrow> string list \<Rightarrow> nat \<Rightarrow> os
    \<Rightarrow> (int \<times> os) result"

type_synonym complete_service_mapping_function =
  "ServiceMapping \<Rightarrow> ManifestService option \<Rightarrow> Target option \<Rightarrow> ProcReact_Status \<Rightarrow> int \<Rightarrow> ServiceMapping"

type_synonym visit = "InterDependencyMapping \<Rightarrow> traverse_state \<Rightarrow> (ServiceStatus \<times> traverse_state) result"

section \<open>Operations\<close>

fun find_interdependent_service_mappings ::
  "services_table \<Rightarrow> ServiceMapping list \<Rightarrow> 'k InterDependencyMapping_scheme
    \<Rightarrow> ServiceMapping list result" where
  "find_interdependent_service_mappings services [] mapping = Inr []"
| "find_interdependent_service_mappings services (current_mapping # rest) mapping =
     bindr (g_hash_table_lookup services (service current_mapping)) (\<lambda>found.
     bindr (deref found) (\<lambda>svc.
     bindr (deref (depends_on svc)) (\<lambda>dependencies.
     bindr (find_interdependent_service_mappings services rest mapping) (\<lambda>return_array.
       Inr (if find_interdependency_mapping dependencies mapping \<noteq> None
            then current_mapping # return_array else return_array)))))"

definition set_status :: "nat \<Rightarrow> ServiceMappingStatus \<Rightarrow> traverse_state \<Rightarrow> traverse_state" where
  "set_status i s st = st\<lparr>unified := (unified st)[i := (unified st ! i)\<lparr>status := s\<rparr>]\<rparr>"

text \<open>The caller has found \<open>tgt\<close> in the targets table under the name of the mapping's target.\<close>

definition attempt_to_map_service_mapping ::
  "services_table \<Rightarrow> service_mapping_function \<Rightarrow> nat \<Rightarrow> Target \<Rightarrow> traverse_state
    \<Rightarrow> (ServiceStatus \<times> traverse_state) result" where
  "attempt_to_map_service_mapping services map_service_mapping i tgt st =
     (let mapping = unified st ! i in
      case request_available_target_core tgt of (granted, tgt') \<Rightarrow>
      if granted
      then bindr (deref (target mapping)) (\<lambda>tn.
           let st = st\<lparr>targets := g_hash_table_insert tn tgt' (targets st)\<rparr> in
           bindr (create_mapping_parameters (service mapping) (container mapping) (target mapping)
                    (container_provided_by_service mapping) services tgt') (\<lambda>params.
           bindr (map_service_mapping mapping (params_service params) tgt' (params_type params)
                    (params_arguments params) (params_arguments_size params) (world st)) (\<lambda>(pid, w).
             let st = st\<lparr>world := w\<rparr> in
             if pid = -1 then Inr (SERVICE_ERROR, st)
             else Inr (SERVICE_IN_PROGRESS,
                    (set_status i SERVICE_MAPPING_IN_PROGRESS st)
                      \<lparr>pid_table := AList.update pid i (pid_table st)\<rparr>))))
      else Inr (SERVICE_WAIT, st))"

definition wait_for_service_mapping_to_complete ::
  "kernel \<Rightarrow> services_table \<Rightarrow> complete_service_mapping_function \<Rightarrow> traverse_state
    \<Rightarrow> traverse_state result" where
  "wait_for_service_mapping_to_complete K services complete_service_mapping st =
     (case sys_wait K (world st) of ((pid, wstatus), w) \<Rightarrow>
        let st = st\<lparr>world := w\<rparr> in
        if 0 < pid
        then (case procreact_retrieve_boolean pid wstatus of (outcome, result) \<Rightarrow>
             bindr (deref (map_of (pid_table st) pid)) (\<lambda>i.
             let mapping = unified st ! i in
             bindr (g_hash_table_lookup services (service mapping)) (\<lambda>svc.
             bindr (g_hash_table_lookup (targets st) (target mapping)) (\<lambda>tgt.
             let mapping' = complete_service_mapping mapping svc tgt outcome result;
                 st = st\<lparr>pid_table := AList.delete pid (pid_table st),
                         unified := (unified st)[i := mapping']\<rparr> in
             bindr (g_hash_table_lookup (targets st) (target mapping')) (\<lambda>tgt.
             bindr (deref tgt) (\<lambda>tgt.
             bindr (deref (target mapping')) (\<lambda>tn.
               Inr (st\<lparr>targets := g_hash_table_insert tn (signal_available_target_core tgt) (targets st)\<rparr>))))))))
        else Inr st)"

text \<open>A loop over mappings that stops at the first one that is not done.\<close>

fun visit_all :: "visit \<Rightarrow> InterDependencyMapping list \<Rightarrow> traverse_state \<Rightarrow> (ServiceStatus \<times> traverse_state) result" where
  "visit_all visit [] st = Inr (SERVICE_DONE, st)"
| "visit_all visit (d # ds) st =
     bindr (visit d st) (\<lambda>(result, st').
       if result \<noteq> SERVICE_DONE then Inr (result, st') else visit_all visit ds st')"

abbreviation as_dependency :: "ServiceMapping \<Rightarrow> InterDependencyMapping" where
  "as_dependency \<equiv> InterDependencyMapping.truncate"

text \<open>
  The recursion follows the dependency graph, which nothing bounds: the fuel is the depth.
\<close>

fun traverse_inter_dependency_mappings ::
  "services_table \<Rightarrow> service_mapping_function \<Rightarrow> nat \<Rightarrow> visit" where
  "traverse_inter_dependency_mappings services map_service_mapping 0 key st = Inl Fuel_Exhausted"
| "traverse_inter_dependency_mappings services map_service_mapping (Suc fuel) key st =
     bindr (deref (find_service_mapping (unified st) key)) (\<lambda>i.
     bindr (g_hash_table_lookup services (service (unified st ! i))) (\<lambda>found.
     bindr (deref found) (\<lambda>svc.
     bindr (case depends_on svc of
              None \<Rightarrow> Inr (SERVICE_DONE, st)
            | Some dependencies \<Rightarrow>
                visit_all (traverse_inter_dependency_mappings services map_service_mapping fuel) dependencies st)
       (\<lambda>(result, st).
        if result \<noteq> SERVICE_DONE then Inr (result, st)
        else (case status (unified st ! i) of
            SERVICE_MAPPING_DEACTIVATED \<Rightarrow>
              bindr (g_hash_table_lookup (targets st) (target (unified st ! i))) (\<lambda>tgt.
                (case tgt of
                   None \<Rightarrow> Inr (SERVICE_ERROR, st)
                 | Some t \<Rightarrow> attempt_to_map_service_mapping services map_service_mapping i t st))
          | SERVICE_MAPPING_ACTIVATED \<Rightarrow> Inr (SERVICE_DONE, st)
          | SERVICE_MAPPING_IN_PROGRESS \<Rightarrow> Inr (SERVICE_IN_PROGRESS, st)
          | SERVICE_MAPPING_ERROR \<Rightarrow> Inr (SERVICE_ERROR, st))))))"

fun traverse_interdependent_mappings ::
  "services_table \<Rightarrow> service_mapping_function \<Rightarrow> nat \<Rightarrow> visit" where
  "traverse_interdependent_mappings services map_service_mapping 0 key st = Inl Fuel_Exhausted"
| "traverse_interdependent_mappings services map_service_mapping (Suc fuel) key st =
     bindr (deref (find_service_mapping (unified st) key)) (\<lambda>i.
     bindr (find_interdependent_service_mappings services (unified st) (unified st ! i))
       (\<lambda>interdependent_mappings.
     bindr (visit_all (traverse_interdependent_mappings services map_service_mapping fuel)
              (map as_dependency interdependent_mappings) st)
       (\<lambda>(result, st).
        if result \<noteq> SERVICE_DONE then Inr (result, st)
        else (case status (unified st ! i) of
            SERVICE_MAPPING_ACTIVATED \<Rightarrow>
              bindr (g_hash_table_lookup (targets st) (target (unified st ! i))) (\<lambda>tgt.
              bindr (g_hash_table_lookup services (service (unified st ! i))) (\<lambda>svc.
                (case tgt of
                   None \<Rightarrow> bindr (deref svc) (\<lambda>_.
                     Inr (SERVICE_DONE, set_status i SERVICE_MAPPING_DEACTIVATED st))
                 | Some t \<Rightarrow> attempt_to_map_service_mapping services map_service_mapping i t st)))
          | SERVICE_MAPPING_DEACTIVATED \<Rightarrow> Inr (SERVICE_DONE, st)
          | SERVICE_MAPPING_IN_PROGRESS \<Rightarrow> Inr (SERVICE_IN_PROGRESS, st)
          | SERVICE_MAPPING_ERROR \<Rightarrow> Inr (SERVICE_ERROR, st)))))"

text \<open>One round of the traversal: the number of mappings done, and the outcome so far.\<close>

fun traverse_round ::
  "visit \<Rightarrow> (traverse_state \<Rightarrow> traverse_state result) \<Rightarrow> ServiceMapping list \<Rightarrow> nat \<Rightarrow> bool
    \<Rightarrow> traverse_state \<Rightarrow> (nat \<times> bool \<times> traverse_state) result" where
  "traverse_round iterate_strategy wait_one [] num_done success st = Inr (num_done, success, st)"
| "traverse_round iterate_strategy wait_one (mapping # rest) num_done success st =
     bindr (iterate_strategy (as_dependency mapping) st) (\<lambda>(result, st).
     bindr (wait_one st) (\<lambda>st.
       if result = SERVICE_ERROR
       then traverse_round iterate_strategy wait_one rest (num_done + 1) False st
       else if result = SERVICE_DONE
       then traverse_round iterate_strategy wait_one rest (num_done + 1) success st
       else traverse_round iterate_strategy wait_one rest num_done success st))"

fun traverse_rounds ::
  "nat \<Rightarrow> visit \<Rightarrow> (traverse_state \<Rightarrow> traverse_state result) \<Rightarrow> ServiceMapping list \<Rightarrow> bool
    \<Rightarrow> traverse_state \<Rightarrow> (bool \<times> traverse_state) result" where
  "traverse_rounds 0 iterate_strategy wait_one array success st = Inl Fuel_Exhausted"
| "traverse_rounds (Suc rounds) iterate_strategy wait_one array success st =
     bindr (traverse_round iterate_strategy wait_one array 0 success st) (\<lambda>(num_done, success, st).
       if num_done < length array
       then traverse_rounds rounds iterate_strategy wait_one array success st
       else Inr (success, st))"

definition traverse_service_mappings ::
  "kernel \<Rightarrow> nat \<Rightarrow> services_table \<Rightarrow> visit \<Rightarrow> complete_service_mapping_function \<Rightarrow> ServiceMapping list
    \<Rightarrow> traverse_state \<Rightarrow> (bool \<times> traverse_state) result" where
  "traverse_service_mappings K rounds services iterate_strategy complete_service_mapping array st =
     traverse_rounds rounds iterate_strategy
       (wait_for_service_mapping_to_complete K services complete_service_mapping) array True
       (st\<lparr>pid_table := []\<rparr>)"

end
