(* ===== verification/Traverse_Safety.thy ===== *)
theory Traverse_Safety
  imports Service_Traverse
begin

text \<open>
  What a traversal may do to the mappings, as a step relation: a mapping is only started when
  everything that has to come first is done and its machine has a core left, and a running one
  ends in its goal or in an error. Both strategies of \<open>servicemapping-traverse.c\<close> take such steps only, for every
  kernel that behaves, whatever forks and processes fail; so no step ever leaves an active
  service whose dependencies are not all active.
\<close>

section \<open>The specification\<close>

type_synonym key = "cstr \<times> cstr \<times> cstr"

definition required :: "services_table \<Rightarrow> ServiceMapping \<Rightarrow> (cstr \<times> cstr \<times> cstr) set" where
  "required services m =
     (case service m of None \<Rightarrow> {}
      | Some sn \<Rightarrow> (case map_of services sn of None \<Rightarrow> {}
         | Some svc \<Rightarrow> (case depends_on svc of None \<Rightarrow> {} | Some ds \<Rightarrow> keys_of ds)))"

datatype phase = Activation | Deactivation

fun goal :: "phase \<Rightarrow> ServiceMappingStatus" where
  "goal Activation = SERVICE_MAPPING_ACTIVATED"
| "goal Deactivation = SERVICE_MAPPING_DEACTIVATED"

fun origin :: "phase \<Rightarrow> ServiceMappingStatus" where
  "origin Activation = SERVICE_MAPPING_DEACTIVATED"
| "origin Deactivation = SERVICE_MAPPING_ACTIVATED"

text \<open>\<open>precedes services ph x y\<close>: in this phase \<open>x\<close> has to be done before \<open>y\<close> may start.\<close>

fun precedes :: "services_table \<Rightarrow> phase \<Rightarrow> ServiceMapping \<Rightarrow> ServiceMapping \<Rightarrow> bool" where
  "precedes services Activation x y = (mapping_key x \<in> required services y)"
| "precedes services Deactivation x y = (mapping_key y \<in> required services x)"

definition ready :: "services_table \<Rightarrow> phase \<Rightarrow> ServiceMapping list \<Rightarrow> ServiceMapping \<Rightarrow> bool" where
  "ready services ph ms y \<longleftrightarrow> (\<forall>x \<in> set ms. precedes services ph x y \<longrightarrow> status x = goal ph)"

text \<open>The number of mappings that are being (de)activated on a machine.\<close>

definition busy :: "ServiceMapping list \<Rightarrow> string \<Rightarrow> int" where
  "busy ms tn = int (length (filter (\<lambda>m. status m = SERVICE_MAPPING_IN_PROGRESS \<and> target m = Some tn) ms))"

inductive phase_step ::
  "services_table \<Rightarrow> (string \<Rightarrow> int) \<Rightarrow> key set \<Rightarrow> phase \<Rightarrow> ServiceMapping list \<Rightarrow> ServiceMapping list \<Rightarrow> bool"
  for services :: services_table and cap :: "string \<Rightarrow> int" and A :: "key set" and ph :: phase where
  start: "i < length ms \<Longrightarrow> mapping_key (ms ! i) \<in> A \<Longrightarrow> status (ms ! i) = origin ph \<Longrightarrow>
    ready services ph ms (ms ! i) \<Longrightarrow> target (ms ! i) = Some tn \<Longrightarrow> busy ms tn < cap tn \<Longrightarrow>
    phase_step services cap A ph ms (ms[i := (ms ! i)\<lparr>status := SERVICE_MAPPING_IN_PROGRESS\<rparr>])"
| skip: "ph = Deactivation \<Longrightarrow> i < length ms \<Longrightarrow> mapping_key (ms ! i) \<in> A \<Longrightarrow> status (ms ! i) = origin ph \<Longrightarrow>
    ready services ph ms (ms ! i) \<Longrightarrow>
    phase_step services cap A ph ms (ms[i := (ms ! i)\<lparr>status := SERVICE_MAPPING_DEACTIVATED\<rparr>])"
| finish: "i < length ms \<Longrightarrow> mapping_key (ms ! i) \<in> A \<Longrightarrow> status (ms ! i) = SERVICE_MAPPING_IN_PROGRESS \<Longrightarrow>
    s = goal ph \<or> s = SERVICE_MAPPING_ERROR \<Longrightarrow>
    phase_step services cap A ph ms (ms[i := (ms ! i)\<lparr>status := s\<rparr>])"

abbreviation phase_steps ::
  "services_table \<Rightarrow> (string \<Rightarrow> int) \<Rightarrow> key set \<Rightarrow> phase \<Rightarrow> ServiceMapping list \<Rightarrow> ServiceMapping list \<Rightarrow> bool" where
  "phase_steps services cap A ph \<equiv> (phase_step services cap A ph)\<^sup>*\<^sup>*"

text \<open>
  \<open>A\<close> is the scope of a traversal: the keys of the mappings it may touch. It has to be closed
  under what comes first.
\<close>

definition scoped :: "services_table \<Rightarrow> key set \<Rightarrow> phase \<Rightarrow> ServiceMapping list \<Rightarrow> bool" where
  "scoped services A ph ms \<longleftrightarrow> (\<forall>x \<in> set ms. \<forall>y \<in> set ms. precedes services ph x y
     \<longrightarrow> mapping_key y \<in> A \<longrightarrow> mapping_key x \<in> A)"

text \<open>The order of activity: what is not deactivated has all its dependencies activated.\<close>

definition in_order :: "services_table \<Rightarrow> ServiceMapping list \<Rightarrow> bool" where
  "in_order services ms \<longleftrightarrow> (\<forall>x \<in> set ms. \<forall>y \<in> set ms. mapping_key y \<in> required services x
     \<longrightarrow> status x \<noteq> SERVICE_MAPPING_DEACTIVATED \<longrightarrow> status y = SERVICE_MAPPING_ACTIVATED)"

lemma required_status [simp]: "required services (m\<lparr>status := s\<rparr>) = required services m"
  by (simp add: required_def)

lemma goal_simps [simp]:
  "goal ph \<noteq> origin ph" "origin ph \<noteq> goal ph"
  "goal ph \<noteq> SERVICE_MAPPING_IN_PROGRESS" "goal ph \<noteq> SERVICE_MAPPING_ERROR"
  "origin ph \<noteq> SERVICE_MAPPING_IN_PROGRESS" "origin ph \<noteq> SERVICE_MAPPING_ERROR"
  "SERVICE_MAPPING_IN_PROGRESS \<noteq> goal ph" "SERVICE_MAPPING_IN_PROGRESS \<noteq> origin ph"
  "SERVICE_MAPPING_ERROR \<noteq> goal ph" "SERVICE_MAPPING_ERROR \<noteq> origin ph"
  by (cases ph; simp)+

lemma filter_update_length:
  assumes "i < length xs"
  shows "int (length (filter P (xs[i := v])))
     = int (length (filter P xs)) - of_bool (P (xs ! i)) + of_bool (P v)"
  by (subst (2) id_take_nth_drop [OF assms]) (simp add: upd_conv_take_nth_drop [OF assms])

lemma busy_update:
  assumes "i < length ms"
  shows "busy (ms[i := (ms ! i)\<lparr>status := s\<rparr>]) tn = busy ms tn
    - of_bool (status (ms ! i) = SERVICE_MAPPING_IN_PROGRESS \<and> target (ms ! i) = Some tn)
    + of_bool (s = SERVICE_MAPPING_IN_PROGRESS \<and> target (ms ! i) = Some tn)"
  unfolding busy_def by (simp add: filter_update_length [OF assms])

lemma set_update_cases: "x \<in> set (ms[i := v]) \<Longrightarrow> x = v \<or> x \<in> set ms"
  using set_update_subset_insert by fastforce

lemma in_order_update:
  assumes "in_order services ms" and "i < length ms"
    and up: "s \<noteq> SERVICE_MAPPING_DEACTIVATED \<Longrightarrow> \<forall>y \<in> set ms.
      mapping_key y \<in> required services (ms ! i) \<longrightarrow> status y = SERVICE_MAPPING_ACTIVATED \<and> mapping_key y \<noteq> mapping_key (ms ! i)"
    and down: "s \<noteq> SERVICE_MAPPING_ACTIVATED \<Longrightarrow> \<forall>x \<in> set ms.
      mapping_key (ms ! i) \<in> required services x \<longrightarrow> status x = SERVICE_MAPPING_DEACTIVATED"
  shows "in_order services (ms[i := (ms ! i)\<lparr>status := s\<rparr>])"
  unfolding in_order_def
proof (intro ballI impI)
  let ?v = "(ms ! i)\<lparr>status := s\<rparr>"
  have mem: "ms ! i \<in> set ms" using assms(2) by simp
  fix x y
  assume xy: "x \<in> set (ms[i := ?v])" "y \<in> set (ms[i := ?v])"
    and dep: "mapping_key y \<in> required services x" and act: "status x \<noteq> SERVICE_MAPPING_DEACTIVATED"
  consider (new) "x = ?v" "y = ?v" | (x) "x = ?v" "y \<in> set ms" | (y) "x \<in> set ms" "y = ?v"
    | (old) "x \<in> set ms" "y \<in> set ms" using xy set_update_cases by metis
  then show "status y = SERVICE_MAPPING_ACTIVATED"
  proof cases
    case new
    then show ?thesis using up mem dep act by auto
  next
    case x
    then show ?thesis using up dep act by auto
  next
    case y
    show ?thesis
    proof (cases "s = SERVICE_MAPPING_ACTIVATED")
      case False
      then show ?thesis using down y dep act by auto
    qed (use y in simp)
  next
    case old
    then show ?thesis using assms(1) dep act unfolding in_order_def by blast
  qed
qed

lemma phase_step_in_order:
  assumes "phase_step services cap A ph ms ms'" and "in_order services ms"
  shows "in_order services ms'"
  using assms
proof (induction rule: phase_step.induct)
  case (start i ms)
  have mem: "ms ! i \<in> set ms" using start.hyps(1) by simp
  show ?case
  proof (rule in_order_update [OF start.prems start.hyps(1)])
    show "\<forall>y \<in> set ms. mapping_key y \<in> required services (ms ! i) \<longrightarrow>
      status y = SERVICE_MAPPING_ACTIVATED \<and> mapping_key y \<noteq> mapping_key (ms ! i)"
    proof (cases ph)
      case Activation
      with start.hyps mem show ?thesis by (force simp: ready_def)
    next
      case Deactivation
      with start.hyps mem start.prems show ?thesis by (force simp: ready_def in_order_def)
    qed
    show "\<forall>x \<in> set ms. mapping_key (ms ! i) \<in> required services x \<longrightarrow> status x = SERVICE_MAPPING_DEACTIVATED"
    proof (cases ph)
      case Activation
      with start.hyps mem start.prems show ?thesis by (force simp: in_order_def)
    next
      case Deactivation
      with start.hyps mem show ?thesis by (force simp: ready_def)
    qed
  qed
next
  case (skip i ms)
  have mem: "ms ! i \<in> set ms" using skip.hyps(2) by simp
  show ?case
    by (rule in_order_update [OF skip.prems skip.hyps(2)])
      (use skip.hyps mem in \<open>auto simp: ready_def\<close>)
next
  case (finish i ms s)
  have mem: "ms ! i \<in> set ms" using finish.hyps(1) by simp
  have deps: "\<forall>y \<in> set ms. mapping_key y \<in> required services (ms ! i) \<longrightarrow> status y = SERVICE_MAPPING_ACTIVATED"
    and rev: "\<forall>x \<in> set ms. mapping_key (ms ! i) \<in> required services x \<longrightarrow> status x = SERVICE_MAPPING_DEACTIVATED"
    using finish.prems mem finish.hyps(3) by (force simp: in_order_def)+
  then have self: "mapping_key (ms ! i) \<notin> required services (ms ! i)"
    using mem finish.hyps(3) by force
  show ?case
    by (rule in_order_update [OF finish.prems finish.hyps(1)]) (use deps rev self in auto)
qed

lemma phase_steps_in_order:
  "phase_steps services cap A ph ms ms' \<Longrightarrow> in_order services ms \<Longrightarrow> in_order services ms'"
  by (induction rule: rtranclp_induct) (auto intro: phase_step_in_order)

section \<open>What steps leave alone\<close>

definition erase_status :: "ServiceMapping \<Rightarrow> ServiceMapping" where
  "erase_status m = m\<lparr>status := SERVICE_MAPPING_DEACTIVATED\<rparr>"

definition same_mappings :: "ServiceMapping list \<Rightarrow> ServiceMapping list \<Rightarrow> bool" where
  "same_mappings ms ms' \<longleftrightarrow> map erase_status ms = map erase_status ms'"

lemma erase_status_simps [simp]:
  "erase_status (m\<lparr>status := s\<rparr>) = erase_status m"
  "mapping_key (erase_status m) = mapping_key m"
  "required services (erase_status m) = required services m"
  "service (erase_status m) = service m"
  "target (erase_status m) = target m"
  "container (erase_status m) = container m"
  "container_provided_by_service (erase_status m) = container_provided_by_service m"
  by (simp_all add: erase_status_def)

lemma same_mappings_refl [simp]: "same_mappings ms ms"
  by (simp add: same_mappings_def)

lemma same_mappings_trans: "same_mappings a b \<Longrightarrow> same_mappings b c \<Longrightarrow> same_mappings a c"
  by (simp add: same_mappings_def)

lemma same_mappings_update:
  "same_mappings ms (ms[i := (ms ! i)\<lparr>status := s\<rparr>])"
  unfolding same_mappings_def map_update erase_status_simps
  by (cases "i < length ms") (simp_all add: list_update_beyond flip: nth_map)

lemma same_mappings_length: "same_mappings ms ms' \<Longrightarrow> length ms = length ms'"
  unfolding same_mappings_def by (rule map_eq_imp_length_eq)

lemma same_mappings_nth:
  assumes "same_mappings ms ms'" and "i < length ms"
  shows "erase_status (ms ! i) = erase_status (ms' ! i)"
  using assms same_mappings_length [OF assms(1)] unfolding same_mappings_def by (metis nth_map)

lemma same_mappings_keys:
  assumes "same_mappings ms ms'"
  shows "map mapping_key ms = map mapping_key ms'"
proof -
  have "map mapping_key ms = map mapping_key (map erase_status ms)" for ms by simp
  with assms show ?thesis unfolding same_mappings_def by metis
qed

lemma erase_status_eqD:
  assumes "erase_status a = erase_status b"
  shows "mapping_key a = mapping_key b" "required services a = required services b"
    "service a = service b" "target a = target b" "container a = container b"
    "container_provided_by_service a = container_provided_by_service b"
  using arg_cong [OF assms, of mapping_key] arg_cong [OF assms, of "required services"]
    arg_cong [OF assms, of service] arg_cong [OF assms, of target] arg_cong [OF assms, of container]
    arg_cong [OF assms, of container_provided_by_service] by simp_all

lemma same_mappings_keys_of: "same_mappings ms ms' \<Longrightarrow> keys_of ms' = keys_of ms"
  using arg_cong [OF same_mappings_keys, of ms ms' set] by (auto simp: image_iff)

lemma same_mappings_find:
  "same_mappings ms ms' \<Longrightarrow> find_service_mapping ms key = find_service_mapping ms' key"
  by (rule find_service_mapping_cong [OF refl same_mappings_keys])

lemma phase_steps_same: "phase_steps services cap A ph ms ms' \<Longrightarrow> same_mappings ms ms'"
proof (induction rule: rtranclp_induct)
  case (step ms1 ms2)
  from step.hyps(2) have "same_mappings ms1 ms2"
    by (cases rule: phase_step.cases) (simp_all add: same_mappings_update)
  with step.IH show ?case by (rule same_mappings_trans)
qed simp

lemma phase_step_goal_stable:
  "phase_step services cap A ph ms ms' \<Longrightarrow> status (ms ! i) = goal ph \<Longrightarrow> status (ms' ! i) = goal ph"
  by (cases rule: phase_step.cases) (auto simp: nth_list_update)

lemma phase_steps_goal_stable:
  "phase_steps services cap A ph ms ms' \<Longrightarrow> status (ms ! i) = goal ph \<Longrightarrow> status (ms' ! i) = goal ph"
  by (induction rule: rtranclp_induct) (auto intro: phase_step_goal_stable)

lemma phase_step_scope:
  "phase_step services cap A ph ms ms' \<Longrightarrow> mapping_key (ms ! i) \<notin> A \<Longrightarrow> ms' ! i = ms ! i"
  by (cases rule: phase_step.cases) (auto simp: nth_list_update)

lemma phase_steps_scope:
  assumes "phase_steps services cap A ph ms ms'" and "i < length ms" and "mapping_key (ms ! i) \<notin> A"
  shows "ms' ! i = ms ! i"
  using assms(1)
proof (induction rule: rtranclp_induct)
  case (step ms1 ms2)
  with assms(3) phase_step_scope [OF step.hyps(2)] show ?case by metis
qed simp

lemma erase_status_precedes:
  assumes "erase_status x = erase_status x'" and "erase_status y = erase_status y'"
  shows "precedes services ph x y = precedes services ph x' y'"
  using erase_status_eqD(1,2) [OF assms(1)] erase_status_eqD(1,2) [OF assms(2)] by (cases ph) simp_all

lemma required_same:
  assumes "same_mappings ms ms'" and "x \<in> set ms'"
  obtains y where "y \<in> set ms" "erase_status y = erase_status x"
proof -
  from assms(2) obtain j where j: "j < length ms'" "ms' ! j = x" by (auto simp: in_set_conv_nth)
  then have "j < length ms" using same_mappings_length [OF assms(1)] by simp
  from same_mappings_nth [OF assms(1) this] j that [of "ms ! j"] \<open>j < length ms\<close> show ?thesis by simp
qed

lemma scoped_same:
  assumes "scoped services A ph ms" and same: "same_mappings ms ms'"
  shows "scoped services A ph ms'"
  unfolding scoped_def
proof (intro ballI impI)
  fix x y assume "x \<in> set ms'" "y \<in> set ms'" and pre: "precedes services ph x y" "mapping_key y \<in> A"
  then obtain x' y' where 1: "x' \<in> set ms" "erase_status x' = erase_status x" "y' \<in> set ms" "erase_status y' = erase_status y"
    using required_same [OF same] by metis
  with assms(1) pre erase_status_precedes [OF 1(2,4)] show "mapping_key x \<in> A"
    unfolding scoped_def by (metis erase_status_eqD(1))
qed

section \<open>The state of a traversal\<close>

text \<open>
  The array is sorted without duplicates, every process in the table is a child that
  belongs to a mapping in progress, and the cores in use and the available cores of a machine
  do not exceed its capacity.
\<close>

definition tracked :: "(string \<Rightarrow> int) \<Rightarrow> key set \<Rightarrow> traverse_state \<Rightarrow> bool" where
  "tracked cap A st \<longleftrightarrow>
     sorted_mappings (unified st) \<and> distinct_mappings (unified st) \<and> wf_os (world st)
     \<and> distinct (map fst (pid_table st)) \<and> distinct (map snd (pid_table st))
     \<and> (\<forall>(pid, i) \<in> set (pid_table st). pid \<in> set (children (world st)) \<and> i < length (unified st)
          \<and> status (unified st ! i) = SERVICE_MAPPING_IN_PROGRESS \<and> mapping_key (unified st ! i) \<in> A)
     \<and> (\<forall>tn t. map_of (targets st) tn = Some t \<longrightarrow> available_cores t + busy (unified st) tn \<le> cap tn)"

text \<open>What the callbacks do: start one process, and set the status according to the outcome.\<close>

definition spawns :: "kernel \<Rightarrow> service_mapping_function \<Rightarrow> bool" where
  "spawns K f \<longleftrightarrow> (\<forall>m s t ty args n w pid w'. f m s t ty args n w = Inr (pid, w')
     \<longrightarrow> (\<exists>c. sys_fork K c w = (pid, w')))"

definition completes :: "phase \<Rightarrow> complete_service_mapping_function \<Rightarrow> bool" where
  "completes ph f \<longleftrightarrow> (\<forall>m s t outcome r. f m s t outcome r =
     m\<lparr>status := (if succeeded (outcome, r) then goal ph else SERVICE_MAPPING_ERROR)\<rparr>)"

definition sorted_services :: "services_table \<Rightarrow> bool" where
  "sorted_services services \<longleftrightarrow> (\<forall>sn svc ds. map_of services sn = Some svc \<longrightarrow> depends_on svc = Some ds
     \<longrightarrow> sorted_mappings ds)"

lemma tracked_same:
  assumes "tracked cap A st" and "same_mappings (unified st) ms"
  shows "sorted_mappings ms" "distinct_mappings ms" "length ms = length (unified st)"
  using assms same_mappings_keys [OF assms(2)] same_mappings_length [OF assms(2)]
  by (simp_all add: tracked_def)


definition take_core :: "Target \<Rightarrow> Target" where
  "take_core t = t\<lparr>available_cores := available_cores t - 1\<rparr>"

lemma tracked_start:
  assumes "tracked cap A st" and "kernel_ok K" and "sys_fork K c (world st) = (pid, w)" and "pid \<noteq> -1"
    and "i < length (unified st)" and "status (unified st ! i) \<noteq> SERVICE_MAPPING_IN_PROGRESS"
    and "target (unified st ! i) = Some tn" and "map_of (targets st) tn = Some t"
    and "mapping_key (unified st ! i) \<in> A"
  shows "tracked cap A ((set_status i SERVICE_MAPPING_IN_PROGRESS st)
    \<lparr>targets := g_hash_table_insert tn (take_core t) (targets st), world := w,
     pid_table := AList.update pid i (pid_table st)\<rparr>)"
proof -
  let ?ms = "(unified st)[i := (unified st ! i)\<lparr>status := SERVICE_MAPPING_IN_PROGRESS\<rparr>]"
  have tr: "distinct (map fst (pid_table st))" "distinct (map snd (pid_table st))"
    "\<And>p j. (p, j) \<in> set (pid_table st) \<Longrightarrow> p \<in> set (children (world st)) \<and> j < length (unified st)
        \<and> status (unified st ! j) = SERVICE_MAPPING_IN_PROGRESS \<and> mapping_key (unified st ! j) \<in> A"
    using assms(1) by (auto simp: tracked_def)
  from assms(2,3) have forked: "pid \<notin> set (children (world st))"
    "children w = pid # children (world st)"
    using assms(4) by (auto elim: sys_fork_cases)
  have fresh: "pid \<notin> fst ` set (pid_table st)" and idle: "i \<notin> snd ` set (pid_table st)"
    using tr(3) forked(1) assms(6) by auto
  note upd = alist_update_new [OF fresh, of i]
  note same = tracked_same [OF assms(1) same_mappings_update [of _ i SERVICE_MAPPING_IN_PROGRESS]]
  have "\<forall>(p, j) \<in> set (pid_table st @ [(pid, i)]). p \<in> set (children w) \<and> j < length ?ms
      \<and> status (?ms ! j) = SERVICE_MAPPING_IN_PROGRESS \<and> mapping_key (?ms ! j) \<in> A"
    using tr(3) forked(2) assms(5,9) by (fastforce simp: nth_list_update)
  moreover have "wf_os w" using wf_os_fork [OF assms(2) _ assms(3)] assms(1) by (simp add: tracked_def)
  moreover have "available_cores t' + busy ?ms tn' \<le> cap tn'"
    if "map_of (g_hash_table_insert tn (take_core t) (targets st)) tn' = Some t'" for tn' t'
    using that assms unfolding tracked_def
    by (auto simp: busy_update take_core_def split: if_splits)
  ultimately show ?thesis
    using same tr(1,2) fresh idle assms(9) by (simp add: tracked_def set_status_def upd)
qed

lemma tracked_finish:
  assumes "tracked cap A st" and "kernel_ok K" and "sys_wait K (world st) = ((pid, ws), w)"
    and "map_of (pid_table st) pid = Some i"
  shows "s \<noteq> SERVICE_MAPPING_IN_PROGRESS \<Longrightarrow> target (unified st ! i) = Some tn \<Longrightarrow>
      map_of (targets st) tn = Some t \<Longrightarrow>
      tracked cap A (st\<lparr>world := w, pid_table := AList.delete pid (pid_table st),
        unified := (unified st)[i := (unified st ! i)\<lparr>status := s\<rparr>],
        targets := g_hash_table_insert tn (signal_available_target_core t) (targets st)\<rparr>)"
    and "i < length (unified st)" and "status (unified st ! i) = SERVICE_MAPPING_IN_PROGRESS"
    and "mapping_key (unified st ! i) \<in> A"
proof -
  let ?ms = "(unified st)[i := (unified st ! i)\<lparr>status := s\<rparr>]"
  have tr: "distinct (map fst (pid_table st))" "distinct (map snd (pid_table st))"
    "\<And>p j. (p, j) \<in> set (pid_table st) \<Longrightarrow> p \<in> set (children (world st)) \<and> j < length (unified st)
        \<and> status (unified st ! j) = SERVICE_MAPPING_IN_PROGRESS \<and> mapping_key (unified st ! j) \<in> A"
    using assms(1) by (auto simp: tracked_def)
  have mem: "(pid, i) \<in> set (pid_table st)" using assms(4) by (rule map_of_SomeD)
  with tr(3) show run: "i < length (unified st)" "status (unified st ! i) = SERVICE_MAPPING_IN_PROGRESS"
    "mapping_key (unified st ! i) \<in> A" by auto
  have keep: "p \<in> set (children w)" if "p \<in> set (children (world st))" "p \<noteq> pid" for p
    using assms(2,3) that by (auto elim: sys_wait_cases)
  have other: "j \<noteq> i" if "(p, j) \<in> set (pid_table st)" "p \<noteq> pid" for p j
    using that mem tr(2) by (metis distinct_map inj_on_eq_iff prod.inject snd_conv)
  have "\<forall>(p, j) \<in> set (AList.delete pid (pid_table st)). p \<in> set (children w) \<and> j < length ?ms
      \<and> status (?ms ! j) = SERVICE_MAPPING_IN_PROGRESS \<and> mapping_key (?ms ! j) \<in> A"
    using tr(3) keep other by (fastforce simp: set_alist_delete)
  moreover have "wf_os w" using wf_os_wait [OF assms(2) _ assms(3)] assms(1) by (simp add: tracked_def)
  moreover assume tn: "s \<noteq> SERVICE_MAPPING_IN_PROGRESS" "target (unified st ! i) = Some tn"
    "map_of (targets st) tn = Some t"
  have "available_cores t' + busy ?ms tn' \<le> cap tn'"
    if "map_of (g_hash_table_insert tn (signal_available_target_core t) (targets st)) tn' = Some t'" for tn' t'
    using that assms(1) tn run unfolding tracked_def
    by (auto simp: busy_update signal_available_target_core_def split: if_splits)
  ultimately show "tracked cap A (st\<lparr>world := w, pid_table := AList.delete pid (pid_table st), unified := ?ms,
      targets := g_hash_table_insert tn (signal_available_target_core t) (targets st)\<rparr>)"
    using tracked_same [OF assms(1) same_mappings_update [of _ i s]] tr(1,2)
    by (simp add: tracked_def alist_delete_fst alist_delete_snd)
qed

section \<open>The operations take steps\<close>

definition safe_visit :: "services_table \<Rightarrow> (string \<Rightarrow> int) \<Rightarrow> key set \<Rightarrow> phase \<Rightarrow> visit \<Rightarrow> bool" where
  "safe_visit services cap A ph visit \<longleftrightarrow> (\<forall>key st r st'. tracked cap A st \<longrightarrow> scoped services A ph (unified st) \<longrightarrow>
     (mapping_key key \<in> keys_of (unified st) \<longrightarrow> mapping_key key \<in> A) \<longrightarrow> visit key st = Inr (r, st') \<longrightarrow>
     phase_steps services cap A ph (unified st) (unified st') \<and> tracked cap A st'
     \<and> (r = SERVICE_DONE \<longrightarrow> (\<exists>i. find_service_mapping (unified st) key = Some i
          \<and> status (unified st' ! i) = goal ph)))"

lemma safe_visitD:
  assumes "safe_visit services cap A ph visit" and "tracked cap A st" and "scoped services A ph (unified st)"
    and "mapping_key key \<in> keys_of (unified st) \<longrightarrow> mapping_key key \<in> A" and "visit key st = Inr (r, st')"
  shows "phase_steps services cap A ph (unified st) (unified st')" and "tracked cap A st'"
    and "r = SERVICE_DONE \<Longrightarrow> \<exists>i. find_service_mapping (unified st) key = Some i
      \<and> status (unified st' ! i) = goal ph"
  using assms unfolding safe_visit_def by blast+


lemma attempt_result:
  assumes "attempt_to_map_service_mapping services f i tgt st = Inr (r, st')"
  obtains (wait) "r = SERVICE_WAIT" "st' = st" "available_cores tgt \<le> 0"
  | (failed) tn and p :: MappingParameters and w where "0 < available_cores tgt" "target (unified st ! i) = Some tn"
      "f (unified st ! i) (params_service p) (take_core tgt) (params_type p) (params_arguments p)
        (params_arguments_size p) (world st) = Inr (-1, w)"
      "r = SERVICE_ERROR"
      "st' = st\<lparr>targets := g_hash_table_insert tn (take_core tgt) (targets st), world := w\<rparr>"
  | (started) tn and p :: MappingParameters and pid w where "0 < available_cores tgt" "target (unified st ! i) = Some tn"
      "f (unified st ! i) (params_service p) (take_core tgt) (params_type p) (params_arguments p)
        (params_arguments_size p) (world st) = Inr (pid, w)" "pid \<noteq> -1"
      "r = SERVICE_IN_PROGRESS"
      "st' = (set_status i SERVICE_MAPPING_IN_PROGRESS st)
        \<lparr>targets := g_hash_table_insert tn (take_core tgt) (targets st), world := w,
         pid_table := AList.update pid i (pid_table st)\<rparr>"
proof (cases "0 < available_cores tgt")
  case False
  with assms wait show ?thesis
    by (auto simp: attempt_to_map_service_mapping_def request_available_target_core_def)
next
  case True
  let ?T = "\<lambda>tn. g_hash_table_insert tn (take_core tgt) (targets st)"
  from assms True obtain tn where tn: "target (unified st ! i) = Some tn"
    by (auto simp: attempt_to_map_service_mapping_def request_available_target_core_def Let_def
        result_simps)
  with assms True obtain p where p: "create_mapping_parameters (service (unified st ! i))
      (container (unified st ! i)) (Some tn) (container_provided_by_service (unified st ! i)) services
      (take_core tgt) = Inr p"
    by (auto simp: attempt_to_map_service_mapping_def request_available_target_core_def Let_def
        take_core_def bindr_eq_Inr)
  with assms True tn obtain pid w where f: "f (unified st ! i) (params_service p) (take_core tgt)
      (params_type p) (params_arguments p) (params_arguments_size p) (world st) = Inr (pid, w)"
    by (auto simp: attempt_to_map_service_mapping_def request_available_target_core_def Let_def
        take_core_def bindr_eq_Inr)
  show ?thesis
  proof (cases "pid = -1")
    case fail: True
    with assms True tn p f have "r = SERVICE_ERROR" "st' = st\<lparr>targets := ?T tn, world := w\<rparr>"
      by (simp_all add: attempt_to_map_service_mapping_def request_available_target_core_def Let_def
          take_core_def)
    with failed True tn f fail show ?thesis by blast
  next
    case ok: False
    with assms True tn p f have "r = SERVICE_IN_PROGRESS"
      "st' = (set_status i SERVICE_MAPPING_IN_PROGRESS st)
        \<lparr>targets := ?T tn, world := w, pid_table := AList.update pid i (pid_table st)\<rparr>"
      by (auto simp: attempt_to_map_service_mapping_def request_available_target_core_def Let_def
          take_core_def set_status_def)
    with started True tn f ok show ?thesis by blast
  qed
qed

lemma attempt_safe:
  assumes "attempt_to_map_service_mapping services f i tgt st = Inr (r, st')"
    and "kernel_ok K" and "spawns K f" and "tracked cap A st" and "i < length (unified st)"
    and "status (unified st ! i) = origin ph" and "ready services ph (unified st) (unified st ! i)"
    and "g_hash_table_lookup (targets st) (target (unified st ! i)) = Inr (Some tgt)"
    and "mapping_key (unified st ! i) \<in> A"
  shows "phase_steps services cap A ph (unified st) (unified st') \<and> tracked cap A st' \<and> r \<noteq> SERVICE_DONE"
  using assms(1)
proof (cases rule: attempt_result)
  case wait
  with assms(4) show ?thesis by simp
next
  case (failed tn p w)
  with assms(3) obtain c where fork: "sys_fork K c (world st) = (-1, w)"
    unfolding spawns_def by blast
  have "wf_os w" using wf_os_fork [OF assms(2) _ fork] assms(4) by (simp add: tracked_def)
  moreover have "children w = children (world st)" using assms(2) fork by (auto elim: sys_fork_cases)
  moreover have "available_cores t' + busy (unified st) tn' \<le> cap tn'"
    if "map_of (g_hash_table_insert tn (take_core tgt) (targets st)) tn' = Some t'" for tn' t'
    using that assms(4,8) failed(2) by (force simp: tracked_def take_core_def split: if_splits)
  ultimately show ?thesis using failed assms(4) by (simp add: tracked_def)
next
  case (started tn p pid w)
  with assms(3) obtain c where fork: "sys_fork K c (world st) = (pid, w)"
    unfolding spawns_def by blast
  have "status (unified st ! i) \<noteq> SERVICE_MAPPING_IN_PROGRESS" using assms(6) by simp
  have lookup: "map_of (targets st) tn = Some tgt" using assms(8) started(2) by simp
  note tr = tracked_start [OF assms(4) assms(2) fork started(4) assms(5)
    \<open>status (unified st ! i) \<noteq> SERVICE_MAPPING_IN_PROGRESS\<close> started(2) lookup assms(9)]
  have "available_cores tgt + busy (unified st) tn \<le> cap tn"
    using assms(4) lookup by (simp add: tracked_def)
  then have "phase_step services cap A ph (unified st)
      ((unified st)[i := (unified st ! i)\<lparr>status := SERVICE_MAPPING_IN_PROGRESS\<rparr>])"
    by (intro phase_step.start [where tn = tn]) (use assms started in auto)
  with started tr show ?thesis by (auto simp: set_status_def tracked_def)
qed

lemma visit_all_safe:
  assumes "safe_visit services cap A ph visit" and "tracked cap A st" and "scoped services A ph (unified st)"
    and "\<forall>d \<in> set ds. mapping_key d \<in> keys_of (unified st) \<longrightarrow> mapping_key d \<in> A"
    and "visit_all visit ds st = Inr (r, st')"
  shows "phase_steps services cap A ph (unified st) (unified st') \<and> tracked cap A st'
    \<and> (r = SERVICE_DONE \<longrightarrow> (\<forall>d \<in> set ds. \<exists>i. find_service_mapping (unified st) d = Some i
          \<and> status (unified st' ! i) = goal ph))"
  using assms(2-)
proof (induction ds arbitrary: st)
  case (Cons d ds)
  from Cons.prems(4) obtain r1 st1 where v: "visit d st = Inr (r1, st1)"
    and rest: "if r1 \<noteq> SERVICE_DONE then r = r1 \<and> st' = st1 else visit_all visit ds st1 = Inr (r, st')"
    by (auto simp: result_simps split: if_splits)
  have "mapping_key d \<in> keys_of (unified st) \<longrightarrow> mapping_key d \<in> A" using Cons.prems(3) by simp
  note 1 = safe_visitD [OF assms(1) Cons.prems(1,2) this v]
  note same = phase_steps_same [OF 1(1)]
  have keys: "\<forall>d \<in> set ds. mapping_key d \<in> keys_of (unified st1) \<longrightarrow> mapping_key d \<in> A"
    using Cons.prems(3) same_mappings_keys_of [OF same] by simp
  show ?case
  proof (cases "r1 = SERVICE_DONE")
    case False
    with rest 1(1,2) show ?thesis by auto
  next
    case True
    with rest have "visit_all visit ds st1 = Inr (r, st')" by simp
    note 2 = Cons.IH [OF 1(2) scoped_same [OF Cons.prems(2) same] keys this]
    from 1(3) [OF True] obtain i where
      "find_service_mapping (unified st) d = Some i" "status (unified st1 ! i) = goal ph" by blast
    moreover from this 2 have "status (unified st' ! i) = goal ph"
      using phase_steps_goal_stable by blast
    moreover have "find_service_mapping (unified st) e = find_service_mapping (unified st1) e" for e :: InterDependencyMapping
      by (rule same_mappings_find [OF phase_steps_same [OF 1(1)]])
    ultimately show ?thesis using 1(1) 2 by auto
  qed
qed simp

lemma keys_match:
  assumes "sorted_mappings ms" and "distinct_mappings ms"
    and "find_service_mapping ms d = Some i" and "x \<in> set ms'" and "mapping_key x = mapping_key d"
    and "same_mappings ms ms'"
  shows "x = ms' ! i"
proof -
  from find_service_mapping_SomeD [OF assms(3)]
  have i: "i < length ms" "mapping_key (ms ! i) = mapping_key d" by auto
  from assms(4) obtain j where j: "j < length ms'" "ms' ! j = x" by (auto simp: in_set_conv_nth)
  have len: "length ms = length ms'" using same_mappings_length [OF assms(6)] .
  have "map mapping_key ms ! j = map mapping_key ms ! i"
    using i j len assms(5) same_mappings_keys [OF assms(6)] by (metis nth_map)
  then have "j = i"
    using nth_eq_iff_index_eq [OF assms(2), of j i] i(1) j(1) len by (simp del: nth_map)
  with j show ?thesis by simp
qed

lemma traverse_inter_dependency_mappings_safe:
  assumes "kernel_ok K" and "spawns K f"
  shows "safe_visit services cap A Activation (traverse_inter_dependency_mappings services f fuel)"
proof (induction fuel)
  case 0
  show ?case by (simp add: safe_visit_def)
next
  case (Suc fuel)
  show ?case unfolding safe_visit_def
  proof (intro allI impI)
    fix key :: InterDependencyMapping and st r st'
    assume tr: "tracked cap A st" and sc: "scoped services A Activation (unified st)"
      and inA: "mapping_key key \<in> keys_of (unified st) \<longrightarrow> mapping_key key \<in> A"
      and res: "traverse_inter_dependency_mappings services f (Suc fuel) key st = Inr (r, st')"
    let ?deps = "\<lambda>svc. case depends_on svc of None \<Rightarrow> [] | Some ds \<Rightarrow> ds"
    from res obtain i sn svc r1 st1 where
      i: "find_service_mapping (unified st) key = Some i"
      and svc: "service (unified st ! i) = Some sn" "map_of services sn = Some svc"
      and va: "visit_all (traverse_inter_dependency_mappings services f fuel) (?deps svc) st = Inr (r1, st1)"
      and rest: "if r1 \<noteq> SERVICE_DONE then r = r1 \<and> st' = st1
        else (case status (unified st1 ! i) of
            SERVICE_MAPPING_DEACTIVATED \<Rightarrow> bindr (g_hash_table_lookup (targets st1) (target (unified st1 ! i)))
              (\<lambda>tgt. (case tgt of None \<Rightarrow> Inr (SERVICE_ERROR, st1)
                 | Some t \<Rightarrow> attempt_to_map_service_mapping services f i t st1)) = Inr (r, st')
          | SERVICE_MAPPING_ACTIVATED \<Rightarrow> r = SERVICE_DONE \<and> st' = st1
          | SERVICE_MAPPING_IN_PROGRESS \<Rightarrow> r = SERVICE_IN_PROGRESS \<and> st' = st1
          | SERVICE_MAPPING_ERROR \<Rightarrow> r = SERVICE_ERROR \<and> st' = st1)"
      by (auto simp: result_simps split: if_splits option.splits ServiceMappingStatus.splits)
    from find_service_mapping_SomeD [OF i] have il: "i < length (unified st)"
      and ki: "mapping_key (unified st ! i) = mapping_key key" by auto
    with inA have iA: "mapping_key (unified st ! i) \<in> A" by (metis imageI nth_mem)
    have scope: "mapping_key d \<in> A" if d: "d \<in> set (?deps svc)" "mapping_key d \<in> keys_of (unified st)" for d
    proof -
      from d(2) obtain y where y: "y \<in> set (unified st)" "mapping_key d = mapping_key y" by auto
      with svc d(1) have "precedes services Activation y (unified st ! i)"
        by (cases "depends_on svc") (auto simp: required_def intro: image_eqI [of _ _ d])
      with sc y iA nth_mem [OF il] show ?thesis unfolding scoped_def by metis
    qed
    note 1 = visit_all_safe [OF Suc.IH tr sc _ va]
    from 1 scope have steps: "phase_steps services cap A Activation (unified st) (unified st1)" and tr1: "tracked cap A st1"
      by auto
    note same = phase_steps_same [OF steps]
    have iA1: "mapping_key (unified st1 ! i) \<in> A"
      using iA erase_status_eqD(1) [OF same_mappings_nth [OF same il]] by simp
    have il1: "i < length (unified st1)" using il same_mappings_length [OF same] by simp
    show "phase_steps services cap A Activation (unified st) (unified st') \<and> tracked cap A st'
      \<and> (r = SERVICE_DONE \<longrightarrow> (\<exists>i. find_service_mapping (unified st) key = Some i
          \<and> status (unified st' ! i) = goal Activation))"
    proof (cases "r1 = SERVICE_DONE")
      case False
      with rest steps tr1 show ?thesis by auto
    next
      case True
      show ?thesis
      proof (cases "status (unified st1 ! i)")
        case SERVICE_MAPPING_DEACTIVATED
        have "ready services Activation (unified st1) (unified st1 ! i)"
          unfolding ready_def
        proof (intro ballI impI)
          fix x assume x: "x \<in> set (unified st1)" and "precedes services Activation x (unified st1 ! i)"
          then have "mapping_key x \<in> required services (unified st ! i)"
            using erase_status_eqD(2) [OF same_mappings_nth [OF same il]] by simp
          then obtain d where d: "d \<in> set (?deps svc)" "mapping_key x = mapping_key d"
            using svc by (auto simp: required_def split: option.splits)
          with 1 scope True obtain j where "find_service_mapping (unified st) d = Some j"
            "status (unified st1 ! j) = goal Activation" by blast
          with keys_match [OF _ _ this(1) x d(2) same] tr show "status x = goal Activation"
            by (simp add: tracked_def)
        qed
        from rest True SERVICE_MAPPING_DEACTIVATED
        consider "r = SERVICE_ERROR" "st' = st1"
          | t where "attempt_to_map_service_mapping services f i t st1 = Inr (r, st')"
              "g_hash_table_lookup (targets st1) (target (unified st1 ! i)) = Inr (Some t)"
          by (auto simp: result_simps split: option.splits)
        then show ?thesis
        proof cases
          case 1
          with steps tr1 show ?thesis by simp
        next
          case (2 t)
          have "status (unified st1 ! i) = origin Activation" using SERVICE_MAPPING_DEACTIVATED by simp
          from attempt_safe [OF 2(1) assms tr1 il1 this \<open>ready _ _ _ _\<close> 2(2) iA1] steps show ?thesis by auto
        qed
      qed (use rest True steps tr1 i in auto)
    qed
  qed
qed

lemma mapping_key_truncate [simp]: "mapping_key (as_dependency m) = mapping_key m"
  by (simp add: mapping_key_def InterDependencyMapping.truncate_def)

lemma find_interdependent_members:
  assumes "sorted_services services"
    and "find_interdependent_service_mappings services ms m = Inr xs"
  shows "set xs = {x \<in> set ms. mapping_key m \<in> required services x}"
  using assms(2)
proof (induction ms arbitrary: xs)
  case (Cons x ms)
  from Cons.prems obtain sn svc ds ys where
    x: "service x = Some sn" "map_of services sn = Some svc" "depends_on svc = Some ds"
    and ys: "find_interdependent_service_mappings services ms m = Inr ys"
    and xs: "xs = (if find_interdependency_mapping ds m \<noteq> None then x # ys else ys)"
    by (auto simp: result_simps)
  have "sorted_mappings ds" using assms(1) x unfolding sorted_services_def by blast
  then have "find_interdependency_mapping ds m \<noteq> None \<longleftrightarrow> mapping_key m \<in> required services x"
    using x by (simp add: find_interdependency_mapping_None_iff required_def del: not_None_eq)
  with Cons.IH [OF ys] xs show ?case by auto
qed simp

lemma traverse_interdependent_mappings_safe:
  assumes "kernel_ok K" and "spawns K f" and "sorted_services services"
  shows "safe_visit services cap A Deactivation (traverse_interdependent_mappings services f fuel)"
proof (induction fuel)
  case 0
  show ?case by (simp add: safe_visit_def)
next
  case (Suc fuel)
  show ?case unfolding safe_visit_def
  proof (intro allI impI)
    fix key :: InterDependencyMapping and st r st'
    assume tr: "tracked cap A st" and sc: "scoped services A Deactivation (unified st)"
      and inA: "mapping_key key \<in> keys_of (unified st) \<longrightarrow> mapping_key key \<in> A"
      and res: "traverse_interdependent_mappings services f (Suc fuel) key st = Inr (r, st')"
    from res obtain i xs r1 st1 where
      i: "find_service_mapping (unified st) key = Some i"
      and xs: "find_interdependent_service_mappings services (unified st) (unified st ! i) = Inr xs"
      and va: "visit_all (traverse_interdependent_mappings services f fuel) (map as_dependency xs) st = Inr (r1, st1)"
      by (auto simp: bindr_eq_Inr deref_eq_Inr)
    have rest: "if r1 \<noteq> SERVICE_DONE then r = r1 \<and> st' = st1
        else (case status (unified st1 ! i) of
            SERVICE_MAPPING_ACTIVATED \<Rightarrow>
              (r = SERVICE_DONE \<and> st' = set_status i SERVICE_MAPPING_DEACTIVATED st1)
              \<or> (\<exists>t. attempt_to_map_service_mapping services f i t st1 = Inr (r, st')
                  \<and> g_hash_table_lookup (targets st1) (target (unified st1 ! i)) = Inr (Some t))
          | SERVICE_MAPPING_DEACTIVATED \<Rightarrow> r = SERVICE_DONE \<and> st' = st1
          | SERVICE_MAPPING_IN_PROGRESS \<Rightarrow> r = SERVICE_IN_PROGRESS \<and> st' = st1
          | SERVICE_MAPPING_ERROR \<Rightarrow> r = SERVICE_ERROR \<and> st' = st1)"
      using res i xs va
      by (auto simp: result_simps split: if_splits option.splits ServiceMappingStatus.splits)
    from find_service_mapping_SomeD [OF i] have il: "i < length (unified st)"
      and ki: "mapping_key (unified st ! i) = mapping_key key" by auto
    with inA have iA: "mapping_key (unified st ! i) \<in> A" by (metis imageI nth_mem)
    have scope: "\<forall>d \<in> set (map as_dependency xs). mapping_key d \<in> keys_of (unified st) \<longrightarrow> mapping_key d \<in> A"
    proof (intro ballI impI)
      fix d assume "d \<in> set (map as_dependency xs)"
      then obtain x where x: "x \<in> set xs" "d = as_dependency x" by auto
      then have "x \<in> set (unified st)" "precedes services Deactivation x (unified st ! i)"
        using find_interdependent_members [OF assms(3) xs] by auto
      with sc iA nth_mem [OF il] x show "mapping_key d \<in> A" unfolding scoped_def by (metis mapping_key_truncate)
    qed
    note 1 = visit_all_safe [OF Suc.IH tr sc scope va]
    from 1 have steps: "phase_steps services cap A Deactivation (unified st) (unified st1)" and tr1: "tracked cap A st1"
      by auto
    note same = phase_steps_same [OF steps]
    have iA1: "mapping_key (unified st1 ! i) \<in> A"
      using iA erase_status_eqD(1) [OF same_mappings_nth [OF same il]] by simp
    have il1: "i < length (unified st1)" using il same_mappings_length [OF same] by simp
    show "phase_steps services cap A Deactivation (unified st) (unified st') \<and> tracked cap A st'
      \<and> (r = SERVICE_DONE \<longrightarrow> (\<exists>i. find_service_mapping (unified st) key = Some i
          \<and> status (unified st' ! i) = goal Deactivation))"
    proof (cases "r1 = SERVICE_DONE")
      case False
      with rest steps tr1 show ?thesis by auto
    next
      case True
      show ?thesis
      proof (cases "status (unified st1 ! i)")
        case SERVICE_MAPPING_ACTIVATED
        then have orig: "status (unified st1 ! i) = origin Deactivation" by simp
        have rdy: "ready services Deactivation (unified st1) (unified st1 ! i)"
          unfolding ready_def
        proof (intro ballI impI)
          fix x assume x: "x \<in> set (unified st1)" and pre: "precedes services Deactivation x (unified st1 ! i)"
          obtain y where y: "y \<in> set (unified st)" "erase_status y = erase_status x"
            using required_same [OF same x] .
          with pre have "mapping_key (unified st ! i) \<in> required services y"
            using erase_status_eqD(1) [OF same_mappings_nth [OF same il]] erase_status_eqD(2) [OF y(2)] by simp
          with y(1) have "y \<in> set xs" using find_interdependent_members [OF assms(3) xs] by simp
          with 1 True obtain j where j: "find_service_mapping (unified st) (as_dependency y) = Some j"
            "status (unified st1 ! j) = goal Deactivation" by auto
          have "mapping_key x = mapping_key (as_dependency y)" using erase_status_eqD(1) [OF y(2)] by simp
          with keys_match [OF _ _ j(1) x _ same] j(2) tr show "status x = goal Deactivation"
            by (simp add: tracked_def)
        qed
        from rest True SERVICE_MAPPING_ACTIVATED
        consider "r = SERVICE_DONE" "st' = set_status i SERVICE_MAPPING_DEACTIVATED st1"
          | t where "attempt_to_map_service_mapping services f i t st1 = Inr (r, st')"
              "g_hash_table_lookup (targets st1) (target (unified st1 ! i)) = Inr (Some t)"
          by auto
        then show ?thesis
        proof cases
          case 1
          have step: "phase_step services cap A Deactivation (unified st1) (unified st')"
            using phase_step.skip [OF refl il1 iA1 orig rdy] 1(2) by (simp add: set_status_def)
          have idle: "(p, j) \<in> set (pid_table st1) \<Longrightarrow> j \<noteq> i" for p j
            using tr1 SERVICE_MAPPING_ACTIVATED by (auto simp: tracked_def)
          have "tracked cap A st'"
            using tr1 idle tracked_same [OF tr1 same_mappings_update [of _ i SERVICE_MAPPING_DEACTIVATED]] 1(2)
              il1 SERVICE_MAPPING_ACTIVATED
            by (fastforce simp: tracked_def set_status_def nth_list_update busy_update)
          with steps step i il1 1 show ?thesis by (auto simp: set_status_def)
        next
          case (2 t)
          from attempt_safe [OF 2(1) assms(1,2) tr1 il1 orig rdy 2(2) iA1] steps show ?thesis by auto
        qed
      qed (use rest True steps tr1 i in auto)
    qed
  qed
qed

lemma wait_safe:
  assumes "wait_for_service_mapping_to_complete K services complete st = Inr st'"
    and "kernel_ok K" and "completes ph complete" and "tracked cap A st"
  shows "phase_steps services cap A ph (unified st) (unified st') \<and> tracked cap A st'"
proof -
  obtain pid ws w where w: "sys_wait K (world st) = ((pid, ws), w)" by (metis surj_pair)
  show ?thesis
  proof (cases "0 < pid")
    case False
    have "wf_os w" using wf_os_wait [OF assms(2) _ w] assms(4) by (simp add: tracked_def)
    moreover have "children w = children (world st)"
      using assms(2) w False by (auto elim: sys_wait_cases)
    moreover have "st' = st\<lparr>world := w\<rparr>"
      using assms(1) w False by (simp add: wait_for_service_mapping_to_complete_def)
    ultimately show ?thesis using assms(4) by (simp add: tracked_def)
  next
    case True
    obtain outcome r where rt: "procreact_retrieve_boolean pid ws = (outcome, r)" by fastforce
    define s where "s = (if succeeded (outcome, r) then goal ph else SERVICE_MAPPING_ERROR)"
    from assms(1) w True rt obtain i where i: "map_of (pid_table st) pid = Some i"
      by (auto simp: wait_for_service_mapping_to_complete_def Let_def bindr_eq_Inr deref_eq_Inr)
    with assms(1,3) w True rt obtain tn t where
      tn: "target (unified st ! i) = Some tn" "map_of (targets st) tn = Some t"
      and st': "st' = st\<lparr>world := w, pid_table := AList.delete pid (pid_table st),
        unified := (unified st)[i := (unified st ! i)\<lparr>status := s\<rparr>],
        targets := g_hash_table_insert tn (signal_available_target_core t) (targets st)\<rparr>"
      by (auto simp: wait_for_service_mapping_to_complete_def Let_def result_simps completes_def s_def)
    note fin = tracked_finish [OF assms(4,2) w i]
    have "phase_step services cap A ph (unified st) (unified st')"
      using phase_step.finish [OF fin(2,4,3), of s ph services cap] st' by (simp add: s_def)
    moreover have "tracked cap A st'" using fin(1) [OF _ tn, of s] st' by (simp add: s_def)
    ultimately show ?thesis by blast
  qed
qed

end
