(* ===== verification/Traverse_Correct.thy ===== *)
theory Traverse_Correct
  imports Traverse_Safety
begin

text \<open>
  The main loop \<open>traverse_service_mappings\<close>, over any strategy that meets the contract of the
  two strategies of the code: its steps respect the order and the cores, and when it reports
  success every mapping it was given has reached its goal.
\<close>

section \<open>One round\<close>

lemma traverse_round_safe:
  assumes visit: "safe_visit services cap A ph visit"
    and wait: "\<And>st st'. wait_one st = Inr st' \<Longrightarrow> tracked cap A st \<Longrightarrow>
      phase_steps services cap A ph (unified st) (unified st') \<and> tracked cap A st'"
    and "tracked cap A st" and "scoped services A ph (unified st)"
    and "\<forall>m \<in> set ms. mapping_key m \<in> keys_of (unified st) \<longrightarrow> mapping_key m \<in> A"
    and "traverse_round visit wait_one ms n s st = Inr (n', s', st')"
  shows "phase_steps services cap A ph (unified st) (unified st') \<and> tracked cap A st'
    \<and> n' \<le> n + length ms \<and> (s' \<longrightarrow> s)
    \<and> (n' = n + length ms \<longrightarrow> s' \<longrightarrow> (\<forall>m \<in> set ms. \<exists>i. find_service_mapping (unified st) (as_dependency m) = Some i
          \<and> status (unified st' ! i) = goal ph))"
  using assms(3-)
proof (induction ms arbitrary: n s st)
  case (Cons m ms)
  from Cons.prems(4) obtain r st1 st2 where v: "visit (as_dependency m) st = Inr (r, st1)"
    and w: "wait_one st1 = Inr st2"
    and rest: "traverse_round visit wait_one ms (if r = SERVICE_ERROR \<or> r = SERVICE_DONE then n + 1 else n)
      (s \<and> r \<noteq> SERVICE_ERROR) st2 = Inr (n', s', st')"
    by (auto simp: bindr_eq_Inr split: if_splits)
  have "mapping_key (as_dependency m) \<in> keys_of (unified st) \<longrightarrow> mapping_key (as_dependency m) \<in> A"
    using Cons.prems(3) by simp
  note 1 = safe_visitD [OF visit Cons.prems(1,2) this v]
  note 2 = wait [OF w 1(2)]
  then have tr2: "tracked cap A st2" by blast
  have steps12: "phase_steps services cap A ph (unified st) (unified st2)" using 1(1) 2 by auto
  note same = phase_steps_same [OF steps12]
  have "\<forall>m \<in> set ms. mapping_key m \<in> keys_of (unified st2) \<longrightarrow> mapping_key m \<in> A"
    using Cons.prems(3) same_mappings_keys_of [OF same] by simp
  note 3 = Cons.IH [OF tr2 scoped_same [OF Cons.prems(2) same] this rest]
  have found: "find_service_mapping (unified st) e = find_service_mapping (unified st2) e" for e :: InterDependencyMapping
    by (rule same_mappings_find [OF phase_steps_same [OF steps12]])
  have first: "\<exists>i. find_service_mapping (unified st) (as_dependency m) = Some i \<and> status (unified st' ! i) = goal ph"
    if "n' = n + length (m # ms)" "s'"
  proof -
    have "r = SERVICE_DONE" using that 3 by (auto split: if_splits)
    from 1(3) [OF this] obtain i where "find_service_mapping (unified st) (as_dependency m) = Some i"
      "status (unified st1 ! i) = goal ph" by blast
    moreover from this 2 3 have "status (unified st' ! i) = goal ph"
      using phase_steps_goal_stable by blast
    ultimately show ?thesis by blast
  qed
  have tail: "\<forall>x \<in> set ms. \<exists>i. find_service_mapping (unified st) (as_dependency x) = Some i
      \<and> status (unified st' ! i) = goal ph" if "n' = n + length (m # ms)" "s'"
    using that 3 unfolding found by (auto split: if_splits)
  from 3 steps12 first tail show ?case by (auto split: if_splits)
qed simp

lemma traverse_rounds_safe:
  assumes visit: "safe_visit services cap A ph visit"
    and wait: "\<And>st st'. wait_one st = Inr st' \<Longrightarrow> tracked cap A st \<Longrightarrow>
      phase_steps services cap A ph (unified st) (unified st') \<and> tracked cap A st'"
    and "tracked cap A st" and "scoped services A ph (unified st)"
    and "\<forall>m \<in> set ms. mapping_key m \<in> keys_of (unified st) \<longrightarrow> mapping_key m \<in> A"
    and "traverse_rounds rounds visit wait_one ms s st = Inr (s', st')"
  shows "phase_steps services cap A ph (unified st) (unified st') \<and> tracked cap A st'
    \<and> (s' \<longrightarrow> (\<forall>m \<in> set ms. \<exists>i. find_service_mapping (unified st) (as_dependency m) = Some i
          \<and> status (unified st' ! i) = goal ph))"
  using assms(3-)
proof (induction rounds arbitrary: s st)
  case (Suc rounds)
  from Suc.prems(4) obtain n1 s1 st1 where r: "traverse_round visit wait_one ms 0 s st = Inr (n1, s1, st1)"
    and rest: "if n1 < length ms then traverse_rounds rounds visit wait_one ms s1 st1 = Inr (s', st')
      else s' = s1 \<and> st' = st1"
    by (auto simp: bindr_eq_Inr split: if_splits)
  note 1 = traverse_round_safe [OF visit wait Suc.prems(1-3) r]
  then have tr1: "tracked cap A st1" and same: "same_mappings (unified st) (unified st1)"
    using phase_steps_same by auto
  have keys: "\<forall>m \<in> set ms. mapping_key m \<in> keys_of (unified st1) \<longrightarrow> mapping_key m \<in> A"
    using Suc.prems(3) same_mappings_keys_of [OF same] by simp
  show ?case
  proof (cases "n1 < length ms")
    case True
    with rest have "traverse_rounds rounds visit wait_one ms s1 st1 = Inr (s', st')" by simp
    note 2 = Suc.IH [OF tr1 scoped_same [OF Suc.prems(2) same] keys this]
    have "find_service_mapping (unified st) e = find_service_mapping (unified st1) e" for e :: InterDependencyMapping
      by (rule same_mappings_find [OF same])
    with 1 2 show ?thesis by (auto intro: rtranclp_trans)
  next
    case False
    with 1 rest show ?thesis by auto
  qed
qed simp

section \<open>The contract of a strategy\<close>

locale iterate_strategy =
  fixes ph :: phase and strategy :: "services_table \<Rightarrow> service_mapping_function \<Rightarrow> nat \<Rightarrow> visit"
  assumes strategy_safe: "kernel_ok K \<Longrightarrow> spawns K f \<Longrightarrow> sorted_services services \<Longrightarrow>
    safe_visit services cap A ph (strategy services f fuel)"
begin

lemma traverse_safe:
  assumes "kernel_ok K" and "spawns K f" and "completes ph complete" and "sorted_services services"
    and "tracked cap A (st\<lparr>pid_table := []\<rparr>)" and "scoped services A ph (unified st)"
    and "\<forall>m \<in> set ms. mapping_key m \<in> keys_of (unified st) \<longrightarrow> mapping_key m \<in> A"
    and "traverse_service_mappings K rounds services (strategy services f fuel) complete ms st = Inr (success, st')"
  shows "phase_steps services cap A ph (unified st) (unified st') \<and> tracked cap A st'
    \<and> (success \<longrightarrow> (\<forall>m \<in> set ms. \<exists>i. find_service_mapping (unified st) (as_dependency m) = Some i
          \<and> status (unified st' ! i) = goal ph))"
  using traverse_rounds_safe [OF strategy_safe [OF assms(1,2,4)] wait_safe [OF _ assms(1,3)] assms(5)]
    assms(6-) unfolding traverse_service_mappings_def by simp

lemma traverse_keeps_order:
  assumes "kernel_ok K" and "spawns K f" and "completes ph complete" and "sorted_services services"
    and "tracked cap A (st\<lparr>pid_table := []\<rparr>)" and "scoped services A ph (unified st)"
    and "\<forall>m \<in> set ms. mapping_key m \<in> keys_of (unified st) \<longrightarrow> mapping_key m \<in> A"
    and "traverse_service_mappings K rounds services (strategy services f fuel) complete ms st = Inr (success, st')"
    and "in_order services (unified st)"
  shows "in_order services (unified st')"
  using traverse_safe [OF assms(1-8)] phase_steps_in_order assms(9) by blast

end

interpretation activation: iterate_strategy Activation traverse_inter_dependency_mappings
  by unfold_locales (rule traverse_inter_dependency_mappings_safe)

interpretation deactivation: iterate_strategy Deactivation traverse_interdependent_mappings
  by unfold_locales (rule traverse_interdependent_mappings_safe)

end
