(* ===== verification/Procreact_Iterator.thy ===== *)
theory Procreact_Iterator
  imports Disnix_OS
begin

text \<open>
  The PID iterator of \<open>libprocreact/procreact_pid_iterator.c\<close>: it runs one process per
  element of a collection, all in parallel or at most \<open>limit\<close> at a time, and hands every
  outcome to a callback. What the callbacks owe the iterator is the locale
  \<open>pid_iteration\<close>; the iterators of the manifest, infrastructure and profile libraries
  interpret it.
\<close>

section \<open>The iterator\<close>

record 'd ProcReact_PidIterator =
  has_next :: "'d \<Rightarrow> bool"
  next_pid :: "'d \<Rightarrow> os \<Rightarrow> (int \<times> 'd \<times> os) result"
  retrieve :: ProcReact_RetrieveResult
  complete :: "'d \<Rightarrow> int \<Rightarrow> ProcReact_Status \<Rightarrow> int \<Rightarrow> 'd result"
  data :: 'd
  running_processes :: nat

definition procreact_initialize_pid_iterator ::
  "('d \<Rightarrow> bool) \<Rightarrow> ('d \<Rightarrow> os \<Rightarrow> (int \<times> 'd \<times> os) result) \<Rightarrow> ProcReact_RetrieveResult
    \<Rightarrow> ('d \<Rightarrow> int \<Rightarrow> ProcReact_Status \<Rightarrow> int \<Rightarrow> 'd result) \<Rightarrow> 'd \<Rightarrow> 'd ProcReact_PidIterator" where
  "procreact_initialize_pid_iterator hn nx rt cp d =
     \<lparr>has_next = hn, next_pid = nx, retrieve = rt, complete = cp, data = d, running_processes = 0\<rparr>"

definition procreact_spawn_next_pid ::
  "'d ProcReact_PidIterator \<Rightarrow> os \<Rightarrow> (bool \<times> 'd ProcReact_PidIterator \<times> os) result" where
  "procreact_spawn_next_pid it w =
     (if has_next it (data it)
      then bindr (next_pid it (data it) w) (\<lambda>(pid, d, w').
        if pid = -1
        then bindr (complete it d pid PROCREACT_STATUS_FORK_FAIL (-1))
               (\<lambda>d'. Inr (True, it\<lparr>data := d'\<rparr>, w'))
        else Inr (True, it\<lparr>data := d, running_processes := running_processes it + 1\<rparr>, w'))
      else Inr (False, it, w))"

definition procreact_wait_for_process_to_complete ::
  "kernel \<Rightarrow> 'd ProcReact_PidIterator \<Rightarrow> os \<Rightarrow> (bool \<times> 'd ProcReact_PidIterator \<times> os) result" where
  "procreact_wait_for_process_to_complete K it w =
     (if 0 < running_processes it
      then (case sys_wait K w of ((pid, wstatus), w') \<Rightarrow>
        (let (it', status, result) =
           (if 0 < pid
            then (it\<lparr>running_processes := running_processes it - 1\<rparr>, retrieve it pid wstatus)
            else (it, PROCREACT_STATUS_WAIT_FAIL, 1))
         in bindr (complete it' (data it') pid status result)
              (\<lambda>d. Inr (True, it'\<lparr>data := d\<rparr>, w'))))
      else Inr (False, it, w))"

text \<open>
  The loops take fuel, one unit per iteration: nothing in the code bounds them, and with
  callbacks that break their contract or a kernel that keeps failing they do not end.
\<close>

fun spawn_while :: "nat \<Rightarrow> (nat \<Rightarrow> bool) \<Rightarrow> 'd ProcReact_PidIterator \<Rightarrow> os
    \<Rightarrow> ('d ProcReact_PidIterator \<times> os) result" where
  "spawn_while 0 allowed it w = Inl Fuel_Exhausted"
| "spawn_while (Suc fuel) allowed it w =
     (if allowed (running_processes it)
      then bindr (procreact_spawn_next_pid it w)
        (\<lambda>(more, it', w'). if more then spawn_while fuel allowed it' w' else Inr (it', w'))
      else Inr (it, w))"

fun wait_while :: "kernel \<Rightarrow> nat \<Rightarrow> 'd ProcReact_PidIterator \<Rightarrow> os
    \<Rightarrow> ('d ProcReact_PidIterator \<times> os) result" where
  "wait_while K 0 it w = Inl Fuel_Exhausted"
| "wait_while K (Suc fuel) it w =
     bindr (procreact_wait_for_process_to_complete K it w)
       (\<lambda>(more, it', w'). if more then wait_while K fuel it' w' else Inr (it', w'))"

definition procreact_fork_in_parallel_and_wait ::
  "kernel \<Rightarrow> nat \<Rightarrow> 'd ProcReact_PidIterator \<Rightarrow> os \<Rightarrow> ('d ProcReact_PidIterator \<times> os) result" where
  "procreact_fork_in_parallel_and_wait K fuel it w =
     bindr (spawn_while fuel (\<lambda>n. True) it w) (\<lambda>(it', w'). wait_while K fuel it' w')"

fun limit_loop :: "kernel \<Rightarrow> nat \<Rightarrow> nat \<Rightarrow> bool \<Rightarrow> 'd ProcReact_PidIterator \<Rightarrow> os
    \<Rightarrow> ('d ProcReact_PidIterator \<times> os) result" where
  "limit_loop K 0 limit has_running it w = Inl Fuel_Exhausted"
| "limit_loop K (Suc fuel) limit has_running it w =
     (if has_running \<or> has_next it (data it)
      then bindr (spawn_while (Suc fuel) (\<lambda>n. n < limit) it w) (\<lambda>(it', w').
           bindr (procreact_wait_for_process_to_complete K it' w') (\<lambda>(running, it'', w'').
             limit_loop K fuel limit running it'' w''))
      else Inr (it, w))"

definition procreact_fork_and_wait_in_parallel_limit ::
  "kernel \<Rightarrow> nat \<Rightarrow> 'd ProcReact_PidIterator \<Rightarrow> nat \<Rightarrow> os \<Rightarrow> ('d ProcReact_PidIterator \<times> os) result" where
  "procreact_fork_and_wait_in_parallel_limit K fuel it limit w = limit_loop K fuel limit False it w"

section \<open>Reading a trace\<close>

text \<open>
  \<open>spawned\<close>: the processes started, in the order of their start. \<open>all_succeeded\<close>: every
  process reaped exited with 0. \<open>peak\<close>: the largest number of processes that ran at the
  same time.
\<close>

fun spawned :: "event list \<Rightarrow> child list" where
  "spawned [] = []"
| "spawned (Forked pid c # t) = spawned t @ [c]"
| "spawned (Fork_Failed c # t) = spawned t"
| "spawned (Reaped pid ws # t) = spawned t"
| "spawned (Wait_Failed # t) = spawned t"

fun all_succeeded :: "event list \<Rightarrow> bool" where
  "all_succeeded [] = True"
| "all_succeeded (Forked pid c # t) = all_succeeded t"
| "all_succeeded (Fork_Failed c # t) = False"
| "all_succeeded (Reaped pid ws # t) = (ws = Exited 0 \<and> all_succeeded t)"
| "all_succeeded (Wait_Failed # t) = False"

fun active :: "event list \<Rightarrow> nat" where
  "active [] = 0"
| "active (Forked pid c # t) = Suc (active t)"
| "active (Fork_Failed c # t) = active t"
| "active (Reaped pid ws # t) = active t - 1"
| "active (Wait_Failed # t) = active t"

fun peak :: "event list \<Rightarrow> nat" where
  "peak [] = 0"
| "peak (e # t) = max (active (e # t)) (peak t)"

lemma spawned_append: "spawned (t @ t') = spawned t' @ spawned t"
  by (induction t rule: spawned.induct) auto

lemma all_succeeded_append [simp]: "all_succeeded (t @ t') \<longleftrightarrow> all_succeeded t \<and> all_succeeded t'"
  by (induction t rule: all_succeeded.induct) auto

lemma length_removeAll_distinct:
  "distinct xs \<Longrightarrow> x \<in> set xs \<Longrightarrow> Suc (length (removeAll x xs)) = length xs"
  by (induction xs) auto

section \<open>The contract of the callbacks\<close>

text \<open>
  \<open>todo d\<close> is what remains to be started, in order; \<open>inv d P new\<close> says that \<open>d\<close> knows the
  running processes \<open>P\<close> after the events \<open>new\<close>; \<open>ok d\<close> is the outcome so far. A callback that starts a process
  forks the first child of \<open>todo\<close> and registers its pid; a callback that completes a
  registered process returns and keeps the outcome only if the process succeeded. Nothing
  is promised for a failed fork.
\<close>

locale pid_iteration =
  fixes hn :: "'d \<Rightarrow> bool"
    and nx :: "kernel \<Rightarrow> 'd \<Rightarrow> os \<Rightarrow> (int \<times> 'd \<times> os) result"
    and cp :: "'d \<Rightarrow> int \<Rightarrow> ProcReact_Status \<Rightarrow> int \<Rightarrow> 'd result"
    and todo :: "'d \<Rightarrow> child list"
    and inv :: "'d \<Rightarrow> int set \<Rightarrow> event list \<Rightarrow> bool"
    and ok :: "'d \<Rightarrow> bool"
  assumes has_next_law: "inv d P new \<Longrightarrow> hn d \<longleftrightarrow> todo d \<noteq> []"
    and next_law: "inv d P new \<Longrightarrow> todo d = c # cs \<Longrightarrow> sys_fork K c w = (pid, w') \<Longrightarrow> 0 < pid
      \<Longrightarrow> pid \<notin> P \<Longrightarrow> \<exists>d'. nx K d w = Inr (pid, d', w') \<and> todo d' = cs
        \<and> inv d' (insert pid P) (Forked pid c # new) \<and> (ok d' \<longleftrightarrow> ok d)"
    and complete_law: "inv d P new \<Longrightarrow> pid \<in> P \<Longrightarrow> procreact_retrieve_boolean pid ws = (outcome, result)
      \<Longrightarrow> succeeded (outcome, result) = (ws = Exited 0) \<Longrightarrow> \<exists>d'. cp d pid outcome result = Inr d' \<and> todo d' = todo d
        \<and> inv d' (P - {pid}) (Reaped pid ws # new) \<and> (ok d' \<longleftrightarrow> ok d \<and> ws = Exited 0)"
begin

definition iterates :: "kernel \<Rightarrow> 'd ProcReact_PidIterator \<Rightarrow> os \<Rightarrow> bool" where
  "iterates K it w \<longleftrightarrow>
     has_next it = hn \<and> next_pid it = nx K \<and> complete it = cp
     \<and> retrieve it = procreact_retrieve_boolean
     \<and> wf_os w \<and> running_processes it = length (children w)"

text \<open>
  Since the start, in a state with trace \<open>t0\<close> and outcome \<open>ok0\<close> and children \<open>cs0\<close> to start:
  what was started and what is left make up \<open>cs0\<close>, the outcome is that of the processes
  reaped so far, and at most \<open>lim\<close> processes ran at a time.
\<close>

definition since :: "event list \<Rightarrow> bool \<Rightarrow> child list \<Rightarrow> nat option
    \<Rightarrow> 'd ProcReact_PidIterator \<Rightarrow> os \<Rightarrow> bool" where
  "since t0 ok0 cs0 lim it w \<longleftrightarrow>
     (\<exists>new. trace w = new @ t0 \<and> inv (data it) (set (children w)) new
        \<and> spawned new @ todo (data it) = cs0
        \<and> (ok (data it) \<longleftrightarrow> ok0 \<and> all_succeeded new)
        \<and> active new = length (children w) \<and> (\<forall>l. lim = Some l \<longrightarrow> peak new \<le> l))"

lemma since_start:
  "children w = [] \<Longrightarrow> inv (data it) {} [] \<Longrightarrow> since (trace w) (ok (data it)) (todo (data it)) lim it w"
  unfolding since_def by (intro exI [of _ "[]"]) simp

lemma since_has_next: "since t0 ok0 cs0 lim it w \<Longrightarrow> hn (data it) \<longleftrightarrow> todo (data it) \<noteq> []"
  using has_next_law by (auto simp: since_def)

lemma spawn_step:
  assumes "kernel_live K" and "iterates K it w" and "todo (data it) = c # cs"
    and "\<forall>l. lim = Some l \<longrightarrow> running_processes it < l" and "since t0 ok0 cs0 lim it w"
  shows "\<exists>it' w'. procreact_spawn_next_pid it w = Inr (True, it', w') \<and> iterates K it' w'
    \<and> todo (data it') = cs \<and> length (children w') = Suc (length (children w))
    \<and> since t0 ok0 cs0 lim it' w'"
proof -
  from assms(5) obtain new where new: "trace w = new @ t0" "inv (data it) (set (children w)) new"
    "spawned new @ todo (data it) = cs0" "ok (data it) \<longleftrightarrow> ok0 \<and> all_succeeded new"
    "active new = length (children w)" "\<forall>l. lim = Some l \<longrightarrow> peak new \<le> l" unfolding since_def by blast
  obtain pid w' where f: "sys_fork K c w = (pid, w')" by fastforce
  note live = sys_fork_live [OF assms(1) f]
  from next_law [OF new(2) assms(3) f] live obtain d' where
    n: "nx K (data it) w = Inr (pid, d', w')" "todo d' = cs"
      "inv d' (insert pid (set (children w))) (Forked pid c # new)" "ok d' \<longleftrightarrow> ok (data it)" by blast
  let ?it = "it\<lparr>data := d', running_processes := running_processes it + 1\<rparr>"
  have "procreact_spawn_next_pid it w = Inr (True, ?it, w')"
    using assms(2,3) since_has_next [OF assms(5)] n live
    by (simp add: procreact_spawn_next_pid_def iterates_def)
  moreover have "iterates K ?it w'"
    using assms(2) n live wf_os_fork [OF kernel_live_ok [OF assms(1)] _ f]
    by (simp add: iterates_def)
  moreover have "since t0 ok0 cs0 lim ?it w'"
    unfolding since_def by (intro exI [of _ "Forked pid c # new"])
      (use new n live assms(2-4) in \<open>auto simp: iterates_def\<close>)
  ultimately show ?thesis using live n by auto
qed

lemma spawn_done:
  assumes "iterates K it w" and "todo (data it) = []" and "since t0 ok0 cs0 lim it w"
  shows "procreact_spawn_next_pid it w = Inr (False, it, w)"
  using assms since_has_next [OF assms(3)] by (simp add: procreact_spawn_next_pid_def iterates_def)

lemma wait_step:
  assumes "kernel_live K" and "iterates K it w" and "children w \<noteq> []" and "since t0 ok0 cs0 lim it w"
  shows "\<exists>it' w'. procreact_wait_for_process_to_complete K it w = Inr (True, it', w')
    \<and> iterates K it' w' \<and> todo (data it') = todo (data it)
    \<and> Suc (length (children w')) = length (children w) \<and> since t0 ok0 cs0 lim it' w'"
proof -
  from assms(4) obtain new where new: "trace w = new @ t0" "inv (data it) (set (children w)) new"
    "spawned new @ todo (data it) = cs0" "ok (data it) \<longleftrightarrow> ok0 \<and> all_succeeded new"
    "active new = length (children w)" "\<forall>l. lim = Some l \<longrightarrow> peak new \<le> l" unfolding since_def by blast
  obtain pid ws w' where s: "sys_wait K w = ((pid, ws), w')" by (metis surj_pair)
  from assms(2) have wf: "wf_os w" and run: "0 < running_processes it" using assms(3) by (simp_all add: iterates_def)
  note live = sys_wait_live [OF assms(1) wf assms(3) s]
  have len: "Suc (length (children w')) = length (children w)"
    using live wf length_removeAll_distinct [of "children w" pid] by (simp add: wf_os_def)
  obtain st r where rt: "procreact_retrieve_boolean pid ws = (st, r)" by fastforce
  have good: "succeeded (st, r) \<longleftrightarrow> ws = Exited 0"
    using succeeded_retrieve_boolean [of pid ws] live by (simp add: rt)
  from complete_law [OF new(2) _ rt good] live obtain d' where
    c: "cp (data it) pid st r = Inr d'" "todo d' = todo (data it)"
      "inv d' (set (children w) - {pid}) (Reaped pid ws # new)" "ok d' \<longleftrightarrow> ok (data it) \<and> ws = Exited 0" by blast
  let ?it = "it\<lparr>running_processes := running_processes it - 1, data := d'\<rparr>"
  have "procreact_wait_for_process_to_complete K it w = Inr (True, ?it, w')"
    using assms(2) run s live rt c
    by (simp add: procreact_wait_for_process_to_complete_def iterates_def)
  moreover have "iterates K ?it w'"
    using assms(2) c live len wf_os_wait [OF kernel_live_ok [OF assms(1)] wf s]
    by (auto simp: iterates_def)
  moreover have "peak (Reaped pid ws # new) = peak new" by (cases new) auto
  then have "since t0 ok0 cs0 lim ?it w'"
    unfolding since_def by (intro exI [of _ "Reaped pid ws # new"]) (use new c live len in auto)
  ultimately show ?thesis using c len by auto
qed

lemma wait_done:
  assumes "iterates K it w" and "children w = []"
  shows "procreact_wait_for_process_to_complete K it w = Inr (False, it, w)"
  using assms by (simp add: procreact_wait_for_process_to_complete_def iterates_def)

lemma spawn_while_all:
  assumes "kernel_live K" and "iterates K it w" and "length (todo (data it)) < fuel"
    and "since t0 ok0 cs0 None it w"
  shows "\<exists>it' w'. spawn_while fuel (\<lambda>n. True) it w = Inr (it', w') \<and> iterates K it' w'
    \<and> todo (data it') = [] \<and> length (children w') = length (children w) + length (todo (data it))
    \<and> since t0 ok0 cs0 None it' w'"
  using assms
proof (induction fuel arbitrary: it w)
  case (Suc fuel)
  show ?case
  proof (cases "todo (data it)")
    case Nil
    with Suc.prems spawn_done show ?thesis by simp
  next
    case (Cons c cs)
    from spawn_step [OF Suc.prems(1,2) Cons _ Suc.prems(4)] obtain it' w' where
      st: "procreact_spawn_next_pid it w = Inr (True, it', w')" "iterates K it' w'"
        "todo (data it') = cs" "length (children w') = Suc (length (children w))"
        "since t0 ok0 cs0 None it' w'" using Suc.prems(4) by auto
    from Suc.IH [OF Suc.prems(1) st(2) _ st(5)] st Suc.prems(3) Cons
    show ?thesis by auto
  qed
qed simp

lemma wait_while_all:
  assumes "kernel_live K" and "iterates K it w" and "length (children w) < fuel"
    and "since t0 ok0 cs0 lim it w"
  shows "\<exists>it' w'. wait_while K fuel it w = Inr (it', w') \<and> iterates K it' w'
    \<and> children w' = [] \<and> todo (data it') = todo (data it) \<and> since t0 ok0 cs0 lim it' w'"
  using assms
proof (induction fuel arbitrary: it w)
  case (Suc fuel)
  show ?case
  proof (cases "children w = []")
    case True
    with Suc.prems show ?thesis by (simp add: wait_done)
  next
    case False
    from wait_step [OF Suc.prems(1,2) False Suc.prems(4)] obtain it' w' where
      st: "procreact_wait_for_process_to_complete K it w = Inr (True, it', w')" "iterates K it' w'"
        "todo (data it') = todo (data it)" "Suc (length (children w')) = length (children w)"
        "since t0 ok0 cs0 lim it' w'" using Suc.prems(4) by auto
    from Suc.IH [OF Suc.prems(1) st(2) _ st(5)] st Suc.prems(3)
    show ?thesis by auto
  qed
qed simp

lemma spawn_while_limit:
  assumes "kernel_live K" and "iterates K it w" and "length (todo (data it)) < fuel"
    and "since t0 ok0 cs0 (Some l) it w" and "length (children w) \<le> l"
  shows "\<exists>it' w'. spawn_while fuel (\<lambda>n. n < l) it w = Inr (it', w') \<and> iterates K it' w'
    \<and> length (children w') \<le> l \<and> (todo (data it') = [] \<or> length (children w') = l)
    \<and> length (children w') + length (todo (data it')) = length (children w) + length (todo (data it))
    \<and> since t0 ok0 cs0 (Some l) it' w'"
  using assms
proof (induction fuel arbitrary: it w)
  case (Suc fuel)
  have run: "running_processes it = length (children w)" using Suc.prems(2) by (simp add: iterates_def)
  consider (full) "length (children w) = l"
    | (none) "length (children w) < l" "todo (data it) = []"
    | (more) c cs where "length (children w) < l" "todo (data it) = c # cs"
    using Suc.prems(5) by (cases "todo (data it)") force+
  then show ?case
  proof cases
    case full
    with Suc.prems run show ?thesis by simp
  next
    case none
    with Suc.prems run spawn_done show ?thesis by simp
  next
    case more
    with run have room: "\<forall>k. Some l = Some k \<longrightarrow> running_processes it < k" by simp
    from spawn_step [OF Suc.prems(1,2) more(2) room Suc.prems(4)] obtain it' w' where
      st: "procreact_spawn_next_pid it w = Inr (True, it', w')" "iterates K it' w'"
        "todo (data it') = cs" "length (children w') = Suc (length (children w))"
        "since t0 ok0 cs0 (Some l) it' w'" using Suc.prems(4) by auto
    from Suc.IH [OF Suc.prems(1) st(2) _ st(5)] st Suc.prems(3) more run
    show ?thesis by auto
  qed
qed simp

lemma limit_loop_all:
  assumes "kernel_live K" and "iterates K it w" and "0 < l"
    and "length (children w) + length (todo (data it)) + 1 < fuel"
    and "since t0 ok0 cs0 (Some l) it w" and "length (children w) \<le> l"
    and "children w \<noteq> [] \<Longrightarrow> running"
  shows "\<exists>it' w'. limit_loop K fuel l running it w = Inr (it', w') \<and> iterates K it' w'
    \<and> children w' = [] \<and> todo (data it') = [] \<and> since t0 ok0 cs0 (Some l) it' w'"
  using assms
proof (induction fuel arbitrary: it w running)
  case (Suc fuel)
  have hn: "has_next it (data it) \<longleftrightarrow> todo (data it) \<noteq> []"
    using Suc.prems(2) since_has_next [OF Suc.prems(5)] by (simp add: iterates_def)
  show ?case
  proof (cases "running \<or> todo (data it) \<noteq> []")
    case False
    with Suc.prems hn show ?thesis by auto
  next
    case True
    have "length (todo (data it)) < Suc fuel" using Suc.prems(4) by simp
    from spawn_while_limit [OF Suc.prems(1,2) this Suc.prems(5,6)] obtain it' w' where
      sp: "spawn_while (Suc fuel) (\<lambda>n. n < l) it w = Inr (it', w')" "iterates K it' w'"
        "length (children w') \<le> l" "todo (data it') = [] \<or> length (children w') = l"
        "length (children w') + length (todo (data it')) = length (children w) + length (todo (data it))"
        "since t0 ok0 cs0 (Some l) it' w'" by blast
    have start: "limit_loop K (Suc fuel) l running it w =
      bindr (procreact_wait_for_process_to_complete K it' w')
        (\<lambda>(more, it'', w''). limit_loop K fuel l more it'' w'')"
      using True hn sp(1) by simp
    show ?thesis
    proof (cases "children w' = []")
      case False
      from wait_step [OF Suc.prems(1) sp(2) False sp(6)] obtain it'' w'' where
        wt: "procreact_wait_for_process_to_complete K it' w' = Inr (True, it'', w'')"
          "iterates K it'' w''" "todo (data it'') = todo (data it')"
          "Suc (length (children w'')) = length (children w')"
          "since t0 ok0 cs0 (Some l) it'' w''" using sp(6) by auto
      from Suc.IH [OF Suc.prems(1) wt(2) \<open>0 < l\<close> _ wt(5)] start wt sp Suc.prems(4)
      show ?thesis by auto
    next
      case empty: True
      with sp(4) \<open>0 < l\<close> have none: "todo (data it') = []" by auto
      have "\<exists>n. fuel = Suc n" using Suc.prems(4) by (cases fuel) auto
      moreover have "\<not> has_next it' (data it')"
        using sp(2) none since_has_next [OF sp(6)] by (simp add: iterates_def)
      ultimately have "limit_loop K fuel l False it' w' = Inr (it', w')" by auto
      with start wait_done [OF sp(2) empty] sp empty none show ?thesis by auto
    qed
  qed
qed simp

text \<open>
  The two entry points, started with a fresh iterator and no other child: they return,
  having started every child in order and reaped it, and the outcome is kept exactly if all
  processes succeeded.
\<close>

lemma fork_in_parallel_total:
  assumes "kernel_live K" and "iterates K it w" and "children w = []" and "inv (data it) {} []"
    and "length (todo (data it)) < fuel"
  shows "\<exists>it' w' new. procreact_fork_in_parallel_and_wait K fuel it w = Inr (it', w')
    \<and> children w' = [] \<and> wf_os w' \<and> trace w' = new @ trace w \<and> spawned new = todo (data it)
    \<and> inv (data it') {} new \<and> (ok (data it') \<longleftrightarrow> ok (data it) \<and> all_succeeded new)"
proof -
  note start = since_start [OF assms(3,4), where lim = None]
  from spawn_while_all [OF assms(1,2,5) start] obtain it1 w1 where
    1: "spawn_while fuel (\<lambda>n. True) it w = Inr (it1, w1)" "iterates K it1 w1"
      "todo (data it1) = []" "length (children w1) = length (todo (data it))"
      "since (trace w) (ok (data it)) (todo (data it)) None it1 w1" using assms(3) by auto
  have "length (children w1) < fuel" using 1(4) assms(5) by simp
  from wait_while_all [OF assms(1) 1(2) this 1(5)] obtain it2 w2 where
    2: "wait_while K fuel it1 w1 = Inr (it2, w2)" "children w2 = []" "todo (data it2) = []" "iterates K it2 w2"
      "since (trace w) (ok (data it)) (todo (data it)) None it2 w2" using 1(3) by auto
  with 1(1) show ?thesis
    by (auto simp: procreact_fork_in_parallel_and_wait_def since_def iterates_def)
qed

lemma fork_limit_total:
  assumes "kernel_live K" and "iterates K it w" and "children w = []" and "inv (data it) {} []" and "0 < l"
    and "length (todo (data it)) + 1 < fuel"
  shows "\<exists>it' w' new. procreact_fork_and_wait_in_parallel_limit K fuel it l w = Inr (it', w')
    \<and> children w' = [] \<and> wf_os w' \<and> trace w' = new @ trace w \<and> spawned new = todo (data it)
    \<and> inv (data it') {} new \<and> (ok (data it') \<longleftrightarrow> ok (data it) \<and> all_succeeded new) \<and> peak new \<le> l"
proof -
  note start = since_start [OF assms(3,4), where lim = "Some l"]
  have f: "length (children w) + length (todo (data it)) + 1 < fuel" using assms(3,6) by simp
  have le: "length (children w) \<le> l" using assms(3) by simp
  from limit_loop_all [OF assms(1,2,5) f start le, of False] assms(3) obtain it' w' where
    "limit_loop K fuel l False it w = Inr (it', w')" "children w' = []" "todo (data it') = []" "iterates K it' w'"
    "since (trace w) (ok (data it)) (todo (data it)) (Some l) it' w'" by auto
  then show ?thesis
    by (auto simp: procreact_fork_and_wait_in_parallel_limit_def since_def iterates_def)
qed

lemma initialized_iterates:
  assumes "wf_os w" and "children w = []"
  shows "iterates K (procreact_initialize_pid_iterator hn (nx K) procreact_retrieve_boolean cp d) w"
  using assms by (simp add: iterates_def procreact_initialize_pid_iterator_def)

end

section \<open>A limit of zero\<close>

text \<open>
  With a limit of 0 nothing is ever started, so the loop does not end while there is an
  element left.
\<close>

lemma limit_zero_loops:
  assumes "has_next it (data it)" and "running_processes it = 0"
  shows "procreact_fork_and_wait_in_parallel_limit K fuel it 0 w = Inl Fuel_Exhausted"
proof -
  have "limit_loop K n 0 running it w = Inl Fuel_Exhausted" for n running
    using assms by (induction n arbitrary: running)
      (simp_all add: procreact_wait_for_process_to_complete_def)
  then show ?thesis by (simp add: procreact_fork_and_wait_in_parallel_limit_def)
qed

end
