(* ===== verification/Traverse_Liveness.thy ===== *)
theory Traverse_Liveness
  imports Traverse_Correct Procreact_Iterator
begin

text \<open>
  Termination of the traversal. On a kernel whose forks succeed and whose waits are not
  interrupted, with an acyclic dependency graph over mappings that resolve and machines that
  have a core, the recursion needs no more depth than the graph has and every unfinished
  round gets a mapping further, so the loop ends. The same argument shows that the loop
  runs one process at a time: every visit starts at most one and is followed by a wait.
\<close>

section \<open>What the traversal needs\<close>

text \<open>The callback returns for a mapping and its machine: the parameters can be created.\<close>

definition responds :: "services_table \<Rightarrow> service_mapping_function \<Rightarrow> ServiceMapping \<Rightarrow> Target \<Rightarrow> bool" where
  "responds services f m t \<longleftrightarrow>
     (\<exists>p :: MappingParameters. create_mapping_parameters (service m) (container m) (target m)
          (container_provided_by_service m) services t = Inr p
      \<and> (\<forall>w. \<exists>r. f m (params_service p) t (params_type p) (params_arguments p) (params_arguments_size p) w = Inr r))"

text \<open>
  Every mapping names a service of the table whose dependencies are mappings as well, and the
  graph is acyclic: \<open>rank\<close> grows along the order of the phase.
\<close>

definition workable ::
  "services_table \<Rightarrow> service_mapping_function \<Rightarrow> (cstr \<times> cstr \<times> cstr \<Rightarrow> nat) \<Rightarrow> phase
    \<Rightarrow> ServiceMapping list \<Rightarrow> Target hashtable \<Rightarrow> bool" where
  "workable services f rank ph ms ts \<longleftrightarrow>
     (\<forall>m \<in> set ms. \<exists>sn svc ds tn. service m = Some sn \<and> map_of services sn = Some svc
        \<and> depends_on svc = Some ds \<and> keys_of ds \<subseteq> keys_of ms \<and> target m = Some tn
        \<and> (\<forall>t s n. map_of ts tn = Some t \<longrightarrow> responds services f (m\<lparr>status := s\<rparr>) (t\<lparr>available_cores := n\<rparr>)))
     \<and> (\<forall>x \<in> set ms. \<forall>y \<in> set ms. precedes services ph x y \<longrightarrow> rank (mapping_key x) < rank (mapping_key y))"

definition live ::
  "services_table \<Rightarrow> service_mapping_function \<Rightarrow> (cstr \<times> cstr \<times> cstr \<Rightarrow> nat) \<Rightarrow> phase
    \<Rightarrow> (string \<Rightarrow> int) \<Rightarrow> key set \<Rightarrow> traverse_state \<Rightarrow> bool" where
  "live services f rank ph cap A st \<longleftrightarrow> tracked cap A st \<and> scoped services A ph (unified st)
     \<and> workable services f rank ph (unified st) (targets st)
     \<and> (\<forall>tn t. map_of (targets st) tn = Some t \<longrightarrow>
          available_cores t + busy (unified st) tn = cap tn \<and> 1 \<le> cap tn)
     \<and> (\<forall>i < length (unified st). status (unified st ! i) = SERVICE_MAPPING_IN_PROGRESS
          \<longrightarrow> i \<in> snd ` set (pid_table st))
     \<and> (\<forall>(pid, i) \<in> set (pid_table st). \<exists>tn. target (unified st ! i) = Some tn \<and> map_of (targets st) tn \<noteq> None)
     \<and> set (children (world st)) \<subseteq> fst ` set (pid_table st)"

lemma liveI:
  assumes "tracked cap A st" and "scoped services A ph (unified st)" and "workable services f rank ph (unified st) (targets st)"
    and "\<And>tn t. map_of (targets st) tn = Some t \<Longrightarrow>
          available_cores t + busy (unified st) tn = cap tn \<and> 1 \<le> cap tn"
    and "\<And>i. i < length (unified st) \<Longrightarrow> status (unified st ! i) = SERVICE_MAPPING_IN_PROGRESS
          \<Longrightarrow> i \<in> snd ` set (pid_table st)"
    and "\<And>p i. (p, i) \<in> set (pid_table st) \<Longrightarrow>
          \<exists>tn. target (unified st ! i) = Some tn \<and> map_of (targets st) tn \<noteq> None"
    and "set (children (world st)) \<subseteq> fst ` set (pid_table st)"
  shows "live services f rank ph cap A st"
  unfolding live_def using assms by (intro conjI allI impI ballI) (simp_all, fastforce+)

lemma live_scoped: "live services f rank ph cap A st \<Longrightarrow> scoped services A ph (unified st)"
  by (simp add: live_def)

text \<open>No mapping failed, and the machines to activate the services in scope on are present.\<close>

definition error_free :: "key set \<Rightarrow> phase \<Rightarrow> traverse_state \<Rightarrow> bool" where
  "error_free A ph st \<longleftrightarrow> (\<forall>m \<in> set (unified st). status m \<noteq> SERVICE_MAPPING_ERROR
     \<and> (ph = Activation \<longrightarrow> mapping_key m \<in> A \<longrightarrow>
          (\<exists>tn. target m = Some tn \<and> map_of (targets st) tn \<noteq> None)))"

lemma error_free_update:
  assumes "error_free A ph st" and "i < length (unified st)" and "s \<noteq> SERVICE_MAPPING_ERROR"
    and "unified st' = (unified st)[i := (unified st ! i)\<lparr>status := s\<rparr>]"
    and "\<And>tn. map_of (targets st) tn \<noteq> None \<Longrightarrow> map_of (targets st') tn \<noteq> None"
  shows "error_free A ph st'"
  unfolding error_free_def
proof
  fix m assume "m \<in> set (unified st')"
  then have "m = (unified st ! i)\<lparr>status := s\<rparr> \<or> m \<in> set (unified st)"
    using set_update_subset_insert assms(4) by fastforce
  then obtain m' where "m' \<in> set (unified st)" "target m' = target m" "mapping_key m' = mapping_key m" "status m = s \<or> m = m'"
    using nth_mem [OF assms(2)] by (cases "m \<in> set (unified st)") auto
  with assms(1,3,5) show "status m \<noteq> SERVICE_MAPPING_ERROR
     \<and> (ph = Activation \<longrightarrow> mapping_key m \<in> A \<longrightarrow>
          (\<exists>tn. target m = Some tn \<and> map_of (targets st') tn \<noteq> None))"
    unfolding error_free_def by metis
qed

text \<open>The work left: two for a mapping to start, one for a mapping in progress.\<close>

fun work :: "phase \<Rightarrow> ServiceMappingStatus \<Rightarrow> nat" where
  "work ph s = (if s = origin ph then 2 else if s = SERVICE_MAPPING_IN_PROGRESS then 1 else 0)"

definition pending :: "phase \<Rightarrow> ServiceMapping list \<Rightarrow> nat" where
  "pending ph ms = sum_list (map (\<lambda>m. work ph (status m)) ms)"

lemma pending_le: "pending ph ms \<le> 2 * length ms"
  by (induction ms) (auto simp: pending_def)

lemma pending_update:
  assumes "i < length ms"
  shows "pending ph (ms[i := (ms ! i)\<lparr>status := s\<rparr>]) + work ph (status (ms ! i)) = pending ph ms + work ph s"
  using sum_list_update_nat [of i "map (\<lambda>m. work ph (status m)) ms" "work ph s"] assms
  by (simp add: pending_def map_update del: work.simps)

lemma phase_step_pending: "phase_step services cap A ph ms ms' \<Longrightarrow> pending ph ms' < pending ph ms"
proof (induction rule: phase_step.induct)
  case (start i ms tn)
  with pending_update [of i ms ph SERVICE_MAPPING_IN_PROGRESS] show ?case by simp
next
  case (skip i ms)
  with pending_update [of i ms ph SERVICE_MAPPING_DEACTIVATED] show ?case by simp
next
  case (finish i ms s)
  with pending_update [of i ms ph s] show ?case by auto
qed

lemma phase_steps_pending: "phase_steps services cap A ph ms ms' \<Longrightarrow> pending ph ms' \<le> pending ph ms"
  by (induction rule: rtranclp_induct) (auto dest: phase_step_pending)

section \<open>The needs are kept\<close>

lemma erase_status_restore: "erase_status a = erase_status b \<Longrightarrow> a\<lparr>status := s\<rparr> = b\<lparr>status := s\<rparr>"
proof -
  assume "erase_status a = erase_status b"
  then have "(erase_status a)\<lparr>status := s\<rparr> = (erase_status b)\<lparr>status := s\<rparr>" by simp
  then show ?thesis by (simp add: erase_status_def)
qed


lemma workable_same:
  assumes "workable services f rank ph ms ts" and same: "same_mappings ms ms'"
  shows "workable services f rank ph ms' ts"
  unfolding workable_def
proof (intro conjI ballI impI)
  fix m assume "m \<in> set ms'"
  then obtain y where y: "y \<in> set ms" "erase_status y = erase_status m" using required_same [OF same] by blast
  note eqs = erase_status_eqD [OF y(2)] and restore = erase_status_restore [OF y(2)]
  from assms(1) y(1) show "\<exists>sn svc ds tn. service m = Some sn \<and> map_of services sn = Some svc
        \<and> depends_on svc = Some ds \<and> keys_of ds \<subseteq> keys_of ms' \<and> target m = Some tn
        \<and> (\<forall>t s n. map_of ts tn = Some t \<longrightarrow> responds services f (m\<lparr>status := s\<rparr>) (t\<lparr>available_cores := n\<rparr>))"
    unfolding workable_def same_mappings_keys_of [OF same] eqs [symmetric] restore [symmetric] by blast
next
  fix x y assume "x \<in> set ms'" "y \<in> set ms'" and pre: "precedes services ph x y"
  then obtain x' y' where 1: "x' \<in> set ms" "erase_status x' = erase_status x" "y' \<in> set ms" "erase_status y' = erase_status y"
    using required_same [OF same] by metis
  with assms(1) pre show "rank (mapping_key x) < rank (mapping_key y)"
    using erase_status_precedes [OF 1(2,4)] erase_status_eqD(1) [OF 1(2)] erase_status_eqD(1) [OF 1(4)]
    unfolding workable_def by metis
qed

lemma workable_insert:
  assumes "workable services f rank ph ms ts" and "map_of ts tn = Some t"
  shows "workable services f rank ph ms (g_hash_table_insert tn (t\<lparr>available_cores := n\<rparr>) ts)"
proof -
  have step: "responds services f (m\<lparr>status := s\<rparr>) (t'\<lparr>available_cores := n'\<rparr>)"
    if "\<forall>t s n. map_of ts tn' = Some t \<longrightarrow> responds services f (m\<lparr>status := s\<rparr>) (t\<lparr>available_cores := n\<rparr>)"
      "map_of (g_hash_table_insert tn (t\<lparr>available_cores := n\<rparr>) ts) tn' = Some t'" for m tn' t' s n'
    using that assms(2) by (auto split: if_splits)
  show ?thesis unfolding workable_def
  proof (intro conjI ballI impI)
    fix m assume m: "m \<in> set ms"
    with assms(1) obtain sn svc ds tn' where 1: "service m = Some sn" "map_of services sn = Some svc"
      "depends_on svc = Some ds" "keys_of ds \<subseteq> keys_of ms" "target m = Some tn'"
      "\<forall>t s n. map_of ts tn' = Some t \<longrightarrow> responds services f (m\<lparr>status := s\<rparr>) (t\<lparr>available_cores := n\<rparr>)"
      unfolding workable_def by meson
    from step [OF 1(6)] 1(1-5) show "\<exists>sn svc ds tn'. service m = Some sn \<and> map_of services sn = Some svc
        \<and> depends_on svc = Some ds \<and> keys_of ds \<subseteq> keys_of ms \<and> target m = Some tn'
        \<and> (\<forall>t' s n'. map_of (g_hash_table_insert tn (t\<lparr>available_cores := n\<rparr>) ts) tn' = Some t'
            \<longrightarrow> responds services f (m\<lparr>status := s\<rparr>) (t'\<lparr>available_cores := n'\<rparr>))"
      by blast
  qed (use assms(1) in \<open>auto simp: workable_def\<close>)
qed

lemma workableD:
  assumes "workable services f rank ph ms ts" and "m \<in> set ms"
  obtains sn svc ds tn where "service m = Some sn" "map_of services sn = Some svc"
    "depends_on svc = Some ds" "keys_of ds \<subseteq> keys_of ms" "target m = Some tn"
    "\<forall>t s n. map_of ts tn = Some t \<longrightarrow> responds services f (m\<lparr>status := s\<rparr>) (t\<lparr>available_cores := n\<rparr>)"
  using assms unfolding workable_def by meson

lemma workable_rank:
  "workable services f rank ph ms ts \<Longrightarrow> x \<in> set ms \<Longrightarrow> y \<in> set ms \<Longrightarrow> precedes services ph x y
    \<Longrightarrow> rank (mapping_key x) < rank (mapping_key y)"
  unfolding workable_def by blast

section \<open>A wait\<close>

lemma live_no_children:
  assumes "live services f rank ph cap A st" and "children (world st) = []"
  shows "pid_table st = []" and "i < length (unified st) \<Longrightarrow> status (unified st ! i) \<noteq> SERVICE_MAPPING_IN_PROGRESS"
    and "busy (unified st) tn = 0"
proof -
  from assms have "\<forall>(p, i) \<in> set (pid_table st). p \<in> {}" by (auto simp: live_def tracked_def)
  then show pids: "pid_table st = []" by (cases "pid_table st") auto
  with assms have idle: "\<forall>i < length (unified st). status (unified st ! i) \<noteq> SERVICE_MAPPING_IN_PROGRESS"
    unfolding live_def by auto
  then show "i < length (unified st) \<Longrightarrow> status (unified st ! i) \<noteq> SERVICE_MAPPING_IN_PROGRESS" by blast
  from idle show "busy (unified st) tn = 0"
    by (auto simp: busy_def filter_empty_conv in_set_conv_nth)
qed

text \<open>What a wait does to the world: it reaps one process if there is one.\<close>

definition waits :: "os \<Rightarrow> os \<Rightarrow> bool" where
  "waits w w' \<longleftrightarrow> (if children w = [] then w' = w\<lparr>trace := Wait_Failed # trace w\<rparr>
     else \<exists>pid ws. pid \<in> set (children w)
       \<and> w' = w\<lparr>children := removeAll pid (children w), trace := Reaped pid ws # trace w\<rparr>)"

lemma take_core_restore: "map_of ts tn = Some t \<Longrightarrow> workable services f rank ph ms ts \<Longrightarrow>
  workable services f rank ph ms (g_hash_table_insert tn (take_core t) ts)"
  unfolding take_core_def by (rule workable_insert)

lemma signal_core_workable: "map_of ts tn = Some t \<Longrightarrow> workable services f rank ph ms ts \<Longrightarrow>
  workable services f rank ph ms (g_hash_table_insert tn (signal_available_target_core t) ts)"
  unfolding signal_available_target_core_def by (rule workable_insert)

lemma wait_live:
  assumes K: "kernel_live K" and "completes ph cf" and live: "live services f rank ph cap A st"
  shows "\<exists>st'. wait_for_service_mapping_to_complete K services cf st = Inr st'
    \<and> live services f rank ph cap A st' \<and> waits (world st) (world st')
    \<and> (children (world st) = [] \<longrightarrow> unified st' = unified st \<and> targets st' = targets st)
    \<and> (children (world st) \<noteq> [] \<longrightarrow> phase_step services cap A ph (unified st) (unified st'))
    \<and> ((\<forall>w. snd (k_wait K w) = Exited 0) \<longrightarrow> error_free A ph st \<longrightarrow> error_free A ph st')"
proof -
  obtain pid ws w where w: "sys_wait K (world st) = ((pid, ws), w)" by (metis surj_pair)
  have ok: "kernel_ok K" using K by (rule kernel_live_ok)
  have tr: "tracked cap A st" and wf: "wf_os (world st)" using live by (auto simp: live_def tracked_def)
  show ?thesis
  proof (cases "children (world st) = []")
    case True
    have "pid = -1 \<and> w = (world st)\<lparr>trace := Wait_Failed # trace (world st)\<rparr>"
      using ok w True by (auto elim: sys_wait_cases)
    with live w True tr wf show ?thesis
      by (auto simp: wait_for_service_mapping_to_complete_def waits_def live_def tracked_def wf_os_def error_free_def)
  next
    case False
    from sys_wait_live [OF K wf False w] have reap: "0 < pid" "pid \<in> set (children (world st))"
      "w = (world st)\<lparr>children := removeAll pid (children (world st)), trace := Reaped pid ws # trace (world st)\<rparr>"
      by auto
    obtain outcome r where rt: "procreact_retrieve_boolean pid ws = (outcome, r)" by fastforce
    define s where "s = (if succeeded (outcome, r) then goal ph else SERVICE_MAPPING_ERROR)"
    from live reap(2) have "pid \<in> fst ` set (pid_table st)" by (auto simp: live_def)
    then obtain i where i: "map_of (pid_table st) pid = Some i"
      by (metis map_of_eq_None_iff not_None_eq)
    then have mem: "(pid, i) \<in> set (pid_table st)" by (rule map_of_SomeD)
    with live obtain tn t where tn: "target (unified st ! i) = Some tn" "map_of (targets st) tn = Some t"
      by (fastforce simp: live_def)
    note fin = tracked_finish [OF tr ok w i]
    obtain sn where sn: "service (unified st ! i) = Some sn"
      using live workableD [of services f rank ph "unified st" "targets st" "unified st ! i"] fin(2)
      unfolding live_def by (metis nth_mem)
    let ?ms = "(unified st)[i := (unified st ! i)\<lparr>status := s\<rparr>]"
      and ?ts = "g_hash_table_insert tn (signal_available_target_core t) (targets st)"
    let ?st = "st\<lparr>world := w, pid_table := AList.delete pid (pid_table st), unified := ?ms, targets := ?ts\<rparr>"
    have eq: "wait_for_service_mapping_to_complete K services cf st = Inr ?st"
      using w reap(1) rt i sn tn assms(2)
      by (simp add: wait_for_service_mapping_to_complete_def completes_def s_def)
    have step: "phase_step services cap A ph (unified st) ?ms"
      by (rule phase_step.finish [OF fin(2,4,3)]) (simp add: s_def)
    have s: "s \<noteq> SERVICE_MAPPING_IN_PROGRESS" by (simp add: s_def)
    have "live services f rank ph cap A ?st"
    proof (rule liveI)
      show "tracked cap A ?st" by (rule fin(1) [OF s tn])
      show "scoped services A ph (unified ?st)"
        using scoped_same [OF live_scoped [OF live] same_mappings_update] by simp
      show "workable services f rank ph (unified ?st) (targets ?st)"
        using signal_core_workable [OF tn(2) workable_same [OF _ same_mappings_update]] live
        by (simp add: live_def)
      show "set (children (world ?st)) \<subseteq> fst ` set (pid_table ?st)"
        using live reap(3) by (force simp: live_def set_alist_delete)
    next
      fix tn' t' assume "map_of (targets ?st) tn' = Some t'"
      with live tn fin(2,3) s
      show "available_cores t' + busy (unified ?st) tn' = cap tn' \<and> 1 \<le> cap tn'"
        by (auto simp: live_def busy_update signal_available_target_core_def split: if_splits)
    next
      fix j assume j: "j < length (unified ?st)" "status (unified ?st ! j) = SERVICE_MAPPING_IN_PROGRESS"
      then have "j \<noteq> i" using s fin(2) by auto
      with j live obtain p where p: "(p, j) \<in> set (pid_table st)" by (fastforce simp: live_def)
      have "distinct (map fst (pid_table st))" using tr by (simp add: tracked_def)
      from map_of_is_SomeI [OF this p] i \<open>j \<noteq> i\<close> have "p \<noteq> pid" by (metis option.inject)
      with p show "j \<in> snd ` set (pid_table ?st)" by (force simp: set_alist_delete)
    next
      fix p j assume "(p, j) \<in> set (pid_table ?st)"
      then have "(p, j) \<in> set (pid_table st)" by (simp add: set_alist_delete)
      with live obtain tn' where tn': "target (unified st ! j) = Some tn'" "map_of (targets st) tn' \<noteq> None"
        by (fastforce simp: live_def)
      then have "target (unified ?st ! j) = Some tn'" using fin(2) by (simp add: nth_list_update)
      with tn' show "\<exists>tn. target (unified ?st ! j) = Some tn \<and> map_of (targets ?st) tn \<noteq> None" by auto
    qed
    moreover have "error_free A ph ?st" if exits: "\<forall>w. snd (k_wait K w) = Exited 0" and free: "error_free A ph st"
    proof -
      have "snd (k_wait K (world st)) = ws" using w reap(1) by (auto simp: sys_wait_def reap_def split: if_splits)
      with exits have "ws = Exited 0" by metis
      with rt reap(1) have "succeeded (outcome, r)"
        using succeeded_retrieve_boolean [of pid ws] by simp
      then have "s = goal ph" by (simp add: s_def)
      show ?thesis by (rule error_free_update [OF free fin(2), of s]) (simp_all add: \<open>s = goal ph\<close>)
    qed
    ultimately show ?thesis using eq step False reap by (auto simp: waits_def)
  qed
qed

section \<open>A visit\<close>

text \<open>What a visit does to the world: nothing, or it starts one process and says so.\<close>

definition starts :: "ServiceStatus \<Rightarrow> os \<Rightarrow> os \<Rightarrow> bool" where
  "starts r w w' \<longleftrightarrow> w' = w \<or> (r = SERVICE_IN_PROGRESS \<and> (\<exists>pid c. 0 < pid \<and> pid \<notin> set (children w)
     \<and> w' = w\<lparr>children := pid # children w, trace := Forked pid c # trace w\<rparr>))"

definition visited :: "(traverse_state \<Rightarrow> bool) \<Rightarrow> key set \<Rightarrow> phase \<Rightarrow> traverse_state \<Rightarrow> (ServiceStatus \<times> traverse_state) result \<Rightarrow> bool" where
  "visited good A ph st res \<longleftrightarrow> (\<exists>r st'. res = Inr (r, st') \<and> good st'
     \<and> starts r (world st) (world st')
     \<and> (r = SERVICE_IN_PROGRESS \<or> r = SERVICE_WAIT \<longrightarrow> children (world st') \<noteq> [])
     \<and> (error_free A ph st \<longrightarrow> r \<noteq> SERVICE_ERROR \<and> error_free A ph st'))"

lemma attempt_live:
  assumes K: "kernel_live K" and "spawns K f" and live: "live services f rank ph cap A st"
    and il: "i < length (unified st)" and orig: "status (unified st ! i) = origin ph"
    and tgt: "g_hash_table_lookup (targets st) (target (unified st ! i)) = Inr (Some t)"
    and iA: "mapping_key (unified st ! i) \<in> A"
  shows "visited (live services f rank ph cap A) A ph st (attempt_to_map_service_mapping services f i t st)"
proof -
  have ok: "kernel_ok K" using K by (rule kernel_live_ok)
  have tr: "tracked cap A st" using live by (simp add: live_def)
  obtain tn where tn: "target (unified st ! i) = Some tn" "map_of (targets st) tn = Some t"
    using tgt by (auto simp: result_simps)
  from live tn(2) have acc: "available_cores t + busy (unified st) tn = cap tn" "1 \<le> cap tn"
    by (auto simp: live_def)
  show ?thesis
  proof (cases "0 < available_cores t")
    case False
    then have "0 < busy (unified st) tn" using acc by linarith
    then obtain m where "m \<in> set (unified st)" "status m = SERVICE_MAPPING_IN_PROGRESS"
      by (auto simp: busy_def filter_empty_conv)
    then have "children (world st) \<noteq> []"
      using live_no_children(2) [OF live] by (metis in_set_conv_nth)
    with False live show ?thesis
      by (auto simp: visited_def starts_def attempt_to_map_service_mapping_def request_available_target_core_def)
  next
    case True
    have "workable services f rank ph (unified st) (targets st)" using live by (simp add: live_def)
    then obtain tn' where "target (unified st ! i) = Some tn'"
      and "\<forall>t s n. map_of (targets st) tn' = Some t \<longrightarrow>
        responds services f ((unified st ! i)\<lparr>status := s\<rparr>) (t\<lparr>available_cores := n\<rparr>)"
      using workableD [OF _ nth_mem [OF il]] by metis
    with tn have "responds services f ((unified st ! i)\<lparr>status := status (unified st ! i)\<rparr>)
        (t\<lparr>available_cores := available_cores t - 1\<rparr>)" by (metis option.inject)
    then have "responds services f (unified st ! i) (take_core t)" by (simp add: take_core_def)
    then obtain p :: MappingParameters where
      p: "create_mapping_parameters (service (unified st ! i)) (container (unified st ! i)) (Some tn)
          (container_provided_by_service (unified st ! i)) services (take_core t) = Inr p"
      and "\<forall>w. \<exists>r. f (unified st ! i) (params_service p) (take_core t) (params_type p) (params_arguments p)
          (params_arguments_size p) w = Inr r"
      unfolding responds_def tn(1) by blast
    then obtain pid w where
      f: "f (unified st ! i) (params_service p) (take_core t) (params_type p) (params_arguments p)
          (params_arguments_size p) (world st) = Inr (pid, w)"
      by (metis surj_pair)
    from f assms(2) obtain c where fork: "sys_fork K c (world st) = (pid, w)" unfolding spawns_def by blast
    from sys_fork_live [OF K fork] have pid: "0 < pid" "pid \<notin> set (children (world st))"
      "w = (world st)\<lparr>children := pid # children (world st), trace := Forked pid c # trace (world st)\<rparr>"
      by auto
    let ?st = "(set_status i SERVICE_MAPPING_IN_PROGRESS st)
      \<lparr>targets := g_hash_table_insert tn (take_core t) (targets st), world := w,
       pid_table := AList.update pid i (pid_table st)\<rparr>"
    have eq: "attempt_to_map_service_mapping services f i t st = Inr (SERVICE_IN_PROGRESS, ?st)"
      using True p f pid(1) tn(1)
      by (simp add: attempt_to_map_service_mapping_def request_available_target_core_def take_core_def
          set_status_def)
    have idle: "status (unified st ! i) \<noteq> SERVICE_MAPPING_IN_PROGRESS" using orig by simp
    have fresh: "pid \<notin> fst ` set (pid_table st)" using tr pid(2) by (auto simp: tracked_def)
    note upd = alist_update_new [OF fresh, of i]
    have "live services f rank ph cap A ?st"
    proof (rule liveI)
      show "tracked cap A ?st" using tracked_start [OF tr ok fork _ il idle tn iA] pid(1) by simp
      show "scoped services A ph (unified ?st)"
        using scoped_same [OF live_scoped [OF live] same_mappings_update] by (simp add: set_status_def)
      show "workable services f rank ph (unified ?st) (targets ?st)"
        using take_core_restore [OF tn(2) workable_same [OF _ same_mappings_update]] live
        by (simp add: live_def set_status_def)
      show "set (children (world ?st)) \<subseteq> fst ` set (pid_table ?st)"
        using live pid(3) by (auto simp: live_def upd)
    next
      fix tn' t' assume "map_of (targets ?st) tn' = Some t'"
      with live tn il idle
      show "available_cores t' + busy (unified ?st) tn' = cap tn' \<and> 1 \<le> cap tn'"
        by (auto simp: live_def busy_update take_core_def set_status_def split: if_splits)
    next
      fix j assume j: "j < length (unified ?st)" "status (unified ?st ! j) = SERVICE_MAPPING_IN_PROGRESS"
      with live show "j \<in> snd ` set (pid_table ?st)"
        by (cases "j = i") (auto simp: live_def set_status_def upd)
    next
      fix p j assume "(p, j) \<in> set (pid_table ?st)"
      then have "j = i \<or> (p, j) \<in> set (pid_table st)" by (auto simp: upd)
      with live tn obtain tn' where tn': "target (unified st ! j) = Some tn'" "map_of (targets st) tn' \<noteq> None"
        by (fastforce simp: live_def)
      then have "target (unified ?st ! j) = Some tn'" using il by (simp add: nth_list_update set_status_def)
      with tn' show "\<exists>tn. target (unified ?st ! j) = Some tn \<and> map_of (targets ?st) tn \<noteq> None" by auto
    qed
    moreover have "error_free A ph ?st" if "error_free A ph st"
      by (rule error_free_update [OF that il, of SERVICE_MAPPING_IN_PROGRESS]) (simp_all add: set_status_def)
    ultimately show ?thesis using eq pid by (auto simp: visited_def starts_def)
  qed
qed

definition live_visit ::
  "services_table \<Rightarrow> service_mapping_function \<Rightarrow> (cstr \<times> cstr \<times> cstr \<Rightarrow> nat) \<Rightarrow> phase
    \<Rightarrow> (string \<Rightarrow> int) \<Rightarrow> key set \<Rightarrow> nat \<Rightarrow> visit \<Rightarrow> bool" where
  "live_visit services f rank ph cap A bound visit \<longleftrightarrow> (\<forall>key st. live services f rank ph cap A st \<longrightarrow>
     mapping_key key \<in> keys_of (unified st) \<longrightarrow> mapping_key key \<in> A \<longrightarrow> rank (mapping_key key) < bound \<longrightarrow>
     visited (live services f rank ph cap A) A ph st (visit key st))"

lemma live_visitD:
  "live_visit services f rank ph cap A bound visit \<Longrightarrow> live services f rank ph cap A st \<Longrightarrow>
     mapping_key key \<in> keys_of (unified st) \<Longrightarrow> mapping_key key \<in> A \<Longrightarrow> rank (mapping_key key) < bound \<Longrightarrow>
     visited (live services f rank ph cap A) A ph st (visit key st)"
  by (simp add: live_visit_def)

lemma visitedI:
  "good st \<Longrightarrow> r \<noteq> SERVICE_IN_PROGRESS \<Longrightarrow> r \<noteq> SERVICE_WAIT \<Longrightarrow> (error_free A ph st \<Longrightarrow> r \<noteq> SERVICE_ERROR) \<Longrightarrow>
     visited good A ph st (Inr (r, st))"
  by (simp add: visited_def starts_def)

lemma visited_error:
  "good st \<Longrightarrow> \<not> error_free A ph st \<Longrightarrow> visited good A ph st (Inr (SERVICE_ERROR, st))"
  by (simp add: visited_def starts_def)

lemma live_tracked: "live services f rank ph cap A st \<Longrightarrow> tracked cap A st"
  by (simp add: live_def)

lemma live_workable: "live services f rank ph cap A st \<Longrightarrow> workable services f rank ph (unified st) (targets st)"
  by (simp add: live_def)

text \<open>A visit that is done has started nothing, so the next one begins in the same world.\<close>

lemma visited_then:
  assumes "visited good A ph st res" and "res = Inr (SERVICE_DONE, st1)"
    and "good st1 \<Longrightarrow> visited good A ph st1 res2"
  shows "visited good A ph st res2"
  using assms by (auto simp: visited_def starts_def)

lemma visit_all_live:
  assumes safe: "safe_visit services cap A ph visit" and visit: "live_visit services f rank ph cap A bound visit"
    and "live services f rank ph cap A st"
    and "\<forall>d \<in> set ds. mapping_key d \<in> keys_of (unified st) \<and> mapping_key d \<in> A \<and> rank (mapping_key d) < bound"
  shows "visited (live services f rank ph cap A) A ph st (visit_all visit ds st)"
  using assms(3,4)
proof (induction ds arbitrary: st)
  case Nil
  then show ?case by (simp add: visitedI)
next
  case (Cons d ds)
  then have v: "visited (live services f rank ph cap A) A ph st (visit d st)"
    by (intro live_visitD [OF visit]) auto
  then obtain r st1 where res: "visit d st = Inr (r, st1)" and l1: "live services f rank ph cap A st1"
    by (auto simp: visited_def)
  show ?case
  proof (cases "r = SERVICE_DONE")
    case False
    with v res show ?thesis by simp
  next
    case True
    have "keys_of (unified st1) = keys_of (unified st)"
      using safe_visitD(1) [OF safe live_tracked [OF Cons.prems(1)] live_scoped [OF Cons.prems(1)] _ res] Cons.prems(2)
        phase_steps_same same_mappings_keys_of by (metis list.set_intros(1))
    with Cons.prems have "visited (live services f rank ph cap A) A ph st1 (visit_all visit ds st1)"
      by (intro Cons.IH [OF l1]) simp
    with visited_then [OF v] res True show ?thesis by simp
  qed
qed

lemma find_of_key:
  assumes "tracked cap A st" and "mapping_key key \<in> keys_of (unified st)"
  obtains i where "find_service_mapping (unified st) key = Some i" "i < length (unified st)"
    "mapping_key (unified st ! i) = mapping_key key"
proof -
  have "find_service_mapping (unified st) key \<noteq> None"
    using assms find_service_mapping_None_iff [of "unified st" key] by (auto simp: tracked_def)
  then obtain i where i: "find_service_mapping (unified st) key = Some i" by blast
  with find_service_mapping_SomeD [OF i] that show ?thesis by auto
qed

lemma traverse_inter_dependency_mappings_live:
  assumes K: "kernel_live K" and f: "spawns K f"
  shows "live_visit services f rank Activation cap A fuel (traverse_inter_dependency_mappings services f fuel)"
proof (induction fuel)
  case 0
  show ?case by (simp add: live_visit_def)
next
  case (Suc fuel)
  let ?live = "live services f rank Activation cap A"
  note ok = kernel_live_ok [OF K]
  note safe = traverse_inter_dependency_mappings_safe [OF ok f]
  show ?case unfolding live_visit_def
  proof (intro allI impI)
    fix key :: InterDependencyMapping and st
    assume live: "?live st" and key: "mapping_key key \<in> keys_of (unified st)"
      and iA: "mapping_key key \<in> A" and rank: "rank (mapping_key key) < Suc fuel"
    obtain i where i: "find_service_mapping (unified st) key = Some i" "i < length (unified st)"
      "mapping_key (unified st ! i) = mapping_key key"
      using find_of_key [OF live_tracked [OF live] key] .
    note iA = iA [folded i(3)]
    obtain sn svc ds where svc: "service (unified st ! i) = Some sn" "map_of services sn = Some svc"
      "depends_on svc = Some ds" and ds: "keys_of ds \<subseteq> keys_of (unified st)"
      using workableD [OF live_workable [OF live] nth_mem [OF i(2)]] by metis
    have "rank (mapping_key d) < fuel" if "d \<in> set ds" for d
    proof -
      from ds that obtain y where y: "y \<in> set (unified st)" "mapping_key y = mapping_key d" by fastforce
      have "precedes services Activation y (unified st ! i)"
        using svc that y(2) by (simp add: required_def)
      from workable_rank [OF live_workable [OF live] y(1) nth_mem [OF i(2)] this] y(2) i(3) rank
      show ?thesis by simp
    qed
    moreover have scope: "mapping_key d \<in> A" if "d \<in> set ds" for d
    proof -
      from ds that obtain y where y: "y \<in> set (unified st)" "mapping_key y = mapping_key d" by fastforce
      have "precedes services Activation y (unified st ! i)"
        using svc that y(2) by (simp add: required_def)
      with live_scoped [OF live] y nth_mem [OF i(2)] iA show ?thesis unfolding scoped_def by metis
    qed
    ultimately have all: "\<forall>d \<in> set ds. mapping_key d \<in> keys_of (unified st) \<and> mapping_key d \<in> A
        \<and> rank (mapping_key d) < fuel" using ds by blast
    note v = visit_all_live [OF safe Suc.IH live all]
    then obtain r st1 where res: "visit_all (traverse_inter_dependency_mappings services f fuel) ds st = Inr (r, st1)"
      and l1: "?live st1" by (auto simp: visited_def)
    have same: "same_mappings (unified st) (unified st1)"
      using visit_all_safe [OF safe live_tracked [OF live] live_scoped [OF live] _ res] all phase_steps_same by blast
    have il1: "i < length (unified st1)" using i(2) same_mappings_length [OF same] by simp
    have iA1: "mapping_key (unified st1 ! i) \<in> A"
      using iA erase_status_eqD(1) [OF same_mappings_nth [OF same i(2)]] by simp
    obtain tn where tn: "target (unified st1 ! i) = Some tn"
      using workableD [OF live_workable [OF l1] nth_mem [OF il1]] by metis
    show "visited ?live A Activation st (traverse_inter_dependency_mappings services f (Suc fuel) key st)"
    proof (cases "r = SERVICE_DONE")
      case False
      with v res i svc show ?thesis by simp
    next
      case True
      let ?rest = "case status (unified st1 ! i) of
            SERVICE_MAPPING_DEACTIVATED \<Rightarrow> (case map_of (targets st1) tn of
               None \<Rightarrow> Inr (SERVICE_ERROR, st1)
             | Some t \<Rightarrow> attempt_to_map_service_mapping services f i t st1)
          | SERVICE_MAPPING_ACTIVATED \<Rightarrow> Inr (SERVICE_DONE, st1)
          | SERVICE_MAPPING_IN_PROGRESS \<Rightarrow> Inr (SERVICE_IN_PROGRESS, st1)
          | SERVICE_MAPPING_ERROR \<Rightarrow> Inr (SERVICE_ERROR, st1)"
      have "visited ?live A Activation st1 ?rest"
      proof (cases "status (unified st1 ! i)")
        case SERVICE_MAPPING_DEACTIVATED
        show ?thesis
        proof (cases "map_of (targets st1) tn")
          case None
          then have "\<not> error_free A Activation st1"
            using tn nth_mem [OF il1] iA1 by (force simp: error_free_def)
          with None SERVICE_MAPPING_DEACTIVATED l1 show ?thesis by (simp add: visited_error)
        next
          case (Some t)
          with SERVICE_MAPPING_DEACTIVATED tn attempt_live [OF K f l1 il1 _ _ iA1, of t] show ?thesis by simp
        qed
      next
        case SERVICE_MAPPING_IN_PROGRESS
        then have "children (world st1) \<noteq> []" using live_no_children(2) [OF l1] il1 by blast
        with SERVICE_MAPPING_IN_PROGRESS l1 show ?thesis by (simp add: visited_def starts_def)
      next
        case SERVICE_MAPPING_ERROR
        then have "\<not> error_free A Activation st1" using nth_mem [OF il1] by (auto simp: error_free_def)
        with SERVICE_MAPPING_ERROR l1 show ?thesis by (simp add: visited_error)
      qed (simp add: visitedI l1)
      from visited_then [OF v _ this] res True
      have "visited ?live A Activation st ?rest" by simp
      with i svc res True tn show ?thesis by (simp cong: ServiceMappingStatus.case_cong option.case_cong)
    qed
  qed
qed

lemma find_interdependent_total:
  assumes "\<forall>x \<in> set ms. \<exists>sn svc ds. service x = Some sn \<and> map_of services sn = Some svc \<and> depends_on svc = Some ds"
  shows "\<exists>xs. find_interdependent_service_mappings services ms m = Inr xs"
  using assms by (induction ms) auto

lemma set_status_live:
  assumes live: "live services f rank Deactivation cap A st" and il: "i < length (unified st)"
    and act: "status (unified st ! i) = SERVICE_MAPPING_ACTIVATED"
  shows "live services f rank Deactivation cap A (set_status i SERVICE_MAPPING_DEACTIVATED st)"
proof (rule liveI)
  let ?st = "set_status i SERVICE_MAPPING_DEACTIVATED st"
  note tr = live_tracked [OF live]
  have "(p, j) \<in> set (pid_table st) \<Longrightarrow> j \<noteq> i" for p j using tr act by (auto simp: tracked_def)
  then show "tracked cap A ?st"
    using tr tracked_same [OF tr same_mappings_update [of _ i SERVICE_MAPPING_DEACTIVATED]] il act
    by (fastforce simp: tracked_def set_status_def nth_list_update busy_update)
  show "scoped services A Deactivation (unified ?st)"
    using scoped_same [OF live_scoped [OF live] same_mappings_update] by (simp add: set_status_def)
  show "workable services f rank Deactivation (unified ?st) (targets ?st)"
    using workable_same [OF live_workable [OF live] same_mappings_update] by (simp add: set_status_def)
  show "set (children (world ?st)) \<subseteq> fst ` set (pid_table ?st)" using live by (simp add: live_def set_status_def)
  show "available_cores t + busy (unified ?st) tn = cap tn \<and> 1 \<le> cap tn"
    if "map_of (targets ?st) tn = Some t" for tn t
    using that live il act by (auto simp: live_def set_status_def busy_update)
  show "j \<in> snd ` set (pid_table ?st)"
    if "j < length (unified ?st)" "status (unified ?st ! j) = SERVICE_MAPPING_IN_PROGRESS" for j
    using that live by (cases "j = i") (auto simp: live_def set_status_def)
  show "\<exists>tn. target (unified ?st ! j) = Some tn \<and> map_of (targets ?st) tn \<noteq> None"
    if "(p, j) \<in> set (pid_table ?st)" for p j
    using that live il by (cases "j = i") (fastforce simp: live_def set_status_def)+
qed

lemma traverse_interdependent_mappings_live:
  assumes K: "kernel_live K" and f: "spawns K f" and sorted: "sorted_services services"
  shows "live_visit services f rank Deactivation cap A fuel (traverse_interdependent_mappings services f fuel)"
proof (induction fuel)
  case 0
  show ?case by (simp add: live_visit_def)
next
  case (Suc fuel)
  let ?live = "live services f rank Deactivation cap A"
  note ok = kernel_live_ok [OF K]
  note safe = traverse_interdependent_mappings_safe [OF ok f sorted]
  show ?case unfolding live_visit_def
  proof (intro allI impI)
    fix key :: InterDependencyMapping and st
    assume live: "?live st" and key: "mapping_key key \<in> keys_of (unified st)"
      and iA: "mapping_key key \<in> A" and rank: "rank (mapping_key key) < Suc fuel"
    obtain i where i: "find_service_mapping (unified st) key = Some i" "i < length (unified st)"
      "mapping_key (unified st ! i) = mapping_key key"
      using find_of_key [OF live_tracked [OF live] key] .
    note iA = iA [folded i(3)]
    have "\<forall>x \<in> set (unified st). \<exists>sn svc ds. service x = Some sn \<and> map_of services sn = Some svc \<and> depends_on svc = Some ds"
      using workableD [OF live_workable [OF live]] by metis
    then obtain xs where xs: "find_interdependent_service_mappings services (unified st) (unified st ! i) = Inr xs"
      using find_interdependent_total by blast
    note members = find_interdependent_members [OF sorted xs]
    have all: "\<forall>d \<in> set (map as_dependency xs). mapping_key d \<in> keys_of (unified st) \<and> mapping_key d \<in> A
        \<and> rank (mapping_key d) < fuel"
    proof
      fix d assume "d \<in> set (map as_dependency xs)"
      then obtain x where x: "x \<in> set xs" "d = as_dependency x" by auto
      then have x': "x \<in> set (unified st)" "precedes services Deactivation x (unified st ! i)"
        using members by auto
      have "mapping_key x \<in> A"
        using live_scoped [OF live] x' nth_mem [OF i(2)] iA unfolding scoped_def by metis
      with workable_rank [OF live_workable [OF live] x'(1) nth_mem [OF i(2)] x'(2)] i(3) rank x x'(1)
      show "mapping_key d \<in> keys_of (unified st) \<and> mapping_key d \<in> A \<and> rank (mapping_key d) < fuel" by simp
    qed
    note v = visit_all_live [OF safe Suc.IH live all]
    then obtain r st1 where res: "visit_all (traverse_interdependent_mappings services f fuel)
        (map as_dependency xs) st = Inr (r, st1)" and l1: "?live st1" by (auto simp: visited_def)
    have same: "same_mappings (unified st) (unified st1)"
      using visit_all_safe [OF safe live_tracked [OF live] live_scoped [OF live] _ res] all phase_steps_same by blast
    have il1: "i < length (unified st1)" using i(2) same_mappings_length [OF same] by simp
    have iA1: "mapping_key (unified st1 ! i) \<in> A"
      using iA erase_status_eqD(1) [OF same_mappings_nth [OF same i(2)]] by simp
    obtain tn sn svc where tn: "target (unified st1 ! i) = Some tn"
      and svc: "service (unified st1 ! i) = Some sn" "map_of services sn = Some svc"
      using workableD [OF live_workable [OF l1] nth_mem [OF il1]] by metis
    show "visited ?live A Deactivation st (traverse_interdependent_mappings services f (Suc fuel) key st)"
    proof (cases "r = SERVICE_DONE")
      case False
      with v res i xs show ?thesis by simp
    next
      case True
      let ?rest = "case status (unified st1 ! i) of
            SERVICE_MAPPING_ACTIVATED \<Rightarrow> (case map_of (targets st1) tn of
               None \<Rightarrow> Inr (SERVICE_DONE, set_status i SERVICE_MAPPING_DEACTIVATED st1)
             | Some t \<Rightarrow> attempt_to_map_service_mapping services f i t st1)
          | SERVICE_MAPPING_DEACTIVATED \<Rightarrow> Inr (SERVICE_DONE, st1)
          | SERVICE_MAPPING_IN_PROGRESS \<Rightarrow> Inr (SERVICE_IN_PROGRESS, st1)
          | SERVICE_MAPPING_ERROR \<Rightarrow> Inr (SERVICE_ERROR, st1)"
      have "visited ?live A Deactivation st1 ?rest"
      proof (cases "status (unified st1 ! i)")
        case SERVICE_MAPPING_ACTIVATED
        show ?thesis
        proof (cases "map_of (targets st1) tn")
          case None
          have "error_free A Deactivation (set_status i SERVICE_MAPPING_DEACTIVATED st1)" if "error_free A Deactivation st1"
            by (rule error_free_update [OF that il1, of SERVICE_MAPPING_DEACTIVATED]) (simp_all add: set_status_def)
          with None SERVICE_MAPPING_ACTIVATED set_status_live [OF l1 il1] show ?thesis
            by (simp add: visited_def starts_def) (simp add: set_status_def)
        next
          case (Some t)
          with SERVICE_MAPPING_ACTIVATED tn attempt_live [OF K f l1 il1 _ _ iA1, of t] show ?thesis by simp
        qed
      next
        case SERVICE_MAPPING_IN_PROGRESS
        then have "children (world st1) \<noteq> []" using live_no_children(2) [OF l1] il1 by blast
        with SERVICE_MAPPING_IN_PROGRESS l1 show ?thesis by (simp add: visited_def starts_def)
      next
        case SERVICE_MAPPING_ERROR
        then have "\<not> error_free A Deactivation st1" using nth_mem [OF il1] by (auto simp: error_free_def)
        with SERVICE_MAPPING_ERROR l1 show ?thesis by (simp add: visited_error)
      qed (simp add: visitedI l1)
      from visited_then [OF v _ this] res True
      have "visited ?live A Deactivation st ?rest" by simp
      with i xs res True tn svc show ?thesis by (simp cong: ServiceMappingStatus.case_cong option.case_cong)
    qed
  qed
qed

section \<open>The rounds\<close>

lemma active_append: "active new = 0 \<Longrightarrow> active (new' @ new) = active new'"
  by (induction new' rule: active.induct) auto

lemma peak_append: "active new = 0 \<Longrightarrow> peak (new' @ new) = max (peak new') (peak new)"
proof (induction new')
  case (Cons e new')
  then show ?case using active_append [of new "e # new'"] by simp
qed simp

text \<open>From one quiet world to another one, with at most one process at any moment.\<close>

definition sequential :: "os \<Rightarrow> os \<Rightarrow> bool" where
  "sequential w w' \<longleftrightarrow> children w = [] \<and> children w' = []
     \<and> (\<exists>new. trace w' = new @ trace w \<and> active new = 0 \<and> peak new \<le> 1)"

lemma sequential_refl: "children w = [] \<Longrightarrow> sequential w w"
  unfolding sequential_def by (auto intro: exI [of _ "[]"])

lemma sequential_trans:
  assumes "sequential w1 w2" and "sequential w2 w3"
  shows "sequential w1 w3"
proof -
  from assms obtain n1 n2 where "trace w2 = n1 @ trace w1" "active n1 = 0" "peak n1 \<le> 1"
    "trace w3 = n2 @ trace w2" "active n2 = 0" "peak n2 \<le> 1" unfolding sequential_def by blast
  then have "trace w3 = (n2 @ n1) @ trace w1 \<and> active (n2 @ n1) = 0 \<and> peak (n2 @ n1) \<le> 1"
    by (simp add: active_append peak_append)
  with assms show ?thesis unfolding sequential_def by blast
qed

lemma start_then_wait:
  assumes "children w = []" and "starts r w w1" and "waits w1 w2"
  shows "sequential w w2"
  using assms(2) unfolding starts_def
proof
  assume "w1 = w"
  with assms have "children w2 = [] \<and> trace w2 = [Wait_Failed] @ trace w" by (simp add: waits_def)
  moreover have "active [Wait_Failed] = 0 \<and> peak [Wait_Failed] \<le> 1" by simp
  ultimately show ?thesis using assms(1) unfolding sequential_def by blast
next
  assume "r = SERVICE_IN_PROGRESS \<and> (\<exists>pid c. 0 < pid \<and> pid \<notin> set (children w)
     \<and> w1 = w\<lparr>children := pid # children w, trace := Forked pid c # trace w\<rparr>)"
  then obtain pid c where "w1 = w\<lparr>children := [pid], trace := Forked pid c # trace w\<rparr>" using assms(1) by auto
  with assms(3) obtain ws where "children w2 = [] \<and> trace w2 = [Reaped pid ws, Forked pid c] @ trace w"
    by (auto simp: waits_def)
  moreover have "active [Reaped pid ws, Forked pid c] = 0 \<and> peak [Reaped pid ws, Forked pid c] \<le> 1" by simp
  ultimately show ?thesis using assms(1) unfolding sequential_def by blast
qed

locale live_strategy = iterate_strategy +
  assumes strategy_live: "kernel_live K \<Longrightarrow> spawns K f \<Longrightarrow> sorted_services services \<Longrightarrow>
    live_visit services f rank ph cap A fuel (strategy services f fuel)"
begin

lemma step_live:
  assumes K: "kernel_live K" and f: "spawns K f" and cf: "completes ph cf" and sorted: "sorted_services services"
    and live: "live services f rank ph cap A st" and quiet: "children (world st) = []"
    and key: "mapping_key key \<in> keys_of (unified st)" "mapping_key key \<in> A" "rank (mapping_key key) < fuel"
  shows "\<exists>r st1 st2. strategy services f fuel key st = Inr (r, st1)
    \<and> wait_for_service_mapping_to_complete K services cf st1 = Inr st2
    \<and> live services f rank ph cap A st2 \<and> sequential (world st) (world st2)
    \<and> phase_steps services cap A ph (unified st) (unified st2)
    \<and> (r \<noteq> SERVICE_DONE \<longrightarrow> r \<noteq> SERVICE_ERROR \<longrightarrow> pending ph (unified st2) < pending ph (unified st))
    \<and> ((\<forall>w. snd (k_wait K w) = Exited 0) \<longrightarrow> error_free A ph st \<longrightarrow> r \<noteq> SERVICE_ERROR \<and> error_free A ph st2)"
proof -
  note safe = strategy_safe [OF kernel_live_ok [OF K] f sorted]
  obtain r st1 where v: "strategy services f fuel key st = Inr (r, st1)"
    and 1: "live services f rank ph cap A st1" "starts r (world st) (world st1)"
      "r = SERVICE_IN_PROGRESS \<or> r = SERVICE_WAIT \<longrightarrow> children (world st1) \<noteq> []"
      "error_free A ph st \<longrightarrow> r \<noteq> SERVICE_ERROR \<and> error_free A ph st1"
    using live_visitD [OF strategy_live [OF K f sorted] live key] by (auto simp: visited_def)
  have steps1: "phase_steps services cap A ph (unified st) (unified st1)"
    using safe_visitD(1) [OF safe live_tracked [OF live] live_scoped [OF live] _ v] key(2) by blast
  obtain st2 where w: "wait_for_service_mapping_to_complete K services cf st1 = Inr st2"
    and 2: "live services f rank ph cap A st2" "waits (world st1) (world st2)"
      "children (world st1) = [] \<longrightarrow> unified st2 = unified st1 \<and> targets st2 = targets st1"
      "children (world st1) \<noteq> [] \<longrightarrow> phase_step services cap A ph (unified st1) (unified st2)"
      "(\<forall>w. snd (k_wait K w) = Exited 0) \<longrightarrow> error_free A ph st1 \<longrightarrow> error_free A ph st2"
    using wait_live [OF K cf 1(1)] by blast
  have steps: "phase_steps services cap A ph (unified st) (unified st2)"
    using steps1 2(3,4) by (cases "children (world st1) = []") auto
  have "pending ph (unified st2) < pending ph (unified st)" if "r \<noteq> SERVICE_DONE" "r \<noteq> SERVICE_ERROR"
  proof -
    have "r = SERVICE_IN_PROGRESS \<or> r = SERVICE_WAIT" using that by (cases r) auto
    with 1(3) 2(4) have "phase_step services cap A ph (unified st1) (unified st2)" by blast
    with phase_step_pending phase_steps_pending [OF steps1] show ?thesis by fastforce
  qed
  with v w 1 2 steps start_then_wait [OF quiet 1(2) 2(2)] show ?thesis by blast
qed

lemma round_live:
  assumes K: "kernel_live K" and f: "spawns K f" and cf: "completes ph cf" and sorted: "sorted_services services"
    and "live services f rank ph cap A st" and "children (world st) = []"
    and "\<forall>m \<in> set ms. mapping_key m \<in> keys_of (unified st) \<and> mapping_key m \<in> A \<and> rank (mapping_key m) < fuel"
  shows "\<exists>n' s' st'. traverse_round (strategy services f fuel) (wait_for_service_mapping_to_complete K services cf)
      ms n s st = Inr (n', s', st')
    \<and> live services f rank ph cap A st' \<and> sequential (world st) (world st')
    \<and> phase_steps services cap A ph (unified st) (unified st') \<and> n' \<le> n + length ms
    \<and> (n' < n + length ms \<longrightarrow> pending ph (unified st') < pending ph (unified st))
    \<and> ((\<forall>w. snd (k_wait K w) = Exited 0) \<longrightarrow> error_free A ph st \<longrightarrow> s' = s \<and> error_free A ph st')"
  using assms(5-)
proof (induction ms arbitrary: n s st)
  case Nil
  then show ?case by (simp add: sequential_refl)
next
  case (Cons m ms)
  have key: "mapping_key (as_dependency m) \<in> keys_of (unified st)" "mapping_key (as_dependency m) \<in> A"
      "rank (mapping_key (as_dependency m)) < fuel"
    using Cons.prems(3) by auto
  obtain r st1 st2 where v: "strategy services f fuel (as_dependency m) st = Inr (r, st1)"
    and w: "wait_for_service_mapping_to_complete K services cf st1 = Inr st2"
    and 1: "live services f rank ph cap A st2" "sequential (world st) (world st2)"
      "phase_steps services cap A ph (unified st) (unified st2)"
      "r \<noteq> SERVICE_DONE \<longrightarrow> r \<noteq> SERVICE_ERROR \<longrightarrow> pending ph (unified st2) < pending ph (unified st)"
      "(\<forall>w. snd (k_wait K w) = Exited 0) \<longrightarrow> error_free A ph st \<longrightarrow> r \<noteq> SERVICE_ERROR \<and> error_free A ph st2"
    using step_live [OF K f cf sorted Cons.prems(1,2) key] by blast
  have quiet: "children (world st2) = []" using 1(2) by (simp add: sequential_def)
  have keys: "\<forall>m \<in> set ms. mapping_key m \<in> keys_of (unified st2) \<and> mapping_key m \<in> A \<and> rank (mapping_key m) < fuel"
    using Cons.prems(3) same_mappings_keys_of [OF phase_steps_same [OF 1(3)]] by simp
  let ?n = "if r = SERVICE_ERROR \<or> r = SERVICE_DONE then n + 1 else n" and ?s = "s \<and> r \<noteq> SERVICE_ERROR"
  obtain n' s' st' where round: "traverse_round (strategy services f fuel)
      (wait_for_service_mapping_to_complete K services cf) ms ?n ?s st2 = Inr (n', s', st')"
    and 2: "live services f rank ph cap A st'" "sequential (world st2) (world st')"
      "phase_steps services cap A ph (unified st2) (unified st')" "n' \<le> ?n + length ms"
      "n' < ?n + length ms \<longrightarrow> pending ph (unified st') < pending ph (unified st2)"
      "(\<forall>w. snd (k_wait K w) = Exited 0) \<longrightarrow> error_free A ph st2 \<longrightarrow> s' = ?s \<and> error_free A ph st'"
    using Cons.IH [OF 1(1) quiet keys] by blast
  have eq: "traverse_round (strategy services f fuel) (wait_for_service_mapping_to_complete K services cf)
      (m # ms) n s st = Inr (n', s', st')"
    using v w round by (auto split: if_splits)
  have "pending ph (unified st') < pending ph (unified st)" if "n' < n + length (m # ms)"
    using that 1(4) 2(4,5) phase_steps_pending [OF 1(3)] phase_steps_pending [OF 2(3)]
    by (cases "r = SERVICE_ERROR \<or> r = SERVICE_DONE") auto
  moreover have "phase_steps services cap A ph (unified st) (unified st')" using 1(3) 2(3) by simp
  moreover have "n' \<le> n + length (m # ms)" using 2(4) by (auto split: if_splits)
  ultimately show ?case using eq 1(5) 2(1,6) sequential_trans [OF 1(2) 2(2)] by simp
qed

lemma rounds_live:
  assumes K: "kernel_live K" and f: "spawns K f" and cf: "completes ph cf" and sorted: "sorted_services services"
    and "live services f rank ph cap A st" and "children (world st) = []"
    and "\<forall>m \<in> set ms. mapping_key m \<in> keys_of (unified st) \<and> mapping_key m \<in> A \<and> rank (mapping_key m) < fuel"
    and "pending ph (unified st) < rounds"
  shows "\<exists>s' st'. traverse_rounds rounds (strategy services f fuel)
      (wait_for_service_mapping_to_complete K services cf) ms s st = Inr (s', st')
    \<and> live services f rank ph cap A st' \<and> sequential (world st) (world st')
    \<and> ((\<forall>w. snd (k_wait K w) = Exited 0) \<longrightarrow> error_free A ph st \<longrightarrow> s' = s)"
  using assms(5-)
proof (induction rounds arbitrary: s st)
  case (Suc rounds)
  obtain n' s' st' where round: "traverse_round (strategy services f fuel)
      (wait_for_service_mapping_to_complete K services cf) ms 0 s st = Inr (n', s', st')"
    and 1: "live services f rank ph cap A st'" "sequential (world st) (world st')"
      "phase_steps services cap A ph (unified st) (unified st')"
      "n' < length ms \<longrightarrow> pending ph (unified st') < pending ph (unified st)"
      "(\<forall>w. snd (k_wait K w) = Exited 0) \<longrightarrow> error_free A ph st \<longrightarrow> s' = s \<and> error_free A ph st'"
    using round_live [OF K f cf sorted Suc.prems(1-3), of 0 s] by auto
  show ?case
  proof (cases "n' < length ms")
    case True
    have "children (world st') = []" using 1(2) by (simp add: sequential_def)
    moreover have "\<forall>m \<in> set ms. mapping_key m \<in> keys_of (unified st') \<and> mapping_key m \<in> A \<and> rank (mapping_key m) < fuel"
      using Suc.prems(3) same_mappings_keys_of [OF phase_steps_same [OF 1(3)]] by simp
    moreover have "pending ph (unified st') < rounds" using True 1(4) Suc.prems(4) by simp
    ultimately obtain s2 st2 where "traverse_rounds rounds (strategy services f fuel)
        (wait_for_service_mapping_to_complete K services cf) ms s' st' = Inr (s2, st2)"
      "live services f rank ph cap A st2" "sequential (world st') (world st2)"
      "(\<forall>w. snd (k_wait K w) = Exited 0) \<longrightarrow> error_free A ph st' \<longrightarrow> s2 = s'"
      using Suc.IH [OF 1(1), of s'] by blast
    with round True 1 sequential_trans show ?thesis by auto
  next
    case False
    with round 1 show ?thesis by simp
  qed
qed simp

text \<open>
  The traversal returns, it ran one process at a time and none is left, and it succeeds if
  no process fails.
\<close>

lemma traverse_live:
  assumes K: "kernel_live K" and f: "spawns K f" and cf: "completes ph cf" and sorted: "sorted_services services"
    and live: "live services f rank ph cap A (st\<lparr>pid_table := []\<rparr>)" and quiet: "children (world st) = []"
    and keys: "\<forall>m \<in> set ms. mapping_key m \<in> keys_of (unified st) \<and> mapping_key m \<in> A \<and> rank (mapping_key m) < fuel"
    and rounds: "2 * length (unified st) < rounds"
  shows "\<exists>success st'. traverse_service_mappings K rounds services (strategy services f fuel) cf ms st = Inr (success, st')
    \<and> live services f rank ph cap A st' \<and> sequential (world st) (world st')
    \<and> phase_steps services cap A ph (unified st) (unified st')
    \<and> (success \<longrightarrow> (\<forall>m \<in> set ms. \<exists>i. find_service_mapping (unified st) (as_dependency m) = Some i
          \<and> status (unified st' ! i) = goal ph))
    \<and> ((\<forall>w. snd (k_wait K w) = Exited 0) \<longrightarrow> error_free A ph st \<longrightarrow> success)"
proof -
  let ?st = "st\<lparr>pid_table := []\<rparr>"
  have "pending ph (unified ?st) < rounds" using pending_le [of ph "unified st"] rounds by simp
  then obtain success st' where 1: "traverse_rounds rounds (strategy services f fuel)
      (wait_for_service_mapping_to_complete K services cf) ms True ?st = Inr (success, st')"
    "live services f rank ph cap A st'" "sequential (world st) (world st')"
    "(\<forall>w. snd (k_wait K w) = Exited 0) \<longrightarrow> error_free A ph ?st \<longrightarrow> success"
    using rounds_live [OF K f cf sorted live, of ms fuel rounds True] quiet keys by auto
  then have 2: "traverse_service_mappings K rounds services (strategy services f fuel) cf ms st = Inr (success, st')"
    by (simp add: traverse_service_mappings_def)
  have "error_free A ph ?st = error_free A ph st" by (simp add: error_free_def)
  moreover have "scoped services A ph (unified st)" using live_scoped [OF live] by simp
  moreover have "\<forall>m \<in> set ms. mapping_key m \<in> keys_of (unified st) \<longrightarrow> mapping_key m \<in> A" using keys by blast
  ultimately show ?thesis
    using 1 2 traverse_safe [OF kernel_live_ok [OF K] f cf sorted live_tracked [OF live] _ _ 2] by simp
qed

end

interpretation activation: live_strategy Activation traverse_inter_dependency_mappings
  by unfold_locales (rule traverse_inter_dependency_mappings_live)

interpretation deactivation: live_strategy Deactivation traverse_interdependent_mappings
  by unfold_locales (rule traverse_interdependent_mappings_live)

end
