(* ===== verification/Transition.thy ===== *)
theory Transition
  imports Manifest Remote_Management Traverse_Liveness
begin

text \<open>
  The transition from the previous configuration to the new one (\<open>libdeploy/transition.c\<close>):
  deactivate what is obsolete, activate what is new, and roll back when a phase fails or the
  user interrupts it. The phases share the unified array of mappings and the targets table.
\<close>

section \<open>Flags and outcomes\<close>

definition FLAG_NO_ROLLBACK :: flags where "FLAG_NO_ROLLBACK = 0x100"
definition FLAG_DRY_RUN :: flags where "FLAG_DRY_RUN = 0x200"
definition FLAG_NO_LOCK :: flags where "FLAG_NO_LOCK = 0x400"
definition FLAG_NO_MIGRATION :: flags where "FLAG_NO_MIGRATION = 0x800"

datatype TransitionStatus =
    TRANSITION_SUCCESS
  | TRANSITION_FAILED
  | TRANSITION_OBSOLETE_MAPPINGS_ROLLBACK_FAILED
  | TRANSITION_NEW_MAPPINGS_ROLLBACK_FAILED

section \<open>Activating and deactivating one mapping\<close>

text \<open>The debug message of a step reads the package of the service.\<close>

definition print_activation_step :: "ManifestService option \<Rightarrow> unit result" where
  "print_activation_step svc = bindr (deref svc) (\<lambda>_. Inr ())"

definition activate_mapping :: "kernel \<Rightarrow> service_mapping_function" where
  "activate_mapping K mapping svc tgt type arguments arguments_length w =
     bindr (find_target_key tgt) (\<lambda>target_key.
     bindr (print_activation_step svc) (\<lambda>_.
     bindr (deref svc) (\<lambda>s.
       Inr (statemgmt_remote_activate K (client_interface tgt) target_key (container mapping) type
              arguments arguments_length (pkg s) w))))"

definition dry_run_activate_mapping :: "kernel \<Rightarrow> service_mapping_function" where
  "dry_run_activate_mapping K mapping svc tgt type arguments arguments_length w =
     bindr (print_activation_step svc) (\<lambda>_. Inr (statemgmt_dummy_command K w))"

definition deactivate_mapping :: "kernel \<Rightarrow> service_mapping_function" where
  "deactivate_mapping K mapping svc tgt type arguments arguments_length w =
     bindr (find_target_key tgt) (\<lambda>target_key.
     bindr (print_activation_step svc) (\<lambda>_.
     bindr (deref svc) (\<lambda>s.
       Inr (statemgmt_remote_deactivate K (client_interface tgt) target_key (container mapping) type
              arguments arguments_length (pkg s) w))))"

definition dry_run_deactivate_mapping :: "kernel \<Rightarrow> service_mapping_function" where
  "dry_run_deactivate_mapping K mapping svc tgt type arguments arguments_length w =
     bindr (print_activation_step svc) (\<lambda>_. Inr (statemgmt_dummy_command K w))"

definition complete_activation :: complete_service_mapping_function where
  "complete_activation mapping svc tgt outcome result =
     (if outcome = PROCREACT_STATUS_OK \<and> result \<noteq> 0
      then mapping\<lparr>status := SERVICE_MAPPING_ACTIVATED\<rparr>
      else mapping\<lparr>status := SERVICE_MAPPING_ERROR\<rparr>)"

definition complete_deactivation :: complete_service_mapping_function where
  "complete_deactivation mapping svc tgt outcome result =
     (if outcome = PROCREACT_STATUS_OK \<and> result \<noteq> 0
      then mapping\<lparr>status := SERVICE_MAPPING_DEACTIVATED\<rparr>
      else mapping\<lparr>status := SERVICE_MAPPING_ERROR\<rparr>)"

definition mark_erroneous_mappings :: "ServiceMappingStatus \<Rightarrow> traverse_state \<Rightarrow> traverse_state" where
  "mark_erroneous_mappings s st =
     st\<lparr>unified := map (\<lambda>mapping. if status mapping = SERVICE_MAPPING_ERROR
                                  then mapping\<lparr>status := s\<rparr> else mapping) (unified st)\<rparr>"

section \<open>The phases\<close>

text \<open>
  \<open>fuel\<close> bounds the depth of the dependency graph and \<open>rounds\<close> the rounds of a traversal.
\<close>

definition rollback_to_old_mappings ::
  "kernel \<Rightarrow> nat \<Rightarrow> nat \<Rightarrow> services_table \<Rightarrow> ServiceMapping list \<Rightarrow> service_mapping_function \<Rightarrow> traverse_state
    \<Rightarrow> (bool \<times> traverse_state) result" where
  "rollback_to_old_mappings K fuel rounds services old_activation_mappings activate_mapping_function st =
     traverse_service_mappings K rounds services
       (traverse_inter_dependency_mappings services activate_mapping_function fuel) complete_activation
       old_activation_mappings (mark_erroneous_mappings SERVICE_MAPPING_ACTIVATED st)"

definition deactivate_obsolete_mappings ::
  "kernel \<Rightarrow> nat \<Rightarrow> nat \<Rightarrow> services_table \<Rightarrow> ServiceMapping list option \<Rightarrow> ServiceMapping list option \<Rightarrow> flags
    \<Rightarrow> service_mapping_function \<Rightarrow> service_mapping_function \<Rightarrow> traverse_state
    \<Rightarrow> (TransitionStatus \<times> traverse_state) result" where
  "deactivate_obsolete_mappings K fuel rounds services deactivation_array old_activation_mappings flags
     activate_mapping_function deactivate_mapping_function st =
     (case deactivation_array of
        None \<Rightarrow> Inr (TRANSITION_SUCCESS, st)
      | Some array \<Rightarrow>
          bindr (traverse_service_mappings K rounds services
                   (traverse_interdependent_mappings services deactivate_mapping_function fuel)
                   complete_deactivation array st) (\<lambda>(success, st).
          if success \<and> \<not> k_interrupted K (world st) then Inr (TRANSITION_SUCCESS, st)
          else if has_flag flags FLAG_NO_ROLLBACK then Inr (TRANSITION_FAILED, st)
          else bindr (deref old_activation_mappings) (\<lambda>old.
               bindr (rollback_to_old_mappings K fuel rounds services old activate_mapping_function st) (\<lambda>(success, st).
               Inr (if success then TRANSITION_FAILED else TRANSITION_OBSOLETE_MAPPINGS_ROLLBACK_FAILED, st)))))"

definition rollback_new_mappings ::
  "kernel \<Rightarrow> nat \<Rightarrow> nat \<Rightarrow> services_table \<Rightarrow> ServiceMapping list \<Rightarrow> service_mapping_function \<Rightarrow> traverse_state
    \<Rightarrow> (bool \<times> traverse_state) result" where
  "rollback_new_mappings K fuel rounds services activation_array deactivate_mapping_function st =
     traverse_service_mappings K rounds services
       (traverse_interdependent_mappings services deactivate_mapping_function fuel) complete_deactivation
       activation_array (mark_erroneous_mappings SERVICE_MAPPING_DEACTIVATED st)"

definition activate_new_mappings ::
  "kernel \<Rightarrow> nat \<Rightarrow> nat \<Rightarrow> services_table \<Rightarrow> ServiceMapping list \<Rightarrow> ServiceMapping list option \<Rightarrow> flags
    \<Rightarrow> service_mapping_function \<Rightarrow> service_mapping_function \<Rightarrow> traverse_state
    \<Rightarrow> (TransitionStatus \<times> traverse_state) result" where
  "activate_new_mappings K fuel rounds services activation_array old_activation_mappings flags
     activate_mapping_function deactivate_mapping_function st =
     bindr (traverse_service_mappings K rounds services
              (traverse_inter_dependency_mappings services activate_mapping_function fuel)
              complete_activation activation_array st) (\<lambda>(success, st).
     if success \<and> \<not> k_interrupted K (world st) then Inr (TRANSITION_SUCCESS, st)
     else if has_flag flags FLAG_NO_ROLLBACK then Inr (TRANSITION_FAILED, st)
     else bindr (rollback_new_mappings K fuel rounds services activation_array deactivate_mapping_function st)
       (\<lambda>(success, st).
          if \<not> success then Inr (TRANSITION_NEW_MAPPINGS_ROLLBACK_FAILED, st)
          else (case old_activation_mappings of
              None \<Rightarrow> Inr (TRANSITION_FAILED, st)
            | Some old \<Rightarrow>
                bindr (rollback_to_old_mappings K fuel rounds services old activate_mapping_function st) (\<lambda>(success, st).
                Inr (if success then TRANSITION_FAILED else TRANSITION_OBSOLETE_MAPPINGS_ROLLBACK_FAILED, st)))))"

section \<open>The transition\<close>

record transition_plan =
  plan_unified :: "ServiceMapping list"
  plan_deactivation :: "ServiceMapping list option"
  plan_activation :: "ServiceMapping list"
  plan_services :: services_table
  plan_previous :: "ServiceMapping list option"

definition plan_transition :: "ServiceMapping sort_function \<Rightarrow> Manifest \<Rightarrow> Manifest option \<Rightarrow> transition_plan" where
  "plan_transition srt manifest previous_manifest =
     (case previous_manifest of
        None \<Rightarrow>
          \<lparr>plan_unified = service_mapping_array manifest, plan_deactivation = None,
           plan_activation = service_mapping_array manifest, plan_services = services_table manifest,
           plan_previous = None\<rparr>
      | Some previous \<Rightarrow>
          (let intersection_array = intersect_service_mapping_array (service_mapping_array manifest)
                                      (service_mapping_array previous) in
           \<lparr>plan_unified = unify_service_mapping_array srt (service_mapping_array previous)
              (service_mapping_array manifest) intersection_array,
            plan_deactivation = Some (substract_service_mapping_array (service_mapping_array previous) intersection_array),
            plan_activation = substract_service_mapping_array (service_mapping_array manifest) intersection_array,
            plan_services = generate_union_services_table (services_table manifest) (services_table previous),
            plan_previous = Some (service_mapping_array previous)\<rparr>))"

definition mapping_functions :: "kernel \<Rightarrow> flags \<Rightarrow> service_mapping_function \<times> service_mapping_function" where
  "mapping_functions K flags =
     (if has_flag flags FLAG_DRY_RUN then (dry_run_activate_mapping K, dry_run_deactivate_mapping K)
      else (activate_mapping K, deactivate_mapping K))"

definition transition ::
  "kernel \<Rightarrow> ServiceMapping sort_function \<Rightarrow> nat \<Rightarrow> nat \<Rightarrow> Manifest \<Rightarrow> Manifest option \<Rightarrow> flags \<Rightarrow> os
    \<Rightarrow> (TransitionStatus \<times> traverse_state) result" where
  "transition K srt fuel rounds manifest previous_manifest flags w =
     (let plan = plan_transition srt manifest previous_manifest;
          (activate_function, deactivate_function) = mapping_functions K flags;
          st = \<lparr>unified = plan_unified plan, targets = targets_table manifest, pid_table = [], world = w\<rparr> in
      bindr (deactivate_obsolete_mappings K fuel rounds (plan_services plan) (plan_deactivation plan)
               (plan_previous plan) flags activate_function deactivate_function st) (\<lambda>(outcome, st).
      if outcome = TRANSITION_SUCCESS
      then activate_new_mappings K fuel rounds (plan_services plan) (plan_activation plan)
             (plan_previous plan) flags activate_function deactivate_function st
      else Inr (outcome, st)))"

lemma callbacks_complete:
  "completes Activation complete_activation" "completes Deactivation complete_deactivation"
  by (simp_all add: completes_def complete_activation_def complete_deactivation_def)

lemma exec_dysnomia_forks: "\<exists>c. sys_fork K c w = exec_dysnomia_activity K op i t cont ty args n s w"
  by (auto simp: exec_dysnomia_activity_def)

lemma mapping_functions_spawn:
  assumes "mapping_functions K flags = (f, g)"
  shows "spawns K f" "spawns K g"
proof -
  have "spawns K (activate_mapping K)" "spawns K (deactivate_mapping K)"
    "spawns K (dry_run_activate_mapping K)" "spawns K (dry_run_deactivate_mapping K)"
    unfolding spawns_def
    by (auto simp: activate_mapping_def deactivate_mapping_def dry_run_activate_mapping_def
        dry_run_deactivate_mapping_def statemgmt_remote_activate_def statemgmt_remote_deactivate_def
        statemgmt_dummy_command_def exec_dysnomia_activity_def bindr_eq_Inr)
  with assms show "spawns K f" "spawns K g" by (auto simp: mapping_functions_def split: if_splits)
qed

end
