(* ===== verification/Transition_Correct.thy ===== *)
theory Transition_Correct
  imports Transition
begin

text \<open>
  The transition as a whole. Its specification is a relation on the unified array: the steps of
  four phases, each with its own scope, and the forgiving of errors between them. The
  transition of \<open>libdeploy/transition.c\<close> follows it and ends, depending on its outcome, in the new
  configuration, in the previous one, or in a state that says which half of it is done.
\<close>

section \<open>Machines do not change\<close>

definition same_machines :: "Target hashtable \<Rightarrow> Target hashtable \<Rightarrow> bool" where
  "same_machines ts ts' \<longleftrightarrow> map fst ts = map fst ts' \<and> (\<forall>tn. map_option (\<lambda>t. t\<lparr>available_cores := 0\<rparr>) (map_of ts tn)
     = map_option (\<lambda>t. t\<lparr>available_cores := 0\<rparr>) (map_of ts' tn))"

lemma same_machines_refl [simp]: "same_machines ts ts"
  by (simp add: same_machines_def)

lemma same_machines_trans [trans]: "same_machines a b \<Longrightarrow> same_machines b c \<Longrightarrow> same_machines a c"
  by (simp add: same_machines_def)

lemma same_machines_insert:
  "map_of ts tn = Some t \<Longrightarrow> same_machines ts (g_hash_table_insert tn (t\<lparr>available_cores := n\<rparr>) ts)"
  using map_of_SomeD [of ts tn t] by (force simp: same_machines_def g_hash_table_insert_keys)

lemma same_machines_lookup:
  "same_machines ts ts' \<Longrightarrow> map_option (\<lambda>t. t\<lparr>available_cores := 0\<rparr>) (map_of ts tn)
     = map_option (\<lambda>t. t\<lparr>available_cores := 0\<rparr>) (map_of ts' tn)"
  by (simp add: same_machines_def)

lemma same_machines_cores:
  assumes "same_machines ts ts'" and "map_of ts' tn = Some t'"
  obtains t where "map_of ts tn = Some t" "t' = t\<lparr>available_cores := available_cores t'\<rparr>"
proof -
  from assms obtain t where t: "map_of ts tn = Some t" "t\<lparr>available_cores := 0\<rparr> = t'\<lparr>available_cores := 0\<rparr>"
    using same_machines_lookup [OF assms(1), of tn] by (cases "map_of ts tn") auto
  then have "(t\<lparr>available_cores := 0\<rparr>)\<lparr>available_cores := available_cores t'\<rparr>
      = (t'\<lparr>available_cores := 0\<rparr>)\<lparr>available_cores := available_cores t'\<rparr>" by simp
  then have "t' = t\<lparr>available_cores := available_cores t'\<rparr>" by simp
  with t(1) show ?thesis by (rule that)
qed

section \<open>Relations every part of a traversal keeps\<close>

text \<open>
  A relation between the states before and after that holds for starting a mapping, for
  skipping one, and for the wait holds for a whole traversal.
\<close>

locale traversal_relation =
  fixes R :: "traverse_state \<Rightarrow> traverse_state \<Rightarrow> bool"
    and K :: kernel and services :: services_table and f :: service_mapping_function
    and cf :: complete_service_mapping_function
  assumes refl: "R st st"
    and trans: "R st1 st2 \<Longrightarrow> R st2 st3 \<Longrightarrow> R st1 st3"
    and attempt: "attempt_to_map_service_mapping services f i t st = Inr (r, st') \<Longrightarrow>
      g_hash_table_lookup (targets st) (target (unified st ! i)) = Inr (Some t) \<Longrightarrow> R st st'"
    and skip: "R st (set_status i SERVICE_MAPPING_DEACTIVATED st)"
    and wait: "wait_for_service_mapping_to_complete K services cf st = Inr st' \<Longrightarrow> R st st'"
    and fresh: "R st st' = R (st\<lparr>pid_table := []\<rparr>) st'"
begin

definition related_visit :: "visit \<Rightarrow> bool" where
  "related_visit visit \<longleftrightarrow> (\<forall>key st r st'. visit key st = Inr (r, st') \<longrightarrow> R st st')"

lemma visit_all_related:
  assumes "related_visit visit"
  shows "visit_all visit ds st = Inr (r, st') \<Longrightarrow> R st st'"
proof (induction ds arbitrary: st)
  case (Cons d ds)
  from Cons.prems obtain r1 st1 where v: "visit d st = Inr (r1, st1)"
    and rest: "if r1 \<noteq> SERVICE_DONE then r = r1 \<and> st' = st1 else visit_all visit ds st1 = Inr (r, st')"
    by (auto simp: bindr_eq_Inr split: if_splits)
  have "R st st1" using assms v unfolding related_visit_def by blast
  with rest Cons.IH show ?case by (auto split: if_splits intro: trans)
qed (simp add: refl)

lemma inter_dependency_related: "related_visit (traverse_inter_dependency_mappings services f fuel)"
proof (induction fuel)
  case (Suc fuel)
  show ?case unfolding related_visit_def
  proof (intro allI impI)
    fix key st r st'
    assume "traverse_inter_dependency_mappings services f (Suc fuel) key st = Inr (r, st')"
    then obtain i r1 st1 and svc :: ManifestService where deps: "(case depends_on svc of None \<Rightarrow> Inr (SERVICE_DONE, st)
        | Some ds \<Rightarrow> visit_all (traverse_inter_dependency_mappings services f fuel) ds st) = Inr (r1, st1)"
      and rest: "(if r1 \<noteq> SERVICE_DONE then Inr (r1, st1)
        else (case status (unified st1 ! i) of
            SERVICE_MAPPING_DEACTIVATED \<Rightarrow>
              bindr (g_hash_table_lookup (targets st1) (target (unified st1 ! i))) (\<lambda>tgt.
                (case tgt of
                   None \<Rightarrow> Inr (SERVICE_ERROR, st1)
                 | Some t \<Rightarrow> attempt_to_map_service_mapping services f i t st1))
          | SERVICE_MAPPING_ACTIVATED \<Rightarrow> Inr (SERVICE_DONE, st1)
          | SERVICE_MAPPING_IN_PROGRESS \<Rightarrow> Inr (SERVICE_IN_PROGRESS, st1)
          | SERVICE_MAPPING_ERROR \<Rightarrow> Inr (SERVICE_ERROR, st1))) = Inr (r, st')"
      by (simp only: traverse_inter_dependency_mappings.simps bindr_eq_Inr split_paired_Ex prod.case) blast
    have "R st st1" using deps visit_all_related [OF Suc.IH] by (auto simp: refl split: option.splits)
    moreover have "R st1 st'"
      using rest by (auto simp: bindr_eq_Inr refl intro: attempt
          split: if_splits ServiceMappingStatus.splits option.splits)
    ultimately show "R st st'" by (rule trans)
  qed
qed (simp add: related_visit_def)

lemma interdependent_related: "related_visit (traverse_interdependent_mappings services f fuel)"
proof (induction fuel)
  case (Suc fuel)
  show ?case unfolding related_visit_def
  proof (intro allI impI)
    fix key st r st'
    assume "traverse_interdependent_mappings services f (Suc fuel) key st = Inr (r, st')"
    then obtain i ds r1 st1 where deps: "visit_all (traverse_interdependent_mappings services f fuel)
        (map as_dependency ds) st = Inr (r1, st1)"
      and rest: "(if r1 \<noteq> SERVICE_DONE then Inr (r1, st1)
        else (case status (unified st1 ! i) of
            SERVICE_MAPPING_ACTIVATED \<Rightarrow>
              bindr (g_hash_table_lookup (targets st1) (target (unified st1 ! i))) (\<lambda>tgt.
              bindr (g_hash_table_lookup services (service (unified st1 ! i))) (\<lambda>svc.
                (case tgt of
                   None \<Rightarrow> bindr (deref svc) (\<lambda>_.
                     Inr (SERVICE_DONE, set_status i SERVICE_MAPPING_DEACTIVATED st1))
                 | Some t \<Rightarrow> attempt_to_map_service_mapping services f i t st1)))
          | SERVICE_MAPPING_DEACTIVATED \<Rightarrow> Inr (SERVICE_DONE, st1)
          | SERVICE_MAPPING_IN_PROGRESS \<Rightarrow> Inr (SERVICE_IN_PROGRESS, st1)
          | SERVICE_MAPPING_ERROR \<Rightarrow> Inr (SERVICE_ERROR, st1))) = Inr (r, st')"
      by (simp only: traverse_interdependent_mappings.simps bindr_eq_Inr split_paired_Ex prod.case) blast
    have "R st st1" using deps by (rule visit_all_related [OF Suc.IH])
    moreover have "R st1 st'"
      using rest by (auto simp: bindr_eq_Inr refl intro: attempt skip
          split: if_splits ServiceMappingStatus.splits option.splits)
    ultimately show "R st st'" by (rule trans)
  qed
qed (simp add: related_visit_def)

lemma traverse_round_related:
  assumes "related_visit visit"
  shows "traverse_round visit (wait_for_service_mapping_to_complete K services cf) ms n s st = Inr (n', s', st') \<Longrightarrow> R st st'"
proof (induction ms arbitrary: n s st)
  case (Cons m ms)
  from Cons.prems obtain r st1 st2 n1 s1 where v: "visit (as_dependency m) st = Inr (r, st1)"
    and w: "wait_for_service_mapping_to_complete K services cf st1 = Inr st2"
    and rest: "traverse_round visit (wait_for_service_mapping_to_complete K services cf) ms n1 s1 st2 = Inr (n', s', st')"
    by (fastforce simp: bindr_eq_Inr split: if_splits)
  have "R st st1" using assms v unfolding related_visit_def by blast
  from trans [OF this trans [OF wait [OF w] Cons.IH [OF rest]]] show ?case .
qed (simp add: refl)

lemma traverse_related:
  assumes "related_visit visit"
    and "traverse_service_mappings K rounds services visit cf ms st = Inr (s', st')"
  shows "R st st'"
proof -
  have "R st st'"
    if "traverse_rounds rounds visit (wait_for_service_mapping_to_complete K services cf) ms s st = Inr (s', st')" for s st
    using that
  proof (induction rounds arbitrary: s st)
    case (Suc rounds)
    from Suc.prems obtain n1 s1 st1 where
      round: "traverse_round visit (wait_for_service_mapping_to_complete K services cf) ms 0 s st = Inr (n1, s1, st1)"
      and rest: "if n1 < length ms then traverse_rounds rounds visit
          (wait_for_service_mapping_to_complete K services cf) ms s1 st1 = Inr (s', st') else st' = st1"
      by (auto simp: bindr_eq_Inr split: if_splits)
    have "R st st1" by (rule traverse_round_related [OF assms(1) round])
    with rest Suc.IH show ?case by (auto split: if_splits intro: trans)
  qed simp
  with assms(2) fresh show ?thesis unfolding traverse_service_mappings_def by blast
qed

lemmas traversals_related =
  traverse_related [OF inter_dependency_related] traverse_related [OF interdependent_related]

end

interpretation machines: traversal_relation "\<lambda>st st'. same_machines (targets st) (targets st')" K services f cf
  for K services f cf
proof unfold_locales
  fix i t r and st st' :: traverse_state
  assume "attempt_to_map_service_mapping services f i t st = Inr (r, st')"
    and "g_hash_table_lookup (targets st) (target (unified st ! i)) = Inr (Some t)"
  then show "same_machines (targets st) (targets st')"
    by (auto simp: attempt_to_map_service_mapping_def Let_def request_available_target_core_def
        set_status_def result_simps intro!: same_machines_insert split: if_splits)
next
  fix st st' assume "wait_for_service_mapping_to_complete K services cf st = Inr st'"
  then show "same_machines (targets st) (targets st')"
    by (auto simp: wait_for_service_mapping_to_complete_def Let_def signal_available_target_core_def
        result_simps intro!: same_machines_insert split: if_splits prod.splits)
qed (auto simp: set_status_def intro: same_machines_trans)

section \<open>Phases as functions of the unified array\<close>

text \<open>All mappings with a key in \<open>X\<close> have the status \<open>s\<close>.\<close>

definition all_at :: "key set \<Rightarrow> ServiceMappingStatus \<Rightarrow> ServiceMapping list \<Rightarrow> bool" where
  "all_at X s ms \<longleftrightarrow> (\<forall>m \<in> set ms. mapping_key m \<in> X \<longrightarrow> status m = s)"

lemma all_at_Un [simp]: "all_at (X \<union> Y) s ms \<longleftrightarrow> all_at X s ms \<and> all_at Y s ms"
  by (auto simp: all_at_def)

lemma all_at_mono: "all_at Y s ms \<Longrightarrow> X \<subseteq> Y \<Longrightarrow> all_at X s ms"
  by (auto simp: all_at_def)

lemma all_at_nth: "all_at X s ms \<longleftrightarrow> (\<forall>i < length ms. mapping_key (ms ! i) \<in> X \<longrightarrow> status (ms ! i) = s)"
  by (metis all_at_def in_set_conv_nth)

lemma phase_steps_keys:
  assumes "phase_steps services cap A ph ms ms'"
  shows "length ms' = length ms" "i < length ms \<Longrightarrow> mapping_key (ms' ! i) = mapping_key (ms ! i)"
  using same_mappings_length [OF phase_steps_same [OF assms]]
    erase_status_eqD(1) [OF same_mappings_nth [OF phase_steps_same [OF assms]]] by simp_all

lemma all_at_outside:
  assumes "phase_steps services cap A ph ms ms'" and "all_at X s ms" and "X \<inter> A = {}"
  shows "all_at X s ms'"
  unfolding all_at_nth
proof (intro allI impI)
  fix i assume i: "i < length ms'" "mapping_key (ms' ! i) \<in> X"
  then have old: "i < length ms" "mapping_key (ms ! i) \<in> X" using phase_steps_keys [OF assms(1)] by simp_all
  with assms(3) have "mapping_key (ms ! i) \<notin> A" by blast
  with phase_steps_scope [OF assms(1) old(1)] old assms(2) show "status (ms' ! i) = s" by (simp add: all_at_nth)
qed

lemma all_at_goal:
  assumes "phase_steps services cap A ph ms ms'" and "all_at X (goal ph) ms"
  shows "all_at X (goal ph) ms'"
  using assms phase_steps_keys [OF assms(1)] phase_steps_goal_stable [OF assms(1)] unfolding all_at_nth by metis

definition forgive :: "ServiceMappingStatus \<Rightarrow> ServiceMapping list \<Rightarrow> ServiceMapping list" where
  "forgive s ms = map (\<lambda>m. if status m = SERVICE_MAPPING_ERROR then m\<lparr>status := s\<rparr> else m) ms"

lemma mark_erroneous_mappings_simps [simp]:
  "unified (mark_erroneous_mappings s st) = forgive s (unified st)"
  "targets (mark_erroneous_mappings s st) = targets st"
  "pid_table (mark_erroneous_mappings s st) = pid_table st"
  "world (mark_erroneous_mappings s st) = world st"
  by (simp_all add: mark_erroneous_mappings_def forgive_def)

lemma forgive_keys [simp]: "map mapping_key (forgive s ms) = map mapping_key ms" "length (forgive s ms) = length ms"
  by (simp_all add: forgive_def)

lemma forgive_same: "same_mappings ms (forgive s ms)"
  by (simp add: forgive_def same_mappings_def)

lemma keys_of_forgive [simp]: "mapping_key ` set (forgive s ms) = keys_of ms"
  by (rule same_mappings_keys_of [OF forgive_same])

lemma all_at_forgive: "all_at X s ms \<Longrightarrow> s \<noteq> SERVICE_MAPPING_ERROR \<Longrightarrow> all_at X s (forgive t ms)"
  by (auto simp: all_at_def forgive_def)

lemma busy_forgive [simp]:
  assumes "t \<noteq> SERVICE_MAPPING_IN_PROGRESS"
  shows "busy (forgive t ms) tn = busy ms tn"
  unfolding busy_def forgive_def using assms by (induction ms) auto

lemma in_order_forgive:
  assumes "in_order services ms" and "t = SERVICE_MAPPING_ACTIVATED \<or> t = SERVICE_MAPPING_DEACTIVATED"
  shows "in_order services (forgive t ms)"
  unfolding in_order_def
proof (intro ballI impI)
  let ?f = "\<lambda>m. if status m = SERVICE_MAPPING_ERROR then m\<lparr>status := t\<rparr> else m"
  fix x y assume xy: "x \<in> set (forgive t ms)" "y \<in> set (forgive t ms)"
    and dep: "mapping_key y \<in> required services x" and act: "status x \<noteq> SERVICE_MAPPING_DEACTIVATED"
  from xy obtain x' y' where "x' \<in> set ms" "x = ?f x'" "y' \<in> set ms" "y = ?f y'" by (auto simp: forgive_def)
  moreover from this dep act have "mapping_key y' \<in> required services x'" "status x' \<noteq> SERVICE_MAPPING_DEACTIVATED"
    by (auto split: if_splits)
  ultimately show "status y = SERVICE_MAPPING_ACTIVATED" using assms(1) unfolding in_order_def by fastforce
qed

section \<open>Between two phases\<close>

text \<open>The part of \<open>tracked\<close> that holds whatever processes are left.\<close>

definition idle :: "(string \<Rightarrow> int) \<Rightarrow> traverse_state \<Rightarrow> bool" where
  "idle cap st \<longleftrightarrow> sorted_mappings (unified st) \<and> distinct_mappings (unified st) \<and> wf_os (world st)
     \<and> (\<forall>tn t. map_of (targets st) tn = Some t \<longrightarrow> available_cores t + busy (unified st) tn \<le> cap tn)"

lemma idle_tracked: "idle cap st \<Longrightarrow> tracked cap A (st\<lparr>pid_table := []\<rparr>)"
  by (simp add: idle_def tracked_def)

lemma tracked_idle: "tracked cap A st \<Longrightarrow> idle cap st"
  by (simp add: idle_def tracked_def)

lemma idle_forgive:
  "idle cap st \<Longrightarrow> t \<noteq> SERVICE_MAPPING_IN_PROGRESS \<Longrightarrow> idle cap (mark_erroneous_mappings t st)"
  unfolding idle_def mark_erroneous_mappings_simps forgive_keys by simp

text \<open>A traversal reports success only if its mappings have reached their goal.\<close>

lemma goal_reached:
  assumes "distinct_mappings ms" and same: "same_mappings ms ms'"
    and reached: "\<forall>m \<in> set arr. \<exists>i. find_service_mapping ms (as_dependency m) = Some i \<and> status (ms' ! i) = s"
  shows "all_at (keys_of arr) s ms'"
  unfolding all_at_nth
proof (intro allI impI)
  fix i assume i: "i < length ms'" "mapping_key (ms' ! i) \<in> keys_of arr"
  have len: "length ms' = length ms" and key: "mapping_key (ms' ! i) = mapping_key (ms ! i)"
    using same_mappings_length [OF same] erase_status_eqD(1) [OF same_mappings_nth [OF same]] i(1) by simp_all
  from i(2) obtain m where m: "m \<in> set arr" "mapping_key m = mapping_key (ms' ! i)" by auto
  from reached m(1) obtain j where j: "find_service_mapping ms (as_dependency m) = Some j" "status (ms' ! j) = s" by blast
  from find_service_mapping_SomeD [OF j(1)] have "j < length ms" "mapping_key (ms ! j) = mapping_key m" by simp_all
  with assms(1) m(2) key i(1) len have "j = i" using nth_eq_iff_index_eq [of "map mapping_key ms" j i] by simp
  with j show "status (ms' ! i) = s" by simp
qed

definition runs_on :: "kernel \<Rightarrow> services_table \<Rightarrow> service_mapping_function \<Rightarrow> bool" where
  "runs_on K services f \<longleftrightarrow> kernel_ok K \<and> spawns K f \<and> sorted_services services"

lemma runs_onD:
  assumes "runs_on K services f"
  shows "kernel_ok K" "spawns K f" "sorted_services services"
  using assms by (simp_all add: runs_on_def)

lemma activation_run:
  assumes "runs_on K services f"
    and "traverse_service_mappings K rounds services (traverse_inter_dependency_mappings services f fuel)
      complete_activation arr st = Inr (success, st')"
    and "idle cap st" and "scoped services A Activation (unified st)" and "keys_of arr \<subseteq> A"
  shows "phase_steps services cap A Activation (unified st) (unified st') \<and> idle cap st'
    \<and> (success \<longrightarrow> all_at (keys_of arr) SERVICE_MAPPING_ACTIVATED (unified st'))"
proof -
  have "\<forall>m \<in> set arr. mapping_key m \<in> keys_of (unified st) \<longrightarrow> mapping_key m \<in> A" using assms(5) by auto
  note run = activation.traverse_safe [OF runs_onD(1,2) [OF assms(1)] callbacks_complete(1) runs_onD(3) [OF assms(1)] idle_tracked [OF assms(3)] assms(4) this assms(2)]
  have "distinct_mappings (unified st)" using assms(3) by (simp add: idle_def)
  with run show ?thesis
    using goal_reached [OF _ phase_steps_same] tracked_idle by (metis goal.simps(1))
qed

lemma deactivation_run:
  assumes "runs_on K services g"
    and "traverse_service_mappings K rounds services (traverse_interdependent_mappings services g fuel)
      complete_deactivation arr st = Inr (success, st')"
    and "idle cap st" and "scoped services A Deactivation (unified st)" and "keys_of arr \<subseteq> A"
  shows "phase_steps services cap A Deactivation (unified st) (unified st') \<and> idle cap st'
    \<and> (success \<longrightarrow> all_at (keys_of arr) SERVICE_MAPPING_DEACTIVATED (unified st'))"
proof -
  have "\<forall>m \<in> set arr. mapping_key m \<in> keys_of (unified st) \<longrightarrow> mapping_key m \<in> A" using assms(5) by auto
  note run = deactivation.traverse_safe [OF runs_onD(1,2) [OF assms(1)] callbacks_complete(2) runs_onD(3) [OF assms(1)] idle_tracked [OF assms(3)] assms(4) this assms(2)]
  have "distinct_mappings (unified st)" using assms(3) by (simp add: idle_def)
  with run show ?thesis
    using goal_reached [OF _ phase_steps_same] tracked_idle by (metis goal.simps(2))
qed


section \<open>The specification of a transition\<close>

text \<open>
  \<open>old\<close> and \<open>new\<close> are the keys of the mappings of the two configurations. A transition takes steps
  of the four phases, each within its scope, and forgives errors in between.
\<close>

inductive transition_step ::
  "services_table \<Rightarrow> (string \<Rightarrow> int) \<Rightarrow> key set \<Rightarrow> key set \<Rightarrow> ServiceMapping list \<Rightarrow> ServiceMapping list \<Rightarrow> bool"
  for services :: services_table and cap :: "string \<Rightarrow> int" and old :: "key set" and new :: "key set" where
  deactivate_obsolete: "phase_step services cap (old - new) Deactivation ms ms' \<Longrightarrow>
    transition_step services cap old new ms ms'"
| activate_new: "phase_step services cap new Activation ms ms' \<Longrightarrow> transition_step services cap old new ms ms'"
| deactivate_new: "phase_step services cap (new - old) Deactivation ms ms' \<Longrightarrow>
    transition_step services cap old new ms ms'"
| activate_old: "phase_step services cap old Activation ms ms' \<Longrightarrow> transition_step services cap old new ms ms'"
| forgive: "s = SERVICE_MAPPING_ACTIVATED \<or> s = SERVICE_MAPPING_DEACTIVATED \<Longrightarrow>
    transition_step services cap old new ms (forgive s ms)"

abbreviation transition_steps ::
  "services_table \<Rightarrow> (string \<Rightarrow> int) \<Rightarrow> key set \<Rightarrow> key set \<Rightarrow> ServiceMapping list \<Rightarrow> ServiceMapping list \<Rightarrow> bool" where
  "transition_steps services cap old new \<equiv> (transition_step services cap old new)\<^sup>*\<^sup>*"

lemma phase_steps_transition:
  assumes "phase_steps services cap A ph ms ms'"
    and "\<And>a b. phase_step services cap A ph a b \<Longrightarrow> transition_step services cap old new a b"
  shows "transition_steps services cap old new ms ms'"
  using assms(1) by (induction rule: rtranclp_induct) (auto intro: assms(2) rtranclp.rtrancl_into_rtrancl)

lemmas transition_phases =
  phase_steps_transition [OF _ transition_step.deactivate_obsolete]
  phase_steps_transition [OF _ transition_step.activate_new]
  phase_steps_transition [OF _ transition_step.deactivate_new]
  phase_steps_transition [OF _ transition_step.activate_old]

lemma transition_steps_in_order:
  "transition_steps services cap old new ms ms' \<Longrightarrow> in_order services ms \<Longrightarrow> in_order services ms'"
proof (induction rule: rtranclp_induct)
  case (step a b)
  from step.hyps(2) step.IH [OF step.prems] show ?case
    by (cases rule: transition_step.cases) (auto intro: phase_step_in_order in_order_forgive)
qed simp

lemma transition_steps_same: "transition_steps services cap old new ms ms' \<Longrightarrow> same_mappings ms ms'"
proof (induction rule: rtranclp_induct)
  case (step a b)
  from step.hyps(2) have "same_mappings a b"
    by (cases rule: transition_step.cases) (auto intro: phase_steps_same forgive_same r_into_rtranclp)
  with step.IH show ?case by (rule same_mappings_trans)
qed simp

text \<open>What belongs to both configurations stays active all the time.\<close>

lemma transition_steps_shared:
  "transition_steps services cap old new ms ms' \<Longrightarrow> all_at (old \<inter> new) SERVICE_MAPPING_ACTIVATED ms \<Longrightarrow>
    all_at (old \<inter> new) SERVICE_MAPPING_ACTIVATED ms'"
proof (induction rule: rtranclp_induct)
  case (step a b)
  note IH = step.IH [OF step.prems]
  note goal_kept = all_at_goal [where ph = Activation, unfolded goal.simps]
  from step.hyps(2) show ?case
  proof (cases rule: transition_step.cases)
    case (forgive s)
    with all_at_forgive [OF IH] show ?thesis by simp
  qed (blast intro: goal_kept [OF r_into_rtranclp IH] all_at_outside [OF r_into_rtranclp IH])+
qed simp

section \<open>The two configurations\<close>

text \<open>
  The unified array holds the mappings of both configurations, and each of them is closed
  under the dependencies of its services.
\<close>

definition split_closed :: "services_table \<Rightarrow> key set \<Rightarrow> key set \<Rightarrow> ServiceMapping list \<Rightarrow> bool" where
  "split_closed services old new ms \<longleftrightarrow> keys_of ms = old \<union> new
     \<and> (\<forall>m \<in> set ms. (mapping_key m \<in> old \<longrightarrow> required services m \<subseteq> old)
                    \<and> (mapping_key m \<in> new \<longrightarrow> required services m \<subseteq> new))"

lemma split_closed_same:
  assumes "split_closed services old new ms" and same: "same_mappings ms ms'"
  shows "split_closed services old new ms'"
proof -
  have "(mapping_key m \<in> old \<longrightarrow> required services m \<subseteq> old) \<and> (mapping_key m \<in> new \<longrightarrow> required services m \<subseteq> new)"
    if "m \<in> set ms'" for m
  proof -
    from that obtain y where y: "y \<in> set ms" "erase_status y = erase_status m" using required_same [OF same] by blast
    from assms(1) y(1) show ?thesis
      unfolding split_closed_def erase_status_eqD(1,2) [OF y(2), symmetric] by blast
  qed
  with assms(1) same_mappings_keys_of [OF same] show ?thesis by (simp add: split_closed_def)
qed

lemma split_scopes:
  assumes "split_closed services old new ms"
  shows "scoped services old Activation ms" "scoped services new Activation ms"
    "scoped services (old - new) Deactivation ms" "scoped services (new - old) Deactivation ms"
proof -
  have 1: "mapping_key x \<in> old \<union> new" if "x \<in> set ms" for x
    using assms that unfolding split_closed_def by blast
  have 2: "mapping_key x \<in> old" if "x \<in> set ms" "y \<in> set ms" "mapping_key x \<in> required services y" "mapping_key y \<in> old" for x y
    using assms that unfolding split_closed_def by blast
  have 3: "mapping_key x \<in> new" if "x \<in> set ms" "y \<in> set ms" "mapping_key x \<in> required services y" "mapping_key y \<in> new" for x y
    using assms that unfolding split_closed_def by blast
  show "scoped services old Activation ms" "scoped services new Activation ms"
    using 2 3 by (simp_all add: scoped_def)
  show "scoped services (old - new) Deactivation ms" "scoped services (new - old) Deactivation ms"
    unfolding scoped_def precedes.simps Diff_iff using 1 3 2 by (metis UnE)+
qed

text \<open>The configuration a transition ends in, by its outcome.\<close>

fun outcome_configuration ::
  "flags \<Rightarrow> key set \<Rightarrow> key set \<Rightarrow> ServiceMapping list \<Rightarrow> TransitionStatus \<Rightarrow> bool" where
  "outcome_configuration flags old new ms TRANSITION_SUCCESS \<longleftrightarrow>
     all_at new SERVICE_MAPPING_ACTIVATED ms \<and> all_at (- new) SERVICE_MAPPING_DEACTIVATED ms"
| "outcome_configuration flags old new ms TRANSITION_FAILED \<longleftrightarrow>
     (if has_flag flags FLAG_NO_ROLLBACK
      then all_at (- old) SERVICE_MAPPING_DEACTIVATED ms \<or> all_at (old - new) SERVICE_MAPPING_DEACTIVATED ms
      else all_at old SERVICE_MAPPING_ACTIVATED ms \<and> all_at (- old) SERVICE_MAPPING_DEACTIVATED ms)"
| "outcome_configuration flags old new ms TRANSITION_OBSOLETE_MAPPINGS_ROLLBACK_FAILED \<longleftrightarrow>
     all_at (- old) SERVICE_MAPPING_DEACTIVATED ms"
| "outcome_configuration flags old new ms TRANSITION_NEW_MAPPINGS_ROLLBACK_FAILED \<longleftrightarrow>
     all_at (old - new) SERVICE_MAPPING_DEACTIVATED ms"

section \<open>The phases meet the specification\<close>

lemma rollback_to_old_correct:
  assumes "runs_on K services f" and "idle cap st" and split: "split_closed services old new (unified st)"
    and "keys_of olds = old"
    and "rollback_to_old_mappings K fuel rounds services olds f st = Inr (success, st')"
  shows "transition_steps services cap old new (unified st) (unified st') \<and> idle cap st'
    \<and> (success \<longrightarrow> all_at old SERVICE_MAPPING_ACTIVATED (unified st'))
    \<and> (all_at (- old) SERVICE_MAPPING_DEACTIVATED (unified st) \<longrightarrow>
        all_at (- old) SERVICE_MAPPING_DEACTIVATED (unified st'))"
proof -
  let ?st = "mark_erroneous_mappings SERVICE_MAPPING_ACTIVATED st"
  note split' = split_closed_same [OF split forgive_same]
  have run: "phase_steps services cap old Activation (unified ?st) (unified st') \<and> idle cap st'
    \<and> (success \<longrightarrow> all_at (keys_of olds) SERVICE_MAPPING_ACTIVATED (unified st'))"
    using assms(5) unfolding rollback_to_old_mappings_def
    by (rule activation_run [OF assms(1)]) (use assms(2,4) split_scopes(1) [OF split'] in \<open>simp_all add: idle_forgive\<close>)
  have "transition_steps services cap old new (unified st) (unified ?st)"
    using transition_step.forgive [of SERVICE_MAPPING_ACTIVATED] by (simp add: r_into_rtranclp)
  also have "transition_steps services cap old new (unified ?st) (unified st')"
    using transition_phases(4) run by blast
  finally show ?thesis
    using run assms(4) all_at_outside [of services cap old Activation "unified ?st" "unified st'" "- old"]
      all_at_forgive [of "- old" SERVICE_MAPPING_DEACTIVATED "unified st"] by simp
qed

lemma rollback_new_correct:
  assumes "runs_on K services g" and "idle cap st" and split: "split_closed services old new (unified st)"
    and "keys_of news = new - old"
    and "rollback_new_mappings K fuel rounds services news g st = Inr (success, st')"
  shows "transition_steps services cap old new (unified st) (unified st') \<and> idle cap st'
    \<and> (success \<longrightarrow> all_at (new - old) SERVICE_MAPPING_DEACTIVATED (unified st'))
    \<and> (all_at (old - new) SERVICE_MAPPING_DEACTIVATED (unified st) \<longrightarrow>
        all_at (old - new) SERVICE_MAPPING_DEACTIVATED (unified st'))"
proof -
  let ?st = "mark_erroneous_mappings SERVICE_MAPPING_DEACTIVATED st"
  note split' = split_closed_same [OF split forgive_same]
  have run: "phase_steps services cap (new - old) Deactivation (unified ?st) (unified st') \<and> idle cap st'
    \<and> (success \<longrightarrow> all_at (keys_of news) SERVICE_MAPPING_DEACTIVATED (unified st'))"
    using assms(5) unfolding rollback_new_mappings_def
    by (rule deactivation_run [OF assms(1)]) (use assms(2,4) split_scopes(4) [OF split'] in \<open>simp_all add: idle_forgive\<close>)
  have "transition_steps services cap old new (unified st) (unified ?st)"
    using transition_step.forgive [of SERVICE_MAPPING_DEACTIVATED] by (simp add: r_into_rtranclp)
  also have "transition_steps services cap old new (unified ?st) (unified st')"
    using transition_phases(3) run by blast
  finally show ?thesis
    using run assms(4) all_at_outside [of services cap "new - old" Deactivation "unified ?st" "unified st'" "old - new"]
      all_at_forgive [of "old - new" SERVICE_MAPPING_DEACTIVATED "unified st"] by (simp add: Diff_Int_distrib2)
qed


text \<open>A state between the phases: the previous configuration is active, or what is left of it.\<close>

lemma deactivate_obsolete_correct:
  assumes "runs_on K services f" "runs_on K services g" and "idle cap st"
    and split: "split_closed services old new (unified st)"
    and "keys_of arr = old - new" and "olds = Some oa" and "keys_of oa = old"
    and before: "all_at (- old) SERVICE_MAPPING_DEACTIVATED (unified st)"
    and run: "deactivate_obsolete_mappings K fuel rounds services (Some arr) olds flags f g st = Inr (outcome, st')"
  shows "transition_steps services cap old new (unified st) (unified st') \<and> idle cap st'
    \<and> (outcome = TRANSITION_SUCCESS \<longrightarrow> all_at (old - new) SERVICE_MAPPING_DEACTIVATED (unified st')
        \<and> all_at (- old) SERVICE_MAPPING_DEACTIVATED (unified st'))
    \<and> (outcome \<noteq> TRANSITION_SUCCESS \<longrightarrow> outcome_configuration flags old new (unified st') outcome)"
proof -
  from run obtain success st1 where 1: "traverse_service_mappings K rounds services
      (traverse_interdependent_mappings services g fuel) complete_deactivation arr st = Inr (success, st1)"
    and rest: "(if success \<and> \<not> k_interrupted K (world st1) then Inr (TRANSITION_SUCCESS, st1)
          else if has_flag flags FLAG_NO_ROLLBACK then Inr (TRANSITION_FAILED, st1)
          else bindr (deref olds) (\<lambda>oldm.
               bindr (rollback_to_old_mappings K fuel rounds services oldm f st1) (\<lambda>(success, st).
               Inr (if success then TRANSITION_FAILED else TRANSITION_OBSOLETE_MAPPINGS_ROLLBACK_FAILED, st))))
        = Inr (outcome, st')"
    by (auto simp: deactivate_obsolete_mappings_def bindr_eq_Inr)
  have p1: "phase_steps services cap (old - new) Deactivation (unified st) (unified st1) \<and> idle cap st1
    \<and> (success \<longrightarrow> all_at (keys_of arr) SERVICE_MAPPING_DEACTIVATED (unified st1))"
    by (rule deactivation_run [OF assms(2) 1 assms(3) split_scopes(3) [OF split]]) (simp add: assms(5))
  then have steps1: "transition_steps services cap old new (unified st) (unified st1)"
    using transition_phases(1) by blast
  have out1: "all_at (- old) SERVICE_MAPPING_DEACTIVATED (unified st1)"
    using all_at_outside [OF _ before] p1 by blast
  show ?thesis
  proof (cases "success \<and> \<not> k_interrupted K (world st1) \<or> has_flag flags FLAG_NO_ROLLBACK")
    case True
    with rest p1 steps1 out1 assms(5) show ?thesis by (auto split: if_splits)
  next
    case False
    with rest assms(6) obtain s2 where 2: "rollback_to_old_mappings K fuel rounds services oa f st1 = Inr (s2, st')"
      "outcome = (if s2 then TRANSITION_FAILED else TRANSITION_OBSOLETE_MAPPINGS_ROLLBACK_FAILED)"
      by (auto simp: bindr_eq_Inr split: if_splits)
    note split1 = split_closed_same [OF split transition_steps_same [OF steps1]]
    note undo = rollback_to_old_correct [OF assms(1) _ split1 assms(7) 2(1)]
    from undo p1 out1 2(2) False rtranclp_trans [OF steps1, of "unified st'"] show ?thesis by (simp split: if_splits)
  qed
qed

lemma activate_new_correct:
  assumes "runs_on K services f" "runs_on K services g" and "idle cap st"
    and split: "split_closed services old new (unified st)"
    and arr: "keys_of arr = new - old" and olds: "case olds of None \<Rightarrow> old = {} | Some oa \<Rightarrow> keys_of oa = old"
    and before: "all_at (old - new) SERVICE_MAPPING_DEACTIVATED (unified st)"
      "all_at (old \<inter> new) SERVICE_MAPPING_ACTIVATED (unified st)"
    and run: "activate_new_mappings K fuel rounds services arr olds flags f g st = Inr (outcome, st')"
  shows "transition_steps services cap old new (unified st) (unified st') \<and> idle cap st'
    \<and> outcome_configuration flags old new (unified st') outcome"
proof -
  have keys: "keys_of ms \<subseteq> old \<union> new" if "same_mappings (unified st) ms" for ms
    using split_closed_same [OF split that] by (simp add: split_closed_def)
  have outside: "all_at (- new) s ms \<longleftrightarrow> all_at (old - new) s ms" "all_at (- old) s ms \<longleftrightarrow> all_at (new - old) s ms"
    if "same_mappings (unified st) ms" for s ms
    using keys [OF that] by (auto simp: all_at_def)
  from run obtain success st1 where 1: "traverse_service_mappings K rounds services
      (traverse_inter_dependency_mappings services f fuel) complete_activation arr st = Inr (success, st1)"
    and rest: "(if success \<and> \<not> k_interrupted K (world st1) then Inr (TRANSITION_SUCCESS, st1)
     else if has_flag flags FLAG_NO_ROLLBACK then Inr (TRANSITION_FAILED, st1)
     else bindr (rollback_new_mappings K fuel rounds services arr g st1)
       (\<lambda>(success, st).
          if \<not> success then Inr (TRANSITION_NEW_MAPPINGS_ROLLBACK_FAILED, st)
          else (case olds of
              None \<Rightarrow> Inr (TRANSITION_FAILED, st)
            | Some oa \<Rightarrow>
                bindr (rollback_to_old_mappings K fuel rounds services oa f st) (\<lambda>(success, st).
                Inr (if success then TRANSITION_FAILED else TRANSITION_OBSOLETE_MAPPINGS_ROLLBACK_FAILED, st)))))
      = Inr (outcome, st')"
    by (auto simp: activate_new_mappings_def bindr_eq_Inr)
  have p1: "phase_steps services cap new Activation (unified st) (unified st1) \<and> idle cap st1
    \<and> (success \<longrightarrow> all_at (keys_of arr) SERVICE_MAPPING_ACTIVATED (unified st1))"
    by (rule activation_run [OF assms(1) 1 assms(3) split_scopes(2) [OF split]]) (auto simp: arr)
  then have steps1: "transition_steps services cap old new (unified st) (unified st1)"
    using transition_phases(2) by blast
  note same1 = transition_steps_same [OF steps1]
  have out1: "all_at (old - new) SERVICE_MAPPING_DEACTIVATED (unified st1)"
    using all_at_outside [OF _ before(1)] p1 by blast
  have shared1: "all_at (old \<inter> new) SERVICE_MAPPING_ACTIVATED (unified st1)"
    by (rule transition_steps_shared [OF steps1 before(2)])
  have "all_at new SERVICE_MAPPING_ACTIVATED (unified st1)" if success
    using that p1 arr shared1 all_at_Un [of "new - old" "old \<inter> new" SERVICE_MAPPING_ACTIVATED "unified st1"]
    by (simp add: Un_Diff_Int Int_commute)
  note new1 = this
  show ?thesis
  proof (cases "success \<and> \<not> k_interrupted K (world st1) \<or> has_flag flags FLAG_NO_ROLLBACK")
    case True
    with rest p1 steps1 out1 new1 outside(1) [OF same1] show ?thesis by (auto split: if_splits)
  next
    case False
    note split1 = split_closed_same [OF split same1]
    from False rest obtain s2 st2 where 2: "rollback_new_mappings K fuel rounds services arr g st1 = Inr (s2, st2)"
      and rest2: "(if \<not> s2 then Inr (TRANSITION_NEW_MAPPINGS_ROLLBACK_FAILED, st2)
          else (case olds of
              None \<Rightarrow> Inr (TRANSITION_FAILED, st2)
            | Some oa \<Rightarrow>
                bindr (rollback_to_old_mappings K fuel rounds services oa f st2) (\<lambda>(success, st).
                Inr (if success then TRANSITION_FAILED else TRANSITION_OBSOLETE_MAPPINGS_ROLLBACK_FAILED, st))))
          = Inr (outcome, st')"
      by (auto simp: bindr_eq_Inr split: if_splits)
    have p2: "transition_steps services cap old new (unified st1) (unified st2) \<and> idle cap st2
      \<and> (s2 \<longrightarrow> all_at (new - old) SERVICE_MAPPING_DEACTIVATED (unified st2))
      \<and> all_at (old - new) SERVICE_MAPPING_DEACTIVATED (unified st2)"
      using rollback_new_correct [OF assms(2) _ split1 arr 2] p1 out1 by blast
    then have steps2: "transition_steps services cap old new (unified st) (unified st2)"
      using rtranclp_trans [OF steps1] by blast
    note same2 = transition_steps_same [OF steps2]
    show ?thesis
    proof (cases "s2 \<and> olds \<noteq> None")
      case True
      then obtain oa where oa: "olds = Some oa" "keys_of oa = old" using olds by auto
      from True rest2 oa obtain s3 where 3: "rollback_to_old_mappings K fuel rounds services oa f st2 = Inr (s3, st')"
        "outcome = (if s3 then TRANSITION_FAILED else TRANSITION_OBSOLETE_MAPPINGS_ROLLBACK_FAILED)"
        by (auto simp: bindr_eq_Inr split: if_splits)
      note split2 = split_closed_same [OF split same2]
      from rollback_to_old_correct [OF assms(1) _ split2 oa(2) 3(1)] p2 rtranclp_trans [OF steps2, of "unified st'"]
        3(2) True False outside(2) [OF same2]
      show ?thesis by (simp split: if_splits)
    next
      case no_old: False
      from rest2 olds no_old False p2 steps2 outside(2) [OF same2] show ?thesis
        by (auto simp: all_at_def split: if_splits option.splits)
    qed
  qed
qed


section \<open>The plan\<close>

definition previous_mappings :: "Manifest option \<Rightarrow> ServiceMapping list" where
  "previous_mappings previous = (case previous of None \<Rightarrow> [] | Some p \<Rightarrow> service_mapping_array p)"

text \<open>
  What the manifests have to be: their mappings are sorted, without duplicates, and closed under
  dependencies, the new ones as the parser leaves them.
\<close>

definition consistent_mappings :: "services_table \<Rightarrow> ServiceMapping list \<Rightarrow> bool" where
  "consistent_mappings services ms \<longleftrightarrow> sorted_mappings ms \<and> distinct_mappings ms
     \<and> (\<forall>m \<in> set ms. required services m \<subseteq> keys_of ms \<and> status m = SERVICE_MAPPING_DEACTIVATED)"

definition transition_inputs :: "ServiceMapping sort_function \<Rightarrow> Manifest \<Rightarrow> Manifest option \<Rightarrow> bool" where
  "transition_inputs srt manifest previous \<longleftrightarrow> sorts_by srt compare_service_mappings
     \<and> sorted_services (plan_services (plan_transition srt manifest previous))
     \<and> consistent_mappings (plan_services (plan_transition srt manifest previous)) (service_mapping_array manifest)
     \<and> consistent_mappings (plan_services (plan_transition srt manifest previous)) (previous_mappings previous)"

definition available_capacity :: "Target hashtable \<Rightarrow> string \<Rightarrow> int" where
  "available_capacity ts tn = (case map_of ts tn of None \<Rightarrow> 0 | Some t \<Rightarrow> available_cores t)"

definition planned :: "transition_plan \<Rightarrow> key set \<Rightarrow> key set \<Rightarrow> bool" where
  "planned plan old new \<longleftrightarrow> sorted_mappings (plan_unified plan) \<and> distinct_mappings (plan_unified plan)
     \<and> split_closed (plan_services plan) old new (plan_unified plan)
     \<and> all_at old SERVICE_MAPPING_ACTIVATED (plan_unified plan)
     \<and> all_at (- old) SERVICE_MAPPING_DEACTIVATED (plan_unified plan)
     \<and> keys_of (plan_activation plan) = new - old
     \<and> (case plan_deactivation plan of
          None \<Rightarrow> plan_previous plan = None \<and> old = {}
        | Some arr \<Rightarrow> keys_of arr = old - new \<and> (\<exists>oa. plan_previous plan = Some oa \<and> keys_of oa = old))"

lemma keys_of_filter_not: "keys_of (filter (\<lambda>m. mapping_key m \<notin> X) xs) = keys_of xs - X"
  by auto

lemma required_key:
  "mapping_key m = mapping_key m' \<Longrightarrow> required services m = required services m'"
  by (simp add: mapping_key_def required_def cong: option.case_cong)

lemma plan_transition_planned:
  assumes "transition_inputs srt manifest previous"
  shows "planned (plan_transition srt manifest previous) (keys_of (previous_mappings previous))
    (keys_of (service_mapping_array manifest))"
proof (cases previous)
  case None
  with assms show ?thesis
    by (auto simp: planned_def transition_inputs_def consistent_mappings_def plan_transition_def
        previous_mappings_def split_closed_def all_at_def)
next
  case (Some p)
  let ?plan = "plan_transition srt manifest previous" and ?u = "plan_services (plan_transition srt manifest previous)"
  let ?l = "service_mapping_array p" and ?r = "service_mapping_array manifest"
  let ?i = "intersect_service_mapping_array ?r ?l"
  have srt: "sorts_by srt compare_service_mappings" and r: "consistent_mappings ?u ?r" and l: "consistent_mappings ?u ?l"
    using assms Some by (simp_all add: transition_inputs_def previous_mappings_def)
  have sl: "sorted_mappings ?l" "distinct_mappings ?l" and sr: "sorted_mappings ?r" "distinct_mappings ?r"
    using l r by (simp_all add: consistent_mappings_def)
  have si: "sorted_mappings ?i" by (rule intersect_sorted [OF sr(1) sl(1)])
  have ki: "keys_of ?i = keys_of ?l \<inter> keys_of ?r" using intersect_keys [OF sr(1) sl(1)] by blast
  have plan: "plan_unified ?plan = unify_service_mapping_array srt ?l ?r ?i"
    "plan_deactivation ?plan = Some (substract_service_mapping_array ?l ?i)"
    "plan_activation ?plan = substract_service_mapping_array ?r ?i" "plan_previous ?plan = Some ?l"
    using Some by (simp_all add: plan_transition_def Let_def)
  note members = unify_members [OF srt si, of ?l ?r]
  have key: "keys_of (plan_unified ?plan) = keys_of ?l \<union> keys_of ?r"
    unfolding plan members ki image_Un image_image mapping_key_status by auto
  have status: "status m = (if mapping_key m \<in> keys_of ?l then SERVICE_MAPPING_ACTIVATED else SERVICE_MAPPING_DEACTIVATED)"
    if "m \<in> set (plan_unified ?plan)" for m
    using that unfolding plan members ki by (auto simp del: image_iff)
  have closed: "required ?u m \<subseteq> keys_of ms" if ms: "consistent_mappings ?u ms" and m: "mapping_key m \<in> keys_of ms"
    for m and ms :: "ServiceMapping list"
  proof -
    from m obtain m' where "m' \<in> set ms" "mapping_key m' = mapping_key m" by auto
    with ms required_key [OF this(2)] show ?thesis unfolding consistent_mappings_def by blast
  qed
  have "split_closed ?u (keys_of ?l) (keys_of ?r) (plan_unified ?plan)"
    unfolding split_closed_def using key closed [OF l] closed [OF r] by blast
  moreover have "keys_of (substract_service_mapping_array ?l ?i) = keys_of ?l - keys_of ?r"
    "keys_of (substract_service_mapping_array ?r ?i) = keys_of ?r - keys_of ?l"
    unfolding substract_eq [OF si] ki keys_of_filter_not by auto
  moreover have "sorted_mappings (plan_unified ?plan)" "distinct_mappings (plan_unified ?plan)"
    unfolding plan by (rule unify_sorted [OF srt], rule unify_distinct [OF srt si sl(2) sr(2) ki])
  ultimately show ?thesis
    using status plan Some by (simp add: planned_def previous_mappings_def all_at_def)
qed

section \<open>The transition meets the specification\<close>

lemma transition_correct:
  assumes K: "kernel_ok K" and w: "wf_os w" and inputs: "transition_inputs srt manifest previous"
    and run: "transition K srt fuel rounds manifest previous flags w = Inr (outcome, st')"
  shows "transition_steps (plan_services (plan_transition srt manifest previous))
      (available_capacity (targets_table manifest)) (keys_of (previous_mappings previous))
      (keys_of (service_mapping_array manifest))
      (plan_unified (plan_transition srt manifest previous)) (unified st')
    \<and> outcome_configuration flags (keys_of (previous_mappings previous))
      (keys_of (service_mapping_array manifest)) (unified st') outcome"
proof -
  let ?plan = "plan_transition srt manifest previous" and ?cap = "available_capacity (targets_table manifest)"
  let ?old = "keys_of (previous_mappings previous)" and ?new = "keys_of (service_mapping_array manifest)"
  let ?steps = "transition_steps (plan_services ?plan) ?cap ?old ?new"
  obtain f g where fg: "mapping_functions K flags = (f, g)" by fastforce
  let ?st = "\<lparr>unified = plan_unified ?plan, targets = targets_table manifest, pid_table = [], world = w\<rparr>"
  have sorted: "sorted_services (plan_services ?plan)" using inputs by (simp add: transition_inputs_def)
  have on: "runs_on K (plan_services ?plan) f" "runs_on K (plan_services ?plan) g"
    using K sorted mapping_functions_spawn [OF fg] by (simp_all add: runs_on_def)
  note plan = plan_transition_planned [OF inputs, unfolded planned_def]
  have "busy (plan_unified ?plan) tn = 0" for tn
  proof -
    have "status m \<noteq> SERVICE_MAPPING_IN_PROGRESS" if "m \<in> set (plan_unified ?plan)" for m
      using plan that unfolding all_at_def by (cases "mapping_key m \<in> ?old") auto
    then show ?thesis by (simp add: busy_def)
  qed
  then have idle: "idle ?cap ?st" using plan w by (simp add: idle_def available_capacity_def)
  have run': "bindr (deactivate_obsolete_mappings K fuel rounds (plan_services ?plan) (plan_deactivation ?plan)
        (plan_previous ?plan) flags f g ?st) (\<lambda>(outcome, st).
      if outcome = TRANSITION_SUCCESS
      then activate_new_mappings K fuel rounds (plan_services ?plan) (plan_activation ?plan)
             (plan_previous ?plan) flags f g st
      else Inr (outcome, st)) = Inr (outcome, st')"
    using run fg by (simp add: transition_def Let_def)
  then obtain o1 st1 where 1: "deactivate_obsolete_mappings K fuel rounds (plan_services ?plan) (plan_deactivation ?plan)
        (plan_previous ?plan) flags f g ?st = Inr (o1, st1)"
    and rest: "if o1 = TRANSITION_SUCCESS
      then activate_new_mappings K fuel rounds (plan_services ?plan) (plan_activation ?plan)
             (plan_previous ?plan) flags f g st1 = Inr (outcome, st')
      else outcome = o1 \<and> st' = st1"
    by (auto simp: bindr_eq_Inr split: if_splits)
  have split: "split_closed (plan_services ?plan) ?old ?new (unified ?st)" using plan by simp
  have p1: "?steps (unified ?st) (unified st1) \<and> idle ?cap st1
    \<and> (o1 = TRANSITION_SUCCESS \<longrightarrow> all_at (?old - ?new) SERVICE_MAPPING_DEACTIVATED (unified st1)
        \<and> all_at (- ?old) SERVICE_MAPPING_DEACTIVATED (unified st1))
    \<and> (o1 \<noteq> TRANSITION_SUCCESS \<longrightarrow> outcome_configuration flags ?old ?new (unified st1) o1)"
  proof (cases "plan_deactivation ?plan")
    case None
    with 1 plan idle show ?thesis by (auto simp: deactivate_obsolete_mappings_def all_at_def)
  next
    case (Some arr)
    with plan obtain oa where oa: "keys_of arr = ?old - ?new" "plan_previous ?plan = Some oa" "keys_of oa = ?old" by auto
    show ?thesis
      by (rule deactivate_obsolete_correct [OF on idle split oa _ 1 [unfolded Some]]) (use plan in simp)
  qed
  then have steps1: "?steps (unified ?st) (unified st1)" and idle1: "idle ?cap st1" by blast+
  show ?thesis
  proof (cases "o1 = TRANSITION_SUCCESS")
    case False
    with rest p1 show ?thesis by simp
  next
    case True
    note split1 = split_closed_same [OF split transition_steps_same [OF steps1]]
    have shared: "all_at (?old \<inter> ?new) SERVICE_MAPPING_ACTIVATED (unified st1)"
      by (rule transition_steps_shared [OF steps1]) (use plan in \<open>auto elim: all_at_mono\<close>)
    have olds: "case plan_previous ?plan of None \<Rightarrow> ?old = {} | Some oa \<Rightarrow> keys_of oa = ?old"
      using plan by (cases "plan_deactivation ?plan") auto
    from True rest have 2: "activate_new_mappings K fuel rounds (plan_services ?plan) (plan_activation ?plan)
             (plan_previous ?plan) flags f g st1 = Inr (outcome, st')" by simp
    have "keys_of (plan_activation ?plan) = ?new - ?old" using plan by blast
    from activate_new_correct [OF on idle1 split1 this olds _ shared 2] p1 True rtranclp_trans [OF steps1]
    show ?thesis by simp
  qed
qed

text \<open>An array is determined by its mappings and the configuration it is in.\<close>

lemma configuration_unique:
  assumes "same_mappings ms ms'"
    and "all_at X s ms" "all_at (- X) t ms" "all_at X s ms'" "all_at (- X) t ms'"
  shows "ms' = ms"
proof (rule nth_equalityI)
  show len: "length ms' = length ms" using same_mappings_length [OF assms(1)] by simp
  fix i assume i: "i < length ms'"
  then have e: "erase_status (ms ! i) = erase_status (ms' ! i)" using same_mappings_nth [OF assms(1)] len by simp
  have st: "status (ms ! i) = status (ms' ! i)"
    using assms(2-) i len erase_status_eqD(1) [OF e] unfolding all_at_nth by (metis ComplI)
  have "ms ! i = (ms ! i)\<lparr>status := status (ms ! i)\<rparr>" "ms' ! i = (ms' ! i)\<lparr>status := status (ms' ! i)\<rparr>" by simp_all
  then show "ms' ! i = ms ! i" unfolding st using erase_status_restore [OF e] by metis
qed

end
