(* ===== verification/Transition_Liveness.thy ===== *)
theory Transition_Liveness
  imports Transition_Correct
begin

text \<open>
  The transition returns: on a kernel whose forks succeed and whose waits are not
  interrupted, for manifests that pass the checks, are closed under dependencies and whose
  dependency graph has no cycle. It runs one process at a time, leaves none behind, and
  succeeds if every process does and the user does not interrupt it.
\<close>

section \<open>The callbacks answer\<close>

definition serviceable :: "services_table \<Rightarrow> ServiceMapping list \<Rightarrow> Target hashtable \<Rightarrow> bool" where
  "serviceable services ms ts \<longleftrightarrow> (\<forall>m \<in> set ms.
     (\<exists>sn svc ds. service m = Some sn \<and> map_of services sn = Some svc \<and> depends_on svc = Some ds)
     \<and> required services m \<subseteq> keys_of ms \<and> target m \<noteq> None
     \<and> (\<forall>tn t. target m = Some tn \<longrightarrow> map_of ts tn = Some t \<longrightarrow> check_target t = Inr True
          \<and> mapping_resolvable services t (service m) (container m) (container_provided_by_service m)))"

text \<open>The dependency graph has no cycle: \<open>rank\<close> grows along the dependencies.\<close>

definition ranked :: "services_table \<Rightarrow> (key \<Rightarrow> nat) \<Rightarrow> nat \<Rightarrow> ServiceMapping list \<Rightarrow> bool" where
  "ranked services rank fuel ms \<longleftrightarrow> (\<forall>m \<in> set ms. rank (mapping_key m) < fuel)
     \<and> (\<forall>x \<in> set ms. \<forall>y \<in> set ms. mapping_key x \<in> required services y \<longrightarrow> rank (mapping_key x) < rank (mapping_key y))"

lemma mapping_functions_respond:
  assumes fg: "mapping_functions K flags = (f, g)" and "check_target t = Inr True"
    and "mapping_resolvable services t (service m) (container m) (container_provided_by_service m)"
  shows "responds services f m t \<and> responds services g m t"
proof -
  obtain p s where p: "create_mapping_parameters (service m) (container m) (target m)
      (container_provided_by_service m) services t = Inr p" "params_service p = Some s"
    using create_mapping_parameters_total [OF assms(3)] by fastforce
  obtain k where "find_target_key t = Inr k" using check_target_find_key [OF assms(2)] by blast
  then have "\<exists>r. h m (params_service p) t (params_type p) (params_arguments p) (params_arguments_size p) w = Inr r"
    if "h = f \<or> h = g" for h w
    using that fg p(2)
    by (auto simp: mapping_functions_def activate_mapping_def deactivate_mapping_def dry_run_activate_mapping_def
        dry_run_deactivate_mapping_def print_activation_step_def split: if_splits)
  with p(1) show ?thesis unfolding responds_def by blast
qed

lemma check_target_cores [simp]: "check_target (t\<lparr>available_cores := n\<rparr>) = check_target t"
  by (simp add: check_target_def)

lemma mapping_resolvable_cores [simp]:
  "mapping_resolvable services (t\<lparr>available_cores := n\<rparr>) s c p = mapping_resolvable services t s c p"
  by (simp add: mapping_resolvable_def)

lemma serviceable_workable:
  assumes fg: "mapping_functions K flags = (f, g)" and "serviceable services ms ts" and "ranked services rank fuel ms"
  shows "workable services f rank Activation ms ts"
    and "workable services g (\<lambda>k. fuel - 1 - rank k) Deactivation ms ts"
proof -
  have each: "\<exists>sn svc ds tn. service m = Some sn \<and> map_of services sn = Some svc
        \<and> depends_on svc = Some ds \<and> keys_of ds \<subseteq> keys_of ms \<and> target m = Some tn
        \<and> (\<forall>t s n. map_of ts tn = Some t \<longrightarrow> responds services h (m\<lparr>status := s\<rparr>) (t\<lparr>available_cores := n\<rparr>))"
    if h: "h = f \<or> h = g" and m: "m \<in> set ms" for h m
  proof -
    from assms(2) m obtain sn svc ds tn where 1: "service m = Some sn" "map_of services sn = Some svc"
      "depends_on svc = Some ds" "required services m \<subseteq> keys_of ms" "target m = Some tn"
      "\<forall>t. map_of ts tn = Some t \<longrightarrow> check_target t = Inr True
          \<and> mapping_resolvable services t (service m) (container m) (container_provided_by_service m)"
      unfolding serviceable_def by blast
    have "keys_of ds \<subseteq> keys_of ms" using 1(1-4) by (simp add: required_def)
    moreover have "responds services h (m\<lparr>status := s\<rparr>) (t\<lparr>available_cores := n\<rparr>)" if "map_of ts tn = Some t" for t s n
      using mapping_functions_respond [OF fg, of "t\<lparr>available_cores := n\<rparr>" services "m\<lparr>status := s\<rparr>"] 1(6) that h
      by auto
    ultimately show ?thesis using 1(1-3,5) by blast
  qed
  have "fuel - 1 - rank (mapping_key x) < fuel - 1 - rank (mapping_key y)"
    if "x \<in> set ms" "y \<in> set ms" "mapping_key y \<in> required services x" for x y
  proof -
    have "rank (mapping_key y) < rank (mapping_key x)" "rank (mapping_key x) < fuel"
      using assms(3) that unfolding ranked_def by blast+
    then show ?thesis by linarith
  qed
  note down = this
  have up: "rank (mapping_key x) < rank (mapping_key y)"
    if "x \<in> set ms" "y \<in> set ms" "mapping_key x \<in> required services y" for x y
    using assms(3) that unfolding ranked_def by blast
  show "workable services f rank Activation ms ts"
    unfolding workable_def precedes.simps using each up by blast
  show "workable services g (\<lambda>k. fuel - 1 - rank k) Deactivation ms ts"
    unfolding workable_def precedes.simps using each down by blast
qed

lemma serviceable_kept:
  assumes "serviceable services ms ts" and same: "same_mappings ms ms'" and machines: "same_machines ts ts'"
  shows "serviceable services ms' ts'"
  unfolding serviceable_def
proof (intro ballI)
  fix m assume "m \<in> set ms'"
  then obtain y where y: "y \<in> set ms" "erase_status y = erase_status m" using required_same [OF same] by blast
  note eqs = erase_status_eqD [OF y(2), symmetric]
  have "check_target t = Inr True \<and> mapping_resolvable services t (service y) (container y) (container_provided_by_service y)"
    if t: "target y = Some tn" "map_of ts' tn = Some t" for tn t
  proof -
    obtain t0 where t0: "map_of ts tn = Some t0" "t = t0\<lparr>available_cores := available_cores t\<rparr>"
      using same_machines_cores [OF machines t(2)] .
    have "check_target t0 = Inr True"
      "mapping_resolvable services t0 (service y) (container y) (container_provided_by_service y)"
      using assms(1) y(1) t(1) t0(1) unfolding serviceable_def by blast+
    then show ?thesis unfolding arg_cong [OF t0(2), of check_target]
      arg_cong [OF t0(2), of "\<lambda>t. mapping_resolvable services t (service y) (container y) (container_provided_by_service y)"]
      by simp
  qed
  with assms(1) y(1) show "(\<exists>sn svc ds. service m = Some sn \<and> map_of services sn = Some svc \<and> depends_on svc = Some ds)
     \<and> required services m \<subseteq> keys_of ms' \<and> target m \<noteq> None
     \<and> (\<forall>tn t. target m = Some tn \<longrightarrow> map_of ts' tn = Some t \<longrightarrow> check_target t = Inr True
          \<and> mapping_resolvable services t (service m) (container m) (container_provided_by_service m))"
    unfolding serviceable_def eqs same_mappings_keys_of [OF same] by blast
qed

lemma ranked_kept:
  assumes "ranked services rank fuel ms" and same: "same_mappings ms ms'"
  shows "ranked services rank fuel ms'"
proof -
  have pair: "rank (mapping_key x) < rank (mapping_key y)"
    if xy: "x \<in> set ms'" "y \<in> set ms'" "mapping_key x \<in> required services y" for x y
  proof -
    from xy obtain x' y' where "x' \<in> set ms" and e: "erase_status x' = erase_status x" "erase_status y' = erase_status y"
      and "y' \<in> set ms" using required_same [OF same] by metis
    with assms(1) xy(3) show ?thesis
      unfolding ranked_def erase_status_eqD(1) [OF e(1), symmetric] erase_status_eqD(1,2) [OF e(2), symmetric] by blast
  qed
  have "rank (mapping_key m) < fuel" if "m \<in> set ms'" for m
  proof -
    have "mapping_key m \<in> keys_of ms" using that same_mappings_keys_of [OF same] by blast
    with assms(1) show ?thesis unfolding ranked_def by auto
  qed
  with pair show ?thesis unfolding ranked_def by blast
qed

section \<open>Resting between the phases\<close>

definition resting :: "(string \<Rightarrow> int) \<Rightarrow> traverse_state \<Rightarrow> bool" where
  "resting cap st \<longleftrightarrow> idle cap st \<and> children (world st) = []
     \<and> (\<forall>m \<in> set (unified st). status m \<noteq> SERVICE_MAPPING_IN_PROGRESS)
     \<and> (\<forall>tn t. map_of (targets st) tn = Some t \<longrightarrow> available_cores t = cap tn \<and> 1 \<le> cap tn)"

lemma resting_busy: "resting cap st \<Longrightarrow> busy (unified st) tn = 0"
  by (simp add: resting_def busy_def)

lemma resting_live:
  assumes "resting cap st" and "scoped services A ph (unified st)" and "workable services f rank ph (unified st) (targets st)"
  shows "live services f rank ph cap A (st\<lparr>pid_table := []\<rparr>)"
proof (rule liveI)
  show "tracked cap A (st\<lparr>pid_table := []\<rparr>)" using assms(1) idle_tracked by (simp add: resting_def)
  show "i \<in> snd ` set (pid_table (st\<lparr>pid_table := []\<rparr>))"
    if "i < length (unified (st\<lparr>pid_table := []\<rparr>))" "status (unified (st\<lparr>pid_table := []\<rparr>) ! i) = SERVICE_MAPPING_IN_PROGRESS" for i
    using that assms(1) nth_mem [of i "unified st"] by (simp add: resting_def)
qed (use assms resting_busy [OF assms(1)] in \<open>simp_all add: resting_def\<close>)

lemma live_resting:
  assumes "live services f rank ph cap A st" and "children (world st) = []"
  shows "resting cap st"
proof -
  have "\<forall>m \<in> set (unified st). status m \<noteq> SERVICE_MAPPING_IN_PROGRESS"
    using live_no_children(2) [OF assms] by (metis in_set_conv_nth)
  moreover have "available_cores t = cap tn \<and> 1 \<le> cap tn" if "map_of (targets st) tn = Some t" for tn t
    using assms(1) that live_no_children(3) [OF assms] unfolding live_def by fastforce
  ultimately show ?thesis using tracked_idle [OF live_tracked [OF assms(1)]] assms(2) by (simp add: resting_def)
qed


definition prepared ::
  "services_table \<Rightarrow> (string \<Rightarrow> int) \<Rightarrow> (key \<Rightarrow> nat) \<Rightarrow> nat \<Rightarrow> nat \<Rightarrow> traverse_state \<Rightarrow> bool" where
  "prepared services cap rank fuel rounds st \<longleftrightarrow> resting cap st \<and> serviceable services (unified st) (targets st)
     \<and> ranked services rank fuel (unified st) \<and> 2 * length (unified st) < rounds"

lemma prepared_kept:
  assumes "prepared services cap rank fuel rounds st" and "resting cap st'"
    and "same_mappings (unified st) (unified st')" and "same_machines (targets st) (targets st')"
  shows "prepared services cap rank fuel rounds st'"
  using assms same_mappings_length [OF assms(3)] serviceable_kept ranked_kept unfolding prepared_def by auto

lemma prepared_forgive:
  assumes "prepared services cap rank fuel rounds st" and "s \<noteq> SERVICE_MAPPING_IN_PROGRESS"
  shows "prepared services cap rank fuel rounds (mark_erroneous_mappings s st)"
proof (rule prepared_kept [OF assms(1)])
  show "resting cap (mark_erroneous_mappings s st)"
    using assms idle_forgive [of cap st s] by (auto simp: prepared_def resting_def forgive_def)
qed (simp_all add: forgive_same)

section \<open>The phases return\<close>

text \<open>All processes end well and nobody interrupts the program.\<close>

definition no_failures :: "kernel \<Rightarrow> bool" where
  "no_failures K \<longleftrightarrow> (\<forall>w. snd (k_wait K w) = Exited 0) \<and> (\<forall>w. \<not> k_interrupted K w)"

lemma activation_returns:
  assumes K: "kernel_live K" and fg: "mapping_functions K flags = (f, g)" and sorted: "sorted_services services"
    and prep: "prepared services cap rank fuel rounds st" and "scoped services A Activation (unified st)"
    and keys: "keys_of arr \<subseteq> A" "keys_of arr \<subseteq> keys_of (unified st)"
  shows "\<exists>success st'. traverse_service_mappings K rounds services
      (traverse_inter_dependency_mappings services f fuel) complete_activation arr st = Inr (success, st')
    \<and> prepared services cap rank fuel rounds st' \<and> sequential (world st) (world st')
    \<and> same_mappings (unified st) (unified st') \<and> same_machines (targets st) (targets st')
    \<and> (no_failures K \<longrightarrow> error_free A Activation st \<longrightarrow> success)"
proof -
  have work: "workable services f rank Activation (unified st) (targets st)"
    using prep by (intro serviceable_workable(1) [OF fg, where fuel = fuel and rank = rank]) (simp_all add: prepared_def)
  have live: "live services f rank Activation cap A (st\<lparr>pid_table := []\<rparr>)"
    using resting_live [OF _ assms(5) work] prep by (simp add: prepared_def)
  have ms: "\<forall>m \<in> set arr. mapping_key m \<in> keys_of (unified st) \<and> mapping_key m \<in> A \<and> rank (mapping_key m) < fuel"
    using keys prep by (auto simp: prepared_def ranked_def)
  have "children (world st) = []" "2 * length (unified st) < rounds"
    using prep by (simp_all add: prepared_def resting_def)
  from activation.traverse_live [OF K mapping_functions_spawn(1) [OF fg] callbacks_complete(1) sorted live this(1) ms this(2)]
  obtain success st' where run: "traverse_service_mappings K rounds services
      (traverse_inter_dependency_mappings services f fuel) complete_activation arr st = Inr (success, st')"
    and 1: "live services f rank Activation cap A st'" "sequential (world st) (world st')"
      "phase_steps services cap A Activation (unified st) (unified st')"
      "(\<forall>w. snd (k_wait K w) = Exited 0) \<longrightarrow> error_free A Activation st \<longrightarrow> success" by blast
  note machines = machines.traversals_related(1) [OF run]
  have "resting cap st'" using live_resting [OF 1(1)] 1(2) by (simp add: sequential_def)
  with run 1 machines prepared_kept [OF prep _ phase_steps_same [OF 1(3)] machines] phase_steps_same [OF 1(3)]
  show ?thesis by (auto simp: no_failures_def)
qed

lemma deactivation_returns:
  assumes K: "kernel_live K" and fg: "mapping_functions K flags = (f, g)" and sorted: "sorted_services services"
    and prep: "prepared services cap rank fuel rounds st" and "scoped services A Deactivation (unified st)"
    and keys: "keys_of arr \<subseteq> A" "keys_of arr \<subseteq> keys_of (unified st)"
  shows "\<exists>success st'. traverse_service_mappings K rounds services
      (traverse_interdependent_mappings services g fuel) complete_deactivation arr st = Inr (success, st')
    \<and> prepared services cap rank fuel rounds st' \<and> sequential (world st) (world st')
    \<and> same_mappings (unified st) (unified st') \<and> same_machines (targets st) (targets st')
    \<and> (no_failures K \<longrightarrow> error_free A Deactivation st \<longrightarrow> success)"
proof -
  let ?rank = "\<lambda>k. fuel - 1 - rank k"
  have work: "workable services g ?rank Deactivation (unified st) (targets st)"
    using prep by (intro serviceable_workable(2) [OF fg, where fuel = fuel and rank = rank]) (simp_all add: prepared_def)
  have live: "live services g ?rank Deactivation cap A (st\<lparr>pid_table := []\<rparr>)"
    using resting_live [OF _ assms(5) work] prep by (simp add: prepared_def)
  have ms: "\<forall>m \<in> set arr. mapping_key m \<in> keys_of (unified st) \<and> mapping_key m \<in> A \<and> ?rank (mapping_key m) < fuel"
    using keys prep by (fastforce simp: prepared_def ranked_def)
  have "children (world st) = []" "2 * length (unified st) < rounds"
    using prep by (simp_all add: prepared_def resting_def)
  from deactivation.traverse_live [OF K mapping_functions_spawn(2) [OF fg] callbacks_complete(2) sorted live this(1) ms this(2)]
  obtain success st' where run: "traverse_service_mappings K rounds services
      (traverse_interdependent_mappings services g fuel) complete_deactivation arr st = Inr (success, st')"
    and 1: "live services g ?rank Deactivation cap A st'" "sequential (world st) (world st')"
      "phase_steps services cap A Deactivation (unified st) (unified st')"
      "(\<forall>w. snd (k_wait K w) = Exited 0) \<longrightarrow> error_free A Deactivation st \<longrightarrow> success" by blast
  note machines = machines.traversals_related(2) [OF run]
  have "resting cap st'" using live_resting [OF 1(1)] 1(2) by (simp add: sequential_def)
  with run 1 machines prepared_kept [OF prep _ phase_steps_same [OF 1(3)] machines] phase_steps_same [OF 1(3)]
  show ?thesis by (auto simp: no_failures_def)
qed

lemma split_closed_required:
  "split_closed services old new ms \<Longrightarrow> m \<in> set ms \<Longrightarrow> required services m \<subseteq> keys_of ms"
  unfolding split_closed_def by blast

lemma rollback_to_old_returns:
  assumes K: "kernel_live K" and fg: "mapping_functions K flags = (f, g)" and sorted: "sorted_services services"
    and prep: "prepared services cap rank fuel rounds st" and split: "split_closed services old new (unified st)"
    and "keys_of olds = old"
  shows "\<exists>success st'. rollback_to_old_mappings K fuel rounds services olds f st = Inr (success, st')
    \<and> sequential (world st) (world st') \<and> same_machines (targets st) (targets st')"
proof -
  let ?st = "mark_erroneous_mappings SERVICE_MAPPING_ACTIVATED st"
  note split' = split_closed_same [OF split forgive_same]
  have prep': "prepared services cap rank fuel rounds ?st" using prep by (rule prepared_forgive) simp
  have "scoped services old Activation (unified ?st)" "keys_of olds \<subseteq> keys_of (unified ?st)"
    using split_scopes(1) [OF split'] assms(6) split by (simp_all add: split_closed_def)
  from activation_returns [OF K fg sorted prep' this(1) _ this(2)] assms(6) show ?thesis
    by (auto simp: rollback_to_old_mappings_def)
qed

lemma rollback_new_returns:
  assumes K: "kernel_live K" and fg: "mapping_functions K flags = (f, g)" and sorted: "sorted_services services"
    and prep: "prepared services cap rank fuel rounds st" and split: "split_closed services old new (unified st)"
    and "keys_of news = new - old"
  shows "\<exists>success st'. rollback_new_mappings K fuel rounds services news g st = Inr (success, st')
    \<and> prepared services cap rank fuel rounds st' \<and> sequential (world st) (world st')
    \<and> same_mappings (unified st) (unified st')"
proof -
  let ?st = "mark_erroneous_mappings SERVICE_MAPPING_DEACTIVATED st"
  note split' = split_closed_same [OF split forgive_same]
  have prep': "prepared services cap rank fuel rounds ?st" using prep by (rule prepared_forgive) simp
  have "scoped services (new - old) Deactivation (unified ?st)" "keys_of news \<subseteq> keys_of (unified ?st)"
    using split_scopes(4) [OF split'] assms(6) split by (auto simp: split_closed_def)
  from deactivation_returns [OF K fg sorted prep' this(1) _ this(2)] assms(6)
    same_mappings_trans [OF forgive_same, of SERVICE_MAPPING_DEACTIVATED "unified st"] show ?thesis
    by (auto simp: rollback_new_mappings_def)
qed


lemma deactivate_obsolete_returns:
  assumes K: "kernel_live K" and fg: "mapping_functions K flags = (f, g)" and sorted: "sorted_services services"
    and prep: "prepared services cap rank fuel rounds st" and split: "split_closed services old new (unified st)"
    and arr: "keys_of arr = old - new" and olds: "olds = Some oa" "keys_of oa = old"
  shows "\<exists>outcome st'. deactivate_obsolete_mappings K fuel rounds services (Some arr) olds flags f g st = Inr (outcome, st')
    \<and> sequential (world st) (world st') \<and> (outcome = TRANSITION_SUCCESS \<longrightarrow> prepared services cap rank fuel rounds st')
    \<and> same_machines (targets st) (targets st')
    \<and> (no_failures K \<longrightarrow> error_free (old - new) Deactivation st \<longrightarrow> outcome = TRANSITION_SUCCESS)"
proof -
  have "keys_of arr \<subseteq> keys_of (unified st)" using arr split by (auto simp: split_closed_def)
  from deactivation_returns [OF K fg sorted prep split_scopes(3) [OF split] _ this] arr
  obtain s1 st1 where 1: "traverse_service_mappings K rounds services
      (traverse_interdependent_mappings services g fuel) complete_deactivation arr st = Inr (s1, st1)"
    "prepared services cap rank fuel rounds st1" "sequential (world st) (world st1)"
    "same_mappings (unified st) (unified st1)" "same_machines (targets st) (targets st1)"
    "no_failures K \<longrightarrow> error_free (old - new) Deactivation st \<longrightarrow> s1" by auto
  obtain s2 st2 where 2: "rollback_to_old_mappings K fuel rounds services oa f st1 = Inr (s2, st2)"
    "sequential (world st1) (world st2)" "same_machines (targets st1) (targets st2)"
    using rollback_to_old_returns [OF K fg sorted 1(2) split_closed_same [OF split 1(4)] olds(2)] by blast
  show ?thesis
  proof (cases "s1 \<and> \<not> k_interrupted K (world st1) \<or> has_flag flags FLAG_NO_ROLLBACK")
    case True
    with 1 show ?thesis by (auto simp: deactivate_obsolete_mappings_def no_failures_def)
  next
    case False
    with 1 2 olds sequential_trans [OF 1(3) 2(2)] same_machines_trans [OF 1(5) 2(3)] show ?thesis
      by (auto simp: deactivate_obsolete_mappings_def no_failures_def)
  qed
qed

lemma activate_new_returns:
  assumes K: "kernel_live K" and fg: "mapping_functions K flags = (f, g)" and sorted: "sorted_services services"
    and prep: "prepared services cap rank fuel rounds st" and split: "split_closed services old new (unified st)"
    and arr: "keys_of arr = new - old" and olds: "case olds of None \<Rightarrow> old = {} | Some oa \<Rightarrow> keys_of oa = old"
  shows "\<exists>outcome st'. activate_new_mappings K fuel rounds services arr olds flags f g st = Inr (outcome, st')
    \<and> sequential (world st) (world st') \<and> (outcome = TRANSITION_SUCCESS \<longrightarrow> prepared services cap rank fuel rounds st')
    \<and> (no_failures K \<longrightarrow> error_free new Activation st \<longrightarrow> outcome = TRANSITION_SUCCESS)"
proof -
  have "keys_of arr \<subseteq> keys_of (unified st)" "keys_of arr \<subseteq> new" using arr split by (auto simp: split_closed_def)
  from activation_returns [OF K fg sorted prep split_scopes(2) [OF split] this(2,1)]
  obtain s1 st1 where 1: "traverse_service_mappings K rounds services
      (traverse_inter_dependency_mappings services f fuel) complete_activation arr st = Inr (s1, st1)"
    "prepared services cap rank fuel rounds st1" "sequential (world st) (world st1)"
    "same_mappings (unified st) (unified st1)" "no_failures K \<longrightarrow> error_free new Activation st \<longrightarrow> s1" by auto
  note split1 = split_closed_same [OF split 1(4)]
  show ?thesis
  proof (cases "s1 \<and> \<not> k_interrupted K (world st1) \<or> has_flag flags FLAG_NO_ROLLBACK")
    case True
    with 1 show ?thesis by (auto simp: activate_new_mappings_def no_failures_def)
  next
    case False
    obtain s2 st2 where 2: "rollback_new_mappings K fuel rounds services arr g st1 = Inr (s2, st2)"
      "prepared services cap rank fuel rounds st2" "sequential (world st1) (world st2)"
      "same_mappings (unified st1) (unified st2)"
      using rollback_new_returns [OF K fg sorted 1(2) split1 arr] by blast
    note split2 = split_closed_same [OF split1 2(4)] and seq2 = sequential_trans [OF 1(3) 2(3)]
    show ?thesis
    proof (cases "s2 \<and> olds \<noteq> None")
      case True
      then obtain oa where oa: "olds = Some oa" "keys_of oa = old" using olds by auto
      obtain s3 st3 where 3: "rollback_to_old_mappings K fuel rounds services oa f st2 = Inr (s3, st3)"
        "sequential (world st2) (world st3)"
        using rollback_to_old_returns [OF K fg sorted 2(2) split2 oa(2)] by blast
      with True False 1 2 oa sequential_trans [OF seq2 3(2)] show ?thesis
        by (auto simp: activate_new_mappings_def no_failures_def)
    next
      case no_old: False
      with False 1 2 seq2 show ?thesis
        by (cases s2; cases olds) (auto simp: activate_new_mappings_def no_failures_def)
    qed
  qed
qed

section \<open>The transition returns\<close>

text \<open>
  Two manifests a transition can be made between. The new one comes from the parser and
  passes its check; the mappings of both are closed under dependencies without cycles, and
  can be resolved in the union of the services; every machine has a core to begin with.
\<close>

definition transition_ready ::
  "ServiceMapping sort_function \<Rightarrow> (key \<Rightarrow> nat) \<Rightarrow> nat \<Rightarrow> Manifest \<Rightarrow> Manifest option \<Rightarrow> bool" where
  "transition_ready srt rank fuel manifest previous \<longleftrightarrow>
     (let plan = plan_transition srt manifest previous in
      transition_inputs srt manifest previous \<and> check_manifest manifest = Inr True
      \<and> (\<forall>m \<in> set (plan_unified plan). target m \<noteq> None
           \<and> (\<exists>sn svc ds. service m = Some sn \<and> map_of (plan_services plan) sn = Some svc \<and> depends_on svc = Some ds)
           \<and> (\<forall>t. mapping_resolvable (plan_services plan) t (service m) (container m) (container_provided_by_service m)))
      \<and> ranked (plan_services plan) rank fuel (plan_unified plan)
      \<and> (\<forall>e \<in> set (targets_table manifest). 1 \<le> available_cores (snd e)))"

lemma transition_returns_prepared:
  assumes ready: "transition_ready srt rank fuel manifest previous" and w: "wf_os w" "children w = []"
    and rounds: "2 * length (plan_unified (plan_transition srt manifest previous)) < rounds"
  shows "prepared (plan_services (plan_transition srt manifest previous)) (available_capacity (targets_table manifest))
    rank fuel rounds \<lparr>unified = plan_unified (plan_transition srt manifest previous),
      targets = targets_table manifest, pid_table = [], world = w\<rparr>"
    (is "prepared ?u ?cap rank fuel rounds ?st")
proof -
  let ?plan = "plan_transition srt manifest previous"
  note r = ready [unfolded transition_ready_def Let_def]
  note plan = plan_transition_planned [of srt manifest previous, unfolded planned_def]
  have settled: "\<forall>m \<in> set (plan_unified ?plan). status m \<noteq> SERVICE_MAPPING_IN_PROGRESS"
  proof
    fix m assume "m \<in> set (plan_unified ?plan)"
    with plan r show "status m \<noteq> SERVICE_MAPPING_IN_PROGRESS"
      unfolding all_at_def by (cases "mapping_key m \<in> keys_of (previous_mappings previous)") auto
  qed
  then have busy: "busy (plan_unified ?plan) tn = 0" for tn by (simp add: busy_def)
  have cores: "available_cores t = ?cap tn \<and> 1 \<le> ?cap tn" if "map_of (targets_table manifest) tn = Some t" for tn t
    using r map_of_SomeD [OF that] that by (auto simp: available_capacity_def)
  have "resting ?cap ?st"
    using plan r w settled busy cores by (simp add: resting_def idle_def)
  moreover have "serviceable ?u (unified ?st) (targets ?st)"
    unfolding serviceable_def
  proof (intro ballI conjI allI impI)
    fix m assume m: "m \<in> set (unified ?st)"
    with r show "\<exists>sn svc ds. service m = Some sn \<and> map_of ?u sn = Some svc \<and> depends_on svc = Some ds"
      "target m \<noteq> None" by simp_all
    from plan r have "split_closed ?u (keys_of (previous_mappings previous)) (keys_of (service_mapping_array manifest))
      (plan_unified ?plan)" by blast
    from split_closed_required [OF this] m show "required ?u m \<subseteq> keys_of (unified ?st)" by simp
    fix tn t assume "target m = Some tn" "map_of (targets ?st) tn = Some t"
    then show "check_target t = Inr True" using r map_of_SomeD by (fastforce simp: check_manifest_iff)
    show "mapping_resolvable ?u t (service m) (container m) (container_provided_by_service m)" using r m by simp
  qed
  ultimately show ?thesis using r rounds by (simp add: prepared_def)
qed

lemma transition_first_phase_returns:
  assumes K: "kernel_live K" and fg: "mapping_functions K flags = (f, g)" and sorted: "sorted_services services"
    and prep: "prepared services cap rank fuel rounds st" and split: "split_closed services old new (unified st)"
    and before: "all_at old SERVICE_MAPPING_ACTIVATED (unified st)" "all_at (- old) SERVICE_MAPPING_DEACTIVATED (unified st)"
    and arrs: "case deactivation of None \<Rightarrow> old = {}
      | Some arr \<Rightarrow> keys_of arr = old - new \<and> (\<exists>oa. olds = Some oa \<and> keys_of oa = old)"
  shows "\<exists>o1 st1. deactivate_obsolete_mappings K fuel rounds services deactivation olds flags f g st = Inr (o1, st1)
    \<and> sequential (world st) (world st1) \<and> same_machines (targets st) (targets st1)
    \<and> (o1 = TRANSITION_SUCCESS \<longrightarrow> prepared services cap rank fuel rounds st1
        \<and> split_closed services old new (unified st1) \<and> (\<forall>m \<in> set (unified st1). status m \<noteq> SERVICE_MAPPING_ERROR))
    \<and> (no_failures K \<longrightarrow> o1 = TRANSITION_SUCCESS)"
proof -
  have clean: "\<forall>m \<in> set (unified st). status m \<noteq> SERVICE_MAPPING_ERROR"
  proof
    fix m assume "m \<in> set (unified st)"
    with before show "status m \<noteq> SERVICE_MAPPING_ERROR" unfolding all_at_def by (cases "mapping_key m \<in> old") auto
  qed
  show ?thesis
  proof (cases deactivation)
    case None
    have "children (world st) = []" using prep by (simp add: prepared_def resting_def)
    with None prep split clean sequential_refl show ?thesis by (simp add: deactivate_obsolete_mappings_def)
  next
    case (Some arr)
    with arrs obtain oa where oa: "keys_of arr = old - new" "olds = Some oa" "keys_of oa = old" by auto
    have "error_free (old - new) Deactivation st" using clean by (simp add: error_free_def)
    with deactivate_obsolete_returns [OF K fg sorted prep split oa] obtain o1 st1 where
      2: "deactivate_obsolete_mappings K fuel rounds services (Some arr) olds flags f g st = Inr (o1, st1)"
      and 3: "sequential (world st) (world st1)"
        "o1 = TRANSITION_SUCCESS \<longrightarrow> prepared services cap rank fuel rounds st1"
        "same_machines (targets st) (targets st1)" "no_failures K \<longrightarrow> o1 = TRANSITION_SUCCESS"
      by blast
    have on: "runs_on K services f" "runs_on K services g"
      using kernel_live_ok [OF K] sorted mapping_functions_spawn [OF fg] by (simp_all add: runs_on_def)
    have idle: "idle cap st" using prep by (simp add: prepared_def resting_def)
    note phase = deactivate_obsolete_correct [OF on idle split oa before(2) 2]
    have shared: "all_at (old \<inter> new) SERVICE_MAPPING_ACTIVATED (unified st1)"
      using phase transition_steps_shared all_at_mono [OF before(1), of "old \<inter> new"] by blast
    have "status m \<noteq> SERVICE_MAPPING_ERROR" if "o1 = TRANSITION_SUCCESS" "m \<in> set (unified st1)" for m
      using phase shared that unfolding all_at_def by (cases "mapping_key m \<in> old"; cases "mapping_key m \<in> new") auto
    moreover have "split_closed services old new (unified st1)"
      using phase split_closed_same [OF split] transition_steps_same by blast
    ultimately show ?thesis using 2 3 Some by blast
  qed
qed

lemma transition_returns_all:
  assumes K: "kernel_live K" and ready: "transition_ready srt rank fuel manifest previous"
    and w: "wf_os w" "children w = []"
    and rounds: "2 * length (plan_unified (plan_transition srt manifest previous)) < rounds"
  shows "\<exists>outcome st'. transition K srt fuel rounds manifest previous flags w = Inr (outcome, st')
    \<and> sequential w (world st') \<and> (no_failures K \<longrightarrow> outcome = TRANSITION_SUCCESS)
    \<and> (outcome = TRANSITION_SUCCESS \<longrightarrow> prepared (plan_services (plan_transition srt manifest previous))
         (available_capacity (targets_table manifest)) rank fuel rounds st')"
proof -
  let ?plan = "plan_transition srt manifest previous" and ?cap = "available_capacity (targets_table manifest)"
  let ?st = "\<lparr>unified = plan_unified ?plan, targets = targets_table manifest, pid_table = [], world = w\<rparr>"
  let ?old = "keys_of (previous_mappings previous)" and ?new = "keys_of (service_mapping_array manifest)"
  obtain f g where fg: "mapping_functions K flags = (f, g)" by fastforce
  have inputs: "transition_inputs srt manifest previous" and check: "check_manifest manifest = Inr True"
    using ready by (simp_all add: transition_ready_def Let_def)
  have sorted: "sorted_services (plan_services ?plan)" using inputs by (simp add: transition_inputs_def)
  note plan = plan_transition_planned [OF inputs, unfolded planned_def]
  have split: "split_closed (plan_services ?plan) ?old ?new (unified ?st)"
    and before: "all_at ?old SERVICE_MAPPING_ACTIVATED (unified ?st)" "all_at (- ?old) SERVICE_MAPPING_DEACTIVATED (unified ?st)"
    using plan by simp_all
  have arrs: "case plan_deactivation ?plan of None \<Rightarrow> ?old = {}
      | Some arr \<Rightarrow> keys_of arr = ?old - ?new \<and> (\<exists>oa. plan_previous ?plan = Some oa \<and> keys_of oa = ?old)"
    using plan by (cases "plan_deactivation ?plan") simp_all
  obtain o1 st1 where 1: "deactivate_obsolete_mappings K fuel rounds (plan_services ?plan) (plan_deactivation ?plan)
      (plan_previous ?plan) flags f g ?st = Inr (o1, st1)" "sequential w (world st1)"
    "same_machines (targets_table manifest) (targets st1)"
    "o1 = TRANSITION_SUCCESS \<longrightarrow> prepared (plan_services ?plan) ?cap rank fuel rounds st1
       \<and> split_closed (plan_services ?plan) ?old ?new (unified st1)
       \<and> (\<forall>m \<in> set (unified st1). status m \<noteq> SERVICE_MAPPING_ERROR)"
    "no_failures K \<longrightarrow> o1 = TRANSITION_SUCCESS"
    using transition_first_phase_returns [OF K fg sorted transition_returns_prepared [OF ready w rounds] split before arrs]
    by auto
  have olds: "case plan_previous ?plan of None \<Rightarrow> ?old = {} | Some oa \<Rightarrow> keys_of oa = ?old"
    using plan by (cases "plan_deactivation ?plan") auto
  have eq: "transition K srt fuel rounds manifest previous flags w =
     (if o1 = TRANSITION_SUCCESS
      then activate_new_mappings K fuel rounds (plan_services ?plan) (plan_activation ?plan)
             (plan_previous ?plan) flags f g st1
      else Inr (o1, st1))"
    using 1(1) fg by (simp add: transition_def Let_def)
  show ?thesis
  proof (cases "o1 = TRANSITION_SUCCESS")
    case True
    with 1(4) have prep1: "prepared (plan_services ?plan) ?cap rank fuel rounds st1"
      and split1: "split_closed (plan_services ?plan) ?old ?new (unified st1)" by auto
    have "error_free ?new Activation st1"
      unfolding error_free_def
    proof (intro ballI conjI impI)
      fix m assume m: "m \<in> set (unified st1)"
      with True 1(4) show "status m \<noteq> SERVICE_MAPPING_ERROR" by blast
      assume "mapping_key m \<in> ?new"
      then obtain x where x: "x \<in> set (service_mapping_array manifest)" "mapping_key x = mapping_key m" by auto
      with check [unfolded check_manifest_iff] obtain tn where "target x = Some tn" "map_of (targets_table manifest) tn \<noteq> None"
        by blast
      moreover have "target m = target x" using x(2) by (simp add: mapping_key_def)
      moreover have "map_of (targets st1) tn \<noteq> None" if "map_of (targets_table manifest) tn \<noteq> None" for tn
        using same_machines_lookup [OF 1(3), of tn] that by (cases "map_of (targets st1) tn") simp_all
      ultimately show "\<exists>tn. target m = Some tn \<and> map_of (targets st1) tn \<noteq> None" by auto
    qed
    note clean = this
    have new: "keys_of (plan_activation ?plan) = ?new - ?old" using plan by blast
    from activate_new_returns [OF K fg sorted prep1 split1 new olds] obtain o2 st2 where
      "activate_new_mappings K fuel rounds (plan_services ?plan) (plan_activation ?plan) (plan_previous ?plan) flags f g st1
         = Inr (o2, st2)" "sequential (world st1) (world st2)" "no_failures K \<longrightarrow> o2 = TRANSITION_SUCCESS"
      "o2 = TRANSITION_SUCCESS \<longrightarrow> prepared (plan_services ?plan) ?cap rank fuel rounds st2"
      using clean by blast
    with True eq sequential_trans [OF 1(2)] show ?thesis by auto
  next
    case False
    with eq 1 show ?thesis by simp
  qed
qed

end
