(* ===== verification/Transition_Properties.thy ===== *)
theory Transition_Properties
  imports Transition_Liveness
begin

text \<open>
  The properties of the transition, the configurations their witnesses run on, and what a dry
  run executes.
\<close>

section \<open>A dry run executes nothing\<close>

definition executes :: "(child \<Rightarrow> bool) \<Rightarrow> os \<Rightarrow> os \<Rightarrow> bool" where
  "executes P w w' \<longleftrightarrow> (\<exists>new. trace w' = new @ trace w \<and> (\<forall>pid c. Forked pid c \<in> set new \<longrightarrow> P c))"

lemma executes_refl [simp]: "executes P w w"
  by (simp add: executes_def)

lemma executes_trans: "executes P w1 w2 \<Longrightarrow> executes P w2 w3 \<Longrightarrow> executes P w1 w3"
  unfolding executes_def by fastforce

lemma sys_fork_executes: "sys_fork K c w = (pid, w') \<Longrightarrow> P c \<Longrightarrow> executes P w w'"
  by (auto simp: sys_fork_def executes_def Let_def split: if_splits)

lemma sys_wait_executes: "sys_wait K w = (r, w') \<Longrightarrow> executes P w w'"
  by (auto simp: sys_wait_def reap_def executes_def split: if_splits)

lemma attempt_executes:
  assumes "attempt_to_map_service_mapping services f i t st = Inr (r, st')"
    and "\<And>m s t ty args n w pid w'. f m s t ty args n w = Inr (pid, w') \<Longrightarrow> executes P w w'"
  shows "executes P (world st) (world st')"
  using assms(1)
  by (auto simp: attempt_to_map_service_mapping_def Let_def set_status_def result_simps
      dest: assms(2) split: if_splits prod.splits)

lemma wait_executes:
  assumes "wait_for_service_mapping_to_complete K services cf st = Inr st'"
  shows "executes P (world st) (world st')"
  using assms sys_wait_executes [of K "world st" _ _ P]
  by (auto simp: wait_for_service_mapping_to_complete_def Let_def result_simps split: if_splits prod.splits)

definition harmless :: "child \<Rightarrow> bool" where
  "harmless c \<longleftrightarrow> c = Exec [''true''] []"

lemma dummy_executes: "statemgmt_dummy_command K w = (pid, w') \<Longrightarrow> executes harmless w w'"
  unfolding statemgmt_dummy_command_def by (erule sys_fork_executes) (simp add: harmless_def execvp_def)

definition dry_run_function :: "kernel \<Rightarrow> bool \<Rightarrow> service_mapping_function" where
  "dry_run_function K activate = (if activate then dry_run_activate_mapping K else dry_run_deactivate_mapping K)"

lemma dry_run_function_executes:
  "dry_run_function K a m s t ty args n w = Inr (pid, w') \<Longrightarrow> executes harmless w w'"
  by (auto simp: dry_run_function_def dry_run_activate_mapping_def dry_run_deactivate_mapping_def
      result_simps dest: dummy_executes split: if_splits)

interpretation dry: traversal_relation "\<lambda>st st'. executes harmless (world st) (world st')"
  K services "dry_run_function K a" cf for K services a cf
proof unfold_locales
  fix i t r and st st' :: traverse_state
  assume "attempt_to_map_service_mapping services (dry_run_function K a) i t st = Inr (r, st')"
  then show "executes harmless (world st) (world st')"
    by (rule attempt_executes) (rule dry_run_function_executes)
next
  fix st st' assume "wait_for_service_mapping_to_complete K services cf st = Inr st'"
  then show "executes harmless (world st) (world st')" by (rule wait_executes)
qed (auto simp: set_status_def intro: executes_trans)

lemma rollbacks_executes:
  assumes "g = dry_run_function K False" and "f = dry_run_function K True"
  shows "rollback_to_old_mappings K fuel rounds services arr f st = Inr (s, st') \<Longrightarrow> executes harmless (world st) (world st')"
    and "rollback_new_mappings K fuel rounds services arr g st = Inr (s, st') \<Longrightarrow> executes harmless (world st) (world st')"
  using dry.traversals_related assms
  unfolding rollback_to_old_mappings_def rollback_new_mappings_def by (metis mark_erroneous_mappings_simps(4))+

lemma deactivate_obsolete_executes:
  assumes fg: "g = dry_run_function K False" "f = dry_run_function K True"
    and "deactivate_obsolete_mappings K fuel rounds services arr olds flags f g st = Inr (outcome, st')"
  shows "executes harmless (world st) (world st')"
proof (cases arr)
  case (Some array)
  with assms(3) obtain s1 st1 where 1: "traverse_service_mappings K rounds services
      (traverse_interdependent_mappings services g fuel) complete_deactivation array st = Inr (s1, st1)"
    and "st' = st1 \<or> (\<exists>old s2. rollback_to_old_mappings K fuel rounds services old f st1 = Inr (s2, st'))"
    by (auto simp: deactivate_obsolete_mappings_def bindr_eq_Inr split: if_splits)
  moreover have "executes harmless (world st) (world st1)"
    using dry.traversals_related(2) 1 fg(1) by metis
  ultimately show ?thesis using rollbacks_executes(1) [OF fg] executes_trans by blast
qed (use assms(3) in \<open>simp add: deactivate_obsolete_mappings_def\<close>)

lemma activate_new_executes:
  assumes fg: "g = dry_run_function K False" "f = dry_run_function K True"
    and "activate_new_mappings K fuel rounds services arr olds flags f g st = Inr (outcome, st')"
  shows "executes harmless (world st) (world st')"
proof -
  from assms(3) obtain s1 st1 where 1: "traverse_service_mappings K rounds services
      (traverse_inter_dependency_mappings services f fuel) complete_activation arr st = Inr (s1, st1)"
    and rest: "st' = st1 \<or> (\<exists>s2 st2. rollback_new_mappings K fuel rounds services arr g st1 = Inr (s2, st2)
      \<and> (st' = st2 \<or> (\<exists>old s3. rollback_to_old_mappings K fuel rounds services old f st2 = Inr (s3, st'))))"
    by (auto simp: activate_new_mappings_def bindr_eq_Inr split: if_splits option.splits) blast+
  have "executes harmless (world st) (world st1)" using dry.traversals_related(1) 1 fg(2) by metis
  with rest rollbacks_executes [OF fg] executes_trans show ?thesis by metis
qed

section \<open>Two configurations\<close>

text \<open>
  One machine \<open>m\<close>; the service \<open>d\<close>, on which every other service of a configuration depends.
\<close>

definition example_service :: "string \<Rightarrow> InterDependencyMapping list \<Rightarrow> ManifestService" where
  "example_service n ds =
     \<lparr>name = Some n, pkg = Some n, type_of = Some ''t'',
      depends_on = Some ds, connects_to = Some [], provides_containers_table = Some []\<rparr>"

definition example_mapping :: "string \<Rightarrow> ServiceMapping" where
  "example_mapping n =
     \<lparr>service = Some n, container = Some ''c'', target = Some ''m'',
      container_provided_by_service = None, status = SERVICE_MAPPING_DEACTIVATED\<rparr>"

definition example_target :: Target where
  "example_target =
     \<lparr>properties_table = Some [(''h'', NIX_XML_TYPE_STRING ''h'')], containers_table = Some [],
      system = None, client_interface = Some ''i'', target_property = Some ''h'',
      num_of_cores = 1, available_cores = 1\<rparr>"

definition example_manifest :: "string list \<Rightarrow> Manifest" where
  "example_manifest users =
     \<lparr>profile_mapping_table = [(''m'', ''p'')],
      services_table = (''d'', example_service ''d'' [])
        # map (\<lambda>n. (n, example_service n [as_dependency (example_mapping ''d'')])) users,
      service_mapping_array = isort_by compare_service_mappings (map example_mapping (''d'' # users)),
      snapshot_mapping_array = [], targets_table = [(''m'', example_target)], correct_version = True\<rparr>"

definition example_world :: os where
  "example_world = \<lparr>children = [], trace = []\<rparr>"

definition example_rank :: "key \<Rightarrow> nat" where
  "example_rank k = (if fst (snd k) = Some ''d'' \<or> snd (snd k) = Some ''d'' \<or> fst k = Some ''d'' then 0 else 1)"

lemma example_world_ok [simp]: "wf_os example_world" "children example_world = []"
  by (simp_all add: example_world_def wf_os_def)

lemma sorted_services_list:
  assumes "list_all (\<lambda>e. case depends_on (snd e) of None \<Rightarrow> True | Some ds \<Rightarrow> sorted_mappings ds) services"
  shows "sorted_services services"
  unfolding sorted_services_def
proof (intro allI impI)
  fix sn svc ds assume "map_of services sn = Some svc" "depends_on svc = Some ds"
  with assms map_of_SomeD [of services sn svc] show "sorted_mappings ds" by (fastforce simp: list_all_iff)
qed

abbreviation example_plan :: transition_plan where
  "example_plan \<equiv> plan_transition isort_by (example_manifest [''w'']) (Some (example_manifest [''a'']))"

lemma example_inputs:
  "transition_inputs isort_by (example_manifest [''w'']) (Some (example_manifest [''a'']))"
  unfolding transition_inputs_def
proof (intro conjI)
  show "sorts_by isort_by (compare_service_mappings :: ServiceMapping \<Rightarrow> ServiceMapping \<Rightarrow> int)"
    by (rule service_order.isort_by_sorts)
  show "sorted_services (plan_services example_plan)" by (rule sorted_services_list) code_simp
  show "consistent_mappings (plan_services example_plan) (service_mapping_array (example_manifest [''w'']))"
    by code_simp
  show "consistent_mappings (plan_services example_plan) (previous_mappings (Some (example_manifest [''a''])))"
    by code_simp
qed

lemma example_resolvable:
  "list_all (\<lambda>m. target m \<noteq> None \<and> (case service m of None \<Rightarrow> False | Some sn \<Rightarrow>
       (case map_of (plan_services example_plan) sn of None \<Rightarrow> False | Some svc \<Rightarrow> depends_on svc \<noteq> None))
     \<and> container m \<noteq> None \<and> container_provided_by_service m = None) (plan_unified example_plan)"
  by code_simp

lemma example_ready:
  "transition_ready isort_by example_rank 2 (example_manifest [''w'']) (Some (example_manifest [''a'']))"
  unfolding transition_ready_def Let_def
proof (intro conjI ballI allI)
  show "check_manifest (example_manifest [''w'']) = Inr True" by code_simp
  show "ranked (plan_services example_plan) example_rank 2 (plan_unified example_plan)" by code_simp
  fix m assume "m \<in> set (plan_unified example_plan)"
  with example_resolvable have m: "target m \<noteq> None" "container m \<noteq> None" "container_provided_by_service m = None"
      "case service m of None \<Rightarrow> False | Some sn \<Rightarrow>
       (case map_of (plan_services example_plan) sn of None \<Rightarrow> False | Some svc \<Rightarrow> depends_on svc \<noteq> None)"
    by (simp_all add: list_all_iff)
  then show "target m \<noteq> None" by blast
  from m show "\<exists>sn svc ds. service m = Some sn \<and> map_of (plan_services example_plan) sn = Some svc \<and> depends_on svc = Some ds"
    by (auto split: option.splits)
  from m show "mapping_resolvable (plan_services example_plan) t (service m) (container m) (container_provided_by_service m)" for t
    by (auto simp: mapping_resolvable_def split: option.splits)
qed (rule example_inputs, simp add: example_manifest_def example_target_def)

section \<open>Claims\<close>

text \<open>
  C1: Whatever forks and processes fail, a transition only takes steps of its specification: it
  starts a mapping when everything that has to come first is done and its machine has a core left,
  it stays within the mappings of the phase it is in, and it changes nothing but statuses.
\<close>

theorem transition_refines:
  assumes "kernel_ok K" and "wf_os w" and "transition_inputs srt manifest previous"
    and "transition K srt fuel rounds manifest previous flags w = Inr (outcome, st')"
  shows "transition_steps (plan_services (plan_transition srt manifest previous))
      (available_capacity (targets_table manifest)) (keys_of (previous_mappings previous))
      (keys_of (service_mapping_array manifest))
      (plan_unified (plan_transition srt manifest previous)) (unified st')"
  using transition_correct [OF assms] by blast

abbreviation example_transition :: "(os \<Rightarrow> wstatus) \<Rightarrow> (TransitionStatus \<times> traverse_state) result" where
  "example_transition exits \<equiv> transition (demo_kernel exits) isort_by 2 8 (example_manifest [''w''])
     (Some (example_manifest [''a''])) 0 example_world"

lemma example_rounds: "2 * length (plan_unified example_plan) < 8"
  by code_simp

lemma example_returns: "\<exists>outcome st'. example_transition exits = Inr (outcome, st')"
  using transition_returns_all [OF demo_kernel_live example_ready example_world_ok example_rounds] by blast

theorem transition_refines_witness:
  "\<exists>outcome st'. example_transition (\<lambda>_. Killed) = Inr (outcome, st')
    \<and> transition_steps (plan_services example_plan) (available_capacity (targets_table (example_manifest [''w''])))
        (keys_of (previous_mappings (Some (example_manifest [''a'']))))
        (keys_of (service_mapping_array (example_manifest [''w'']))) (plan_unified example_plan) (unified st')"
proof -
  obtain outcome st' where "example_transition (\<lambda>_. Killed) = Inr (outcome, st')" using example_returns by blast
  with transition_refines [OF demo_kernel_ok example_world_ok(1) example_inputs this] show ?thesis by blast
qed

text \<open>
  C2: The outcome says in which configuration the services are. After a success exactly the mappings of
  the new configuration are active. After a failure with rollback exactly the previous ones are. If
  restoring the previous configuration failed, nothing that is only in the new one is active; if
  deactivating the new mappings failed, nothing that is only in the previous one is.
\<close>

theorem transition_outcome:
  assumes "kernel_ok K" and "wf_os w" and "transition_inputs srt manifest previous"
    and "transition K srt fuel rounds manifest previous flags w = Inr (outcome, st')"
  shows "outcome_configuration flags (keys_of (previous_mappings previous))
    (keys_of (service_mapping_array manifest)) (unified st') outcome"
  using transition_correct [OF assms] by blast

lemma example_outcome:
  "map_sum id fst (example_transition (\<lambda>_. Exited 0)) = Inr TRANSITION_SUCCESS"
  "map_sum id fst (example_transition (\<lambda>_. Killed)) = Inr TRANSITION_FAILED"
  by code_simp+

lemma fst_result: "map_sum id fst r = Inr a \<Longrightarrow> \<exists>b. r = Inr (a, b)"
  by (cases r) auto

theorem transition_outcome_witness:
  "\<exists>st'. example_transition (\<lambda>_. Exited 0) = Inr (TRANSITION_SUCCESS, st')
    \<and> outcome_configuration 0 (keys_of (previous_mappings (Some (example_manifest [''a'']))))
        (keys_of (service_mapping_array (example_manifest [''w'']))) (unified st') TRANSITION_SUCCESS"
  using fst_result [OF example_outcome(1)]
    transition_outcome [OF demo_kernel_ok example_world_ok(1) example_inputs] by blast

text \<open>
  C3: A transition that fails and was allowed to roll back leaves the unified array as it was at the
  beginning: every mapping of the previous configuration active, every other one inactive.
\<close>

theorem transition_failed_restores:
  assumes "kernel_ok K" and "wf_os w" and "transition_inputs srt manifest previous"
    and "transition K srt fuel rounds manifest previous flags w = Inr (TRANSITION_FAILED, st')"
    and "\<not> has_flag flags FLAG_NO_ROLLBACK"
  shows "unified st' = plan_unified (plan_transition srt manifest previous)"
proof -
  note run = transition_correct [OF assms(1-4)]
  note plan = plan_transition_planned [OF assms(3), unfolded planned_def]
  have same: "same_mappings (plan_unified (plan_transition srt manifest previous)) (unified st')"
    using run transition_steps_same by blast
  show ?thesis
    by (rule configuration_unique [OF same, of "keys_of (previous_mappings previous)"
          SERVICE_MAPPING_ACTIVATED SERVICE_MAPPING_DEACTIVATED]) (use run plan assms(5) in simp_all)
qed

theorem transition_failed_restores_witness:
  "\<exists>st'. example_transition (\<lambda>_. Killed) = Inr (TRANSITION_FAILED, st') \<and> unified st' = plan_unified example_plan"
  using fst_result [OF example_outcome(2)]
    transition_failed_restores [OF demo_kernel_ok example_world_ok(1) example_inputs]
  by (auto simp: has_flag_def)





text \<open>
  C7: On a kernel whose forks succeed and whose waits are not interrupted, a transition between two
  manifests that resolve and whose dependencies have no cycle returns. It has run one process at
  a time and leaves none behind.
\<close>

theorem transition_terminates:
  assumes "kernel_live K" and "transition_ready srt rank fuel manifest previous"
    and "wf_os w" and "children w = []"
    and "2 * length (plan_unified (plan_transition srt manifest previous)) < rounds"
  shows "\<exists>outcome st'. transition K srt fuel rounds manifest previous flags w = Inr (outcome, st')
    \<and> sequential w (world st')"
  using transition_returns_all [OF assms] by blast

theorem transition_terminates_witness:
  "\<exists>outcome st'. example_transition (\<lambda>_. Killed) = Inr (outcome, st') \<and> sequential example_world (world st')"
  by (rule transition_terminates [OF demo_kernel_live example_ready example_world_ok example_rounds])

text \<open>
  C8: If moreover every process exits with status 0 and the user does not interrupt the program, the transition
  succeeds and exactly the mappings of the new configuration are active.
\<close>

theorem transition_succeeds:
  assumes "kernel_live K" and "no_failures K" and "transition_ready srt rank fuel manifest previous"
    and "wf_os w" and "children w = []"
    and "2 * length (plan_unified (plan_transition srt manifest previous)) < rounds"
  shows "\<exists>st'. transition K srt fuel rounds manifest previous flags w = Inr (TRANSITION_SUCCESS, st')
    \<and> (\<forall>m \<in> set (unified st'). status m = (if mapping_key m \<in> keys_of (service_mapping_array manifest)
          then SERVICE_MAPPING_ACTIVATED else SERVICE_MAPPING_DEACTIVATED))"
proof -
  obtain st' where run: "transition K srt fuel rounds manifest previous flags w = Inr (TRANSITION_SUCCESS, st')"
    using transition_returns_all [OF assms(1,3-6)] assms(2) by blast
  have "transition_inputs srt manifest previous" using assms(3) by (simp add: transition_ready_def Let_def)
  from transition_correct [OF kernel_live_ok [OF assms(1)] assms(4) this run] run show ?thesis
    by (auto simp: all_at_def)
qed

theorem transition_succeeds_witness:
  "\<exists>st'. example_transition (\<lambda>_. Exited 0) = Inr (TRANSITION_SUCCESS, st')
    \<and> (\<forall>m \<in> set (unified st'). status m = (if mapping_key m \<in> keys_of (service_mapping_array (example_manifest [''w'']))
          then SERVICE_MAPPING_ACTIVATED else SERVICE_MAPPING_DEACTIVATED))"
  by (rule transition_succeeds [OF demo_kernel_live _ example_ready example_world_ok example_rounds])
    (simp add: no_failures_def demo_kernel_def)

text \<open>
  C12: With the dry-run flag a transition goes through the same motions and executes nothing but the command true.
\<close>

theorem transition_dry_run:
  assumes "has_flag flags FLAG_DRY_RUN"
    and "transition K srt fuel rounds manifest previous flags w = Inr (outcome, st')"
  shows "executes (\<lambda>c. c = Exec [''true''] []) w (world st')"
proof -
  let ?plan = "plan_transition srt manifest previous"
  let ?f = "dry_run_function K True" and ?g = "dry_run_function K False"
  have "mapping_functions K flags = (?f, ?g)"
    using assms(1) by (simp add: mapping_functions_def dry_run_function_def)
  with assms(2) obtain o1 st1 where
    1: "deactivate_obsolete_mappings K fuel rounds (plan_services ?plan) (plan_deactivation ?plan)
          (plan_previous ?plan) flags ?f ?g
          \<lparr>unified = plan_unified ?plan, targets = targets_table manifest, pid_table = [], world = w\<rparr> = Inr (o1, st1)"
    and 2: "st' = st1 \<or> (\<exists>o2. activate_new_mappings K fuel rounds (plan_services ?plan) (plan_activation ?plan)
             (plan_previous ?plan) flags ?f ?g st1 = Inr (o2, st'))"
    by (auto simp: transition_def Let_def bindr_eq_Inr split: if_splits)
  from deactivate_obsolete_executes [OF refl refl 1] 2 activate_new_executes [OF refl refl] executes_trans
  have "executes harmless w (world st')" by fastforce
  then show ?thesis unfolding harmless_def [abs_def] .
qed

lemma dry_example_returns:
  "\<exists>outcome st'. transition (demo_kernel exits) isort_by 2 8 (example_manifest [''w''])
     (Some (example_manifest [''a''])) FLAG_DRY_RUN example_world = Inr (outcome, st')"
  using transition_returns_all [OF demo_kernel_live example_ready example_world_ok example_rounds] by blast

theorem transition_dry_run_witness:
  "\<exists>outcome st'. transition (demo_kernel (\<lambda>_. Exited 0)) isort_by 2 8 (example_manifest [''w''])
     (Some (example_manifest [''a''])) FLAG_DRY_RUN example_world = Inr (outcome, st')
    \<and> executes (\<lambda>c. c = Exec [''true''] []) example_world (world st')"
proof -
  have "has_flag FLAG_DRY_RUN FLAG_DRY_RUN" by (simp add: has_flag_def FLAG_DRY_RUN_def)
  with dry_example_returns [of "\<lambda>_. Exited 0"] show ?thesis using transition_dry_run by blast
qed

end
