(* ===== verification/Model_Iterator.thy ===== *)
theory Model_Iterator
  imports Procreact_Iterator Infrastructure
begin

text \<open>
  The state every iterator over a model shares (\<open>libmodel/modeliterator.c\<close>) and the iterators over
  profile mappings and machines (\<open>libmanifest/profilemapping-iterator.c\<close>,
  \<open>libinfrastructure/targets-iterator.c\<close>). Both walk through a hash table, call a function that
  starts a process for each entry, and hand the outcome to a second one. They interpret the
  contract of the PID iterator for every such pair of functions.
\<close>

section \<open>The shared state (modeliterator.c)\<close>

record 'i ModelIteratorData =
  index :: nat
  total :: nat
  success :: bool
  item_table :: "(int \<times> 'i) list"

definition init_model_iterator_data :: "nat \<Rightarrow> 'i ModelIteratorData" where
  "init_model_iterator_data len = \<lparr>index = 0, total = len, success = True, item_table = []\<rparr>"

definition has_next_iteration_process :: "'i ModelIteratorData \<Rightarrow> bool" where
  "has_next_iteration_process d \<longleftrightarrow> index d < total d"

definition next_iteration_process :: "'i ModelIteratorData \<Rightarrow> int \<Rightarrow> 'i \<Rightarrow> 'i ModelIteratorData" where
  "next_iteration_process d pid item =
     (let d = d\<lparr>index := index d + 1\<rparr>
      in if 0 < pid then d\<lparr>item_table := AList.update pid item (item_table d)\<rparr> else d)"

text \<open>An item that is not in the table is NULL.\<close>

definition complete_iteration_process ::
  "'i ModelIteratorData \<Rightarrow> int \<Rightarrow> ProcReact_Status \<Rightarrow> int \<Rightarrow> 'i option \<times> 'i ModelIteratorData" where
  "complete_iteration_process d pid status result =
     (map_of (item_table d) pid,
      if status \<noteq> PROCREACT_STATUS_OK \<or> result = 0 then d\<lparr>success := False\<rparr> else d)"

text \<open>The items of the running processes \<open>P\<close> are known.\<close>

definition knows :: "'i set \<Rightarrow> 'i ModelIteratorData \<Rightarrow> int set \<Rightarrow> bool" where
  "knows items d P \<longleftrightarrow> (\<forall>p \<in> P. \<exists>n \<in> items. map_of (item_table d) p = Some n)"

lemma knows_next:
  "knows items d P \<Longrightarrow> n \<in> items \<Longrightarrow> 0 < pid \<Longrightarrow> pid \<notin> P \<Longrightarrow>
     knows items (next_iteration_process d pid n) (insert pid P)"
  by (auto simp: knows_def next_iteration_process_def update_conv')

lemma knows_complete:
  assumes "knows items d P" and "pid \<in> P"
  shows "\<exists>n \<in> items. complete_iteration_process d pid status result
      = (Some n, d\<lparr>success := (success d \<and> succeeded (status, result))\<rparr>)"
    and "knows items (snd (complete_iteration_process d pid status result)) (P - {pid})"
  using assms by (auto simp: knows_def complete_iteration_process_def)

lemma next_iteration_simps [simp]:
  "index (next_iteration_process d pid n) = Suc (index d)"
  "total (next_iteration_process d pid n) = total d"
  "success (next_iteration_process d pid n) = success d"
  by (simp_all add: next_iteration_process_def Let_def)

text \<open>
  What a function starts for an entry, seen on a kernel on which every fork succeeds. It is
  regular if it forks that child whatever the kernel and the past.
\<close>

definition probe_kernel :: kernel where
  "probe_kernel = \<lparr>k_fork = (\<lambda>w. 1), k_wait = (\<lambda>w. (-1, Killed)), k_waitpid = (\<lambda>p w. (-1, Killed)),
     k_interrupted = (\<lambda>w. False), k_pipe = (\<lambda>w. True), k_output = (\<lambda>c w. [])\<rparr>"

definition command_of :: "(kernel \<Rightarrow> os \<Rightarrow> (int \<times> os) result) \<Rightarrow> child" where
  "command_of f = (case f probe_kernel \<lparr>children = [], trace = []\<rparr> of
     Inr (pid, w) \<Rightarrow> (case trace w of Forked p c # t \<Rightarrow> c | _ \<Rightarrow> Exec [] [])
   | Inl e \<Rightarrow> Exec [] [])"

definition forks :: "(kernel \<Rightarrow> os \<Rightarrow> (int \<times> os) result) \<Rightarrow> bool" where
  "forks f \<longleftrightarrow> (\<forall>K w. f K w = Inr (sys_fork K (command_of f) w))"

lemma command_of_fork:
  assumes "\<And>K w. f K w = Inr (sys_fork K c w)"
  shows "command_of f = c" and "forks f"
proof -
  show "command_of f = c" by (simp add: command_of_def assms sys_fork_def probe_kernel_def)
  then show "forks f" by (simp add: forks_def assms)
qed

section \<open>Profile mappings (profilemapping-iterator.c)\<close>

text \<open>
  \<open>g_hash_table_iter\<close> visits the entries in the order of the table; the position is the index.
  \<open>map_profile_mapping\<close> starts a process, \<open>complete_map_profile_mapping\<close> handles its outcome; both
  receive the data of the caller.
\<close>

record ('v, 'u) ProfileMappingIteratorData =
  model_iterator_data :: "string ModelIteratorData"
  profile_table :: "'v hashtable"
  target_table :: "Target hashtable"
  map_profile_mapping :: "kernel \<Rightarrow> 'u \<Rightarrow> string \<Rightarrow> 'v \<Rightarrow> Target option \<Rightarrow> os \<Rightarrow> (int \<times> os) result"
  complete_map_profile_mapping ::
    "'u \<Rightarrow> cstr \<Rightarrow> 'v option \<Rightarrow> Target option \<Rightarrow> ProcReact_Status \<Rightarrow> int \<Rightarrow> 'u result"
  user_data :: 'u

definition entry_at :: "'v hashtable \<Rightarrow> nat \<Rightarrow> (string \<times> 'v) option" where
  "entry_at t i = (if i < length t then Some (t ! i) else None)"

definition has_next_profile_mapping :: "('v, 'u) ProfileMappingIteratorData \<Rightarrow> bool" where
  "has_next_profile_mapping d = has_next_iteration_process (model_iterator_data d)"

definition next_profile_mapping_process ::
  "kernel \<Rightarrow> ('v, 'u) ProfileMappingIteratorData \<Rightarrow> os \<Rightarrow> (int \<times> ('v, 'u) ProfileMappingIteratorData \<times> os) result" where
  "next_profile_mapping_process K d w =
     bindr (deref (entry_at (profile_table d) (index (model_iterator_data d)))) (\<lambda>(target_name, profile_path).
     bindr (map_profile_mapping d K (user_data d) target_name profile_path (map_of (target_table d) target_name) w)
       (\<lambda>(pid, w').
       Inr (pid, d\<lparr>model_iterator_data := next_iteration_process (model_iterator_data d) pid target_name\<rparr>, w')))"

definition complete_profile_mapping_process ::
  "('v, 'u) ProfileMappingIteratorData \<Rightarrow> int \<Rightarrow> ProcReact_Status \<Rightarrow> int \<Rightarrow> ('v, 'u) ProfileMappingIteratorData result" where
  "complete_profile_mapping_process d pid status result =
     (case complete_iteration_process (model_iterator_data d) pid status result of (target_name, m) \<Rightarrow>
        bindr (g_hash_table_lookup (profile_table d) target_name) (\<lambda>profile_path.
        bindr (g_hash_table_lookup (target_table d) target_name) (\<lambda>tgt.
        bindr (complete_map_profile_mapping d (user_data d) target_name profile_path tgt status result) (\<lambda>u.
          Inr (d\<lparr>model_iterator_data := m, user_data := u\<rparr>)))))"

definition create_profile_mapping_iterator ::
  "kernel \<Rightarrow> 'v hashtable \<Rightarrow> Target hashtable
    \<Rightarrow> (kernel \<Rightarrow> 'u \<Rightarrow> string \<Rightarrow> 'v \<Rightarrow> Target option \<Rightarrow> os \<Rightarrow> (int \<times> os) result)
    \<Rightarrow> ('u \<Rightarrow> cstr \<Rightarrow> 'v option \<Rightarrow> Target option \<Rightarrow> ProcReact_Status \<Rightarrow> int \<Rightarrow> 'u result) \<Rightarrow> 'u
    \<Rightarrow> ('v, 'u) ProfileMappingIteratorData ProcReact_PidIterator" where
  "create_profile_mapping_iterator K profiles tgts f c u =
     procreact_initialize_pid_iterator has_next_profile_mapping (next_profile_mapping_process K)
       procreact_retrieve_boolean complete_profile_mapping_process
       \<lparr>model_iterator_data = init_model_iterator_data (length profiles), profile_table = profiles,
        target_table = tgts, map_profile_mapping = f, complete_map_profile_mapping = c, user_data = u\<rparr>"

definition profile_mapping_iterator_has_succeeded :: "('v, 'u) ProfileMappingIteratorData ProcReact_PidIterator \<Rightarrow> bool" where
  "profile_mapping_iterator_has_succeeded it = success (model_iterator_data (data it))"

text \<open>
  What the two functions owe, for all data \<open>U\<close> the second can produce: the first forks a child
  that depends on the entry alone, the second returns for every entry.
\<close>

definition profile_child :: "('v, 'u) ProfileMappingIteratorData \<Rightarrow> string \<times> 'v \<Rightarrow> kernel \<Rightarrow> os \<Rightarrow> (int \<times> os) result" where
  "profile_child d e K w =
     map_profile_mapping d K (user_data d) (fst e) (snd e) (map_of (target_table d) (fst e)) w"

definition profile_todo :: "('v, 'u) ProfileMappingIteratorData \<Rightarrow> child list" where
  "profile_todo d = map (\<lambda>e. command_of (profile_child d e)) (drop (index (model_iterator_data d)) (profile_table d))"

definition profile_callbacks :: "('v, 'u) ProfileMappingIteratorData \<Rightarrow> bool" where
  "profile_callbacks d \<longleftrightarrow> (\<exists>U. user_data d \<in> U
     \<and> (\<forall>u \<in> U. \<forall>e \<in> set (profile_table d). forks (profile_child (d\<lparr>user_data := u\<rparr>) e)
          \<and> command_of (profile_child (d\<lparr>user_data := u\<rparr>) e) = command_of (profile_child d e))
     \<and> (\<forall>u \<in> U. \<forall>n v outcome result. map_of (profile_table d) n = Some v \<longrightarrow>
          (\<exists>u' \<in> U. complete_map_profile_mapping d u (Some n) (Some v)
                  (map_of (target_table d) n) outcome result = Inr u')))"

definition profile_inv :: "('v, 'u) ProfileMappingIteratorData \<Rightarrow> int set \<Rightarrow> bool" where
  "profile_inv d P \<longleftrightarrow> total (model_iterator_data d) = length (profile_table d)
     \<and> knows (fst ` set (profile_table d)) (model_iterator_data d) P \<and> profile_callbacks d"

definition profile_ok :: "('v, 'u) ProfileMappingIteratorData \<Rightarrow> bool" where
  "profile_ok d = success (model_iterator_data d)"

lemma profile_todo_step:
  assumes "profile_todo d = c # cs" and "profile_callbacks d"
  obtains n path where "entry_at (profile_table d) (index (model_iterator_data d)) = Some (n, path)"
    "n \<in> fst ` set (profile_table d)" "c = command_of (profile_child d (n, path))"
    "cs = map (\<lambda>e. command_of (profile_child d e)) (drop (Suc (index (model_iterator_data d))) (profile_table d))"
    "forks (profile_child d (n, path))"
proof -
  let ?i = "index (model_iterator_data d)"
  have i: "?i < length (profile_table d)"
    using assms(1) by (cases "?i < length (profile_table d)") (simp_all add: profile_todo_def)
  then have drop: "drop ?i (profile_table d) = profile_table d ! ?i # drop (Suc ?i) (profile_table d)"
    by (simp add: Cons_nth_drop_Suc)
  obtain n path where e: "profile_table d ! ?i = (n, path)" by fastforce
  with i have "(n, path) \<in> set (profile_table d)" by (metis nth_mem)
  moreover from this assms(2) have "forks (profile_child (d\<lparr>user_data := user_data d\<rparr>) (n, path))"
    unfolding profile_callbacks_def by metis
  ultimately show ?thesis using that [of n path] assms(1) i e drop
    by (force simp: profile_todo_def entry_at_def image_iff)
qed

lemma profile_callbacks_next: "profile_callbacks d \<Longrightarrow> profile_callbacks (d\<lparr>model_iterator_data := m\<rparr>)"
proof -
  have "profile_child (d\<lparr>model_iterator_data := m, user_data := u\<rparr>) = profile_child (d\<lparr>user_data := u\<rparr>)"
    "profile_child (d\<lparr>model_iterator_data := m\<rparr>) = profile_child d" for u
    by (simp_all add: profile_child_def fun_eq_iff)
  then show "profile_callbacks d \<Longrightarrow> profile_callbacks (d\<lparr>model_iterator_data := m\<rparr>)"
    by (simp add: profile_callbacks_def)
qed

lemma profile_callbacks_complete:
  assumes "profile_callbacks d" and "map_of (profile_table d) n = Some v"
  obtains u where "complete_map_profile_mapping d (user_data d) (Some n) (Some v) (map_of (target_table d) n) outcome result = Inr u"
    "profile_callbacks (d\<lparr>model_iterator_data := m, user_data := u\<rparr>)"
    "\<forall>e \<in> set (profile_table d). command_of (profile_child (d\<lparr>model_iterator_data := m, user_data := u\<rparr>) e) = command_of (profile_child d e)"
proof -
  have child: "profile_child (d\<lparr>model_iterator_data := m, user_data := u\<rparr>) = profile_child (d\<lparr>user_data := u\<rparr>)" for u
    by (simp add: profile_child_def fun_eq_iff)
  from assms(1) obtain U where U: "user_data d \<in> U"
    "\<forall>u \<in> U. \<forall>e \<in> set (profile_table d). forks (profile_child (d\<lparr>user_data := u\<rparr>) e)
          \<and> command_of (profile_child (d\<lparr>user_data := u\<rparr>) e) = command_of (profile_child d e)"
    "\<forall>u \<in> U. \<forall>n v outcome result. map_of (profile_table d) n = Some v \<longrightarrow>
          (\<exists>u' \<in> U. complete_map_profile_mapping d u (Some n) (Some v)
                  (map_of (target_table d) n) outcome result = Inr u')" unfolding profile_callbacks_def by blast
  from U(1,3) assms(2) obtain u where u: "u \<in> U" "complete_map_profile_mapping d (user_data d) (Some n) (Some v)
      (map_of (target_table d) n) outcome result = Inr u" by blast
  have "profile_callbacks (d\<lparr>model_iterator_data := m, user_data := u\<rparr>)"
    unfolding profile_callbacks_def using U u(1) by (intro exI [of _ U]) (simp add: child)
  with that [OF u(2)] U(2) u(1) show ?thesis by (simp add: child)
qed

text \<open>What a next and a completion do to the state, given the contract.\<close>

lemma profile_next:
  assumes inv: "profile_inv d P" and todo: "profile_todo d = c # cs" and fork: "sys_fork K c w = (pid, w')"
    and pid: "0 < pid" "pid \<notin> P"
  obtains n path m where "(n, path) \<in> set (profile_table d)" "entry_at (profile_table d) (index (model_iterator_data d)) = Some (n, path)"
    "c = command_of (profile_child d (n, path))" "m = next_iteration_process (model_iterator_data d) pid n"
    "next_profile_mapping_process K d w = Inr (pid, d\<lparr>model_iterator_data := m\<rparr>, w')"
    "profile_todo (d\<lparr>model_iterator_data := m\<rparr>) = cs" "profile_inv (d\<lparr>model_iterator_data := m\<rparr>) (insert pid P)"
proof -
  from inv have cb: "profile_callbacks d" by (simp add: profile_inv_def)
  obtain n path where e: "entry_at (profile_table d) (index (model_iterator_data d)) = Some (n, path)"
    "n \<in> fst ` set (profile_table d)" "c = command_of (profile_child d (n, path))"
    "cs = map (\<lambda>e. command_of (profile_child d e)) (drop (Suc (index (model_iterator_data d))) (profile_table d))"
    and forks: "forks (profile_child d (n, path))" by (rule profile_todo_step [OF todo cb])
  let ?m = "next_iteration_process (model_iterator_data d) pid n"
  have "profile_child d (n, path) K w = Inr (pid, w')" using forks fork e(3) by (simp add: forks_def)
  then have "next_profile_mapping_process K d w = Inr (pid, d\<lparr>model_iterator_data := ?m\<rparr>, w')"
    using e(1) by (simp add: next_profile_mapping_process_def profile_child_def)
  moreover have "profile_child (d\<lparr>model_iterator_data := ?m\<rparr>) = profile_child d" by (simp add: profile_child_def fun_eq_iff)
  then have "profile_todo (d\<lparr>model_iterator_data := ?m\<rparr>) = cs" by (simp add: profile_todo_def e(4))
  moreover have "profile_inv (d\<lparr>model_iterator_data := ?m\<rparr>) (insert pid P)"
    using inv knows_next [OF _ e(2) pid] profile_callbacks_next [OF cb, of ?m]
    by (simp add: profile_inv_def)
  moreover have "(n, path) \<in> set (profile_table d)" using e(1) by (auto simp: entry_at_def split: if_splits) (metis nth_mem)
  ultimately show ?thesis using that e by blast
qed

lemma profile_complete:
  assumes inv: "profile_inv d P" and pid: "pid \<in> P"
  obtains n v m u where "map_of (item_table (model_iterator_data d)) pid = Some n" "map_of (profile_table d) n = Some v"
    "complete_map_profile_mapping d (user_data d) (Some n) (Some v) (map_of (target_table d) n) outcome result = Inr u"
    "m = (model_iterator_data d)\<lparr>success := success (model_iterator_data d) \<and> succeeded (outcome, result)\<rparr>"
    "complete_profile_mapping_process d pid outcome result = Inr (d\<lparr>model_iterator_data := m, user_data := u\<rparr>)"
    "profile_todo (d\<lparr>model_iterator_data := m, user_data := u\<rparr>) = profile_todo d"
    "profile_inv (d\<lparr>model_iterator_data := m, user_data := u\<rparr>) (P - {pid})"
proof -
  from inv have cb: "profile_callbacks d" and known: "knows (fst ` set (profile_table d)) (model_iterator_data d) P"
    by (simp_all add: profile_inv_def)
  let ?m = "(model_iterator_data d)\<lparr>success := success (model_iterator_data d) \<and> succeeded (outcome, result)\<rparr>"
  from knows_complete(1) [OF known pid, of outcome result] obtain n where n: "n \<in> fst ` set (profile_table d)"
    "complete_iteration_process (model_iterator_data d) pid outcome result = (Some n, ?m)" by blast
  then obtain v where v: "map_of (profile_table d) n = Some v"
    by (cases "map_of (profile_table d) n") (auto simp: map_of_eq_None_iff)
  from profile_callbacks_complete [OF cb v] obtain u where
    u: "complete_map_profile_mapping d (user_data d) (Some n) (Some v) (map_of (target_table d) n) outcome result = Inr u"
    and keep: "profile_callbacks (d\<lparr>model_iterator_data := ?m, user_data := u\<rparr>)"
      "\<forall>e \<in> set (profile_table d). command_of (profile_child (d\<lparr>model_iterator_data := ?m, user_data := u\<rparr>) e)
        = command_of (profile_child d e)" .
  have "complete_profile_mapping_process d pid outcome result = Inr (d\<lparr>model_iterator_data := ?m, user_data := u\<rparr>)"
    using n(2) u v by (simp add: complete_profile_mapping_process_def)
  moreover have "profile_todo (d\<lparr>model_iterator_data := ?m, user_data := u\<rparr>) = profile_todo d"
    using keep(2) by (auto simp: profile_todo_def dest!: in_set_dropD)
  moreover have "profile_inv (d\<lparr>model_iterator_data := ?m, user_data := u\<rparr>) (P - {pid})"
    using inv knows_complete(2) [OF known pid, of outcome result] n(2) keep(1)
    by (simp add: profile_inv_def)
  moreover have "map_of (item_table (model_iterator_data d)) pid = Some n"
    using n(2) by (simp add: complete_iteration_process_def)
  ultimately show ?thesis using that [of n v u ?m] u v by blast
qed

interpretation profile_iteration: pid_iteration has_next_profile_mapping next_profile_mapping_process
  complete_profile_mapping_process profile_todo "\<lambda>d P new. profile_inv d P" profile_ok
proof
  fix d :: "('v, 'u) ProfileMappingIteratorData" and P assume "profile_inv d P"
  then show "has_next_profile_mapping d \<longleftrightarrow> profile_todo d \<noteq> []"
    by (auto simp: profile_inv_def has_next_profile_mapping_def has_next_iteration_process_def profile_todo_def)
next
  fix d :: "('v, 'u) ProfileMappingIteratorData" and P c cs K w pid w'
  assume a: "profile_inv d P" "profile_todo d = c # cs" "sys_fork K c w = (pid, w')" "0 < pid" "pid \<notin> P"
  obtain n m where "m = next_iteration_process (model_iterator_data d) pid n"
    "next_profile_mapping_process K d w = Inr (pid, d\<lparr>model_iterator_data := m\<rparr>, w')"
    "profile_todo (d\<lparr>model_iterator_data := m\<rparr>) = cs" "profile_inv (d\<lparr>model_iterator_data := m\<rparr>) (insert pid P)"
    by (rule profile_next [OF a])
  then show "\<exists>d'. next_profile_mapping_process K d w = Inr (pid, d', w') \<and> profile_todo d' = cs
      \<and> profile_inv d' (insert pid P) \<and> profile_ok d' = profile_ok d"
    by (intro exI [of _ "d\<lparr>model_iterator_data := m\<rparr>"]) (simp add: profile_ok_def)
next
  fix d :: "('v, 'u) ProfileMappingIteratorData" and P pid ws outcome result
  assume a: "profile_inv d P" "pid \<in> P" and good: "succeeded (outcome, result) = (ws = Exited 0)"
  obtain m u where
    "m = (model_iterator_data d)\<lparr>success := success (model_iterator_data d) \<and> succeeded (outcome, result)\<rparr>"
    "complete_profile_mapping_process d pid outcome result = Inr (d\<lparr>model_iterator_data := m, user_data := u\<rparr>)"
    "profile_todo (d\<lparr>model_iterator_data := m, user_data := u\<rparr>) = profile_todo d"
    "profile_inv (d\<lparr>model_iterator_data := m, user_data := u\<rparr>) (P - {pid})"
    by (rule profile_complete [OF a])
  then show "\<exists>d'. complete_profile_mapping_process d pid outcome result = Inr d' \<and> profile_todo d' = profile_todo d
      \<and> profile_inv d' (P - {pid}) \<and> profile_ok d' = (profile_ok d \<and> ws = Exited 0)"
    using good by (intro exI [of _ "d\<lparr>model_iterator_data := m, user_data := u\<rparr>"]) (simp add: profile_ok_def)
qed

section \<open>Machines (targets-iterator.c)\<close>

text \<open>
  The iterator over machines is the case in which the table it walks through is the targets
  table: its functions receive the machine of the entry.
\<close>

type_synonym 'u TargetIteratorData = "(Target, 'u) ProfileMappingIteratorData"

definition has_next_target :: "'u TargetIteratorData \<Rightarrow> bool" where
  "has_next_target d = has_next_iteration_process (model_iterator_data d)"

definition next_target_process ::
  "kernel \<Rightarrow> 'u TargetIteratorData \<Rightarrow> os \<Rightarrow> (int \<times> 'u TargetIteratorData \<times> os) result" where
  "next_target_process K d w = next_profile_mapping_process K d w"

definition complete_target_process ::
  "'u TargetIteratorData \<Rightarrow> int \<Rightarrow> ProcReact_Status \<Rightarrow> int \<Rightarrow> 'u TargetIteratorData result" where
  "complete_target_process d pid status result = complete_profile_mapping_process d pid status result"

definition create_target_pid_iterator ::
  "kernel \<Rightarrow> Target hashtable \<Rightarrow> (kernel \<Rightarrow> 'u \<Rightarrow> string \<Rightarrow> Target \<Rightarrow> os \<Rightarrow> (int \<times> os) result)
    \<Rightarrow> ('u \<Rightarrow> cstr \<Rightarrow> Target option \<Rightarrow> ProcReact_Status \<Rightarrow> int \<Rightarrow> 'u result) \<Rightarrow> 'u
    \<Rightarrow> 'u TargetIteratorData ProcReact_PidIterator" where
  "create_target_pid_iterator K tgts map_target complete_target u =
     procreact_initialize_pid_iterator has_next_target (next_target_process K)
       procreact_retrieve_boolean complete_target_process
       \<lparr>model_iterator_data = init_model_iterator_data (length tgts), profile_table = tgts, target_table = tgts,
        map_profile_mapping = (\<lambda>K u n t _. map_target K u n t),
        complete_map_profile_mapping = (\<lambda>u n _ tgt. complete_target u n tgt), user_data = u\<rparr>"

definition target_iterator_has_succeeded :: "'u TargetIteratorData ProcReact_PidIterator \<Rightarrow> bool" where
  "target_iterator_has_succeeded it = success (model_iterator_data (data it))"

interpretation target_iteration: pid_iteration has_next_target next_target_process
  complete_target_process profile_todo "\<lambda>d P new. profile_inv d P" profile_ok
  using profile_iteration.pid_iteration_axioms
  unfolding pid_iteration_def has_next_target_def next_target_process_def complete_target_process_def
    has_next_profile_mapping_def .

section \<open>A phase whose functions keep no state\<close>

text \<open>
  Most callers start one process per entry, which depends on the entry alone, and only print
  a message on its outcome. Such a phase starts exactly these processes, in the order of the
  table, reaps all of them, and succeeds exactly if all of them do; with a limit no more
  than that many run at a time.
\<close>

definition starts :: "(kernel \<Rightarrow> 'u \<Rightarrow> string \<Rightarrow> 'v \<Rightarrow> Target option \<Rightarrow> os \<Rightarrow> (int \<times> os) result) \<Rightarrow> 'u
    \<Rightarrow> Target hashtable \<Rightarrow> 'v hashtable \<Rightarrow> (string \<Rightarrow> 'v \<Rightarrow> child) \<Rightarrow> bool" where
  "starts f u ts profiles req \<longleftrightarrow>
     (\<forall>K n v w. (n, v) \<in> set profiles \<longrightarrow> f K u n v (map_of ts n) w = Inr (sys_fork K (req n v) w))"

definition keeps :: "('u \<Rightarrow> cstr \<Rightarrow> 'v option \<Rightarrow> Target option \<Rightarrow> ProcReact_Status \<Rightarrow> int \<Rightarrow> 'u result) \<Rightarrow> 'u
    \<Rightarrow> 'v hashtable \<Rightarrow> bool" where
  "keeps c u profiles \<longleftrightarrow>
     (\<forall>n v t outcome result. map_of profiles n = Some v \<longrightarrow> c u (Some n) (Some v) t outcome result = Inr u)"

lemma stateless_phase:
  fixes profiles :: "'v hashtable" and u :: 'u and ts :: "Target hashtable"
    and f :: "kernel \<Rightarrow> 'u \<Rightarrow> string \<Rightarrow> 'v \<Rightarrow> Target option \<Rightarrow> os \<Rightarrow> (int \<times> os) result"
    and c :: "'u \<Rightarrow> cstr \<Rightarrow> 'v option \<Rightarrow> Target option \<Rightarrow> ProcReact_Status \<Rightarrow> int \<Rightarrow> 'u result"
  defines "it \<equiv> \<lambda>K. create_profile_mapping_iterator K profiles ts f c u"
  assumes f: "starts f u ts profiles req"
    and c: "keeps c u profiles"
  shows "profile_todo (data (it K)) = map (\<lambda>(n, v). req n v) profiles"
    and "profile_inv (data (it K)) {}" and "profile_ok (data (it K))"
    and "wf_os w \<Longrightarrow> children w = [] \<Longrightarrow> profile_iteration.iterates K (it K) w"
proof -
  have d: "profile_table (data (it K)) = profiles" "target_table (data (it K)) = ts" "user_data (data (it K)) = u"
    "model_iterator_data (data (it K)) = init_model_iterator_data (length profiles)"
    "map_profile_mapping (data (it K)) = f" "complete_map_profile_mapping (data (it K)) = c"
    by (simp_all add: it_def create_profile_mapping_iterator_def procreact_initialize_pid_iterator_def)
  have cmd: "command_of (profile_child (data (it K)) e) = req (fst e) (snd e)"
    "forks (profile_child (data (it K)) e)" if "e \<in> set profiles" for e
  proof -
    have "profile_child (data (it K)) e K' w = Inr (sys_fork K' (req (fst e) (snd e)) w)" for K' w
      using that f [unfolded starts_def, rule_format, of "fst e" "snd e"] by (simp add: profile_child_def d)
    then show "command_of (profile_child (data (it K)) e) = req (fst e) (snd e)" "forks (profile_child (data (it K)) e)"
      by (rule command_of_fork)+
  qed
  then show "profile_todo (data (it K)) = map (\<lambda>(n, v). req n v) profiles"
    by (auto simp: profile_todo_def d init_model_iterator_data_def)
  have same: "(data (it K))\<lparr>user_data := u\<rparr> = data (it K)" using d(3) by simp
  then have "profile_callbacks (data (it K))" unfolding profile_callbacks_def
    by (intro exI [of _ "{u}"]) (simp add: same d cmd c [unfolded keeps_def])
  then show "profile_inv (data (it K)) {}" by (simp add: profile_inv_def d init_model_iterator_data_def knows_def)
  show "profile_ok (data (it K))" by (simp add: profile_ok_def d init_model_iterator_data_def)
  show "wf_os w \<Longrightarrow> children w = [] \<Longrightarrow> profile_iteration.iterates K (it K) w"
    unfolding it_def create_profile_mapping_iterator_def by (rule profile_iteration.initialized_iterates)
qed

lemma parallel_phase_returns:
  fixes profiles :: "'v hashtable" and u :: 'u
  assumes K: "kernel_live K" and w: "wf_os w" "children w = []" and fuel: "length profiles < fuel"
    and f: "starts f u ts profiles req"
    and c: "keeps c u profiles"
  obtains it' w' new where
    "procreact_fork_in_parallel_and_wait K fuel (create_profile_mapping_iterator K profiles ts f c u) w = Inr (it', w')"
    "children w' = []" "wf_os w'" "trace w' = new @ trace w" "spawned new = map (\<lambda>(n, v). req n v) profiles"
    "profile_mapping_iterator_has_succeeded it' \<longleftrightarrow> all_succeeded new"
proof -
  note sp = stateless_phase [OF f c]
  have "length (profile_todo (data (create_profile_mapping_iterator K profiles ts f c u))) < fuel"
    using fuel by (simp add: sp(1))
  from profile_iteration.fork_in_parallel_total [OF K sp(4) [OF w] w(2) sp(2) this] show ?thesis
    using that sp(1,3) unfolding profile_mapping_iterator_has_succeeded_def profile_ok_def by metis
qed

lemma limited_phase_returns:
  fixes profiles :: "'v hashtable" and u :: 'u
  assumes K: "kernel_live K" and w: "wf_os w" "children w = []" and fuel: "length profiles + 1 < fuel" and l: "0 < l"
    and f: "starts f u ts profiles req"
    and c: "keeps c u profiles"
  obtains it' w' new where
    "procreact_fork_and_wait_in_parallel_limit K fuel (create_profile_mapping_iterator K profiles ts f c u) l w = Inr (it', w')"
    "children w' = []" "wf_os w'" "trace w' = new @ trace w" "spawned new = map (\<lambda>(n, v). req n v) profiles"
    "profile_mapping_iterator_has_succeeded it' \<longleftrightarrow> all_succeeded new" "peak new \<le> l"
proof -
  note sp = stateless_phase [OF f c]
  have "length (profile_todo (data (create_profile_mapping_iterator K profiles ts f c u))) + 1 < fuel"
    using fuel by (simp add: sp(1))
  from profile_iteration.fork_limit_total [OF K sp(4) [OF w] w(2) sp(2) l this] show ?thesis
    using that sp(1,3) unfolding profile_mapping_iterator_has_succeeded_def profile_ok_def by metis
qed

lemma target_iterator_eq:
  fixes u :: 'u
  shows "create_target_pid_iterator K ts f c u =
     create_profile_mapping_iterator K ts ts (\<lambda>K u n t _. f K u n t) (\<lambda>u n _ t. c u n t) u"
proof -
  have "has_next_target = (has_next_profile_mapping :: 'u TargetIteratorData \<Rightarrow> bool)"
    "next_target_process K = (next_profile_mapping_process K :: 'u TargetIteratorData \<Rightarrow> _)"
    "complete_target_process = (complete_profile_mapping_process :: 'u TargetIteratorData \<Rightarrow> _)"
    by (simp_all add: fun_eq_iff has_next_target_def has_next_profile_mapping_def next_target_process_def
        complete_target_process_def)
  then show ?thesis by (simp add: create_target_pid_iterator_def create_profile_mapping_iterator_def)
qed

end
