(* ===== verification/Profile_Manifest.thy ===== *)
theory Profile_Manifest
  imports Manifest Model_Iterator
begin

text \<open>
  Profile manifests (\<open>libprofilemanifest/profilemanifest.c\<close>, \<open>profilemanifesttarget.c\<close>,
  \<open>profilemanifesttargettable.c\<close>, \<open>profilemanifesttarget-iterator.c\<close>): the part of a manifest that is
  stored with the profile of a machine, and the machines of which it was captured.
\<close>

section \<open>Profile manifests (profilemanifest.c)\<close>

record ProfileManifest =
  services_part :: "ManifestService hashtable option"
  service_mappings_part :: "ServiceMapping list option"
  snapshot_mappings_part :: "SnapshotMapping list option"

text \<open>A struct filled with zeros.\<close>

definition create_profile_manifest_from_element :: ProfileManifest where
  "create_profile_manifest_from_element =
     \<lparr>services_part = None, service_mappings_part = None, snapshot_mappings_part = None\<rparr>"

definition parse_and_insert_profile_manifest_attributes ::
  "sorts \<Rightarrow> cstr \<Rightarrow> xmlNode \<Rightarrow> string \<Rightarrow> ProfileManifest \<Rightarrow> ProfileManifest result" where
  "parse_and_insert_profile_manifest_attributes S userdata element key pm =
     (if xmlStrcmp (Some key) (Some ''services'') = 0
      then bindr (parse_services_table (sort_dependencies S) userdata element)
             (\<lambda>t. Inr (pm\<lparr>services_part := Some t\<rparr>))
      else if xmlStrcmp (Some key) (Some ''serviceMappings'') = 0
      then bindr (parse_service_mapping_array (sort_service_mappings S) userdata element)
             (\<lambda>a. Inr (pm\<lparr>service_mappings_part := Some a\<rparr>))
      else if xmlStrcmp (Some key) (Some ''snapshotMappings'') = 0
      then bindr (parse_snapshot_mapping_array (sort_snapshot_mappings S) None None userdata element)
             (\<lambda>a. Inr (pm\<lparr>snapshot_mappings_part := Some a\<rparr>))
      else Inr pm)"

definition parse_profile_manifest :: "sorts \<Rightarrow> cstr \<Rightarrow> xmlNode \<Rightarrow> ProfileManifest result" where
  "parse_profile_manifest S userdata element =
     bindr (NixXML_parse_simple_heterogeneous_attrset element create_profile_manifest_from_element
              (parse_and_insert_profile_manifest_attributes S userdata)) (\<lambda>pm.
       let pm = (if services_part pm = None then pm\<lparr>services_part := Some []\<rparr> else pm);
           pm = (if service_mappings_part pm = None then pm\<lparr>service_mappings_part := Some []\<rparr> else pm)
       in Inr (if snapshot_mappings_part pm = None then pm\<lparr>snapshot_mappings_part := Some []\<rparr> else pm))"

text \<open>\<open>xmlParseDoc\<close> and \<open>xmlParseFile\<close> give NULL or a document, whose root may be NULL.\<close>

definition create_profile_manifest_from_string ::
  "(string \<Rightarrow> xmlNode option option) \<Rightarrow> sorts \<Rightarrow> string \<Rightarrow> cstr \<Rightarrow> ProfileManifest option result" where
  "create_profile_manifest_from_string xmlParseDoc S result default_target =
     (case xmlParseDoc result of
        None \<Rightarrow> Inr None
      | Some None \<Rightarrow> Inr None
      | Some (Some node_root) \<Rightarrow> bindr (parse_profile_manifest S default_target node_root) (\<lambda>pm. Inr (Some pm)))"

definition create_profile_manifest_from_file ::
  "(string \<Rightarrow> xmlNode option option) \<Rightarrow> sorts \<Rightarrow> string \<Rightarrow> cstr \<Rightarrow> ProfileManifest option result" where
  "create_profile_manifest_from_file xmlParseFile S profile_manifest_file default_target =
     (case xmlParseFile profile_manifest_file of
        None \<Rightarrow> Inr None
      | Some None \<Rightarrow> Inr None
      | Some (Some node_root) \<Rightarrow> bindr (parse_profile_manifest S default_target node_root) (\<lambda>pm. Inr (Some pm)))"

text \<open>The user is known by whether the uid is 0 and by the name of the effective user.\<close>

definition determine_profile_dir :: "bool \<Rightarrow> string \<Rightarrow> string \<Rightarrow> string" where
  "determine_profile_dir uid_is_0 username localstatedir =
     (if uid_is_0 then localstatedir @ ''/nix/profiles/disnix''
      else localstatedir @ ''/nix/profiles/per-user/'' @ username @ ''/disnix'')"

definition create_profile_manifest_from_current_deployment ::
  "(string \<Rightarrow> bool) \<Rightarrow> (string \<Rightarrow> xmlNode option option) \<Rightarrow> bool \<Rightarrow> string \<Rightarrow> sorts \<Rightarrow> string \<Rightarrow> string \<Rightarrow> cstr
    \<Rightarrow> ProfileManifest option result" where
  "create_profile_manifest_from_current_deployment exists_file xmlParseFile uid_is_0 username S localstatedir profile
     default_target =
     (let profile_dir = determine_profile_dir uid_is_0 username localstatedir;
          profile_manifest_file = profile_dir @ ''/'' @ profile @ ''/profilemanifest.xml'' in
      if \<not> exists_file profile_manifest_file
      then Inr (Some \<lparr>services_part = Some [], service_mappings_part = Some [], snapshot_mappings_part = Some []\<rparr>)
      else create_profile_manifest_from_file xmlParseFile S profile_manifest_file default_target)"

definition check_profile_manifest :: "ProfileManifest \<Rightarrow> bool result" where
  "check_profile_manifest pm =
     bindr (deref (services_part pm)) (\<lambda>services.
     bindr (check_services_table services) (\<lambda>services_valid.
     bindr (deref (service_mappings_part pm)) (\<lambda>mappings.
     bindr (deref (snapshot_mappings_part pm)) (\<lambda>snapshots.
       let status = True;
           status = (if \<not> services_valid then False else status);
           status = (if \<not> check_service_mapping_array mappings then False else status)
       in Inr (if \<not> check_snapshot_mapping_array snapshots then False else status)))))"

text \<open>The formatted output of a NULL string is what glibc prints for it.\<close>

definition printed :: "cstr \<Rightarrow> string" where
  "printed s = (case s of None \<Rightarrow> ''(null)'' | Some x \<Rightarrow> x)"

fun print_service_packages :: "ManifestService hashtable \<Rightarrow> ServiceMapping list \<Rightarrow> string result" where
  "print_service_packages services [] = Inr ''''"
| "print_service_packages services (mapping # rest) =
     bindr (g_hash_table_lookup services (service mapping)) (\<lambda>found.
     bindr (deref found) (\<lambda>svc.
     bindr (print_service_packages services rest) (\<lambda>out. Inr (printed (pkg svc) @ [CHR 0x0A] @ out))))"

definition print_services_in_profile_manifest :: "ProfileManifest \<Rightarrow> string result" where
  "print_services_in_profile_manifest pm =
     bindr (deref (service_mappings_part pm)) (\<lambda>mappings.
     bindr (deref (services_part pm)) (\<lambda>services. print_service_packages services mappings))"

definition compare_service_mapping :: "ServiceMapping \<Rightarrow> ServiceMapping \<Rightarrow> int" where
  "compare_service_mapping left right =
     (let result = xmlStrcmp (container left) (container right) in
      if result = 0 then xmlStrcmp (service left) (service right) else result)"

fun print_per_container :: "ManifestService hashtable \<Rightarrow> cstr \<Rightarrow> ServiceMapping list \<Rightarrow> string result" where
  "print_per_container services last_container [] = Inr ''''"
| "print_per_container services last_container (mapping # rest) =
     bindr (g_hash_table_lookup services (service mapping)) (\<lambda>found.
     let new = xmlStrcmp (container mapping) last_container \<noteq> 0;
         last_container = (if new then container mapping else last_container);
         heading = (if new then ''  Container: '' @ printed last_container @ [CHR 0x0A] else '''') in
     bindr (deref found) (\<lambda>svc.
     bindr (print_per_container services last_container rest) (\<lambda>out.
       Inr (heading @ ''    '' @ printed (pkg svc) @ [CHR 0x0A] @ out))))"

text \<open>The array stays sorted by container and service afterwards.\<close>

definition print_services_per_container_in_profile_manifest ::
  "ServiceMapping sort_function \<Rightarrow> ProfileManifest \<Rightarrow> (string \<times> ProfileManifest) result" where
  "print_services_per_container_in_profile_manifest srt pm =
     bindr (deref (service_mappings_part pm)) (\<lambda>mappings.
     let mappings = srt compare_service_mapping mappings in
     bindr (deref (services_part pm)) (\<lambda>services.
     bindr (print_per_container services (Some '''') mappings) (\<lambda>out.
       Inr (out, pm\<lparr>service_mappings_part := Some mappings\<rparr>))))"

section \<open>Machines with a profile manifest (profilemanifesttarget.c, profilemanifesttargettable.c)\<close>

record ProfileManifestTarget =
  profile :: cstr
  profile_manifest :: "ProfileManifest option"

definition parse_profile_manifest_target ::
  "(string \<Rightarrow> xmlNode option option) \<Rightarrow> sorts \<Rightarrow> string \<Rightarrow> cstr \<Rightarrow> ProfileManifestTarget result" where
  "parse_profile_manifest_target xmlParseFile S prof default_target =
     (let manifest_file = prof @ ''/profilemanifest.xml'' in
      bindr (create_profile_manifest_from_file xmlParseFile S manifest_file default_target) (\<lambda>pm.
        Inr \<lparr>profile = Some prof, profile_manifest = pm\<rparr>))"

definition check_profile_manifest_target :: "ProfileManifestTarget \<Rightarrow> bool result" where
  "check_profile_manifest_target t =
     (case profile_manifest t of None \<Rightarrow> Inr False | Some pm \<Rightarrow> check_profile_manifest pm)"

text \<open>The check of a table looks at every entry, also after one has failed.\<close>

fun check_profile_manifest_target_table :: "ProfileManifestTarget hashtable \<Rightarrow> bool result" where
  "check_profile_manifest_target_table [] = Inr True"
| "check_profile_manifest_target_table ((key, t) # rest) =
     bindr (check_profile_manifest_target t) (\<lambda>valid.
     bindr (check_profile_manifest_target_table rest) (\<lambda>status. Inr (if \<not> valid then False else status)))"

section \<open>The iterator over them (profilemanifesttarget-iterator.c)\<close>

text \<open>It walks through the table of profile manifests and looks up the machine of each entry.\<close>

type_synonym 'u ProfileManifestTargetIteratorData = "(ProfileManifestTarget, 'u) ProfileMappingIteratorData"

definition has_next_profile_manifest_target_process :: "'u ProfileManifestTargetIteratorData \<Rightarrow> bool" where
  "has_next_profile_manifest_target_process d = has_next_iteration_process (model_iterator_data d)"

definition next_profile_manifest_target_process ::
  "kernel \<Rightarrow> 'u ProfileManifestTargetIteratorData \<Rightarrow> os \<Rightarrow> (int \<times> 'u ProfileManifestTargetIteratorData \<times> os) result" where
  "next_profile_manifest_target_process K d w = next_profile_mapping_process K d w"

definition complete_profile_manifest_target_process ::
  "'u ProfileManifestTargetIteratorData \<Rightarrow> int \<Rightarrow> ProcReact_Status \<Rightarrow> int
    \<Rightarrow> 'u ProfileManifestTargetIteratorData result" where
  "complete_profile_manifest_target_process d pid outcome result = complete_profile_mapping_process d pid outcome result"

definition create_profile_manifest_target_iterator ::
  "kernel \<Rightarrow> ProfileManifestTarget hashtable
    \<Rightarrow> (kernel \<Rightarrow> 'u \<Rightarrow> string \<Rightarrow> ProfileManifestTarget \<Rightarrow> Target option \<Rightarrow> os \<Rightarrow> (int \<times> os) result)
    \<Rightarrow> ('u \<Rightarrow> cstr \<Rightarrow> ProfileManifestTarget option \<Rightarrow> Target option \<Rightarrow> ProcReact_Status \<Rightarrow> int \<Rightarrow> 'u result)
    \<Rightarrow> Target hashtable \<Rightarrow> 'u \<Rightarrow> 'u ProfileManifestTargetIteratorData ProcReact_PidIterator" where
  "create_profile_manifest_target_iterator K t f c tgts u =
     procreact_initialize_pid_iterator has_next_profile_manifest_target_process
       (next_profile_manifest_target_process K) procreact_retrieve_boolean complete_profile_manifest_target_process
       \<lparr>model_iterator_data = init_model_iterator_data (length t), profile_table = t, target_table = tgts,
        map_profile_mapping = f, complete_map_profile_mapping = c, user_data = u\<rparr>"

definition profile_manifest_target_iterator_has_succeeded ::
  "'u ProfileManifestTargetIteratorData ProcReact_PidIterator \<Rightarrow> bool" where
  "profile_manifest_target_iterator_has_succeeded it = success (model_iterator_data (data it))"

interpretation profile_manifest_target_iteration: pid_iteration has_next_profile_manifest_target_process
  next_profile_manifest_target_process complete_profile_manifest_target_process profile_todo
  "\<lambda>d P new. profile_inv d P" profile_ok
  using profile_iteration.pid_iteration_axioms
  unfolding pid_iteration_def has_next_profile_manifest_target_process_def next_profile_manifest_target_process_def
    complete_profile_manifest_target_process_def has_next_profile_mapping_def .

section \<open>What the parser and the check establish\<close>

definition complete_profile_manifest :: "ProfileManifest \<Rightarrow> bool" where
  "complete_profile_manifest pm \<longleftrightarrow> (\<exists>t a s. services_part pm = Some t \<and> service_mappings_part pm = Some a
     \<and> snapshot_mappings_part pm = Some s \<and> table_of complete_service t)"

lemma parse_profile_manifest_complete:
  assumes "sorts_ok S" and "parse_profile_manifest S userdata element = Inr pm"
  shows "complete_profile_manifest pm"
proof -
  let ?P = "\<lambda>pm. \<forall>t. services_part pm = Some t \<longrightarrow> table_of complete_service t"
  have S: "sorts_by (sort_dependencies S) compare_interdependency_mappings" using assms(1) by (simp add: sorts_ok_def)
  from assms(2) obtain p where p: "parse_simple_children (parse_and_insert_profile_manifest_attributes S userdata)
      create_profile_manifest_from_element (xml_children element) = Inr p"
    and pm: "pm = (let pm = (if services_part p = None then p\<lparr>services_part := Some []\<rparr> else p);
           pm = (if service_mappings_part pm = None then pm\<lparr>service_mappings_part := Some []\<rparr> else pm)
       in if snapshot_mappings_part pm = None then pm\<lparr>snapshot_mappings_part := Some []\<rparr> else pm)"
    by (auto simp: parse_profile_manifest_def NixXML_parse_simple_heterogeneous_attrset_def
        parse_simple_attrset_def result_simps Let_def)
  have "?P p"
  proof (rule parse_simple_children_inv [OF p, where P = ?P])
    fix n k u u' assume "?P u" and "parse_and_insert_profile_manifest_attributes S userdata n k u = Inr u'"
    moreover have "table_of complete_service t" if "parse_services_table (sort_dependencies S) userdata n = Inr t" for t
      by (rule parse_services_table_complete [OF S that])
    ultimately show "?P u'"
      by (simp only: parse_and_insert_profile_manifest_attributes_def split: if_splits)
        (force simp: result_simps)+
  qed (simp add: create_profile_manifest_from_element_def)
  with pm show ?thesis
    by (cases "services_part p"; cases "service_mappings_part p"; cases "snapshot_mappings_part p")
      (auto simp: complete_profile_manifest_def)
qed

lemma check_profile_manifest_total:
  assumes "complete_profile_manifest pm"
  shows "\<exists>b. check_profile_manifest pm = Inr b"
proof -
  from assms obtain t a s where "services_part pm = Some t" "service_mappings_part pm = Some a"
    "snapshot_mappings_part pm = Some s" "table_of complete_service t" by (auto simp: complete_profile_manifest_def)
  then show ?thesis using check_services_table_total [of t] by (auto simp: check_profile_manifest_def Let_def)
qed

end
