(* ===== verification/Deploy_Locking.thy ===== *)
theory Deploy_Locking
  imports Model_Iterator Remote_Management
begin

text \<open>
  The coordinator's locks (\<open>libdeploy/locking.c\<close>): it asks every machine of a deployment to lock its
  profile, all in parallel, and gives the acquired locks back if one of them fails or the
  user interrupts it.
\<close>

section \<open>Unlocking\<close>

definition unlock_profile_mapping ::
  "kernel \<Rightarrow> cstr \<Rightarrow> string \<Rightarrow> string \<Rightarrow> Target option \<Rightarrow> os \<Rightarrow> (int \<times> os) result" where
  "unlock_profile_mapping K profile target_name profile_path tgt w =
     bindr (deref tgt) (\<lambda>t.
     bindr (find_target_key t) (\<lambda>target_key.
       Inr (statemgmt_remote_unlock K (client_interface t) target_key profile w)))"

text \<open>The completion only prints a message on a failure.\<close>

definition complete_unlock_profile_mapping ::
  "cstr \<Rightarrow> cstr \<Rightarrow> string option \<Rightarrow> Target option \<Rightarrow> ProcReact_Status \<Rightarrow> int \<Rightarrow> cstr result" where
  "complete_unlock_profile_mapping profile target_name profile_path tgt outcome result = Inr profile"

definition unlock ::
  "kernel \<Rightarrow> nat \<Rightarrow> string hashtable \<Rightarrow> Target hashtable \<Rightarrow> cstr \<Rightarrow> os \<Rightarrow> (bool \<times> os) result" where
  "unlock K fuel profile_mapping_table targets_table profile w =
     bindr (procreact_fork_in_parallel_and_wait K fuel
              (create_profile_mapping_iterator K profile_mapping_table targets_table unlock_profile_mapping
                 complete_unlock_profile_mapping profile) w) (\<lambda>(iterator, w).
       Inr (profile_mapping_iterator_has_succeeded iterator, w))"

section \<open>Locking\<close>

record LockData =
  lock_profile_name :: cstr
  lock_table :: "string hashtable"

definition lock_profile_mapping ::
  "kernel \<Rightarrow> LockData \<Rightarrow> string \<Rightarrow> string \<Rightarrow> Target option \<Rightarrow> os \<Rightarrow> (int \<times> os) result" where
  "lock_profile_mapping K lock_data target_name profile_path tgt w =
     bindr (deref tgt) (\<lambda>t.
     bindr (find_target_key t) (\<lambda>target_key.
       Inr (statemgmt_remote_lock K (client_interface t) target_key (lock_profile_name lock_data) w)))"

definition complete_lock_profile_mapping ::
  "LockData \<Rightarrow> cstr \<Rightarrow> string option \<Rightarrow> Target option \<Rightarrow> ProcReact_Status \<Rightarrow> int \<Rightarrow> LockData result" where
  "complete_lock_profile_mapping lock_data target_name profile_path tgt outcome result =
     (if outcome \<noteq> PROCREACT_STATUS_OK \<or> result = 0 then Inr lock_data
      else bindr (deref target_name) (\<lambda>n.
           bindr (deref profile_path) (\<lambda>path.
             Inr (lock_data\<lparr>lock_table := g_hash_table_insert n path (lock_table lock_data)\<rparr>))))"

definition lock ::
  "kernel \<Rightarrow> nat \<Rightarrow> string hashtable \<Rightarrow> Target hashtable \<Rightarrow> cstr \<Rightarrow> os \<Rightarrow> (bool \<times> os) result" where
  "lock K fuel profile_mapping_table targets_table profile w =
     bindr (procreact_fork_in_parallel_and_wait K fuel
              (create_profile_mapping_iterator K profile_mapping_table targets_table lock_profile_mapping
                 complete_lock_profile_mapping \<lparr>lock_profile_name = profile, lock_table = []\<rparr>) w) (\<lambda>(iterator, w).
     let success = profile_mapping_iterator_has_succeeded iterator;
         success = (if k_interrupted K w then False else success) in
     if \<not> success
     then bindr (unlock K fuel (lock_table (user_data (data iterator))) targets_table profile w) (\<lambda>(_, w).
            Inr (success, w))
     else Inr (success, w))"

section \<open>The requests\<close>

text \<open>A machine can be reached if it is in the table and has a key.\<close>

definition reachable_target :: "Target hashtable \<Rightarrow> string \<Rightarrow> bool" where
  "reachable_target ts n \<longleftrightarrow> (\<exists>t k. map_of ts n = Some t \<and> find_target_key t = Inr k)"

definition target_request :: "string \<Rightarrow> Target hashtable \<Rightarrow> cstr \<Rightarrow> string \<Rightarrow> child" where
  "target_request operation ts profile n = (case map_of ts n of
     None \<Rightarrow> Exec [] []
   | Some t \<Rightarrow> (case find_target_key t of
       Inl e \<Rightarrow> Exec [] []
     | Inr k \<Rightarrow> execvp [client_interface t, Some operation, Some ''--target'', k, Some ''--profile'', profile, None]))"

lemma lock_unlock_fork:
  assumes "reachable_target ts n"
  shows "lock_profile_mapping K ld n path (map_of ts n) w
      = Inr (sys_fork K (target_request ''--lock'' ts (lock_profile_name ld) n) w)"
    and "unlock_profile_mapping K profile n path (map_of ts n) w
      = Inr (sys_fork K (target_request ''--unlock'' ts profile n) w)"
  using assms by (auto simp: reachable_target_def lock_profile_mapping_def unlock_profile_mapping_def
      statemgmt_remote_lock_def statemgmt_remote_unlock_def remote_lock_or_unlock_def target_request_def)

text \<open>The processes running after some events, and the children that have exited with 0.\<close>

fun running :: "event list \<Rightarrow> int \<Rightarrow> child option" where
  "running [] = (\<lambda>p. None)"
| "running (Forked pid c # t) = (running t)(pid \<mapsto> c)"
| "running (Fork_Failed c # t) = running t"
| "running (Reaped pid ws # t) = (running t)(pid := None)"
| "running (Wait_Failed # t) = running t"

fun reaped_ok :: "event list \<Rightarrow> child list" where
  "reaped_ok [] = []"
| "reaped_ok (Forked pid c # t) = reaped_ok t"
| "reaped_ok (Fork_Failed c # t) = reaped_ok t"
| "reaped_ok (Reaped pid ws # t) =
     (case running t pid of Some c \<Rightarrow> if ws = Exited 0 then c # reaped_ok t else reaped_ok t | None \<Rightarrow> reaped_ok t)"
| "reaped_ok (Wait_Failed # t) = reaped_ok t"

section \<open>The lock phase as a PID iteration\<close>

text \<open>
  The lock table holds exactly the machines whose process has exited with 0.
\<close>

definition lock_request :: "(string, LockData) ProfileMappingIteratorData \<Rightarrow> string \<Rightarrow> child" where
  "lock_request d n = target_request ''--lock'' (target_table d) (lock_profile_name (user_data d)) n"

definition lock_inv :: "string hashtable \<Rightarrow> Target hashtable \<Rightarrow> cstr
    \<Rightarrow> (string, LockData) ProfileMappingIteratorData \<Rightarrow> int set \<Rightarrow> event list \<Rightarrow> bool" where
  "lock_inv profiles ts profile d P new \<longleftrightarrow> profile_inv d P
     \<and> profile_table d = profiles \<and> target_table d = ts \<and> lock_profile_name (user_data d) = profile
     \<and> wf_table (lock_table (user_data d)) \<and> map_profile_mapping d = lock_profile_mapping
     \<and> complete_map_profile_mapping d = complete_lock_profile_mapping
     \<and> (\<forall>e \<in> set (profile_table d). reachable_target (target_table d) (fst e))
     \<and> (\<forall>p \<in> P. \<exists>n. map_of (item_table (model_iterator_data d)) p = Some n \<and> running new p = Some (lock_request d n))
     \<and> lock_request d ` fst ` set (lock_table (user_data d)) = set (reaped_ok new)
     \<and> set (lock_table (user_data d)) \<subseteq> set (profile_table d)"

lemma set_g_hash_table_insert: "set (g_hash_table_insert k v t) \<subseteq> insert (k, v) (set t)"
  unfolding g_hash_table_insert_def by (induction t) auto

text \<open>The data of the lock phase: the profile is fixed, the table grows.\<close>

definition lock_data :: "cstr \<Rightarrow> LockData set" where
  "lock_data profile = {ld. lock_profile_name ld = profile}"

lemma lock_profile_callbacks:
  assumes "map_profile_mapping d = lock_profile_mapping" and "complete_map_profile_mapping d = complete_lock_profile_mapping"
    and "\<forall>e \<in> set (profile_table d). reachable_target (target_table d) (fst e)"
  shows "profile_callbacks d"
    and "e \<in> set (profile_table d) \<Longrightarrow> command_of (profile_child d e) = lock_request d (fst e)"
proof -
  have child: "profile_child (d\<lparr>user_data := u\<rparr>) e K w = Inr (sys_fork K (lock_request d (fst e)) w)"
    if "u \<in> lock_data (lock_profile_name (user_data d))" "e \<in> set (profile_table d)" for u e K w
    using assms that by (simp add: profile_child_def lock_request_def lock_unlock_fork lock_data_def)
  have self: "user_data d \<in> lock_data (lock_profile_name (user_data d))" by (simp add: lock_data_def)
  have cmd: "command_of (profile_child (d\<lparr>user_data := u\<rparr>) e) = lock_request d (fst e)
      \<and> forks (profile_child (d\<lparr>user_data := u\<rparr>) e)"
    if "u \<in> lock_data (lock_profile_name (user_data d))" "e \<in> set (profile_table d)" for u e
    using command_of_fork [OF child [OF that]] by blast
  from cmd [OF self, of e] show "e \<in> set (profile_table d) \<Longrightarrow> command_of (profile_child d e) = lock_request d (fst e)"
    by simp
  have "\<exists>u' \<in> lock_data (lock_profile_name (user_data d)). complete_lock_profile_mapping u (Some n) (Some v) t outcome result = Inr u'"
    if "u \<in> lock_data (lock_profile_name (user_data d))" for u n v t outcome result
    using that by (auto simp: complete_lock_profile_mapping_def lock_data_def)
  with cmd cmd [OF self] self show "profile_callbacks d" unfolding profile_callbacks_def assms(2)
    by (intro exI [of _ "lock_data (lock_profile_name (user_data d))"]) (simp add: assms(2))
qed

interpretation lock_iteration: pid_iteration has_next_profile_mapping next_profile_mapping_process
  complete_profile_mapping_process profile_todo "lock_inv profiles ts profile" profile_ok
  for profiles ts profile
proof
  fix d P new assume "lock_inv profiles ts profile d P new"
  then show "has_next_profile_mapping d \<longleftrightarrow> profile_todo d \<noteq> []"
    using profile_iteration.has_next_law [of d P] by (simp add: lock_inv_def)
next
  fix d P new c cs K w pid w'
  assume inv: "lock_inv profiles ts profile d P new" and a: "profile_todo d = c # cs" "sys_fork K c w = (pid, w')" "0 < pid" "pid \<notin> P"
  then have "profile_inv d P" by (simp add: lock_inv_def)
  then obtain n path m where e: "(n, path) \<in> set (profile_table d)" and c: "c = command_of (profile_child d (n, path))"
    and m: "m = next_iteration_process (model_iterator_data d) pid n"
    and d': "next_profile_mapping_process K d w = Inr (pid, d\<lparr>model_iterator_data := m\<rparr>, w')"
      "profile_todo (d\<lparr>model_iterator_data := m\<rparr>) = cs" "profile_inv (d\<lparr>model_iterator_data := m\<rparr>) (insert pid P)"
    using a by (rule profile_next)
  let ?d = "d\<lparr>model_iterator_data := m\<rparr>"
  have r: "map_profile_mapping d = lock_profile_mapping" "complete_map_profile_mapping d = complete_lock_profile_mapping"
    "\<forall>e \<in> set (profile_table d). reachable_target (target_table d) (fst e)"
    using inv unfolding lock_inv_def by blast+
  have c': "c = lock_request d n" using lock_profile_callbacks(2) [OF r e] c by simp
  have request: "lock_request ?d = lock_request d" by (simp add: lock_request_def fun_eq_iff)
  have items: "map_of (item_table m) = (map_of (item_table (model_iterator_data d)))(pid \<mapsto> n)"
    using a(3) by (simp add: m next_iteration_process_def Let_def update_conv')
  have "lock_inv profiles ts profile ?d (insert pid P) (Forked pid c # new)"
    using inv d'(3) a(4) unfolding lock_inv_def request by (auto simp: c' items)
  with d' show "\<exists>d'. next_profile_mapping_process K d w = Inr (pid, d', w') \<and> profile_todo d' = cs
      \<and> lock_inv profiles ts profile d' (insert pid P) (Forked pid c # new) \<and> profile_ok d' = profile_ok d"
    by (intro exI [of _ ?d]) (simp add: profile_ok_def m)
next
  fix d P new pid ws outcome result
  assume inv: "lock_inv profiles ts profile d P new" and pid: "pid \<in> P" and good: "succeeded (outcome, result) = (ws = Exited 0)"
  then have "profile_inv d P" by (simp add: lock_inv_def)
  then obtain n v m u where n: "map_of (item_table (model_iterator_data d)) pid = Some n" "map_of (profile_table d) n = Some v"
    and u: "complete_map_profile_mapping d (user_data d) (Some n) (Some v) (map_of (target_table d) n) outcome result = Inr u"
    and m: "m = (model_iterator_data d)\<lparr>success := success (model_iterator_data d) \<and> succeeded (outcome, result)\<rparr>"
    and d': "complete_profile_mapping_process d pid outcome result = Inr (d\<lparr>model_iterator_data := m, user_data := u\<rparr>)"
      "profile_todo (d\<lparr>model_iterator_data := m, user_data := u\<rparr>) = profile_todo d"
      "profile_inv (d\<lparr>model_iterator_data := m, user_data := u\<rparr>) (P - {pid})"
    using pid by (rule profile_complete)
  let ?d = "d\<lparr>model_iterator_data := m, user_data := u\<rparr>"
  from u inv good have u': "u = (if ws = Exited 0
      then (user_data d)\<lparr>lock_table := g_hash_table_insert n v (lock_table (user_data d))\<rparr> else user_data d)"
    by (auto simp: lock_inv_def complete_lock_profile_mapping_def split: if_splits)
  have request: "lock_request ?d = lock_request d" using u' by (simp add: lock_request_def fun_eq_iff)
  have table: "fst ` set (lock_table u) = (if ws = Exited 0 then insert n else id) (fst ` set (lock_table (user_data d)))"
    using u' by (simp flip: dom_map_of_conv_image_fst)
  have sub: "set (lock_table u) \<subseteq> insert (n, v) (set (lock_table (user_data d)))"
    using u' by (cases "ws = Exited 0") (simp_all add: set_g_hash_table_insert subset_insertI)
  have kept: "lock_profile_name u = lock_profile_name (user_data d)" "wf_table (lock_table (user_data d)) \<longrightarrow> wf_table (lock_table u)"
    using u' by simp_all
  have "running new pid = Some (lock_request d n)" using inv pid n(1) by (auto simp: lock_inv_def)
  then have "lock_inv profiles ts profile ?d (P - {pid}) (Reaped pid ws # new)"
    using inv d'(3) sub map_of_SomeD [OF n(2)] unfolding lock_inv_def request
    by (auto simp: table m image_Un kept)
  with d' good show "\<exists>d'. complete_profile_mapping_process d pid outcome result = Inr d' \<and> profile_todo d' = profile_todo d
      \<and> lock_inv profiles ts profile d' (P - {pid}) (Reaped pid ws # new) \<and> profile_ok d' = (profile_ok d \<and> ws = Exited 0)"
    by (intro exI [of _ ?d]) (simp add: profile_ok_def m)
qed

section \<open>What locking and unlocking do\<close>

lemma unlock_returns:
  assumes K: "kernel_live K" and w: "wf_os w" "children w = []" and fuel: "length profiles < fuel"
    and reach: "\<forall>e \<in> set profiles. reachable_target ts (fst e)"
  shows "\<exists>s w' new. unlock K fuel profiles ts profile w = Inr (s, w') \<and> children w' = [] \<and> wf_os w'
    \<and> trace w' = new @ trace w \<and> spawned new = map (\<lambda>e. target_request ''--unlock'' ts profile (fst e)) profiles
    \<and> (s \<longleftrightarrow> all_succeeded new)"
proof -
  have f: "starts unlock_profile_mapping profile ts profiles (\<lambda>n v. target_request ''--unlock'' ts profile n)"
    using reach by (force simp: starts_def lock_unlock_fork)
  have c: "keeps complete_unlock_profile_mapping profile profiles"
    by (simp add: keeps_def complete_unlock_profile_mapping_def)
  obtain it' w' new where "procreact_fork_in_parallel_and_wait K fuel
        (create_profile_mapping_iterator K profiles ts unlock_profile_mapping complete_unlock_profile_mapping profile) w
        = Inr (it', w')" "children w' = []" "wf_os w'" "trace w' = new @ trace w"
      "spawned new = map (\<lambda>(n, v). target_request ''--unlock'' ts profile n) profiles"
      "profile_mapping_iterator_has_succeeded it' \<longleftrightarrow> all_succeeded new"
    by (rule parallel_phase_returns [OF K w fuel f c])
  then show ?thesis by (simp add: unlock_def case_prod_unfold)
qed

text \<open>
  All machines are asked for their lock. Unless all of them give it and nobody interrupts the
  coordinator, a release is sent to every machine that has given it, and to no other.
\<close>

lemma lock_returns:
  assumes K: "kernel_live K" and w: "wf_os w" "children w = []" and fuel: "length profiles < fuel"
    and reach: "\<forall>e \<in> set profiles. reachable_target ts (fst e)"
  shows "\<exists>s w' locks unlocks names. lock K fuel profiles ts profile w = Inr (s, w') \<and> children w' = [] \<and> wf_os w'
    \<and> trace w' = unlocks @ locks @ trace w
    \<and> spawned locks = map (\<lambda>e. target_request ''--lock'' ts profile (fst e)) profiles
    \<and> target_request ''--lock'' ts profile ` set names = set (reaped_ok locks)
    \<and> set names \<subseteq> fst ` set profiles
    \<and> spawned unlocks = (if s then [] else map (target_request ''--unlock'' ts profile) names)
    \<and> (s \<longrightarrow> all_succeeded locks \<and> unlocks = []) \<and> (all_succeeded locks \<longrightarrow> (\<forall>w. \<not> k_interrupted K w) \<longrightarrow> s)"
proof -
  let ?it = "create_profile_mapping_iterator K profiles ts lock_profile_mapping complete_lock_profile_mapping
    \<lparr>lock_profile_name = profile, lock_table = []\<rparr>"
  have d: "profile_table (data ?it) = profiles" "target_table (data ?it) = ts"
    "user_data (data ?it) = \<lparr>lock_profile_name = profile, lock_table = []\<rparr>"
    "model_iterator_data (data ?it) = init_model_iterator_data (length profiles)"
    "map_profile_mapping (data ?it) = lock_profile_mapping"
    "complete_map_profile_mapping (data ?it) = complete_lock_profile_mapping"
    by (simp_all add: create_profile_mapping_iterator_def procreact_initialize_pid_iterator_def)
  note cb = lock_profile_callbacks [OF d(5,6)]
  have todo: "profile_todo (data ?it) = map (\<lambda>e. target_request ''--lock'' ts profile (fst e)) profiles"
    using reach cb(2) by (simp add: profile_todo_def d init_model_iterator_data_def lock_request_def)
  have inv: "lock_inv profiles ts profile (data ?it) {} []"
    using cb(1) reach by (simp add: lock_inv_def profile_inv_def d init_model_iterator_data_def knows_def)
  have it: "lock_iteration.iterates K ?it w"
    unfolding create_profile_mapping_iterator_def by (rule lock_iteration.initialized_iterates [OF w])
  have "length (profile_todo (data ?it)) < fuel" using todo fuel by simp
  from lock_iteration.fork_in_parallel_total [OF K it w(2) inv this] obtain it' w1 locks where
    1: "procreact_fork_in_parallel_and_wait K fuel ?it w = Inr (it', w1)" "children w1 = []" "wf_os w1"
    "trace w1 = locks @ trace w" "spawned locks = profile_todo (data ?it)" "lock_inv profiles ts profile (data it') {} locks"
    "profile_ok (data it') \<longleftrightarrow> profile_ok (data ?it) \<and> all_succeeded locks" by blast
  have ok: "profile_mapping_iterator_has_succeeded it' \<longleftrightarrow> all_succeeded locks"
    using 1(7) by (simp add: profile_ok_def profile_mapping_iterator_has_succeeded_def d init_model_iterator_data_def)
  let ?t = "lock_table (user_data (data it'))" and ?s = "all_succeeded locks \<and> \<not> k_interrupted K w1"
  let ?names = "map fst ?t"
  have t: "wf_table ?t" "set ?t \<subseteq> set profiles" "target_request ''--lock'' ts profile ` fst ` set ?t = set (reaped_ok locks)"
    using 1(6) by (auto simp: lock_inv_def lock_request_def)
  have "length ?t = card (fst ` set ?t)" using distinct_card [OF t(1)] by simp
  also have "\<dots> \<le> card (set profiles)" using t(2) by (meson card_image_le card_mono finite_set le_trans)
  also have "\<dots> \<le> length profiles" by (rule card_length)
  finally have len: "length ?t < fuel" using fuel by simp
  have reach': "\<forall>e \<in> set ?t. reachable_target ts (fst e)" using reach t(2) by blast
  have names: "target_request ''--lock'' ts profile ` set ?names = set (reaped_ok locks)" "set ?names \<subseteq> fst ` set profiles"
    using t by auto
  show ?thesis
  proof (cases ?s)
    case True
    then have "lock K fuel profiles ts profile w = Inr (True, w1)"
      using 1(1) ok by (simp add: lock_def Let_def)
    with True 1 todo names show ?thesis
      by (intro exI [of _ True] exI [of _ w1] exI [of _ locks] exI [of _ "[]"] exI [of _ ?names]) simp
  next
    case False
    from unlock_returns [OF K 1(3,2) len reach'] obtain s2 w2 unlocks where
      2: "unlock K fuel ?t ts profile w1 = Inr (s2, w2)" "children w2 = []" "wf_os w2" "trace w2 = unlocks @ trace w1"
        "spawned unlocks = map (\<lambda>e. target_request ''--unlock'' ts profile (fst e)) ?t" by blast
    then have "lock K fuel profiles ts profile w = Inr (False, w2)"
      using 1(1) ok False by (auto simp: lock_def Let_def)
    with False 1 2 todo names show ?thesis
      by (intro exI [of _ False] exI [of _ w2] exI [of _ locks] exI [of _ unlocks] exI [of _ ?names]) auto
  qed
qed

end
