(* ===== verification/Process_Commands.thy ===== *)
theory Process_Commands
  imports Procreact_Iterator Remote_Management
begin

text \<open>
  What running one command and waiting for it does to the trace, for the two ways the program
  does so: with an exit status, and with the output read through a pipe. The contract
  \<open>runs\<close> is all the operations built from several commands need.
\<close>

section \<open>The contract\<close>

text \<open>
  \<open>runs c new good\<close>: the events \<open>new\<close> start at most the command \<open>c\<close>, and the outcome is good exactly if
  it was started and everything went well.
\<close>

definition runs :: "child \<Rightarrow> event list \<Rightarrow> bool \<Rightarrow> bool" where
  "runs c new good \<longleftrightarrow> (spawned new = [c] \<or> spawned new = []) \<and> (good \<longleftrightarrow> spawned new = [c] \<and> all_succeeded new)"

lemma runs_goodD: "runs c new True \<Longrightarrow> spawned new = [c] \<and> all_succeeded new"
  by (simp add: runs_def)

text \<open>A step from \<open>w\<close> to \<open>w'\<close> that runs \<open>c\<close>: on a kernel that is live it leaves no child behind.\<close>

definition command_step :: "kernel \<Rightarrow> child \<Rightarrow> os \<Rightarrow> bool \<Rightarrow> os \<Rightarrow> bool" where
  "command_step K c w good w' \<longleftrightarrow> (\<exists>new. trace w' = new @ trace w \<and> runs c new good)
     \<and> (kernel_live K \<longrightarrow> wf_os w \<longrightarrow> wf_os w' \<and> children w' = children w)"

lemma command_stepE:
  assumes "command_step K c w good w'"
  obtains new where "trace w' = new @ trace w" "runs c new good"
    "kernel_live K \<Longrightarrow> wf_os w \<Longrightarrow> wf_os w' \<and> children w' = children w"
  using assms unfolding command_step_def by blast

lemma fork_and_wait_step:
  assumes K: "kernel_ok K" and f: "sys_fork K c w = (pid, w1)"
    and r: "procreact_wait_for_boolean K pid w1 = (r, w')"
  shows "command_step K c w (succeeded r) w'"
  using K f
proof (cases rule: sys_fork_cases)
  case failed
  then have "w' = w1" "fst r = PROCREACT_STATUS_FORK_FAIL"
    using r by (auto simp: procreact_wait_for_boolean_def procreact_wait_and_retrieve_def)
  moreover have "\<not> kernel_live K"
    using sys_fork_live [of K, OF _ f] failed(1) by auto
  ultimately show ?thesis using failed(2)
    unfolding command_step_def runs_def by (intro conjI exI [of _ "[Fork_Failed c]"]) auto
next
  case forked
  obtain ret ws w2 where s: "sys_waitpid K pid w1 = ((ret, ws), w2)" by (metis surj_pair)
  have same: "removeAll pid (pid # children w) = children w" if "pid \<notin> set (children w)"
    using that by simp
  from K s show ?thesis
  proof (cases rule: sys_waitpid_cases)
    case failed
    then have "w' = w1\<lparr>trace := Wait_Failed # trace w1\<rparr>" "fst r = PROCREACT_STATUS_WAIT_FAIL"
      using r s forked(1) by (auto simp: procreact_wait_for_boolean_def procreact_wait_and_retrieve_def)
    moreover have "\<not> (kernel_live K \<and> wf_os w)"
    proof
      assume live: "kernel_live K \<and> wf_os w"
      then have "wf_os w1" using wf_os_fork [OF K _ f] by simp
      with live forked have "fst (k_waitpid K pid w1) \<noteq> -1" by (simp add: kernel_live_def)
      moreover have "fst (k_waitpid K pid w1) = -1 \<or> 0 < fst (k_waitpid K pid w1)"
        using K unfolding kernel_ok_def by metis
      ultimately show False using s failed(1) by (auto simp: sys_waitpid_def reap_def split: if_splits)
    qed
    ultimately show ?thesis using forked unfolding command_step_def runs_def
      by (intro conjI exI [of _ "[Wait_Failed, Forked pid c]"]) auto
  next
    case reaped
    then have w': "w' = w1\<lparr>children := removeAll pid (children w1), trace := Reaped pid ws # trace w1\<rparr>"
      "r = procreact_retrieve_boolean pid ws"
      using r s by (auto simp: procreact_wait_for_boolean_def procreact_wait_and_retrieve_def)
    have "succeeded r \<longleftrightarrow> ws = Exited 0" using reaped(1) by (simp add: w'(2) succeeded_retrieve_boolean)
    then show ?thesis using forked unfolding command_step_def runs_def
      by (intro conjI exI [of _ "[Reaped pid ws, Forked pid c]"]) (auto simp: w'(1) wf_os_def)
  qed
qed

lemma wait_if_ok_step:
  assumes "kernel_ok K" and "wait_if_ok K (sys_fork K c w) = (good, w')"
  shows "command_step K c w good w'"
proof -
  obtain pid w1 where f: "sys_fork K c w = (pid, w1)" by fastforce
  obtain r w2 where r: "procreact_wait_for_boolean K pid w1 = (r, w2)" by fastforce
  from assms(2) have "w2 = w'" "good = succeeded r" by (auto simp: wait_if_ok_def f r case_prod_unfold)
  with fork_and_wait_step [OF assms(1) f r] show ?thesis by simp
qed

text \<open>On a live kernel the command is always started.\<close>

lemma wait_if_ok_live:
  assumes K: "kernel_live K" and wf: "wf_os w" and r: "wait_if_ok K (sys_fork K c w) = (good, w')"
  obtains new where "trace w' = new @ trace w" "spawned new = [c]" "good \<longleftrightarrow> all_succeeded new"
    "wf_os w'" "children w' = children w"
proof -
  note ok = kernel_live_ok [OF K]
  obtain pid w1 where f: "sys_fork K c w = (pid, w1)" by fastforce
  note live = sys_fork_live [OF K f]
  obtain st ws w2 where s: "sys_waitpid K pid w1 = ((st, ws), w2)" by (metis surj_pair)
  from r f s live have "w' = w2"
    by (auto simp: wait_if_ok_def procreact_wait_for_boolean_def procreact_wait_and_retrieve_def split: if_splits prod.splits)
  moreover have "\<exists>e. trace w2 = e # trace w1 \<and> (\<exists>p ws. e = Reaped p ws \<or> e = Wait_Failed)"
    using s by (auto simp: sys_waitpid_def reap_def split: if_splits)
  ultimately obtain e where e: "trace w' = [e, Forked pid c] @ trace w" "(\<exists>p ws. e = Reaped p ws) \<or> e = Wait_Failed"
    using live by auto
  from wait_if_ok_step [OF ok r] obtain new where new: "trace w' = new @ trace w" "runs c new good"
    "wf_os w' \<and> children w' = children w" using K wf by (blast elim: command_stepE)
  moreover from new(1) e(1) have "new = [e, Forked pid c]" by (metis append_same_eq)
  moreover from this e(2) have "spawned new = [c]" by auto
  ultimately show ?thesis using that [of new] by (auto simp: runs_def)
qed

section \<open>Commands whose output is read\<close>

text \<open>The result of a type of future is there exactly if the process has succeeded.\<close>

definition result_of_success :: "('s, 'r) ProcReact_Type \<Rightarrow> bool" where
  "result_of_success type \<longleftrightarrow> (\<forall>K state pid w. \<exists>x.
     finalize type K state pid w = (case procreact_wait_for_boolean K pid w of (r, w') \<Rightarrow>
       ((fst r, if succeeded r then Some x else None), w')))"

lemma results_of_success:
  "result_of_success procreact_create_bytes_type"
  "result_of_success procreact_create_string_type"
  "result_of_success (procreact_create_string_array_type d)"
  unfolding result_of_success_def procreact_create_bytes_type_def procreact_create_string_type_def
    procreact_create_string_array_type_def
  by (auto simp: procreact_type_finalize_bytes_def procreact_type_finalize_string_def
      procreact_type_finalize_string_array_def Let_def split: prod.splits option.splits)

lemma future_get_step:
  assumes K: "kernel_ok K" and type: "result_of_success type"
    and g: "future_get_if_ok K (procreact_initialize_future K type c w) = (result, w')"
  shows "command_step K c w (result \<noteq> None) w'"
proof (cases "k_pipe K w")
  case False
  have "procreact_wait_for_boolean K (-1) w = ((PROCREACT_STATUS_FORK_FAIL, -1), w)"
    by (simp add: procreact_wait_for_boolean_def procreact_wait_and_retrieve_def)
  with type [unfolded result_of_success_def, rule_format, of K "initialize type" "-1" w]
  obtain x where "finalize type K (initialize type) (-1) w = ((PROCREACT_STATUS_FORK_FAIL, x), w)" by auto
  with False g have "result = None" "w' = w"
    by (auto simp: future_get_if_ok_def procreact_initialize_future_def procreact_future_get_def)
  then show ?thesis by (auto simp: command_step_def runs_def)
next
  case True
  obtain pid w1 where f: "sys_fork K c w = (pid, w1)" by fastforce
  obtain r w2 where r: "procreact_wait_for_boolean K pid w1 = (r, w2)" by fastforce
  let ?state = "foldl (append_piece type) (initialize type) (if pid = -1 then [] else k_output K c w)"
  obtain x where "finalize type K ?state pid w1 = ((fst r, if succeeded r then Some x else None), w2)"
    using type unfolding result_of_success_def by (metis (no_types, lifting) case_prod_conv r)
  with True g f have "w2 = w'" "result \<noteq> None \<longleftrightarrow> succeeded r"
    by (auto simp: future_get_if_ok_def procreact_initialize_future_def procreact_future_get_def split: if_splits)
  with fork_and_wait_step [OF K f r] show ?thesis by simp
qed

text \<open>The lines of the output, for kernels on which no command prints a NUL.\<close>

definition text_output :: "kernel \<Rightarrow> bool" where
  "text_output K \<longleftrightarrow> (\<forall>c w. \<forall>p \<in> set (k_output K c w). CHR 0x00 \<notin> set p)"

abbreviation output_lines :: "kernel \<Rightarrow> child \<Rightarrow> os \<Rightarrow> string list" where
  "output_lines K c w \<equiv> lines_of (CHR 10) (concat (k_output K c w))"

lemma exec_lines_output:
  assumes K: "kernel_ok K" and t: "text_output K" and g: "future_get_if_ok K (exec_lines K args w) = (Some result, w')"
  shows "argv result = output_lines K (execvp args) w"
proof -
  let ?c = "execvp args" and ?type = "procreact_create_string_array_type (CHR 10)"
  have step: "command_step K ?c w True w'"
    using future_get_step [OF K results_of_success(3) g] by simp
  obtain pid w1 where f: "sys_fork K ?c w = (pid, w1)" by fastforce
  obtain r w2 where r: "procreact_wait_for_boolean K pid w1 = (r, w2)" by fastforce
  have pipe: "k_pipe K w"
  proof (rule ccontr)
    assume "\<not> k_pipe K w"
    with g show False
      by (auto simp: future_get_if_ok_def procreact_initialize_future_def procreact_future_get_def
          procreact_create_string_array_type_def procreact_type_finalize_string_array_def
          procreact_wait_for_boolean_def procreact_wait_and_retrieve_def split: if_splits)
  qed
  with g f r have good: "succeeded r" and pid: "pid \<noteq> -1"
    by (auto simp: future_get_if_ok_def procreact_initialize_future_def procreact_future_get_def
        procreact_create_string_array_type_def procreact_type_finalize_string_array_def Let_def
        procreact_wait_for_boolean_def procreact_wait_and_retrieve_def split: if_splits prod.splits)
  let ?tokens = "foldl (procreact_type_append_strings_to_array (CHR 10)) procreact_type_initialize_string_array (k_output K ?c w)"
  have "?tokens = tokens_of (CHR 10) (concat (k_output K ?c w))"
    using t by (subst append_pieces_push)
      (simp_all add: text_output_def tokens_of_foldl procreact_type_initialize_string_array_def increase_tokens_array_def)
  moreover have "result = (if last ?tokens \<noteq> None then increase_tokens_array ?tokens else ?tokens)"
    using g f r pipe good pid
    by (cases r) (auto simp: future_get_if_ok_def procreact_initialize_future_def procreact_future_get_def
        procreact_create_string_array_type_def procreact_type_finalize_string_array_def Let_def split: if_splits)
  ultimately have "result = map Some (output_lines K ?c w) @ [None]" by (simp only: finalized_tokens)
  then show ?thesis by simp
qed

end
