(* ===== verification/Disnix_Files.thy ===== *)
theory Disnix_Files
  imports Disnix_Prelude
begin

text \<open>
  The file operations the program relies on: temporary files, lock files, profile directories and
  the symlinks of Nix profiles. As with processes, the operating system is a parameter that decides
  the outcome of every call from the operations done so far; the log records those that succeeded.
\<close>

datatype file_op = Created string | Unlinked string | Removed_Dir string | Removed_Tree string

type_synonym files = "file_op list"

text \<open>
  \<open>p_create\<close>: \<open>open\<close> with \<open>O_CREAT | O_EXCL\<close>; \<open>p_mkdir\<close>: \<open>mkdir\<close> succeeds or the directory exists;
  \<open>p_readlink\<close>: the text of a symlink; \<open>p_root\<close> and \<open>p_username\<close>: the uid is 0, the name of the
  effective user.
\<close>

record posix =
  p_open :: "string \<Rightarrow> files \<Rightarrow> bool"
  p_create :: "string \<Rightarrow> files \<Rightarrow> bool"
  p_mkstemp :: "string \<Rightarrow> files \<Rightarrow> cstr"
  p_unlink :: "string \<Rightarrow> files \<Rightarrow> bool"
  p_rmdir :: "string \<Rightarrow> files \<Rightarrow> bool"
  p_remove_tree :: "string \<Rightarrow> files \<Rightarrow> bool"
  p_mkdir :: "string \<Rightarrow> bool"
  p_readlink :: "string \<Rightarrow> cstr"
  p_root :: bool
  p_username :: string

text \<open>The files created and not removed since the log began.\<close>

fun present :: "files \<Rightarrow> string \<Rightarrow> bool" where
  "present [] f = False"
| "present (Created g # l) f = (g = f \<or> present l f)"
| "present (Unlinked g # l) f = (g \<noteq> f \<and> present l f)"
| "present (Removed_Dir g # l) f = present l f"
| "present (Removed_Tree g # l) f = present l f"

definition sys_create :: "posix \<Rightarrow> string \<Rightarrow> files \<Rightarrow> bool \<times> files" where
  "sys_create P f l = (if p_create P f l then (True, Created f # l) else (False, l))"

definition sys_mkstemp :: "posix \<Rightarrow> string \<Rightarrow> files \<Rightarrow> cstr \<times> files" where
  "sys_mkstemp P template l = (case p_mkstemp P template l of None \<Rightarrow> (None, l) | Some f \<Rightarrow> (Some f, Created f # l))"

definition sys_unlink :: "posix \<Rightarrow> string \<Rightarrow> files \<Rightarrow> bool \<times> files" where
  "sys_unlink P f l = (if p_unlink P f l then (True, Unlinked f # l) else (False, l))"

definition sys_rmdir :: "posix \<Rightarrow> string \<Rightarrow> files \<Rightarrow> bool \<times> files" where
  "sys_rmdir P f l = (if p_rmdir P f l then (True, Removed_Dir f # l) else (False, l))"

definition sys_remove_tree :: "posix \<Rightarrow> string \<Rightarrow> files \<Rightarrow> bool \<times> files" where
  "sys_remove_tree P f l = (if p_remove_tree P f l then (True, Removed_Tree f # l) else (False, l))"

text \<open>\<open>readlink\<close> writes at most \<open>bytes\<close> bytes and does not terminate them.\<close>

definition sys_readlink :: "posix \<Rightarrow> string \<Rightarrow> nat \<Rightarrow> cstr" where
  "sys_readlink P path bytes = map_option (take bytes) (p_readlink P path)"

text \<open>
  What POSIX promises: an exclusive creation fails if the file exists, a temporary file has a new
  name. A system that is live lets a file that was created be removed again.
\<close>

definition posix_ok :: "posix \<Rightarrow> bool" where
  "posix_ok P \<longleftrightarrow> (\<forall>f l. p_create P f l \<longrightarrow> \<not> present l f)
     \<and> (\<forall>t f l. p_mkstemp P t l = Some f \<longrightarrow> \<not> present l f)"

definition posix_live :: "posix \<Rightarrow> bool" where
  "posix_live P \<longleftrightarrow> posix_ok P \<and> (\<forall>f l. present l f \<longrightarrow> p_unlink P f l)"

text \<open>A system that meets both, with a given table of symlinks.\<close>

definition demo_posix :: "(string \<Rightarrow> cstr) \<Rightarrow> posix" where
  "demo_posix links = \<lparr>p_open = (\<lambda>f l. True), p_create = (\<lambda>f l. \<not> present l f),
     p_mkstemp = (\<lambda>t l. if present l t then None else Some t), p_unlink = (\<lambda>f l. present l f),
     p_rmdir = (\<lambda>f l. True), p_remove_tree = (\<lambda>f l. True), p_mkdir = (\<lambda>d. True),
     p_readlink = links, p_root = True, p_username = ''root''\<rparr>"

lemma demo_posix_live: "posix_live (demo_posix links)"
  by (simp add: posix_live_def posix_ok_def demo_posix_def)

text \<open>\<open>strncmp\<close> on strings without NULs compares at most \<open>n\<close> bytes of each.\<close>

definition strncmp :: "string \<Rightarrow> string \<Rightarrow> nat \<Rightarrow> int" where
  "strncmp a b n = xmlStrcmp (Some (take n a)) (Some (take n b))"

lemma strncmp_zero: "strncmp a b n = 0 \<longleftrightarrow> take n a = take n b"
  by (simp add: strncmp_def order_simps)

end
