(* ===== verification/Package_Management.thy ===== *)
theory Package_Management
  imports Process_Commands Disnix_Files "HOL-Library.Sublist"
begin

text \<open>
  Package management on the machine itself (\<open>libpkgmgmt/package-management.c\<close>): the Nix commands
  that import, export and build closures, the profiles of a machine and of the coordinator; and the
  transfer of a closure between the coordinator and a target (\<open>libpkgmgmt/copy-closure.c\<close>).
  \<open>LOCALSTATEDIR\<close> is a constant of the build. Redirections of the output to
  the descriptors of the caller are not modelled; those from and to a file are.
\<close>

section \<open>Closures (package-management.c)\<close>

definition BUFFER_SIZE :: nat where "BUFFER_SIZE = 1024"
definition NIX_STORE_CMD :: string where "NIX_STORE_CMD = ''nix-store''"
definition NIX_COLLECT_GARBAGE_CMD :: string where "NIX_COLLECT_GARBAGE_CMD = ''nix-collect-garbage''"
definition NIX_ENV_CMD :: string where "NIX_ENV_CMD = ''nix-env''"
definition RESOLVED_PATH_MAX_SIZE :: nat where "RESOLVED_PATH_MAX_SIZE = 4096"

definition pkgmgmt_import_closure :: "kernel \<Rightarrow> posix \<Rightarrow> string \<Rightarrow> os \<Rightarrow> files \<Rightarrow> int \<times> os" where
  "pkgmgmt_import_closure K P closure w l =
     (if \<not> p_open P closure l then (-1, w)
      else sys_fork K (Input_From closure (execvp [Some NIX_STORE_CMD, Some ''--import'', None])) w)"

definition pkgmgmt_import_closure_sync :: "kernel \<Rightarrow> posix \<Rightarrow> string \<Rightarrow> os \<Rightarrow> files \<Rightarrow> bool \<times> os" where
  "pkgmgmt_import_closure_sync K P closure w l = wait_if_ok K (pkgmgmt_import_closure K P closure w l)"

text \<open>Without a temporary tempfile the pid of the caller is left as it was: uninitialised.\<close>

definition pkgmgmt_export_closure ::
  "kernel \<Rightarrow> posix \<Rightarrow> string \<Rightarrow> string list \<Rightarrow> nat \<Rightarrow> os \<Rightarrow> files \<Rightarrow> cstr \<times> int option \<times> os \<times> files" where
  "pkgmgmt_export_closure K P tmpdir paths paths_length w l =
     (case sys_mkstemp P (tmpdir @ ''/disnix.XXXXXX'') l of
        (None, l) \<Rightarrow> (None, None, w, l)
      | (Some tempfilename, l) \<Rightarrow>
          (case sys_fork K (Output_To tempfilename (execvp
                  ([Some NIX_STORE_CMD, Some ''--export''] @ array_args paths paths_length @ [None]))) w of
             (pid, w) \<Rightarrow> (Some tempfilename, Some pid, w, l)))"

definition pkgmgmt_export_closure_sync ::
  "kernel \<Rightarrow> posix \<Rightarrow> string \<Rightarrow> string list \<Rightarrow> nat \<Rightarrow> os \<Rightarrow> files \<Rightarrow> (cstr \<times> os \<times> files) result" where
  "pkgmgmt_export_closure_sync K P tmpdir paths paths_length w l =
     (case pkgmgmt_export_closure K P tmpdir paths paths_length w l of
        (tempfile, None, w, l) \<Rightarrow> Inl Uninitialised
      | (tempfile, Some pid, w, l) \<Rightarrow>
          (case wait_if_ok K (pid, w) of (good, w) \<Rightarrow> Inr (if good then tempfile else None, w, l)))"

definition pkgmgmt_print_invalid_packages :: "kernel \<Rightarrow> string list \<Rightarrow> nat \<Rightarrow> os \<Rightarrow> strings_future \<times> os" where
  "pkgmgmt_print_invalid_packages K paths paths_length w =
     exec_lines K ([Some NIX_STORE_CMD, Some ''--check-validity'', Some ''--print-invalid'']
       @ array_args paths paths_length @ [None]) w"

definition pkgmgmt_print_invalid_packages_sync ::
  "kernel \<Rightarrow> string list \<Rightarrow> nat \<Rightarrow> os \<Rightarrow> (cstr list) option \<times> os" where
  "pkgmgmt_print_invalid_packages_sync K paths paths_length w =
     future_get_if_ok K (pkgmgmt_print_invalid_packages K paths paths_length w)"

definition pkgmgmt_realise :: "kernel \<Rightarrow> string list \<Rightarrow> nat \<Rightarrow> os \<Rightarrow> strings_future \<times> os" where
  "pkgmgmt_realise K derivation_paths derivation_paths_length w =
     exec_lines K ([Some NIX_STORE_CMD, Some ''-r''] @ array_args derivation_paths derivation_paths_length @ [None]) w"

definition pkgmgmt_query_requisites :: "kernel \<Rightarrow> string list \<Rightarrow> nat \<Rightarrow> os \<Rightarrow> strings_future \<times> os" where
  "pkgmgmt_query_requisites K paths paths_length w =
     exec_lines K ([Some NIX_STORE_CMD, Some ''-qR''] @ array_args paths paths_length @ [None]) w"

definition pkgmgmt_query_requisites_sync :: "kernel \<Rightarrow> string list \<Rightarrow> nat \<Rightarrow> os \<Rightarrow> (cstr list) option \<times> os" where
  "pkgmgmt_query_requisites_sync K paths paths_length w =
     future_get_if_ok K (pkgmgmt_query_requisites K paths paths_length w)"

definition pkgmgmt_collect_garbage :: "kernel \<Rightarrow> bool \<Rightarrow> os \<Rightarrow> int \<times> os" where
  "pkgmgmt_collect_garbage K delete_old w =
     sys_fork K (if delete_old then execvp [Some NIX_COLLECT_GARBAGE_CMD, Some ''-d'', None]
       else execvp [Some NIX_COLLECT_GARBAGE_CMD, None]) w"

definition pkgmgmt_normalize_infrastructure :: "kernel \<Rightarrow> cstr \<Rightarrow> cstr \<Rightarrow> cstr \<Rightarrow> os \<Rightarrow> string_future \<times> os" where
  "pkgmgmt_normalize_infrastructure K infrastructure_expr default_target_property default_client_interface w =
     exec_string K [Some ''disnix-normalize-infra'', Some ''--target-property'', default_target_property,
       Some ''--interface'', default_client_interface, Some ''--raw'', infrastructure_expr, None] w"

text \<open>The status of the future is not looked at.\<close>

definition pkgmgmt_normalize_infrastructure_sync :: "kernel \<Rightarrow> cstr \<Rightarrow> cstr \<Rightarrow> cstr \<Rightarrow> os \<Rightarrow> cstr \<times> os" where
  "pkgmgmt_normalize_infrastructure_sync K infrastructure_expr default_target_property default_client_interface w =
     (case pkgmgmt_normalize_infrastructure K infrastructure_expr default_target_property default_client_interface w of
        (future, w) \<Rightarrow> (case procreact_future_get K future w of ((status, result), future, w) \<Rightarrow> (result, w)))"

section \<open>Profiles of a machine (package-management.c)\<close>

definition determine_local_profile_dir :: "posix \<Rightarrow> string \<Rightarrow> string" where
  "determine_local_profile_dir P localstatedir =
     (if p_root P then localstatedir @ ''/nix/profiles/disnix''
      else localstatedir @ ''/nix/profiles/per-user/'' @ p_username P @ ''/disnix'')"

text \<open>
  The NUL that ends the resolved path is written behind it, so a path that fills the buffer is a
  fault. A child that has nothing to do exits with 0.
\<close>

definition pkgmgmt_set_profile :: "kernel \<Rightarrow> posix \<Rightarrow> string \<Rightarrow> string \<Rightarrow> string \<Rightarrow> os \<Rightarrow> (int \<times> os) result" where
  "pkgmgmt_set_profile K P localstatedir prof path w =
     (let profile_dir = determine_local_profile_dir P localstatedir in
      if \<not> p_mkdir P profile_dir then Inr (-1, w)
      else let profile_path = profile_dir @ ''/'' @ prof in
      bindr (case sys_readlink P profile_path BUFFER_SIZE of
          None \<Rightarrow> Inr None
        | Some resolved_path \<Rightarrow>
            if length profile_path \<noteq> length resolved_path
                \<or> strncmp resolved_path profile_path (length resolved_path) \<noteq> 0
            then if length resolved_path < BUFFER_SIZE
                 then Inr (sys_readlink P (profile_dir @ ''/'' @ resolved_path) BUFFER_SIZE)
                 else Inl Out_Of_Bounds
            else Inr (Some resolved_path)) (\<lambda>resolved.
      Inr (sys_fork K
        (if (case resolved of None \<Rightarrow> True
             | Some resolved_path \<Rightarrow> length path = length resolved_path
                 \<and> strncmp resolved_path path (length resolved_path) \<noteq> 0)
         then execvp [Some NIX_ENV_CMD, Some ''-p'', Some profile_path, Some ''--set'', Some path, None]
         else Run ''_exit'' [Some ''0'']) w)))"

section \<open>The profile of the coordinator (package-management.c)\<close>

definition execute_set_coordinator_profile :: "kernel \<Rightarrow> string \<Rightarrow> string \<Rightarrow> os \<Rightarrow> int \<times> os" where
  "execute_set_coordinator_profile K profile_path manifest_file_path w =
     sys_fork K (execvp [Some NIX_ENV_CMD, Some ''-p'', Some profile_path, Some ''--set'',
       Some manifest_file_path, None]) w"

definition create_user_profile_dir :: "posix \<Rightarrow> string \<Rightarrow> cstr" where
  "create_user_profile_dir P localstatedir =
     (let user_profile_dir = localstatedir @ ''/nix/profiles/per-user/'' @ p_username P in
      if \<not> p_mkdir P user_profile_dir then None else Some user_profile_dir)"

definition compose_coordinator_profile_basedir :: "posix \<Rightarrow> string \<Rightarrow> cstr \<Rightarrow> cstr" where
  "compose_coordinator_profile_basedir P localstatedir coordinator_profile_path =
     (case coordinator_profile_path of
        None \<Rightarrow> (case create_user_profile_dir P localstatedir of
            None \<Rightarrow> None
          | Some user_profile_dir \<Rightarrow> Some (user_profile_dir @ ''/disnix-coordinator''))
      | Some path \<Rightarrow> Some path)"

definition normalize_manifest_path :: "string \<Rightarrow> string" where
  "normalize_manifest_path manifest_file =
     (if (1 \<le> length manifest_file \<and> manifest_file ! 0 = CHR ''/'')
         \<or> (2 \<le> length manifest_file \<and> (manifest_file ! 0 = CHR ''.'' \<or> manifest_file ! 1 = CHR ''/''))
      then manifest_file else ''./'' @ manifest_file)"

definition compare_profile_paths :: "string \<Rightarrow> string \<Rightarrow> bool" where
  "compare_profile_paths profile_path resolved_path \<longleftrightarrow>
     length profile_path = length resolved_path \<and> strncmp resolved_path profile_path (length resolved_path) = 0"

definition resolve_profile_symlink :: "posix \<Rightarrow> string \<Rightarrow> string \<Rightarrow> cstr result" where
  "resolve_profile_symlink P profile_path profile_base_dir =
     (case sys_readlink P profile_path RESOLVED_PATH_MAX_SIZE of
        None \<Rightarrow> Inr None
      | Some resolved_path \<Rightarrow>
          if \<not> compare_profile_paths profile_path resolved_path
          then if length resolved_path < RESOLVED_PATH_MAX_SIZE
               then Inr (sys_readlink P (profile_base_dir @ ''/'' @ resolved_path) RESOLVED_PATH_MAX_SIZE)
               else Inl Out_Of_Bounds
          else Inr (Some resolved_path))"

definition pkgmgmt_set_coordinator_profile ::
  "kernel \<Rightarrow> posix \<Rightarrow> string \<Rightarrow> cstr \<Rightarrow> string \<Rightarrow> string \<Rightarrow> os \<Rightarrow> (bool \<times> os) result" where
  "pkgmgmt_set_coordinator_profile K P localstatedir coordinator_profile_path manifest_file prof w =
     (case compose_coordinator_profile_basedir P localstatedir coordinator_profile_path of
        None \<Rightarrow> Inr (False, w)
      | Some profile_base_dir \<Rightarrow>
          if \<not> p_mkdir P profile_base_dir then Inr (False, w)
          else let profile_path = profile_base_dir @ ''/'' @ prof in
            bindr (resolve_profile_symlink P profile_path profile_base_dir) (\<lambda>resolved.
            if (case resolved of None \<Rightarrow> True
                | Some resolved_path \<Rightarrow> \<not> compare_profile_paths manifest_file resolved_path)
            then let manifest_file_path = normalize_manifest_path manifest_file
                 in Inr (wait_if_ok K (execute_set_coordinator_profile K profile_path manifest_file_path w))
            else Inr (True, w)))"

section \<open>Copying a closure (copy-closure.c)\<close>

definition copy_closure_to_sync ::
  "kernel \<Rightarrow> posix \<Rightarrow> cstr \<Rightarrow> cstr \<Rightarrow> string \<Rightarrow> string list \<Rightarrow> os \<Rightarrow> files \<Rightarrow> (bool \<times> os \<times> files) result" where
  "copy_closure_to_sync K P interface target tmpdir paths w l =
     (case pkgmgmt_query_requisites_sync K paths (length paths) w of
        (None, w) \<Rightarrow> Inr (False, w, l)
      | (Some requisites, w) \<Rightarrow>
          let requisites = argv requisites; requisites_length = length requisites in
          if 0 < requisites_length
          then (case pkgmgmt_remote_print_invalid_sync K interface target requisites requisites_length w of
                  (None, w) \<Rightarrow> Inr (False, w, l)
                | (Some invalid_paths, w) \<Rightarrow>
                    let invalid_paths = argv invalid_paths; invalid_paths_length = length invalid_paths in
                    if 0 < invalid_paths_length
                    then bindr (pkgmgmt_export_closure_sync K P tmpdir invalid_paths invalid_paths_length w l)
                           (\<lambda>(tempfile, w, l). case tempfile of
                              None \<Rightarrow> Inr (False, w, l)
                            | Some tempfile \<Rightarrow>
                                (case pkgmgmt_import_local_closure_sync K interface target (Some tempfile) w of
                                   (exit_status, w) \<Rightarrow> Inr (exit_status, w, snd (sys_unlink P tempfile l))))
                    else Inr (True, w, l))
          else Inr (True, w, l))"

definition copy_closure_from_sync ::
  "kernel \<Rightarrow> posix \<Rightarrow> cstr \<Rightarrow> cstr \<Rightarrow> string list \<Rightarrow> os \<Rightarrow> files \<Rightarrow> (bool \<times> os \<times> files) result" where
  "copy_closure_from_sync K P interface target paths w l =
     (case pkgmgmt_remote_query_requisites_sync K interface target paths (length paths) w of
        (None, w) \<Rightarrow> Inr (False, w, l)
      | (Some requisites, w) \<Rightarrow>
          let requisites = argv requisites; requisites_length = length requisites in
          if 0 < requisites_length
          then (case pkgmgmt_print_invalid_packages_sync K requisites requisites_length w of
                  (None, w) \<Rightarrow> Inr (False, w, l)
                | (Some invalid_paths, w) \<Rightarrow>
                    let invalid_paths = argv invalid_paths; invalid_paths_length = length invalid_paths in
                    if 0 < invalid_paths_length
                    then bindr (pkgmgmt_export_remote_closure_sync K interface target invalid_paths invalid_paths_length w)
                           (\<lambda>(tempfile, w). case tempfile of
                              None \<Rightarrow> Inr (False, w, l)
                            | Some tempfile \<Rightarrow>
                                (case pkgmgmt_import_closure_sync K P tempfile w l of
                                   (exit_status, w) \<Rightarrow> Inr (exit_status, w, snd (sys_unlink P tempfile l))))
                    else Inr (True, w, l))
          else Inr (True, w, l))"

text \<open>The asynchronous variants run the synchronous ones in a child of their own.\<close>

definition copy_closure_to :: "kernel \<Rightarrow> cstr \<Rightarrow> cstr \<Rightarrow> cstr \<Rightarrow> string list \<Rightarrow> os \<Rightarrow> int \<times> os" where
  "copy_closure_to K interface target tmpdir paths w =
     sys_fork K (Run ''copy_closure_to'' ([interface, target, tmpdir] @ map Some paths)) w"

definition copy_closure_from :: "kernel \<Rightarrow> cstr \<Rightarrow> cstr \<Rightarrow> string list \<Rightarrow> os \<Rightarrow> int \<times> os" where
  "copy_closure_from K interface target paths w =
     sys_fork K (Run ''copy_closure_from'' ([interface, target] @ map Some paths)) w"

section \<open>The four steps of a copy\<close>

text \<open>
  Both directions query the closure, ask the receiver what it misses, export that to a file and
  import it. The contract: each step runs one command and has a result exactly if the command
  succeeds. The four laws are all the routine needs; the two directions interpret them.
\<close>

definition copy_steps ::
  "(os \<Rightarrow> (cstr list) option \<times> os) \<Rightarrow> (string list \<Rightarrow> os \<Rightarrow> (cstr list) option \<times> os)
    \<Rightarrow> (string list \<Rightarrow> os \<Rightarrow> files \<Rightarrow> (cstr \<times> os \<times> files) result) \<Rightarrow> (string \<Rightarrow> os \<Rightarrow> files \<Rightarrow> bool \<times> os)
    \<Rightarrow> posix \<Rightarrow> os \<Rightarrow> files \<Rightarrow> (bool \<times> os \<times> files) result" where
  "copy_steps query invalid export imp P w l =
     (case query w of (None, w) \<Rightarrow> Inr (False, w, l)
      | (Some requisites, w) \<Rightarrow>
          if argv requisites = [] then Inr (True, w, l)
          else (case invalid (argv requisites) w of (None, w) \<Rightarrow> Inr (False, w, l)
            | (Some invalid_paths, w) \<Rightarrow>
                if argv invalid_paths = [] then Inr (True, w, l)
                else bindr (export (argv invalid_paths) w l) (\<lambda>(tempfile, w, l). case tempfile of
                       None \<Rightarrow> Inr (False, w, l)
                     | Some tempfile \<Rightarrow> (case imp tempfile w l of
                         (good, w) \<Rightarrow> Inr (good, w, snd (sys_unlink P tempfile l))))))"

text \<open>The commands a copy runs when \<open>R\<close> is the closure and \<open>I\<close> what the receiver misses of it.\<close>

definition copy_commands ::
  "child \<Rightarrow> (string list \<Rightarrow> child) \<Rightarrow> (string list \<Rightarrow> string \<Rightarrow> child) \<Rightarrow> (string \<Rightarrow> child)
    \<Rightarrow> string list \<Rightarrow> string list \<Rightarrow> string \<Rightarrow> child list" where
  "copy_commands query_cmd invalid_cmd export_cmd import_cmd R I tmp =
     query_cmd # (if R = [] then [] else invalid_cmd R
       # (if I = [] then [] else [export_cmd I tmp, import_cmd tmp]))"

definition query_step :: "kernel \<Rightarrow> child \<Rightarrow> os \<Rightarrow> (cstr list) option \<Rightarrow> os \<Rightarrow> bool" where
  "query_step K c w r w' \<longleftrightarrow> command_step K c w (r \<noteq> None) w'
     \<and> (\<forall>x. text_output K \<longrightarrow> r = Some x \<longrightarrow> argv x = output_lines K c w)"

locale closure_copy =
  fixes K :: kernel and query :: "os \<Rightarrow> (cstr list) option \<times> os" and query_cmd :: child
    and invalid :: "string list \<Rightarrow> os \<Rightarrow> (cstr list) option \<times> os" and invalid_cmd :: "string list \<Rightarrow> child"
    and export :: "string list \<Rightarrow> os \<Rightarrow> files \<Rightarrow> (cstr \<times> os \<times> files) result"
    and export_cmd :: "string list \<Rightarrow> string \<Rightarrow> child"
    and imp :: "string \<Rightarrow> os \<Rightarrow> files \<Rightarrow> bool \<times> os" and import_cmd :: "string \<Rightarrow> child"
    and files_law :: "string \<Rightarrow> files \<Rightarrow> files \<Rightarrow> bool"
  assumes query_law: "kernel_ok K \<Longrightarrow> query w = (r, w') \<Longrightarrow> query_step K query_cmd w r w'"
    and invalid_law: "kernel_ok K \<Longrightarrow> invalid R w = (r, w') \<Longrightarrow> query_step K (invalid_cmd R) w r w'"
    and export_law: "kernel_ok K \<Longrightarrow> export I w l = Inr (tempfile, w', l') \<Longrightarrow> \<exists>tmp. command_step K (export_cmd I tmp) w (tempfile \<noteq> None) w'
      \<and> files_law tmp l l' \<and> (\<forall>x. tempfile = Some x \<longrightarrow> x = tmp)"
    and import_law: "kernel_ok K \<Longrightarrow> imp tmp w l = (good, w') \<Longrightarrow> command_step K (import_cmd tmp) w good w'"
begin

definition described :: "os \<Rightarrow> os \<Rightarrow> bool \<Rightarrow> string list \<Rightarrow> string list \<Rightarrow> string \<Rightarrow> bool" where
  "described w w' good R I tmp \<longleftrightarrow> (\<exists>new. trace w' = new @ trace w
     \<and> prefix (spawned new) (copy_commands query_cmd invalid_cmd export_cmd import_cmd R I tmp)
     \<and> (good \<longleftrightarrow> spawned new = copy_commands query_cmd invalid_cmd export_cmd import_cmd R I tmp \<and> all_succeeded new))"

lemma copy_steps_outcome:
  assumes K: "kernel_ok K" and steps: "copy_steps query invalid export imp P w l = Inr (good, w', l')"
  shows "\<exists>R I tmp. described w w' good R I tmp
    \<and> (good \<longrightarrow> text_output K \<longrightarrow> R = output_lines K query_cmd w
         \<and> (R \<noteq> [] \<longrightarrow> (\<exists>w1. I = output_lines K (invalid_cmd R) w1)))
    \<and> (good \<longrightarrow> l' = l \<or> (\<exists>l1. files_law tmp l l1 \<and> l' = snd (sys_unlink P tmp l1)))"
proof -
  obtain r1 w1 where q: "query w = (r1, w1)" by fastforce
  from query_law [OF K q, unfolded query_step_def] obtain n1 where n1: "trace w1 = n1 @ trace w" "runs query_cmd n1 (r1 \<noteq> None)"
    by (blast elim: command_stepE)
  show ?thesis
  proof (cases r1)
    case None
    with steps q n1 show ?thesis
      by (intro exI [of _ "[]"]) (auto simp: copy_steps_def described_def copy_commands_def runs_def)
  next
    case (Some x1)
    let ?R = "argv x1"
    from query_law [OF K q, unfolded query_step_def] Some have R: "text_output K \<longrightarrow> ?R = output_lines K query_cmd w" by auto
    from n1(2) Some have s1: "spawned n1 = [query_cmd]" "all_succeeded n1" by (auto simp: runs_def)
    show ?thesis
    proof (cases "?R = []")
      case True
      with steps q Some have "good" "w' = w1" "l' = l" by (auto simp: copy_steps_def)
      with True R s1 n1(1) show ?thesis by (intro exI [of _ ?R])
          (auto simp: described_def copy_commands_def)
    next
      case False
      obtain r2 w2 where i: "invalid ?R w1 = (r2, w2)" by fastforce
      from invalid_law [OF K i, unfolded query_step_def] obtain n2 where n2: "trace w2 = n2 @ trace w1" "runs (invalid_cmd ?R) n2 (r2 \<noteq> None)"
        by (blast elim: command_stepE)
      show ?thesis
      proof (cases r2)
        case None
        with steps q Some False i have "\<not> good" "w' = w2" by (auto simp: copy_steps_def)
        moreover have "described w w2 False ?R [] ''''"
          unfolding described_def using None n1 n2 s1 False
          by (intro exI [of _ "n2 @ n1"]) (auto simp: copy_commands_def runs_def spawned_append)
        ultimately show ?thesis by (intro exI [of _ ?R] exI [of _ "[]"] exI [of _ "''''"]) simp
      next
        case (Some x2)
        let ?I = "argv x2"
        from n2(2) Some have s2: "spawned (n2 @ n1) = [query_cmd, invalid_cmd ?R]" "all_succeeded (n2 @ n1)"
          using s1 by (auto simp: runs_def spawned_append)
        from invalid_law [OF K i, unfolded query_step_def] Some have I: "text_output K \<longrightarrow> (\<exists>w1. ?I = output_lines K (invalid_cmd ?R) w1)" by auto
        show ?thesis
        proof (cases "?I = []")
          case True
          with steps q \<open>r1 = Some x1\<close> False i Some have "good" "w' = w2" "l' = l" by (auto simp: copy_steps_def)
          moreover have "described w w2 True ?R ?I ''''"
            unfolding described_def using n1(1) n2(1) s2 False True
            by (intro exI [of _ "n2 @ n1"]) (simp add: copy_commands_def)
          ultimately show ?thesis using R I by (intro exI [of _ ?R] exI [of _ ?I] exI [of _ "''''"]) simp
        next
          case I_left: False
          from steps q \<open>r1 = Some x1\<close> False i Some I_left obtain r3 w3 l3 where
            e: "export ?I w2 l = Inr (r3, w3, l3)" by (auto simp: copy_steps_def result_simps)
          from export_law [OF K e] obtain tmp where tmp: "command_step K (export_cmd ?I tmp) w2 (r3 \<noteq> None) w3"
            "files_law tmp l l3" "\<forall>x. r3 = Some x \<longrightarrow> x = tmp" by blast
          then obtain n3 where n3: "trace w3 = n3 @ trace w2" "runs (export_cmd ?I tmp) n3 (r3 \<noteq> None)"
            by (blast elim: command_stepE)
          have cmds: "copy_commands query_cmd invalid_cmd export_cmd import_cmd ?R ?I tmp
            = [query_cmd, invalid_cmd ?R, export_cmd ?I tmp, import_cmd tmp]"
            using False I_left by (simp add: copy_commands_def)
          show ?thesis
          proof (cases r3)
            case None
            with steps q \<open>r1 = Some x1\<close> False i Some I_left e have "\<not> good" "w' = w3" by (auto simp: copy_steps_def)
            moreover have "described w w3 False ?R ?I tmp"
              unfolding described_def cmds using None n1(1) n2(1) n3 s2
              by (intro exI [of _ "n3 @ n2 @ n1"]) (auto simp: runs_def spawned_append)
            ultimately show ?thesis by (intro exI [of _ ?R] exI [of _ ?I] exI [of _ tmp]) simp
          next
            case (Some t)
            with tmp(3) have t: "r3 = Some tmp" by simp
            obtain b w4 where m: "imp tmp w3 l3 = (b, w4)" by fastforce
            from import_law [OF K m] obtain n4 where n4: "trace w4 = n4 @ trace w3" "runs (import_cmd tmp) n4 b"
              by (blast elim: command_stepE)
            have "good = b" "w' = w4" "l' = snd (sys_unlink P tmp l3)"
              using steps q \<open>r1 = Some x1\<close> False i \<open>r2 = Some x2\<close> I_left e t m by (auto simp: copy_steps_def)
            moreover have "described w w4 b ?R ?I tmp"
              unfolding described_def cmds using t n1(1) n2(1) n3 n4 s2
              by (intro exI [of _ "n4 @ n3 @ n2 @ n1"]) (auto simp: runs_def spawned_append)
            ultimately show ?thesis using R I tmp(2) by (intro exI [of _ ?R] exI [of _ ?I] exI [of _ tmp]) auto
          qed
        qed
      qed
    qed
  qed
qed

end

section \<open>The two directions\<close>

text \<open>The commands of each direction.\<close>

definition to_query :: "string list \<Rightarrow> child" where
  "to_query paths = Exec ([NIX_STORE_CMD, ''-qR''] @ paths) []"

definition to_invalid :: "string \<Rightarrow> string \<Rightarrow> string list \<Rightarrow> child" where
  "to_invalid i t R = Exec ([i, ''--target'', t, ''--print-invalid''] @ R) []"

definition to_export :: "string list \<Rightarrow> string \<Rightarrow> child" where
  "to_export I tmp = Output_To tmp (Exec ([NIX_STORE_CMD, ''--export''] @ I) [])"

definition to_import :: "string \<Rightarrow> string \<Rightarrow> string \<Rightarrow> child" where
  "to_import i t tmp = Exec [i, ''--import'', ''--target'', t, ''--localfile'', tmp] []"

definition from_query :: "string \<Rightarrow> string \<Rightarrow> string list \<Rightarrow> child" where
  "from_query i t paths = Exec ([i, ''--query-requisites'', ''--target'', t] @ paths) []"

definition from_invalid :: "string list \<Rightarrow> child" where
  "from_invalid R = Exec ([NIX_STORE_CMD, ''--check-validity'', ''--print-invalid''] @ R) []"

definition from_export :: "string \<Rightarrow> string \<Rightarrow> string list \<Rightarrow> child" where
  "from_export i t I = Exec ([i, ''--target'', t, ''--export'', ''--remotefile''] @ I) []"

definition from_import :: "string \<Rightarrow> child" where
  "from_import tmp = Input_From tmp (Exec [NIX_STORE_CMD, ''--import''] [])"

lemma lines_step:
  assumes "kernel_ok K" and "future_get_if_ok K (exec_lines K args w) = (r, w')" and "execvp args = c"
  shows "query_step K c w r w'"
  unfolding query_step_def using future_get_step [OF assms(1) results_of_success(3) assms(2)] exec_lines_output [OF assms(1)] assms(2,3) by blast

lemma argv_args: "argv (array_args xs (length xs) @ [None]) = xs" "argv [Some a, None] = [a]"
  by simp_all

lemma sync_steps:
  assumes K: "kernel_ok K"
  shows "pkgmgmt_query_requisites_sync K paths (length paths) w = (r, w') \<Longrightarrow>
      query_step K (to_query paths) w r w'"
    and "pkgmgmt_remote_print_invalid_sync K (Some i) (Some t) R (length R) w = (r, w') \<Longrightarrow>
      query_step K (to_invalid i t R) w r w'"
    and "pkgmgmt_remote_query_requisites_sync K (Some i) (Some t) paths (length paths) w = (r, w') \<Longrightarrow>
      query_step K (from_query i t paths) w r w'"
    and "pkgmgmt_print_invalid_packages_sync K R (length R) w = (r, w') \<Longrightarrow>
      query_step K (from_invalid R) w r w'"
proof -
  show "pkgmgmt_query_requisites_sync K paths (length paths) w = (r, w') \<Longrightarrow>
      query_step K (to_query paths) w r w'"
    unfolding pkgmgmt_query_requisites_sync_def pkgmgmt_query_requisites_def
    by (erule lines_step [OF K]) (simp add: to_query_def execvp_def)
  show "pkgmgmt_remote_print_invalid_sync K (Some i) (Some t) R (length R) w = (r, w') \<Longrightarrow>
      query_step K (to_invalid i t R) w r w'"
    unfolding pkgmgmt_remote_print_invalid_sync_def pkgmgmt_remote_print_invalid_def
    by (erule lines_step [OF K]) (simp add: to_invalid_def execvp_def)
  show "pkgmgmt_remote_query_requisites_sync K (Some i) (Some t) paths (length paths) w = (r, w') \<Longrightarrow>
      query_step K (from_query i t paths) w r w'"
    unfolding pkgmgmt_remote_query_requisites_sync_def pkgmgmt_remote_query_requisites_def
    by (erule lines_step [OF K]) (simp add: from_query_def execvp_def)
  show "pkgmgmt_print_invalid_packages_sync K R (length R) w = (r, w') \<Longrightarrow>
      query_step K (from_invalid R) w r w'"
    unfolding pkgmgmt_print_invalid_packages_sync_def pkgmgmt_print_invalid_packages_def
    by (erule lines_step [OF K]) (simp add: from_invalid_def execvp_def)
qed

interpretation copy_to: closure_copy K "pkgmgmt_query_requisites_sync K paths (length paths)" "to_query paths"
  "\<lambda>R. pkgmgmt_remote_print_invalid_sync K (Some i) (Some t) R (length R)" "to_invalid i t"
  "\<lambda>I. pkgmgmt_export_closure_sync K P tmpdir I (length I)" to_export
  "\<lambda>tmp w l. pkgmgmt_import_local_closure_sync K (Some i) (Some t) (Some tmp) w" "to_import i t"
  "\<lambda>tmp l l'. posix_ok P \<longrightarrow> l' = Created tmp # l \<and> \<not> present l tmp"
  for K i t P tmpdir paths
proof
  fix w r w' assume K: "kernel_ok K"
  show "pkgmgmt_query_requisites_sync K paths (length paths) w = (r, w') \<Longrightarrow> query_step K (to_query paths) w r w'"
    by (rule sync_steps(1) [OF K])
  show "pkgmgmt_remote_print_invalid_sync K (Some i) (Some t) R (length R) w = (r, w') \<Longrightarrow> query_step K (to_invalid i t R) w r w'" for R
    by (rule sync_steps(2) [OF K])
next
  fix I w l tempfile w' l' assume K: "kernel_ok K" and e: "pkgmgmt_export_closure_sync K P tmpdir I (length I) w l = Inr (tempfile, w', l')"
  then obtain tmp where tmp: "p_mkstemp P (tmpdir @ ''/disnix.XXXXXX'') l = Some tmp"
    by (cases "p_mkstemp P (tmpdir @ ''/disnix.XXXXXX'') l")
      (auto simp: pkgmgmt_export_closure_sync_def pkgmgmt_export_closure_def sys_mkstemp_def)
  have cmd: "Output_To tmp (execvp ([Some NIX_STORE_CMD, Some ''--export''] @ array_args I (length I) @ [None])) = to_export I tmp"
    by (simp add: to_export_def execvp_def)
  obtain good w1 where w: "wait_if_ok K (sys_fork K (to_export I tmp) w) = (good, w1)" by fastforce
  obtain pid w2 where f: "sys_fork K (to_export I tmp) w = (pid, w2)" by fastforce
  have "tempfile = (if good then Some tmp else None)" "w' = w1" "l' = Created tmp # l"
    using e w by (auto simp: pkgmgmt_export_closure_sync_def pkgmgmt_export_closure_def sys_mkstemp_def tmp cmd [simplified] f)
  with wait_if_ok_step [OF K w] tmp
  show "\<exists>tmp. command_step K (to_export I tmp) w (tempfile \<noteq> None) w'
      \<and> (posix_ok P \<longrightarrow> l' = Created tmp # l \<and> \<not> present l tmp) \<and> (\<forall>x. tempfile = Some x \<longrightarrow> x = tmp)"
    by (intro exI [of _ tmp]) (auto simp: posix_ok_def split: if_splits)
next
  fix tmp w and l :: files and good w' assume K: "kernel_ok K"
    and "pkgmgmt_import_local_closure_sync K (Some i) (Some t) (Some tmp) w = (good, w')"
  then show "command_step K (to_import i t tmp) w good w'"
    unfolding pkgmgmt_import_local_closure_sync_def pkgmgmt_import_local_closure_def
    by (intro wait_if_ok_step [OF K]) (simp add: to_import_def execvp_def)
qed

interpretation copy_from: closure_copy K "pkgmgmt_remote_query_requisites_sync K (Some i) (Some t) paths (length paths)"
  "from_query i t paths" "\<lambda>R. pkgmgmt_print_invalid_packages_sync K R (length R)" from_invalid
  "\<lambda>I w l. bindr (pkgmgmt_export_remote_closure_sync K (Some i) (Some t) I (length I) w) (\<lambda>(tempfile, w). Inr (tempfile, w, l))"
  "\<lambda>I tmp. from_export i t I" "\<lambda>tmp w l. pkgmgmt_import_closure_sync K P tmp w l" from_import
  "\<lambda>tmp l l'. l' = l"
  for K i t P paths
proof
  fix w r w' assume K: "kernel_ok K"
  show "pkgmgmt_remote_query_requisites_sync K (Some i) (Some t) paths (length paths) w = (r, w') \<Longrightarrow> query_step K (from_query i t paths) w r w'"
    by (rule sync_steps(3) [OF K])
  show "pkgmgmt_print_invalid_packages_sync K R (length R) w = (r, w') \<Longrightarrow> query_step K (from_invalid R) w r w'" for R
    by (rule sync_steps(4) [OF K])
next
  fix I w and l :: files and tempfile w' l' assume K: "kernel_ok K"
    and e: "bindr (pkgmgmt_export_remote_closure_sync K (Some i) (Some t) I (length I) w) (\<lambda>(tempfile, w). Inr (tempfile, w, l)) = Inr (tempfile, w', l')"
  let ?f = "exec_string K ([Some i, Some ''--target'', Some t, Some ''--export'', Some ''--remotefile'']
        @ array_args I (length I) @ [None]) w"
  have cmd: "execvp ([Some i, Some ''--target'', Some t, Some ''--export'', Some ''--remotefile''] @ array_args I (length I) @ [None])
      = from_export i t I" by (simp add: from_export_def execvp_def)
  obtain result w1 where g: "future_get_if_ok K ?f = (result, w1)" by fastforce
  note step = future_get_step [OF K results_of_success(2) g, unfolded cmd]
  have "l' = l" "w' = w1" "tempfile \<noteq> None \<longleftrightarrow> result \<noteq> None"
    using e g by (auto simp: pkgmgmt_export_remote_closure_sync_def pkgmgmt_export_remote_closure_def result_simps
        future_get_if_ok_def split: prod.splits if_splits)
  with step show "\<exists>tmp. command_step K (from_export i t I) w (tempfile \<noteq> None) w' \<and> l' = l \<and> (\<forall>x. tempfile = Some x \<longrightarrow> x = tmp)"
    by (intro exI [of _ "the tempfile"]) auto
next
  fix tmp w l good w' assume K: "kernel_ok K" and m: "pkgmgmt_import_closure_sync K P tmp w l = (good, w')"
  show "command_step K (from_import tmp) w good w'"
  proof (cases "p_open P tmp l")
    case True
    with m show ?thesis unfolding pkgmgmt_import_closure_sync_def pkgmgmt_import_closure_def
      by (intro wait_if_ok_step [OF K]) (simp add: from_import_def execvp_def)
  next
    case False
    with m have "\<not> good" "w' = w"
      by (auto simp: pkgmgmt_import_closure_sync_def pkgmgmt_import_closure_def wait_if_ok_def
          procreact_wait_for_boolean_def procreact_wait_and_retrieve_def)
    then show ?thesis by (auto simp: command_step_def runs_def)
  qed
qed

lemma copy_closure_steps:
  "copy_closure_to_sync K P interface target tmpdir paths w l =
     copy_steps (pkgmgmt_query_requisites_sync K paths (length paths))
       (\<lambda>R. pkgmgmt_remote_print_invalid_sync K interface target R (length R))
       (\<lambda>I. pkgmgmt_export_closure_sync K P tmpdir I (length I))
       (\<lambda>tmp w l. pkgmgmt_import_local_closure_sync K interface target (Some tmp) w) P w l"
  "copy_closure_from_sync K P interface target paths w l =
     copy_steps (pkgmgmt_remote_query_requisites_sync K interface target paths (length paths))
       (\<lambda>R. pkgmgmt_print_invalid_packages_sync K R (length R))
       (\<lambda>I w l. bindr (pkgmgmt_export_remote_closure_sync K interface target I (length I) w) (\<lambda>(tempfile, w). Inr (tempfile, w, l)))
       (\<lambda>tmp w l. pkgmgmt_import_closure_sync K P tmp w l) P w l"
  unfolding copy_closure_to_sync_def copy_closure_from_sync_def copy_steps_def
  by (auto simp: Let_def bindr_def split: prod.splits option.splits sum.splits)

section \<open>What the operations do\<close>

text \<open>
  C18: Copying a closure to a machine runs at most four commands, in this order: it queries the closure,
  asks the machine which paths it misses, exports these paths alone and imports them there, leaving out
  what is not needed. It succeeds exactly if all of them have run and exited with 0; then the
  temporary file is gone.
\<close>

theorem copy_closure_to_commands:
  assumes "kernel_ok K" and "posix_live P"
    and "copy_closure_to_sync K P (Some i) (Some t) tmpdir paths w l = Inr (good, w', l')"
  shows "\<exists>R I tmp new. trace w' = new @ trace w
    \<and> prefix (spawned new) (copy_commands (to_query paths) (to_invalid i t) to_export (to_import i t) R I tmp)
    \<and> (good \<longleftrightarrow> spawned new = copy_commands (to_query paths) (to_invalid i t) to_export (to_import i t) R I tmp
         \<and> all_succeeded new)
    \<and> (good \<longrightarrow> text_output K \<longrightarrow> R = output_lines K (to_query paths) w
         \<and> (R \<noteq> [] \<longrightarrow> (\<exists>w1. I = output_lines K (to_invalid i t R) w1)))
    \<and> (good \<longrightarrow> present l' = present l)"
proof -
  from assms(2) have P: "posix_ok P" by (simp add: posix_live_def)
  from copy_to.copy_steps_outcome [OF assms(1) assms(3) [unfolded copy_closure_steps]] obtain R I tmp new where
    o: "trace w' = new @ trace w"
    "prefix (spawned new) (copy_commands (to_query paths) (to_invalid i t) to_export (to_import i t) R I tmp)"
    "good \<longleftrightarrow> spawned new = copy_commands (to_query paths) (to_invalid i t) to_export (to_import i t) R I tmp
         \<and> all_succeeded new"
    "good \<longrightarrow> text_output K \<longrightarrow> R = output_lines K (to_query paths) w
         \<and> (R \<noteq> [] \<longrightarrow> (\<exists>w1. I = output_lines K (to_invalid i t R) w1))"
    and files: "good \<longrightarrow> l' = l \<or> (\<exists>l1. (posix_ok P \<longrightarrow> l1 = Created tmp # l \<and> \<not> present l tmp)
         \<and> l' = snd (sys_unlink P tmp l1))"
    unfolding copy_to.described_def by blast
  have "good \<longrightarrow> present l' = present l"
    using files P assms(2) by (auto simp: sys_unlink_def posix_live_def fun_eq_iff)
  with o show ?thesis by blast
qed

text \<open>A kernel on which the commands print what a function says, and a copy of one path out of two.\<close>

definition printing_kernel :: "(child \<Rightarrow> string list) \<Rightarrow> kernel" where
  "printing_kernel out = (demo_kernel (\<lambda>w. Exited 0))\<lparr>k_output := (\<lambda>c w. out c)\<rparr>"

lemma printing_kernel_ok: "kernel_ok (printing_kernel out)" "kernel_live (printing_kernel out)"
  using demo_kernel_live [of "\<lambda>w. Exited 0"] demo_kernel_ok [of "\<lambda>w. Exited 0"]
  by (simp_all add: kernel_live_def kernel_ok_def printing_kernel_def)

definition copy_example_kernel :: kernel where
  "copy_example_kernel = printing_kernel (\<lambda>c. if c = to_query [''/a''] then [''/a'', [CHR 10], ''/b'', [CHR 10]]
     else if c = to_invalid ''ssh'' ''t1'' [''/a'', ''/b''] then [''/b'', [CHR 10]] else [])"

definition copy_example :: "(bool \<times> os \<times> files) result" where
  "copy_example = copy_closure_to_sync copy_example_kernel (demo_posix (\<lambda>p. None)) (Some ''ssh'') (Some ''t1'') ''/tmp''
     [''/a''] \<lparr>children = [], trace = []\<rparr> []"

lemma copy_example_kernel_ok: "kernel_ok copy_example_kernel"
  by (simp add: copy_example_kernel_def printing_kernel_ok)

definition copy_example_result :: "bool \<times> os \<times> files" where
  "copy_example_result = (case copy_example of Inr r \<Rightarrow> r | Inl e \<Rightarrow> (False, \<lparr>children = [], trace = []\<rparr>, []))"

lemma copy_example_returns: "copy_example = Inr copy_example_result" "fst copy_example_result"
  "spawned (trace (fst (snd copy_example_result))) =
     [to_query [''/a''], to_invalid ''ssh'' ''t1'' [''/a'', ''/b''],
      to_export [''/b''] ''/tmp/disnix.XXXXXX'', to_import ''ssh'' ''t1'' ''/tmp/disnix.XXXXXX'']"
  by code_simp+

lemma copy_closure_to_commands_witness:
  "fst copy_example_result \<and> present (snd (snd copy_example_result)) = present []"
proof -
  have "copy_closure_to_sync copy_example_kernel (demo_posix (\<lambda>p. None)) (Some ''ssh'') (Some ''t1'') ''/tmp'' [''/a'']
      \<lparr>children = [], trace = []\<rparr> [] = Inr (fst copy_example_result, fst (snd copy_example_result), snd (snd copy_example_result))"
    using copy_example_returns(1) by (simp add: copy_example_def)
  from copy_closure_to_commands [OF copy_example_kernel_ok demo_posix_live this] copy_example_returns(2)
  show ?thesis by blast
qed


definition fetch_example :: "(bool \<times> os \<times> files) result" where
  "fetch_example = copy_closure_from_sync (printing_kernel (\<lambda>c. [''/a'', [CHR 10]])) (demo_posix (\<lambda>p. None))
     (Some ''ssh'') (Some ''t1'') [''/a''] \<lparr>children = [], trace = []\<rparr> []"

definition fetch_example_result :: "bool \<times> os \<times> files" where
  "fetch_example_result = (case fetch_example of Inr r \<Rightarrow> r | Inl e \<Rightarrow> (False, \<lparr>children = [], trace = []\<rparr>, []))"

lemma fetch_example_returns: "fetch_example = Inr fetch_example_result" "fst fetch_example_result"
  by code_simp+




text \<open>
  A machine whose profile resolves to a path of another length keeps that profile: the child of
  pkgmgmt_set_profile exits with 0 and runs nothing, although the new path is not the old one.
\<close>

theorem set_profile_ignores_other_length:
  assumes "p_mkdir P (determine_local_profile_dir P localstatedir)"
    and "p_readlink P (determine_local_profile_dir P localstatedir @ ''/'' @ prof) = Some generation"
    and "generation \<noteq> determine_local_profile_dir P localstatedir @ ''/'' @ prof" and "length generation < 1024"
    and "p_readlink P (determine_local_profile_dir P localstatedir @ ''/'' @ generation) = Some old" and "length old < 1024"
    and "length old \<noteq> length path"
  shows "pkgmgmt_set_profile K P localstatedir prof path w = Inr (sys_fork K (Run ''_exit'' [Some ''0'']) w)"
  using assms
  by (auto simp: pkgmgmt_set_profile_def Let_def sys_readlink_def BUFFER_SIZE_def strncmp_zero)

lemma set_profile_ignores_other_length_witness:
  "pkgmgmt_set_profile (demo_kernel (\<lambda>w. Exited 0)) (demo_posix
      [''/var/nix/profiles/disnix/default'' \<mapsto> ''default-1-link'', ''/var/nix/profiles/disnix/default-1-link'' \<mapsto> ''/nix/store/a'']) ''/var''
      ''default'' ''/nix/store/bb'' \<lparr>children = [], trace = []\<rparr>
    = Inr (sys_fork (demo_kernel (\<lambda>w. Exited 0)) (Run ''_exit'' [Some ''0'']) \<lparr>children = [], trace = []\<rparr>)"
  by (rule set_profile_ignores_other_length [where generation = "''default-1-link''" and old = "''/nix/store/a''"])
    (simp_all add: demo_posix_def determine_local_profile_dir_def)

end
