(* ===== verification/Profile_Locking.thy ===== *)
theory Profile_Locking
  imports Process_Commands Disnix_Files Profile_Manifest
begin

text \<open>
  The locks on a machine (\<open>libprofilemanifest/profilelocking.c\<close>): every service of the profile is told
  that a deployment begins, then a lock file is created that no other deployment can create; releasing
  tells the services again and removes the file.
\<close>

section \<open>Notifying the services\<close>

type_synonym notify_function = "kernel \<Rightarrow> cstr \<Rightarrow> cstr \<Rightarrow> cstr \<Rightarrow> os \<Rightarrow> int \<times> os"

definition mapping_type :: "ManifestService hashtable \<Rightarrow> ServiceMapping \<Rightarrow> ManifestService option \<Rightarrow> cstr result" where
  "mapping_type services mapping svc =
     (if container_provided_by_service mapping = None then bindr (deref svc) (\<lambda>s. Inr (type_of s))
      else bindr (g_hash_table_lookup services (container_provided_by_service mapping)) (\<lambda>container_service.
           bindr (deref container_service) (\<lambda>c. Inr (pkg c))))"

text \<open>All services are notified, also after one has failed.\<close>

fun notify_services :: "kernel \<Rightarrow> notify_function \<Rightarrow> ManifestService hashtable \<Rightarrow> ServiceMapping list \<Rightarrow> bool \<Rightarrow> os
    \<Rightarrow> (bool \<times> os) result" where
  "notify_services K notify_function services [] exit_status w = Inr (exit_status, w)"
| "notify_services K notify_function services (mapping # rest) exit_status w =
     bindr (g_hash_table_lookup services (service mapping)) (\<lambda>svc.
     bindr (mapping_type services mapping svc) (\<lambda>ty.
     bindr (deref svc) (\<lambda>s.
       case wait_if_ok K (notify_function K ty (container mapping) (pkg s) w) of
         (good, w) \<Rightarrow> notify_services K notify_function services rest (if \<not> good then False else exit_status) w)))"

definition lock_or_unlock_services :: "kernel \<Rightarrow> ProfileManifest \<Rightarrow> notify_function \<Rightarrow> os \<Rightarrow> (bool \<times> os) result" where
  "lock_or_unlock_services K pm notify_function w =
     bindr (deref (service_mappings_part pm)) (\<lambda>mappings.
     if mappings = [] then Inr (True, w)
     else bindr (deref (services_part pm)) (\<lambda>services. notify_services K notify_function services mappings True w))"

definition unlock_services :: "kernel \<Rightarrow> ProfileManifest \<Rightarrow> os \<Rightarrow> (bool \<times> os) result" where
  "unlock_services K pm w = lock_or_unlock_services K pm statemgmt_unlock w"

definition lock_services :: "kernel \<Rightarrow> ProfileManifest \<Rightarrow> os \<Rightarrow> (bool \<times> os) result" where
  "lock_services K pm w = lock_or_unlock_services K pm statemgmt_lock w"

section \<open>The lock file\<close>

definition create_lock_filename :: "string \<Rightarrow> string \<Rightarrow> string" where
  "create_lock_filename tmpdir prof = tmpdir @ ''/disnix-'' @ prof @ ''.lock''"

definition lock_profile :: "posix \<Rightarrow> string \<Rightarrow> string \<Rightarrow> files \<Rightarrow> bool \<times> files" where
  "lock_profile P tmpdir prof l = sys_create P (create_lock_filename tmpdir prof) l"

definition unlock_profile :: "posix \<Rightarrow> string \<Rightarrow> string \<Rightarrow> files \<Rightarrow> bool \<times> files" where
  "unlock_profile P tmpdir prof l = sys_unlink P (create_lock_filename tmpdir prof) l"

section \<open>Acquiring and releasing\<close>

definition acquire_profile_locks ::
  "kernel \<Rightarrow> posix \<Rightarrow> string \<Rightarrow> ProfileManifest \<Rightarrow> string \<Rightarrow> os \<Rightarrow> files \<Rightarrow> (bool \<times> os \<times> files) result" where
  "acquire_profile_locks K P tmpdir pm prof w l =
     bindr (lock_services K pm w) (\<lambda>(good, w).
     if good then (case lock_profile P tmpdir prof l of (good, l) \<Rightarrow> Inr (good, w, l))
     else bindr (unlock_services K pm w) (\<lambda>(_, w). Inr (False, w, l)))"

definition release_profile_locks ::
  "kernel \<Rightarrow> posix \<Rightarrow> string \<Rightarrow> ProfileManifest option \<Rightarrow> string \<Rightarrow> os \<Rightarrow> files \<Rightarrow> (bool \<times> os \<times> files) result" where
  "release_profile_locks K P tmpdir pm prof w l =
     bindr (case pm of None \<Rightarrow> Inr (False, w)
            | Some m \<Rightarrow> bindr (unlock_services K m w) (\<lambda>(good, w). Inr (if \<not> good then False else True, w))) (\<lambda>(st, w).
     case unlock_profile P tmpdir prof l of (good, l) \<Rightarrow> Inr (if \<not> good then False else st, w, l))"

section \<open>What notifying the services does\<close>

text \<open>The mappings of a profile manifest resolve; the command that notifies the service of a mapping.\<close>

definition notifiable :: "ManifestService hashtable \<Rightarrow> ServiceMapping \<Rightarrow> bool" where
  "notifiable services mapping \<longleftrightarrow> (\<exists>n s. service mapping = Some n \<and> map_of services n = Some s
     \<and> (\<forall>p. container_provided_by_service mapping = Some p \<longrightarrow> map_of services p \<noteq> None))"

definition notify_command :: "string \<Rightarrow> ManifestService hashtable \<Rightarrow> ServiceMapping \<Rightarrow> child" where
  "notify_command operation services mapping =
     (case bindr (g_hash_table_lookup services (service mapping)) (\<lambda>svc.
       bindr (mapping_type services mapping svc) (\<lambda>ty. bindr (deref svc) (\<lambda>s. Inr (ty, s)))) of
        Inl e \<Rightarrow> Exec [] []
      | Inr (ty, s) \<Rightarrow> execvp [Some ''dysnomia'', Some ''--type'', ty, Some ''--operation'', Some operation,
          Some ''--container'', container mapping, Some ''--component'', pkg s, Some ''--environment'', None])"

lemma notify_services_returns:
  assumes K: "kernel_live K" and f: "\<And>ty c p w. f K ty c p w = local_lock_or_unlock K operation ty c p w"
    and "\<forall>m \<in> set mappings. notifiable services m" and "wf_os w"
  shows "\<exists>w' new. notify_services K f services mappings st w = Inr (st \<and> all_succeeded new, w')
    \<and> trace w' = new @ trace w \<and> spawned new = map (notify_command operation services) mappings
    \<and> wf_os w' \<and> children w' = children w"
  using assms(3,4)
proof (induction mappings arbitrary: st w)
  case Nil
  then show ?case by (intro exI [of _ w] exI [of _ "[]"]) simp
next
  case (Cons m ms)
  from Cons.prems(1) obtain n s where n: "service m = Some n" "map_of services n = Some s"
    "\<forall>p. container_provided_by_service m = Some p \<longrightarrow> map_of services p \<noteq> None"
    by (auto simp: notifiable_def)
  then obtain ty where ty: "mapping_type services m (Some s) = Inr ty"
    by (cases "container_provided_by_service m") (auto simp: mapping_type_def)
  let ?c = "notify_command operation services m"
  obtain good w1 where 1: "wait_if_ok K (sys_fork K ?c w) = (good, w1)" by fastforce
  obtain new1 where new1: "trace w1 = new1 @ trace w" "spawned new1 = [?c]" "good \<longleftrightarrow> all_succeeded new1"
    "wf_os w1" "children w1 = children w" by (rule wait_if_ok_live [OF K Cons.prems(2) 1])
  have "wait_if_ok K (f K ty (container m) (pkg s) w) = (good, w1)"
    using 1 n ty by (simp add: f local_lock_or_unlock_def notify_command_def)
  then have step: "notify_services K f services (m # ms) st w
      = notify_services K f services ms (if \<not> good then False else st) w1"
    using n ty by simp
  have ms: "\<forall>m \<in> set ms. notifiable services m" using Cons.prems(1) by simp
  from Cons.IH [OF ms new1(4), of "if \<not> good then False else st"] obtain w' new where
    "notify_services K f services ms (if \<not> good then False else st) w1
       = Inr ((if \<not> good then False else st) \<and> all_succeeded new, w')"
    "trace w' = new @ trace w1" "spawned new = map (notify_command operation services) ms"
    "wf_os w' \<and> children w' = children w1" by blast
  with step new1 show ?case
    by (intro exI [of _ w'] exI [of _ "new @ new1"]) (auto simp: spawned_append)
qed

text \<open>A profile manifest all of whose mappings resolve.\<close>

definition lockable :: "ProfileManifest \<Rightarrow> ManifestService hashtable \<Rightarrow> ServiceMapping list \<Rightarrow> bool" where
  "lockable pm services mappings \<longleftrightarrow> services_part pm = Some services \<and> service_mappings_part pm = Some mappings
     \<and> (\<forall>m \<in> set mappings. notifiable services m)"

lemma lock_unlock_services_return:
  assumes "kernel_live K" and "lockable pm services mappings" and "wf_os w"
  shows "\<exists>w' new. lock_services K pm w = Inr (all_succeeded new, w') \<and> trace w' = new @ trace w
      \<and> spawned new = map (notify_command ''lock'' services) mappings \<and> wf_os w' \<and> children w' = children w"
    and "\<exists>w' new. unlock_services K pm w = Inr (all_succeeded new, w') \<and> trace w' = new @ trace w
      \<and> spawned new = map (notify_command ''unlock'' services) mappings \<and> wf_os w' \<and> children w' = children w"
  using notify_services_returns [OF assms(1), of statemgmt_lock "''lock''" mappings services w True]
    notify_services_returns [OF assms(1), of statemgmt_unlock "''unlock''" mappings services w True] assms(2,3)
  by (auto simp: lock_services_def unlock_services_def lock_or_unlock_services_def lockable_def
      statemgmt_lock_def statemgmt_unlock_def)

section \<open>What acquiring and releasing do\<close>

text \<open>
  C27: Acquiring tells every service of the profile to lock. If all agree it creates the lock file and its
  outcome is that of the creation; then the services stay locked even if the file could not be created. If a service
  refuses, every service is told to unlock and the lock file is not touched.
\<close>

theorem acquire_profile_locks_outcome:
  assumes "kernel_live K" and "lockable pm services mappings" and "wf_os w"
  shows "\<exists>good w' l' locks unlocks. acquire_profile_locks K P tmpdir pm prof w l = Inr (good, w', l')
    \<and> trace w' = unlocks @ locks @ trace w
    \<and> spawned locks = map (notify_command ''lock'' services) mappings
    \<and> (if all_succeeded locks
       then unlocks = [] \<and> (good \<longleftrightarrow> p_create P (create_lock_filename tmpdir prof) l)
         \<and> l' = (if good then Created (create_lock_filename tmpdir prof) # l else l)
       else spawned unlocks = map (notify_command ''unlock'' services) mappings \<and> \<not> good \<and> l' = l)"
proof -
  from lock_unlock_services_return(1) [OF assms] obtain w1 locks where
    1: "lock_services K pm w = Inr (all_succeeded locks, w1)" "trace w1 = locks @ trace w"
      "spawned locks = map (notify_command ''lock'' services) mappings" "wf_os w1" by blast
  show ?thesis
  proof (cases "all_succeeded locks")
    case True
    let ?r = "lock_profile P tmpdir prof l"
    from True 1 have "acquire_profile_locks K P tmpdir pm prof w l = Inr (fst ?r, w1, snd ?r)"
      by (simp add: acquire_profile_locks_def case_prod_unfold)
    with True 1 show ?thesis
      by (intro exI [of _ "fst ?r"] exI [of _ w1] exI [of _ "snd ?r"] exI [of _ locks] exI [of _ "[]"])
        (simp add: lock_profile_def sys_create_def)
  next
    case False
    from lock_unlock_services_return(2) [OF assms(1,2) 1(4)] obtain w2 unlocks where
      2: "unlock_services K pm w1 = Inr (all_succeeded unlocks, w2)" "trace w2 = unlocks @ trace w1"
        "spawned unlocks = map (notify_command ''unlock'' services) mappings" by blast
    with False 1 have "acquire_profile_locks K P tmpdir pm prof w l = Inr (False, w2, l)"
      by (simp add: acquire_profile_locks_def)
    with False 1 2 show ?thesis
      by (intro exI [of _ False] exI [of _ w2] exI [of _ l] exI [of _ locks] exI [of _ unlocks]) simp
  qed
qed

text \<open>One service in a container, locked on a machine that has its lock file already.\<close>

definition example_profile_services :: "ManifestService hashtable" where
  "example_profile_services = [(''s1'', \<lparr>name = Some ''app'', pkg = Some ''/nix/store/app'', type_of = Some ''process'',
     depends_on = None, connects_to = None, provides_containers_table = None\<rparr>)]"

definition example_profile_mappings :: "ServiceMapping list" where
  "example_profile_mappings = [\<lparr>service = Some ''s1'', container = Some ''process'', target = Some ''t1'',
     container_provided_by_service = None, status = SERVICE_MAPPING_DEACTIVATED\<rparr>]"

definition example_profile_manifest :: ProfileManifest where
  "example_profile_manifest = \<lparr>services_part = Some example_profile_services,
     service_mappings_part = Some example_profile_mappings, snapshot_mappings_part = Some []\<rparr>"

lemma example_profile_lockable: "lockable example_profile_manifest example_profile_services example_profile_mappings"
  by (simp add: lockable_def example_profile_manifest_def example_profile_mappings_def example_profile_services_def notifiable_def)

lemma acquire_profile_locks_outcome_witness:
  "\<exists>w' locks. acquire_profile_locks (demo_kernel (\<lambda>w. Exited 0)) (demo_posix (\<lambda>p. None)) ''/tmp'' example_profile_manifest ''default''
      \<lparr>children = [], trace = []\<rparr> [Created ''/tmp/disnix-default.lock'']
      = Inr (False, w', [Created ''/tmp/disnix-default.lock''])
    \<and> trace w' = locks \<and> all_succeeded locks
    \<and> spawned locks = [Exec [''dysnomia'', ''--type'', ''process'', ''--operation'', ''lock'', ''--container'', ''process'',
         ''--component'', ''/nix/store/app'', ''--environment''] []]"
proof -
  let ?l = "[Created ''/tmp/disnix-default.lock'']"
  have c: "map (notify_command ''lock'' example_profile_services) example_profile_mappings
      = [Exec [''dysnomia'', ''--type'', ''process'', ''--operation'', ''lock'', ''--container'', ''process'',
         ''--component'', ''/nix/store/app'', ''--environment''] []]" by code_simp
  have no: "\<not> p_create (demo_posix (\<lambda>p. None)) (create_lock_filename ''/tmp'' ''default'') ?l" by code_simp
  have ok: "case acquire_profile_locks (demo_kernel (\<lambda>w. Exited 0)) (demo_posix (\<lambda>p. None)) ''/tmp'' example_profile_manifest
      ''default'' \<lparr>children = [], trace = []\<rparr> ?l of Inr (g, w', l') \<Rightarrow> all_succeeded (trace w') | Inl e \<Rightarrow> False" by code_simp
  have wf: "wf_os \<lparr>children = [], trace = []\<rparr>" by (simp add: wf_os_def)
  note o = acquire_profile_locks_outcome [OF demo_kernel_live [of "\<lambda>w. Exited 0"] example_profile_lockable wf,
      where P = "demo_posix (\<lambda>p. None)" and tmpdir = "''/tmp''" and prof = "''default''" and l = ?l]
  then obtain good w' l' locks unlocks where
    "acquire_profile_locks (demo_kernel (\<lambda>w. Exited 0)) (demo_posix (\<lambda>p. None)) ''/tmp'' example_profile_manifest
      ''default'' \<lparr>children = [], trace = []\<rparr> ?l = Inr (good, w', l')" "trace w' = unlocks @ locks @ trace \<lparr>children = [], trace = []\<rparr>"
    "spawned locks = map (notify_command ''lock'' example_profile_services) example_profile_mappings"
    "if all_succeeded locks
       then unlocks = [] \<and> (good \<longleftrightarrow> p_create (demo_posix (\<lambda>p. None)) (create_lock_filename ''/tmp'' ''default'') ?l)
         \<and> l' = (if good then Created (create_lock_filename ''/tmp'' ''default'') # ?l else ?l)
       else spawned unlocks = map (notify_command ''unlock'' example_profile_services) example_profile_mappings \<and> \<not> good \<and> l' = ?l"
    by blast
  moreover from this ok have "all_succeeded locks" by simp
  ultimately show ?thesis using c no by auto
qed

text \<open>
  C28: Releasing tells every service to unlock and removes the lock file, also if a service refuses or
  the profile manifest could not be opened; it succeeds exactly if all of that does.
\<close>

theorem release_profile_locks_outcome:
  assumes "kernel_live K" and "wf_os w" and "\<forall>m. pm = Some m \<longrightarrow> lockable m services mappings"
  shows "\<exists>w' new. release_profile_locks K P tmpdir pm prof w l
      = Inr (pm \<noteq> None \<and> all_succeeded new \<and> p_unlink P (create_lock_filename tmpdir prof) l, w',
          if p_unlink P (create_lock_filename tmpdir prof) l then Unlinked (create_lock_filename tmpdir prof) # l else l)
    \<and> trace w' = new @ trace w
    \<and> spawned new = (if pm = None then [] else map (notify_command ''unlock'' services) mappings)"
proof (cases pm)
  case None
  then show ?thesis
    by (intro exI [of _ w] exI [of _ "[]"]) (simp add: release_profile_locks_def unlock_profile_def sys_unlink_def)
next
  case (Some m)
  with assms(3) have "lockable m services mappings" by simp
  from lock_unlock_services_return(2) [OF assms(1) this assms(2)] obtain w' new where
    "unlock_services K m w = Inr (all_succeeded new, w')" "trace w' = new @ trace w"
    "spawned new = map (notify_command ''unlock'' services) mappings" by blast
  with Some show ?thesis
    by (intro exI [of _ w'] exI [of _ new]) (simp add: release_profile_locks_def unlock_profile_def sys_unlink_def)
qed

lemma release_profile_locks_outcome_witness:
  "\<exists>w' new. release_profile_locks (demo_kernel (\<lambda>w. Exited 1)) (demo_posix (\<lambda>p. None)) ''/tmp'' (Some example_profile_manifest)
      ''default'' \<lparr>children = [], trace = []\<rparr> [Created ''/tmp/disnix-default.lock'']
      = Inr (all_succeeded new, w', [Unlinked ''/tmp/disnix-default.lock'', Created ''/tmp/disnix-default.lock''])
    \<and> trace w' = new @ [] \<and> spawned new = map (notify_command ''unlock'' example_profile_services) example_profile_mappings"
proof -
  have u: "p_unlink (demo_posix (\<lambda>p. None)) (create_lock_filename ''/tmp'' ''default'') [Created ''/tmp/disnix-default.lock'']"
    "create_lock_filename ''/tmp'' ''default'' = ''/tmp/disnix-default.lock''" by code_simp+
  have wf: "wf_os \<lparr>children = [], trace = []\<rparr>" by (simp add: wf_os_def)
  show ?thesis
    using release_profile_locks_outcome [OF demo_kernel_live [of "\<lambda>w. Exited 1"] wf, of "Some example_profile_manifest"
        example_profile_services example_profile_mappings "demo_posix (\<lambda>p. None)" "''/tmp''" "''default''"
        "[Created ''/tmp/disnix-default.lock'']"] example_profile_lockable u by simp
qed

section \<open>Mutual exclusion\<close>

text \<open>
  The calls for one profile on a machine, by any number of deployments: they share nothing but the
  files. The latest call comes first, with its outcome.
\<close>

datatype lock_call = Acquire bool | Release bool

inductive lock_history :: "posix \<Rightarrow> string \<Rightarrow> string \<Rightarrow> files \<Rightarrow> files \<Rightarrow> lock_call list \<Rightarrow> bool"
  for P tmpdir prof l0 where
  start: "lock_history P tmpdir prof l0 l0 []"
| acquire: "lock_history P tmpdir prof l0 l calls \<Longrightarrow> acquire_profile_locks K P tmpdir pm prof w l = Inr (good, w', l')
    \<Longrightarrow> lock_history P tmpdir prof l0 l' (Acquire good # calls)"
| release: "lock_history P tmpdir prof l0 l calls \<Longrightarrow> release_profile_locks K P tmpdir m prof w l = Inr (good, w', l')
    \<Longrightarrow> lock_history P tmpdir prof l0 l' (Release good # calls)"

inductive_cases lock_history_acquireE: "lock_history P tmpdir prof l0 l (Acquire good # calls)"

fun held :: "lock_call list \<Rightarrow> bool" where
  "held [] = False"
| "held (Acquire good # calls) = (good \<or> held calls)"
| "held (Release good # calls) = False"

lemma acquire_files:
  assumes "acquire_profile_locks K P tmpdir pm prof w l = Inr (good, w', l')"
  shows "if good then p_create P (create_lock_filename tmpdir prof) l \<and> l' = Created (create_lock_filename tmpdir prof) # l
     else l' = l"
  using assms by (auto simp: acquire_profile_locks_def lock_profile_def sys_create_def result_simps split: if_splits)

lemma held_present: "lock_history P tmpdir prof l0 l calls \<Longrightarrow> held calls \<Longrightarrow> present l (create_lock_filename tmpdir prof)"
proof (induction rule: lock_history.induct)
  case (acquire l calls K pm w good w' l')
  from acquire.prems acquire.IH acquire_files [OF acquire.hyps(2)] show ?case by (auto split: if_splits)
qed simp_all

lemma held_since: "\<forall>g. Release g \<notin> set mid \<Longrightarrow> held (mid @ Acquire True # calls)"
proof (induction mid)
  case (Cons c mid)
  then show ?case by (cases c) auto
qed simp

text \<open>
  C11: However many deployments share a machine, between two successful acquisitions of the locks of a
  profile there is a release.
\<close>

theorem locks_exclude_each_other:
  assumes "posix_ok P" and "lock_history P tmpdir prof l0 l (Acquire True # mid @ Acquire True # calls)"
  shows "\<exists>good. Release good \<in> set mid"
proof (rule ccontr)
  assume "\<nexists>good. Release good \<in> set mid"
  then have "held (mid @ Acquire True # calls)" by (intro held_since) blast
  from assms(2) show False
  proof (rule lock_history_acquireE)
    fix K l1 pm w w'
    assume "lock_history P tmpdir prof l0 l1 (mid @ Acquire True # calls)"
      and "acquire_profile_locks K P tmpdir pm prof w l1 = Inr (True, w', l)"
    with \<open>held _\<close> held_present acquire_files assms(1) show False by (fastforce simp: posix_ok_def)
  qed
qed

lemma locks_exclude_each_other_witness:
  "\<exists>l mid. lock_history (demo_posix (\<lambda>p. None)) ''/tmp'' ''default'' [] l (Acquire True # mid @ Acquire True # [])
     \<and> (\<exists>good. Release good \<in> set mid)"
proof -
  let ?P = "demo_posix (\<lambda>p. None)" and ?K = "demo_kernel (\<lambda>w. Exited 0)" and ?w = "\<lparr>children = [], trace = []\<rparr>"
  let ?f = "''/tmp/disnix-default.lock''"
  let ?pm = "\<lparr>services_part = Some [], service_mappings_part = Some [], snapshot_mappings_part = Some []\<rparr> :: ProfileManifest"
  have 1: "acquire_profile_locks ?K ?P ''/tmp'' ?pm ''default'' ?w [] = Inr (True, ?w, [Created ?f])" by code_simp
  have 2: "release_profile_locks ?K ?P ''/tmp'' (Some ?pm) ''default'' ?w [Created ?f]
      = Inr (True, ?w, [Unlinked ?f, Created ?f])" by code_simp
  have 3: "acquire_profile_locks ?K ?P ''/tmp'' ?pm ''default'' ?w [Unlinked ?f, Created ?f]
      = Inr (True, ?w, [Created ?f, Unlinked ?f, Created ?f])" by code_simp
  note h = lock_history.acquire [OF lock_history.release [OF lock_history.acquire [OF lock_history.start 1] 2] 3]
  then have h': "lock_history ?P ''/tmp'' ''default'' [] [Created ?f, Unlinked ?f, Created ?f]
      (Acquire True # [Release True] @ Acquire True # [])" by simp
  have "posix_ok ?P" using demo_posix_live by (simp add: posix_live_def)
  from locks_exclude_each_other [OF this h'] h' show ?thesis by blast
qed

end
