(* ===== verification/Snapshot_Transfer.thy ===== *)
theory Snapshot_Transfer
  imports Process_Commands Disnix_Files
begin

text \<open>
  Snapshots on the machine itself (\<open>libstatemgmt/snapshot-management.c\<close>) and their transfer between the
  coordinator and a target (\<open>libstatemgmt/copy-snapshots.c\<close>): the generations of a component are
  copied one by one, the oldest first.
\<close>

section \<open>Snapshots on the machine itself (snapshot-management.c)\<close>

definition statemgmt_query_all_snapshots :: "kernel \<Rightarrow> cstr \<Rightarrow> cstr \<Rightarrow> os \<Rightarrow> strings_future \<times> os" where
  "statemgmt_query_all_snapshots K container component w =
     exec_lines K [Some ''dysnomia-snapshots'', Some ''--query-all'', Some ''--container'', container,
       Some ''--component'', component, None] w"

definition statemgmt_query_all_snapshots_sync :: "kernel \<Rightarrow> cstr \<Rightarrow> cstr \<Rightarrow> os \<Rightarrow> (cstr list) option \<times> os" where
  "statemgmt_query_all_snapshots_sync K container component w =
     future_get_if_ok K (statemgmt_query_all_snapshots K container component w)"

definition statemgmt_query_latest_snapshot :: "kernel \<Rightarrow> cstr \<Rightarrow> cstr \<Rightarrow> os \<Rightarrow> strings_future \<times> os" where
  "statemgmt_query_latest_snapshot K container component w =
     exec_lines K [Some ''dysnomia-snapshots'', Some ''--query-latest'', Some ''--container'', container,
       Some ''--component'', component, None] w"

definition statemgmt_query_latest_snapshot_sync :: "kernel \<Rightarrow> cstr \<Rightarrow> cstr \<Rightarrow> os \<Rightarrow> (cstr list) option \<times> os" where
  "statemgmt_query_latest_snapshot_sync K container component w =
     future_get_if_ok K (statemgmt_query_latest_snapshot K container component w)"

definition statemgmt_print_missing_snapshots :: "kernel \<Rightarrow> string list \<Rightarrow> nat \<Rightarrow> os \<Rightarrow> strings_future \<times> os" where
  "statemgmt_print_missing_snapshots K snapshots snapshots_length w =
     exec_lines K ([Some ''dysnomia-snapshots'', Some ''--print-missing'']
       @ array_args snapshots snapshots_length @ [None]) w"

definition statemgmt_print_missing_snapshots_sync :: "kernel \<Rightarrow> string list \<Rightarrow> nat \<Rightarrow> os \<Rightarrow> (cstr list) option \<times> os" where
  "statemgmt_print_missing_snapshots_sync K snapshots snapshots_length w =
     future_get_if_ok K (statemgmt_print_missing_snapshots K snapshots snapshots_length w)"

definition statemgmt_resolve_snapshots :: "kernel \<Rightarrow> string list \<Rightarrow> nat \<Rightarrow> os \<Rightarrow> strings_future \<times> os" where
  "statemgmt_resolve_snapshots K snapshots snapshots_length w =
     exec_lines K ([Some ''dysnomia-snapshots'', Some ''--resolve'']
       @ array_args snapshots snapshots_length @ [None]) w"

definition statemgmt_resolve_snapshots_sync :: "kernel \<Rightarrow> string list \<Rightarrow> nat \<Rightarrow> os \<Rightarrow> (cstr list) option \<times> os" where
  "statemgmt_resolve_snapshots_sync K snapshots snapshots_length w =
     future_get_if_ok K (statemgmt_resolve_snapshots K snapshots snapshots_length w)"

text \<open>An empty string stands for every container or component; \<open>g_strcmp0\<close> accepts NULL.\<close>

definition statemgmt_clean_snapshots :: "kernel \<Rightarrow> int \<Rightarrow> cstr \<Rightarrow> cstr \<Rightarrow> os \<Rightarrow> int \<times> os" where
  "statemgmt_clean_snapshots K keep container component w =
     sys_fork K (execvp ([Some ''dysnomia-snapshots'', Some ''--gc'', Some ''--keep'', Some (format_d keep)]
       @ (if xmlStrcmp container (Some '''') \<noteq> 0 then [Some ''--container'', container] else [])
       @ (if xmlStrcmp component (Some '''') \<noteq> 0 then [Some ''--component'', component] else [])
       @ [None])) w"

definition statemgmt_import_snapshots :: "kernel \<Rightarrow> cstr \<Rightarrow> cstr \<Rightarrow> string list \<Rightarrow> nat \<Rightarrow> os \<Rightarrow> int \<times> os" where
  "statemgmt_import_snapshots K container component resolved_snapshots resolved_snapshots_length w =
     sys_fork K (execvp ([Some ''dysnomia-snapshots'', Some ''--import'', Some ''--container'', container,
         Some ''--component'', component]
       @ array_args resolved_snapshots resolved_snapshots_length @ [None])) w"

definition statemgmt_import_snapshots_sync :: "kernel \<Rightarrow> cstr \<Rightarrow> cstr \<Rightarrow> string list \<Rightarrow> nat \<Rightarrow> os \<Rightarrow> bool \<times> os" where
  "statemgmt_import_snapshots_sync K container component resolved_snapshots resolved_snapshots_length w =
     wait_if_ok K (statemgmt_import_snapshots K container component resolved_snapshots resolved_snapshots_length w)"

section \<open>Sending snapshots (copy-snapshots.c)\<close>

text \<open>\<open>g_strv_length\<close> of NULL violates its contract.\<close>

definition g_strv :: "(cstr list) option \<Rightarrow> string list result" where
  "g_strv xs = bindr (deref xs) (\<lambda>x. Inr (argv x))"

definition order_snapshots_remotely ::
  "kernel \<Rightarrow> cstr \<Rightarrow> cstr \<Rightarrow> cstr \<Rightarrow> cstr \<Rightarrow> string list \<Rightarrow> nat \<Rightarrow> os \<Rightarrow> (bool \<times> os) result" where
  "order_snapshots_remotely K interface target container component snapshot_array snapshot_array_length w =
     (case statemgmt_remote_resolve_snapshots_sync K interface target snapshot_array snapshot_array_length w of
        (resolved_snapshots, w) \<Rightarrow>
          bindr (g_strv resolved_snapshots) (\<lambda>resolved_snapshots.
            Inr (statemgmt_import_remote_snapshots_sync K interface target container component resolved_snapshots
                   (length resolved_snapshots) w)))"

definition send_missing_snapshots ::
  "kernel \<Rightarrow> cstr \<Rightarrow> cstr \<Rightarrow> cstr \<Rightarrow> cstr \<Rightarrow> string list \<Rightarrow> nat \<Rightarrow> os \<Rightarrow> bool \<times> os" where
  "send_missing_snapshots K interface target container component missing_snapshots missing_snapshots_length w =
     (case statemgmt_resolve_snapshots_sync K missing_snapshots missing_snapshots_length w of
        (None, w) \<Rightarrow> (False, w)
      | (Some resolved_snapshots, w) \<Rightarrow>
          let resolved_snapshots = argv resolved_snapshots; resolved_snapshots_length = length resolved_snapshots in
          if resolved_snapshots_length = 0 then (False, w)
          else statemgmt_import_local_snapshots_sync K interface target container component resolved_snapshots
                 resolved_snapshots_length w)"

definition query_local_snapshots :: "kernel \<Rightarrow> cstr \<Rightarrow> cstr \<Rightarrow> bool \<Rightarrow> os \<Rightarrow> (cstr list) option \<times> os" where
  "query_local_snapshots K container component all w =
     (if all then statemgmt_query_all_snapshots_sync K container component w
      else statemgmt_query_latest_snapshot_sync K container component w)"

text \<open>One turn of the loop, and the loop; the exit status is that of the latest turn.\<close>

definition send_snapshot :: "kernel \<Rightarrow> cstr \<Rightarrow> cstr \<Rightarrow> cstr \<Rightarrow> cstr \<Rightarrow> string \<Rightarrow> os \<Rightarrow> (bool \<times> os) result" where
  "send_snapshot K interface target container component snapshot w =
     (let snapshot_array = [snapshot]; snapshot_array_length = 1 in
      case statemgmt_remote_print_missing_snapshots_sync K interface target snapshot_array snapshot_array_length w of
        (None, w) \<Rightarrow> Inr (False, w)
      | (Some missing_snapshots, w) \<Rightarrow>
          let missing_snapshots = argv missing_snapshots; missing_snapshots_length = length missing_snapshots in
          if missing_snapshots_length = 0
          then order_snapshots_remotely K interface target container component snapshot_array snapshot_array_length w
          else Inr (send_missing_snapshots K interface target container component missing_snapshots
                      missing_snapshots_length w))"

fun copy_each :: "(string \<Rightarrow> 's \<Rightarrow> (bool \<times> 's) result) \<Rightarrow> string list \<Rightarrow> bool \<Rightarrow> 's \<Rightarrow> (bool \<times> 's) result" where
  "copy_each step [] exit_status w = Inr (exit_status, w)"
| "copy_each step (snapshot # rest) exit_status w =
     bindr (step snapshot w) (\<lambda>(exit_status, w). copy_each step rest exit_status w)"

definition copy_snapshots_to_sync :: "kernel \<Rightarrow> cstr \<Rightarrow> cstr \<Rightarrow> cstr \<Rightarrow> cstr \<Rightarrow> bool \<Rightarrow> os \<Rightarrow> (bool \<times> os) result" where
  "copy_snapshots_to_sync K interface target container component all w =
     (case query_local_snapshots K container component all w of
        (None, w) \<Rightarrow> Inr (False, w)
      | (Some snapshots, w) \<Rightarrow>
          copy_each (send_snapshot K interface target container component) (argv snapshots) True w)"

definition copy_snapshots_to :: "kernel \<Rightarrow> cstr \<Rightarrow> cstr \<Rightarrow> cstr \<Rightarrow> cstr \<Rightarrow> bool \<Rightarrow> os \<Rightarrow> int \<times> os" where
  "copy_snapshots_to K interface target container component all w =
     sys_fork K (Run ''copy_snapshots_to''
       [interface, target, container, component, Some (if all then ''all'' else ''latest'')]) w"

section \<open>Fetching snapshots (copy-snapshots.c)\<close>

definition remove_directory_and_contents :: "posix \<Rightarrow> string \<Rightarrow> files \<Rightarrow> bool \<times> files" where
  "remove_directory_and_contents P path l = sys_remove_tree P path l"

definition order_local_snapshot :: "kernel \<Rightarrow> cstr \<Rightarrow> cstr \<Rightarrow> string \<Rightarrow> os \<Rightarrow> bool \<times> os" where
  "order_local_snapshot K container component snapshot w =
     (case statemgmt_resolve_snapshots_sync K [snapshot] (length [snapshot]) w of
        (None, w) \<Rightarrow> (False, w)
      | (Some resolved_snapshots, w) \<Rightarrow>
          let resolved_snapshots = argv resolved_snapshots in
          statemgmt_import_snapshots_sync K container component resolved_snapshots (length resolved_snapshots) w)"

text \<open>\<open>basename\<close> of the C library: the last component, without slashes at the end.\<close>

definition basename :: "string \<Rightarrow> string" where
  "basename path =
     (if path = '''' then ''.''
      else let p = rev (dropWhile (\<lambda>c. c = CHR ''/'') (rev path)) in
        if p = '''' then ''/'' else rev (takeWhile (\<lambda>c. c \<noteq> CHR ''/'') (rev p)))"

definition retrieve_missing_snapshots ::
  "kernel \<Rightarrow> posix \<Rightarrow> cstr \<Rightarrow> cstr \<Rightarrow> cstr \<Rightarrow> cstr \<Rightarrow> string list \<Rightarrow> os \<times> files \<Rightarrow> bool \<times> os \<times> files" where
  "retrieve_missing_snapshots K P interface target container component missing_snapshots s =
     (case s of (w, l) \<Rightarrow>
      case statemgmt_remote_resolve_snapshots_sync K interface target missing_snapshots (length missing_snapshots) w of
        (None, w) \<Rightarrow> (False, w, l)
      | (Some resolved_snapshots, w) \<Rightarrow>
          let resolved_snapshots = argv resolved_snapshots; resolved_snapshots_length = length resolved_snapshots in
          if resolved_snapshots_length = 0 then (False, w, l)
          else (case statemgmt_export_remote_snapshots_sync K interface target resolved_snapshots resolved_snapshots_length w of
             (None, w) \<Rightarrow> (False, w, l)
           | (Some tmpdirs, w) \<Rightarrow>
               (case argv tmpdirs of
                  [] \<Rightarrow> (False, w, l)
                | tmpdir # _ \<Rightarrow>
                    let tmp_snapshot = tmpdir @ ''/'' @ basename (resolved_snapshots ! 0); tmp_snapshots = [tmp_snapshot] in
                    (case statemgmt_import_snapshots_sync K container component tmp_snapshots 1 w of
                       (exit_status, w) \<Rightarrow>
                         (exit_status, w,
                          if \<not> exit_status then snd (sys_rmdir P tmpdir l)
                          else snd (remove_directory_and_contents P tmpdir l))))))"

definition query_remote_snapshots :: "kernel \<Rightarrow> cstr \<Rightarrow> cstr \<Rightarrow> cstr \<Rightarrow> cstr \<Rightarrow> bool \<Rightarrow> os \<Rightarrow> (cstr list) option \<times> os" where
  "query_remote_snapshots K interface target container component all w =
     (if all then statemgmt_remote_query_all_snapshots_sync K interface target container component w
      else statemgmt_remote_query_latest_snapshot_sync K interface target container component w)"

text \<open>A turn asks for what is missing of all snapshots, not of its own.\<close>

definition fetch_snapshot ::
  "kernel \<Rightarrow> posix \<Rightarrow> cstr \<Rightarrow> cstr \<Rightarrow> cstr \<Rightarrow> cstr \<Rightarrow> string list \<Rightarrow> string \<Rightarrow> os \<times> files \<Rightarrow> (bool \<times> os \<times> files) result" where
  "fetch_snapshot K P interface target container component snapshots snapshot s =
     (case s of (w, l) \<Rightarrow>
      case statemgmt_print_missing_snapshots_sync K snapshots (length snapshots) w of
        (None, w) \<Rightarrow> Inr (False, w, l)
      | (Some missing_snapshots, w) \<Rightarrow>
          let missing_snapshots = argv missing_snapshots in
          if length missing_snapshots = 0
          then (case order_local_snapshot K container component snapshot w of (exit_status, w) \<Rightarrow> Inr (exit_status, w, l))
          else Inr (retrieve_missing_snapshots K P interface target container component missing_snapshots (w, l)))"

definition copy_snapshots_from_sync ::
  "kernel \<Rightarrow> posix \<Rightarrow> cstr \<Rightarrow> cstr \<Rightarrow> cstr \<Rightarrow> cstr \<Rightarrow> bool \<Rightarrow> os \<Rightarrow> files \<Rightarrow> (bool \<times> os \<times> files) result" where
  "copy_snapshots_from_sync K P interface target container component all w l =
     (case query_remote_snapshots K interface target container component all w of
        (None, w) \<Rightarrow> Inr (False, w, l)
      | (Some snapshots, w) \<Rightarrow>
          copy_each (fetch_snapshot K P interface target container component (argv snapshots)) (argv snapshots) True (w, l))"

definition copy_snapshots_from :: "kernel \<Rightarrow> cstr \<Rightarrow> cstr \<Rightarrow> cstr \<Rightarrow> cstr \<Rightarrow> bool \<Rightarrow> os \<Rightarrow> int \<times> os" where
  "copy_snapshots_from K interface target container component all w =
     sys_fork K (Run ''copy_snapshots_from''
       [interface, target, container, component, Some (if all then ''all'' else ''latest'')]) w"

section \<open>Whose failure counts\<close>

lemma copy_each_append:
  "copy_each step (xs @ ys) st w = bindr (copy_each step xs st w) (\<lambda>(st, w). copy_each step ys st w)"
proof (induction xs arbitrary: st w)
  case (Cons x xs)
  then show ?case by (cases "step x w") auto
qed simp

text \<open>
  Sending the snapshots of a component has the outcome of the last snapshot alone: whether the
  transfer of an older one has failed does not matter.
\<close>

theorem copy_snapshots_to_last:
  assumes "query_local_snapshots K container component all w = (Some snapshots, w0)"
    and "argv snapshots = older @ [newest]"
    and "copy_snapshots_to_sync K interface target container component all w = Inr (good, w')"
  shows "\<exists>older_good w1. copy_each (send_snapshot K interface target container component) older True w0 = Inr (older_good, w1)
    \<and> send_snapshot K interface target container component newest w1 = Inr (good, w')"
  using assms by (auto simp: copy_snapshots_to_sync_def copy_each_append result_simps)

text \<open>Two generations, both missing on the target; the import of the first fails there.\<close>

definition generations_kernel :: kernel where
  "generations_kernel = (demo_kernel (\<lambda>w. case trace w of
       Forked p c # _ \<Rightarrow> if c = Exec [''ssh'', ''--target'', ''t1'', ''--import-snapshots'', ''--localfile'', ''--container'', ''c'',
           ''--component'', ''a'', ''/1''] [] then Exited 1 else Exited 0 | _ \<Rightarrow> Exited 0))
     \<lparr>k_output := (\<lambda>c w.
       if c = Exec [''dysnomia-snapshots'', ''--query-all'', ''--container'', ''c'', ''--component'', ''a''] []
       then [''1'', [CHR 10], ''2'', [CHR 10]]
       else (case c of Exec args env \<Rightarrow>
           (if last args = ''1'' then (if args ! 1 = ''--resolve'' then [''/1'', [CHR 10]] else [''1'', [CHR 10]])
            else if last args = ''2'' then (if args ! 1 = ''--resolve'' then [''/2'', [CHR 10]] else [''2'', [CHR 10]]) else [])
         | _ \<Rightarrow> []))\<rparr>"

definition generations_sent :: "bool \<times> os" where
  "generations_sent = (case copy_snapshots_to_sync generations_kernel (Some ''ssh'') (Some ''t1'') (Some ''c'') (Some ''a'') True
     \<lparr>children = [], trace = []\<rparr> of Inr r \<Rightarrow> r | Inl e \<Rightarrow> (False, \<lparr>children = [], trace = []\<rparr>))"

definition generations_queried :: "os" where
  "generations_queried = snd (query_local_snapshots generations_kernel (Some ''c'') (Some ''a'') True \<lparr>children = [], trace = []\<rparr>)"

lemma copy_snapshots_to_last_witness:
  "fst generations_sent \<and> \<not> all_succeeded (trace (snd generations_sent))
   \<and> (\<exists>older_good w1. copy_each (send_snapshot generations_kernel (Some ''ssh'') (Some ''t1'') (Some ''c'') (Some ''a'')) [''1''] True
        generations_queried = Inr (older_good, w1))"
proof -
  have q: "query_local_snapshots generations_kernel (Some ''c'') (Some ''a'') True \<lparr>children = [], trace = []\<rparr>
      = (Some [Some ''1'', Some ''2'', None], generations_queried)" by code_simp
  have a: "argv [Some ''1'', Some ''2'', None] = [''1''] @ [''2'']" by simp
  have s: "copy_snapshots_to_sync generations_kernel (Some ''ssh'') (Some ''t1'') (Some ''c'') (Some ''a'') True
     \<lparr>children = [], trace = []\<rparr> = Inr (fst generations_sent, snd generations_sent)" by code_simp
  have b: "fst generations_sent" "\<not> all_succeeded (trace (snd generations_sent))" by code_simp+
  from copy_snapshots_to_last [OF q a s] b show ?thesis by blast
qed

end
