(* ===== verification/Snapshot_Traverse.thy ===== *)
theory Snapshot_Traverse
  imports Snapshot_Data Services Procreact_Iterator
begin

text \<open>
  Mapping a function over snapshot mappings (\<open>libmanifest/snapshotmapping-traverse.c\<close>): as many
  rounds as there are items; every round starts a process for each item that has not been
  transferred while its machine has a core left, and then waits for one process.
\<close>

section \<open>State\<close>

text \<open>
  The items are pointers into the mappings of a manifest, here their indices: completing one marks
  the mapping itself. The process table maps a pid to the index of its mapping.
\<close>

record snapshot_state =
  snapshots :: "SnapshotMapping list"
  machines :: "Target hashtable"
  snapshot_pids :: "(int \<times> nat) list"
  snapshot_world :: os

type_synonym map_snapshot_item_function =
  "SnapshotMapping \<Rightarrow> ManifestService option \<Rightarrow> Target \<Rightarrow> cstr \<Rightarrow> string list \<Rightarrow> nat \<Rightarrow> os \<Rightarrow> (int \<times> os) result"

type_synonym complete_snapshot_item_mapping_function =
  "SnapshotMapping \<Rightarrow> ManifestService option \<Rightarrow> Target \<Rightarrow> ProcReact_Status \<Rightarrow> int \<Rightarrow> SnapshotMapping"

section \<open>Operations\<close>

definition wait_to_complete_snapshot_item ::
  "kernel \<Rightarrow> services_table \<Rightarrow> complete_snapshot_item_mapping_function \<Rightarrow> snapshot_state
    \<Rightarrow> (bool \<times> snapshot_state) result" where
  "wait_to_complete_snapshot_item K services complete_snapshot_item_mapping st =
     (if 0 < length (snapshot_pids st)
      then (case sys_wait K (snapshot_world st) of ((pid, wstatus), w) \<Rightarrow>
        let st = st\<lparr>snapshot_world := w\<rparr> in
        if pid = -1 then Inr (False, st)
        else bindr (deref (map_of (snapshot_pids st) pid)) (\<lambda>i.
             let mapping = (snapshots st ! i)\<lparr>transferred := True\<rparr>;
                 st = st\<lparr>snapshot_pids := AList.delete pid (snapshot_pids st),
                         snapshots := (snapshots st)[i := mapping]\<rparr> in
             bindr (deref (snapshot_target mapping)) (\<lambda>tn.
             bindr (deref (map_of (machines st) tn)) (\<lambda>tgt.
             let tgt = signal_available_target_core tgt;
                 st = st\<lparr>machines := g_hash_table_insert tn tgt (machines st)\<rparr> in
             case procreact_retrieve_boolean pid wstatus of (outcome, result) \<Rightarrow>
             bindr (g_hash_table_lookup services (snapshot_service mapping)) (\<lambda>svc.
               Inr (outcome = PROCREACT_STATUS_OK \<and> result \<noteq> 0,
                    st\<lparr>snapshots := (snapshots st)[i := complete_snapshot_item_mapping mapping svc tgt outcome result]\<rparr>))))))
      else Inr (True, st))"

definition start_snapshot_item ::
  "services_table \<Rightarrow> map_snapshot_item_function \<Rightarrow> nat \<Rightarrow> snapshot_state \<Rightarrow> snapshot_state result" where
  "start_snapshot_item services map_snapshot_item i st =
     (let mapping = snapshots st ! i in
      bindr (deref (snapshot_target mapping)) (\<lambda>tn.
      case map_of (machines st) tn of
        None \<Rightarrow> Inr st
      | Some tgt \<Rightarrow>
          if transferred mapping then Inr st
          else (case request_available_target_core tgt of (granted, tgt) \<Rightarrow>
            if granted
            then let st = st\<lparr>machines := g_hash_table_insert tn tgt (machines st)\<rparr> in
              bindr (create_mapping_parameters (snapshot_service mapping) (snapshot_container mapping) (snapshot_target mapping)
                       (snapshot_container_provided_by_service mapping) services tgt) (\<lambda>params.
              bindr (map_snapshot_item mapping (params_service params) tgt (params_type params)
                       (params_arguments params) (params_arguments_size params) (snapshot_world st)) (\<lambda>(pid, w).
                Inr (st\<lparr>snapshot_world := w, snapshot_pids := AList.update pid i (snapshot_pids st)\<rparr>)))
            else Inr st)))"

fun start_snapshot_items ::
  "services_table \<Rightarrow> map_snapshot_item_function \<Rightarrow> nat list \<Rightarrow> snapshot_state \<Rightarrow> snapshot_state result" where
  "start_snapshot_items services map_snapshot_item [] st = Inr st"
| "start_snapshot_items services map_snapshot_item (i # rest) st =
     bindr (start_snapshot_item services map_snapshot_item i st)
       (start_snapshot_items services map_snapshot_item rest)"

text \<open>The rounds left are counted down.\<close>

fun snapshot_rounds ::
  "kernel \<Rightarrow> services_table \<Rightarrow> map_snapshot_item_function \<Rightarrow> complete_snapshot_item_mapping_function \<Rightarrow> nat list
    \<Rightarrow> nat \<Rightarrow> bool \<Rightarrow> snapshot_state \<Rightarrow> (bool \<times> snapshot_state) result" where
  "snapshot_rounds K services f c items 0 success st = Inr (success, st)"
| "snapshot_rounds K services f c items (Suc left) success st =
     bindr (start_snapshot_items services f items st) (\<lambda>st.
     bindr (wait_to_complete_snapshot_item K services c st) (\<lambda>(good, st).
       snapshot_rounds K services f c items left (if \<not> good then False else success) st))"

definition map_snapshot_items ::
  "kernel \<Rightarrow> nat list \<Rightarrow> services_table \<Rightarrow> map_snapshot_item_function \<Rightarrow> complete_snapshot_item_mapping_function
    \<Rightarrow> snapshot_state \<Rightarrow> (bool \<times> snapshot_state) result" where
  "map_snapshot_items K items services f c st =
     snapshot_rounds K services f c items (length items) True (st\<lparr>snapshot_pids := []\<rparr>)"

text \<open>The pointers of the array that \<open>subtract_snapshot_mappings\<close> builds.\<close>

definition subtract_snapshot_items :: "SnapshotMapping list \<Rightarrow> SnapshotMapping list \<Rightarrow> nat list" where
  "subtract_snapshot_items left right = filter (\<lambda>i. find_snapshot_mapping right (left ! i) = None) [0..<length left]"

lemma subtract_snapshot_items_eq:
  "map ((!) left) (subtract_snapshot_items left right) = subtract_snapshot_mappings left right"
proof -
  have "subtract_snapshot_mappings left right
      = filter (\<lambda>m. find_snapshot_mapping right m = None) (map ((!) left) [0..<length left])"
    by (simp add: subtract_snapshot_mappings_def map_nth)
  then show ?thesis by (simp add: subtract_snapshot_items_def filter_map comp_def)
qed

section \<open>Machines with one core\<close>

text \<open>
  The contract of the two callbacks: the first forks one child, which depends on the mapping, its
  service, its machine and the parameters; the second leaves the mapping alone.
\<close>

locale snapshot_callbacks =
  fixes f :: "kernel \<Rightarrow> map_snapshot_item_function" and c :: complete_snapshot_item_mapping_function
    and req :: "cstr \<Rightarrow> SnapshotMapping \<Rightarrow> ManifestService \<Rightarrow> Target \<Rightarrow> cstr \<Rightarrow> string list \<Rightarrow> child"
  assumes f_law: "find_target_key t = Inr k \<Longrightarrow>
      f K m (Some s) t ty args (length args) w = Inr (sys_fork K (req k m s t ty args) w)"
    and c_law: "c m svc t outcome result = m"

text \<open>
  The machines have one core, which is free, and the items resolve. An item has to be processed if
  its machine is present and it has not been transferred.
\<close>

definition item_ready :: "services_table \<Rightarrow> Target hashtable \<Rightarrow> SnapshotMapping \<Rightarrow> bool" where
  "item_ready services ts m \<longleftrightarrow> (\<exists>tn. snapshot_target m = Some tn \<and> (\<forall>t. map_of ts tn = Some t \<longrightarrow>
     available_cores t = 1 \<and> (\<exists>k. find_target_key t = Inr k) \<and>
     mapping_resolvable services t (snapshot_service m) (snapshot_container m) (snapshot_container_provided_by_service m)))"

definition present_machine :: "Target hashtable \<Rightarrow> SnapshotMapping \<Rightarrow> bool" where
  "present_machine ts m \<longleftrightarrow> (\<exists>tn t. snapshot_target m = Some tn \<and> map_of ts tn = Some t)"

definition items_to_do :: "Target hashtable \<Rightarrow> SnapshotMapping list \<Rightarrow> nat list \<Rightarrow> nat set" where
  "items_to_do ts ms items = {i \<in> set items. present_machine ts (ms ! i) \<and> \<not> transferred (ms ! i)}"

context snapshot_callbacks
begin

text \<open>The child of an item: its core has been taken when the parameters are made.\<close>

definition item_child :: "services_table \<Rightarrow> Target hashtable \<Rightarrow> SnapshotMapping \<Rightarrow> child" where
  "item_child services ts m =
     (let t = (the (map_of ts (the (snapshot_target m))))\<lparr>available_cores := 0\<rparr> in
      case bindr (create_mapping_parameters (snapshot_service m) (snapshot_container m) (snapshot_target m)
                (snapshot_container_provided_by_service m) services t) (\<lambda>p.
           bindr (find_target_key t) (\<lambda>k. bindr (deref (params_service p)) (\<lambda>s.
             Inr (req k m s t (params_type p) (params_arguments p))))) of
        Inr child \<Rightarrow> child | Inl e \<Rightarrow> Exec [] [])"

text \<open>
  The invariant: the running items \<open>R\<close> and the finished ones \<open>T\<close> are different items to be done, no two
  running ones share a machine, a machine has its core exactly if none of its items runs, and every
  item of both has been started once.
\<close>

definition snapshot_inv ::
  "services_table \<Rightarrow> Target hashtable \<Rightarrow> SnapshotMapping list \<Rightarrow> nat set \<Rightarrow> event list
    \<Rightarrow> snapshot_state \<Rightarrow> nat set \<Rightarrow> nat set \<Rightarrow> event list \<Rightarrow> bool" where
  "snapshot_inv services ts ms N t0 st R T new \<longleftrightarrow>
     R = snd ` set (snapshot_pids st) \<and> distinct (map fst (snapshot_pids st)) \<and> distinct (map snd (snapshot_pids st))
     \<and> fst ` set (snapshot_pids st) = set (children (snapshot_world st)) \<and> wf_os (snapshot_world st)
     \<and> R \<subseteq> N \<and> T \<subseteq> N \<and> R \<inter> T = {} \<and> inj_on (\<lambda>i. snapshot_target (ms ! i)) R
     \<and> length (snapshots st) = length ms
     \<and> (\<forall>i < length ms. snapshots st ! i = (if i \<in> T then (ms ! i)\<lparr>transferred := True\<rparr> else ms ! i))
     \<and> (\<forall>tn. map_of (machines st) tn = map_option (\<lambda>t. if \<exists>i \<in> R. snapshot_target (ms ! i) = Some tn
            then t\<lparr>available_cores := 0\<rparr> else t) (map_of ts tn))
     \<and> map fst (machines st) = map fst ts
     \<and> trace (snapshot_world st) = new @ t0
     \<and> mset (spawned new) = image_mset (\<lambda>i. item_child services ts (ms ! i)) (mset_set (R \<union> T))"

lemma start_snapshot_item_inv:
  assumes K: "kernel_live K" and inv: "snapshot_inv services ts ms N t0 st R T new"
    and N: "finite N" "N = items_to_do ts ms items" and i: "i \<in> set items" "i < length ms" "item_ready services ts (ms ! i)"
  shows "\<exists>st' R' new'. start_snapshot_item services (f K) i st = Inr st' \<and> snapshot_inv services ts ms N t0 st' R' T new'
    \<and> R \<subseteq> R' \<and> (i \<in> N - T \<longrightarrow> R' \<noteq> {}) \<and> (all_succeeded new' \<longleftrightarrow> all_succeeded new)"
proof -
  let ?m = "snapshots st ! i"
  have m: "?m = (if i \<in> T then (ms ! i)\<lparr>transferred := True\<rparr> else ms ! i)"
    using inv i(2) by (simp add: snapshot_inv_def)
  from i(3) obtain tn where tn: "snapshot_target (ms ! i) = Some tn" by (auto simp: item_ready_def)
  with m have tn': "snapshot_target ?m = Some tn" by simp
  have M: "map_of (machines st) tn = map_option (\<lambda>t. if \<exists>i \<in> R. snapshot_target (ms ! i) = Some tn
            then t\<lparr>available_cores := 0\<rparr> else t) (map_of ts tn)" using inv by (simp add: snapshot_inv_def)
  show ?thesis
  proof (cases "i \<in> N - T")
    case False
    then have "map_of ts tn = None \<or> transferred ?m"
      using i(1) N(2) m tn by (auto simp: items_to_do_def present_machine_def)
    then have "start_snapshot_item services (f K) i st = Inr st"
      using tn' M by (auto simp: start_snapshot_item_def Let_def split: option.splits)
    with inv False show ?thesis by blast
  next
    case True
    then have new_m: "?m = ms ! i" "\<not> transferred (ms ! i)" using m N(2) by (auto simp: items_to_do_def)
    from True N(2) tn obtain t where t: "map_of ts tn = Some t"
      by (auto simp: items_to_do_def present_machine_def)
    with i(3) tn obtain k where cores: "available_cores t = 1" and k: "find_target_key t = Inr k"
      and res: "mapping_resolvable services t (snapshot_service (ms ! i)) (snapshot_container (ms ! i))
        (snapshot_container_provided_by_service (ms ! i))"
      by (auto simp: item_ready_def)
    show ?thesis
    proof (cases "\<exists>j \<in> R. snapshot_target (ms ! j) = Some tn")
      case busy: True
      with M t have "map_of (machines st) tn = Some (t\<lparr>available_cores := 0\<rparr>)" by simp
      then have "start_snapshot_item services (f K) i st = Inr st"
        using tn' new_m by (simp add: start_snapshot_item_def request_available_target_core_def)
      with inv busy show ?thesis by blast
    next
      case free: False
      let ?t = "t\<lparr>available_cores := 0\<rparr>"
      have iR: "i \<notin> R" using free tn by blast
      have M': "map_of (machines st) tn = Some t" using M t free by simp
      have key: "find_target_key ?t = Inr k" using k by (simp add: find_target_key_def find_target_property_def)
      have "mapping_resolvable services ?t (snapshot_service (ms ! i)) (snapshot_container (ms ! i))
        (snapshot_container_provided_by_service (ms ! i))" using res by (simp add: mapping_resolvable_def)
      from create_mapping_parameters_total [OF this, of "Some tn"] obtain p s where
        p: "create_mapping_parameters (snapshot_service (ms ! i)) (snapshot_container (ms ! i)) (Some tn)
          (snapshot_container_provided_by_service (ms ! i)) services ?t = Inr p" "params_service p = Some s" by force
      have size: "params_arguments_size p = length (params_arguments p)"
        using p(1) by (auto simp: create_mapping_parameters_def result_simps)
      let ?c = "item_child services ts (ms ! i)"
      have c: "?c = req k (ms ! i) s ?t (params_type p) (params_arguments p)"
        using p t tn key by (simp add: item_child_def)
      obtain pid w' where fk: "sys_fork K ?c (snapshot_world st) = (pid, w')" by fastforce
      note live = sys_fork_live [OF K fk]
      let ?st = "st\<lparr>machines := g_hash_table_insert tn ?t (machines st), snapshot_world := w',
        snapshot_pids := AList.update pid i (snapshot_pids st)\<rparr>"
      have "f K (ms ! i) (Some s) ?t (params_type p) (params_arguments p) (length (params_arguments p)) (snapshot_world st)
          = Inr (pid, w')" using f_law [OF key] fk by (simp add: c)
      then have start: "start_snapshot_item services (f K) i st = Inr ?st"
        using tn tn' new_m M' cores p size by (simp add: start_snapshot_item_def request_available_target_core_def)
      have pid_new: "pid \<notin> fst ` set (snapshot_pids st)" using inv live by (simp add: snapshot_inv_def)
      have pids: "AList.update pid i (snapshot_pids st) = snapshot_pids st @ [(pid, i)]"
        by (rule alist_update_new [OF pid_new])
      have fin: "finite (R \<union> T)" using inv N(1) by (auto simp: snapshot_inv_def intro: finite_subset)
      have "snapshot_inv services ts ms N t0 ?st (insert i R) T (Forked pid ?c # new)"
        unfolding snapshot_inv_def
      proof (intro conjI)
        show "\<forall>n. map_of (machines ?st) n = map_option (\<lambda>t. if \<exists>j \<in> insert i R. snapshot_target (ms ! j) = Some n
            then t\<lparr>available_cores := 0\<rparr> else t) (map_of ts n)"
          using inv t tn by (auto simp: snapshot_inv_def)
        show "mset (spawned (Forked pid ?c # new))
            = image_mset (\<lambda>i. item_child services ts (ms ! i)) (mset_set (insert i R \<union> T))"
          using inv iR True fin by (simp add: snapshot_inv_def)
        show "inj_on (\<lambda>i. snapshot_target (ms ! i)) (insert i R)"
          using inv free tn by (auto simp: snapshot_inv_def inj_on_def)
        show "wf_os (snapshot_world ?st)" using wf_os_fork [OF kernel_live_ok [OF K] _ fk] inv by (simp add: snapshot_inv_def)
        show "map fst (machines ?st) = map fst ts"
          using inv map_of_SomeD [OF M'] by (simp add: snapshot_inv_def g_hash_table_insert_keys rev_image_eqI)
      qed (use inv live pid_new iR True in \<open>auto simp: snapshot_inv_def pids\<close>)
      with start show ?thesis by (intro exI [of _ ?st] exI [of _ "insert i R"] exI [of _ "Forked pid ?c # new"]) auto
    qed
  qed
qed

lemma start_snapshot_items_inv:
  assumes K: "kernel_live K" and inv: "snapshot_inv services ts ms N t0 st R T new"
    and N: "finite N" "N = items_to_do ts ms items"
    and sub: "set js \<subseteq> set items" "\<forall>i \<in> set js. i < length ms \<and> item_ready services ts (ms ! i)"
  shows "\<exists>st' R' new'. start_snapshot_items services (f K) js st = Inr st' \<and> snapshot_inv services ts ms N t0 st' R' T new'
    \<and> R \<subseteq> R' \<and> ((N - T) \<inter> set js \<noteq> {} \<longrightarrow> R' \<noteq> {}) \<and> (all_succeeded new' \<longleftrightarrow> all_succeeded new)"
  using inv sub
proof (induction js arbitrary: st R new)
  case Nil
  then show ?case by auto
next
  case (Cons i js)
  from Cons.prems have i: "i \<in> set items" "i < length ms" "item_ready services ts (ms ! i)" by auto
  from start_snapshot_item_inv [OF K Cons.prems(1) N i] obtain st1 R1 new1 where
    1: "start_snapshot_item services (f K) i st = Inr st1" "snapshot_inv services ts ms N t0 st1 R1 T new1"
      "R \<subseteq> R1" "i \<in> N - T \<longrightarrow> R1 \<noteq> {}" "all_succeeded new1 \<longleftrightarrow> all_succeeded new" by blast
  have rest: "set js \<subseteq> set items" "\<forall>i \<in> set js. i < length ms \<and> item_ready services ts (ms ! i)"
    using Cons.prems by auto
  from Cons.IH [OF 1(2) rest] obtain st2 R2 new2 where
    2: "start_snapshot_items services (f K) js st1 = Inr st2" "snapshot_inv services ts ms N t0 st2 R2 T new2"
      "R1 \<subseteq> R2" "(N - T) \<inter> set js \<noteq> {} \<longrightarrow> R2 \<noteq> {}" "all_succeeded new2 \<longleftrightarrow> all_succeeded new1" by blast
  with 1 show ?case by (intro exI [of _ st2] exI [of _ R2] exI [of _ new2]) auto
qed

lemma wait_snapshot_item_inv:
  assumes K: "kernel_live K" and inv: "snapshot_inv services ts ms N t0 st R T new"
    and N: "\<forall>i \<in> N. i < length ms \<and> (\<exists>tn sn t. snapshot_target (ms ! i) = Some tn \<and> snapshot_service (ms ! i) = Some sn
        \<and> map_of ts tn = Some t \<and> available_cores t = 1)"
  shows "if R = {} then wait_to_complete_snapshot_item K services c st = Inr (True, st)
    else \<exists>i good st' new'. i \<in> R \<and> wait_to_complete_snapshot_item K services c st = Inr (good, st')
      \<and> snapshot_inv services ts ms N t0 st' (R - {i}) (insert i T) new'
      \<and> (all_succeeded new' \<longleftrightarrow> all_succeeded new \<and> good)"
proof (cases "R = {}")
  case True
  with inv show ?thesis by (simp add: snapshot_inv_def wait_to_complete_snapshot_item_def)
next
  case False
  let ?w = "snapshot_world st" and ?pids = "snapshot_pids st"
  have wf: "wf_os ?w" and pids: "R = snd ` set ?pids" "fst ` set ?pids = set (children ?w)" "distinct (map fst ?pids)"
    using inv by (simp_all add: snapshot_inv_def)
  with False have "children ?w \<noteq> []" by auto
  obtain pid ws w' where s: "sys_wait K ?w = ((pid, ws), w')" by (metis surj_pair)
  note live = sys_wait_live [OF K wf \<open>children ?w \<noteq> []\<close> s]
  then obtain i where i: "(pid, i) \<in> set ?pids" using pids(2) by (metis (no_types, lifting) imageE prod.collapse)
  then have lookup: "map_of ?pids pid = Some i" using pids(3) by simp
  have iR: "i \<in> R" using i pids(1) by force
  have sub: "R \<subseteq> N" "R \<inter> T = {}" "finite R" using inv by (auto simp: snapshot_inv_def)
  with iR N obtain tn sn t where m: "i < length ms" "snapshot_target (ms ! i) = Some tn" "snapshot_service (ms ! i) = Some sn"
    and t: "map_of ts tn = Some t" "available_cores t = 1" by blast
  have mapping: "snapshots st ! i = ms ! i" using inv m(1) iR sub(2) by (auto simp: snapshot_inv_def)
  let ?m = "(ms ! i)\<lparr>transferred := True\<rparr>"
  have tgt: "map_of (machines st) tn = Some (t\<lparr>available_cores := 0\<rparr>)" using inv t(1) m(2) iR by (auto simp: snapshot_inv_def)
  have t': "signal_available_target_core (t\<lparr>available_cores := 0\<rparr>) = t" using t(2) by (simp add: signal_available_target_core_def)
  obtain outcome r where rt: "procreact_retrieve_boolean pid ws = (outcome, r)" by fastforce
  have good: "(outcome = PROCREACT_STATUS_OK \<and> r \<noteq> 0) \<longleftrightarrow> ws = Exited 0"
    using succeeded_retrieve_boolean [of pid ws] live by (simp add: rt)
  let ?st = "st\<lparr>snapshot_world := w', snapshot_pids := AList.delete pid ?pids,
    machines := g_hash_table_insert tn t (machines st), snapshots := (snapshots st)[i := ?m]\<rparr>"
  have len: "length (snapshots st) = length ms" using inv by (simp add: snapshot_inv_def)
  have wait: "wait_to_complete_snapshot_item K services c st = Inr (ws = Exited 0, ?st)"
    using s live lookup mapping m tgt t' rt good len i
    by (auto simp: wait_to_complete_snapshot_item_def Let_def c_law)
  have inj: "inj_on (\<lambda>i. snapshot_target (ms ! i)) R" using inv unfolding snapshot_inv_def by blast
  have machines: "\<forall>tn. map_of (machines st) tn = map_option (\<lambda>t. if \<exists>i \<in> R. snapshot_target (ms ! i) = Some tn
            then t\<lparr>available_cores := 0\<rparr> else t) (map_of ts tn)"
    and items: "\<forall>i < length ms. snapshots st ! i = (if i \<in> T then (ms ! i)\<lparr>transferred := True\<rparr> else ms ! i)"
    and spawns: "mset (spawned new) = image_mset (\<lambda>i. item_child services ts (ms ! i)) (mset_set (R \<union> T))"
    and tr: "trace ?w = new @ t0" and T: "T \<subseteq> N" using inv unfolding snapshot_inv_def by blast+
  have other: "snapshot_target (ms ! j) \<noteq> Some tn" if "j \<in> R - {i}" for j
    using inj_onD [OF inj, of j i] that iR m(2) by auto
  have RT: "R - {i} \<union> insert i T = R \<union> T" using iR by blast
  have dist: "distinct (map snd ?pids)" using inv by (simp add: snapshot_inv_def)
  have snd_pids: "snd ` set (AList.delete pid ?pids) = R - {i}"
  proof -
    have uniq: "b = i" if "(pid, b) \<in> set ?pids" for b
      using map_of_is_SomeI [OF pids(3) that] lookup by (metis option.inject)
    have "{e \<in> set ?pids. fst e \<noteq> pid} = set ?pids - {(pid, i)}"
      using i by (auto dest: uniq)
    moreover have "snd ` (set ?pids - {(pid, i)}) = snd ` set ?pids - snd ` {(pid, i)}"
      using dist i by (intro inj_on_image_set_diff [of snd "set ?pids"]) (auto simp: distinct_map)
    ultimately show ?thesis by (simp add: set_alist_delete pids(1))
  qed
  have "snapshot_inv services ts ms N t0 ?st (R - {i}) (insert i T) (Reaped pid ws # new)"
    unfolding snapshot_inv_def
  proof (intro conjI)
    show "R - {i} = snd ` set (snapshot_pids ?st)" using snd_pids by simp
    show "distinct (map fst (snapshot_pids ?st))" "distinct (map snd (snapshot_pids ?st))"
      using pids(3) dist by (simp_all add: alist_delete_fst alist_delete_snd)
    show "fst ` set (snapshot_pids ?st) = set (children (snapshot_world ?st))"
      using pids(2) live by (auto simp: set_alist_delete)
    show "wf_os (snapshot_world ?st)" using wf_os_wait [OF kernel_live_ok [OF K] wf s] by simp
    show "\<forall>n. map_of (machines ?st) n = map_option (\<lambda>t. if \<exists>j \<in> R - {i}. snapshot_target (ms ! j) = Some n
        then t\<lparr>available_cores := 0\<rparr> else t) (map_of ts n)"
    proof
      fix n
      show "map_of (machines ?st) n = map_option (\<lambda>t. if \<exists>j \<in> R - {i}. snapshot_target (ms ! j) = Some n
        then t\<lparr>available_cores := 0\<rparr> else t) (map_of ts n)"
      proof (cases "n = tn")
        case True
        with other t(1) show ?thesis by simp
      next
        case False
        then have "(\<exists>j \<in> R - {i}. snapshot_target (ms ! j) = Some n) \<longleftrightarrow> (\<exists>j \<in> R. snapshot_target (ms ! j) = Some n)"
          using m(2) by auto
        with False machines show ?thesis by simp
      qed
    qed
    show "mset (spawned (Reaped pid ws # new)) = image_mset (\<lambda>i. item_child services ts (ms ! i)) (mset_set (R - {i} \<union> insert i T))"
      unfolding RT using spawns by simp
    show "\<forall>j < length ms. snapshots ?st ! j = (if j \<in> insert i T then (ms ! j)\<lparr>transferred := True\<rparr> else ms ! j)"
    proof (intro allI impI)
      fix j assume "j < length ms"
      with items len show "snapshots ?st ! j = (if j \<in> insert i T then (ms ! j)\<lparr>transferred := True\<rparr> else ms ! j)"
        by (cases "j = i") auto
    qed
    show "inj_on (\<lambda>i. snapshot_target (ms ! i)) (R - {i})" using inj by (rule inj_on_diff)
    show "trace (snapshot_world ?st) = (Reaped pid ws # new) @ t0" using tr live by simp
    show "R - {i} \<subseteq> N" "(R - {i}) \<inter> insert i T = {}" using sub by auto
    show "insert i T \<subseteq> N" using sub iR T by auto
    show "length (snapshots ?st) = length ms" using len by simp
    show "map fst (machines ?st) = map fst ts"
      using inv map_of_SomeD [OF tgt] by (simp add: snapshot_inv_def g_hash_table_insert_keys rev_image_eqI)
  qed
  then have "i \<in> R \<and> wait_to_complete_snapshot_item K services c st = Inr (ws = Exited 0, ?st)
      \<and> snapshot_inv services ts ms N t0 ?st (R - {i}) (insert i T) (Reaped pid ws # new)
      \<and> (all_succeeded (Reaped pid ws # new) \<longleftrightarrow> all_succeeded new \<and> ws = Exited 0)"
    using wait iR by (simp only: all_succeeded.simps conj_commute simp_thms)
  then show ?thesis unfolding if_not_P [OF False] by blast
qed

lemma snapshot_inv_sets:
  "snapshot_inv services ts ms N t0 st R T new \<Longrightarrow> R \<subseteq> N \<and> T \<subseteq> N \<and> R \<inter> T = {}"
  unfolding snapshot_inv_def by (elim conjE) (intro conjI; assumption)

lemma snapshot_rounds_complete:
  assumes K: "kernel_live K" and N: "N = items_to_do ts ms items"
    and ready: "\<forall>i \<in> set items. i < length ms \<and> item_ready services ts (ms ! i)"
    and inv: "snapshot_inv services ts ms N t0 st R T new" and left: "card (N - T) \<le> left"
    and ok: "success \<longleftrightarrow> all_succeeded new"
  shows "\<exists>st' new'. snapshot_rounds K services (f K) c items left success st = Inr (all_succeeded new', st')
    \<and> snapshot_inv services ts ms N t0 st' {} N new'"
  using inv left ok
proof (induction left arbitrary: success st R T new)
  case 0
  have fin: "finite N" by (simp add: N items_to_do_def)
  with 0 have "N - T = {}" by simp
  moreover have "R \<subseteq> N" "T \<subseteq> N" "R \<inter> T = {}" using snapshot_inv_sets [OF 0(1)] by blast+
  ultimately have all_done: "T = N" "R = {}" by blast+
  from 0 show ?case unfolding all_done by (intro exI [of _ st] exI [of _ new]) simp
next
  case (Suc left)
  have fin: "finite N" by (simp add: N items_to_do_def)
  have items: "set items \<subseteq> set items" by simp
  from start_snapshot_items_inv [OF K Suc.prems(1) fin N items ready] obtain st1 R1 new1 where
    1: "start_snapshot_items services (f K) items st = Inr st1" "snapshot_inv services ts ms N t0 st1 R1 T new1"
      "(N - T) \<inter> set items \<noteq> {} \<longrightarrow> R1 \<noteq> {}" "all_succeeded new1 \<longleftrightarrow> all_succeeded new" by blast
  have resolved: "\<forall>i \<in> N. i < length ms \<and> (\<exists>tn sn t. snapshot_target (ms ! i) = Some tn \<and> snapshot_service (ms ! i) = Some sn
        \<and> map_of ts tn = Some t \<and> available_cores t = 1)"
    using ready by (force simp: N items_to_do_def present_machine_def item_ready_def mapping_resolvable_def)
  note w = wait_snapshot_item_inv [OF K 1(2) resolved]
  show ?case
  proof (cases "R1 = {}")
    case True
    with 1(3) N have "N - T = {}" by (auto simp: items_to_do_def)
    then have "card (N - T) \<le> left" by (metis card.empty zero_le)
    from Suc.IH [OF 1(2) this, of success] 1(1,4) Suc.prems(3) w True show ?thesis by simp
  next
    case False
    with w obtain i good st2 new2 where
      2: "i \<in> R1" "wait_to_complete_snapshot_item K services c st1 = Inr (good, st2)"
        "snapshot_inv services ts ms N t0 st2 (R1 - {i}) (insert i T) new2"
        "all_succeeded new2 \<longleftrightarrow> all_succeeded new1 \<and> good" by auto
    have "i \<in> N - T" using 1(2) 2(1) by (auto simp: snapshot_inv_def)
    then have "N - T = insert i (N - insert i T)" "i \<notin> N - insert i T" by auto
    then have "card (N - T) = Suc (card (N - insert i T))" using fin by (metis card_insert_disjoint finite_Diff)
    then have "card (N - insert i T) \<le> left" using Suc.prems(2) by simp
    from Suc.IH [OF 2(3) this, of "if \<not> good then False else success"] 1(1,4) 2(2,4) Suc.prems(3)
    show ?thesis by auto
  qed
qed

lemma map_snapshot_items_complete:
  assumes K: "kernel_live K" and st: "wf_os (snapshot_world st)" "children (snapshot_world st) = []"
    and ready: "\<forall>i \<in> set items. i < length (snapshots st) \<and> item_ready services (machines st) (snapshots st ! i)"
    and table: "wf_table (machines st)"
  shows "\<exists>st' new. map_snapshot_items K items services (f K) c st = Inr (all_succeeded new, st')
    \<and> trace (snapshot_world st') = new @ trace (snapshot_world st)
    \<and> mset (spawned new) = image_mset (\<lambda>i. item_child services (machines st) (snapshots st ! i))
         (mset_set (items_to_do (machines st) (snapshots st) items))
    \<and> children (snapshot_world st') = [] \<and> wf_os (snapshot_world st')
    \<and> machines st' = machines st \<and> length (snapshots st') = length (snapshots st)
    \<and> (\<forall>i < length (snapshots st). snapshots st' ! i = (if i \<in> items_to_do (machines st) (snapshots st) items
         then (snapshots st ! i)\<lparr>transferred := True\<rparr> else snapshots st ! i))"
proof -
  let ?N = "items_to_do (machines st) (snapshots st) items" and ?t0 = "trace (snapshot_world st)"
  have "snapshot_inv services (machines st) (snapshots st) ?N ?t0 (st\<lparr>snapshot_pids := []\<rparr>) {} {} []"
    using st by (simp add: snapshot_inv_def option.map_id0 [unfolded id_def])
  moreover have "card (?N - {}) \<le> length items"
    using card_mono [of "set items" ?N] card_length [of items] by (auto simp: items_to_do_def)
  ultimately obtain st' new where r: "snapshot_rounds K services (f K) c items (length items) True (st\<lparr>snapshot_pids := []\<rparr>)
      = Inr (all_succeeded new, st')" "snapshot_inv services (machines st) (snapshots st) ?N ?t0 st' {} ?N new"
    using snapshot_rounds_complete [OF K refl ready, of ?t0 "st\<lparr>snapshot_pids := []\<rparr>" "{}" "{}" "[]" "length items" True] by auto
  then have "map_of (machines st') = map_of (machines st)" "map fst (machines st') = map fst (machines st)"
    by (simp_all add: snapshot_inv_def fun_eq_iff option.map_id0 [unfolded id_def])
  then have "machines st' = machines st" using table by (rule map_of_keys_eqI)
  with r show ?thesis
    by (intro exI [of _ st'] exI [of _ new]) (auto simp: map_snapshot_items_def snapshot_inv_def)
qed

end

end
