(* ===== verification/Migration.thy ===== *)
theory Migration
  imports Manifest Model_Iterator Snapshot_Traverse Snapshot_Transfer
begin

text \<open>
  Data migration (\<open>libmigrate\<close>): the state of components that move from one machine to another is
  snapshotted where it was, copied to the coordinator, sent to its new machine and restored
  there; optionally the old state is deleted. The transfers run as children of the coordinator
  that work through the mappings of one machine.
\<close>

section \<open>Flags (datamigrationflags.h)\<close>

definition FLAG_TRANSFER_ONLY :: flags where "FLAG_TRANSFER_ONLY = 0x1"
definition FLAG_DEPTH_FIRST :: flags where "FLAG_DEPTH_FIRST = 0x2"
definition FLAG_ALL :: flags where "FLAG_ALL = 0x4"
definition FLAG_NO_UPGRADE :: flags where "FLAG_NO_UPGRADE = 0x8"
definition FLAG_DELETE_STATE :: flags where "FLAG_DELETE_STATE = 0x10"

section \<open>Taking and retrieving snapshots (snapshot.c)\<close>

definition take_snapshot_on_target :: "kernel \<Rightarrow> map_snapshot_item_function" where
  "take_snapshot_on_target K mapping svc tgt type arguments arguments_length w =
     bindr (find_target_key tgt) (\<lambda>target_key.
     bindr (deref svc) (\<lambda>s.
       Inr (statemgmt_remote_snapshot K (client_interface tgt) target_key (snapshot_container mapping) type
              arguments arguments_length (pkg s) w)))"

definition complete_take_snapshot_on_target :: complete_snapshot_item_mapping_function where
  "complete_take_snapshot_on_target mapping svc tgt outcome result = mapping"

definition snapshot_services ::
  "kernel \<Rightarrow> nat list \<Rightarrow> services_table \<Rightarrow> snapshot_state \<Rightarrow> (bool \<times> snapshot_state) result" where
  "snapshot_services K items services st =
     map_snapshot_items K items services (take_snapshot_on_target K) complete_take_snapshot_on_target st"

definition retrieve_snapshot_mapping :: "kernel \<Rightarrow> SnapshotMapping \<Rightarrow> Target \<Rightarrow> flags \<Rightarrow> os \<Rightarrow> (int \<times> os) result" where
  "retrieve_snapshot_mapping K mapping tgt flags w =
     bindr (find_target_key tgt) (\<lambda>target_key.
       Inr (copy_snapshots_from K (client_interface tgt) target_key (snapshot_container mapping) (component mapping)
              (has_flag flags FLAG_ALL) w))"

text \<open>
  The loop of a transfer child: it stops at the first transfer that fails, and its exit status
  is that of the last one.
\<close>

fun transfer_each ::
  "kernel \<Rightarrow> (SnapshotMapping \<Rightarrow> os \<Rightarrow> (int \<times> os) result) \<Rightarrow> SnapshotMapping list \<Rightarrow> int \<Rightarrow> os \<Rightarrow> (int \<times> os) result" where
  "transfer_each K transfer [] exit_status w = Inr (exit_status, w)"
| "transfer_each K transfer (mapping # rest) exit_status w =
     bindr (transfer mapping w) (\<lambda>(pid, w).
     case procreact_wait_for_exit_status K pid w of ((outcome, exit_status), w) \<Rightarrow>
       if outcome \<noteq> PROCREACT_STATUS_OK then Inr (1, w)
       else if exit_status \<noteq> 0 then Inr (exit_status, w)
       else transfer_each K transfer rest exit_status w)"

record RetrieveSnapshotsData =
  snapshots_array :: "SnapshotMapping list"
  transfer_flags :: flags

definition retrieve_snapshots_child :: "kernel \<Rightarrow> RetrieveSnapshotsData \<Rightarrow> Target \<Rightarrow> os \<Rightarrow> (int \<times> os) result" where
  "retrieve_snapshots_child K d tgt w =
     bindr (find_target_key tgt) (\<lambda>target_key.
       transfer_each K (\<lambda>mapping. retrieve_snapshot_mapping K mapping tgt (transfer_flags d))
         (find_snapshot_mappings_per_target (snapshots_array d) target_key) 0 w)"

definition retrieve_snapshots_from_target ::
  "kernel \<Rightarrow> RetrieveSnapshotsData \<Rightarrow> string \<Rightarrow> Target \<Rightarrow> os \<Rightarrow> (int \<times> os) result" where
  "retrieve_snapshots_from_target K d target_name tgt w =
     Inr (sys_fork K (Run ''retrieve_snapshots_from_target'' [Some target_name]) w)"

definition complete_retrieve_snapshots_from_target ::
  "RetrieveSnapshotsData \<Rightarrow> cstr \<Rightarrow> Target option \<Rightarrow> ProcReact_Status \<Rightarrow> int \<Rightarrow> RetrieveSnapshotsData result" where
  "complete_retrieve_snapshots_from_target d target_name tgt outcome result = Inr d"

definition retrieve_snapshots ::
  "kernel \<Rightarrow> nat \<Rightarrow> SnapshotMapping list \<Rightarrow> Target hashtable \<Rightarrow> nat \<Rightarrow> flags \<Rightarrow> os \<Rightarrow> (bool \<times> os) result" where
  "retrieve_snapshots K fuel array tgts max_concurrent_transfers flags w =
     bindr (procreact_fork_and_wait_in_parallel_limit K fuel
              (create_target_pid_iterator K tgts retrieve_snapshots_from_target complete_retrieve_snapshots_from_target
                 \<lparr>snapshots_array = array, transfer_flags = flags\<rparr>) max_concurrent_transfers w)
       (\<lambda>(iterator, w). Inr (target_iterator_has_succeeded iterator, w))"

definition clean_snapshot_mapping :: "kernel \<Rightarrow> SnapshotMapping \<Rightarrow> Target \<Rightarrow> int \<Rightarrow> os \<Rightarrow> (int \<times> os) result" where
  "clean_snapshot_mapping K mapping tgt keep w =
     bindr (find_target_key tgt) (\<lambda>target_key.
       Inr (statemgmt_remote_clean_snapshots K (client_interface tgt) target_key keep (snapshot_container mapping)
              (component mapping) w))"

record DepthFirstData =
  depth_services :: services_table
  depth_snapshots :: "SnapshotMapping list"
  depth_flags :: flags
  depth_keep :: int

text \<open>Three processes per mapping, one after the other, until one fails.\<close>

definition and_then :: "kernel \<Rightarrow> (os \<Rightarrow> (int \<times> os) result) \<Rightarrow> (os \<Rightarrow> (bool \<times> os) result) \<Rightarrow> os \<Rightarrow> (bool \<times> os) result" where
  "and_then K step rest w = bindr (step w) (\<lambda>p. case wait_if_ok K p of (good, w) \<Rightarrow> if good then rest w else Inr (False, w))"

fun depth_first_each ::
  "kernel \<Rightarrow> DepthFirstData \<Rightarrow> Target \<Rightarrow> (SnapshotMapping \<Rightarrow> MappingParameters \<Rightarrow> os \<Rightarrow> (bool \<times> os) result)
    \<Rightarrow> SnapshotMapping list \<Rightarrow> os \<Rightarrow> (int \<times> os) result" where
  "depth_first_each K d tgt steps [] w = Inr (0, w)"
| "depth_first_each K d tgt steps (mapping # rest) w =
     bindr (create_mapping_parameters (snapshot_service mapping) (snapshot_container mapping) (snapshot_target mapping)
              (snapshot_container_provided_by_service mapping) (depth_services d) tgt) (\<lambda>params.
     bindr (steps mapping params w) (\<lambda>(good, w).
       if \<not> good then Inr (1, w) else depth_first_each K d tgt steps rest w))"

definition take_retrieve_and_clean_child :: "kernel \<Rightarrow> DepthFirstData \<Rightarrow> Target \<Rightarrow> os \<Rightarrow> (int \<times> os) result" where
  "take_retrieve_and_clean_child K d tgt w =
     bindr (find_target_key tgt) (\<lambda>target_key.
       depth_first_each K d tgt (\<lambda>mapping params.
           and_then K (take_snapshot_on_target K mapping (params_service params) tgt (params_type params)
                         (params_arguments params) (params_arguments_size params))
          (and_then K (retrieve_snapshot_mapping K mapping tgt (depth_flags d))
          (and_then K (clean_snapshot_mapping K mapping tgt (depth_keep d)) (\<lambda>w. Inr (True, w)))))
         (find_snapshot_mappings_per_target (depth_snapshots d) target_key) w)"

definition take_retrieve_and_clean_snapshot_on_target ::
  "kernel \<Rightarrow> DepthFirstData \<Rightarrow> string \<Rightarrow> Target \<Rightarrow> os \<Rightarrow> (int \<times> os) result" where
  "take_retrieve_and_clean_snapshot_on_target K d target_name tgt w =
     Inr (sys_fork K (Run ''take_retrieve_and_clean_snapshot_on_target'' [Some target_name]) w)"

definition complete_take_retrieve_and_clean_snapshots_on_target ::
  "DepthFirstData \<Rightarrow> cstr \<Rightarrow> Target option \<Rightarrow> ProcReact_Status \<Rightarrow> int \<Rightarrow> DepthFirstData result" where
  "complete_take_retrieve_and_clean_snapshots_on_target d target_name tgt outcome result = Inr d"

definition snapshot_depth_first ::
  "kernel \<Rightarrow> nat \<Rightarrow> SnapshotMapping list \<Rightarrow> services_table \<Rightarrow> Target hashtable \<Rightarrow> nat \<Rightarrow> flags \<Rightarrow> int \<Rightarrow> os \<Rightarrow> (bool \<times> os) result" where
  "snapshot_depth_first K fuel array services tgts max_concurrent_transfers flags keep w =
     bindr (procreact_fork_and_wait_in_parallel_limit K fuel
              (create_target_pid_iterator K tgts take_retrieve_and_clean_snapshot_on_target
                 complete_take_retrieve_and_clean_snapshots_on_target
                 \<lparr>depth_services = services, depth_snapshots = array, depth_flags = flags, depth_keep = keep\<rparr>)
              max_concurrent_transfers w)
       (\<lambda>(iterator, w). Inr (target_iterator_has_succeeded iterator, w))"

text \<open>
  What a migration changes: the marks of the snapshot mappings of both manifests and the cores of the
  machines of the new one. The mappings are shared by the arrays that point to them, so a mark
  set while snapshots are taken is seen when they are restored.
\<close>

record migration_state =
  new_snapshots :: "SnapshotMapping list"
  old_snapshots :: "SnapshotMapping list"
  all_machines :: "Target hashtable"
  migration_world :: os

definition with_new_snapshots :: "(snapshot_state \<Rightarrow> (bool \<times> snapshot_state) result) \<Rightarrow> migration_state \<Rightarrow> (bool \<times> migration_state) result" where
  "with_new_snapshots run s =
     bindr (run \<lparr>snapshots = new_snapshots s, machines = all_machines s, snapshot_pids = [], snapshot_world = migration_world s\<rparr>)
       (\<lambda>(good, st). Inr (good, s\<lparr>new_snapshots := snapshots st, all_machines := machines st, migration_world := snapshot_world st\<rparr>))"

definition with_old_snapshots :: "(snapshot_state \<Rightarrow> (bool \<times> snapshot_state) result) \<Rightarrow> migration_state \<Rightarrow> (bool \<times> migration_state) result" where
  "with_old_snapshots run s =
     bindr (run \<lparr>snapshots = old_snapshots s, machines = all_machines s, snapshot_pids = [], snapshot_world = migration_world s\<rparr>)
       (\<lambda>(good, st). Inr (good, s\<lparr>old_snapshots := snapshots st, all_machines := machines st, migration_world := snapshot_world st\<rparr>))"

definition with_world :: "(os \<Rightarrow> (bool \<times> os) result) \<Rightarrow> migration_state \<Rightarrow> (bool \<times> migration_state) result" where
  "with_world run s = bindr (run (migration_world s)) (\<lambda>(good, w). Inr (good, s\<lparr>migration_world := w\<rparr>))"

text \<open>\<open>a && b\<close> and \<open>a || b\<close> on operations that change the state.\<close>

definition also_if :: "('s \<Rightarrow> (bool \<times> 's) result) \<Rightarrow> ('s \<Rightarrow> (bool \<times> 's) result) \<Rightarrow> 's \<Rightarrow> (bool \<times> 's) result" where
  "also_if a b s = bindr (a s) (\<lambda>(good, s). if good then b s else Inr (False, s))"

definition unless :: "bool \<Rightarrow> ('s \<Rightarrow> (bool \<times> 's) result) \<Rightarrow> 's \<Rightarrow> (bool \<times> 's) result" where
  "unless p b s = (if p then Inr (True, s) else b s)"

definition snapshot ::
  "kernel \<Rightarrow> nat \<Rightarrow> Manifest \<Rightarrow> Manifest option \<Rightarrow> nat \<Rightarrow> flags \<Rightarrow> int \<Rightarrow> migration_state \<Rightarrow> (bool \<times> migration_state) result" where
  "snapshot K fuel manifest previous_manifest max_concurrent_transfers flags keep s =
     (if \<not> has_flag flags FLAG_NO_UPGRADE \<and> previous_manifest = None then Inr (True, s)
      else
        let previous_services_table = (case previous_manifest of None \<Rightarrow> services_table manifest | Some p \<Rightarrow> services_table p);
            no_upgrade = has_flag flags FLAG_NO_UPGRADE;
            items = (if no_upgrade then [0..<length (new_snapshots s)]
                     else subtract_snapshot_items (old_snapshots s) (new_snapshots s));
            array = map ((!) (if no_upgrade then new_snapshots s else old_snapshots s)) items in
        if has_flag flags FLAG_DEPTH_FIRST
        then with_world (\<lambda>w. snapshot_depth_first K fuel array previous_services_table (all_machines s)
                             max_concurrent_transfers flags keep w) s
        else also_if (unless (has_flag flags FLAG_TRANSFER_ONLY)
                  ((if no_upgrade then with_new_snapshots else with_old_snapshots)
                     (snapshot_services K items previous_services_table)))
               (\<lambda>s. with_world (\<lambda>w. retrieve_snapshots K fuel array (all_machines s) max_concurrent_transfers flags w) s) s)"

section \<open>Sending and restoring snapshots (restore.c)\<close>

definition send_snapshot_mapping :: "kernel \<Rightarrow> SnapshotMapping \<Rightarrow> Target \<Rightarrow> flags \<Rightarrow> os \<Rightarrow> (int \<times> os) result" where
  "send_snapshot_mapping K mapping tgt flags w =
     bindr (find_target_key tgt) (\<lambda>target_key.
       Inr (copy_snapshots_to K (client_interface tgt) target_key (snapshot_container mapping) (component mapping)
              (has_flag flags FLAG_ALL) w))"

definition send_snapshots_child :: "kernel \<Rightarrow> RetrieveSnapshotsData \<Rightarrow> Target \<Rightarrow> os \<Rightarrow> (int \<times> os) result" where
  "send_snapshots_child K d tgt w =
     bindr (find_target_key tgt) (\<lambda>target_key.
       transfer_each K (\<lambda>mapping. send_snapshot_mapping K mapping tgt (transfer_flags d))
         (find_snapshot_mappings_per_target (snapshots_array d) target_key) 0 w)"

definition send_snapshots_to_target ::
  "kernel \<Rightarrow> RetrieveSnapshotsData \<Rightarrow> string \<Rightarrow> Target \<Rightarrow> os \<Rightarrow> (int \<times> os) result" where
  "send_snapshots_to_target K d target_name tgt w =
     Inr (sys_fork K (Run ''send_snapshots_to_target'' [Some target_name]) w)"

definition complete_send_snapshots_to_target ::
  "RetrieveSnapshotsData \<Rightarrow> cstr \<Rightarrow> Target option \<Rightarrow> ProcReact_Status \<Rightarrow> int \<Rightarrow> RetrieveSnapshotsData result" where
  "complete_send_snapshots_to_target d target_name tgt outcome result = Inr d"

definition send_snapshots ::
  "kernel \<Rightarrow> nat \<Rightarrow> SnapshotMapping list \<Rightarrow> Target hashtable \<Rightarrow> nat \<Rightarrow> flags \<Rightarrow> os \<Rightarrow> (bool \<times> os) result" where
  "send_snapshots K fuel array tgts max_concurrent_transfers flags w =
     bindr (procreact_fork_and_wait_in_parallel_limit K fuel
              (create_target_pid_iterator K tgts send_snapshots_to_target complete_send_snapshots_to_target
                 \<lparr>snapshots_array = array, transfer_flags = flags\<rparr>) max_concurrent_transfers w)
       (\<lambda>(iterator, w). Inr (target_iterator_has_succeeded iterator, w))"

definition restore_snapshot_on_target :: "kernel \<Rightarrow> map_snapshot_item_function" where
  "restore_snapshot_on_target K mapping svc tgt type arguments arguments_length w =
     bindr (find_target_key tgt) (\<lambda>target_key.
     bindr (deref svc) (\<lambda>s.
       Inr (statemgmt_remote_restore K (client_interface tgt) target_key (snapshot_container mapping) type
              arguments arguments_length (pkg s) w)))"

definition complete_restore_snapshot_on_target :: complete_snapshot_item_mapping_function where
  "complete_restore_snapshot_on_target mapping svc tgt outcome result = mapping"

definition restore_services ::
  "kernel \<Rightarrow> nat list \<Rightarrow> services_table \<Rightarrow> snapshot_state \<Rightarrow> (bool \<times> snapshot_state) result" where
  "restore_services K items services st =
     map_snapshot_items K items services (restore_snapshot_on_target K) complete_restore_snapshot_on_target st"

definition send_restore_and_clean_child :: "kernel \<Rightarrow> DepthFirstData \<Rightarrow> Target \<Rightarrow> os \<Rightarrow> (int \<times> os) result" where
  "send_restore_and_clean_child K d tgt w =
     bindr (find_target_key tgt) (\<lambda>target_key.
       depth_first_each K d tgt (\<lambda>mapping params.
           and_then K (send_snapshot_mapping K mapping tgt (depth_flags d))
          (and_then K (restore_snapshot_on_target K mapping (params_service params) tgt (params_type params)
                         (params_arguments params) (params_arguments_size params))
          (and_then K (clean_snapshot_mapping K mapping tgt (depth_keep d)) (\<lambda>w. Inr (True, w)))))
         (find_snapshot_mappings_per_target (depth_snapshots d) target_key) w)"

definition send_restore_and_clean_snapshot_on_target ::
  "kernel \<Rightarrow> DepthFirstData \<Rightarrow> string \<Rightarrow> Target \<Rightarrow> os \<Rightarrow> (int \<times> os) result" where
  "send_restore_and_clean_snapshot_on_target K d target_name tgt w =
     Inr (sys_fork K (Run ''send_restore_and_clean_snapshot_on_target'' [Some target_name]) w)"

definition complete_send_restore_and_clean_snapshots_on_target ::
  "DepthFirstData \<Rightarrow> cstr \<Rightarrow> Target option \<Rightarrow> ProcReact_Status \<Rightarrow> int \<Rightarrow> DepthFirstData result" where
  "complete_send_restore_and_clean_snapshots_on_target d target_name tgt outcome result = Inr d"

definition restore_depth_first ::
  "kernel \<Rightarrow> nat \<Rightarrow> SnapshotMapping list \<Rightarrow> services_table \<Rightarrow> Target hashtable \<Rightarrow> nat \<Rightarrow> flags \<Rightarrow> int \<Rightarrow> os \<Rightarrow> (bool \<times> os) result" where
  "restore_depth_first K fuel array services tgts max_concurrent_transfers flags keep w =
     bindr (procreact_fork_and_wait_in_parallel_limit K fuel
              (create_target_pid_iterator K tgts send_restore_and_clean_snapshot_on_target
                 complete_send_restore_and_clean_snapshots_on_target
                 \<lparr>depth_services = services, depth_snapshots = array, depth_flags = flags, depth_keep = keep\<rparr>)
              max_concurrent_transfers w)
       (\<lambda>(iterator, w). Inr (target_iterator_has_succeeded iterator, w))"

definition restore ::
  "kernel \<Rightarrow> nat \<Rightarrow> Manifest \<Rightarrow> Manifest option \<Rightarrow> nat \<Rightarrow> flags \<Rightarrow> int \<Rightarrow> migration_state \<Rightarrow> (bool \<times> migration_state) result" where
  "restore K fuel manifest previous_manifest max_concurrent_transfers flags keep s =
     (let items = (if has_flag flags FLAG_NO_UPGRADE \<or> previous_manifest = None then [0..<length (new_snapshots s)]
                   else subtract_snapshot_items (new_snapshots s) (old_snapshots s));
          array = map ((!) (new_snapshots s)) items in
      if has_flag flags FLAG_DEPTH_FIRST
      then with_world (\<lambda>w. restore_depth_first K fuel array (services_table manifest) (all_machines s)
                           max_concurrent_transfers flags keep w) s
      else also_if (with_world (\<lambda>w. send_snapshots K fuel array (all_machines s) max_concurrent_transfers flags w))
             (unless (has_flag flags FLAG_TRANSFER_ONLY)
                (with_new_snapshots (restore_services K items (services_table manifest)))) s)"

section \<open>Deleting state (delete-state.c)\<close>

definition delete_state_on_target :: "kernel \<Rightarrow> map_snapshot_item_function" where
  "delete_state_on_target K mapping svc tgt type arguments arguments_length w =
     bindr (find_target_key tgt) (\<lambda>target_key.
     bindr (deref svc) (\<lambda>s.
       Inr (statemgmt_remote_delete_state K (client_interface tgt) target_key (snapshot_container mapping) type
              arguments arguments_length (pkg s) w)))"

definition complete_delete_state_on_target :: complete_snapshot_item_mapping_function where
  "complete_delete_state_on_target mapping svc tgt outcome result = mapping"

definition delete_obsolete_state ::
  "kernel \<Rightarrow> services_table \<Rightarrow> snapshot_state \<Rightarrow> (bool \<times> snapshot_state) result" where
  "delete_obsolete_state K services st =
     (let st = st\<lparr>snapshots := reset_snapshot_items_transferred_status (snapshots st)\<rparr> in
      map_snapshot_items K [0..<length (snapshots st)] services (delete_state_on_target K)
        complete_delete_state_on_target st)"

section \<open>The whole migration (migrate.c)\<close>

definition migrate ::
  "kernel \<Rightarrow> nat \<Rightarrow> Manifest \<Rightarrow> Manifest option \<Rightarrow> nat \<Rightarrow> flags \<Rightarrow> int \<Rightarrow> migration_state \<Rightarrow> (bool \<times> migration_state) result" where
  "migrate K fuel manifest previous_manifest max_concurrent_transfers flags keep =
     also_if (snapshot K fuel manifest previous_manifest max_concurrent_transfers flags keep)
    (also_if (restore K fuel manifest previous_manifest max_concurrent_transfers flags keep)
      (case previous_manifest of
         None \<Rightarrow> (\<lambda>s. Inr (True, s))
       | Some p \<Rightarrow> unless (\<not> has_flag flags FLAG_DELETE_STATE \<or> has_flag flags FLAG_NO_UPGRADE)
                    (with_old_snapshots (delete_obsolete_state K (services_table p)))))"

end
