(* ===== verification/Migration_Correct.thy ===== *)
theory Migration_Correct
  imports Migration
begin

text \<open>
  What a data migration does: the commands of its five phases, the outcome of each, and that
  a phase starts only when everything before it has succeeded.
\<close>

section \<open>The commands of the phases\<close>

definition state_request :: "string \<Rightarrow> cstr \<Rightarrow> SnapshotMapping \<Rightarrow> ManifestService \<Rightarrow> Target \<Rightarrow> cstr \<Rightarrow> string list \<Rightarrow> child" where
  "state_request activity k m s t type arguments =
     execvp ([client_interface t, Some activity, Some ''--target'', k, Some ''--container'', snapshot_container m,
         Some ''--type'', type] @ concat (map (\<lambda>a. [Some ''--arguments'', Some a]) arguments) @ [pkg s, None])"

lemma activity_arguments:
  "concat (map (\<lambda>i. [Some ''--arguments'', array_at args i]) [0..<length args])
     = concat (map (\<lambda>a. [Some ''--arguments'', Some a]) args)"
  by (rule arg_cong [of _ _ concat], rule nth_equalityI) (simp_all add: array_at_def)

text \<open>The three functions differ in the activity only.\<close>

definition activity_on_target :: "string \<Rightarrow> kernel \<Rightarrow> map_snapshot_item_function" where
  "activity_on_target activity K mapping svc tgt type arguments arguments_length w =
     bindr (find_target_key tgt) (\<lambda>target_key.
     bindr (deref svc) (\<lambda>s.
       Inr (exec_dysnomia_activity K activity (client_interface tgt) target_key (snapshot_container mapping) type
              arguments arguments_length (pkg s) w)))"

lemma activities:
  "take_snapshot_on_target = activity_on_target ''--snapshot''"
  "restore_snapshot_on_target = activity_on_target ''--restore''"
  "delete_state_on_target = activity_on_target ''--delete-state''"
  by (simp_all add: fun_eq_iff activity_on_target_def take_snapshot_on_target_def restore_snapshot_on_target_def
      delete_state_on_target_def statemgmt_remote_snapshot_def statemgmt_remote_restore_def statemgmt_remote_delete_state_def)

lemma completions:
  "complete_restore_snapshot_on_target = complete_take_snapshot_on_target"
  "complete_delete_state_on_target = complete_take_snapshot_on_target"
  by (simp_all add: fun_eq_iff complete_take_snapshot_on_target_def complete_restore_snapshot_on_target_def
      complete_delete_state_on_target_def)

interpretation stating: snapshot_callbacks "activity_on_target activity" complete_take_snapshot_on_target
    "state_request activity" for activity
  by unfold_locales (simp_all add: activity_on_target_def complete_take_snapshot_on_target_def
      exec_dysnomia_activity_def state_request_def activity_arguments)

definition state_child :: "string \<Rightarrow> services_table \<Rightarrow> Target hashtable \<Rightarrow> SnapshotMapping \<Rightarrow> child" where
  "state_child activity = snapshot_callbacks.item_child (state_request activity)"

definition state_commands :: "string \<Rightarrow> services_table \<Rightarrow> Target hashtable \<Rightarrow> SnapshotMapping list \<Rightarrow> nat list \<Rightarrow> child multiset" where
  "state_commands activity services ts ms items =
     image_mset (\<lambda>i. state_child activity services ts (ms ! i)) (mset_set {i \<in> set items. present_machine ts (ms ! i)})"

definition transfer_commands :: "string \<Rightarrow> Target hashtable \<Rightarrow> child list" where
  "transfer_commands function ts = map (\<lambda>(n, t). Run function [Some n]) ts"

lemma state_child_transferred [simp]:
  "state_child activity services ts (m\<lparr>transferred := b\<rparr>) = state_child activity services ts m"
  unfolding state_child_def stating.item_child_def by (simp add: state_request_def)

section \<open>One phase\<close>

text \<open>
  \<open>phase s cs good s' new\<close>: the processes of the phase, all reaped, are those of \<open>cs\<close>; the machines are as before,
  and the outcome is good exactly if all of them succeeded.
\<close>

definition resting_world :: "os \<Rightarrow> bool" where
  "resting_world w \<longleftrightarrow> wf_os w \<and> children w = []"

definition phase_done :: "migration_state \<Rightarrow> child multiset \<Rightarrow> bool \<Rightarrow> migration_state \<Rightarrow> event list \<Rightarrow> bool" where
  "phase_done s cs good s' new \<longleftrightarrow>
     trace (migration_world s') = new @ trace (migration_world s) \<and> mset (spawned new) = cs
     \<and> resting_world (migration_world s') \<and> all_machines s' = all_machines s \<and> (good \<longleftrightarrow> all_succeeded new)"

text \<open>Nothing but the marks differs.\<close>

definition same_but_marks :: "SnapshotMapping list \<Rightarrow> SnapshotMapping list \<Rightarrow> bool" where
  "same_but_marks ms ms' \<longleftrightarrow> reset_snapshot_items_transferred_status ms = reset_snapshot_items_transferred_status ms'"

lemma same_but_marks_length: "same_but_marks ms ms' \<Longrightarrow> length ms' = length ms"
  unfolding same_but_marks_def reset_snapshot_items_transferred_status_def by (metis length_map)

lemma same_but_marks_nth:
  assumes "length ms' = length ms"
    and "\<And>i. i < length ms \<Longrightarrow> ms' ! i = (if P i then (ms ! i)\<lparr>transferred := True\<rparr> else ms ! i)"
  shows "same_but_marks ms ms'"
  unfolding same_but_marks_def reset_snapshot_items_transferred_status_def
  using assms by (intro nth_equalityI) simp_all

lemma same_but_marks_keys: "same_but_marks ms ms' \<Longrightarrow> map snapshot_key ms' = map snapshot_key ms"
proof -
  assume "same_but_marks ms ms'"
  then have "map snapshot_key (map (\<lambda>m. m\<lparr>transferred := False\<rparr>) ms') = map snapshot_key (map (\<lambda>m. m\<lparr>transferred := False\<rparr>) ms)"
    by (simp add: same_but_marks_def reset_snapshot_items_transferred_status_def)
  moreover have "snapshot_key (m\<lparr>transferred := False\<rparr>) = snapshot_key m" for m :: SnapshotMapping by (simp add: snapshot_key_def)
  ultimately show ?thesis by (simp add: comp_def)
qed

definition unmarked :: "SnapshotMapping list \<Rightarrow> bool" where
  "unmarked ms \<longleftrightarrow> (\<forall>m \<in> set ms. \<not> transferred m)"

definition items_ready :: "services_table \<Rightarrow> Target hashtable \<Rightarrow> SnapshotMapping list \<Rightarrow> bool" where
  "items_ready services ts ms \<longleftrightarrow> wf_table ts \<and> (\<forall>m \<in> set ms. item_ready services ts m)"

lemma state_phase:
  assumes K: "kernel_live K" and w: "resting_world (migration_world s)"
    and ready: "items_ready services (all_machines s) ms" "\<forall>i \<in> set items. i < length ms"
  obtains good st new where
    "map_snapshot_items K items services (activity_on_target activity K) complete_take_snapshot_on_target
       \<lparr>snapshots = ms, machines = all_machines s, snapshot_pids = [], snapshot_world = migration_world s\<rparr> = Inr (good, st)"
    "phase_done s (image_mset (\<lambda>i. state_child activity services (all_machines s) (ms ! i))
         (mset_set (items_to_do (all_machines s) ms items))) good
       (s\<lparr>all_machines := machines st, migration_world := snapshot_world st\<rparr>) new"
    "same_but_marks ms (snapshots st)"
    "\<forall>i < length ms. snapshots st ! i = (if i \<in> items_to_do (all_machines s) ms items
         then (ms ! i)\<lparr>transferred := True\<rparr> else ms ! i)"
proof -
  let ?st = "\<lparr>snapshots = ms, machines = all_machines s, snapshot_pids = [], snapshot_world = migration_world s\<rparr>"
  have r: "wf_os (snapshot_world ?st)" "children (snapshot_world ?st) = []" "wf_table (machines ?st)"
    "\<forall>i \<in> set items. i < length (snapshots ?st) \<and> item_ready services (machines ?st) (snapshots ?st ! i)"
    using w ready by (auto simp: resting_world_def items_ready_def)
  from stating.map_snapshot_items_complete [OF K r(1,2,4,3), of activity, unfolded snapshot_state.simps] obtain st new where
    1: "map_snapshot_items K items services (activity_on_target activity K) complete_take_snapshot_on_target ?st
        = Inr (all_succeeded new, st)"
      "trace (snapshot_world st) = new @ trace (migration_world s)"
      "mset (spawned new) = image_mset (\<lambda>i. state_child activity services (all_machines s) (ms ! i))
         (mset_set (items_to_do (all_machines s) ms items))"
      "children (snapshot_world st) = []" "wf_os (snapshot_world st)" "machines st = all_machines s"
      "length (snapshots st) = length ms"
      "\<forall>i < length ms. snapshots st ! i = (if i \<in> items_to_do (all_machines s) ms items
         then (ms ! i)\<lparr>transferred := True\<rparr> else ms ! i)"
    unfolding state_child_def by blast
  show ?thesis
  proof (rule that [OF 1(1)])
    show "same_but_marks ms (snapshots st)" using 1(7,8) by (intro same_but_marks_nth) auto
  qed (use 1 in \<open>simp_all add: phase_done_def resting_world_def\<close>)
qed

lemma items_to_do_unmarked:
  assumes "unmarked ms" and "\<forall>i \<in> set items. i < length ms"
  shows "image_mset (\<lambda>i. state_child activity services ts (ms ! i)) (mset_set (items_to_do ts ms items))
    = state_commands activity services ts ms items"
proof -
  have "items_to_do ts ms items = {i \<in> set items. present_machine ts (ms ! i)}"
    using assms by (auto simp: items_to_do_def unmarked_def)
  then show ?thesis by (simp add: state_commands_def)
qed

text \<open>Once its items have been processed, nothing is left to do.\<close>

lemma items_to_do_marked:
  assumes "same_but_marks ms ms'" and "\<forall>i < length ms. ms' ! i = (if i \<in> items_to_do ts ms items
      then (ms ! i)\<lparr>transferred := True\<rparr> else ms ! i)" and "\<forall>i \<in> set items. i < length ms"
  shows "items_to_do ts ms' items = {}"
proof -
  have "\<not> (present_machine ts (ms' ! i) \<and> \<not> transferred (ms' ! i))" if "i \<in> set items" for i
    using assms(2,3) that by (cases "i \<in> items_to_do ts ms items") (auto simp: items_to_do_def)
  then show ?thesis by (auto simp: items_to_do_def)
qed

section \<open>Phases in sequence\<close>

text \<open>
  \<open>stages s css good s' news\<close>: each stage starts the processes it has to, provided that everything in
  the stages before it has succeeded, and nothing otherwise; the outcome is good exactly if all succeed.
\<close>

definition stages :: "migration_state \<Rightarrow> child multiset list \<Rightarrow> bool \<Rightarrow> migration_state \<Rightarrow> event list list \<Rightarrow> bool" where
  "stages s css good s' news \<longleftrightarrow> length news = length css
     \<and> (\<forall>i < length css. mset (spawned (news ! i)) = (if all_succeeded (concat (take i news)) then css ! i else {#}))
     \<and> (good \<longleftrightarrow> all_succeeded (concat news))
     \<and> trace (migration_world s') = concat (rev news) @ trace (migration_world s)
     \<and> resting_world (migration_world s') \<and> all_machines s' = all_machines s
     \<and> same_but_marks (old_snapshots s) (old_snapshots s') \<and> same_but_marks (new_snapshots s) (new_snapshots s')"

lemma one_stage:
  assumes "phase_done s cs good s' new" and "same_but_marks (old_snapshots s) (old_snapshots s')"
    and "same_but_marks (new_snapshots s) (new_snapshots s')"
  shows "stages s [cs] good s' [new]"
  using assms by (simp add: stages_def phase_done_def)

lemma no_stage: "resting_world (migration_world s) \<Longrightarrow> stages s [] True s []"
  by (simp add: stages_def same_but_marks_def)

lemma stages_resting: "stages s css good s' news \<Longrightarrow> resting_world (migration_world s')"
  by (simp add: stages_def)

lemma stages_append:
  assumes a: "stages s css good s1 news" and b: "stages s1 css' good' s2 news'" and good
  shows "stages s (css @ css') good' s2 (news @ news')"
proof -
  have len: "length news = length css" "length news' = length css'" and all: "all_succeeded (concat news)"
    using assms by (simp_all add: stages_def)
  have "mset (spawned ((news @ news') ! i)) = (if all_succeeded (concat (take i (news @ news'))) then (css @ css') ! i else {#})"
    if i: "i < length (css @ css')" for i
  proof (cases "i < length css")
    case True
    with a len show ?thesis by (simp add: stages_def nth_append)
  next
    case False
    with i have "i - length css < length css'" by simp
    with b False len all show ?thesis by (simp add: stages_def nth_append)
  qed
  then show ?thesis using assms by (auto simp: stages_def same_but_marks_def)
qed

lemma stages_skip:
  assumes a: "stages s css False s1 news"
  shows "stages s (css @ css') False s1 (news @ replicate (length css') [])"
proof -
  have empty: "concat (replicate n ([] :: event list)) = []" "concat (rev (replicate n ([] :: event list))) = []" for n
    by (induction n) simp_all
  have "min n m = n \<or> min n m = m" for n m :: nat by arith
  then show ?thesis using a by (auto simp: stages_def nth_append empty)
qed

text \<open>An operation that returns, whatever the outcome, having gone through its stages.\<close>

definition goes_through :: "(migration_state \<Rightarrow> (bool \<times> migration_state) result) \<Rightarrow> migration_state \<Rightarrow> child multiset list
    \<Rightarrow> (migration_state \<Rightarrow> bool) \<Rightarrow> bool" where
  "goes_through a s css Q \<longleftrightarrow> (\<exists>good s' news. a s = Inr (good, s') \<and> stages s css good s' news \<and> Q s')"

lemma goes_also_if:
  assumes a: "goes_through a s css Q"
    and b: "\<And>s1 news. stages s css True s1 news \<Longrightarrow> Q s1 \<Longrightarrow> goes_through b s1 css' R" and R: "\<And>s1. Q s1 \<Longrightarrow> R s1"
  shows "goes_through (also_if a b) s (css @ css') R"
proof -
  from a obtain good s1 news where 1: "a s = Inr (good, s1)" "stages s css good s1 news" "Q s1"
    unfolding goes_through_def by blast
  show ?thesis
  proof (cases good)
    case True
    with 1(2) have "stages s css True s1 news" by simp
    from b [OF this 1(3)] obtain good' s2 news' where 2: "b s1 = Inr (good', s2)" "stages s1 css' good' s2 news'" "R s2"
      unfolding goes_through_def by blast
    with 1(1) True have "also_if a b s = Inr (good', s2)" by (simp add: also_if_def)
    with 2(3) stages_append [OF 1(2) 2(2) True] show ?thesis unfolding goes_through_def by blast
  next
    case False
    with 1(1) have "also_if a b s = Inr (False, s1)" by (simp add: also_if_def)
    moreover from 1(2) False have "stages s css False s1 news" by simp
    note stages_skip [OF this, of css']
    ultimately show ?thesis using R [OF 1(3)] unfolding goes_through_def by blast
  qed
qed

lemma goes_through_weaken:
  assumes "goes_through b s css' Q" and "a s = b s" and "css = css'" and "\<And>s'. Q s' \<Longrightarrow> R s'"
  shows "goes_through a s css R"
  using assms unfolding goes_through_def by metis

lemma goes_nothing: "resting_world (migration_world s) \<Longrightarrow> Q s \<Longrightarrow> goes_through (\<lambda>s. Inr (True, s)) s [{#}] Q"
  unfolding goes_through_def by (intro exI [of _ True] exI [of _ s] exI [of _ "[[]]"]) (simp add: stages_def same_but_marks_def)

section \<open>The phases of a migration\<close>

lemma marks_refl [simp]: "same_but_marks ms ms" by (simp add: same_but_marks_def)

lemma old_state_stage:
  assumes "kernel_live K" "resting_world (migration_world s)"
    "items_ready services (all_machines s) (old_snapshots s)" "\<forall>i \<in> set items. i < length (old_snapshots s)"
  shows "goes_through (with_old_snapshots (map_snapshot_items K items services (activity_on_target activity K)
       complete_take_snapshot_on_target)) s
      [image_mset (\<lambda>i. state_child activity services (all_machines s) (old_snapshots s ! i))
         (mset_set (items_to_do (all_machines s) (old_snapshots s) items))]
      (\<lambda>s'. new_snapshots s' = new_snapshots s \<and> items_to_do (all_machines s) (old_snapshots s') items = {})"
proof -
  from state_phase [OF assms] obtain good st new where 1: "map_snapshot_items K items services (activity_on_target activity K)
        complete_take_snapshot_on_target \<lparr>snapshots = old_snapshots s, machines = all_machines s, snapshot_pids = [],
          snapshot_world = migration_world s\<rparr> = Inr (good, st)"
      "phase_done s (image_mset (\<lambda>i. state_child activity services (all_machines s) (old_snapshots s ! i))
         (mset_set (items_to_do (all_machines s) (old_snapshots s) items))) good
         (s\<lparr>all_machines := machines st, migration_world := snapshot_world st\<rparr>) new"
      "same_but_marks (old_snapshots s) (snapshots st)"
      "\<forall>i < length (old_snapshots s). snapshots st ! i = (if i \<in> items_to_do (all_machines s) (old_snapshots s) items
         then (old_snapshots s ! i)\<lparr>transferred := True\<rparr> else old_snapshots s ! i)" by blast
  let ?s' = "s\<lparr>old_snapshots := snapshots st, all_machines := machines st, migration_world := snapshot_world st\<rparr>"
  have "stages s [image_mset (\<lambda>i. state_child activity services (all_machines s) (old_snapshots s ! i))
      (mset_set (items_to_do (all_machines s) (old_snapshots s) items))] good ?s' [new]"
    using 1(2,3) by (intro one_stage) (simp_all add: phase_done_def same_but_marks_def)
  with 1(1) items_to_do_marked [OF 1(3,4) assms(4)] show ?thesis unfolding goes_through_def
    by (intro exI [of _ good] exI [of _ ?s'] exI [of _ "[new]"]) (simp add: with_old_snapshots_def)
qed

lemma new_state_stage:
  assumes "kernel_live K" "resting_world (migration_world s)"
    "items_ready services (all_machines s) (new_snapshots s)" "\<forall>i \<in> set items. i < length (new_snapshots s)"
  shows "goes_through (with_new_snapshots (map_snapshot_items K items services (activity_on_target activity K)
       complete_take_snapshot_on_target)) s
      [image_mset (\<lambda>i. state_child activity services (all_machines s) (new_snapshots s ! i))
         (mset_set (items_to_do (all_machines s) (new_snapshots s) items))]
      (\<lambda>s'. old_snapshots s' = old_snapshots s \<and> items_to_do (all_machines s) (new_snapshots s') items = {})"
proof -
  from state_phase [OF assms] obtain good st new where 1: "map_snapshot_items K items services (activity_on_target activity K)
        complete_take_snapshot_on_target \<lparr>snapshots = new_snapshots s, machines = all_machines s, snapshot_pids = [],
          snapshot_world = migration_world s\<rparr> = Inr (good, st)"
      "phase_done s (image_mset (\<lambda>i. state_child activity services (all_machines s) (new_snapshots s ! i))
         (mset_set (items_to_do (all_machines s) (new_snapshots s) items))) good
         (s\<lparr>all_machines := machines st, migration_world := snapshot_world st\<rparr>) new"
      "same_but_marks (new_snapshots s) (snapshots st)"
      "\<forall>i < length (new_snapshots s). snapshots st ! i = (if i \<in> items_to_do (all_machines s) (new_snapshots s) items
         then (new_snapshots s ! i)\<lparr>transferred := True\<rparr> else new_snapshots s ! i)" by blast
  let ?s' = "s\<lparr>new_snapshots := snapshots st, all_machines := machines st, migration_world := snapshot_world st\<rparr>"
  have "stages s [image_mset (\<lambda>i. state_child activity services (all_machines s) (new_snapshots s ! i))
      (mset_set (items_to_do (all_machines s) (new_snapshots s) items))] good ?s' [new]"
    using 1(2,3) by (intro one_stage) (simp_all add: phase_done_def same_but_marks_def)
  with 1(1) items_to_do_marked [OF 1(3,4) assms(4)] show ?thesis unfolding goes_through_def
    by (intro exI [of _ good] exI [of _ ?s'] exI [of _ "[new]"]) (simp add: with_new_snapshots_def)
qed

lemma transfer_stage:
  fixes d :: 'u
  assumes K: "kernel_live K" and w: "resting_world (migration_world s)"
    and fuel: "length (all_machines s) + 1 < fuel" and l: "0 < l"
    and f: "\<And>K d n t w. f K d n t w = Inr (sys_fork K (Run function [Some n]) w)"
    and c: "\<And>d n t outcome result. c d n t outcome result = Inr d"
  shows "goes_through (with_world (\<lambda>w. bindr (procreact_fork_and_wait_in_parallel_limit K fuel
        (create_target_pid_iterator K (all_machines s) f c d) l w)
        (\<lambda>(iterator, w). Inr (target_iterator_has_succeeded iterator, w)))) s
      [mset (transfer_commands function (all_machines s))]
      (\<lambda>s'. old_snapshots s' = old_snapshots s \<and> new_snapshots s' = new_snapshots s)"
proof -
  have f': "starts (\<lambda>K u n t _. f K u n t) d (all_machines s) (all_machines s) (\<lambda>n t. Run function [Some n])"
    by (simp add: starts_def f)
  have c': "keeps (\<lambda>u n _ t. c u n t) d (all_machines s)" by (simp add: keeps_def c)
  from w have w': "wf_os (migration_world s)" "children (migration_world s) = []" by (simp_all add: resting_world_def)
  obtain it' w' new where 1: "procreact_fork_and_wait_in_parallel_limit K fuel (create_profile_mapping_iterator K (all_machines s)
        (all_machines s) (\<lambda>K u n t _. f K u n t) (\<lambda>u n _ t. c u n t) d) l (migration_world s) = Inr (it', w')"
    "children w' = []" "wf_os w'" "trace w' = new @ trace (migration_world s)"
    "spawned new = map (\<lambda>(n, v). Run function [Some n]) (all_machines s)"
    "profile_mapping_iterator_has_succeeded it' \<longleftrightarrow> all_succeeded new" "peak new \<le> l"
    by (rule limited_phase_returns [OF K w' fuel l f' c'])
  have "target_iterator_has_succeeded it' = profile_mapping_iterator_has_succeeded it'"
    by (simp add: target_iterator_has_succeeded_def profile_mapping_iterator_has_succeeded_def)
  with 1 have "phase_done s (mset (transfer_commands function (all_machines s))) (target_iterator_has_succeeded it')
      (s\<lparr>migration_world := w'\<rparr>) new"
    by (simp add: phase_done_def resting_world_def transfer_commands_def)
  from one_stage [OF this] 1(1) show ?thesis unfolding goes_through_def
    by (intro exI [of _ "target_iterator_has_succeeded it'"] exI [of _ "s\<lparr>migration_world := w'\<rparr>"] exI [of _ "[new]"])
      (simp add: with_world_def target_iterator_eq)
qed

lemma transfer_stages:
  assumes "kernel_live K" "resting_world (migration_world s)" "length (all_machines s) + 1 < fuel" "0 < l"
  shows "goes_through (with_world (\<lambda>w. retrieve_snapshots K fuel array (all_machines s) l flags w)) s
      [mset (transfer_commands ''retrieve_snapshots_from_target'' (all_machines s))]
      (\<lambda>s'. old_snapshots s' = old_snapshots s \<and> new_snapshots s' = new_snapshots s)"
    and "goes_through (with_world (\<lambda>w. send_snapshots K fuel array (all_machines s) l flags w)) s
      [mset (transfer_commands ''send_snapshots_to_target'' (all_machines s))]
      (\<lambda>s'. old_snapshots s' = old_snapshots s \<and> new_snapshots s' = new_snapshots s)"
  unfolding retrieve_snapshots_def send_snapshots_def
  by (rule transfer_stage [OF assms]; simp add: retrieve_snapshots_from_target_def complete_retrieve_snapshots_from_target_def
      send_snapshots_to_target_def complete_send_snapshots_to_target_def)+

section \<open>An upgrade\<close>

definition upgrade_flags :: "flags \<Rightarrow> bool" where
  "upgrade_flags flags \<longleftrightarrow> \<not> has_flag flags FLAG_NO_UPGRADE \<and> \<not> has_flag flags FLAG_DEPTH_FIRST
     \<and> \<not> has_flag flags FLAG_TRANSFER_ONLY"

definition upgrade_ready :: "Manifest \<Rightarrow> Manifest \<Rightarrow> migration_state \<Rightarrow> bool" where
  "upgrade_ready manifest previous s \<longleftrightarrow> resting_world (migration_world s)
     \<and> items_ready (services_table previous) (all_machines s) (old_snapshots s) \<and> unmarked (old_snapshots s)
     \<and> items_ready (services_table manifest) (all_machines s) (new_snapshots s) \<and> unmarked (new_snapshots s)
     \<and> sorted_snapshots (old_snapshots s)"

definition take_commands :: "Manifest \<Rightarrow> migration_state \<Rightarrow> child multiset" where
  "take_commands previous s = state_commands ''--snapshot'' (services_table previous) (all_machines s) (old_snapshots s)
     (subtract_snapshot_items (old_snapshots s) (new_snapshots s))"

definition restore_commands :: "Manifest \<Rightarrow> migration_state \<Rightarrow> child multiset" where
  "restore_commands manifest s = state_commands ''--restore'' (services_table manifest) (all_machines s) (new_snapshots s)
     (subtract_snapshot_items (new_snapshots s) (old_snapshots s))"

definition delete_commands :: "Manifest \<Rightarrow> migration_state \<Rightarrow> child multiset" where
  "delete_commands previous s = state_commands ''--delete-state'' (services_table previous) (all_machines s) (old_snapshots s)
     [0..<length (old_snapshots s)]"

lemma snapshot_stages:
  assumes K: "kernel_live K" and ready: "upgrade_ready manifest previous s" and flags: "upgrade_flags flags"
    and fuel: "length (all_machines s) + 1 < fuel" "0 < l"
  shows "goes_through (snapshot K fuel manifest (Some previous) l flags keep) s
      [take_commands previous s, mset (transfer_commands ''retrieve_snapshots_from_target'' (all_machines s))]
      (\<lambda>s'. new_snapshots s' = new_snapshots s)"
proof -
  let ?items = "subtract_snapshot_items (old_snapshots s) (new_snapshots s)"
  let ?a = "with_old_snapshots (snapshot_services K ?items (services_table previous))"
    and ?b = "\<lambda>s'. with_world (\<lambda>w. retrieve_snapshots K fuel (map ((!) (old_snapshots s)) ?items) (all_machines s') l flags w) s'"
  have "goes_through ?a s [take_commands previous s] (\<lambda>s'. new_snapshots s' = new_snapshots s)"
  proof (rule goes_through_weaken [OF old_state_stage [OF K]])
    show "[take_commands previous s] = [image_mset (\<lambda>i. state_child ''--snapshot'' (services_table previous) (all_machines s)
        (old_snapshots s ! i)) (mset_set (items_to_do (all_machines s) (old_snapshots s) ?items))]"
      using ready by (simp add: upgrade_ready_def take_commands_def items_to_do_unmarked subtract_snapshot_items_def)
  qed (use ready in \<open>simp_all add: upgrade_ready_def subtract_snapshot_items_def snapshot_services_def [abs_def] activities completions\<close>)
  moreover have "goes_through ?b s1 [mset (transfer_commands ''retrieve_snapshots_from_target'' (all_machines s))]
      (\<lambda>s'. new_snapshots s' = new_snapshots s)"
    if "stages s [take_commands previous s] True s1 news" "new_snapshots s1 = new_snapshots s" for s1 news
  proof -
    from that(1) have "resting_world (migration_world s1)" "all_machines s1 = all_machines s" by (simp_all add: stages_def)
    with transfer_stages(1) [OF K, of s1 fuel l "map ((!) (old_snapshots s)) ?items" flags] fuel that(2) show ?thesis
      unfolding goes_through_def by auto
  qed
  ultimately have "goes_through (also_if ?a ?b) s
      ([take_commands previous s] @ [mset (transfer_commands ''retrieve_snapshots_from_target'' (all_machines s))])
      (\<lambda>s'. new_snapshots s' = new_snapshots s)"
    by (rule goes_also_if) simp_all
  moreover have "snapshot K fuel manifest (Some previous) l flags keep s = also_if ?a ?b s"
    using flags by (simp add: snapshot_def upgrade_flags_def unless_def [abs_def] Let_def)
  ultimately show ?thesis by (simp add: goes_through_def)
qed

lemma restore_stages:
  assumes K: "kernel_live K" and w: "resting_world (migration_world s)"
    and ready: "items_ready (services_table manifest) (all_machines s) (new_snapshots s)" "unmarked (new_snapshots s)"
    and flags: "upgrade_flags flags" and fuel: "length (all_machines s) + 1 < fuel" "0 < l"
  shows "goes_through (restore K fuel manifest (Some previous) l flags keep) s
      [mset (transfer_commands ''send_snapshots_to_target'' (all_machines s)), restore_commands manifest s] (\<lambda>s'. True)"
proof -
  let ?items = "subtract_snapshot_items (new_snapshots s) (old_snapshots s)"
  let ?a = "with_world (\<lambda>w. send_snapshots K fuel (map ((!) (new_snapshots s)) ?items) (all_machines s) l flags w)"
    and ?b = "with_new_snapshots (restore_services K ?items (services_table manifest))"
  have "goes_through ?a s [mset (transfer_commands ''send_snapshots_to_target'' (all_machines s))]
      (\<lambda>s'. old_snapshots s' = old_snapshots s \<and> new_snapshots s' = new_snapshots s)"
    by (rule transfer_stages(2) [OF K w fuel])
  moreover have "goes_through ?b s1 [restore_commands manifest s] (\<lambda>s'. True)"
    if "stages s [mset (transfer_commands ''send_snapshots_to_target'' (all_machines s))] True s1 news"
      "old_snapshots s1 = old_snapshots s \<and> new_snapshots s1 = new_snapshots s" for s1 news
  proof -
    from that(1) have s1: "resting_world (migration_world s1)" "all_machines s1 = all_machines s" by (simp_all add: stages_def)
    show ?thesis
    proof (rule goes_through_weaken [OF new_state_stage [OF K]])
      show "[restore_commands manifest s] = [image_mset (\<lambda>i. state_child ''--restore'' (services_table manifest) (all_machines s1)
          (new_snapshots s1 ! i)) (mset_set (items_to_do (all_machines s1) (new_snapshots s1) ?items))]"
        using ready s1(2) that(2) by (simp add: restore_commands_def items_to_do_unmarked subtract_snapshot_items_def)
    qed (use ready s1 that(2) in \<open>simp_all add: subtract_snapshot_items_def restore_services_def [abs_def] activities completions\<close>)
  qed
  ultimately have "goes_through (also_if ?a ?b) s
      ([mset (transfer_commands ''send_snapshots_to_target'' (all_machines s))] @ [restore_commands manifest s]) (\<lambda>s'. True)"
    by (rule goes_also_if) simp_all
  moreover have "restore K fuel manifest (Some previous) l flags keep s = also_if ?a ?b s"
    using flags by (simp add: restore_def upgrade_flags_def unless_def [abs_def] Let_def)
  ultimately show ?thesis by (simp add: goes_through_def)
qed

lemma delete_stage:
  assumes K: "kernel_live K" and w: "resting_world (migration_world s)"
    and ready: "items_ready services (all_machines s) (old_snapshots s0)" and same: "same_but_marks (old_snapshots s0) (old_snapshots s)"
    and ts: "all_machines s = all_machines s0"
  shows "goes_through (with_old_snapshots (delete_obsolete_state K services)) s
      [state_commands ''--delete-state'' services (all_machines s0) (old_snapshots s0) [0..<length (old_snapshots s0)]] (\<lambda>s'. True)"
proof -
  let ?r = "reset_snapshot_items_transferred_status (old_snapshots s)"
  let ?s = "s\<lparr>old_snapshots := ?r\<rparr>" and ?items = "[0..<length (old_snapshots s0)]"
  have r: "?r = reset_snapshot_items_transferred_status (old_snapshots s0)" "length ?r = length (old_snapshots s0)"
    using same same_but_marks_length [OF same]
    by (simp_all add: same_but_marks_def) (simp add: reset_snapshot_items_transferred_status_def)
  have nth: "?r ! i = (old_snapshots s0 ! i)\<lparr>transferred := False\<rparr>" if "i < length (old_snapshots s0)" for i
    using that unfolding r(1) by (simp add: reset_snapshot_items_transferred_status_def)
  have mem: "items_ready services (all_machines ?s) ?r" "unmarked ?r"
    using ready unfolding r(1) by (auto simp: items_ready_def unmarked_def item_ready_def ts reset_snapshot_items_transferred_status_def)
  have "goes_through (with_old_snapshots (map_snapshot_items K ?items services (activity_on_target ''--delete-state'' K)
       complete_take_snapshot_on_target)) ?s [state_commands ''--delete-state'' services (all_machines ?s) (old_snapshots ?s) ?items]
      (\<lambda>s'. True)"
  proof (rule goes_through_weaken [OF old_state_stage [OF K]])
    have "\<forall>i \<in> set ?items. i < length ?r" using r(2) by simp
    from items_to_do_unmarked [OF mem(2) this]
    show "[state_commands ''--delete-state'' services (all_machines ?s) (old_snapshots ?s) ?items]
        = [image_mset (\<lambda>i. state_child ''--delete-state'' services (all_machines ?s) (old_snapshots ?s ! i))
            (mset_set (items_to_do (all_machines ?s) (old_snapshots ?s) ?items))]" by simp
  qed (use w mem r(2) in simp_all)
  moreover have "state_commands ''--delete-state'' services (all_machines ?s) (old_snapshots ?s) ?items
      = state_commands ''--delete-state'' services (all_machines s0) (old_snapshots s0) ?items"
  proof -
    have "{i \<in> set ?items. present_machine (all_machines s0) (?r ! i)}
        = {i \<in> set ?items. present_machine (all_machines s0) (old_snapshots s0 ! i)}"
      by (auto simp: nth present_machine_def)
    then show ?thesis unfolding state_commands_def using nth by (auto simp: ts intro!: image_mset_cong)
  qed
  moreover have "with_old_snapshots (delete_obsolete_state K services) s = with_old_snapshots (map_snapshot_items K ?items services
      (activity_on_target ''--delete-state'' K) complete_take_snapshot_on_target) ?s"
    using r(2) by (simp add: with_old_snapshots_def delete_obsolete_state_def activities completions)
  moreover have "stages s css good s' news" if "stages ?s css good s' news" for css good s' news
    using that r(1) same by (simp add: stages_def same_but_marks_def) (simp add: reset_snapshot_items_transferred_status_def comp_def)
  ultimately show ?thesis unfolding goes_through_def by (metis (no_types, lifting))
qed

lemma upgrade_stages:
  assumes "kernel_live K" and "upgrade_ready manifest previous s" and "upgrade_flags flags"
    and "length (all_machines s) + 1 < fuel" and "0 < l"
  shows "\<exists>good s' news. migrate K fuel manifest (Some previous) l flags keep s = Inr (good, s')
    \<and> stages s [take_commands previous s,
        mset (transfer_commands ''retrieve_snapshots_from_target'' (all_machines s)),
        mset (transfer_commands ''send_snapshots_to_target'' (all_machines s)),
        restore_commands manifest s,
        if has_flag flags FLAG_DELETE_STATE then delete_commands previous s else {#}] good s' news"
proof -
  note K = assms(1) and ready = assms(2) and flags = assms(3) and fuel = assms(4,5)
  let ?transfer = "\<lambda>f. mset (transfer_commands f (all_machines s))"
  let ?css = "[take_commands previous s, ?transfer ''retrieve_snapshots_from_target'']"
    and ?css' = "[?transfer ''send_snapshots_to_target'', restore_commands manifest s]"
    and ?ds = "[if has_flag flags FLAG_DELETE_STATE then delete_commands previous s else {#}]"
  let ?a = "snapshot K fuel manifest (Some previous) l flags keep" and ?b = "restore K fuel manifest (Some previous) l flags keep"
    and ?c = "unless (\<not> has_flag flags FLAG_DELETE_STATE \<or> has_flag flags FLAG_NO_UPGRADE)
      (with_old_snapshots (delete_obsolete_state K (services_table previous)))"
  have c: "goes_through ?c s2 ?ds (\<lambda>s'. True)"
    if "resting_world (migration_world s2)" "all_machines s2 = all_machines s" "same_but_marks (old_snapshots s) (old_snapshots s2)" for s2
  proof (cases "has_flag flags FLAG_DELETE_STATE")
    case True
    then show ?thesis using delete_stage [OF K that(1), of "services_table previous" s] that ready flags
      by (simp add: upgrade_ready_def upgrade_flags_def delete_commands_def goes_through_def unless_def)
  next
    case False
    then show ?thesis using goes_nothing [OF that(1), of "\<lambda>s'. True"] by (simp add: goes_through_def unless_def)
  qed
  have bc: "goes_through (also_if ?b ?c) s1 (?css' @ ?ds) (\<lambda>s'. True)"
    if "stages s ?css True s1 news" "new_snapshots s1 = new_snapshots s" for s1 news
  proof -
    from that(1) have s1: "resting_world (migration_world s1)" "all_machines s1 = all_machines s"
      "same_but_marks (old_snapshots s) (old_snapshots s1)" by (simp_all add: stages_def)
    note keys = same_but_marks_keys [OF s1(3)]
    then have "sorted_snapshots (old_snapshots s1)" using ready by (simp add: upgrade_ready_def)
    moreover from arg_cong [OF keys, of set] have "snapshot_keys (old_snapshots s1) = snapshot_keys (old_snapshots s)" by simp
    ultimately have "restore_commands manifest s1 = restore_commands manifest s"
      using ready s1(2) that(2) by (simp add: restore_commands_def subtract_snapshot_items_def find_snapshot_mapping_None_iff upgrade_ready_def)
    with restore_stages [OF K s1(1), of manifest flags fuel l previous keep] ready flags fuel s1(2) that(2)
    have "goes_through ?b s1 ?css' (\<lambda>s'. True)" by (simp add: upgrade_ready_def)
    then show ?thesis
    proof (rule goes_also_if)
      fix s2 news' assume "stages s1 ?css' True s2 news'"
      with s1 have "resting_world (migration_world s2)" "all_machines s2 = all_machines s" "same_but_marks (old_snapshots s) (old_snapshots s2)"
        by (simp_all add: stages_def same_but_marks_def)
      then show "goes_through ?c s2 ?ds (\<lambda>s'. True)" by (rule c)
    qed
  qed
  have "goes_through (also_if ?a (also_if ?b ?c)) s (?css @ ?css' @ ?ds) (\<lambda>s'. True)"
    by (rule goes_also_if [OF snapshot_stages [OF K ready flags fuel] bc]) auto
  then show ?thesis by (simp add: migrate_def goes_through_def)
qed

text \<open>
  C20: An upgrade of a system whose machines have one core goes through five stages: the moved components are
  snapshotted where they were, the snapshots are fetched from all machines, sent to all machines and restored where the
  moved components are now, and if it was asked for, the state of the previous deployment is deleted. A stage
  starts exactly its processes, provided that everything before it has succeeded, and nothing otherwise; the
  migration returns, reaps all processes and succeeds exactly if all of them do.
\<close>

theorem migrate_upgrade_stages:
  assumes "kernel_live K" and "upgrade_ready manifest previous s" and "upgrade_flags flags"
    and "length (all_machines s) + 1 < fuel" and "0 < l"
  shows "\<exists>good s' news. migrate K fuel manifest (Some previous) l flags keep s = Inr (good, s')
    \<and> stages s [take_commands previous s,
        mset (transfer_commands ''retrieve_snapshots_from_target'' (all_machines s)),
        mset (transfer_commands ''send_snapshots_to_target'' (all_machines s)),
        restore_commands manifest s,
        if has_flag flags FLAG_DELETE_STATE then delete_commands previous s else {#}] good s' news"
  using assms by (rule upgrade_stages)

text \<open>A component that moves from one machine to another.\<close>

definition moving_machine :: "string \<Rightarrow> Target" where
  "moving_machine n = \<lparr>properties_table = Some [(''hostname'', NIX_XML_TYPE_STRING n)], containers_table = Some [],
     system = None, client_interface = Some ''ssh'', target_property = Some ''hostname'', num_of_cores = 1, available_cores = 1\<rparr>"

definition moving_mapping :: "string \<Rightarrow> SnapshotMapping" where
  "moving_mapping n = \<lparr>component = Some ''db'', snapshot_container = Some ''mysql'', snapshot_target = Some n,
     snapshot_service = Some ''s'', snapshot_container_provided_by_service = None, transferred = False\<rparr>"

definition moving_manifest :: "string \<Rightarrow> Manifest" where
  "moving_manifest n = \<lparr>profile_mapping_table = [],
     services_table = [(''s'', \<lparr>name = Some ''db'', pkg = Some ''/nix/store/db'', type_of = Some ''mysql-database'',
       depends_on = Some [], connects_to = Some [], provides_containers_table = None\<rparr>)],
     service_mapping_array = [], snapshot_mapping_array = [moving_mapping n],
     targets_table = [(''t1'', moving_machine ''t1''), (''t2'', moving_machine ''t2'')], correct_version = True\<rparr>"

definition moving_state :: "string \<Rightarrow> string \<Rightarrow> migration_state" where
  "moving_state old new = \<lparr>new_snapshots = [moving_mapping new], old_snapshots = [moving_mapping old],
     all_machines = [(''t1'', moving_machine ''t1''), (''t2'', moving_machine ''t2'')],
     migration_world = \<lparr>children = [], trace = []\<rparr>\<rparr>"

lemma moving_ready:
  assumes "n \<in> {''t1'', ''t2''}" "m \<in> {''t1'', ''t2''}"
  shows "upgrade_ready (moving_manifest n) (moving_manifest m) (moving_state m n)"
  using assms by (auto simp: upgrade_ready_def moving_state_def moving_manifest_def moving_mapping_def moving_machine_def
      resting_world_def wf_os_def items_ready_def unmarked_def item_ready_def mapping_resolvable_def find_target_key_def
      find_target_property_def)

lemma upgrade_flags_demo: "upgrade_flags 0" "upgrade_flags FLAG_DELETE_STATE" "has_flag FLAG_DELETE_STATE FLAG_DELETE_STATE"
  by code_simp+

lemma migrate_upgrade_stages_witness:
  "\<exists>good s' news. migrate (demo_kernel (\<lambda>w. Exited 0)) 4 (moving_manifest ''t2'') (Some (moving_manifest ''t1'')) 2 0 1
      (moving_state ''t1'' ''t2'') = Inr (good, s')
    \<and> stages (moving_state ''t1'' ''t2'') [take_commands (moving_manifest ''t1'') (moving_state ''t1'' ''t2''),
        mset (transfer_commands ''retrieve_snapshots_from_target'' (all_machines (moving_state ''t1'' ''t2''))),
        mset (transfer_commands ''send_snapshots_to_target'' (all_machines (moving_state ''t1'' ''t2''))),
        restore_commands (moving_manifest ''t2'') (moving_state ''t1'' ''t2''),
        if has_flag 0 FLAG_DELETE_STATE then delete_commands (moving_manifest ''t1'') (moving_state ''t1'' ''t2'') else {#}]
      good s' news"
  by (rule migrate_upgrade_stages [OF demo_kernel_live moving_ready upgrade_flags_demo(1)]) (simp_all add: moving_state_def)

text \<open>
  C35: A migration that is asked to delete the obsolete state deletes, when it succeeds, the state of every
  component of the previous deployment whose machine is still there, also of those that have not moved
  and stay in use.
\<close>

theorem migrate_deletes_state_in_use:
  assumes "kernel_live K" and "upgrade_ready manifest previous s" and "upgrade_flags flags"
    and "length (all_machines s) + 1 < fuel" and "0 < l" and "has_flag flags FLAG_DELETE_STATE"
    and "migrate K fuel manifest (Some previous) l flags keep s = Inr (True, s')"
    and "m \<in> set (old_snapshots s)" and "present_machine (all_machines s) m"
  shows "\<exists>new. trace (migration_world s') = new @ trace (migration_world s)
    \<and> state_child ''--delete-state'' (services_table previous) (all_machines s) m \<in> set (spawned new)"
proof -
  from upgrade_stages [OF assms(1-5), of keep] assms(6,7) obtain news where news: "stages s [take_commands previous s,
        mset (transfer_commands ''retrieve_snapshots_from_target'' (all_machines s)),
        mset (transfer_commands ''send_snapshots_to_target'' (all_machines s)),
        restore_commands manifest s, delete_commands previous s] True s' news" by force
  then have "length news = 5" by (simp add: stages_def)
  then obtain a b c d e where l: "news = [a, b, c, d, e]" by (auto simp: numeral_eq_Suc length_Suc_conv)
  from news have "mset (spawned (news ! 4)) = (if all_succeeded (concat (take 4 news)) then delete_commands previous s else {#})"
    and ok: "all_succeeded (concat news)" and tr: "trace (migration_world s') = concat (rev news) @ trace (migration_world s)"
    by (auto simp: stages_def)
  with l have e: "mset (spawned e) = delete_commands previous s" by simp
  from assms(8) obtain i where i: "i < length (old_snapshots s)" "old_snapshots s ! i = m" by (auto simp: in_set_conv_nth)
  with assms(9) have "state_child ''--delete-state'' (services_table previous) (all_machines s) m \<in># delete_commands previous s"
    by (auto simp: delete_commands_def state_commands_def)
  with e have "state_child ''--delete-state'' (services_table previous) (all_machines s) m \<in> set (spawned e)"
    by (metis set_mset_mset)
  with tr l show ?thesis by (intro exI [of _ "concat (rev news)"]) (simp add: spawned_append)
qed

text \<open>The component stays where it is; its state is deleted nevertheless.\<close>

definition unmoved_result :: "bool \<times> migration_state" where
  "unmoved_result = (case migrate (demo_kernel (\<lambda>w. Exited 0)) 4 (moving_manifest ''t1'') (Some (moving_manifest ''t1'')) 2
     FLAG_DELETE_STATE 1 (moving_state ''t1'' ''t1'') of Inr r \<Rightarrow> r | Inl e \<Rightarrow> (False, moving_state ''t1'' ''t1''))"

lemma migrate_deletes_state_in_use_witness:
  "Exec [''ssh'', ''--delete-state'', ''--target'', ''t1'', ''--container'', ''mysql'', ''--type'', ''mysql-database'',
      ''/nix/store/db''] [] \<in> set (spawned (trace (migration_world (snd unmoved_result))))"
proof -
  have r: "migrate (demo_kernel (\<lambda>w. Exited 0)) 4 (moving_manifest ''t1'') (Some (moving_manifest ''t1'')) 2
     FLAG_DELETE_STATE 1 (moving_state ''t1'' ''t1'') = Inr (True, snd unmoved_result)" by code_simp
  have ready: "upgrade_ready (moving_manifest ''t1'') (moving_manifest ''t1'') (moving_state ''t1'' ''t1'')"
    by (rule moving_ready) simp_all
  have present: "present_machine (all_machines (moving_state ''t1'' ''t1'')) (moving_mapping ''t1'')"
    by (simp add: present_machine_def moving_state_def moving_mapping_def)
  have child: "state_child ''--delete-state'' (services_table (moving_manifest ''t1'')) (all_machines (moving_state ''t1'' ''t1''))
      (moving_mapping ''t1'') = Exec [''ssh'', ''--delete-state'', ''--target'', ''t1'', ''--container'', ''mysql'', ''--type'',
        ''mysql-database'', ''/nix/store/db''] []"
    unfolding state_child_def stating.item_child_def by code_simp
  have empty: "trace (migration_world (moving_state ''t1'' ''t1'')) = []" by (simp add: moving_state_def)
  from migrate_deletes_state_in_use [OF demo_kernel_live ready upgrade_flags_demo(2) _ _ upgrade_flags_demo(3) r, of "moving_mapping ''t1''"]
    present show ?thesis unfolding child empty by (simp add: moving_state_def)
qed

section \<open>Without an upgrade\<close>

lemma also_if_unfold:
  assumes "a s = Inr (good, s1)"
  shows "also_if a b s = (if good then b s1 else Inr (False, s1))"
  using assms by (simp add: also_if_def)

definition full_flags :: "flags \<Rightarrow> bool" where
  "full_flags flags \<longleftrightarrow> has_flag flags FLAG_NO_UPGRADE \<and> \<not> has_flag flags FLAG_DEPTH_FIRST \<and> \<not> has_flag flags FLAG_TRANSFER_ONLY"

definition full_ready :: "Manifest \<Rightarrow> Manifest option \<Rightarrow> migration_state \<Rightarrow> bool" where
  "full_ready manifest previous s \<longleftrightarrow> resting_world (migration_world s) \<and> unmarked (new_snapshots s)
     \<and> items_ready (services_table manifest) (all_machines s) (new_snapshots s)
     \<and> items_ready (services_table (case previous of None \<Rightarrow> manifest | Some p \<Rightarrow> p)) (all_machines s) (new_snapshots s)"

lemma same_but_marks_ready:
  assumes same: "same_but_marks ms ms'" and "items_ready services ts ms"
  shows "items_ready services ts ms'"
proof -
  have eq: "item_ready services ts (m\<lparr>transferred := False\<rparr>) = item_ready services ts m" for m
    by (simp add: item_ready_def)
  have "items_ready services ts (map (\<lambda>m. m\<lparr>transferred := False\<rparr>) ms') = items_ready services ts (map (\<lambda>m. m\<lparr>transferred := False\<rparr>) ms)"
    using same by (simp add: same_but_marks_def reset_snapshot_items_transferred_status_def)
  then show ?thesis using assms(2) by (simp add: items_ready_def eq)
qed

definition nothing_left :: "migration_state \<Rightarrow> migration_state \<Rightarrow> bool" where
  "nothing_left s s' \<longleftrightarrow> length (new_snapshots s') = length (new_snapshots s)
     \<and> items_to_do (all_machines s) (new_snapshots s') [0..<length (new_snapshots s)] = {}"

lemma snapshot_all_stages:
  assumes K: "kernel_live K" and w: "resting_world (migration_world s)" and flags: "full_flags flags"
    and services: "services = services_table (case previous of None \<Rightarrow> manifest | Some p \<Rightarrow> p)"
    and ready: "items_ready services (all_machines s) (new_snapshots s)" "unmarked (new_snapshots s)"
    and fuel: "length (all_machines s) + 1 < fuel" "0 < l"
  shows "goes_through (snapshot K fuel manifest previous l flags keep) s
      [state_commands ''--snapshot'' services (all_machines s) (new_snapshots s) [0..<length (new_snapshots s)],
       mset (transfer_commands ''retrieve_snapshots_from_target'' (all_machines s))] (nothing_left s)"
proof -
  let ?items = "[0..<length (new_snapshots s)]"
  let ?a = "with_new_snapshots (snapshot_services K ?items services)"
    and ?b = "\<lambda>s'. with_world (\<lambda>w. retrieve_snapshots K fuel (map ((!) (new_snapshots s)) ?items) (all_machines s') l flags w) s'"
  let ?takes = "state_commands ''--snapshot'' services (all_machines s) (new_snapshots s) ?items"
  have all: "\<forall>i \<in> set ?items. i < length (new_snapshots s)" by simp
  from new_state_stage [OF K w ready(1) all, of "''--snapshot''"] obtain good s' news where
    "?a s = Inr (good, s')" "stages s [?takes] good s' news" "items_to_do (all_machines s) (new_snapshots s') ?items = {}"
    unfolding goes_through_def items_to_do_unmarked [OF ready(2) all] snapshot_services_def [abs_def] activities completions by blast
  moreover from this(2) have "length (new_snapshots s') = length (new_snapshots s)"
    unfolding stages_def by (blast dest: same_but_marks_length)
  ultimately have "goes_through ?a s [?takes] (nothing_left s)" unfolding goes_through_def nothing_left_def by blast
  moreover have "goes_through ?b s1 [mset (transfer_commands ''retrieve_snapshots_from_target'' (all_machines s))] (nothing_left s)"
    if "stages s [?takes] True s1 news" "nothing_left s s1" for s1 news
  proof -
    from that(1) have "resting_world (migration_world s1)" "all_machines s1 = all_machines s" by (simp_all add: stages_def)
    with transfer_stages(1) [OF K, of s1 fuel l "map ((!) (new_snapshots s)) ?items" flags] fuel that(2) show ?thesis
      unfolding goes_through_def nothing_left_def by auto
  qed
  ultimately have "goes_through (also_if ?a ?b) s
      ([?takes] @ [mset (transfer_commands ''retrieve_snapshots_from_target'' (all_machines s))]) (nothing_left s)"
    by (rule goes_also_if) simp_all
  moreover have "snapshot K fuel manifest previous l flags keep s = also_if ?a ?b s"
    using flags services by (cases previous) (simp_all add: snapshot_def full_flags_def unless_def [abs_def] Let_def)
  ultimately show ?thesis by (simp add: goes_through_def)
qed

lemma restore_nothing_stages:
  assumes K: "kernel_live K" and w: "resting_world (migration_world s)" and flags: "full_flags flags"
    and ready: "items_ready (services_table manifest) (all_machines s) (new_snapshots s)"
    and none: "items_to_do (all_machines s) (new_snapshots s) [0..<length (new_snapshots s)] = {}"
    and fuel: "length (all_machines s) + 1 < fuel" "0 < l"
  shows "goes_through (restore K fuel manifest previous l flags keep) s
      [mset (transfer_commands ''send_snapshots_to_target'' (all_machines s)), {#}] (\<lambda>s'. True)"
proof -
  let ?items = "[0..<length (new_snapshots s)]"
  let ?a = "with_world (\<lambda>w. send_snapshots K fuel (map ((!) (new_snapshots s)) ?items) (all_machines s) l flags w)"
    and ?b = "with_new_snapshots (restore_services K ?items (services_table manifest))"
  have "goes_through ?a s [mset (transfer_commands ''send_snapshots_to_target'' (all_machines s))]
      (\<lambda>s'. old_snapshots s' = old_snapshots s \<and> new_snapshots s' = new_snapshots s)"
    by (rule transfer_stages(2) [OF K w fuel])
  moreover have "goes_through ?b s1 [{#}] (\<lambda>s'. True)"
    if "stages s [mset (transfer_commands ''send_snapshots_to_target'' (all_machines s))] True s1 news"
      "old_snapshots s1 = old_snapshots s \<and> new_snapshots s1 = new_snapshots s" for s1 news
  proof -
    from that(1) have s1: "resting_world (migration_world s1)" "all_machines s1 = all_machines s" by (simp_all add: stages_def)
    show ?thesis
      by (rule goes_through_weaken [OF new_state_stage [OF K, of s1 "services_table manifest" ?items "''--restore''"]])
        (use ready none s1 that(2) in \<open>simp_all add: restore_services_def [abs_def] activities completions\<close>)
  qed
  ultimately have "goes_through (also_if ?a ?b) s
      ([mset (transfer_commands ''send_snapshots_to_target'' (all_machines s))] @ [{#}]) (\<lambda>s'. True)"
    by (rule goes_also_if) simp_all
  moreover have "restore K fuel manifest previous l flags keep s = also_if ?a ?b s"
    using flags by (simp add: restore_def full_flags_def unless_def [abs_def] Let_def)
  ultimately show ?thesis by (simp add: goes_through_def)
qed

text \<open>
  C36: A migration that is to move the state of all components restores nothing: taking the snapshots leaves every
  mapping marked as transferred, and the marks are not reset before the restore, which then has
  nothing to do. It succeeds all the same if the snapshots are taken and transferred.
\<close>

theorem migrate_all_restores_nothing:
  assumes K: "kernel_live K" and ready: "full_ready manifest previous s" and flags: "full_flags flags"
    and fuel: "length (all_machines s) + 1 < fuel" "0 < l"
  shows "\<exists>good s' news. migrate K fuel manifest previous l flags keep s = Inr (good, s')
    \<and> stages s [state_commands ''--snapshot'' (services_table (case previous of None \<Rightarrow> manifest | Some p \<Rightarrow> p))
          (all_machines s) (new_snapshots s) [0..<length (new_snapshots s)],
        mset (transfer_commands ''retrieve_snapshots_from_target'' (all_machines s)),
        mset (transfer_commands ''send_snapshots_to_target'' (all_machines s)), {#}] good s' news"
proof -
  let ?services = "services_table (case previous of None \<Rightarrow> manifest | Some p \<Rightarrow> p)"
  let ?a = "snapshot K fuel manifest previous l flags keep" and ?b = "restore K fuel manifest previous l flags keep"
  let ?c = "case previous of None \<Rightarrow> (\<lambda>s. Inr (True, s)) | Some p \<Rightarrow> unless (\<not> has_flag flags FLAG_DELETE_STATE \<or> has_flag flags FLAG_NO_UPGRADE)
      (with_old_snapshots (delete_obsolete_state K (services_table p)))"
  let ?takes = "state_commands ''--snapshot'' ?services (all_machines s) (new_snapshots s) [0..<length (new_snapshots s)]"
  let ?css = "[?takes, mset (transfer_commands ''retrieve_snapshots_from_target'' (all_machines s))]"
    and ?css' = "[mset (transfer_commands ''send_snapshots_to_target'' (all_machines s)), {#}]"
  have c: "?c = (\<lambda>s. Inr (True, s))"
    using flags by (auto simp: full_flags_def unless_def split: option.split)
  have ready': "resting_world (migration_world s)" "unmarked (new_snapshots s)"
    "items_ready (services_table manifest) (all_machines s) (new_snapshots s)" "items_ready ?services (all_machines s) (new_snapshots s)"
    using ready by (simp_all add: full_ready_def)
  have b: "goes_through (also_if ?b ?c) s1 ?css' (\<lambda>s'. True)" if s1: "stages s ?css True s1 news" "nothing_left s s1" for s1 news
  proof -
    from s1(1) have 1: "resting_world (migration_world s1)" "all_machines s1 = all_machines s"
      "same_but_marks (new_snapshots s) (new_snapshots s1)" by (simp_all add: stages_def)
    have "goes_through ?b s1 ?css' (\<lambda>s'. True)"
      using restore_nothing_stages [OF K 1(1) flags, of manifest fuel l previous keep] s1(2) 1(2) fuel
        same_but_marks_ready [OF 1(3) ready'(3)] by (simp add: nothing_left_def)
    then obtain good s2 news' where "?b s1 = Inr (good, s2)" "stages s1 ?css' good s2 news'" unfolding goes_through_def by blast
    then show ?thesis unfolding goes_through_def c by (intro exI [of _ good] exI [of _ s2] exI [of _ news']) (simp add: also_if_def)
  qed
  have "goes_through (also_if ?a (also_if ?b ?c)) s (?css @ ?css') (\<lambda>s'. True)"
    by (rule goes_also_if [OF snapshot_all_stages [OF K ready'(1) flags refl ready'(4,2) fuel] b]) auto
  then show ?thesis unfolding migrate_def goes_through_def by simp
qed

lemma full_ready_demo: "full_ready (moving_manifest ''t1'') None (moving_state ''t1'' ''t1'')"
  using moving_ready [of "''t1''" "''t1''"] by (simp add: full_ready_def upgrade_ready_def)

definition moved_all :: "bool \<times> migration_state" where
  "moved_all = (case migrate (demo_kernel (\<lambda>w. Exited 0)) 4 (moving_manifest ''t1'') None 2 FLAG_NO_UPGRADE 1
     (moving_state ''t1'' ''t1'') of Inr r \<Rightarrow> r | Inl e \<Rightarrow> (False, moving_state ''t1'' ''t1''))"

lemma migrate_all_restores_nothing_witness:
  "\<exists>good s' news. migrate (demo_kernel (\<lambda>w. Exited 0)) 4 (moving_manifest ''t1'') None 2 FLAG_NO_UPGRADE 1 (moving_state ''t1'' ''t1'')
      = Inr (good, s') \<and> length news = 4 \<and> spawned (news ! 3) = [] \<and> fst moved_all
    \<and> trace (migration_world s') = concat (rev news)"
proof -
  have flags: "full_flags FLAG_NO_UPGRADE" by code_simp
  have ok: "fst moved_all" by code_simp
  have fuel: "length (all_machines (moving_state ''t1'' ''t1'')) + 1 < 4" by (simp add: moving_state_def)
  have l: "0 < (2 :: nat)" by simp
  from migrate_all_restores_nothing [OF demo_kernel_live full_ready_demo flags fuel l, of "\<lambda>w. Exited 0" 1]
  obtain good s' news css where
    r: "migrate (demo_kernel (\<lambda>w. Exited 0)) 4 (moving_manifest ''t1'') None 2 FLAG_NO_UPGRADE 1 (moving_state ''t1'' ''t1'') = Inr (good, s')"
    and st: "stages (moving_state ''t1'' ''t1'') css good s' news" and "\<exists>a b c. css = [a, b, c, {#}]" by blast
  from this(3) have css: "length css = 4" "css ! 3 = {#}" by (auto simp: numeral_3_eq_3)
  from st css have "length news = 4" "mset (spawned (news ! 3)) = {#}" "trace (migration_world s') = concat (rev news)"
    unfolding stages_def by (simp_all add: moving_state_def)
  with r ok show ?thesis by auto
qed

end
