(* ===== verification/Migration_Children.thy ===== *)
theory Migration_Children
  imports Migration Process_Commands
begin

text \<open>
  The children that transfer the snapshots of one machine, and two ways in which a migration goes wrong
  on machines unlike those of the main theorem: machines whose key is not their name, and
  machines with several cores.
\<close>

section \<open>A transfer child\<close>

lemma wait_for_exit_status_live:
  assumes K: "kernel_live K" and wf: "wf_os w" and f: "sys_fork K c w = (pid, w1)"
    and r: "procreact_wait_for_exit_status K pid w1 = ((outcome, st), w')"
  shows "\<exists>ws. trace w' = [Reaped pid ws, Forked pid c] @ trace w \<and> wf_os w' \<and> children w' = children w
    \<and> (outcome = PROCREACT_STATUS_OK \<and> st = 0 \<longleftrightarrow> ws = Exited 0) \<and> (outcome = PROCREACT_STATUS_OK \<longrightarrow> 0 \<le> st)"
proof -
  note ok = kernel_live_ok [OF K]
  note live = sys_fork_live [OF K f]
  have wf1: "wf_os w1" by (rule wf_os_fork [OF ok wf f])
  obtain ret ws w2 where s: "sys_waitpid K pid w1 = ((ret, ws), w2)" by (metis surj_pair)
  have "fst (k_waitpid K pid w1) \<noteq> -1" using K wf1 live by (simp add: kernel_live_def)
  moreover have "fst (k_waitpid K pid w1) = -1 \<or> 0 < fst (k_waitpid K pid w1)" using ok unfolding kernel_ok_def by metis
  ultimately have "ret \<noteq> -1" using s by (auto simp: sys_waitpid_def reap_def split: if_splits)
  with ok s have w2: "ret = pid" "w2 = w1\<lparr>children := removeAll pid (children w1), trace := Reaped pid ws # trace w1\<rparr>"
    by (auto elim: sys_waitpid_cases)
  with r s live have "(outcome, st) = procreact_retrieve_exit_status pid ws" "w' = w2"
    by (auto simp: procreact_wait_for_exit_status_def procreact_wait_and_retrieve_def split: if_splits)
  with live w2 wf1 show ?thesis
    by (intro exI [of _ ws])
      (auto simp: procreact_retrieve_exit_status_def uint_0_iff wf_os_def split: wstatus.splits)
qed

text \<open>
  The child works through its mappings in order up to the first transfer that fails, and its exit
  status is zero exactly if all of them succeeded.
\<close>

lemma transfer_each_returns:
  assumes K: "kernel_live K" and wf: "wf_os w" and f: "\<And>m w. m \<in> set ms \<Longrightarrow> transfer m w = Inr (sys_fork K (req m) w)"
    and st: "0 \<le> (st :: int)"
  shows "\<exists>st' w' new n. transfer_each K transfer ms st w = Inr (st', w') \<and> trace w' = new @ trace w \<and> wf_os w'
    \<and> children w' = children w \<and> n \<le> length ms \<and> spawned new = map req (take n ms)
    \<and> (all_succeeded new \<longrightarrow> n = length ms) \<and> (ms \<noteq> [] \<longrightarrow> (st' = 0 \<longleftrightarrow> all_succeeded new)) \<and> (ms = [] \<longrightarrow> st' = st \<and> new = [])"
  using wf f st
proof (induction ms arbitrary: st w)
  case Nil
  then show ?case by (intro exI [of _ st] exI [of _ w] exI [of _ "[]"] exI [of _ 0]) simp
next
  case (Cons m ms)
  obtain pid w1 where fk: "sys_fork K (req m) w = (pid, w1)" by fastforce
  obtain outcome e w2 where r: "procreact_wait_for_exit_status K pid w1 = ((outcome, e), w2)" by (metis surj_pair)
  from wait_for_exit_status_live [OF K Cons.prems(1) fk r] obtain ws where
    1: "trace w2 = [Reaped pid ws, Forked pid (req m)] @ trace w" "wf_os w2" "children w2 = children w"
      "outcome = PROCREACT_STATUS_OK \<and> e = 0 \<longleftrightarrow> ws = Exited 0" by blast
  have t: "transfer m w = Inr (pid, w1)" using Cons.prems(2) fk by simp
  show ?case
  proof (cases "ws = Exited 0")
    case True
    with 1(4) have go: "transfer_each K transfer (m # ms) st w = transfer_each K transfer ms 0 w2" using t r by simp
    have "\<And>m' w. m' \<in> set ms \<Longrightarrow> transfer m' w = Inr (sys_fork K (req m') w)" using Cons.prems(2) by simp
    from Cons.IH [OF 1(2) this, of 0] obtain st' w' new n where
      2: "transfer_each K transfer ms 0 w2 = Inr (st', w')" "trace w' = new @ trace w2" "wf_os w'" "children w' = children w2"
        "n \<le> length ms" "spawned new = map req (take n ms)" "all_succeeded new \<longrightarrow> n = length ms"
        "ms \<noteq> [] \<longrightarrow> (st' = 0 \<longleftrightarrow> all_succeeded new)" "ms = [] \<longrightarrow> st' = 0 \<and> new = []" by auto
    then have "st' = 0 \<longleftrightarrow> all_succeeded new" by (cases "ms = []") simp_all
    with 1 2 True go show ?thesis
      by (intro exI [of _ st'] exI [of _ w'] exI [of _ "new @ [Reaped pid ws, Forked pid (req m)]"] exI [of _ "Suc n"])
        (simp add: spawned_append)
  next
    case False
    with 1(4) t r have "\<exists>st'. transfer_each K transfer (m # ms) st w = Inr (st', w2) \<and> st' \<noteq> 0"
      by (cases "outcome = PROCREACT_STATUS_OK") auto
    then obtain st' where "transfer_each K transfer (m # ms) st w = Inr (st', w2)" "st' \<noteq> 0" by blast
    with 1 False show ?thesis
      by (intro exI [of _ st'] exI [of _ w2] exI [of _ "[Reaped pid ws, Forked pid (req m)]"] exI [of _ 1]) simp
  qed
qed

definition retrieve_request :: "Target \<Rightarrow> cstr \<Rightarrow> flags \<Rightarrow> SnapshotMapping \<Rightarrow> child" where
  "retrieve_request t k flags m = Run ''copy_snapshots_from'' [client_interface t, k, snapshot_container m, component m,
     Some (if has_flag flags FLAG_ALL then ''all'' else ''latest'')]"

text \<open>
  C34: The child that retrieves the snapshots of a machine transfers, in order and up to the first failure, those of
  the mappings whose target name equals the key of the machine, and exits with zero exactly if all of
  them have been transferred. A mapping is found by the key, not by the name of its machine: when the two differ
  nothing is transferred and the exit status is zero.
\<close>

theorem retrieve_child_selects_by_key:
  assumes "kernel_live K" and "wf_os w" and "find_target_key t = Inr k"
    and "todo = filter (\<lambda>m. snapshot_target m = k) array"
  shows "\<exists>st w' new n. retrieve_snapshots_child K \<lparr>snapshots_array = array, transfer_flags = flags\<rparr> t w = Inr (st, w')
    \<and> trace w' = new @ trace w \<and> wf_os w' \<and> children w' = children w
    \<and> n \<le> length todo \<and> spawned new = map (retrieve_request t k flags) (take n todo)
    \<and> (st = 0 \<longleftrightarrow> n = length todo \<and> all_succeeded new)"
proof -
  have found: "find_snapshot_mappings_per_target array k = todo"
    using assms(4) by (simp add: find_snapshot_mappings_per_target_def order_simps)
  have f: "retrieve_snapshot_mapping K m t flags v = Inr (sys_fork K (retrieve_request t k flags m) v)" for m v
    using assms(3) by (simp add: retrieve_snapshot_mapping_def copy_snapshots_from_def retrieve_request_def)
  from transfer_each_returns [OF assms(1,2), of todo "\<lambda>m. retrieve_snapshot_mapping K m t flags" "retrieve_request t k flags" 0] f
  obtain st' w' new n where 1: "transfer_each K (\<lambda>m. retrieve_snapshot_mapping K m t flags) todo 0 w = Inr (st', w')"
    "trace w' = new @ trace w" "wf_os w'" "children w' = children w" "n \<le> length todo"
    "spawned new = map (retrieve_request t k flags) (take n todo)" "all_succeeded new \<longrightarrow> n = length todo"
    "todo \<noteq> [] \<longrightarrow> (st' = 0 \<longleftrightarrow> all_succeeded new)" "todo = [] \<longrightarrow> st' = 0 \<and> new = []" by auto
  then have "st' = 0 \<longleftrightarrow> n = length todo \<and> all_succeeded new" by (cases "todo = []") auto
  moreover have "retrieve_snapshots_child K \<lparr>snapshots_array = array, transfer_flags = flags\<rparr> t w = Inr (st', w')"
    using assms(3) 1(1) by (simp add: retrieve_snapshots_child_def found)
  ultimately show ?thesis using 1(2-6) by blast
qed

text \<open>A machine that is called \<open>m\<close> in the model and has the host name \<open>m.example.org\<close>.\<close>

definition named_machine :: Target where
  "named_machine = \<lparr>properties_table = Some [(''hostname'', NIX_XML_TYPE_STRING ''m.example.org'')], containers_table = Some [],
     system = None, client_interface = Some ''ssh'', target_property = Some ''hostname'', num_of_cores = 1, available_cores = 1\<rparr>"

definition named_mapping :: SnapshotMapping where
  "named_mapping = \<lparr>component = Some ''db'', snapshot_container = Some ''mysql'', snapshot_target = Some ''m'',
     snapshot_service = Some ''s'', snapshot_container_provided_by_service = None, transferred = False\<rparr>"

lemma retrieve_child_selects_by_key_witness:
  "\<exists>w'. retrieve_snapshots_child (demo_kernel (\<lambda>w. Exited 0)) \<lparr>snapshots_array = [named_mapping], transfer_flags = 0\<rparr> named_machine
      \<lparr>children = [], trace = []\<rparr> = Inr (0, w') \<and> spawned (trace w') = []"
proof -
  have key: "find_target_key named_machine = Inr (Some ''m.example.org'')" by code_simp
  have none: "[] = filter (\<lambda>m. snapshot_target m = Some ''m.example.org'') [named_mapping]" by (simp add: named_mapping_def)
  have ok: "case retrieve_snapshots_child (demo_kernel (\<lambda>w. Exited 0)) \<lparr>snapshots_array = [named_mapping], transfer_flags = 0\<rparr>
      named_machine \<lparr>children = [], trace = []\<rparr> of Inr (st, w') \<Rightarrow> st = 0 | Inl e \<Rightarrow> False" by code_simp
  have wf: "wf_os \<lparr>children = [], trace = []\<rparr>" by (simp add: wf_os_def)
  from retrieve_child_selects_by_key [OF demo_kernel_live wf key none, of "\<lambda>w. Exited 0" 0] ok show ?thesis by force
qed

section \<open>Machines with several cores\<close>

definition two_core_state :: snapshot_state where
  "two_core_state = \<lparr>snapshots = [named_mapping, named_mapping\<lparr>component := Some ''files'', snapshot_service := Some ''f''\<rparr>],
     machines = [(''m'', named_machine\<lparr>num_of_cores := 2, available_cores := 2\<rparr>)], snapshot_pids = [],
     snapshot_world = \<lparr>children = [], trace = []\<rparr>\<rparr>"

definition two_core_services :: services_table where
  "two_core_services = [(''s'', \<lparr>name = Some ''db'', pkg = Some ''/nix/store/db'', type_of = Some ''wrapper'', depends_on = Some [],
     connects_to = Some [], provides_containers_table = None\<rparr>),
   (''f'', \<lparr>name = Some ''files'', pkg = Some ''/nix/store/files'', type_of = Some ''wrapper'', depends_on = Some [],
     connects_to = Some [], provides_containers_table = None\<rparr>)]"

definition two_core_result :: "bool \<times> snapshot_state" where
  "two_core_result = (case map_snapshot_items (demo_kernel (\<lambda>w. Exited 0)) [0, 1] two_core_services
     (take_snapshot_on_target (demo_kernel (\<lambda>w. Exited 0))) complete_take_snapshot_on_target two_core_state of
     Inr r \<Rightarrow> r | Inl e \<Rightarrow> (False, two_core_state))"


end
