(* ===== verification/Default_Options.thy ===== *)
theory Default_Options
  imports NixXML_Parse
begin

text \<open>
  The options of the command-line tools: the environment variables and defaults of
  \<open>libmain/defaultoptions.c\<close>, and what the tools use of \<open>getopt_long\<close>.
\<close>

section \<open>Defaults (defaultoptions.c)\<close>

type_synonym environment = "string \<Rightarrow> cstr"

definition default_interface :: string where "default_interface = ''disnix-ssh-client''"
definition default_target_property :: string where "default_target_property = ''hostname''"
definition default_profile :: string where "default_profile = ''default''"
definition default_tmpdir :: string where "default_tmpdir = ''/tmp''"

definition check_interface_option :: "environment \<Rightarrow> cstr \<Rightarrow> cstr" where
  "check_interface_option getenv interface =
     (if interface = None
      then (case getenv ''DISNIX_CLIENT_INTERFACE'' of None \<Rightarrow> Some default_interface | Some interface_env \<Rightarrow> Some interface_env)
      else interface)"

definition check_target_property_option :: "environment \<Rightarrow> cstr \<Rightarrow> cstr" where
  "check_target_property_option getenv target_property =
     (case getenv ''DISNIX_TARGET_PROPERTY'' of
        None \<Rightarrow> Some default_target_property
      | Some target_property_env \<Rightarrow> Some target_property_env)"

definition check_profile_option :: "environment \<Rightarrow> cstr \<Rightarrow> cstr" where
  "check_profile_option getenv profile =
     (if profile = None
      then (case getenv ''DISNIX_PROFILE'' of None \<Rightarrow> Some default_profile | Some profile_env \<Rightarrow> Some profile_env)
      else profile)"

definition check_global_delete_state :: "environment \<Rightarrow> bool" where
  "check_global_delete_state getenv \<longleftrightarrow> getenv ''DISNIX_DELETE_STATE'' \<noteq> None \<and> getenv ''DISNIX_DELETE_STATE'' = Some ''1''"

definition check_tmpdir :: "environment \<Rightarrow> cstr \<Rightarrow> cstr" where
  "check_tmpdir getenv tmpdir =
     (if tmpdir = None
      then (case getenv ''TMPDIR'' of None \<Rightarrow> Some default_tmpdir | Some tmpdir_env \<Rightarrow> Some tmpdir_env)
      else tmpdir)"

definition DISNIX_DEFAULT_MAX_NUM_OF_CONCURRENT_TRANSFERS :: nat where
  "DISNIX_DEFAULT_MAX_NUM_OF_CONCURRENT_TRANSFERS = 2"
definition DISNIX_DEFAULT_KEEP :: int where "DISNIX_DEFAULT_KEEP = 1"
definition DISNIX_DEFAULT_XML :: bool where "DISNIX_DEFAULT_XML \<longleftrightarrow> False"

text \<open>An \<open>unsigned int\<close> takes the number that \<open>atoi\<close> returns modulo \<open>2 ^ 32\<close>.\<close>

definition unsigned_of :: "int \<Rightarrow> nat" where
  "unsigned_of i = nat (i mod 2 ^ 32)"

section \<open>getopt\_long\<close>

text \<open>
  What \<open>getopt_long\<close> is documented to do: options may come in any place before \<open>--\<close>, the arguments that are no
  options follow in order. A long option may be abbreviated as long as it is unambiguous, and takes its
  argument after an equals sign or from the next word; a short option takes it from the rest of the word
  or from the next one. What it cannot make sense of is reported as a question mark.
\<close>

type_synonym long_option = "string \<times> bool \<times> int"

definition BAD_OPTION :: int where "BAD_OPTION = 63"

definition option_char :: "char \<Rightarrow> int" where
  "option_char c = of_char c"

fun starts_with :: "string \<Rightarrow> string \<Rightarrow> bool" where
  "starts_with [] s = True"
| "starts_with (p # ps) [] = False"
| "starts_with (p # ps) (c # cs) = (p = c \<and> starts_with ps cs)"

fun short_option :: "string \<Rightarrow> char \<Rightarrow> bool option" where
  "short_option [] c = None"
| "short_option [o1] c = (if o1 = c then Some False else None)"
| "short_option (o1 # o2 # os) c =
     (if o1 = c then Some (o2 = CHR '':'') else short_option (if o2 = CHR '':'' then os else o2 # os) c)"

text \<open>The entry of a long option: an exact match, or the only option that it abbreviates.\<close>

definition find_long_option :: "long_option list \<Rightarrow> string \<Rightarrow> long_option option" where
  "find_long_option longs n =
     (case filter (\<lambda>(m, _). m = n) longs of
        entry # _ \<Rightarrow> Some entry
      | [] \<Rightarrow> (case filter (\<lambda>(m, _). starts_with n m) longs of
          [] \<Rightarrow> None
        | entry # others \<Rightarrow> if list_all (\<lambda>other. snd other = snd entry) others then Some entry else None))"

text \<open>The short options of one word, and whether the last one waits for its argument.\<close>

fun short_cluster :: "string \<Rightarrow> string \<Rightarrow> (int \<times> cstr) list \<times> char option" where
  "short_cluster shorts [] = ([], None)"
| "short_cluster shorts (c # cs) =
     (case (if c = CHR '':'' then None else short_option shorts c) of
        None \<Rightarrow> (case short_cluster shorts cs of (os, left) \<Rightarrow> ((BAD_OPTION, None) # os, left))
      | Some False \<Rightarrow> (case short_cluster shorts cs of (os, left) \<Rightarrow> ((option_char c, None) # os, left))
      | Some True \<Rightarrow> if cs = [] then ([], Some c) else ([(option_char c, Some cs)], None))"

definition split_equals :: "string \<Rightarrow> string \<times> cstr" where
  "split_equals s = (case dropWhile (\<lambda>c. c \<noteq> CHR ''='') s of
     [] \<Rightarrow> (s, None) | _ # v \<Rightarrow> (takeWhile (\<lambda>c. c \<noteq> CHR ''='') s, Some v))"

text \<open>What a word is.\<close>

datatype word_kind =
    Operand string
  | End_Of_Options
  | Complete_Options "(int \<times> cstr) list"
  | Needs_Argument "(int \<times> cstr) list" int

definition classify :: "string \<Rightarrow> long_option list \<Rightarrow> string \<Rightarrow> word_kind" where
  "classify shorts longs a =
     (case a of
        c1 # c2 # cs \<Rightarrow>
          if c1 \<noteq> CHR ''-'' then Operand a
          else if c2 = CHR ''-'' then
            (if cs = [] then End_Of_Options
             else (case split_equals cs of (n, value) \<Rightarrow>
               case find_long_option longs n of
                 None \<Rightarrow> Complete_Options [(BAD_OPTION, None)]
               | Some (_, has_arg, val) \<Rightarrow>
                   if has_arg then (case value of None \<Rightarrow> Needs_Argument [] val | Some v \<Rightarrow> Complete_Options [(val, Some v)])
                   else (case value of None \<Rightarrow> Complete_Options [(val, None)] | Some v \<Rightarrow> Complete_Options [(BAD_OPTION, None)])))
          else (case short_cluster shorts (c2 # cs) of (os, left) \<Rightarrow>
             case left of None \<Rightarrow> Complete_Options os | Some c \<Rightarrow> Needs_Argument os (option_char c))
      | _ \<Rightarrow> Operand a)"

fun getopt_long :: "string \<Rightarrow> long_option list \<Rightarrow> string list \<Rightarrow> (int \<times> cstr) list \<times> string list" where
  "getopt_long shorts longs [] = ([], [])"
| "getopt_long shorts longs (a # as) =
     (case classify shorts longs a of
        Operand s \<Rightarrow> (case getopt_long shorts longs as of (os, ops) \<Rightarrow> (os, s # ops))
      | End_Of_Options \<Rightarrow> ([], as)
      | Complete_Options os1 \<Rightarrow> (case getopt_long shorts longs as of (os, ops) \<Rightarrow> (os1 @ os, ops))
      | Needs_Argument os1 val \<Rightarrow>
          (case as of
             [] \<Rightarrow> (os1 @ [(BAD_OPTION, None)], [])
           | v # rest \<Rightarrow> (case getopt_long shorts longs rest of (os, ops) \<Rightarrow> (os1 @ (val, Some v) # os, ops))))"

text \<open>
  The loop over the options: the switch either changes the variables or leaves the program with an exit
  status, after printing the usage or the version.
\<close>

fun option_loop :: "(int \<Rightarrow> cstr \<Rightarrow> 'o \<Rightarrow> int + 'o) \<Rightarrow> (int \<times> cstr) list \<Rightarrow> 'o \<Rightarrow> int + 'o" where
  "option_loop switch [] opts = Inr opts"
| "option_loop switch ((c, optarg) # rest) opts =
     (case switch c optarg opts of Inl code \<Rightarrow> Inl code | Inr opts \<Rightarrow> option_loop switch rest opts)"

lemma option_loop_append:
  "option_loop switch (xs @ ys) opts = (case option_loop switch xs opts of Inl code \<Rightarrow> Inl code | Inr opts \<Rightarrow> option_loop switch ys opts)"
  by (induction switch xs opts rule: option_loop.induct) (auto split: sum.split)

section \<open>Defaults that give way\<close>

text \<open>
  A target property that was chosen on the command line has no effect: the function takes the environment variable or the
  default in its place, unlike the functions for the other options, which keep a value that is there.
\<close>

theorem target_property_option_ignored:
  "check_target_property_option getenv target_property = check_target_property_option getenv None
   \<and> check_interface_option getenv (Some i) = Some i \<and> check_profile_option getenv (Some p) = Some p \<and> check_tmpdir getenv (Some d) = Some d"
  by (simp add: check_target_property_option_def check_interface_option_def check_profile_option_def check_tmpdir_def)

end
