(* ===== verification/Run_Activity.thy ===== *)
theory Run_Activity
  imports Package_Management Profile_Locking Snapshot_Transfer Default_Options
begin

text \<open>
  \<open>disnix-run-activity\<close> (\<open>run-activity/main.c\<close>, \<open>run-activity/run-activity.c\<close>): the program at the end of every
  client interface, which carries out one activity on the machine itself. The last section shows that
  what the coordinator asks for through a client interface is what this program executes.
\<close>

section \<open>The machine\<close>

text \<open>
  What the program finds on the machine it runs on: the kernel and the file system, the environment,
  the profile manifests, the name of the machine and the result of \<open>fchmod\<close>.
\<close>

record machine =
  m_kernel :: kernel
  m_posix :: posix
  m_getenv :: environment
  m_sorts :: sorts
  m_exists :: "string \<Rightarrow> bool"
  m_parse :: "string \<Rightarrow> xmlNode option option"
  m_read :: "string \<Rightarrow> cstr"
  m_hostname :: string
  m_fchmod :: "string \<Rightarrow> int"
  m_localstatedir :: string

section \<open>Operations (run-activity.h)\<close>

datatype Operation =
    OP_NONE | OP_IMPORT | OP_EXPORT | OP_PRINT_INVALID | OP_REALISE | OP_SET | OP_QUERY_INSTALLED
  | OP_QUERY_REQUISITES | OP_COLLECT_GARBAGE | OP_ACTIVATE | OP_DEACTIVATE | OP_LOCK | OP_UNLOCK | OP_SNAPSHOT
  | OP_RESTORE | OP_QUERY_ALL_SNAPSHOTS | OP_QUERY_LATEST_SNAPSHOT | OP_PRINT_MISSING_SNAPSHOTS
  | OP_IMPORT_SNAPSHOTS | OP_RESOLVE_SNAPSHOTS | OP_CLEAN_SNAPSHOTS | OP_DELETE_STATE | OP_CAPTURE_CONFIG | OP_SHELL

definition FLAG_DELETE_OLD :: flags where "FLAG_DELETE_OLD = 0x1"

section \<open>The activities (run-activity.c)\<close>

text \<open>
  An activity has an exit status, prints a text and changes the processes and the files. Text on the
  standard error is not modelled, nor is the output of the commands, which inherit the standard output.
\<close>

type_synonym activity_outcome = "(int \<times> string \<times> os \<times> files) result"

definition check_dysnomia_activity_parameters :: "cstr \<Rightarrow> string list \<Rightarrow> cstr \<Rightarrow> cstr" where
  "check_dysnomia_activity_parameters type paths cont =
     (if type = None then None else if paths = [] then None
      else if cont = None then type else cont)"

text \<open>The lines of an array up to its NULL.\<close>

definition print_lines :: "string list \<Rightarrow> string" where
  "print_lines xs = concat (map (\<lambda>x. x @ [CHR 10]) xs)"

definition print_strv :: "kernel \<Rightarrow> strings_future \<times> os \<Rightarrow> int \<times> string \<times> os" where
  "print_strv K f =
     (case f of (future, w) \<Rightarrow>
      case procreact_future_get K future w of ((outcome, result), future', w') \<Rightarrow>
        if outcome \<noteq> Some PROCREACT_STATUS_OK then (1, '''', w')
        else (case result of None \<Rightarrow> (1, '''', w') | Some xs \<Rightarrow> (0, print_lines (argv xs), w')))"

text \<open>The exit status that \<open>fchmod\<close> is compared with is 1, although it fails with -1.\<close>

definition return_tempfile :: "machine \<Rightarrow> cstr \<Rightarrow> int option \<Rightarrow> os \<Rightarrow> (int \<times> string \<times> os) result" where
  "return_tempfile M tempfilename pid w =
     (case pid of None \<Rightarrow> Inl Uninitialised
      | Some pid \<Rightarrow>
          (case procreact_wait_for_boolean (m_kernel M) pid w of ((outcome, result), w) \<Rightarrow>
             if outcome = PROCREACT_STATUS_OK \<and> result \<noteq> 0
             then bindr (deref tempfilename) (\<lambda>f. Inr (if m_fchmod M f = 1 then (1, '''', w) else (0, f @ [CHR 10], w)))
             else Inr (0, '''', w)))"

definition statemgmt_capture_config :: "kernel \<Rightarrow> posix \<Rightarrow> string \<Rightarrow> os \<Rightarrow> files \<Rightarrow> cstr \<times> int option \<times> os \<times> files" where
  "statemgmt_capture_config K P tmpdir w l =
     (case sys_mkstemp P (tmpdir @ ''/disnix.XXXXXX'') l of
        (None, l) \<Rightarrow> (None, None, w, l)
      | (Some tempfilename, l) \<Rightarrow>
          (case sys_fork K (Output_To tempfilename
                  (execvp [Some ''dysnomia-containers'', Some ''--generate-expr'', None])) w of
             (pid, w) \<Rightarrow> (Some tempfilename, Some pid, w, l)))"

definition print_text_from_profile_manifest :: "machine \<Rightarrow> string \<Rightarrow> string \<Rightarrow> string" where
  "print_text_from_profile_manifest M localstatedir prof =
     (case m_read M (localstatedir @ ''/nix/profiles/disnix/'' @ prof @ ''/profilemanifest.xml'') of
        None \<Rightarrow> '''' | Some contents \<Rightarrow> contents)"

text \<open>Waiting for a command whose exit status is the outcome of the program.\<close>

definition exit_with :: "machine \<Rightarrow> files \<Rightarrow> int \<times> os \<Rightarrow> activity_outcome" where
  "exit_with M l f = (case f of (pid, w) \<Rightarrow>
     case procreact_wait_for_exit_status (m_kernel M) pid w of ((outcome, exit_status), w) \<Rightarrow> Inr (exit_status, '''', w, l))"

definition exit_printing :: "machine \<Rightarrow> files \<Rightarrow> strings_future \<times> os \<Rightarrow> activity_outcome" where
  "exit_printing M l f = (case print_strv (m_kernel M) f of (exit_status, out, w) \<Rightarrow> Inr (exit_status, out, w, l))"

definition run_disnix_activity_dysnomia ::
  "machine \<Rightarrow> cstr \<Rightarrow> string list \<Rightarrow> cstr \<Rightarrow> (cstr \<Rightarrow> cstr \<Rightarrow> cstr \<Rightarrow> os \<Rightarrow> int \<times> os) \<Rightarrow> os \<Rightarrow> files \<Rightarrow> activity_outcome" where
  "run_disnix_activity_dysnomia M type paths cont activity w l =
     (case check_dysnomia_activity_parameters type paths cont of
        None \<Rightarrow> Inr (1, '''', w, l)
      | Some cont \<Rightarrow> exit_with M l (activity type (array_at paths 0) (Some cont) w))"

definition run_disnix_activity_locks ::
  "machine \<Rightarrow> string \<Rightarrow> (ProfileManifest \<Rightarrow> os \<Rightarrow> files \<Rightarrow> (bool \<times> os \<times> files) result) \<Rightarrow> os \<Rightarrow> files \<Rightarrow> activity_outcome" where
  "run_disnix_activity_locks M prof locks w l =
     bindr (create_profile_manifest_from_current_deployment (m_exists M) (m_parse M) (p_root (m_posix M))
              (p_username (m_posix M)) (m_sorts M) (m_localstatedir M) prof (Some (m_hostname M))) (\<lambda>profile_manifest.
     case profile_manifest of
       None \<Rightarrow> Inr (1, '''', w, l)
     | Some pm \<Rightarrow> bindr (check_profile_manifest pm) (\<lambda>good.
         if good then bindr (locks pm w l) (\<lambda>(locked, w, l). Inr (if locked then 0 else 1, '''', w, l))
         else Inr (1, '''', w, l)))"

definition run_disnix_activity_tempfile ::
  "machine \<Rightarrow> cstr \<times> int option \<times> os \<times> files \<Rightarrow> activity_outcome" where
  "run_disnix_activity_tempfile M f = (case f of (tempfilename, pid, w, l) \<Rightarrow>
     bindr (return_tempfile M tempfilename pid w) (\<lambda>(_, out, w). Inr (0, out, w, l)))"

definition run_disnix_activity ::
  "machine \<Rightarrow> Operation \<Rightarrow> string list \<Rightarrow> flags \<Rightarrow> string \<Rightarrow> string list \<Rightarrow> cstr \<Rightarrow> cstr \<Rightarrow> cstr \<Rightarrow> int \<Rightarrow> cstr
    \<Rightarrow> os \<Rightarrow> files \<Rightarrow> activity_outcome" where
  "run_disnix_activity M operation paths flags prof arguments type cont cmpt keep command w l =
     (let K = m_kernel M; P = m_posix M; paths_length = length paths;
          tmpdir = (case m_getenv M ''TMPDIR'' of None \<Rightarrow> ''/tmp'' | Some t \<Rightarrow> t) in
      case operation of
        OP_IMPORT \<Rightarrow> if paths = [] then Inr (1, '''', w, l) else exit_with M l (pkgmgmt_import_closure K P (paths ! 0) w l)
      | OP_EXPORT \<Rightarrow> run_disnix_activity_tempfile M (pkgmgmt_export_closure K P tmpdir paths paths_length w l)
      | OP_PRINT_INVALID \<Rightarrow> exit_printing M l (pkgmgmt_print_invalid_packages K paths paths_length w)
      | OP_REALISE \<Rightarrow> exit_printing M l (pkgmgmt_realise K paths paths_length w)
      | OP_SET \<Rightarrow> if paths = [] then Inr (1, '''', w, l)
          else bindr (pkgmgmt_set_profile K P (m_localstatedir M) prof (paths ! 0) w) (exit_with M l)
      | OP_QUERY_INSTALLED \<Rightarrow> Inr (0, print_text_from_profile_manifest M (m_localstatedir M) prof, w, l)
      | OP_QUERY_REQUISITES \<Rightarrow> exit_printing M l (pkgmgmt_query_requisites K paths paths_length w)
      | OP_COLLECT_GARBAGE \<Rightarrow> exit_with M l (pkgmgmt_collect_garbage K (has_flag flags FLAG_DELETE_OLD) w)
      | OP_ACTIVATE \<Rightarrow> run_disnix_activity_dysnomia M type paths cont
          (\<lambda>type path cont. statemgmt_activate K type path cont arguments) w l
      | OP_DEACTIVATE \<Rightarrow> run_disnix_activity_dysnomia M type paths cont
          (\<lambda>type path cont. statemgmt_deactivate K type path cont arguments) w l
      | OP_DELETE_STATE \<Rightarrow> run_disnix_activity_dysnomia M type paths cont
          (\<lambda>type path cont. statemgmt_collect_garbage K type path cont arguments) w l
      | OP_SNAPSHOT \<Rightarrow> run_disnix_activity_dysnomia M type paths cont
          (\<lambda>type path cont. statemgmt_snapshot K type path cont arguments) w l
      | OP_RESTORE \<Rightarrow> run_disnix_activity_dysnomia M type paths cont
          (\<lambda>type path cont. statemgmt_restore K type path cont arguments) w l
      | OP_LOCK \<Rightarrow> run_disnix_activity_locks M prof (\<lambda>pm. acquire_profile_locks K P tmpdir pm prof) w l
      | OP_UNLOCK \<Rightarrow> run_disnix_activity_locks M prof (\<lambda>pm. release_profile_locks K P tmpdir (Some pm) prof) w l
      | OP_QUERY_ALL_SNAPSHOTS \<Rightarrow> exit_printing M l (statemgmt_query_all_snapshots K cont cmpt w)
      | OP_QUERY_LATEST_SNAPSHOT \<Rightarrow> exit_printing M l (statemgmt_query_latest_snapshot K cont cmpt w)
      | OP_PRINT_MISSING_SNAPSHOTS \<Rightarrow> exit_printing M l (statemgmt_print_missing_snapshots K paths paths_length w)
      | OP_IMPORT_SNAPSHOTS \<Rightarrow> if paths = [] then Inr (1, '''', w, l)
          else exit_with M l (statemgmt_import_snapshots K cont cmpt paths paths_length w)
      | OP_RESOLVE_SNAPSHOTS \<Rightarrow> if paths = [] then Inr (1, '''', w, l)
          else exit_printing M l (statemgmt_resolve_snapshots K paths paths_length w)
      | OP_CLEAN_SNAPSHOTS \<Rightarrow>
          (let cont = (if cont = None then Some '''' else cont); cmpt = (if cmpt = None then Some '''' else cmpt)
           in exit_with M l (statemgmt_clean_snapshots K keep cont cmpt w))
      | OP_CAPTURE_CONFIG \<Rightarrow> run_disnix_activity_tempfile M (statemgmt_capture_config K P tmpdir w l)
      | OP_SHELL \<Rightarrow> run_disnix_activity_dysnomia M type paths cont
          (\<lambda>type path cont. statemgmt_shell K type path cont arguments command) w l
      | OP_NONE \<Rightarrow> Inr (1, '''', w, l))"

section \<open>The options (main.c)\<close>

record activity_options =
  o_operation :: Operation
  o_profile :: cstr
  o_type :: cstr
  o_container :: cstr
  o_component :: cstr
  o_command :: cstr
  o_arguments :: "string list"
  o_flags :: flags
  o_keep :: int

definition initial_activity_options :: activity_options where
  "initial_activity_options = \<lparr>o_operation = OP_NONE, o_profile = None, o_type = None, o_container = None,
     o_component = None, o_command = None, o_arguments = [], o_flags = 0, o_keep = 1\<rparr>"

definition activity_operations :: "(string \<times> char \<times> Operation) list" where
  "activity_operations =
     [(''import'', CHR ''I'', OP_IMPORT), (''export'', CHR ''E'', OP_EXPORT),
      (''print-invalid'', CHR ''P'', OP_PRINT_INVALID), (''realise'', CHR ''r'', OP_REALISE),
      (''set'', CHR ''S'', OP_SET), (''query-installed'', CHR ''q'', OP_QUERY_INSTALLED),
      (''query-requisites'', CHR ''Q'', OP_QUERY_REQUISITES), (''collect-garbage'', CHR ''W'', OP_COLLECT_GARBAGE),
      (''activate'', CHR ''A'', OP_ACTIVATE), (''deactivate'', CHR ''D'', OP_DEACTIVATE),
      (''delete-state'', CHR ''F'', OP_DELETE_STATE), (''lock'', CHR ''L'', OP_LOCK), (''unlock'', CHR ''U'', OP_UNLOCK),
      (''snapshot'', CHR ''f'', OP_SNAPSHOT), (''restore'', CHR ''g'', OP_RESTORE),
      (''query-all-snapshots'', CHR ''B'', OP_QUERY_ALL_SNAPSHOTS),
      (''query-latest-snapshot'', CHR ''s'', OP_QUERY_LATEST_SNAPSHOT),
      (''print-missing-snapshots'', CHR ''M'', OP_PRINT_MISSING_SNAPSHOTS),
      (''import-snapshots'', CHR ''Y'', OP_IMPORT_SNAPSHOTS), (''resolve-snapshots'', CHR ''Z'', OP_RESOLVE_SNAPSHOTS),
      (''clean-snapshots'', CHR ''e'', OP_CLEAN_SNAPSHOTS), (''capture-config'', CHR ''1'', OP_CAPTURE_CONFIG),
      (''shell'', CHR ''2'', OP_SHELL)]"

definition activity_long_options :: "long_option list" where
  "activity_long_options =
     map (\<lambda>(n, c, _). (n, False, option_char c)) activity_operations
     @ [(''target'', True, option_char CHR ''t''), (''localfile'', False, option_char CHR ''l''),
        (''remotefile'', False, option_char CHR ''R''), (''profile'', True, option_char CHR ''p''),
        (''delete-old'', False, option_char CHR ''d''), (''type'', True, option_char CHR ''T''),
        (''arguments'', True, option_char CHR ''a''), (''container'', True, option_char CHR ''C''),
        (''component'', True, option_char CHR ''c''), (''keep'', True, option_char CHR ''z''),
        (''command'', True, option_char CHR ''3''), (''help'', False, option_char CHR ''h''),
        (''version'', False, option_char CHR ''v'')]"

definition activity_short_options :: string where
  "activity_short_options = ''rqt:p:dC:c:hv''"

definition option_operation :: "int \<Rightarrow> Operation option" where
  "option_operation c = map_of (map (\<lambda>(n, ch, operation). (option_char ch, operation)) activity_operations) c"

text \<open>The switch; the usage and version texts are not modelled.\<close>

definition activity_switch :: "int \<Rightarrow> cstr \<Rightarrow> activity_options \<Rightarrow> int + activity_options" where
  "activity_switch c optarg opts =
     (case option_operation c of
        Some operation \<Rightarrow> Inr (opts\<lparr>o_operation := operation\<rparr>)
      | None \<Rightarrow>
          if c = option_char CHR ''p'' then Inr (opts\<lparr>o_profile := optarg\<rparr>)
          else if c = option_char CHR ''d'' then Inr (opts\<lparr>o_flags := o_flags opts OR FLAG_DELETE_OLD\<rparr>)
          else if c = option_char CHR ''T'' then Inr (opts\<lparr>o_type := optarg\<rparr>)
          else if c = option_char CHR ''a'' then
            Inr (case optarg of Some a \<Rightarrow> opts\<lparr>o_arguments := o_arguments opts @ [a]\<rparr> | None \<Rightarrow> opts)
          else if c = option_char CHR ''C'' then Inr (opts\<lparr>o_container := optarg\<rparr>)
          else if c = option_char CHR ''c'' then Inr (opts\<lparr>o_component := optarg\<rparr>)
          else if c = option_char CHR ''z'' then
            Inr (case optarg of Some a \<Rightarrow> opts\<lparr>o_keep := atoi a\<rparr> | None \<Rightarrow> opts)
          else if c = option_char CHR ''3'' then Inr (opts\<lparr>o_command := optarg\<rparr>)
          else if c = option_char CHR ''h'' then Inl 0
          else if c = BAD_OPTION then Inl 1
          else if c = option_char CHR ''v'' then Inl 0
          else Inr opts)"

text \<open>The arguments without the name of the program.\<close>

definition activity_main :: "machine \<Rightarrow> string list \<Rightarrow> os \<Rightarrow> files \<Rightarrow> activity_outcome" where
  "activity_main M args w l =
     (case getopt_long activity_short_options activity_long_options args of (os, derivation) \<Rightarrow>
      case option_loop activity_switch os initial_activity_options of
        Inl code \<Rightarrow> Inr (code, '''', w, l)
      | Inr opts \<Rightarrow>
          bindr (deref (check_profile_option (m_getenv M) (o_profile opts))) (\<lambda>prof.
            run_disnix_activity M (o_operation opts) derivation (o_flags opts) prof (o_arguments opts) (o_type opts)
              (o_container opts) (o_component opts) (o_keep opts) (o_command opts) w l))"

section \<open>What the words of a request mean\<close>

abbreviation activity_getopt :: "string list \<Rightarrow> (int \<times> cstr) list \<times> string list" where
  "activity_getopt \<equiv> getopt_long activity_short_options activity_long_options"

abbreviation activity_word :: "string \<Rightarrow> word_kind" where
  "activity_word \<equiv> classify activity_short_options activity_long_options"

named_theorems request_words

lemma operation_words [request_words]:
  "activity_word ''--activate'' = Complete_Options [(65, None)]"
  "activity_word ''--deactivate'' = Complete_Options [(68, None)]"
  "activity_word ''--snapshot'' = Complete_Options [(102, None)]"
  "activity_word ''--restore'' = Complete_Options [(103, None)]"
  "activity_word ''--delete-state'' = Complete_Options [(70, None)]"
  "activity_word ''--clean-snapshots'' = Complete_Options [(101, None)]"
  "activity_word ''--print-invalid'' = Complete_Options [(80, None)]"
  "activity_word ''--realise'' = Complete_Options [(114, None)]"
  "activity_word ''--query-requisites'' = Complete_Options [(81, None)]"
  "activity_word ''--print-missing-snapshots'' = Complete_Options [(77, None)]"
  "activity_word ''--resolve-snapshots'' = Complete_Options [(90, None)]"
  by code_simp+

lemma argument_words [request_words]:
  "activity_word ''--target'' = Needs_Argument [] 116"
  "activity_word ''--container'' = Needs_Argument [] 67"
  "activity_word ''--component'' = Needs_Argument [] 99"
  "activity_word ''--type'' = Needs_Argument [] 84"
  "activity_word ''--arguments'' = Needs_Argument [] 97"
  "activity_word ''--keep'' = Needs_Argument [] 122"
  by code_simp+

text \<open>A word is an operand unless it starts with a hyphen, as no path of a store does.\<close>

definition operand :: "string \<Rightarrow> bool" where
  "operand s \<longleftrightarrow> take 1 s \<noteq> ''-''"

lemma operand_word [request_words]: "operand s \<Longrightarrow> activity_word s = Operand s"
  by (cases s) (auto simp: operand_def classify_def split: list.split)

lemma activity_switch_cases [request_words]:
  "activity_switch 65 v opts = Inr (opts\<lparr>o_operation := OP_ACTIVATE\<rparr>)"
  "activity_switch 68 v opts = Inr (opts\<lparr>o_operation := OP_DEACTIVATE\<rparr>)"
  "activity_switch 102 v opts = Inr (opts\<lparr>o_operation := OP_SNAPSHOT\<rparr>)"
  "activity_switch 103 v opts = Inr (opts\<lparr>o_operation := OP_RESTORE\<rparr>)"
  "activity_switch 70 v opts = Inr (opts\<lparr>o_operation := OP_DELETE_STATE\<rparr>)"
  "activity_switch 101 v opts = Inr (opts\<lparr>o_operation := OP_CLEAN_SNAPSHOTS\<rparr>)"
  "activity_switch 80 v opts = Inr (opts\<lparr>o_operation := OP_PRINT_INVALID\<rparr>)"
  "activity_switch 114 v opts = Inr (opts\<lparr>o_operation := OP_REALISE\<rparr>)"
  "activity_switch 81 v opts = Inr (opts\<lparr>o_operation := OP_QUERY_REQUISITES\<rparr>)"
  "activity_switch 77 v opts = Inr (opts\<lparr>o_operation := OP_PRINT_MISSING_SNAPSHOTS\<rparr>)"
  "activity_switch 90 v opts = Inr (opts\<lparr>o_operation := OP_RESOLVE_SNAPSHOTS\<rparr>)"
  "activity_switch 116 v opts = Inr opts"
  "activity_switch 67 v opts = Inr (opts\<lparr>o_container := v\<rparr>)"
  "activity_switch 99 v opts = Inr (opts\<lparr>o_component := v\<rparr>)"
  "activity_switch 84 v opts = Inr (opts\<lparr>o_type := v\<rparr>)"
  "activity_switch 97 (Some a) opts = Inr (opts\<lparr>o_arguments := o_arguments opts @ [a]\<rparr>)"
  "activity_switch 122 (Some a) opts = Inr (opts\<lparr>o_keep := atoi a\<rparr>)"
  by (simp_all add: activity_switch_def option_operation_def activity_operations_def option_char_def BAD_OPTION_def)

lemma argument_options:
  "activity_getopt (concat (map (\<lambda>a. [''--arguments'', a]) arguments) @ rest)
     = (map (\<lambda>a. (97, Some a)) arguments @ fst (activity_getopt rest), snd (activity_getopt rest))"
  by (induction arguments) (auto simp: request_words split: prod.splits)

lemma argument_loop:
  "option_loop activity_switch (map (\<lambda>a. (97, Some a)) arguments) opts = Inr (opts\<lparr>o_arguments := o_arguments opts @ arguments\<rparr>)"
  by (induction arguments arbitrary: opts) (auto simp: request_words)

lemma operand_options: "list_all operand paths \<Longrightarrow> activity_getopt paths = ([], paths)"
  by (induction paths) (auto simp: request_words)

lemma decimal_digits:
  "list_all is_digit (decimal n) \<and> decimal n \<noteq> []
   \<and> foldl (\<lambda>n c. 10 * n + int (of_char c - 48)) m (decimal n) = m * 10 ^ length (decimal n) + int n"
proof (induction n arbitrary: m rule: decimal.induct)
  case (1 n)
  show ?case
  proof (cases "n < 10")
    case True
    then show ?thesis by (subst (1 2 3 4) decimal.simps) (auto simp: is_digit_def)
  next
    case False
    have d: "decimal n = decimal (n div 10) @ [char_of (48 + n mod 10)]" using False by (subst decimal.simps) simp
    have "is_digit (char_of (48 + n mod 10))" by (auto simp: is_digit_def)
    moreover have "int n = 10 * int (n div 10) + int (n mod 10)" by (metis mult_div_mod_eq of_nat_add of_nat_mult of_nat_numeral)
    ultimately show ?thesis using "1.IH" [OF False, of m] unfolding d by (simp add: algebra_simps)
  qed
qed

lemma atoi_format_d: "atoi (format_d i) = i"
proof -
  obtain c cs where d: "decimal (nat \<bar>i\<bar>) = c # cs" using decimal_digits [of "nat \<bar>i\<bar>"] by (cases "decimal (nat \<bar>i\<bar>)") auto
  have digit: "list_all is_digit (c # cs)" using decimal_digits [of "nat \<bar>i\<bar>"] by (simp add: d)
  then have "takeWhile is_digit (c # cs) = c # cs" by (simp add: takeWhile_eq_all_conv list_all_iff)
  then have v: "digits_value (c # cs) = \<bar>i\<bar>"
    using conjunct2 [OF decimal_digits [of "nat \<bar>i\<bar>" 0], unfolded d] by (simp only: digits_value_def mult_zero_left add_0 int_nat_eq abs_ge_zero if_True)
  from digit have "\<not> is_space c" "c \<noteq> CHR ''-''" "c \<noteq> CHR ''+''" by (auto simp: is_digit_def is_space_def)
  moreover have "\<not> is_space (CHR ''-'')" by (simp add: is_space_def)
  ultimately show ?thesis using d v by (auto simp: atoi_def format_d_def)
qed

section \<open>What is asked for is what is done\<close>

text \<open>The functions that ask a machine for an activity, and those that carry it out there.\<close>

definition activities ::
  "((kernel \<Rightarrow> cstr \<Rightarrow> cstr \<Rightarrow> cstr \<Rightarrow> cstr \<Rightarrow> string list \<Rightarrow> nat \<Rightarrow> cstr \<Rightarrow> os \<Rightarrow> int \<times> os)
    \<times> (kernel \<Rightarrow> cstr \<Rightarrow> cstr \<Rightarrow> cstr \<Rightarrow> string list \<Rightarrow> os \<Rightarrow> int \<times> os)) list" where
  "activities =
     [(statemgmt_remote_activate, statemgmt_activate), (statemgmt_remote_deactivate, statemgmt_deactivate),
      (statemgmt_remote_snapshot, statemgmt_snapshot), (statemgmt_remote_restore, statemgmt_restore),
      (statemgmt_remote_delete_state, statemgmt_collect_garbage)]"

definition path_queries ::
  "((kernel \<Rightarrow> cstr \<Rightarrow> cstr \<Rightarrow> string list \<Rightarrow> nat \<Rightarrow> os \<Rightarrow> strings_future \<times> os)
    \<times> (kernel \<Rightarrow> string list \<Rightarrow> nat \<Rightarrow> os \<Rightarrow> strings_future \<times> os)) list" where
  "path_queries =
     [(pkgmgmt_remote_print_invalid, pkgmgmt_print_invalid_packages),
      (pkgmgmt_remote_query_requisites, pkgmgmt_query_requisites),
      (statemgmt_remote_print_missing_snapshots, statemgmt_print_missing_snapshots)]"

abbreviation activity_request :: "string \<Rightarrow> string \<Rightarrow> string \<Rightarrow> string \<Rightarrow> string list \<Rightarrow> string \<Rightarrow> string list" where
  "activity_request operation tgt cont type arguments svc \<equiv>
     [operation, ''--target'', tgt, ''--container'', cont, ''--type'', type]
     @ concat (map (\<lambda>a. [''--arguments'', a]) arguments) @ [svc]"

lemma check_profile_option_there: "\<exists>p. check_profile_option getenv prof = Some p"
  by (auto simp: check_profile_option_def split: option.split)

lemma activity_request_main:
  assumes op: "activity_word operation = Complete_Options [(val, None)]" "\<And>opts. activity_switch val None opts = Inr (opts\<lparr>o_operation := operation'\<rparr>)"
    and svc: "operand svc"
    and run: "\<And>prof keep. run_disnix_activity M operation' [svc] 0 prof arguments (Some type) (Some cont) None keep None w l = r"
  shows "activity_main M (activity_request operation tgt cont type arguments svc) w l = r"
proof -
  obtain p where p: "check_profile_option (m_getenv M) None = Some p" using check_profile_option_there by blast
  show ?thesis unfolding activity_main_def
    using p svc run by (simp add: op request_words argument_options option_loop_append argument_loop initial_activity_options_def)
qed

lemma remote_activity:
  assumes "(remote, local) \<in> set activities"
  obtains operation val operation' where
    "\<And>K interface tgt cont type arguments svc w. remote K (Some interface) (Some tgt) (Some cont) (Some type) arguments (length arguments) (Some svc) w
       = sys_fork K (Exec (interface # activity_request operation tgt cont type arguments svc) []) w"
    "activity_word operation = Complete_Options [(val, None)]" "\<And>opts. activity_switch val None opts = Inr (opts\<lparr>o_operation := operation'\<rparr>)"
    "\<And>M svc type cont arguments prof keep w l. run_disnix_activity M operation' [svc] 0 prof arguments (Some type) (Some cont) None keep None w l
       = exit_with M l (local (m_kernel M) (Some type) (Some svc) (Some cont) arguments w)"
proof -
  note remote_defs = statemgmt_remote_activate_def statemgmt_remote_deactivate_def statemgmt_remote_snapshot_def
    statemgmt_remote_restore_def statemgmt_remote_delete_state_def exec_dysnomia_activity_argv
  note local_defs = run_disnix_activity_def run_disnix_activity_dysnomia_def check_dysnomia_activity_parameters_def array_at_def
  from assms consider "remote = statemgmt_remote_activate" "local = statemgmt_activate"
    | "remote = statemgmt_remote_deactivate" "local = statemgmt_deactivate"
    | "remote = statemgmt_remote_snapshot" "local = statemgmt_snapshot"
    | "remote = statemgmt_remote_restore" "local = statemgmt_restore"
    | "remote = statemgmt_remote_delete_state" "local = statemgmt_collect_garbage"
    by (auto simp: activities_def)
  then show ?thesis
  proof cases
    case 1 then show ?thesis by (intro that [of "''--activate''" 65 OP_ACTIVATE]) (simp_all add: remote_defs local_defs request_words)
  next
    case 2 then show ?thesis by (intro that [of "''--deactivate''" 68 OP_DEACTIVATE]) (simp_all add: remote_defs local_defs request_words)
  next
    case 3 then show ?thesis by (intro that [of "''--snapshot''" 102 OP_SNAPSHOT]) (simp_all add: remote_defs local_defs request_words)
  next
    case 4 then show ?thesis by (intro that [of "''--restore''" 103 OP_RESTORE]) (simp_all add: remote_defs local_defs request_words)
  next
    case 5 then show ?thesis by (intro that [of "''--delete-state''" 70 OP_DELETE_STATE]) (simp_all add: remote_defs local_defs request_words)
  qed
qed

text \<open>
  C21: Activating, deactivating, taking and restoring a snapshot and deleting the state of a service arrive on the machine as they
  were meant. The command that the coordinator starts passes the client interface a vector from which disnix-run-activity
  on the machine recovers the activity, the type, the container, the service and all arguments in order, whatever strings they
  are, so that it runs Dysnomia for that activity with just these and exits with its status. The service must not look like an option.
\<close>

theorem remote_activities_arrive:
  assumes "(remote, local) \<in> set activities" and "operand svc"
  shows "\<exists>args. remote K (Some interface) (Some tgt) (Some cont) (Some type) arguments (length arguments) (Some svc) w0
      = sys_fork K (Exec (interface # args) []) w0
    \<and> (\<forall>M w l. activity_main M args w l = exit_with M l (local (m_kernel M) (Some type) (Some svc) (Some cont) arguments w))"
  using assms(1)
proof (rule remote_activity)
  fix operation val operation'
  assume req: "\<And>K interface tgt cont type arguments svc w. remote K (Some interface) (Some tgt) (Some cont) (Some type) arguments (length arguments) (Some svc) w
      = sys_fork K (Exec (interface # activity_request operation tgt cont type arguments svc) []) w"
    and op: "activity_word operation = Complete_Options [(val, None)]" "\<And>opts. activity_switch val None opts = Inr (opts\<lparr>o_operation := operation'\<rparr>)"
    and run: "\<And>M svc type cont arguments prof keep w l. run_disnix_activity M operation' [svc] 0 prof arguments (Some type) (Some cont) None keep None w l
      = exit_with M l (local (m_kernel M) (Some type) (Some svc) (Some cont) arguments w)"
  show ?thesis
    by (intro exI [of _ "activity_request operation tgt cont type arguments svc"] conjI allI req activity_request_main [OF op assms(2)] run)
qed

theorem remote_activities_arrive_witness:
  "\<forall>K w0. \<exists>args. statemgmt_remote_snapshot K (Some ''ssh'') (Some ''m1'') (Some ''mysql'') (Some ''db'') [''--x=1'', ''''] 2 (Some ''/nix/store/db'') w0
      = sys_fork K (Exec (''ssh'' # args) []) w0
    \<and> (\<forall>M w l. activity_main M args w l
         = exit_with M l (statemgmt_snapshot (m_kernel M) (Some ''db'') (Some ''/nix/store/db'') (Some ''mysql'') [''--x=1'', ''''] w))"
proof (intro allI)
  fix K w0
  have "(statemgmt_remote_snapshot, statemgmt_snapshot) \<in> set activities" "operand ''/nix/store/db''"
    by (simp_all add: activities_def operand_def)
  from remote_activities_arrive [OF this, of K "''ssh''" "''m1''" "''mysql''" "''db''" "[''--x=1'', '''']" w0]
  show "\<exists>args. statemgmt_remote_snapshot K (Some ''ssh'') (Some ''m1'') (Some ''mysql'') (Some ''db'') [''--x=1'', ''''] 2 (Some ''/nix/store/db'') w0
      = sys_fork K (Exec (''ssh'' # args) []) w0
    \<and> (\<forall>M w l. activity_main M args w l
         = exit_with M l (statemgmt_snapshot (m_kernel M) (Some ''db'') (Some ''/nix/store/db'') (Some ''mysql'') [''--x=1'', ''''] w))"
    by (simp add: eval_nat_numeral)
qed

lemma path_query_main:
  assumes op: "activity_word operation = Complete_Options [(val, None)]" "\<And>opts. activity_switch val None opts = Inr (opts\<lparr>o_operation := operation'\<rparr>)"
    and paths: "list_all operand paths"
    and run: "\<And>prof keep. run_disnix_activity M operation' paths 0 prof [] None None None keep None w l = r"
  shows "activity_main M (operation # ''--target'' # tgt # paths) w l = r"
    "activity_main M (''--target'' # tgt # operation # paths) w l = r"
proof -
  obtain p where p: "check_profile_option (m_getenv M) None = Some p" using check_profile_option_there by blast
  show "activity_main M (operation # ''--target'' # tgt # paths) w l = r"
    unfolding activity_main_def using p run
    by (simp add: op request_words operand_options [OF paths] initial_activity_options_def)
  show "activity_main M (''--target'' # tgt # operation # paths) w l = r"
    unfolding activity_main_def using p run
    by (simp add: op request_words operand_options [OF paths] initial_activity_options_def)
qed

lemma argv_map_Some_end [simp]: "argv (map Some xs @ [None]) = xs"
  by simp

text \<open>
  The questions of the coordinator about store paths and snapshots arrive on the machine as they were asked: which
  paths are invalid, which paths a closure consists of, and which snapshots are missing. From the vector that the command passes
  to the client interface, disnix-run-activity recovers the operation and the paths in order and prints the answer that the same question gets locally.
\<close>

theorem path_queries_arrive:
  assumes "(remote, local) \<in> set path_queries" and "list_all operand paths"
  shows "\<exists>args. remote K (Some interface) (Some tgt) paths (length paths) w0 = exec_lines K (map Some (interface # args)) w0
    \<and> (\<forall>M w l. activity_main M args w l = exit_printing M l (local (m_kernel M) paths (length paths) w))"
proof -
  note main = path_query_main [OF _ _ assms(2)]
  note defs = pkgmgmt_remote_print_invalid_def pkgmgmt_remote_query_requisites_def statemgmt_remote_print_missing_snapshots_def
    execvp_def run_disnix_activity_def
  from assms(1) consider "remote = pkgmgmt_remote_print_invalid" "local = pkgmgmt_print_invalid_packages"
    | "remote = pkgmgmt_remote_query_requisites" "local = pkgmgmt_query_requisites"
    | "remote = statemgmt_remote_print_missing_snapshots" "local = statemgmt_print_missing_snapshots"
    by (auto simp: path_queries_def)
  then show ?thesis
  proof cases
    case 1
    then show ?thesis by (intro exI [of _ "''--target'' # tgt # ''--print-invalid'' # paths"])
        (simp add: defs main [of "''--print-invalid''" 80 OP_PRINT_INVALID] request_words)
  next
    case 2
    then show ?thesis by (intro exI [of _ "''--query-requisites'' # ''--target'' # tgt # paths"])
        (simp add: defs main [of "''--query-requisites''" 81 OP_QUERY_REQUISITES] request_words)
  next
    case 3
    then show ?thesis by (intro exI [of _ "''--target'' # tgt # ''--print-missing-snapshots'' # paths"])
        (simp add: defs main [of "''--print-missing-snapshots''" 77 OP_PRINT_MISSING_SNAPSHOTS] request_words)
  qed
qed

theorem path_queries_arrive_witness:
  "\<forall>K w0. \<exists>args. pkgmgmt_remote_query_requisites K (Some ''ssh'') (Some ''m1'') [''/nix/store/a''] 1 w0 = exec_lines K (map Some (''ssh'' # args)) w0
    \<and> (\<forall>M w l. activity_main M args w l = exit_printing M l (pkgmgmt_query_requisites (m_kernel M) [''/nix/store/a''] 1 w))"
proof (intro allI)
  fix K w0
  have "(pkgmgmt_remote_query_requisites, pkgmgmt_query_requisites) \<in> set path_queries" "list_all operand [''/nix/store/a'']"
    by (simp_all add: path_queries_def operand_def)
  from path_queries_arrive [OF this, of K "''ssh''" "''m1''" w0]
  show "\<exists>args. pkgmgmt_remote_query_requisites K (Some ''ssh'') (Some ''m1'') [''/nix/store/a''] 1 w0 = exec_lines K (map Some (''ssh'' # args)) w0
    \<and> (\<forall>M w l. activity_main M args w l = exit_printing M l (pkgmgmt_query_requisites (m_kernel M) [''/nix/store/a''] 1 w))" by simp
qed

text \<open>
  The request to clean snapshots arrives with its numbers: the number of generations to keep is printed in decimal by the
  coordinator and read back with atoi on the machine as the same integer, and the container and the component are the empty string there exactly
  when the coordinator gives none, so that Dysnomia filters on just what was asked for.
\<close>

theorem clean_snapshots_arrives:
  "\<exists>args. statemgmt_remote_clean_snapshots K (Some interface) (Some tgt) keep cont cmpt w0 = sys_fork K (Exec (interface # args) []) w0
    \<and> (\<forall>M w l. activity_main M args w l = exit_with M l (statemgmt_clean_snapshots (m_kernel M) keep
         (Some (case cont of None \<Rightarrow> '''' | Some c \<Rightarrow> c)) (Some (case cmpt of None \<Rightarrow> '''' | Some c \<Rightarrow> c)) w))"
proof -
  let ?args = "[''--target'', tgt, ''--clean-snapshots'', ''--keep'', format_d keep]
    @ (case cont of None \<Rightarrow> [] | Some c \<Rightarrow> [''--container'', c]) @ (case cmpt of None \<Rightarrow> [] | Some c \<Rightarrow> [''--component'', c])"
  have "statemgmt_remote_clean_snapshots K (Some interface) (Some tgt) keep cont cmpt w0 = sys_fork K (Exec (interface # ?args) []) w0"
    by (simp add: statemgmt_remote_clean_snapshots_def execvp_def optional_args_def split: option.split)
  moreover have "activity_main M ?args w l = exit_with M l (statemgmt_clean_snapshots (m_kernel M) keep
         (Some (case cont of None \<Rightarrow> '''' | Some c \<Rightarrow> c)) (Some (case cmpt of None \<Rightarrow> '''' | Some c \<Rightarrow> c)) w)" for M w l
  proof -
    obtain p where p: "check_profile_option (m_getenv M) None = Some p" using check_profile_option_there by blast
    show ?thesis unfolding activity_main_def
      by (cases cont; cases cmpt) (simp_all add: p request_words atoi_format_d initial_activity_options_def run_disnix_activity_def)
  qed
  ultimately show ?thesis by blast
qed

text \<open>
  Exporting a closure and capturing the configuration of a machine never report a failure: whenever the program returns
  from one of the two, it exits with 0, also when the command could not be started or has failed. The outcome of the function
  that waits for it is not used. The caller only sees that nothing was printed.
\<close>

theorem export_never_fails:
  "case run_disnix_activity M (if capture then OP_CAPTURE_CONFIG else OP_EXPORT) paths flags prof arguments type cont cmpt keep command w l of
     Inl _ \<Rightarrow> True | Inr (code, out, w', l') \<Rightarrow> code = 0"
  by (auto simp: run_disnix_activity_def run_disnix_activity_tempfile_def bindr_def Let_def split: prod.split sum.split)

end
