(* ===== verification/Disnix_Service.thy ===== *)
theory Disnix_Service
  imports Run_Activity
begin

text \<open>
  The D-Bus service on a machine (\<open>dbus-service\<close>): job ids (\<open>jobmanagement.c\<close>), the log file of a job (\<open>logging.c\<close>), the methods
  (\<open>methods.c\<close>, \<open>locking.c\<close>), the threads that wait for the processes and emit the signals (\<open>signaling.c\<close>), and the client that calls a
  method and waits for the signal of its job (\<open>disnix-client.c\<close>). What is written to a log file is not modelled, nor are D-Bus and the
  main loop of GLib: a method call is a step of the service, the end of a thread another.
\<close>

section \<open>The interface\<close>

text \<open>The methods that start a job, with their arguments; no string that comes over D-Bus is NULL.\<close>

datatype service_method =
    Import string | Export "string list" | Print_Invalid "string list" | Realise "string list" | Set string string
  | Query_Installed string | Query_Requisites "string list" | Collect_Garbage bool
  | Activate string string string "string list" | Deactivate string string string "string list" | Lock string | Unlock string
  | Snapshot string string string "string list" | Restore string string string "string list"
  | Query_All_Snapshots string string | Query_Latest_Snapshot string string | Print_Missing_Snapshots "string list"
  | Import_Snapshots string string "string list" | Resolve_Snapshots "string list" | Clean_Snapshots int string string
  | Delete_State string string string "string list" | Capture_Config

datatype signal = Finish int | Success int "string list" | Failure int

text \<open>A thread: the id of its job and what it waits for. The temporary file may not exist, and then the pid is uninitialised.\<close>

datatype thread =
    Boolean_Thread int int
  | Strv_Thread int strings_future
  | TempFile_Thread int cstr "int option"
  | String_Thread int string_future

text \<open>The signals emitted so far, the latest first.\<close>

record service =
  job_counter :: int
  threads :: "thread list"
  emitted :: "signal list"
  service_os :: os
  service_files :: files

definition emit :: "signal \<Rightarrow> service \<Rightarrow> service" where
  "emit sg s = s\<lparr>emitted := sg # emitted s\<rparr>"

section \<open>Job ids (jobmanagement.c)\<close>

definition numbersort :: "string \<Rightarrow> string \<Rightarrow> int" where
  "numbersort a b = (let left = atoi a; right = atoi b in if left < right then -1 else if right < left then 1 else 0)"

interpretation number_order: element_comparison numbersort atoi
  by unfold_locales (simp_all add: numbersort_def Let_def)

text \<open>The names \<open>scandir\<close> finds in the log directory, or that it fails.\<close>

definition determine_next_pid :: "string sort_function \<Rightarrow> string list option \<Rightarrow> int" where
  "determine_next_pid srt names =
     (case names of
        None \<Rightarrow> 0
      | Some ns \<Rightarrow> (let namelist = srt numbersort ns in if namelist = [] then 0 else atoi (last namelist) + 1))"

definition assign_pid :: "service \<Rightarrow> int \<times> service" where
  "assign_pid s = (job_counter s, s\<lparr>job_counter := job_counter s + 1\<rparr>)"

section \<open>Log files (logging.c)\<close>

definition open_log_file :: "machine \<Rightarrow> string \<Rightarrow> int \<Rightarrow> service \<Rightarrow> bool \<times> service" where
  "open_log_file M logdir pid s =
     (case sys_create (m_posix M) (logdir @ ''/'' @ format_d pid) (service_files s) of
        (True, l) \<Rightarrow> (True, s\<lparr>service_files := l\<rparr>)
      | (False, l) \<Rightarrow> (False, emit (Failure pid) (s\<lparr>service_files := l\<rparr>)))"

section \<open>Asynchronous operations (locking.c)\<close>

text \<open>The child has a copy of the profile manifest; its exit status is 0 if it acquired or released the locks.\<close>

definition acquire_locks_async :: "machine \<Rightarrow> string \<Rightarrow> string \<Rightarrow> os \<Rightarrow> int \<times> os" where
  "acquire_locks_async M tmpdir prof w = sys_fork (m_kernel M) (Run ''acquire_locks'' [Some tmpdir, Some prof]) w"

definition acquire_locks_child :: "machine \<Rightarrow> string \<Rightarrow> ProfileManifest \<Rightarrow> string \<Rightarrow> os \<Rightarrow> files \<Rightarrow> (int \<times> os \<times> files) result" where
  "acquire_locks_child M tmpdir pm prof w l =
     bindr (acquire_profile_locks (m_kernel M) (m_posix M) tmpdir pm prof w l) (\<lambda>(good, w, l). Inr (if good then 0 else 1, w, l))"

definition release_locks_async :: "machine \<Rightarrow> string \<Rightarrow> string \<Rightarrow> os \<Rightarrow> int \<times> os" where
  "release_locks_async M tmpdir prof w = sys_fork (m_kernel M) (Run ''release_locks'' [Some tmpdir, Some prof]) w"

definition release_locks_child :: "machine \<Rightarrow> string \<Rightarrow> ProfileManifest option \<Rightarrow> string \<Rightarrow> os \<Rightarrow> files \<Rightarrow> (int \<times> os \<times> files) result" where
  "release_locks_child M tmpdir pm prof w l =
     bindr (release_profile_locks (m_kernel M) (m_posix M) tmpdir pm prof w l) (\<lambda>(good, w, l). Inr (if good then 0 else 1, w, l))"

text \<open>The child prints the text of \<open>print_text_from_profile_manifest\<close>.\<close>

definition query_installed_services :: "machine \<Rightarrow> string \<Rightarrow> os \<Rightarrow> string_future \<times> os" where
  "query_installed_services M prof w =
     procreact_initialize_future (m_kernel M) procreact_create_string_type
       (Run ''query_installed_services'' [Some (m_localstatedir M), Some prof]) w"

section \<open>Threads (signaling.c)\<close>

definition start_thread :: "thread \<Rightarrow> os \<Rightarrow> service \<Rightarrow> service" where
  "start_thread t w s = s\<lparr>threads := threads s @ [t], service_os := w\<rparr>"

definition signal_boolean_result :: "int \<Rightarrow> int \<times> os \<Rightarrow> service \<Rightarrow> service" where
  "signal_boolean_result jid p s = (case p of (pid, w) \<Rightarrow> start_thread (Boolean_Thread jid pid) w s)"

definition signal_strv_result :: "int \<Rightarrow> strings_future \<times> os \<Rightarrow> service \<Rightarrow> service" where
  "signal_strv_result jid f s = (case f of (future, w) \<Rightarrow> start_thread (Strv_Thread jid future) w s)"

definition signal_tempfile_result :: "int \<Rightarrow> cstr \<times> int option \<times> os \<times> files \<Rightarrow> service \<Rightarrow> service" where
  "signal_tempfile_result jid f s = (case f of (tempfilename, pid, w, l) \<Rightarrow>
     (start_thread (TempFile_Thread jid tempfilename pid) w s)\<lparr>service_files := l\<rparr>)"

definition signal_string_result :: "int \<Rightarrow> string_future \<times> os \<Rightarrow> service \<Rightarrow> service" where
  "signal_string_result jid f s = (case f of (future, w) \<Rightarrow> start_thread (String_Thread jid future) w s)"

text \<open>What a thread does when it runs. A file whose process failed is not signalled at all.\<close>

definition signal_boolean_result_thread_func :: "machine \<Rightarrow> int \<Rightarrow> int \<Rightarrow> service \<Rightarrow> service" where
  "signal_boolean_result_thread_func M jid pid s =
     (case procreact_wait_for_boolean (m_kernel M) pid (service_os s) of ((outcome, result), w) \<Rightarrow>
        emit (if outcome = PROCREACT_STATUS_OK \<and> result \<noteq> 0 then Finish jid else Failure jid) (s\<lparr>service_os := w\<rparr>))"

definition signal_strv_result_thread_func :: "machine \<Rightarrow> int \<Rightarrow> strings_future \<Rightarrow> service \<Rightarrow> service" where
  "signal_strv_result_thread_func M jid future s =
     (case procreact_future_get (m_kernel M) future (service_os s) of ((outcome, result), future, w) \<Rightarrow>
        emit (case result of
                None \<Rightarrow> Failure jid
              | Some xs \<Rightarrow> if outcome \<noteq> Some PROCREACT_STATUS_OK then Failure jid else Success jid (argv xs)) (s\<lparr>service_os := w\<rparr>))"

definition evaluate_tempfile_process_thread_func :: "machine \<Rightarrow> int \<Rightarrow> cstr \<Rightarrow> int option \<Rightarrow> service \<Rightarrow> service result" where
  "evaluate_tempfile_process_thread_func M jid tempfilename pid s =
     (case pid of
        None \<Rightarrow> Inl Uninitialised
      | Some pid \<Rightarrow>
          (case procreact_wait_for_boolean (m_kernel M) pid (service_os s) of ((outcome, result), w) \<Rightarrow>
             let s = s\<lparr>service_os := w\<rparr> in
             if outcome = PROCREACT_STATUS_OK \<and> result \<noteq> 0
             then bindr (deref tempfilename) (\<lambda>f. Inr (emit (if m_fchmod M f = 1 then Failure jid else Success jid [f]) s))
             else Inr s))"

definition signal_string_result_thread_func :: "machine \<Rightarrow> int \<Rightarrow> string_future \<Rightarrow> service \<Rightarrow> service" where
  "signal_string_result_thread_func M jid future s =
     (case procreact_future_get (m_kernel M) future (service_os s) of ((outcome, result), future, w) \<Rightarrow>
        emit (case result of
                None \<Rightarrow> Failure jid
              | Some text \<Rightarrow> if outcome \<noteq> Some PROCREACT_STATUS_OK then Failure jid else Success jid [text]) (s\<lparr>service_os := w\<rparr>))"

definition run_thread :: "machine \<Rightarrow> thread \<Rightarrow> service \<Rightarrow> service result" where
  "run_thread M t s =
     (case t of
        Boolean_Thread jid pid \<Rightarrow> Inr (signal_boolean_result_thread_func M jid pid s)
      | Strv_Thread jid future \<Rightarrow> Inr (signal_strv_result_thread_func M jid future s)
      | TempFile_Thread jid tempfilename pid \<Rightarrow> evaluate_tempfile_process_thread_func M jid tempfilename pid s
      | String_Thread jid future \<Rightarrow> Inr (signal_string_result_thread_func M jid future s))"

section \<open>The methods (methods.c)\<close>

text \<open>Nothing happens if the log file of the job cannot be created, besides the signal that says so.\<close>

definition with_log_file :: "machine \<Rightarrow> string \<Rightarrow> int \<Rightarrow> (service \<Rightarrow> service result) \<Rightarrow> service \<Rightarrow> service result" where
  "with_log_file M logdir jid execute s =
     (case open_log_file M logdir jid s of (True, s) \<Rightarrow> execute s | (False, s) \<Rightarrow> Inr s)"

text \<open>The temporary directory is found when the service starts.\<close>

definition tmp_dir :: "machine \<Rightarrow> string" where
  "tmp_dir M = (case m_getenv M ''TMPDIR'' of None \<Rightarrow> ''/tmp'' | Some t \<Rightarrow> t)"

definition on_handle_get_job_id :: "service \<Rightarrow> int \<times> service" where
  "on_handle_get_job_id s = assign_pid s"

definition on_handle_import :: "machine \<Rightarrow> string \<Rightarrow> int \<Rightarrow> string \<Rightarrow> service \<Rightarrow> service result" where
  "on_handle_import M logdir jid closure = with_log_file M logdir jid (\<lambda>s.
     Inr (signal_boolean_result jid (pkgmgmt_import_closure (m_kernel M) (m_posix M) closure (service_os s) (service_files s)) s))"

definition on_handle_export :: "machine \<Rightarrow> string \<Rightarrow> int \<Rightarrow> string list \<Rightarrow> service \<Rightarrow> service result" where
  "on_handle_export M logdir jid paths = with_log_file M logdir jid (\<lambda>s.
     Inr (signal_tempfile_result jid
       (pkgmgmt_export_closure (m_kernel M) (m_posix M) (tmp_dir M) paths (length paths) (service_os s) (service_files s)) s))"

definition on_handle_print_invalid :: "machine \<Rightarrow> string \<Rightarrow> int \<Rightarrow> string list \<Rightarrow> service \<Rightarrow> service result" where
  "on_handle_print_invalid M logdir jid paths = with_log_file M logdir jid (\<lambda>s.
     Inr (signal_strv_result jid (pkgmgmt_print_invalid_packages (m_kernel M) paths (length paths) (service_os s)) s))"

definition on_handle_realise :: "machine \<Rightarrow> string \<Rightarrow> int \<Rightarrow> string list \<Rightarrow> service \<Rightarrow> service result" where
  "on_handle_realise M logdir jid paths = with_log_file M logdir jid (\<lambda>s.
     Inr (signal_strv_result jid (pkgmgmt_realise (m_kernel M) paths (length paths) (service_os s)) s))"

definition on_handle_set :: "machine \<Rightarrow> string \<Rightarrow> int \<Rightarrow> string \<Rightarrow> string \<Rightarrow> service \<Rightarrow> service result" where
  "on_handle_set M logdir jid prof path = with_log_file M logdir jid (\<lambda>s.
     bindr (pkgmgmt_set_profile (m_kernel M) (m_posix M) (m_localstatedir M) prof path (service_os s)) (\<lambda>p.
     Inr (signal_boolean_result jid p s)))"

definition on_handle_query_installed :: "machine \<Rightarrow> string \<Rightarrow> int \<Rightarrow> string \<Rightarrow> service \<Rightarrow> service result" where
  "on_handle_query_installed M logdir jid prof = with_log_file M logdir jid (\<lambda>s.
     Inr (signal_string_result jid (query_installed_services M prof (service_os s)) s))"

definition on_handle_query_requisites :: "machine \<Rightarrow> string \<Rightarrow> int \<Rightarrow> string list \<Rightarrow> service \<Rightarrow> service result" where
  "on_handle_query_requisites M logdir jid paths = with_log_file M logdir jid (\<lambda>s.
     Inr (signal_strv_result jid (pkgmgmt_query_requisites (m_kernel M) paths (length paths) (service_os s)) s))"

definition on_handle_collect_garbage :: "machine \<Rightarrow> string \<Rightarrow> int \<Rightarrow> bool \<Rightarrow> service \<Rightarrow> service result" where
  "on_handle_collect_garbage M logdir jid delete_old = with_log_file M logdir jid (\<lambda>s.
     Inr (signal_boolean_result jid (pkgmgmt_collect_garbage (m_kernel M) delete_old (service_os s)) s))"

text \<open>The function of an activity is called with the type, the component and the container; D-Bus passes them in another order.\<close>

type_synonym state_activity = "kernel \<Rightarrow> cstr \<Rightarrow> cstr \<Rightarrow> cstr \<Rightarrow> string list \<Rightarrow> os \<Rightarrow> int \<times> os"

definition on_handle_state_activity ::
  "state_activity \<Rightarrow> machine \<Rightarrow> string \<Rightarrow> int \<Rightarrow> string \<Rightarrow> string \<Rightarrow> string \<Rightarrow> string list \<Rightarrow> service \<Rightarrow> service result" where
  "on_handle_state_activity activity M logdir jid path cont type arguments = with_log_file M logdir jid (\<lambda>s.
     Inr (signal_boolean_result jid (activity (m_kernel M) (Some type) (Some path) (Some cont) arguments (service_os s)) s))"

definition on_handle_activate :: "machine \<Rightarrow> string \<Rightarrow> int \<Rightarrow> string \<Rightarrow> string \<Rightarrow> string \<Rightarrow> string list \<Rightarrow> service \<Rightarrow> service result" where
  "on_handle_activate = on_handle_state_activity statemgmt_activate"

definition on_handle_deactivate :: "machine \<Rightarrow> string \<Rightarrow> int \<Rightarrow> string \<Rightarrow> string \<Rightarrow> string \<Rightarrow> string list \<Rightarrow> service \<Rightarrow> service result" where
  "on_handle_deactivate = on_handle_state_activity statemgmt_deactivate"

definition on_handle_snapshot :: "machine \<Rightarrow> string \<Rightarrow> int \<Rightarrow> string \<Rightarrow> string \<Rightarrow> string \<Rightarrow> string list \<Rightarrow> service \<Rightarrow> service result" where
  "on_handle_snapshot = on_handle_state_activity statemgmt_snapshot"

definition on_handle_restore :: "machine \<Rightarrow> string \<Rightarrow> int \<Rightarrow> string \<Rightarrow> string \<Rightarrow> string \<Rightarrow> string list \<Rightarrow> service \<Rightarrow> service result" where
  "on_handle_restore = on_handle_state_activity statemgmt_restore"

definition on_handle_delete_state :: "machine \<Rightarrow> string \<Rightarrow> int \<Rightarrow> string \<Rightarrow> string \<Rightarrow> string \<Rightarrow> string list \<Rightarrow> service \<Rightarrow> service result" where
  "on_handle_delete_state = on_handle_state_activity statemgmt_collect_garbage"

definition current_profile_manifest :: "machine \<Rightarrow> string \<Rightarrow> ProfileManifest option result" where
  "current_profile_manifest M prof =
     create_profile_manifest_from_current_deployment (m_exists M) (m_parse M) (p_root (m_posix M)) (p_username (m_posix M)) (m_sorts M)
       (m_localstatedir M) prof (Some (m_hostname M))"

definition on_handle_lock :: "machine \<Rightarrow> string \<Rightarrow> int \<Rightarrow> string \<Rightarrow> service \<Rightarrow> service result" where
  "on_handle_lock M logdir jid prof = with_log_file M logdir jid (\<lambda>s.
     bindr (current_profile_manifest M prof) (\<lambda>profile_manifest.
     case profile_manifest of
       None \<Rightarrow> Inr (emit (Failure jid) s)
     | Some pm \<Rightarrow> bindr (check_profile_manifest pm) (\<lambda>good.
         Inr (if good then signal_boolean_result jid (acquire_locks_async M (tmp_dir M) prof (service_os s)) s else emit (Failure jid) s))))"

definition on_handle_unlock :: "machine \<Rightarrow> string \<Rightarrow> int \<Rightarrow> string \<Rightarrow> service \<Rightarrow> service result" where
  "on_handle_unlock M logdir jid prof = with_log_file M logdir jid (\<lambda>s.
     bindr (current_profile_manifest M prof) (\<lambda>profile_manifest.
     bindr (case profile_manifest of None \<Rightarrow> Inr True | Some pm \<Rightarrow> check_profile_manifest pm) (\<lambda>good.
       Inr (if good then signal_boolean_result jid (release_locks_async M (tmp_dir M) prof (service_os s)) s else emit (Failure jid) s))))"

definition on_handle_query_all_snapshots :: "machine \<Rightarrow> string \<Rightarrow> int \<Rightarrow> string \<Rightarrow> string \<Rightarrow> service \<Rightarrow> service result" where
  "on_handle_query_all_snapshots M logdir jid cont cmpt = with_log_file M logdir jid (\<lambda>s.
     Inr (signal_strv_result jid (statemgmt_query_all_snapshots (m_kernel M) (Some cont) (Some cmpt) (service_os s)) s))"

definition on_handle_query_latest_snapshot :: "machine \<Rightarrow> string \<Rightarrow> int \<Rightarrow> string \<Rightarrow> string \<Rightarrow> service \<Rightarrow> service result" where
  "on_handle_query_latest_snapshot M logdir jid cont cmpt = with_log_file M logdir jid (\<lambda>s.
     Inr (signal_strv_result jid (statemgmt_query_latest_snapshot (m_kernel M) (Some cont) (Some cmpt) (service_os s)) s))"

definition on_handle_print_missing_snapshots :: "machine \<Rightarrow> string \<Rightarrow> int \<Rightarrow> string list \<Rightarrow> service \<Rightarrow> service result" where
  "on_handle_print_missing_snapshots M logdir jid paths = with_log_file M logdir jid (\<lambda>s.
     Inr (signal_strv_result jid (statemgmt_print_missing_snapshots (m_kernel M) paths (length paths) (service_os s)) s))"

definition on_handle_import_snapshots :: "machine \<Rightarrow> string \<Rightarrow> int \<Rightarrow> string \<Rightarrow> string \<Rightarrow> string list \<Rightarrow> service \<Rightarrow> service result" where
  "on_handle_import_snapshots M logdir jid cont cmpt paths = with_log_file M logdir jid (\<lambda>s.
     Inr (signal_boolean_result jid (statemgmt_import_snapshots (m_kernel M) (Some cont) (Some cmpt) paths (length paths) (service_os s)) s))"

definition on_handle_resolve_snapshots :: "machine \<Rightarrow> string \<Rightarrow> int \<Rightarrow> string list \<Rightarrow> service \<Rightarrow> service result" where
  "on_handle_resolve_snapshots M logdir jid paths = with_log_file M logdir jid (\<lambda>s.
     Inr (signal_strv_result jid (statemgmt_resolve_snapshots (m_kernel M) paths (length paths) (service_os s)) s))"

definition on_handle_clean_snapshots :: "machine \<Rightarrow> string \<Rightarrow> int \<Rightarrow> int \<Rightarrow> string \<Rightarrow> string \<Rightarrow> service \<Rightarrow> service result" where
  "on_handle_clean_snapshots M logdir jid keep cont cmpt = with_log_file M logdir jid (\<lambda>s.
     Inr (signal_boolean_result jid (statemgmt_clean_snapshots (m_kernel M) keep (Some cont) (Some cmpt) (service_os s)) s))"

definition on_handle_capture_config :: "machine \<Rightarrow> string \<Rightarrow> int \<Rightarrow> service \<Rightarrow> service result" where
  "on_handle_capture_config M logdir jid = with_log_file M logdir jid (\<lambda>s.
     Inr (signal_tempfile_result jid (statemgmt_capture_config (m_kernel M) (m_posix M) (tmp_dir M) (service_os s) (service_files s)) s))"

text \<open>The call of a method goes to its handler.\<close>

definition handle_method :: "machine \<Rightarrow> string \<Rightarrow> int \<Rightarrow> service_method \<Rightarrow> service \<Rightarrow> service result" where
  "handle_method M logdir jid m =
     (case m of
        Import closure \<Rightarrow> on_handle_import M logdir jid closure
      | Export paths \<Rightarrow> on_handle_export M logdir jid paths
      | Print_Invalid paths \<Rightarrow> on_handle_print_invalid M logdir jid paths
      | Realise paths \<Rightarrow> on_handle_realise M logdir jid paths
      | Set prof path \<Rightarrow> on_handle_set M logdir jid prof path
      | Query_Installed prof \<Rightarrow> on_handle_query_installed M logdir jid prof
      | Query_Requisites paths \<Rightarrow> on_handle_query_requisites M logdir jid paths
      | Collect_Garbage delete_old \<Rightarrow> on_handle_collect_garbage M logdir jid delete_old
      | Activate path cont type arguments \<Rightarrow> on_handle_activate M logdir jid path cont type arguments
      | Deactivate path cont type arguments \<Rightarrow> on_handle_deactivate M logdir jid path cont type arguments
      | Lock prof \<Rightarrow> on_handle_lock M logdir jid prof
      | Unlock prof \<Rightarrow> on_handle_unlock M logdir jid prof
      | Snapshot path cont type arguments \<Rightarrow> on_handle_snapshot M logdir jid path cont type arguments
      | Restore path cont type arguments \<Rightarrow> on_handle_restore M logdir jid path cont type arguments
      | Query_All_Snapshots cont cmpt \<Rightarrow> on_handle_query_all_snapshots M logdir jid cont cmpt
      | Query_Latest_Snapshot cont cmpt \<Rightarrow> on_handle_query_latest_snapshot M logdir jid cont cmpt
      | Print_Missing_Snapshots paths \<Rightarrow> on_handle_print_missing_snapshots M logdir jid paths
      | Import_Snapshots cont cmpt paths \<Rightarrow> on_handle_import_snapshots M logdir jid cont cmpt paths
      | Resolve_Snapshots paths \<Rightarrow> on_handle_resolve_snapshots M logdir jid paths
      | Clean_Snapshots keep cont cmpt \<Rightarrow> on_handle_clean_snapshots M logdir jid keep cont cmpt
      | Delete_State path cont type arguments \<Rightarrow> on_handle_delete_state M logdir jid path cont type arguments
      | Capture_Config \<Rightarrow> on_handle_capture_config M logdir jid)"

section \<open>The service as a state machine\<close>

text \<open>
  What happens to a service, in any order: it assigns a job id, it handles a call of a method with whatever id the caller gives, or one of its
  threads runs.
\<close>

datatype step_event = Assigned int | Called int service_method | Ended thread

definition remove_nth :: "nat \<Rightarrow> 'a list \<Rightarrow> 'a list" where
  "remove_nth i xs = take i xs @ drop (Suc i) xs"

inductive service_step :: "machine \<Rightarrow> string \<Rightarrow> service \<Rightarrow> step_event \<Rightarrow> service \<Rightarrow> bool" for M logdir where
  assign: "on_handle_get_job_id s = (jid, s') \<Longrightarrow> service_step M logdir s (Assigned jid) s'"
| call: "handle_method M logdir jid m s = Inr s' \<Longrightarrow> service_step M logdir s (Called jid m) s'"
| end_thread: "i < length (threads s) \<Longrightarrow> run_thread M (threads s ! i) s = Inr s'
    \<Longrightarrow> service_step M logdir s (Ended (threads s ! i)) (s'\<lparr>threads := remove_nth i (threads s)\<rparr>)"

inductive service_run :: "machine \<Rightarrow> string \<Rightarrow> service \<Rightarrow> step_event list \<Rightarrow> service \<Rightarrow> bool" for M logdir where
  start: "service_run M logdir s [] s"
| step: "service_run M logdir s es s' \<Longrightarrow> service_step M logdir s' e s'' \<Longrightarrow> service_run M logdir s (es @ [e]) s''"

definition initial_service :: "string sort_function \<Rightarrow> string list option \<Rightarrow> os \<Rightarrow> files \<Rightarrow> service" where
  "initial_service srt names w l =
     \<lparr>job_counter = determine_next_pid srt names, threads = [], emitted = [], service_os = w, service_files = l\<rparr>"

section \<open>The client (disnix-client.c)\<close>

text \<open>
  What the client does once it has its job id: it exits, or it may call a method, and then it waits for a signal of its job. For an
  activity without a type or a component it prints an error and calls nothing, but does not exit.
\<close>

datatype client_action = Exit int | Wait_For "service_method option"

definition client_activity :: "(string \<Rightarrow> string \<Rightarrow> string \<Rightarrow> string list \<Rightarrow> service_method) \<Rightarrow> cstr \<Rightarrow> string list \<Rightarrow> cstr \<Rightarrow> string list \<Rightarrow> client_action" where
  "client_activity m type paths cont arguments =
     (case check_dysnomia_activity_parameters type paths cont of
        None \<Rightarrow> Wait_For None
      | Some c \<Rightarrow> (case type of None \<Rightarrow> Wait_For None | Some ty \<Rightarrow> Wait_For (Some (m (paths ! 0) c ty arguments))))"

text \<open>A NULL string cannot be sent: GLib refuses it with a critical warning and the call fails.\<close>

definition client_strings :: "cstr \<Rightarrow> cstr \<Rightarrow> (string \<Rightarrow> string \<Rightarrow> service_method) \<Rightarrow> client_action result" where
  "client_strings a b m = bindr (deref a) (\<lambda>a. bindr (deref b) (\<lambda>b. Inr (Wait_For (Some (m a b)))))"

definition client_operation ::
  "Operation \<Rightarrow> string list \<Rightarrow> flags \<Rightarrow> string \<Rightarrow> string list \<Rightarrow> cstr \<Rightarrow> cstr \<Rightarrow> cstr \<Rightarrow> int \<Rightarrow> client_action result" where
  "client_operation operation paths flags prof arguments type cont cmpt keep =
     (case operation of
        OP_NONE \<Rightarrow> Inr (Exit 1)
      | OP_IMPORT \<Rightarrow> Inr (if paths = [] then Exit 1 else Wait_For (Some (Import (paths ! 0))))
      | OP_EXPORT \<Rightarrow> Inr (Wait_For (Some (Export paths)))
      | OP_PRINT_INVALID \<Rightarrow> Inr (Wait_For (Some (Print_Invalid paths)))
      | OP_REALISE \<Rightarrow> Inr (Wait_For (Some (Realise paths)))
      | OP_SET \<Rightarrow> Inr (if paths = [] then Exit 1 else Wait_For (Some (Set prof (paths ! 0))))
      | OP_QUERY_INSTALLED \<Rightarrow> Inr (Wait_For (Some (Query_Installed prof)))
      | OP_QUERY_REQUISITES \<Rightarrow> Inr (Wait_For (Some (Query_Requisites paths)))
      | OP_COLLECT_GARBAGE \<Rightarrow> Inr (Wait_For (Some (Collect_Garbage (has_flag flags FLAG_DELETE_OLD))))
      | OP_ACTIVATE \<Rightarrow> Inr (client_activity Activate type paths cont arguments)
      | OP_DEACTIVATE \<Rightarrow> Inr (client_activity Deactivate type paths cont arguments)
      | OP_DELETE_STATE \<Rightarrow> Inr (client_activity Delete_State type paths cont arguments)
      | OP_SNAPSHOT \<Rightarrow> Inr (client_activity Snapshot type paths cont arguments)
      | OP_RESTORE \<Rightarrow> Inr (client_activity Restore type paths cont arguments)
      | OP_LOCK \<Rightarrow> Inr (Wait_For (Some (Lock prof)))
      | OP_UNLOCK \<Rightarrow> Inr (Wait_For (Some (Unlock prof)))
      | OP_QUERY_ALL_SNAPSHOTS \<Rightarrow> client_strings cont cmpt Query_All_Snapshots
      | OP_QUERY_LATEST_SNAPSHOT \<Rightarrow> client_strings cont cmpt Query_Latest_Snapshot
      | OP_PRINT_MISSING_SNAPSHOTS \<Rightarrow> Inr (Wait_For (Some (Print_Missing_Snapshots paths)))
      | OP_IMPORT_SNAPSHOTS \<Rightarrow>
          if paths = [] then Inr (Exit 1) else client_strings cont cmpt (\<lambda>cont cmpt. Import_Snapshots cont cmpt paths)
      | OP_RESOLVE_SNAPSHOTS \<Rightarrow> Inr (if paths = [] then Exit 1 else Wait_For (Some (Resolve_Snapshots paths)))
      | OP_CLEAN_SNAPSHOTS \<Rightarrow>
          client_strings (if cont = None then Some '''' else cont) (if cmpt = None then Some '''' else cmpt) (Clean_Snapshots keep)
      | OP_CAPTURE_CONFIG \<Rightarrow> Inr (Wait_For (Some Capture_Config))
      | OP_SHELL \<Rightarrow> Inr (Exit 1))"

text \<open>The handlers of the three signals: nothing happens for the job of another, else what is printed and the exit status.\<close>

definition client_signal :: "int \<Rightarrow> signal \<Rightarrow> (int \<times> string) option" where
  "client_signal my_pid sg =
     (case sg of
        Finish pid \<Rightarrow> if pid = my_pid then Some (0, '''') else None
      | Success pid paths \<Rightarrow> if pid = my_pid then Some (0, print_lines paths) else None
      | Failure pid \<Rightarrow> if pid = my_pid then Some (1, '''') else None)"

text \<open>The signals in their order: the first of the own job ends the client.\<close>

fun client_loop :: "int \<Rightarrow> signal list \<Rightarrow> (int \<times> string) option" where
  "client_loop my_pid [] = None"
| "client_loop my_pid (sg # sgs) = (case client_signal my_pid sg of None \<Rightarrow> client_loop my_pid sgs | Some r \<Rightarrow> Some r)"

end
