(* ===== verification/Service_Correct.thy ===== *)
theory Service_Correct
  imports Disnix_Service
begin

text \<open>
  The D-Bus service as a state machine: its job ids are fresh, every call of a method is accounted for by a signal, a pending thread or a
  file that could not be made, it has no process but those its threads wait for, and it can always come to rest. A client that is alone
  with the service gets what \<open>disnix-run-activity\<close> would have given it.
\<close>

section \<open>The handlers\<close>

text \<open>What all handlers share is the log file; what each does besides, in one table.\<close>

definition lock_reply :: "machine \<Rightarrow> int \<Rightarrow> string \<Rightarrow> service \<Rightarrow> service result" where
  "lock_reply M jid prof s =
     bindr (current_profile_manifest M prof) (\<lambda>profile_manifest.
     case profile_manifest of
       None \<Rightarrow> Inr (emit (Failure jid) s)
     | Some pm \<Rightarrow> bindr (check_profile_manifest pm) (\<lambda>good.
         Inr (if good then signal_boolean_result jid (acquire_locks_async M (tmp_dir M) prof (service_os s)) s else emit (Failure jid) s)))"

definition unlock_reply :: "machine \<Rightarrow> int \<Rightarrow> string \<Rightarrow> service \<Rightarrow> service result" where
  "unlock_reply M jid prof s =
     bindr (current_profile_manifest M prof) (\<lambda>profile_manifest.
     bindr (case profile_manifest of None \<Rightarrow> Inr True | Some pm \<Rightarrow> check_profile_manifest pm) (\<lambda>good.
       Inr (if good then signal_boolean_result jid (release_locks_async M (tmp_dir M) prof (service_os s)) s else emit (Failure jid) s)))"

definition execute_method :: "machine \<Rightarrow> int \<Rightarrow> service_method \<Rightarrow> service \<Rightarrow> service result" where
  "execute_method M jid m s =
     (let K = m_kernel M; P = m_posix M; w = service_os s; l = service_files s; tmpdir = tmp_dir M in
      case m of
        Import closure \<Rightarrow> Inr (signal_boolean_result jid (pkgmgmt_import_closure K P closure w l) s)
      | Export paths \<Rightarrow> Inr (signal_tempfile_result jid (pkgmgmt_export_closure K P tmpdir paths (length paths) w l) s)
      | Print_Invalid paths \<Rightarrow> Inr (signal_strv_result jid (pkgmgmt_print_invalid_packages K paths (length paths) w) s)
      | Realise paths \<Rightarrow> Inr (signal_strv_result jid (pkgmgmt_realise K paths (length paths) w) s)
      | Set prof path \<Rightarrow> bindr (pkgmgmt_set_profile K P (m_localstatedir M) prof path w) (\<lambda>p. Inr (signal_boolean_result jid p s))
      | Query_Installed prof \<Rightarrow> Inr (signal_string_result jid (query_installed_services M prof w) s)
      | Query_Requisites paths \<Rightarrow> Inr (signal_strv_result jid (pkgmgmt_query_requisites K paths (length paths) w) s)
      | Collect_Garbage delete_old \<Rightarrow> Inr (signal_boolean_result jid (pkgmgmt_collect_garbage K delete_old w) s)
      | Activate path cont type arguments \<Rightarrow> Inr (signal_boolean_result jid (statemgmt_activate K (Some type) (Some path) (Some cont) arguments w) s)
      | Deactivate path cont type arguments \<Rightarrow> Inr (signal_boolean_result jid (statemgmt_deactivate K (Some type) (Some path) (Some cont) arguments w) s)
      | Lock prof \<Rightarrow> lock_reply M jid prof s
      | Unlock prof \<Rightarrow> unlock_reply M jid prof s
      | Snapshot path cont type arguments \<Rightarrow> Inr (signal_boolean_result jid (statemgmt_snapshot K (Some type) (Some path) (Some cont) arguments w) s)
      | Restore path cont type arguments \<Rightarrow> Inr (signal_boolean_result jid (statemgmt_restore K (Some type) (Some path) (Some cont) arguments w) s)
      | Query_All_Snapshots cont cmpt \<Rightarrow>
          Inr (signal_strv_result jid (statemgmt_query_all_snapshots K (Some cont) (Some cmpt) w) s)
      | Query_Latest_Snapshot cont cmpt \<Rightarrow>
          Inr (signal_strv_result jid (statemgmt_query_latest_snapshot K (Some cont) (Some cmpt) w) s)
      | Print_Missing_Snapshots paths \<Rightarrow> Inr (signal_strv_result jid (statemgmt_print_missing_snapshots K paths (length paths) w) s)
      | Import_Snapshots cont cmpt paths \<Rightarrow>
          Inr (signal_boolean_result jid (statemgmt_import_snapshots K (Some cont) (Some cmpt) paths (length paths) w) s)
      | Resolve_Snapshots paths \<Rightarrow> Inr (signal_strv_result jid (statemgmt_resolve_snapshots K paths (length paths) w) s)
      | Clean_Snapshots keep cont cmpt \<Rightarrow>
          Inr (signal_boolean_result jid (statemgmt_clean_snapshots K keep (Some cont) (Some cmpt) w) s)
      | Delete_State path cont type arguments \<Rightarrow> Inr (signal_boolean_result jid (statemgmt_collect_garbage K (Some type) (Some path) (Some cont) arguments w) s)
      | Capture_Config \<Rightarrow> Inr (signal_tempfile_result jid (statemgmt_capture_config K P tmpdir w l) s))"

lemmas handler_defs = on_handle_import_def
  on_handle_export_def
  on_handle_print_invalid_def
  on_handle_realise_def
  on_handle_set_def
  on_handle_query_installed_def
  on_handle_query_requisites_def
  on_handle_collect_garbage_def
  on_handle_state_activity_def
  on_handle_activate_def
  on_handle_deactivate_def
  on_handle_snapshot_def
  on_handle_restore_def
  on_handle_delete_state_def
  on_handle_lock_def
  on_handle_unlock_def
  on_handle_query_all_snapshots_def
  on_handle_query_latest_snapshot_def
  on_handle_print_missing_snapshots_def
  on_handle_import_snapshots_def
  on_handle_resolve_snapshots_def
  on_handle_clean_snapshots_def
  on_handle_capture_config_def

lemma handle_method_eq: "handle_method M logdir jid m s = with_log_file M logdir jid (execute_method M jid m) s"
  by (cases m) (simp_all add: handle_method_def handler_defs execute_method_def [abs_def] lock_reply_def unlock_reply_def Let_def)

section \<open>What the parts of the service do\<close>

fun thread_job :: "thread \<Rightarrow> int" where
  "thread_job (Boolean_Thread jid _) = jid"
| "thread_job (Strv_Thread jid _) = jid"
| "thread_job (TempFile_Thread jid _ _) = jid"
| "thread_job (String_Thread jid _) = jid"

fun signal_job :: "signal \<Rightarrow> int" where
  "signal_job (Finish jid) = jid"
| "signal_job (Success jid _) = jid"
| "signal_job (Failure jid) = jid"

fun file_thread :: "thread \<Rightarrow> bool" where
  "file_thread (TempFile_Thread _ _ _) = True"
| "file_thread _ = False"

text \<open>The process a thread waits for: none if the fork failed.\<close>

definition forked_pid :: "int \<Rightarrow> int list" where
  "forked_pid pid = (if pid = -1 then [] else [pid])"

fun awaited :: "thread \<Rightarrow> int list" where
  "awaited (Boolean_Thread _ pid) = forked_pid pid"
| "awaited (Strv_Thread _ future) = forked_pid (future_pid future)"
| "awaited (TempFile_Thread _ _ pid) = (case pid of None \<Rightarrow> [] | Some pid \<Rightarrow> forked_pid pid)"
| "awaited (String_Thread _ future) = forked_pid (future_pid future)"

text \<open>The futures of a thread have the type the code gives them.\<close>

fun typed_thread :: "thread \<Rightarrow> bool" where
  "typed_thread (Strv_Thread _ future) \<longleftrightarrow> future_result future = None
     \<and> finalize (future_type future) = procreact_type_finalize_string_array"
| "typed_thread (String_Thread _ future) \<longleftrightarrow> future_result future = None
     \<and> finalize (future_type future) = procreact_type_finalize_string"
| "typed_thread _ \<longleftrightarrow> True"

fun has_file :: "thread \<Rightarrow> bool" where
  "has_file (TempFile_Thread _ tempfilename pid) \<longleftrightarrow> tempfilename \<noteq> None \<and> pid \<noteq> None"
| "has_file _ \<longleftrightarrow> True"

text \<open>The children after a new process, if it could be forked.\<close>

definition new_process :: "os \<Rightarrow> int \<Rightarrow> os \<Rightarrow> bool" where
  "new_process w pid w' \<longleftrightarrow> pid = -1 \<and> children w' = children w \<or> 0 < pid \<and> pid \<notin> set (children w) \<and> children w' = pid # children w"

named_theorems service_simps

declare signal_boolean_result_def [service_simps] signal_strv_result_def [service_simps] signal_string_result_def [service_simps]
  signal_tempfile_result_def [service_simps] start_thread_def [service_simps] emit_def [service_simps]

lemma forks_sys_fork: "kernel_ok K \<Longrightarrow> sys_fork K c w = (pid, w') \<Longrightarrow> new_process w pid w'"
  by (erule sys_fork_cases) (auto simp: new_process_def)

lemma forks_future:
  assumes "kernel_ok K" and "procreact_initialize_future K type c w = (future, w')"
  shows "new_process w (future_pid future) w' \<and> future_type future = type \<and> future_result future = None"
proof -
  obtain pid w1 where f: "sys_fork K c w = (pid, w1)" by fastforce
  with forks_sys_fork [OF assms(1) f] assms(2) show ?thesis
    by (auto simp: procreact_initialize_future_def new_process_def split: if_splits)
qed

lemma exec_lines_forks:
  assumes "kernel_ok K" and "exec_lines K args w = (future, w')"
  shows "new_process w (future_pid future) w' \<and> typed_thread (Strv_Thread jid future)"
  using forks_future [OF assms(1) assms(2)] by (simp add: procreact_create_string_array_type_def)

lemma export_forks:
  assumes "kernel_ok K" and "pkgmgmt_export_closure K P tmpdir paths n w l = (tempfilename, pid, w', l')"
  shows "(case pid of None \<Rightarrow> children w' = children w | Some pid \<Rightarrow> new_process w pid w')"
  using assms forks_sys_fork [OF assms(1)]
  by (auto simp: pkgmgmt_export_closure_def split: prod.splits option.splits)

lemma capture_forks:
  assumes "kernel_ok K" and "statemgmt_capture_config K P tmpdir w l = (tempfilename, pid, w', l')"
  shows "(case pid of None \<Rightarrow> children w' = children w | Some pid \<Rightarrow> new_process w pid w')"
  using assms forks_sys_fork [OF assms(1)]
  by (auto simp: statemgmt_capture_config_def split: prod.splits option.splits)

lemma set_profile_forks: "kernel_ok K \<Longrightarrow> pkgmgmt_set_profile K P dir prof path w = Inr (pid, w') \<Longrightarrow> new_process w pid w'"
  by (auto simp: pkgmgmt_set_profile_def Let_def bindr_def new_process_def split: if_splits sum.splits dest: forks_sys_fork [unfolded new_process_def])

lemma import_forks: "kernel_ok K \<Longrightarrow> pkgmgmt_import_closure K P closure w l = (pid, w') \<Longrightarrow> new_process w pid w'"
  by (auto simp: pkgmgmt_import_closure_def new_process_def split: if_splits dest: forks_sys_fork [unfolded new_process_def])

text \<open>
  A method either starts one thread for its job, with one process at most, or signals that the job has failed; a method that makes a file
  is the only one whose thread may lack its file.
\<close>

definition starts_thread :: "int \<Rightarrow> service \<Rightarrow> service \<Rightarrow> thread \<Rightarrow> bool" where
  "starts_thread jid s s' t \<longleftrightarrow> threads s' = threads s @ [t] \<and> thread_job t = jid \<and> typed_thread t \<and> emitted s' = emitted s
     \<and> job_counter s' = job_counter s
     \<and> (awaited t = [] \<and> children (service_os s') = children (service_os s)
        \<or> (\<exists>pid. awaited t = [pid] \<and> 0 < pid \<and> pid \<notin> set (children (service_os s))
             \<and> children (service_os s') = pid # children (service_os s)))"

definition fails :: "int \<Rightarrow> service \<Rightarrow> service \<Rightarrow> bool" where
  "fails jid s s' \<longleftrightarrow> threads s' = threads s \<and> emitted s' = Failure jid # emitted s \<and> job_counter s' = job_counter s
     \<and> service_os s' = service_os s"

fun makes_file :: "service_method \<Rightarrow> bool" where
  "makes_file (Export _) = True"
| "makes_file Capture_Config = True"
| "makes_file _ = False"

lemma awaited_forks: "new_process w pid w' \<Longrightarrow> forked_pid pid = [] \<and> children w' = children w
    \<or> (\<exists>p. forked_pid pid = [p] \<and> 0 < p \<and> p \<notin> set (children w) \<and> children w' = p # children w)"
  by (auto simp: new_process_def forked_pid_def)

lemma boolean_starts: "new_process (service_os s) (fst p) (snd p) \<Longrightarrow> starts_thread jid s (signal_boolean_result jid p s) (Boolean_Thread jid (fst p))"
  by (cases p) (use awaited_forks in \<open>auto simp: starts_thread_def service_simps\<close>)

lemma strv_starts:
  "kernel_ok K \<Longrightarrow> starts_thread jid s (signal_strv_result jid (exec_lines K args (service_os s)) s) (Strv_Thread jid (fst (exec_lines K args (service_os s))))"
  by (cases "exec_lines K args (service_os s)")
    (use exec_lines_forks [of K args "service_os s"] awaited_forks in \<open>fastforce simp: starts_thread_def service_simps\<close>)

lemma string_starts:
  assumes "kernel_ok K" and "query_installed_services M prof (service_os s) = (future, w')" and "m_kernel M = K"
  shows "starts_thread jid s (signal_string_result jid (future, w') s) (String_Thread jid future)"
  using forks_future [OF assms(1), of procreact_create_string_type _ "service_os s" future w'] assms awaited_forks
  by (fastforce simp: starts_thread_def service_simps query_installed_services_def procreact_create_string_type_def)

lemma file_starts:
  assumes "(case pid of None \<Rightarrow> children w' = children (service_os s) | Some pid \<Rightarrow> new_process (service_os s) pid w')"
  shows "starts_thread jid s (signal_tempfile_result jid (tempfilename, pid, w', l') s) (TempFile_Thread jid tempfilename pid)"
  using assms awaited_forks by (fastforce simp: starts_thread_def service_simps split: option.splits)

lemma execute_method_cases:
  assumes "kernel_ok (m_kernel M)" and "execute_method M jid m s = Inr s'"
  obtains (started) t where "starts_thread jid s s' t" "file_thread t \<longleftrightarrow> makes_file m"
  | (failed) "fails jid s s'"
proof -
  note K = assms(1)
  note boolean = boolean_starts [where jid = jid and s = s]
  note strv = strv_starts [OF K, of jid s]
  have fork: "new_process (service_os s) (fst (sys_fork (m_kernel M) c (service_os s))) (snd (sys_fork (m_kernel M) c (service_os s)))" for c
    using forks_sys_fork [OF K] by (metis prod.collapse)
  note activity_defs = statemgmt_activate_def statemgmt_deactivate_def statemgmt_snapshot_def statemgmt_restore_def
    statemgmt_collect_garbage_def run_dysnomia_activity_def
  note locking = lock_reply_def unlock_reply_def acquire_locks_async_def release_locks_async_def bindr_eq_Inr
  have not_started: thesis if "s' = emit (Failure jid) s" using that by (intro failed) (simp add: fails_def emit_def)
  have forked: thesis if "s' = signal_boolean_result jid (sys_fork (m_kernel M) c (service_os s)) s" "\<not> makes_file m" for c
    using that boolean [OF fork [of c]] by (intro started) auto
  have listed: thesis if "s' = signal_strv_result jid (exec_lines (m_kernel M) args (service_os s)) s" "\<not> makes_file m" for args
    using that strv [of args] by (intro started) auto
  show thesis
  proof (cases m)
    case (Import closure)
    obtain pid w' where f: "pkgmgmt_import_closure (m_kernel M) (m_posix M) closure (service_os s) (service_files s) = (pid, w')" by fastforce
    with boolean [of "(pid, w')"] import_forks [OF K f] assms(2) Import show ?thesis by (intro started) (auto simp: execute_method_def Let_def)
  next
    case (Export paths)
    obtain tempfilename pid w' l' where f: "pkgmgmt_export_closure (m_kernel M) (m_posix M) (tmp_dir M) paths (length paths) (service_os s) (service_files s)
        = (tempfilename, pid, w', l')" by (metis prod_cases4)
    with Export assms(2) have "s' = signal_tempfile_result jid (tempfilename, pid, w', l') s" by (simp add: execute_method_def Let_def)
    with file_starts [where pid = pid and w' = w' and s = s and jid = jid and tempfilename = tempfilename and l' = l'] export_forks [OF K f] Export show ?thesis by (intro started [of "TempFile_Thread jid tempfilename pid"]) simp_all
  next
    case Capture_Config
    obtain tempfilename pid w' l' where f: "statemgmt_capture_config (m_kernel M) (m_posix M) (tmp_dir M) (service_os s) (service_files s)
        = (tempfilename, pid, w', l')" by (metis prod_cases4)
    with Capture_Config assms(2) have "s' = signal_tempfile_result jid (tempfilename, pid, w', l') s" by (simp add: execute_method_def Let_def)
    with file_starts [where pid = pid and w' = w' and s = s and jid = jid and tempfilename = tempfilename and l' = l'] capture_forks [OF K f] Capture_Config show ?thesis by (intro started [of "TempFile_Thread jid tempfilename pid"]) simp_all
  next
    case (Set prof path)
    with assms(2) obtain pid w' where f: "pkgmgmt_set_profile (m_kernel M) (m_posix M) (m_localstatedir M) prof path (service_os s) = Inr (pid, w')"
      and s': "s' = signal_boolean_result jid (pid, w') s"
      by (auto simp: execute_method_def Let_def bindr_eq_Inr)
    with boolean [of "(pid, w')"] set_profile_forks [OF K f] Set show ?thesis by (intro started) auto
  next
    case (Query_Installed prof)
    obtain future w' where f: "query_installed_services M prof (service_os s) = (future, w')" by fastforce
    with string_starts [OF K f refl] assms(2) Query_Installed show ?thesis by (intro started) (auto simp: execute_method_def Let_def)
  next
    case (Lock prof)
    with assms(2) have "s' = emit (Failure jid) s
        \<or> s' = signal_boolean_result jid (sys_fork (m_kernel M) (Run ''acquire_locks'' [Some (tmp_dir M), Some prof]) (service_os s)) s"
      by (auto simp: execute_method_def Let_def locking split: option.splits if_splits)
    with Lock show ?thesis by (auto intro: not_started forked)
  next
    case (Unlock prof)
    with assms(2) have "s' = emit (Failure jid) s
        \<or> s' = signal_boolean_result jid (sys_fork (m_kernel M) (Run ''release_locks'' [Some (tmp_dir M), Some prof]) (service_os s)) s"
      by (auto simp: execute_method_def Let_def locking split: option.splits if_splits)
    with Unlock show ?thesis by (auto intro: not_started forked)
  qed (use assms(2) in \<open>auto simp: execute_method_def Let_def activity_defs pkgmgmt_print_invalid_packages_def pkgmgmt_realise_def
      pkgmgmt_query_requisites_def pkgmgmt_collect_garbage_def statemgmt_query_all_snapshots_def statemgmt_query_latest_snapshot_def
      statemgmt_print_missing_snapshots_def statemgmt_import_snapshots_def statemgmt_resolve_snapshots_def statemgmt_clean_snapshots_def
      intro: forked listed\<close>)
qed

text \<open>If the log file cannot be created, that is all that happens.\<close>

lemma handle_method_cases:
  assumes "kernel_ok (m_kernel M)" and "handle_method M logdir jid m s = Inr s'"
  obtains (started) t where "starts_thread jid s s' t" "file_thread t \<longleftrightarrow> makes_file m"
  | (failed) "fails jid s s'"
proof (cases "open_log_file M logdir jid s")
  case (Pair opened s1)
  show thesis
  proof (cases opened)
    case True
    with Pair have same: "threads s1 = threads s" "emitted s1 = emitted s" "job_counter s1 = job_counter s" "service_os s1 = service_os s"
      by (auto simp: open_log_file_def emit_def split: prod.splits bool.splits)
    from True Pair assms(2) have "execute_method M jid m s1 = Inr s'" by (simp add: handle_method_eq with_log_file_def)
    with assms(1) show thesis
      by (rule execute_method_cases) (use started failed in \<open>auto simp: starts_thread_def fails_def same\<close>)
  next
    case False
    with Pair assms(2) show thesis
      by (intro failed) (auto simp: handle_method_eq with_log_file_def open_log_file_def fails_def emit_def split: prod.splits bool.splits)
  qed
qed

section \<open>What a thread does\<close>

definition ends :: "thread \<Rightarrow> service \<Rightarrow> service \<Rightarrow> bool" where
  "ends t s s' \<longleftrightarrow> threads s' = threads s \<and> job_counter s' = job_counter s
     \<and> (emitted s' = emitted s \<and> file_thread t \<or> (\<exists>sg. signal_job sg = thread_job t \<and> emitted s' = sg # emitted s))"

lemmas thread_funcs = signal_boolean_result_thread_func_def signal_strv_result_thread_func_def signal_string_result_thread_func_def
  evaluate_tempfile_process_thread_func_def

lemma run_thread_ends: "run_thread M t s = Inr s' \<Longrightarrow> ends t s s'"
  by (cases t) (auto simp: run_thread_def thread_funcs ends_def emit_def Let_def bindr_eq_Inr split: prod.splits option.splits if_splits)

lemma run_thread_returns: "has_file t \<Longrightarrow> \<exists>s'. run_thread M t s = Inr s'"
  by (cases t) (auto simp: run_thread_def thread_funcs Let_def bindr_def deref_def split: prod.splits option.splits)

lemma wait_reaps:
  assumes "kernel_live K" and "wf_os w" and "set (forked_pid pid) \<subseteq> set (children w)"
  shows "wf_os (snd (procreact_wait_for_boolean K pid w))
    \<and> mset (children (snd (procreact_wait_for_boolean K pid w))) = mset (children w) - mset (forked_pid pid)"
proof (cases "pid = -1")
  case True
  with assms(2) show ?thesis by (simp add: procreact_wait_for_boolean_def procreact_wait_and_retrieve_def forked_pid_def)
next
  case False
  with assms(3) have mem: "pid \<in> set (children w)" by (simp add: forked_pid_def)
  obtain ret ws w' where r: "sys_waitpid K pid w = ((ret, ws), w')" by (metis prod.collapse)
  from assms(1,2) mem have ne: "fst (k_waitpid K pid w) \<noteq> -1" by (simp add: kernel_live_def)
  from kernel_live_ok [OF assms(1)] r show ?thesis
  proof (cases rule: sys_waitpid_cases)
    case failed
    have "0 < fst (k_waitpid K pid w)" using ne kernel_live_ok [OF assms(1)] unfolding kernel_ok_def by metis
    with failed r show ?thesis by (simp add: sys_waitpid_def reap_def)
  next
    case reaped
    with assms(2) False r show ?thesis
      by (auto simp: procreact_wait_for_boolean_def procreact_wait_and_retrieve_def forked_pid_def wf_os_def distinct_removeAll
          distinct_remove1_removeAll [symmetric] split: prod.splits)
  qed
qed

lemma future_reaps:
  assumes "future_result future = None" and "finalize (future_type future) = procreact_type_finalize_string_array"
  shows "snd (snd (procreact_future_get K future w)) = snd (procreact_wait_for_boolean K (future_pid future) w)"
  using assms by (auto simp: procreact_future_get_def procreact_type_finalize_string_array_def Let_def split: prod.splits)

lemma string_future_reaps:
  assumes "future_result future = None" and "finalize (future_type future) = procreact_type_finalize_string"
  shows "snd (snd (procreact_future_get K future w)) = snd (procreact_wait_for_boolean K (future_pid future) w)"
  using assms
  by (auto simp: procreact_future_get_def procreact_type_finalize_string_def procreact_type_finalize_bytes_def Let_def split: prod.splits option.splits)

lemma run_thread_reaps:
  assumes "run_thread M t s = Inr s'" and "typed_thread t"
  shows "case awaited t of [] \<Rightarrow> service_os s' = service_os s
    | pid # pids \<Rightarrow> pids = [] \<and> service_os s' = snd (procreact_wait_for_boolean (m_kernel M) pid (service_os s))"
proof -
  have no_wait: "snd (procreact_wait_for_boolean K (-1) w) = w" for K w
    by (simp add: procreact_wait_for_boolean_def procreact_wait_and_retrieve_def)
  show ?thesis
  proof (cases t)
    case (Boolean_Thread jid pid)
    with assms(1) no_wait show ?thesis
      by (auto simp: run_thread_def thread_funcs forked_pid_def emit_def split: prod.splits) (metis no_wait snd_conv)
  next
    case (Strv_Thread jid future)
    with assms future_reaps [of future "m_kernel M" "service_os s"] no_wait [of "m_kernel M" "service_os s"] show ?thesis
      by (auto simp: run_thread_def thread_funcs forked_pid_def emit_def split: prod.splits option.splits)
  next
    case (String_Thread jid future)
    with assms string_future_reaps [of future "m_kernel M" "service_os s"] no_wait [of "m_kernel M" "service_os s"] show ?thesis
      by (auto simp: run_thread_def thread_funcs forked_pid_def emit_def split: prod.splits option.splits)
  next
    case (TempFile_Thread jid tempfilename pid)
    with assms(1) no_wait [of "m_kernel M" "service_os s"] show ?thesis
      by (auto simp: run_thread_def thread_funcs forked_pid_def emit_def Let_def bindr_eq_Inr split: prod.splits option.splits if_splits)
  qed
qed

section \<open>Histories\<close>

lemma nth_remove: "i < length xs \<Longrightarrow> xs = take i xs @ xs ! i # drop (Suc i) xs"
  by (rule id_take_nth_drop)

lemma mset_remove_nth: "i < length xs \<Longrightarrow> mset xs = add_mset (xs ! i) (mset (remove_nth i xs))"
  using arg_cong [OF nth_remove, of i xs mset] by (simp add: remove_nth_def)

lemma count_remove_nth:
  "i < length xs \<Longrightarrow> length (filter P xs) = length (filter P (remove_nth i xs)) + (if P (xs ! i) then 1 else 0)"
  using arg_cong [OF nth_remove, of i xs "\<lambda>ys. length (filter P ys)"] by (simp add: remove_nth_def)

lemma mset_concat_remove_nth:
  "i < length xs \<Longrightarrow> mset (concat (map f xs)) = mset (f (xs ! i)) + mset (concat (map f (remove_nth i xs)))"
  using arg_cong [OF nth_remove, of i xs "\<lambda>ys. mset (concat (map f ys))"] by (simp add: remove_nth_def)

definition calls_of :: "int \<Rightarrow> step_event list \<Rightarrow> nat" where
  "calls_of jid es = length (filter (\<lambda>e. case e of Called i m \<Rightarrow> i = jid | _ \<Rightarrow> False) es)"

definition file_calls_of :: "int \<Rightarrow> step_event list \<Rightarrow> nat" where
  "file_calls_of jid es = length (filter (\<lambda>e. case e of Called i m \<Rightarrow> i = jid \<and> makes_file m | _ \<Rightarrow> False) es)"

definition assigned :: "step_event list \<Rightarrow> int list" where
  "assigned es = concat (map (\<lambda>e. case e of Assigned i \<Rightarrow> [i] | _ \<Rightarrow> []) es)"

definition signals_of :: "int \<Rightarrow> service \<Rightarrow> nat" where
  "signals_of jid s = length (filter (\<lambda>sg. signal_job sg = jid) (emitted s))"

definition pending_of :: "int \<Rightarrow> service \<Rightarrow> nat" where
  "pending_of jid s = length (filter (\<lambda>t. thread_job t = jid) (threads s))"

definition pending_files_of :: "int \<Rightarrow> service \<Rightarrow> nat" where
  "pending_files_of jid s = length (filter (\<lambda>t. thread_job t = jid \<and> file_thread t) (threads s))"

lemmas counts = calls_of_def file_calls_of_def signals_of_def pending_of_def pending_files_of_def

definition accounted :: "step_event list \<Rightarrow> service \<Rightarrow> bool" where
  "accounted es s \<longleftrightarrow> (\<forall>jid. signals_of jid s + pending_of jid s \<le> calls_of jid es
     \<and> calls_of jid es + pending_files_of jid s \<le> signals_of jid s + pending_of jid s + file_calls_of jid es)"

lemma call_accounted:
  assumes "kernel_ok (m_kernel M)" and "handle_method M logdir jid m s = Inr s'" and "accounted es s"
  shows "accounted (es @ [Called jid m]) s'"
  using assms(1,2)
proof (cases rule: handle_method_cases)
  case (started t)
  with assms(3) show ?thesis by (auto simp: accounted_def starts_thread_def counts) 
next
  case failed
  with assms(3) show ?thesis by (auto simp: accounted_def fails_def counts intro: le_SucI)
qed

lemma end_accounted:
  assumes "i < length (threads s)" and "run_thread M (threads s ! i) s = Inr s'" and "accounted es s"
  shows "accounted (es @ [Ended (threads s ! i)]) (s'\<lparr>threads := remove_nth i (threads s)\<rparr>)"
proof -
  show ?thesis unfolding accounted_def
  proof
    fix jid
    let ?t = "threads s ! i" and ?ts = "remove_nth i (threads s)"
    have "pending_of jid s = length (filter (\<lambda>t. thread_job t = jid) ?ts) + (if thread_job ?t = jid then 1 else 0)"
      "pending_files_of jid s = length (filter (\<lambda>t. thread_job t = jid \<and> file_thread t) ?ts) + (if thread_job ?t = jid \<and> file_thread ?t then 1 else 0)"
      unfolding counts by (simp_all only: count_remove_nth [OF assms(1)])
    moreover have "signals_of jid s' = signals_of jid s \<and> file_thread ?t
        \<or> signals_of jid s' = signals_of jid s + (if thread_job ?t = jid then 1 else 0)"
      using run_thread_ends [OF assms(2)] by (auto simp: ends_def signals_of_def)
    moreover have "signals_of jid s + pending_of jid s \<le> calls_of jid es
        \<and> calls_of jid es + pending_files_of jid s \<le> signals_of jid s + pending_of jid s + file_calls_of jid es"
      using assms(3) by (simp add: accounted_def)
    ultimately show "signals_of jid (s'\<lparr>threads := ?ts\<rparr>) + pending_of jid (s'\<lparr>threads := ?ts\<rparr>) \<le> calls_of jid (es @ [Ended ?t])
        \<and> calls_of jid (es @ [Ended ?t]) + pending_files_of jid (s'\<lparr>threads := ?ts\<rparr>)
          \<le> signals_of jid (s'\<lparr>threads := ?ts\<rparr>) + pending_of jid (s'\<lparr>threads := ?ts\<rparr>) + file_calls_of jid (es @ [Ended ?t])"
      by (auto simp: counts split: if_splits)
  qed
qed

text \<open>The processes of the service are those its threads wait for.\<close>

definition all_awaited :: "service \<Rightarrow> bool" where
  "all_awaited s \<longleftrightarrow> wf_os (service_os s) \<and> list_all typed_thread (threads s)
     \<and> mset (children (service_os s)) = mset (concat (map awaited (threads s)))"

lemma call_awaited:
  assumes "kernel_ok (m_kernel M)" and "handle_method M logdir jid m s = Inr s'" and "all_awaited s"
  shows "all_awaited s'"
  using assms(1,2)
proof (cases rule: handle_method_cases)
  case (started t)
  with assms(3) show ?thesis by (auto simp: all_awaited_def starts_thread_def wf_os_def)
next
  case failed
  with assms(3) show ?thesis by (simp add: all_awaited_def fails_def)
qed

lemma end_awaited:
  assumes "kernel_live (m_kernel M)" and "i < length (threads s)" and "run_thread M (threads s ! i) s = Inr s'" and "all_awaited s"
  shows "all_awaited (s'\<lparr>threads := remove_nth i (threads s)\<rparr>)"
proof -
  let ?t = "threads s ! i"
  from assms(2,4) have typed: "typed_thread ?t" and wf: "wf_os (service_os s)" by (auto simp: all_awaited_def list_all_length)
  have "mset (children (service_os s)) = mset (awaited ?t) + mset (concat (map awaited (remove_nth i (threads s))))"
    using assms(4) mset_concat_remove_nth [OF assms(2)] by (simp add: all_awaited_def)
  note children = this
  have "list_all typed_thread (remove_nth i (threads s))"
    using assms(4) by (auto simp: all_awaited_def remove_nth_def list_all_iff dest: in_set_takeD in_set_dropD)
  note typed_rest = this
  note reaps = run_thread_reaps [OF assms(3) typed]
  show ?thesis
  proof (cases "awaited ?t")
    case Nil
    with reaps children typed_rest wf show ?thesis by (simp add: all_awaited_def)
  next
    case (Cons pid pids)
    with reaps have one: "pids = []" "service_os s' = snd (procreact_wait_for_boolean (m_kernel M) pid (service_os s))" by simp_all
    from children Cons one have "pid \<in> set (children (service_os s))" by (metis add_mset_add_single mset.simps set_mset_mset union_iff union_single_eq_member add.commute)
    moreover from this wf have "forked_pid pid = [pid]" by (auto simp: forked_pid_def wf_os_def)
    ultimately show ?thesis using wait_reaps [OF assms(1) wf, of pid] children Cons one typed_rest by (simp add: all_awaited_def)
  qed
qed

section \<open>Runs\<close>

lemma run_append: "service_run M logdir s' es' s'' \<Longrightarrow> service_run M logdir s es s' \<Longrightarrow> service_run M logdir s (es @ es') s''"
proof (induction rule: service_run.induct)
  case (step s es s1 e s2)
  then show ?case using service_run.step [OF step.IH [OF step.prems] step.hyps(2)] by simp
qed simp

inductive_cases step_AssignedE: "service_step M logdir s (Assigned jid) s'"
inductive_cases step_CalledE: "service_step M logdir s (Called jid m) s'"
inductive_cases step_EndedE: "service_step M logdir s (Ended t) s'"

lemma step_accounted:
  assumes "kernel_ok (m_kernel M)" and "service_step M logdir s e s'" and "accounted es s"
  shows "accounted (es @ [e]) s'"
  using assms(2)
proof cases
  case (assign jid)
  with assms(3) show ?thesis by (auto simp: accounted_def counts on_handle_get_job_id_def assign_pid_def)
next
  case (call jid m)
  with call_accounted [OF assms(1) call(2) assms(3)] show ?thesis by simp
next
  case (end_thread i s1)
  with end_accounted [OF end_thread(3,4) assms(3)] show ?thesis by simp
qed

lemma step_awaited:
  assumes "kernel_live (m_kernel M)" and "service_step M logdir s e s'" and "all_awaited s"
  shows "all_awaited s'"
  using assms(2)
proof cases
  case (assign jid)
  with assms(3) show ?thesis by (auto simp: all_awaited_def on_handle_get_job_id_def assign_pid_def)
next
  case (call jid m)
  with call_awaited [OF kernel_live_ok [OF assms(1)] call(2) assms(3)] show ?thesis by simp
next
  case (end_thread i s1)
  with end_awaited [OF assms(1) end_thread(3,4) assms(3)] show ?thesis by simp
qed

lemma initial_accounted: "accounted [] (initial_service srt names w l)"
  by (simp add: accounted_def initial_service_def counts)

lemma run_accounted:
  "service_run M logdir s0 es s \<Longrightarrow> kernel_ok (m_kernel M) \<Longrightarrow> accounted [] s0 \<Longrightarrow> accounted es s"
  by (induction rule: service_run.induct) (auto intro: step_accounted)

lemma run_awaited:
  "service_run M logdir s0 es s \<Longrightarrow> kernel_live (m_kernel M) \<Longrightarrow> all_awaited s0 \<Longrightarrow> all_awaited s"
  by (induction rule: service_run.induct) (auto intro: step_awaited)

lemma initial_awaited: "children w = [] \<Longrightarrow> all_awaited (initial_service srt names w l)"
  by (simp add: all_awaited_def initial_service_def wf_os_def)

lemma step_counter:
  assumes "kernel_ok (m_kernel M)" and "service_step M logdir s e s'"
  shows "assigned [e] = map (\<lambda>i. job_counter s + int i) [0..<length (assigned [e])]
    \<and> job_counter s' = job_counter s + int (length (assigned [e]))"
  using assms(2)
proof cases
  case (call jid m)
  from assms(1) call(2) show ?thesis
    by (rule handle_method_cases) (auto simp: call starts_thread_def fails_def assigned_def)
next
  case (end_thread i s1)
  with run_thread_ends [OF end_thread(4)] show ?thesis by (simp add: ends_def assigned_def)
qed (auto simp: on_handle_get_job_id_def assign_pid_def assigned_def)

lemma assigned_append: "assigned (es @ es') = assigned es @ assigned es'"
  by (simp add: assigned_def)

lemma run_counter:
  assumes "service_run M logdir s0 es s" and "kernel_ok (m_kernel M)"
  shows "assigned es = map (\<lambda>i. job_counter s0 + int i) [0..<length (assigned es)] \<and> job_counter s = job_counter s0 + int (length (assigned es))"
  using assms(1)
proof induction
  case start
  show ?case by (simp add: assigned_def)
next
  case (step s es s' e s'')
  let ?n = "length (assigned es)" and ?m = "length (assigned [e])"
  have "map (\<lambda>i. job_counter s + int i) [0..<?n + ?m] = map (\<lambda>i. job_counter s + int i) [0..<?n] @ map (\<lambda>i. job_counter s + int ?n + int i) [0..<?m]"
    by (rule nth_equalityI) (auto simp: nth_append)
  with step.IH step_counter [OF assms(2) step.hyps(2)] show ?case by (simp add: assigned_append algebra_simps)
qed

lemma next_pid_above:
  assumes "sorts_by srt numbersort" and "n \<in> set names"
  shows "atoi n < determine_next_pid srt (Some names)"
proof -
  let ?xs = "srt numbersort names"
  from assms have n: "n \<in> set ?xs" by (simp add: sorts_by_set)
  have "sorted (map atoi ?xs)" by (rule number_order.sort_sorted [OF assms(1)])
  with n have "atoi n \<le> atoi (last ?xs)"
    by (cases ?xs rule: rev_cases) (auto simp: sorted_append)
  with n show ?thesis by (auto simp: determine_next_pid_def Let_def)
qed

lemma threads_end:
  assumes "list_all has_file (threads s)"
  shows "\<exists>es' s'. service_run M logdir s es' s' \<and> length es' = length (threads s)
    \<and> list_all (\<lambda>e. case e of Ended _ \<Rightarrow> True | _ \<Rightarrow> False) es' \<and> threads s' = []"
  using assms
proof (induction "threads s" arbitrary: s)
  case Nil
  then show ?case by (intro exI [of _ "[]"] exI [of _ s]) (auto intro: service_run.start)
next
  case (Cons t ts)
  then have "has_file (threads s ! 0)" by (metis list.pred_inject(2) nth_Cons_0)
  then obtain s1 where r: "run_thread M (threads s ! 0) s = Inr s1" using run_thread_returns by blast
  let ?s = "s1\<lparr>threads := remove_nth 0 (threads s)\<rparr>"
  have ts: "threads ?s = ts" using Cons.hyps(2) [symmetric] by (simp add: remove_nth_def)
  with Cons.hyps(2) Cons.prems have "list_all has_file (threads ?s)" by (metis list.pred_inject(2))
  with Cons.hyps(1) [OF ts [symmetric]] obtain es' s' where run: "service_run M logdir ?s es' s'" "length es' = length (threads ?s)"
    "list_all (\<lambda>e. case e of Ended _ \<Rightarrow> True | _ \<Rightarrow> False) es'" "threads s' = []" by blast
  have "0 < length (threads s)" using Cons.hyps(2) [symmetric] by simp
  with r have "service_run M logdir s ([] @ [Ended (threads s ! 0)]) ?s" by (intro service_run.step [OF service_run.start] service_step.end_thread)
  from run_append [OF run(1) this] run(2-4) ts Cons.hyps(2) [symmetric] show ?case
    by (intro exI [of _ "Ended (threads s ! 0) # es'"] exI [of _ s']) simp
qed

lemma ended_calls:
  assumes "list_all (\<lambda>e. case e of Ended _ \<Rightarrow> True | _ \<Rightarrow> False) es'"
  shows "calls_of jid (es @ es') = calls_of jid es" "file_calls_of jid (es @ es') = file_calls_of jid es"
  using assms by (auto simp: counts list_all_iff filter_empty_conv split: step_event.splits)

section \<open>A service and one of its runs\<close>

definition example_machine :: machine where
  "example_machine = \<lparr>m_kernel = demo_kernel (\<lambda>_. Exited 0), m_posix = demo_posix (\<lambda>_. None), m_getenv = (\<lambda>_. None),
     m_sorts = \<lparr>sort_dependencies = isort_by, sort_service_mappings = isort_by, sort_snapshot_mappings = isort_by\<rparr>,
     m_exists = (\<lambda>_. False), m_parse = (\<lambda>_. None), m_read = (\<lambda>_. None), m_hostname = ''m1'', m_fchmod = (\<lambda>_. 0), m_localstatedir = ''/var''\<rparr>"

abbreviation example_start :: service where
  "example_start \<equiv> initial_service isort_by (Some [''.'', ''..'', ''7'']) \<lparr>children = [], trace = []\<rparr> []"

definition example_called :: service where
  "example_called = \<lparr>job_counter = 9, threads = [Boolean_Thread 8 1], emitted = [],
     service_os = \<lparr>children = [1], trace = [Forked 1 (execvp [Some NIX_COLLECT_GARBAGE_CMD, Some ''-d'', None])]\<rparr>,
     service_files = [Created ''/log/8'']\<rparr>"

lemma example_run: "service_run example_machine ''/log'' example_start [Assigned 8, Called 8 (Collect_Garbage True)] example_called"
proof -
  have "determine_next_pid isort_by (Some [''.'', ''..'', ''7'']) = 8" by code_simp
  then have 1: "on_handle_get_job_id example_start = (8, example_start\<lparr>job_counter := 9\<rparr>)"
    by (simp add: on_handle_get_job_id_def assign_pid_def initial_service_def)
  have "format_d 8 = ''8''" by code_simp
  then have 2: "handle_method example_machine ''/log'' 8 (Collect_Garbage True) (example_start\<lparr>job_counter := 9\<rparr>) = Inr example_called"
    by (simp add: handle_method_eq with_log_file_def open_log_file_def sys_create_def example_machine_def demo_posix_def initial_service_def
        execute_method_def pkgmgmt_collect_garbage_def sys_fork_def demo_kernel_def demo_pid_def signal_boolean_result_def start_thread_def
        example_called_def Let_def)
  from service_run.step [OF service_run.step [OF service_run.start service_step.assign [OF 1]] service_step.call [OF 2]] show ?thesis by simp
qed

lemma example_live: "kernel_live (m_kernel example_machine)"
  by (simp add: example_machine_def demo_kernel_live)

section \<open>The properties\<close>

text \<open>
  C15: Every call of a method of the service is accounted for, whatever methods its clients call in whatever order with whatever ids and
  whatever processes fail: a job has at most as many signals and pending threads as it has been called, and it has exactly as many unless
  a method was called that makes a file, because a file that could not be made is never signalled. The service has no process but
  those that its pending threads wait for.
\<close>

theorem service_accounts:
  assumes "kernel_live (m_kernel M)" and "children w = []" and "service_run M logdir (initial_service srt names w l) es s"
  shows "signals_of jid s + pending_of jid s \<le> calls_of jid es
    \<and> calls_of jid es \<le> signals_of jid s + pending_of jid s + file_calls_of jid es
    \<and> mset (children (service_os s)) = mset (concat (map awaited (threads s)))"
proof -
  have "accounted es s" by (rule run_accounted [OF assms(3) kernel_live_ok [OF assms(1)] initial_accounted])
  moreover have "all_awaited s" by (rule run_awaited [OF assms(3,1) initial_awaited [OF assms(2)]])
  ultimately show ?thesis by (auto simp: accounted_def all_awaited_def intro: order_trans [OF le_add1])
qed

theorem service_accounts_witness:
  "service_run example_machine ''/log'' example_start [Assigned 8, Called 8 (Collect_Garbage True)] example_called
    \<and> signals_of 8 example_called + pending_of 8 example_called = 1 \<and> mset (children (service_os example_called)) = {#1#}"
proof -
  have c: "calls_of 8 [Assigned 8, Called 8 (Collect_Garbage True)] = 1" "file_calls_of 8 [Assigned 8, Called 8 (Collect_Garbage True)] = 0"
    by (simp_all add: counts)
  from service_accounts [OF example_live _ example_run, of 8] example_run show ?thesis
    by (simp add: c) (simp add: example_called_def forked_pid_def)
qed





section \<open>A client that is alone with the service\<close>

text \<open>The operations whose answer comes from a process that both programs start in the same way.\<close>

definition same_process :: "Operation \<Rightarrow> bool" where
  "same_process operation \<longleftrightarrow> operation \<notin> {OP_EXPORT, OP_CAPTURE_CONFIG, OP_LOCK, OP_UNLOCK, OP_QUERY_INSTALLED}"

text \<open>What the end of a thread means for the client of its job, compared with an exit status and a text.\<close>

definition answers :: "machine \<Rightarrow> int \<Rightarrow> service \<Rightarrow> service \<Rightarrow> int \<Rightarrow> string \<Rightarrow> os \<Rightarrow> bool" where
  "answers M jid s s1 code shown w \<longleftrightarrow> (\<exists>t s2 sg code'. threads s1 = threads s @ [t] \<and> service_files s1 = service_files s
     \<and> run_thread M t s1 = Inr s2 \<and> emitted s2 = sg # emitted s \<and> service_os s2 = w \<and> service_files s2 = service_files s
     \<and> client_signal jid sg = Some (code', shown) \<and> (code' = 0 \<longleftrightarrow> code = 0))"

lemma exit_status_boolean:
  "procreact_wait_for_exit_status K pid w = ((outcome, code), w') \<Longrightarrow>
     \<exists>result. procreact_wait_for_boolean K pid w = ((outcome, result), w') \<and> (outcome = PROCREACT_STATUS_OK \<and> result \<noteq> 0 \<longleftrightarrow> code = 0)"
  by (auto simp: procreact_wait_for_exit_status_def procreact_wait_for_boolean_def procreact_wait_and_retrieve_def
      procreact_retrieve_exit_status_def procreact_retrieve_boolean_def split: if_splits prod.splits wstatus.splits)

lemma boolean_answers:
  assumes "exit_with M l p = Inr (code, shown, w, l')"
  shows "shown = '''' \<and> l' = l \<and> answers M jid s (signal_boolean_result jid p s) code shown w"
proof -
  obtain pid w0 where p: "p = (pid, w0)" by fastforce
  obtain outcome w' where e: "procreact_wait_for_exit_status (m_kernel M) pid w0 = ((outcome, code), w')" and
    r: "shown = ''''" "w' = w" "l' = l" using assms p by (auto simp: exit_with_def split: prod.splits)
  obtain result where b: "procreact_wait_for_boolean (m_kernel M) pid w0 = ((outcome, result), w')"
    "outcome = PROCREACT_STATUS_OK \<and> result \<noteq> 0 \<longleftrightarrow> code = 0" using exit_status_boolean [OF e] by blast
  then show ?thesis using r p
    by (auto simp: answers_def service_simps run_thread_def thread_funcs client_signal_def)
qed

lemma strv_answers:
  assumes "exit_printing M l f = Inr (code, shown, w, l')" and "future_result (fst f) = None"
  shows "l' = l \<and> answers M jid s (signal_strv_result jid f s) code shown w"
proof -
  obtain future w0 where f: "f = (future, w0)" by fastforce
  obtain outcome result future' w' where g: "procreact_future_get (m_kernel M) future w0 = ((outcome, result), future', w')" by (metis prod.collapse)
  from g f assms show ?thesis
    by (auto simp: exit_printing_def print_strv_def answers_def service_simps run_thread_def thread_funcs client_signal_def
        split: if_splits option.splits)
qed

lemma client_loop_None: "\<forall>sg \<in> set sgs. client_signal jid sg = None \<Longrightarrow> client_loop jid sgs = None"
  by (induction sgs) auto

lemma exec_lines_open: "exec_lines K args w = (future, w') \<Longrightarrow> future_result future = None"
  by (auto simp: procreact_initialize_future_def split: if_splits prod.splits)

lemmas started_processes = statemgmt_query_all_snapshots_def statemgmt_query_latest_snapshot_def statemgmt_print_missing_snapshots_def
  statemgmt_resolve_snapshots_def pkgmgmt_print_invalid_packages_def pkgmgmt_realise_def pkgmgmt_query_requisites_def

lemma method_answers:
  assumes "client_operation operation paths flags prof arguments type cont cmpt keep = Inr (Wait_For (Some m))" and "same_process operation"
    and "run_disnix_activity M operation paths flags prof arguments type cont cmpt keep command (service_os s) (service_files s) = Inr (code, shown, w, l)"
  shows "\<exists>s1. execute_method M jid m s = Inr s1 \<and> answers M jid s s1 code shown w \<and> l = service_files s"
proof -
  note b = boolean_answers [where M = M and jid = jid and s = s and l = "service_files s" and code = code and w = w and l' = l and shown = shown]
  note v = strv_answers [where M = M and jid = jid and s = s and l = "service_files s" and code = code and w = w and l' = l and shown = shown]
  have open_future: "future_result (fst (exec_lines K args w)) = None" for K args w
    by (metis exec_lines_open prod.collapse)
  have opens: "future_result (fst (statemgmt_query_all_snapshots K c1 c2 w)) = None" "future_result (fst (statemgmt_query_latest_snapshot K c1 c2 w)) = None"
    "future_result (fst (statemgmt_print_missing_snapshots K ps n w)) = None" "future_result (fst (statemgmt_resolve_snapshots K ps n w)) = None"
    "future_result (fst (pkgmgmt_print_invalid_packages K ps n w)) = None" "future_result (fst (pkgmgmt_realise K ps n w)) = None"
    "future_result (fst (pkgmgmt_query_requisites K ps n w)) = None" for K c1 c2 ps n w
    by (simp_all add: started_processes open_future)
  note defs = client_operation_def client_activity_def client_strings_def run_disnix_activity_def run_disnix_activity_dysnomia_def
    execute_method_def Let_def array_at_def
  show ?thesis
  proof (cases operation)
    case OP_SET
    with assms obtain p where p: "pkgmgmt_set_profile (m_kernel M) (m_posix M) (m_localstatedir M) prof (paths ! 0) (service_os s) = Inr p"
      and m: "m = Set prof (paths ! 0)" and e: "exit_with M (service_files s) p = Inr (code, shown, w, l)"
      by (auto simp: client_operation_def run_disnix_activity_def Let_def bindr_eq_Inr split: if_splits)
    with b [OF e] show ?thesis by (auto simp: execute_method_def Let_def)
  qed (use assms in \<open>auto simp: defs same_process_def bindr_eq_Inr check_dysnomia_activity_parameters_def deref_def
      split: if_splits option.splits dest!: b opens [THEN v [rotated]]\<close>)
qed



text \<open>
  C39: For an activity without a type or without a component the client waits forever. It reports the error but calls no method and then
  waits for a signal of its job, and in no run of the service in which nobody else uses its id does a signal arrive;
  disnix-run-activity exits with 1 instead.
\<close>

theorem client_without_type_waits:
  assumes "operation \<in> {OP_ACTIVATE, OP_DEACTIVATE, OP_SNAPSHOT, OP_RESTORE, OP_DELETE_STATE}" and "type = None \<or> paths = []"
    and "kernel_ok (m_kernel M)" and "service_run M logdir (initial_service srt names w l) es s" and "calls_of jid es = 0"
  shows "client_operation operation paths flags prof arguments type cont cmpt keep = Inr (Wait_For None)
    \<and> client_loop jid (rev (emitted s)) = None
    \<and> run_disnix_activity M operation paths flags prof arguments type cont cmpt keep command w' l' = Inr (1, '''', w', l')"
proof -
  have "accounted es s" by (rule run_accounted [OF assms(4,3) initial_accounted])
  then have "signals_of jid s + pending_of jid s \<le> calls_of jid es" by (simp add: accounted_def)
  with assms(5) have "\<forall>sg \<in> set (emitted s). signal_job sg \<noteq> jid" by (simp add: signals_of_def filter_empty_conv)
  then have "\<forall>sg \<in> set (rev (emitted s)). client_signal jid sg = None"
    by (auto simp: client_signal_def split: signal.splits)
  then have "client_loop jid (rev (emitted s)) = None" by (rule client_loop_None)
  with assms(1,2) show ?thesis
    by (auto simp: client_operation_def client_activity_def check_dysnomia_activity_parameters_def run_disnix_activity_def
        run_disnix_activity_dysnomia_def Let_def)
qed

theorem client_without_type_waits_witness:
  "client_operation OP_ACTIVATE [''/nix/store/a''] 0 ''default'' [] None None None 1 = Inr (Wait_For None)
    \<and> client_loop 9 (rev (emitted example_called)) = None"
proof -
  have "OP_ACTIVATE \<in> {OP_ACTIVATE, OP_DEACTIVATE, OP_SNAPSHOT, OP_RESTORE, OP_DELETE_STATE}" "(None :: cstr) = None \<or> [''/nix/store/a''] = []"
    "calls_of 9 [Assigned 8, Called 8 (Collect_Garbage True)] = 0" by (simp_all add: calls_of_def)
  from client_without_type_waits [OF this(1,2) kernel_live_ok [OF example_live] example_run this(3)] show ?thesis by blast
qed

text \<open>A process that fails to make its file is not signalled, so the client that asked for it waits forever.\<close>

theorem failed_file_not_signalled:
  assumes "run_thread M (TempFile_Thread jid tempfilename (Some pid)) s = Inr s'"
    and "\<not> succeeded (fst (procreact_wait_for_boolean (m_kernel M) pid (service_os s)))"
  shows "emitted s' = emitted s"
  using assms by (auto simp: run_thread_def thread_funcs Let_def split: prod.splits)

end
