(* ===== verification/Disnix_Client.thy ===== *)
theory Disnix_Client
  imports Service_Correct
begin

text \<open>
  The main program of \<open>disnix-client\<close> (\<open>dbus-service/disnix-client-main.c\<close>): its options have the names of those of
  \<open>disnix-run-activity\<close> but other values. The last section shows that a request of the coordinator goes through the client and the service
  to Dysnomia as it was meant.
\<close>

section \<open>The options\<close>

definition FLAG_SESSION_BUS :: flags where "FLAG_SESSION_BUS = 0x2"

definition client_operations :: "(string \<times> int \<times> Operation) list" where
  "client_operations =
     [(''import'', 256, OP_IMPORT), (''export'', 257, OP_EXPORT), (''print-invalid'', 258, OP_PRINT_INVALID),
      (''realise'', option_char CHR ''r'', OP_REALISE), (''set'', 259, OP_SET),
      (''query-installed'', option_char CHR ''q'', OP_QUERY_INSTALLED), (''query-requisites'', 260, OP_QUERY_REQUISITES),
      (''collect-garbage'', 261, OP_COLLECT_GARBAGE), (''activate'', 262, OP_ACTIVATE), (''deactivate'', 263, OP_DEACTIVATE),
      (''delete-state'', 264, OP_DELETE_STATE), (''lock'', 265, OP_LOCK), (''unlock'', 266, OP_UNLOCK), (''snapshot'', 267, OP_SNAPSHOT),
      (''restore'', 268, OP_RESTORE), (''query-all-snapshots'', 269, OP_QUERY_ALL_SNAPSHOTS),
      (''query-latest-snapshot'', 270, OP_QUERY_LATEST_SNAPSHOT), (''print-missing-snapshots'', 271, OP_PRINT_MISSING_SNAPSHOTS),
      (''import-snapshots'', 272, OP_IMPORT_SNAPSHOTS), (''resolve-snapshots'', 273, OP_RESOLVE_SNAPSHOTS),
      (''clean-snapshots'', 274, OP_CLEAN_SNAPSHOTS), (''capture-config'', 275, OP_CAPTURE_CONFIG), (''shell'', 276, OP_SHELL)]"

definition client_long_options :: "long_option list" where
  "client_long_options =
     map (\<lambda>(n, c, _). (n, False, c)) client_operations
     @ [(''target'', True, option_char CHR ''t''), (''localfile'', False, 277), (''remotefile'', False, 278),
        (''profile'', True, option_char CHR ''p''), (''delete-old'', False, option_char CHR ''d''), (''type'', True, 279),
        (''arguments'', True, 280), (''container'', True, option_char CHR ''C''), (''component'', True, option_char CHR ''c''),
        (''keep'', True, 281), (''command'', True, 282), (''session-bus'', False, 283), (''help'', False, option_char CHR ''h''),
        (''version'', False, option_char CHR ''v'')]"

definition client_short_options :: string where
  "client_short_options = ''rqt:p:dC:c:hv''"

text \<open>The switch; the usage and version texts are not modelled. The client has no command, so that part of the record is not used.\<close>

definition client_switch :: "int \<Rightarrow> cstr \<Rightarrow> activity_options \<Rightarrow> int + activity_options" where
  "client_switch c optarg opts =
     (case map_of (map snd client_operations) c of
        Some operation \<Rightarrow> Inr (opts\<lparr>o_operation := operation\<rparr>)
      | None \<Rightarrow>
          if c = option_char CHR ''p'' then Inr (opts\<lparr>o_profile := optarg\<rparr>)
          else if c = option_char CHR ''d'' then Inr (opts\<lparr>o_flags := o_flags opts OR FLAG_DELETE_OLD\<rparr>)
          else if c = 279 then Inr (opts\<lparr>o_type := optarg\<rparr>)
          else if c = 280 then Inr (case optarg of Some a \<Rightarrow> opts\<lparr>o_arguments := o_arguments opts @ [a]\<rparr> | None \<Rightarrow> opts)
          else if c = option_char CHR ''C'' then Inr (opts\<lparr>o_container := optarg\<rparr>)
          else if c = option_char CHR ''c'' then Inr (opts\<lparr>o_component := optarg\<rparr>)
          else if c = 281 then Inr (case optarg of Some a \<Rightarrow> opts\<lparr>o_keep := atoi a\<rparr> | None \<Rightarrow> opts)
          else if c = 283 then Inr (opts\<lparr>o_flags := o_flags opts OR FLAG_SESSION_BUS\<rparr>)
          else if c = option_char CHR ''h'' then Inl 0
          else if c = option_char CHR ''v'' then Inl 0
          else if c = BAD_OPTION then Inl 1
          else Inr opts)"

definition client_main :: "environment \<Rightarrow> string list \<Rightarrow> client_action result" where
  "client_main getenv args =
     (case getopt_long client_short_options client_long_options args of (os, derivation) \<Rightarrow>
      case option_loop client_switch os initial_activity_options of
        Inl code \<Rightarrow> Inr (Exit code)
      | Inr opts \<Rightarrow>
          bindr (deref (check_profile_option getenv (o_profile opts))) (\<lambda>prof.
            client_operation (o_operation opts) derivation (o_flags opts) prof (o_arguments opts) (o_type opts)
              (o_container opts) (o_component opts) (o_keep opts)))"

section \<open>What the words of a request mean to the client\<close>

abbreviation client_getopt :: "string list \<Rightarrow> (int \<times> cstr) list \<times> string list" where
  "client_getopt \<equiv> getopt_long client_short_options client_long_options"

abbreviation client_word :: "string \<Rightarrow> word_kind" where
  "client_word \<equiv> classify client_short_options client_long_options"

named_theorems client_words

lemma client_operation_words [client_words]:
  "client_word ''--activate'' = Complete_Options [(262, None)]"
  "client_word ''--deactivate'' = Complete_Options [(263, None)]"
  "client_word ''--snapshot'' = Complete_Options [(267, None)]"
  "client_word ''--restore'' = Complete_Options [(268, None)]"
  "client_word ''--delete-state'' = Complete_Options [(264, None)]"
  by code_simp+

lemma client_argument_words [client_words]:
  "client_word ''--target'' = Needs_Argument [] 116"
  "client_word ''--container'' = Needs_Argument [] 67"
  "client_word ''--type'' = Needs_Argument [] 279"
  "client_word ''--arguments'' = Needs_Argument [] 280"
  by code_simp+

lemma client_operand_word [client_words]: "operand s \<Longrightarrow> client_word s = Operand s"
  by (cases s) (auto simp: operand_def classify_def split: list.split)

lemma client_switch_cases [client_words]:
  "client_switch 262 v opts = Inr (opts\<lparr>o_operation := OP_ACTIVATE\<rparr>)"
  "client_switch 263 v opts = Inr (opts\<lparr>o_operation := OP_DEACTIVATE\<rparr>)"
  "client_switch 267 v opts = Inr (opts\<lparr>o_operation := OP_SNAPSHOT\<rparr>)"
  "client_switch 268 v opts = Inr (opts\<lparr>o_operation := OP_RESTORE\<rparr>)"
  "client_switch 264 v opts = Inr (opts\<lparr>o_operation := OP_DELETE_STATE\<rparr>)"
  "client_switch 116 v opts = Inr opts"
  "client_switch 67 v opts = Inr (opts\<lparr>o_container := v\<rparr>)"
  "client_switch 279 v opts = Inr (opts\<lparr>o_type := v\<rparr>)"
  "client_switch 280 (Some a) opts = Inr (opts\<lparr>o_arguments := o_arguments opts @ [a]\<rparr>)"
  by (simp_all add: client_switch_def client_operations_def option_char_def BAD_OPTION_def)

lemma client_argument_options:
  "client_getopt (concat (map (\<lambda>a. [''--arguments'', a]) arguments) @ rest)
     = (map (\<lambda>a. (280, Some a)) arguments @ fst (client_getopt rest), snd (client_getopt rest))"
  by (induction arguments) (auto simp: client_words split: prod.splits)

lemma client_argument_loop:
  "option_loop client_switch (map (\<lambda>a. (280, Some a)) arguments) opts = Inr (opts\<lparr>o_arguments := o_arguments opts @ arguments\<rparr>)"
  by (induction arguments arbitrary: opts) (auto simp: client_words)

lemma activity_request_client:
  assumes op: "client_word operation = Complete_Options [(val, None)]" "\<And>opts. client_switch val None opts = Inr (opts\<lparr>o_operation := operation'\<rparr>)"
    and svc: "operand svc"
    and call: "\<And>prof keep. client_operation operation' [svc] 0 prof arguments (Some type) (Some cont) None keep = r"
  shows "client_main getenv (activity_request operation tgt cont type arguments svc) = r"
proof -
  obtain p where p: "check_profile_option getenv None = Some p" using check_profile_option_there by blast
  show ?thesis unfolding client_main_def
    using p svc call by (simp add: op client_words client_argument_options option_loop_append client_argument_loop initial_activity_options_def)
qed

text \<open>
  C22: Through the D-Bus service, too, an activity arrives as it was meant. From the vector that the command of the coordinator
  passes to disnix-client as the client interface, the client recovers the activity and its parts, whatever strings they are, and calls a method
  with them, and the handler of this method runs Dysnomia for that activity with just the type, the service, the container and the
  arguments that were asked for. The service must not look like an option.
\<close>

theorem dbus_activities_arrive:
  assumes "(remote, local) \<in> set activities" and "operand svc"
  shows "\<exists>args m. remote K (Some interface) (Some tgt) (Some cont) (Some type) arguments (length arguments) (Some svc) w0
      = sys_fork K (Exec (interface # args) []) w0
    \<and> (\<forall>getenv. client_main getenv args = Inr (Wait_For (Some m)))
    \<and> (\<forall>M logdir jid. handle_method M logdir jid m = with_log_file M logdir jid (\<lambda>s. Inr (signal_boolean_result jid
         (local (m_kernel M) (Some type) (Some svc) (Some cont) arguments (service_os s)) s)))"
proof -
  note remote_defs = statemgmt_remote_activate_def statemgmt_remote_deactivate_def statemgmt_remote_snapshot_def
    statemgmt_remote_restore_def statemgmt_remote_delete_state_def exec_dysnomia_activity_argv
  note method_defs = handle_method_def on_handle_activate_def on_handle_deactivate_def on_handle_snapshot_def on_handle_restore_def
    on_handle_delete_state_def on_handle_state_activity_def
  note call = client_operation_def client_activity_def check_dysnomia_activity_parameters_def
  have arrive: ?thesis if "remote K (Some interface) (Some tgt) (Some cont) (Some type) arguments (length arguments) (Some svc) w0
      = sys_fork K (Exec (interface # activity_request operation tgt cont type arguments svc) []) w0"
    "client_word operation = Complete_Options [(val, None)]" "\<And>opts. client_switch val None opts = Inr (opts\<lparr>o_operation := operation'\<rparr>)"
    "\<And>prof keep. client_operation operation' [svc] 0 prof arguments (Some type) (Some cont) None keep = Inr (Wait_For (Some m))"
    "\<And>M logdir jid. handle_method M logdir jid m = with_log_file M logdir jid (\<lambda>s. Inr (signal_boolean_result jid
         (local (m_kernel M) (Some type) (Some svc) (Some cont) arguments (service_os s)) s))" for operation val operation' m
    by (intro exI [of _ "activity_request operation tgt cont type arguments svc"] exI [of _ m] conjI allI that(1) that(5)
        activity_request_client [OF that(2,3) assms(2) that(4)])
  from assms(1) consider "remote = statemgmt_remote_activate" "local = statemgmt_activate"
    | "remote = statemgmt_remote_deactivate" "local = statemgmt_deactivate"
    | "remote = statemgmt_remote_snapshot" "local = statemgmt_snapshot"
    | "remote = statemgmt_remote_restore" "local = statemgmt_restore"
    | "remote = statemgmt_remote_delete_state" "local = statemgmt_collect_garbage"
    by (auto simp: activities_def)
  then show ?thesis
  proof cases
    case 1
    then show ?thesis by (intro arrive [of "''--activate''" 262 OP_ACTIVATE "Activate svc cont type arguments"])
        (simp_all add: remote_defs method_defs client_words call)
  next
    case 2
    then show ?thesis by (intro arrive [of "''--deactivate''" 263 OP_DEACTIVATE "Deactivate svc cont type arguments"])
        (simp_all add: remote_defs method_defs client_words call)
  next
    case 3
    then show ?thesis by (intro arrive [of "''--snapshot''" 267 OP_SNAPSHOT "Snapshot svc cont type arguments"])
        (simp_all add: remote_defs method_defs client_words call)
  next
    case 4
    then show ?thesis by (intro arrive [of "''--restore''" 268 OP_RESTORE "Restore svc cont type arguments"])
        (simp_all add: remote_defs method_defs client_words call)
  next
    case 5
    then show ?thesis by (intro arrive [of "''--delete-state''" 264 OP_DELETE_STATE "Delete_State svc cont type arguments"])
        (simp_all add: remote_defs method_defs client_words call)
  qed
qed

theorem dbus_activities_arrive_witness:
  "\<exists>args m. statemgmt_remote_restore (m_kernel example_machine) (Some ''disnix-client'') (Some ''m1'') (Some ''mysql'') (Some ''db'') [''a=1''] 1 (Some ''/nix/store/db'')
      \<lparr>children = [], trace = []\<rparr> = sys_fork (m_kernel example_machine) (Exec (''disnix-client'' # args) []) \<lparr>children = [], trace = []\<rparr>
    \<and> client_main (\<lambda>_. None) args = Inr (Wait_For (Some m))"
proof -
  have "(statemgmt_remote_restore, statemgmt_restore) \<in> set activities" "operand ''/nix/store/db''"
    by (simp_all add: activities_def operand_def)
  from dbus_activities_arrive [OF this, of "m_kernel example_machine" "''disnix-client''" "''m1''" "''mysql''" "''db''" "[''a=1'']"
      "\<lparr>children = [], trace = []\<rparr>"]
  show ?thesis by fastforce
qed

end
