(* ===== verification/Future_Iterator.thy ===== *)
theory Future_Iterator
  imports Procreact_Types Model_Iterator
begin

text \<open>
  The future iterator of \<open>libprocreact/procreact_future_iterator.c\<close>: it runs one process per
  element of a collection and reads the output of all of them in turns, one piece of each.
  What its callbacks owe it is the locale \<open>future_iteration\<close>, in which it is proved once that
  every callback receives what the process of its element alone has printed.
\<close>

section \<open>The iterator\<close>

text \<open>
  A running future carries what was read so far. The array of running futures has
  \<open>running_processes\<close> elements, so its length stands for that counter.
\<close>

type_synonym ('s, 'r) buffered = "('s, 'r) ProcReact_Future \<times> 's"

record ('d, 's, 'r) ProcReact_FutureIterator =
  future_has_next :: "'d \<Rightarrow> bool"
  next_future :: "'d \<Rightarrow> os \<Rightarrow> (('s, 'r) ProcReact_Future \<times> 'd \<times> os) result"
  complete_future :: "'d \<Rightarrow> ('s, 'r) ProcReact_Future \<Rightarrow> ProcReact_Status \<Rightarrow> 'd result"
  future_data :: 'd
  futures :: "('s, 'r) buffered list"

definition procreact_initialize_future_iterator ::
  "('d \<Rightarrow> bool) \<Rightarrow> ('d \<Rightarrow> os \<Rightarrow> (('s, 'r) ProcReact_Future \<times> 'd \<times> os) result)
    \<Rightarrow> ('d \<Rightarrow> ('s, 'r) ProcReact_Future \<Rightarrow> ProcReact_Status \<Rightarrow> 'd result) \<Rightarrow> 'd
    \<Rightarrow> ('d, 's, 'r) ProcReact_FutureIterator" where
  "procreact_initialize_future_iterator hn nx cp d =
     \<lparr>future_has_next = hn, next_future = nx, complete_future = cp, future_data = d, futures = []\<rparr>"

definition procreact_spawn_next_future ::
  "('d, 's, 'r) ProcReact_FutureIterator \<Rightarrow> os \<Rightarrow> (bool \<times> ('d, 's, 'r) ProcReact_FutureIterator \<times> os) result" where
  "procreact_spawn_next_future it w =
     (if future_has_next it (future_data it)
      then bindr (next_future it (future_data it) w) (\<lambda>(future, d, w').
        if future_pid future = -1
        then bindr (complete_future it d future PROCREACT_STATUS_FORK_FAIL)
               (\<lambda>d'. Inr (True, it\<lparr>future_data := d'\<rparr>, w'))
        else Inr (True, it\<lparr>future_data := d,
               futures := futures it @ [(future, initialize (future_type future))]\<rparr>, w'))
      else Inr (False, it, w))"

text \<open>One call of \<open>append\<close>: it reads the next piece and returns the number of bytes.\<close>

definition append_next :: "('s, 'r) buffered \<Rightarrow> nat \<times> ('s, 'r) buffered" where
  "append_next b =
     (case b of (future, state) \<Rightarrow>
        (case future_fd future of
           [] \<Rightarrow> (0, b)
         | piece # pieces \<Rightarrow>
             (length piece, future\<lparr>future_fd := pieces\<rparr>, append_piece (future_type future) state piece)))"

text \<open>The last element takes the place of the one removed.\<close>

definition remove_swap :: "nat \<Rightarrow> 'a list \<Rightarrow> 'a list" where
  "remove_swap i xs = butlast (xs[i := last xs])"

lemma length_remove_swap [simp]: "length (remove_swap i xs) = length xs - 1"
  by (simp add: remove_swap_def)

lemma mset_remove_swap: "i < length xs \<Longrightarrow> mset (remove_swap i xs) = mset xs - {#xs ! i#}"
proof -
  assume i: "i < length xs"
  let ?ys = "xs[i := last xs]"
  from i have "xs \<noteq> []" by auto
  then have "?ys \<noteq> []" "last ?ys = last xs" by (simp_all add: last_list_update)
  then have "mset (remove_swap i xs) = mset ?ys - {#last xs#}"
    unfolding remove_swap_def by (metis add_mset_remove_trivial append_butlast_last_id mset.simps mset_append union_mset_add_mset_right add.right_neutral)
  also have "mset ?ys = add_mset (last xs) (mset xs - {#xs ! i#})" by (rule mset_update [OF i])
  finally show ?thesis by simp
qed

lemma distinct_remove_swap:
  assumes "distinct xs" and "i < length xs"
  shows "set (remove_swap i xs) = set xs - {xs ! i}" and "distinct (remove_swap i xs)"
proof -
  have m: "mset (remove_swap i xs) = mset (remove1 (xs ! i) xs)" by (simp add: mset_remove_swap [OF assms(2)])
  from mset_eq_setD [OF m] show "set (remove_swap i xs) = set xs - {xs ! i}" using assms(1) by simp
  from mset_eq_imp_distinct_iff [OF m] show "distinct (remove_swap i xs)" using assms(1) by simp
qed

function buffer_from ::
  "kernel \<Rightarrow> nat \<Rightarrow> ('d, 's, 'r) ProcReact_FutureIterator \<Rightarrow> os \<Rightarrow> (('d, 's, 'r) ProcReact_FutureIterator \<times> os) result" where
  "buffer_from K i it w =
     (if i < length (futures it)
      then (case append_next (futures it ! i) of (bytes_read, future, state) \<Rightarrow>
        if bytes_read = 0
        then (case finalize (future_type future) K state (future_pid future) w of ((status, result), w') \<Rightarrow>
          bindr (complete_future it (future_data it) (future\<lparr>future_result := result\<rparr>) status) (\<lambda>d.
            buffer_from K (i + 1) (it\<lparr>future_data := d, futures := remove_swap i (futures it)\<rparr>) w'))
        else buffer_from K (i + 1) (it\<lparr>futures := (futures it)[i := (future, state)]\<rparr>) w)
      else Inr (it, w))"
  by pat_completeness auto
termination
  by (relation "measure (\<lambda>(K, i, it, w). length (futures it) - i)") auto

declare buffer_from.simps [simp del]

definition procreact_buffer ::
  "kernel \<Rightarrow> ('d, 's, 'r) ProcReact_FutureIterator \<Rightarrow> os \<Rightarrow> (nat \<times> ('d, 's, 'r) ProcReact_FutureIterator \<times> os) result" where
  "procreact_buffer K it w = bindr (buffer_from K 0 it w) (\<lambda>(it', w'). Inr (length (futures it'), it', w'))"

text \<open>The loops take fuel, one unit per iteration.\<close>

fun spawn_futures :: "nat \<Rightarrow> (nat \<Rightarrow> bool) \<Rightarrow> ('d, 's, 'r) ProcReact_FutureIterator \<Rightarrow> os
    \<Rightarrow> (('d, 's, 'r) ProcReact_FutureIterator \<times> os) result" where
  "spawn_futures 0 allowed it w = Inl Fuel_Exhausted"
| "spawn_futures (Suc fuel) allowed it w =
     (if allowed (length (futures it))
      then bindr (procreact_spawn_next_future it w)
        (\<lambda>(more, it', w'). if more then spawn_futures fuel allowed it' w' else Inr (it', w'))
      else Inr (it, w))"

fun buffer_while :: "kernel \<Rightarrow> nat \<Rightarrow> (nat \<Rightarrow> bool) \<Rightarrow> ('d, 's, 'r) ProcReact_FutureIterator \<Rightarrow> os
    \<Rightarrow> (('d, 's, 'r) ProcReact_FutureIterator \<times> os) result" where
  "buffer_while K 0 again it w = Inl Fuel_Exhausted"
| "buffer_while K (Suc fuel) again it w =
     bindr (procreact_buffer K it w)
       (\<lambda>(running, it', w'). if again running then buffer_while K fuel again it' w' else Inr (it', w'))"

definition procreact_fork_in_parallel_buffer_and_wait ::
  "kernel \<Rightarrow> nat \<Rightarrow> ('d, 's, 'r) ProcReact_FutureIterator \<Rightarrow> os \<Rightarrow> (('d, 's, 'r) ProcReact_FutureIterator \<times> os) result" where
  "procreact_fork_in_parallel_buffer_and_wait K fuel it w =
     bindr (spawn_futures fuel (\<lambda>n. True) it w) (\<lambda>(it', w'). buffer_while K fuel (\<lambda>n. 0 < n) it' w')"

fun procreact_fork_buffer_and_wait_in_parallel_limit ::
  "kernel \<Rightarrow> nat \<Rightarrow> ('d, 's, 'r) ProcReact_FutureIterator \<Rightarrow> nat \<Rightarrow> os \<Rightarrow> (('d, 's, 'r) ProcReact_FutureIterator \<times> os) result" where
  "procreact_fork_buffer_and_wait_in_parallel_limit K 0 it limit w = Inl Fuel_Exhausted"
| "procreact_fork_buffer_and_wait_in_parallel_limit K (Suc fuel) it limit w =
     (if futures it \<noteq> [] \<or> future_has_next it (future_data it)
      then bindr (spawn_futures (Suc fuel) (\<lambda>n. n < limit) it w) (\<lambda>(it', w').
           bindr (buffer_while K (Suc fuel) (\<lambda>n. n = length (futures it')) it' w') (\<lambda>(it'', w'').
             procreact_fork_buffer_and_wait_in_parallel_limit K fuel it'' limit w''))
      else Inr (it, w))"

section \<open>Kernels on which a command decides what happens\<close>

text \<open>
  What a command prints and how it exits depends on the command alone: \<open>out c\<close> are the pieces in which
  \<open>read\<close> returns its output, none of them empty, and \<open>exits c\<close> is its status. The command of a child
  is the one it was last forked with.
\<close>

fun running_as :: "int \<Rightarrow> event list \<Rightarrow> child option" where
  "running_as p [] = None"
| "running_as p (Forked q c # t) = (if p = q then Some c else running_as p t)"
| "running_as p (Fork_Failed c # t) = running_as p t"
| "running_as p (Reaped q ws # t) = running_as p t"
| "running_as p (Wait_Failed # t) = running_as p t"

definition regular_kernel :: "kernel \<Rightarrow> (child \<Rightarrow> string list) \<Rightarrow> (child \<Rightarrow> wstatus) \<Rightarrow> bool" where
  "regular_kernel K out exits \<longleftrightarrow> kernel_live K \<and> (\<forall>w. k_pipe K w) \<and> (\<forall>c w. k_output K c w = out c)
     \<and> (\<forall>c. [] \<notin> set (out c))
     \<and> (\<forall>w p c. running_as p (trace w) = Some c \<longrightarrow> snd (k_waitpid K p w) = exits c)"

definition regular_demo :: "(child \<Rightarrow> string list) \<Rightarrow> (child \<Rightarrow> wstatus) \<Rightarrow> kernel" where
  "regular_demo out exits = (demo_kernel (\<lambda>_. Killed))
     \<lparr>k_waitpid := (\<lambda>p w. (if p \<in> set (children w) \<and> 0 < p then p else -1,
        case running_as p (trace w) of Some c \<Rightarrow> exits c | None \<Rightarrow> Killed)),
      k_output := (\<lambda>c w. out c)\<rparr>"

lemma regular_demo_regular:
  assumes "\<And>c. [] \<notin> set (out c)"
  shows "regular_kernel (regular_demo out exits) out exits"
proof -
  have "kernel_live (regular_demo out exits)"
    using demo_kernel_live [of "\<lambda>_. Killed"]
    by (auto simp: regular_demo_def kernel_live_def kernel_ok_def demo_kernel_def wf_os_def)
  then show ?thesis using assms by (simp add: regular_kernel_def regular_demo_def demo_kernel_def)
qed

lemma regular_wait:
  assumes K: "regular_kernel K out exits" and wf: "wf_os w" and p: "p \<in> set (children w)"
    and c: "running_as p (trace w) = Some c"
  shows "procreact_wait_for_boolean K p w = (procreact_retrieve_boolean p (exits c),
    w\<lparr>children := removeAll p (children w), trace := Reaped p (exits c) # trace w\<rparr>)"
proof -
  from K have live: "kernel_live K" and ws: "snd (k_waitpid K p w) = exits c" using c by (auto simp: regular_kernel_def)
  from wf p have "0 < p" by (simp add: wf_os_def)
  from live wf p have "fst (k_waitpid K p w) \<noteq> -1" by (simp add: kernel_live_def)
  moreover have "fst (k_waitpid K p w) = -1 \<or> fst (k_waitpid K p w) = p"
    using kernel_live_ok [OF live] by (auto simp: kernel_ok_def)
  ultimately have "k_waitpid K p w = (p, exits c)" using ws by (metis prod.collapse)
  with \<open>0 < p\<close> show ?thesis
    by (simp add: procreact_wait_for_boolean_def procreact_wait_and_retrieve_def sys_waitpid_def reap_def)
qed

text \<open>What the output of a command alone gives, for a type whose last step is \<open>fin\<close>.\<close>

definition finishes :: "('s, 'r) ProcReact_Type \<Rightarrow> ('s \<Rightarrow> 'r) \<Rightarrow> bool" where
  "finishes type fin \<longleftrightarrow> (\<forall>K state pid w. finalize type K state pid w =
     (case procreact_wait_for_boolean K pid w of (r, w') \<Rightarrow> ((fst r, if succeeded r then Some (fin state) else None), w')))"

definition finish_string_array :: "cstr list \<Rightarrow> cstr list" where
  "finish_string_array state = (if last state \<noteq> None then increase_tokens_array state else state)"

lemma finishes_types:
  "finishes procreact_create_bytes_type (\<lambda>s. s)"
  "finishes procreact_create_string_type (takeWhile (\<lambda>c. c \<noteq> CHR 0x00))"
  "finishes (procreact_create_string_array_type d) finish_string_array"
  unfolding finishes_def procreact_create_bytes_type_def procreact_create_string_type_def
    procreact_create_string_array_type_def finish_string_array_def
  by (auto simp: procreact_type_finalize_bytes_def procreact_type_finalize_string_def
      procreact_type_finalize_string_array_def Let_def split: prod.splits option.splits)

definition answer :: "('s, 'r) ProcReact_Type \<Rightarrow> ('s \<Rightarrow> 'r) \<Rightarrow> (child \<Rightarrow> string list) \<Rightarrow> (child \<Rightarrow> wstatus) \<Rightarrow> child \<Rightarrow> 'r option" where
  "answer type fin out exits c =
     (if exits c = Exited 0 then Some (fin (foldl (append_piece type) (initialize type) (out c))) else None)"

section \<open>The contract of the callbacks\<close>

text \<open>
  \<open>todo d\<close> are the elements that remain, \<open>cmd e\<close> is the command of an element; \<open>inv d R log\<close> says that
  \<open>d\<close> knows the running elements \<open>R\<close> by their pids and has been given the results \<open>log\<close>, in their order.
  A callback that starts an element initializes a future for its command and registers the pid; one that
  completes a registered element returns for every result the element may have. Nothing is promised for a failed fork.
\<close>

locale future_iteration =
  fixes hn :: "'d \<Rightarrow> bool"
    and nx :: "kernel \<Rightarrow> 'd \<Rightarrow> os \<Rightarrow> (('s, 'r) ProcReact_Future \<times> 'd \<times> os) result"
    and cp :: "'d \<Rightarrow> ('s, 'r) ProcReact_Future \<Rightarrow> ProcReact_Status \<Rightarrow> 'd result"
    and todo :: "'d \<Rightarrow> 'e list"
    and inv :: "'d \<Rightarrow> (int \<times> 'e) set \<Rightarrow> ('e \<times> 'r option) list \<Rightarrow> bool"
    and cmd :: "'e \<Rightarrow> child"
    and type :: "('s, 'r) ProcReact_Type"
    and may :: "'e \<Rightarrow> 'r option \<Rightarrow> bool"
  assumes has_next_law: "inv d R log \<Longrightarrow> hn d \<longleftrightarrow> todo d \<noteq> []"
    and next_law: "inv d R log \<Longrightarrow> todo d = e # es \<Longrightarrow> procreact_initialize_future K type (cmd e) w = (future, w')
      \<Longrightarrow> 0 < future_pid future \<Longrightarrow> future_pid future \<notin> fst ` R
      \<Longrightarrow> \<exists>d'. nx K d w = Inr (future, d', w') \<and> todo d' = es \<and> inv d' (insert (future_pid future, e) R) log"
    and complete_law: "inv d R log \<Longrightarrow> (future_pid future, e) \<in> R
      \<Longrightarrow> may e (future_result future) \<Longrightarrow> (future_result future \<noteq> None \<longrightarrow> outcome = PROCREACT_STATUS_OK)
      \<Longrightarrow> \<exists>d'. cp d future outcome = Inr d' \<and> todo d' = todo d
        \<and> inv d' (R - {(future_pid future, e)}) (log @ [(e, future_result future)])"
begin

definition iterates :: "kernel \<Rightarrow> ('d, 's, 'r) ProcReact_FutureIterator \<Rightarrow> bool" where
  "iterates K it \<longleftrightarrow> future_has_next it = hn \<and> next_future it = nx K \<and> complete_future it = cp"

text \<open>What was read of the output of an element and what is left of it make up the whole.\<close>

definition tracks :: "(child \<Rightarrow> string list) \<Rightarrow> (int \<times> 'e) set \<Rightarrow> event list \<Rightarrow> ('s, 'r) buffered \<Rightarrow> bool" where
  "tracks out R t b \<longleftrightarrow> (\<exists>e. (future_pid (fst b), e) \<in> R \<and> running_as (future_pid (fst b)) t = Some (cmd e)
     \<and> future_type (fst b) = type \<and> [] \<notin> set (future_fd (fst b))
     \<and> foldl (append_piece type) (snd b) (future_fd (fst b)) = foldl (append_piece type) (initialize type) (out (cmd e)))"

definition running :: "(child \<Rightarrow> string list) \<Rightarrow> (int \<times> 'e) set \<Rightarrow> ('d, 's, 'r) ProcReact_FutureIterator \<Rightarrow> os \<Rightarrow> bool" where
  "running out R it w \<longleftrightarrow> wf_os w \<and> finite R \<and> inj_on fst R \<and> fst ` R = set (children w)
     \<and> distinct (map (future_pid \<circ> fst) (futures it)) \<and> (future_pid \<circ> fst) ` set (futures it) = set (children w)
     \<and> (\<forall>b \<in> set (futures it). tracks out R (trace w) b)"

text \<open>
  Since a state with trace \<open>t0\<close> and the elements \<open>es0\<close> to start: what has a result, what runs and what is left
  make up \<open>es0\<close>, and every result is the answer of the command of its element.
\<close>

definition since :: "(child \<Rightarrow> string list) \<Rightarrow> (child \<Rightarrow> wstatus) \<Rightarrow> ('s \<Rightarrow> 'r) \<Rightarrow> event list \<Rightarrow> 'e list
    \<Rightarrow> ('d, 's, 'r) ProcReact_FutureIterator \<Rightarrow> os \<Rightarrow> bool" where
  "since out exits fin t0 es0 it w \<longleftrightarrow> (\<exists>new R log. trace w = new @ t0
     \<and> spawned new @ map cmd (todo (future_data it)) = map cmd es0
     \<and> inv (future_data it) R log \<and> running out R it w
     \<and> mset (map fst log) + image_mset snd (mset_set R) + mset (todo (future_data it)) = mset es0
     \<and> (\<forall>(e, r) \<in> set log. r = answer type fin out exits (cmd e)))"

lemma since_start:
  assumes "inv (future_data it) {} []" and "wf_os w" and "children w = []" and "futures it = []"
  shows "since out exits fin (trace w) (todo (future_data it)) it w"
  unfolding since_def running_def
  by (rule exI [of _ "[]"], rule exI [of _ "{}"], rule exI [of _ "[]"]) (use assms in simp)

lemma spawn_step:
  assumes K: "regular_kernel K out exits" and it: "iterates K it" and t: "todo (future_data it) = e # es"
    and s: "since out exits fin t0 es0 it w"
  shows "\<exists>it' w'. procreact_spawn_next_future it w = Inr (True, it', w') \<and> iterates K it'
    \<and> todo (future_data it') = es \<and> since out exits fin t0 es0 it' w'
    \<and> (\<exists>f st. futures it' = futures it @ [(f, st)] \<and> future_fd f = out (cmd e))"
proof -
  from K have live: "kernel_live K" and pipe: "k_pipe K w" and printed: "k_output K c w = out c" "[] \<notin> set (out c)" for c
    by (auto simp: regular_kernel_def)
  from s obtain new R log where new: "trace w = new @ t0" "spawned new @ map cmd (todo (future_data it)) = map cmd es0"
    "inv (future_data it) R log" "running out R it w"
    "mset (map fst log) + image_mset snd (mset_set R) + mset (todo (future_data it)) = mset es0"
    "\<forall>(e, r) \<in> set log. r = answer type fin out exits (cmd e)" unfolding since_def by blast
  note run = new(4) [unfolded running_def]
  obtain p w' where f: "sys_fork K (cmd e) w = (p, w')" by fastforce
  from sys_fork_live [OF live f] have p: "0 < p" "p \<notin> set (children w)"
    and w': "w' = w\<lparr>children := p # children w, trace := Forked p (cmd e) # trace w\<rparr>" by simp_all
  let ?f = "\<lparr>future_type = type, future_pid = p, future_fd = out (cmd e), future_result = None\<rparr> :: ('s, 'r) ProcReact_Future"
  have init: "procreact_initialize_future K type (cmd e) w = (?f, w')"
    using pipe f p printed by (simp add: procreact_initialize_future_def)
  have pR: "p \<notin> fst ` R" using run p by simp
  with next_law [OF new(3) t init] p obtain d' where d': "nx K (future_data it) w = Inr (?f, d', w')" "todo d' = es"
    "inv d' (insert (p, e) R) log" by auto
  let ?it = "it\<lparr>future_data := d', futures := futures it @ [(?f, initialize type)]\<rparr>"
  have "procreact_spawn_next_future it w = Inr (True, ?it, w')"
    using it d'(1) p has_next_law [OF new(3)] t by (simp add: procreact_spawn_next_future_def iterates_def)
  moreover have "running out (insert (p, e) R) ?it w'"
  proof -
    have "tracks out (insert (p, e) R) (trace w') b" if b: "b \<in> set (futures it)" for b
    proof -
      have "future_pid (fst b) \<noteq> p" using b run p by force
      with b run show ?thesis by (auto simp: tracks_def w')
    qed
    moreover have "tracks out (insert (p, e) R) (trace w') (?f, initialize type)"
      using printed by (auto simp: tracks_def w')
    moreover have "wf_os w'" using wf_os_fork [OF kernel_live_ok [OF live] _ f] run by simp
    moreover have "inj_on fst (insert (p, e) R)" using run pR by auto
    ultimately show ?thesis using run pR p unfolding running_def by (auto simp: w')
  qed
  moreover have "(p, e) \<notin> R" using pR by force
  ultimately have "since out exits fin t0 es0 ?it w'"
    unfolding since_def
    by (intro exI [of _ "Forked p (cmd e) # new"] exI [of _ "insert (p, e) R"] exI [of _ log])
      (use new d' t run in \<open>simp add: w'\<close>)
  moreover have "iterates K ?it" using it by (simp add: iterates_def)
  ultimately show ?thesis using \<open>procreact_spawn_next_future it w = _\<close> d'(2) by (intro exI [of _ ?it] exI [of _ w']) simp
qed

lemma spawn_done:
  assumes "iterates K it" and "todo (future_data it) = []" and "since out exits fin t0 es0 it w"
  shows "procreact_spawn_next_future it w = Inr (False, it, w)"
proof -
  from assms(3) obtain R log where "inv (future_data it) R log" unfolding since_def by blast
  with has_next_law assms(1,2) show ?thesis by (simp add: procreact_spawn_next_future_def iterates_def)
qed

text \<open>One piece read, or one process that has ended.\<close>

definition work :: "('d, 's, 'r) ProcReact_FutureIterator \<Rightarrow> nat" where
  "work it = sum_list (map (\<lambda>b. Suc (length (future_fd (fst b)))) (futures it))"

lemma work_update:
  "i < length (futures it) \<Longrightarrow> future_fd (fst (futures it ! i)) = x # xs \<Longrightarrow> future_fd f = xs
     \<Longrightarrow> Suc (work (it\<lparr>futures := (futures it)[i := (f, st)]\<rparr>)) = work it"
  using elem_le_sum_list [of i "map (\<lambda>b. Suc (length (future_fd (fst b)))) (futures it)"]
  by (simp add: work_def map_update sum_list_update)

lemma work_remove:
  assumes "i < length (futures it)"
  shows "work (it\<lparr>future_data := d, futures := remove_swap i (futures it)\<rparr>) < work it"
proof -
  let ?g = "\<lambda>b :: ('s, 'r) buffered. Suc (length (future_fd (fst b)))" and ?M = "mset (futures it)"
  have w: "sum_list (map ?g xs) = sum_mset (image_mset ?g (mset xs))" for xs
    by (induction xs) simp_all
  from assms have "futures it ! i \<in># ?M" by simp
  then obtain M where M: "?M = add_mset (futures it ! i) M" by (rule mset_add)
  then have "mset (remove_swap i (futures it)) = M" by (simp add: mset_remove_swap [OF assms])
  then show ?thesis unfolding work_def w by (simp add: M)
qed

lemma read_step:
  assumes s: "since out exits fin t0 es0 it w" and i: "i < length (futures it)"
    and a: "append_next (futures it ! i) = (n, f, st)" and n: "n \<noteq> 0"
  shows "since out exits fin t0 es0 (it\<lparr>futures := (futures it)[i := (f, st)]\<rparr>) w"
    and "Suc (work (it\<lparr>futures := (futures it)[i := (f, st)]\<rparr>)) = work it"
proof -
  obtain f0 st0 where b: "futures it ! i = (f0, st0)" by fastforce
  with a n obtain x xs where x: "future_fd f0 = x # xs" "f = f0\<lparr>future_fd := xs\<rparr>" "st = append_piece (future_type f0) st0 x"
    by (auto simp: append_next_def split: list.splits)
  show "Suc (work (it\<lparr>futures := (futures it)[i := (f, st)]\<rparr>)) = work it" using i b x by (intro work_update) auto
  from s obtain new R log where new: "trace w = new @ t0" "spawned new @ map cmd (todo (future_data it)) = map cmd es0"
    "inv (future_data it) R log" "running out R it w"
    "mset (map fst log) + image_mset snd (mset_set R) + mset (todo (future_data it)) = mset es0"
    "\<forall>(e, r) \<in> set log. r = answer type fin out exits (cmd e)" unfolding since_def by blast
  note run = new(4) [unfolded running_def]
  have "(f0, st0) \<in> set (futures it)" using i b by (metis nth_mem)
  then have "tracks out R (trace w) (f0, st0)" using run by blast
  then have "tracks out R (trace w) (f, st)" unfolding tracks_def by (auto simp: x)
  then have "\<forall>b \<in> set ((futures it)[i := (f, st)]). tracks out R (trace w) b"
    using run set_update_subset_insert [of "futures it" i "(f, st)"] by blast
  moreover have pids: "map (future_pid \<circ> fst) ((futures it)[i := (f, st)]) = map (future_pid \<circ> fst) (futures it)"
  proof -
    have "(future_pid \<circ> fst) (f, st) = map (future_pid \<circ> fst) (futures it) ! i" using i b by (simp add: x)
    then show ?thesis by (simp only: map_update list_update_id)
  qed
  from arg_cong [OF this, of set]
  have "(future_pid \<circ> fst) ` set ((futures it)[i := (f, st)]) = (future_pid \<circ> fst) ` set (futures it)" by (simp only: set_map)
  ultimately have "running out R (it\<lparr>futures := (futures it)[i := (f, st)]\<rparr>) w"
    using run pids unfolding running_def by simp
  with new show "since out exits fin t0 es0 (it\<lparr>futures := (futures it)[i := (f, st)]\<rparr>) w"
    unfolding since_def by (intro exI [of _ new] exI [of _ R] exI [of _ log]) simp
qed

definition answers :: "(child \<Rightarrow> string list) \<Rightarrow> (child \<Rightarrow> wstatus) \<Rightarrow> ('s \<Rightarrow> 'r) \<Rightarrow> 'e list \<Rightarrow> bool" where
  "answers out exits fin es \<longleftrightarrow> (\<forall>e \<in> set es. may e (answer type fin out exits (cmd e)))"

lemma finish_step:
  assumes K: "regular_kernel K out exits" and fin: "finishes type fin" and may: "answers out exits fin es0" and it: "iterates K it"
    and s: "since out exits fin t0 es0 it w" and i: "i < length (futures it)"
    and a: "append_next (futures it ! i) = (0, f, st)"
  shows "\<exists>outcome r w' d. finalize (future_type f) K st (future_pid f) w = ((outcome, r), w')
    \<and> cp (future_data it) (f\<lparr>future_result := r\<rparr>) outcome = Inr d \<and> todo d = todo (future_data it)
    \<and> since out exits fin t0 es0 (it\<lparr>future_data := d, futures := remove_swap i (futures it)\<rparr>) w'"
proof -
  from s obtain new R log where new: "trace w = new @ t0" "spawned new @ map cmd (todo (future_data it)) = map cmd es0"
    "inv (future_data it) R log" "running out R it w"
    "mset (map fst log) + image_mset snd (mset_set R) + mset (todo (future_data it)) = mset es0"
    "\<forall>(e, r) \<in> set log. r = answer type fin out exits (cmd e)" unfolding since_def by blast
  note run = new(4) [unfolded running_def]
  have mem: "futures it ! i \<in> set (futures it)" using i by simp
  then obtain e where e: "(future_pid (fst (futures it ! i)), e) \<in> R"
    "running_as (future_pid (fst (futures it ! i))) (trace w) = Some (cmd e)" "future_type (fst (futures it ! i)) = type"
    "[] \<notin> set (future_fd (fst (futures it ! i)))"
    "foldl (append_piece type) (snd (futures it ! i)) (future_fd (fst (futures it ! i)))
      = foldl (append_piece type) (initialize type) (out (cmd e))"
    using run unfolding tracks_def by blast
  have "future_fd (fst (futures it ! i)) = [] \<and> (f, st) = futures it ! i"
    using a e(4) by (auto simp: append_next_def split: prod.splits list.splits)
  then have b: "futures it ! i = (f, st)" "future_fd f = []" by (metis fst_conv)+
  from e have f: "(future_pid f, e) \<in> R" "running_as (future_pid f) (trace w) = Some (cmd e)"
    "future_type f = type" "st = foldl (append_piece type) (initialize type) (out (cmd e))" by (simp_all add: b)
  let ?p = "future_pid f" and ?ws = "exits (cmd e)"
  have p: "?p \<in> set (children w)" using f(1) run by force
  then have "0 < ?p" using run by (simp add: wf_os_def)
  define w' where "w' = w\<lparr>children := removeAll ?p (children w), trace := Reaped ?p ?ws # trace w\<rparr>"
  define r where "r = answer type fin out exits (cmd e)"
  let ?s = "procreact_retrieve_boolean ?p ?ws"
  have good: "succeeded ?s \<longleftrightarrow> ?ws = Exited 0" using \<open>0 < ?p\<close> succeeded_retrieve_boolean [of ?p ?ws] by simp
  have "procreact_wait_for_boolean K ?p w = (?s, w')" using regular_wait [OF K _ p f(2)] run by (simp add: w'_def)
  with fin good have fz: "finalize (future_type f) K st ?p w = ((fst ?s, r), w')"
    unfolding finishes_def by (simp add: f r_def answer_def)
  have "r \<noteq> None \<longrightarrow> fst ?s = PROCREACT_STATUS_OK" using good by (auto simp: r_def answer_def)
  moreover have "may e r"
  proof -
    have "e \<in># image_mset snd (mset_set R)" using f(1) run by force
    then have "e \<in># mset es0" by (metis new(5) union_iff)
    with may show ?thesis by (simp add: answers_def r_def)
  qed
  ultimately obtain d where d: "cp (future_data it) (f\<lparr>future_result := r\<rparr>) (fst ?s) = Inr d" "todo d = todo (future_data it)"
    "inv d (R - {(?p, e)}) (log @ [(e, r)])"
    using complete_law [OF new(3), of "f\<lparr>future_result := r\<rparr>" e "fst ?s"] f(1) by auto
  let ?fs = "remove_swap i (futures it)" and ?R = "R - {(?p, e)}"
  have dist: "distinct (futures it)" using run distinct_map by blast
  then have set: "set ?fs = set (futures it) - {(f, st)}" "distinct ?fs"
    using distinct_remove_swap [OF dist i] b(1) by simp_all
  have "running out ?R (it\<lparr>future_data := d, futures := ?fs\<rparr>) w'"
  proof -
    have inj: "inj_on (future_pid \<circ> fst) (set (futures it))" using run by (simp add: distinct_map)
    have "(f, st) \<in> set (futures it)" using mem b(1) by simp
    with inj have "(future_pid \<circ> fst) ` set ?fs = (future_pid \<circ> fst) ` set (futures it) - {?p}"
      unfolding set(1) by (subst inj_on_image_set_diff [OF inj]) auto
    moreover have "fst ` ?R = fst ` R - {?p}"
      using f(1) run by (subst inj_on_image_set_diff [of fst R]) auto
    moreover have "distinct (map (future_pid \<circ> fst) ?fs)"
      using set(2) inj unfolding distinct_map set(1) by (blast intro: inj_on_subset)
    moreover have "wf_os w'" using run by (auto simp: wf_os_def w'_def distinct_removeAll)
    moreover have "tracks out ?R (trace w') b" if b: "b \<in> set ?fs" for b
    proof -
      have "future_pid (fst b) \<noteq> ?p" using b set(1) inj \<open>(f, st) \<in> set (futures it)\<close>
        by (metis Diff_iff comp_apply fst_conv inj_on_contraD insertI1)
      moreover have "tracks out R (trace w) b" using b set(1) run by blast
      ultimately show ?thesis by (auto simp: tracks_def w'_def)
    qed
    moreover have "finite ?R" "inj_on fst ?R" using run by (simp_all add: inj_on_diff)
    moreover have "set (children w') = set (children w) - {?p}" by (simp add: w'_def)
    ultimately show ?thesis using run unfolding running_def by simp
  qed
  moreover have "image_mset snd (mset_set R) = add_mset e (image_mset snd (mset_set ?R))"
    using f(1) run by (subst mset_set.remove [of R "(?p, e)"]) simp_all
  ultimately have "since out exits fin t0 es0 (it\<lparr>future_data := d, futures := ?fs\<rparr>) w'"
    unfolding since_def
    by (intro exI [of _ "Reaped ?p ?ws # new"] exI [of _ ?R] exI [of _ "log @ [(e, r)]"])
      (use new d in \<open>simp add: w'_def r_def\<close>)
  with fz d show ?thesis by blast
qed

text \<open>A turn reads at least one piece or ends at least one process, as long as there is one.\<close>

lemma buffer_from_turn:
  assumes K: "regular_kernel K out exits" and fin: "finishes type fin" and may: "answers out exits fin es0"
    and it: "iterates K it" and s: "since out exits fin t0 es0 it w"
  shows "\<exists>it' w'. buffer_from K i it w = Inr (it', w') \<and> iterates K it' \<and> since out exits fin t0 es0 it' w'
    \<and> todo (future_data it') = todo (future_data it) \<and> work it' \<le> work it
    \<and> (i < length (futures it) \<longrightarrow> work it' < work it)"
  using it s
proof (induction "length (futures it) - i" arbitrary: i it w rule: less_induct)
  case less
  show ?case
  proof (cases "i < length (futures it)")
    case False
    with less.prems show ?thesis by (subst buffer_from.simps) simp
  next
    case True
    obtain n f st where a: "append_next (futures it ! i) = (n, f, st)" by (metis surj_pair)
    show ?thesis
    proof (cases "n = 0")
      case False
      let ?it = "it\<lparr>futures := (futures it)[i := (f, st)]\<rparr>"
      note step = read_step [OF less.prems(2) True a False]
      have "iterates K ?it" using less.prems(1) by (simp add: iterates_def)
      moreover have "length (futures ?it) - (i + 1) < length (futures it) - i" using True by simp
      ultimately obtain it' w' where
        "buffer_from K (i + 1) ?it w = Inr (it', w')" "iterates K it'" "since out exits fin t0 es0 it' w'"
        "todo (future_data it') = todo (future_data ?it)" "work it' \<le> work ?it" using less.hyps [of ?it "i + 1" w] step(1) by blast
      with step(2) False True a show ?thesis by (subst buffer_from.simps) auto
    next
      case zero: True
      from finish_step [OF K fin may less.prems True a [unfolded zero]] obtain outcome r w1 d where
        d: "finalize (future_type f) K st (future_pid f) w = ((outcome, r), w1)"
          "cp (future_data it) (f\<lparr>future_result := r\<rparr>) outcome = Inr d" "todo d = todo (future_data it)"
          "since out exits fin t0 es0 (it\<lparr>future_data := d, futures := remove_swap i (futures it)\<rparr>) w1" by blast
      let ?it = "it\<lparr>future_data := d, futures := remove_swap i (futures it)\<rparr>"
      have "iterates K ?it" using less.prems(1) by (simp add: iterates_def)
      moreover have "length (futures ?it) - (i + 1) < length (futures it) - i" using True by simp
      ultimately obtain it' w' where
        "buffer_from K (i + 1) ?it w1 = Inr (it', w')" "iterates K it'" "since out exits fin t0 es0 it' w'"
        "todo (future_data it') = todo (future_data ?it)" "work it' \<le> work ?it" using less.hyps [of ?it "i + 1" w1] d(4) by blast
      with work_remove [OF True, of d] d zero True a less.prems(1) show ?thesis
        by (subst buffer_from.simps) (auto simp: iterates_def)
    qed
  qed
qed

lemma buffer_while_all:
  assumes K: "regular_kernel K out exits" and fin: "finishes type fin" and may: "answers out exits fin es0"
    and it: "iterates K it" and s: "since out exits fin t0 es0 it w" and fuel: "work it < fuel"
  shows "\<exists>it' w'. buffer_while K fuel (\<lambda>n. 0 < n) it w = Inr (it', w') \<and> iterates K it' \<and> futures it' = []
    \<and> todo (future_data it') = todo (future_data it) \<and> since out exits fin t0 es0 it' w'"
  using it s fuel
proof (induction fuel arbitrary: it w)
  case (Suc fuel)
  from buffer_from_turn [OF K fin may Suc.prems(1,2), of 0] obtain it' w' where
    turn: "buffer_from K 0 it w = Inr (it', w')" "iterates K it'" "since out exits fin t0 es0 it' w'"
      "todo (future_data it') = todo (future_data it)" "futures it \<noteq> [] \<longrightarrow> work it' < work it" "work it' \<le> work it" by auto
  show ?case
  proof (cases "futures it' = []")
    case True
    with turn show ?thesis by (simp add: procreact_buffer_def)
  next
    case False
    have "0 < work it'" using False by (cases "futures it'") (simp_all add: work_def)
    with turn(6) have "work it \<noteq> 0" by simp
    then have "futures it \<noteq> []" by (auto simp: work_def)
    with turn(5) Suc.prems(3) have "work it' < fuel" by simp
    from Suc.IH [OF turn(2,3) this] turn False show ?thesis by (simp add: procreact_buffer_def)
  qed
qed simp

abbreviation pieces :: "(child \<Rightarrow> string list) \<Rightarrow> 'e list \<Rightarrow> nat" where
  "pieces out es \<equiv> sum_list (map (\<lambda>e. Suc (length (out (cmd e)))) es)"

lemma spawn_futures_all:
  assumes K: "regular_kernel K out exits" and it: "iterates K it"
    and s: "since out exits fin t0 es0 it w" and fuel: "length (todo (future_data it)) < fuel"
  shows "\<exists>it' w'. spawn_futures fuel (\<lambda>n. True) it w = Inr (it', w') \<and> iterates K it' \<and> todo (future_data it') = []
    \<and> since out exits fin t0 es0 it' w' \<and> work it' = work it + pieces out (todo (future_data it))"
  using it s fuel
proof (induction fuel arbitrary: it w)
  case (Suc fuel)
  show ?case
  proof (cases "todo (future_data it)")
    case Nil
    with spawn_done [OF Suc.prems(1) _ Suc.prems(2)] Suc.prems show ?thesis by simp
  next
    case (Cons e es)
    from spawn_step [OF K Suc.prems(1) Cons Suc.prems(2)] obtain it' w' f st where
      st: "procreact_spawn_next_future it w = Inr (True, it', w')" "iterates K it'" "todo (future_data it') = es"
        "since out exits fin t0 es0 it' w'" "futures it' = futures it @ [(f, st)]" "future_fd f = out (cmd e)" by blast
    from Suc.IH [OF st(2,4)] st Suc.prems(3) Cons show ?thesis by (auto simp: work_def)
  qed
qed simp

text \<open>
  All elements are started in their order, the iterator returns when all have ended, and the results it has handed
  over are, in some order, the answers of the commands of the elements.
\<close>

lemma fork_in_parallel_buffer_total:
  assumes K: "regular_kernel K out exits" and fin: "finishes type fin" and it: "iterates K it"
    and may: "answers out exits fin (todo (future_data it))"
    and w: "wf_os w" "children w = []" and none: "futures it = []" and inv: "inv (future_data it) {} []"
    and fuel: "length (todo (future_data it)) < fuel" "pieces out (todo (future_data it)) < fuel"
  obtains it' w' new log where "procreact_fork_in_parallel_buffer_and_wait K fuel it w = Inr (it', w')"
    "children w' = []" "wf_os w'" "trace w' = new @ trace w" "spawned new = map cmd (todo (future_data it))"
    "inv (future_data it') {} log" "mset (map fst log) = mset (todo (future_data it))"
    "\<forall>(e, r) \<in> set log. r = answer type fin out exits (cmd e)"
proof -
  note s = since_start [OF inv w none, of out exits fin]
  from spawn_futures_all [OF K it s fuel(1)] obtain it1 w1 where
    1: "spawn_futures fuel (\<lambda>n. True) it w = Inr (it1, w1)" "iterates K it1" "todo (future_data it1) = []"
      "since out exits fin (trace w) (todo (future_data it)) it1 w1" "work it1 < fuel"
    using fuel(2) by (auto simp: work_def none)
  from buffer_while_all [OF K fin may 1(2,4,5)] obtain it2 w2 where
    2: "buffer_while K fuel (\<lambda>n. 0 < n) it1 w1 = Inr (it2, w2)" "futures it2 = []" "todo (future_data it2) = []"
      "since out exits fin (trace w) (todo (future_data it)) it2 w2" using 1(3) by auto
  from 2(4) obtain new R log where 3: "trace w2 = new @ trace w"
    "spawned new @ map cmd (todo (future_data it2)) = map cmd (todo (future_data it))"
    "inv (future_data it2) R log" "running out R it2 w2"
    "mset (map fst log) + image_mset snd (mset_set R) + mset (todo (future_data it2)) = mset (todo (future_data it))"
    "\<forall>(e, r) \<in> set log. r = answer type fin out exits (cmd e)" unfolding since_def by blast
  from 3(4) have "children w2 = []" "R = {}" "wf_os w2" using 2(2) by (auto simp: running_def)
  with 1(1) 2(1,3) 3 that show ?thesis by (simp add: procreact_fork_in_parallel_buffer_and_wait_def)
qed

end

section \<open>The shared state (modeliterator.c) and the machines (targets-iterator.c)\<close>

definition next_iteration_future :: "'i ModelIteratorData \<Rightarrow> ('s, 'r) ProcReact_Future \<Rightarrow> 'i \<Rightarrow> 'i ModelIteratorData" where
  "next_iteration_future d future item = next_iteration_process d (future_pid future) item"

definition complete_iteration_future ::
  "'i ModelIteratorData \<Rightarrow> ('s, 'r) ProcReact_Future \<Rightarrow> ProcReact_Status \<Rightarrow> 'i option \<times> 'i ModelIteratorData" where
  "complete_iteration_future d future status =
     (map_of (item_table d) (future_pid future),
      if status \<noteq> PROCREACT_STATUS_OK \<or> future_result future = None then d\<lparr>success := False\<rparr> else d)"

record ('s, 'r, 'u) TargetFutureIteratorData =
  future_iterator_data :: "string ModelIteratorData"
  future_targets_table :: "Target hashtable"
  map_target_future :: "kernel \<Rightarrow> 'u \<Rightarrow> string \<Rightarrow> Target \<Rightarrow> os \<Rightarrow> (('s, 'r) ProcReact_Future \<times> os) result"
  complete_target_mapping_future ::
    "'u \<Rightarrow> cstr \<Rightarrow> Target option \<Rightarrow> ('s, 'r) ProcReact_Future \<Rightarrow> ProcReact_Status \<Rightarrow> 'u result"
  future_user_data :: 'u

definition has_next_target_future :: "('s, 'r, 'u) TargetFutureIteratorData \<Rightarrow> bool" where
  "has_next_target_future d = has_next_iteration_process (future_iterator_data d)"

definition next_target_future ::
  "kernel \<Rightarrow> ('s, 'r, 'u) TargetFutureIteratorData \<Rightarrow> os
    \<Rightarrow> (('s, 'r) ProcReact_Future \<times> ('s, 'r, 'u) TargetFutureIteratorData \<times> os) result" where
  "next_target_future K d w =
     bindr (deref (entry_at (future_targets_table d) (index (future_iterator_data d)))) (\<lambda>(key, tgt).
     bindr (map_target_future d K (future_user_data d) key tgt w) (\<lambda>(future, w').
       Inr (future, d\<lparr>future_iterator_data := next_iteration_future (future_iterator_data d) future key\<rparr>, w')))"

definition complete_target_future ::
  "('s, 'r, 'u) TargetFutureIteratorData \<Rightarrow> ('s, 'r) ProcReact_Future \<Rightarrow> ProcReact_Status
    \<Rightarrow> ('s, 'r, 'u) TargetFutureIteratorData result" where
  "complete_target_future d future status =
     (case complete_iteration_future (future_iterator_data d) future status of (target_name, m) \<Rightarrow>
        bindr (g_hash_table_lookup (future_targets_table d) target_name) (\<lambda>tgt.
        bindr (complete_target_mapping_future d (future_user_data d) target_name tgt future status) (\<lambda>u.
          Inr (d\<lparr>future_iterator_data := m, future_user_data := u\<rparr>))))"

definition create_target_future_iterator ::
  "kernel \<Rightarrow> Target hashtable \<Rightarrow> (kernel \<Rightarrow> 'u \<Rightarrow> string \<Rightarrow> Target \<Rightarrow> os \<Rightarrow> (('s, 'r) ProcReact_Future \<times> os) result)
    \<Rightarrow> ('u \<Rightarrow> cstr \<Rightarrow> Target option \<Rightarrow> ('s, 'r) ProcReact_Future \<Rightarrow> ProcReact_Status \<Rightarrow> 'u result) \<Rightarrow> 'u
    \<Rightarrow> (('s, 'r, 'u) TargetFutureIteratorData, 's, 'r) ProcReact_FutureIterator" where
  "create_target_future_iterator K tgts map_target complete_target u =
     procreact_initialize_future_iterator has_next_target_future (next_target_future K) complete_target_future
       \<lparr>future_iterator_data = init_model_iterator_data (length tgts), future_targets_table = tgts,
        map_target_future = map_target, complete_target_mapping_future = complete_target, future_user_data = u\<rparr>"

definition target_future_iterator_has_succeeded ::
  "(('s, 'r, 'u) TargetFutureIteratorData, 's, 'r) ProcReact_FutureIterator \<Rightarrow> bool" where
  "target_future_iterator_has_succeeded it = success (future_iterator_data (future_data it))"

section \<open>The machines meet the contract\<close>

text \<open>
  What the functions of the caller owe, for all its data in \<open>U\<close>: the first initializes a future for the command
  of the machine, the second makes of the data what \<open>step\<close> says, which depends on the result alone, for every result \<open>may\<close> allows.
\<close>

definition serves :: "('s, 'r) ProcReact_Type \<Rightarrow> (string \<times> Target \<Rightarrow> child) \<Rightarrow> (string \<times> Target \<Rightarrow> 'r option \<Rightarrow> bool) \<Rightarrow> ('u \<Rightarrow> string \<times> Target \<Rightarrow> 'r option \<Rightarrow> 'u) \<Rightarrow> 'u set
    \<Rightarrow> Target hashtable \<Rightarrow> (kernel \<Rightarrow> 'u \<Rightarrow> string \<Rightarrow> Target \<Rightarrow> os \<Rightarrow> (('s, 'r) ProcReact_Future \<times> os) result)
    \<Rightarrow> ('u \<Rightarrow> cstr \<Rightarrow> Target option \<Rightarrow> ('s, 'r) ProcReact_Future \<Rightarrow> ProcReact_Status \<Rightarrow> 'u result) \<Rightarrow> bool" where
  "serves type cmd may step U tgts f c \<longleftrightarrow> (\<forall>u \<in> U. \<forall>n t. (n, t) \<in> set tgts \<longrightarrow>
     (\<forall>K w. f K u n t w = Inr (procreact_initialize_future K type (cmd (n, t)) w))
     \<and> (\<forall>future outcome. may (n, t) (future_result future) \<longrightarrow> (future_result future \<noteq> None \<longrightarrow> outcome = PROCREACT_STATUS_OK) \<longrightarrow>
          c u (Some n) (Some t) future outcome = Inr (step u (n, t) (future_result future))
          \<and> step u (n, t) (future_result future) \<in> U))"

lemma serves_complete:
  "serves type cmd may step U tgts f c \<Longrightarrow> u \<in> U \<Longrightarrow> (n, t) \<in> set tgts
    \<Longrightarrow> may (n, t) (future_result future) \<Longrightarrow> (future_result future \<noteq> None \<longrightarrow> outcome = PROCREACT_STATUS_OK)
    \<Longrightarrow> c u (Some n) (Some t) future outcome = Inr (step u (n, t) (future_result future))
      \<and> step u (n, t) (future_result future) \<in> U"
  unfolding serves_def by blast

definition target_future_todo :: "('s, 'r, 'u) TargetFutureIteratorData \<Rightarrow> (string \<times> Target) list" where
  "target_future_todo d = drop (index (future_iterator_data d)) (future_targets_table d)"

definition target_future_inv :: "('s, 'r) ProcReact_Type \<Rightarrow> (string \<times> Target \<Rightarrow> child) \<Rightarrow> (string \<times> Target \<Rightarrow> 'r option \<Rightarrow> bool) \<Rightarrow> ('u \<Rightarrow> string \<times> Target \<Rightarrow> 'r option \<Rightarrow> 'u)
    \<Rightarrow> 'u set \<Rightarrow> 'u \<Rightarrow> ('s, 'r, 'u) TargetFutureIteratorData \<Rightarrow> (int \<times> string \<times> Target) set
    \<Rightarrow> ((string \<times> Target) \<times> 'r option) list \<Rightarrow> bool" where
  "target_future_inv type cmd may step U u0 d R log \<longleftrightarrow>
     total (future_iterator_data d) = length (future_targets_table d) \<and> distinct (map fst (future_targets_table d))
     \<and> (\<forall>(p, e) \<in> R. e \<in> set (future_targets_table d) \<and> map_of (item_table (future_iterator_data d)) p = Some (fst e))
     \<and> serves type cmd may step U (future_targets_table d) (map_target_future d) (complete_target_mapping_future d)
     \<and> future_user_data d \<in> U \<and> future_user_data d = foldl (\<lambda>u (e, r). step u e r) u0 log
     \<and> (success (future_iterator_data d) \<longleftrightarrow> (\<forall>(e, r) \<in> set log. r \<noteq> None))"

lemma target_future_complete:
  fixes d :: "('s, 'r, 'u) TargetFutureIteratorData" and future :: "('s, 'r) ProcReact_Future"
  assumes inv: "target_future_inv type cmd may step U u0 d R log" and p: "(future_pid future, e) \<in> R"
    and may: "may e (future_result future)" and o: "future_result future \<noteq> None \<longrightarrow> outcome = PROCREACT_STATUS_OK"
  shows "\<exists>d'. complete_target_future d future outcome = Inr d' \<and> target_future_todo d' = target_future_todo d
      \<and> target_future_inv type cmd may step U u0 d' (R - {(future_pid future, e)}) (log @ [(e, future_result future)])"
proof -
  obtain n t where e: "e = (n, t)" by fastforce
  let ?m = "(future_iterator_data d)\<lparr>success := success (future_iterator_data d) \<and> future_result future \<noteq> None\<rparr>"
    and ?u = "step (future_user_data d) e (future_result future)"
  note i = inv [unfolded target_future_inv_def]
  have item: "(n, t) \<in> set (future_targets_table d)" "map_of (item_table (future_iterator_data d)) (future_pid future) = Some n"
    using i p by (auto simp: e)
  have "map_of (future_targets_table d) n = Some t" using i item(1) by simp
  moreover have "complete_iteration_future (future_iterator_data d) future outcome = (Some n, ?m)"
    using item(2) o by (auto simp: complete_iteration_future_def)
  moreover have u: "complete_target_mapping_future d (future_user_data d) (Some n) (Some t) future outcome = Inr ?u \<and> ?u \<in> U"
  proof -
    have "serves type cmd may step U (future_targets_table d) (map_target_future d) (complete_target_mapping_future d)"
      "future_user_data d \<in> U" using i by blast+
    from serves_complete [OF this item(1) may [unfolded e] o] show ?thesis by (simp only: e)
  qed
  ultimately have "complete_target_future d future outcome = Inr (d\<lparr>future_iterator_data := ?m, future_user_data := ?u\<rparr>)"
    by (simp add: complete_target_future_def)
  moreover have "target_future_inv type cmd may step U u0 (d\<lparr>future_iterator_data := ?m, future_user_data := ?u\<rparr>)
       (R - {(future_pid future, e)}) (log @ [(e, future_result future)])"
  proof -
    from i have "?u = foldl (\<lambda>u (e, r). step u e r) u0 (log @ [(e, future_result future)])" by simp
    moreover from i have "success ?m \<longleftrightarrow> (\<forall>(e, r) \<in> set (log @ [(e, future_result future)]). r \<noteq> None)" by auto
    moreover from i have "\<forall>(p, e) \<in> R - {(future_pid future, e)}. e \<in> set (future_targets_table d)
        \<and> map_of (item_table (future_iterator_data d)) p = Some (fst e)" by blast
    ultimately show ?thesis using i u unfolding target_future_inv_def by simp
  qed
  moreover have "target_future_todo (d\<lparr>future_iterator_data := ?m, future_user_data := ?u\<rparr>) = target_future_todo d"
    by (simp add: target_future_todo_def)
  ultimately show ?thesis by blast
qed

interpretation target_futures: future_iteration has_next_target_future next_target_future complete_target_future
  target_future_todo "target_future_inv type cmd may step U u0" cmd type may
  for type :: "('s, 'r) ProcReact_Type" and cmd may step U and u0 :: 'u
proof
  fix d :: "('s, 'r, 'u) TargetFutureIteratorData" and R log
  assume "target_future_inv type cmd may step U u0 d R log"
  then show "has_next_target_future d \<longleftrightarrow> target_future_todo d \<noteq> []"
    by (auto simp: target_future_inv_def has_next_target_future_def has_next_iteration_process_def target_future_todo_def)
next
  fix d :: "('s, 'r, 'u) TargetFutureIteratorData" and R log e es K w and future :: "('s, 'r) ProcReact_Future" and w'
  assume inv: "target_future_inv type cmd may step U u0 d R log" and t: "target_future_todo d = e # es"
    and f: "procreact_initialize_future K type (cmd e) w = (future, w')" and p: "0 < future_pid future" "future_pid future \<notin> fst ` R"
  obtain n t where e: "e = (n, t)" by fastforce
  let ?i = "index (future_iterator_data d)" and ?m = "next_iteration_future (future_iterator_data d) future n"
  have i: "?i < length (future_targets_table d)" "future_targets_table d ! ?i = e" "drop (Suc ?i) (future_targets_table d) = es"
  proof -
    show i: "?i < length (future_targets_table d)"
      using t by (cases "?i < length (future_targets_table d)") (simp_all add: target_future_todo_def)
    from Cons_nth_drop_Suc [OF i] t show "future_targets_table d ! ?i = e" "drop (Suc ?i) (future_targets_table d) = es"
      by (simp_all add: target_future_todo_def)
  qed
  then have mem: "(n, t) \<in> set (future_targets_table d)" using e by (metis nth_mem)
  then have "map_target_future d K (future_user_data d) n t w = Inr (future, w')"
    using inv f by (auto simp: target_future_inv_def serves_def e)
  then have "next_target_future K d w = Inr (future, d\<lparr>future_iterator_data := ?m\<rparr>, w')"
    using i e by (simp add: next_target_future_def entry_at_def)
  moreover have "target_future_inv type cmd may step U u0 (d\<lparr>future_iterator_data := ?m\<rparr>) (insert (future_pid future, e) R) log"
  proof -
    have "map_of (item_table ?m) q = (if q = future_pid future then Some n else map_of (item_table (future_iterator_data d)) q)" for q
      using p by (simp add: next_iteration_future_def next_iteration_process_def update_conv')
    moreover have "q \<noteq> future_pid future" if "(q, x) \<in> R" for q x using that p(2) by force
    ultimately show ?thesis using inv mem by (auto simp: target_future_inv_def e next_iteration_future_def)
  qed
  moreover have "target_future_todo (d\<lparr>future_iterator_data := ?m\<rparr>) = es"
    using i by (simp add: target_future_todo_def next_iteration_future_def)
  ultimately show "\<exists>d'. next_target_future K d w = Inr (future, d', w') \<and> target_future_todo d' = es
      \<and> target_future_inv type cmd may step U u0 d' (insert (future_pid future, e) R) log" by blast
next
  fix d :: "('s, 'r, 'u) TargetFutureIteratorData" and R log and future :: "('s, 'r) ProcReact_Future" and e outcome
  assume "target_future_inv type cmd may step U u0 d R log" "(future_pid future, e) \<in> R" "may e (future_result future)"
    "future_result future \<noteq> None \<longrightarrow> outcome = PROCREACT_STATUS_OK"
  then show "\<exists>d'. complete_target_future d future outcome = Inr d' \<and> target_future_todo d' = target_future_todo d
      \<and> target_future_inv type cmd may step U u0 d' (R - {(future_pid future, e)}) (log @ [(e, future_result future)])"
    by (rule target_future_complete)
qed

text \<open>A whole phase over the machines: the data of the caller and the outcome.\<close>

lemma target_futures_return:
  assumes K: "regular_kernel K out exits" and fin: "finishes type fin"
    and w: "wf_os w" "children w = []" and d: "distinct (map fst tgts)" and u: "u0 \<in> U"
    and s: "serves type cmd may step U tgts f c" and may: "\<forall>e \<in> set tgts. may e (answer type fin out exits (cmd e))"
    and fuel: "length tgts < fuel" "sum_list (map (\<lambda>e. Suc (length (out (cmd e)))) tgts) < fuel"
  obtains it' w' new log where
    "procreact_fork_in_parallel_buffer_and_wait K fuel (create_target_future_iterator K tgts f c u0) w = Inr (it', w')"
    "children w' = []" "wf_os w'" "trace w' = new @ trace w" "spawned new = map cmd tgts"
    "future_user_data (future_data it') = foldl (\<lambda>u (e, r). step u e r) u0 log"
    "mset (map fst log) = mset tgts" "\<forall>(e, r) \<in> set log. r = answer type fin out exits (cmd e)"
    "target_future_iterator_has_succeeded it' \<longleftrightarrow> (\<forall>e \<in> set tgts. exits (cmd e) = Exited 0)"
proof -
  let ?it = "create_target_future_iterator K tgts f c u0"
  have it: "target_futures.iterates K ?it" "futures ?it = []" "target_future_todo (future_data ?it) = tgts"
    by (simp_all add: target_futures.iterates_def create_target_future_iterator_def procreact_initialize_future_iterator_def
        target_future_todo_def init_model_iterator_data_def)
  have inv: "target_future_inv type cmd may step U u0 (future_data ?it) {} []"
    using d u s by (simp add: target_future_inv_def create_target_future_iterator_def procreact_initialize_future_iterator_def
        init_model_iterator_data_def)
  from target_futures.fork_in_parallel_buffer_total [unfolded target_futures.answers_def, OF K fin it(1) _ w it(2) inv,
      unfolded it(3), OF may fuel] obtain it' w' new log where
    r: "procreact_fork_in_parallel_buffer_and_wait K fuel ?it w = Inr (it', w')" "children w' = []" "wf_os w'"
      "trace w' = new @ trace w" "spawned new = map cmd tgts" "target_future_inv type cmd may step U u0 (future_data it') {} log"
      "mset (map fst log) = mset tgts" "\<forall>(e, r) \<in> set log. r = answer type fin out exits (cmd e)" .
  from mset_eq_setD [OF r(7)] have "fst ` set log = set tgts" by simp
  moreover have "r \<noteq> None \<longleftrightarrow> exits (cmd e) = Exited 0" if "(e, r) \<in> set log" for e r
  proof -
    from r(8) that have "r = answer type fin out exits (cmd e)" by fast
    then show ?thesis by (simp add: answer_def)
  qed
  then have "(\<forall>x \<in> set log. case x of (e, r) \<Rightarrow> r \<noteq> None) \<longleftrightarrow> (\<forall>x \<in> set log. exits (cmd (fst x)) = Exited 0)" by fastforce
  ultimately have "(\<forall>(e, r) \<in> set log. r \<noteq> None) \<longleftrightarrow> (\<forall>e \<in> set tgts. exits (cmd e) = Exited 0)" by (metis (no_types, lifting) image_iff)
  with r that show ?thesis by (simp add: target_future_inv_def target_future_iterator_has_succeeded_def)
qed

section \<open>Reading in turns and reading one after the other\<close>

text \<open>The reference: every machine is asked, and its whole output read, before the next one is asked.\<close>

fun ask_in_turn :: "kernel \<Rightarrow> ('e \<Rightarrow> child) \<Rightarrow> ('s, 'r) ProcReact_Type \<Rightarrow> 'e list \<Rightarrow> os \<Rightarrow> ('e \<times> 'r option) list \<times> os" where
  "ask_in_turn K cmd type [] w = ([], w)"
| "ask_in_turn K cmd type (e # es) w =
     (case procreact_initialize_future K type (cmd e) w of (future, w) \<Rightarrow>
      case procreact_future_get K future w of ((outcome, r), future, w) \<Rightarrow>
      case ask_in_turn K cmd type es w of (rs, w) \<Rightarrow> ((e, r) # rs, w))"

lemma ask_in_turn_answers:
  assumes K: "regular_kernel K out exits" and fin: "finishes type fin" and w: "wf_os w" "children w = []"
  shows "fst (ask_in_turn K cmd type es w) = map (\<lambda>e. (e, answer type fin out exits (cmd e))) es"
  using w
proof (induction es arbitrary: w)
  case (Cons e es)
  from K have live: "kernel_live K" and "k_pipe K w" "k_output K (cmd e) w = out (cmd e)" by (auto simp: regular_kernel_def)
  obtain p w1 where f: "sys_fork K (cmd e) w = (p, w1)" by fastforce
  from sys_fork_live [OF live f] Cons.prems have p: "0 < p" "children w1 = [p]" "running_as p (trace w1) = Some (cmd e)" by auto
  from wf_os_fork [OF kernel_live_ok [OF live] Cons.prems(1) f] have "wf_os w1" .
  from regular_wait [OF K this _ p(3)] p(2) have wait: "procreact_wait_for_boolean K p w1 = (procreact_retrieve_boolean p (exits (cmd e)),
    w1\<lparr>children := [], trace := Reaped p (exits (cmd e)) # trace w1\<rparr>)" by simp
  have "succeeded (procreact_retrieve_boolean p (exits (cmd e))) \<longleftrightarrow> exits (cmd e) = Exited 0"
    using p(1) succeeded_retrieve_boolean [of p] by simp
  with fin wait have fz: "finalize type K s p w1 = ((fst (procreact_retrieve_boolean p (exits (cmd e))),
      if exits (cmd e) = Exited 0 then Some (fin s) else None),
    w1\<lparr>children := [], trace := Reaped p (exits (cmd e)) # trace w1\<rparr>)" for s unfolding finishes_def by simp
  let ?w2 = "w1\<lparr>children := [], trace := Reaped p (exits (cmd e)) # trace w1\<rparr>"
  have "fst (ask_in_turn K cmd type es ?w2) = map (\<lambda>e. (e, answer type fin out exits (cmd e))) es"
    by (rule Cons.IH) (simp_all add: wf_os_def)
  then show ?case using f p(1) fz \<open>k_pipe K w\<close> \<open>k_output K (cmd e) w = out (cmd e)\<close>
    by (simp add: procreact_initialize_future_def procreact_future_get_def answer_def case_prod_unfold Let_def)
qed simp

text \<open>
  C13: Reading the output of all machines in turns, one piece of each, gives every completion function the result that asking
  the machines one after the other gives it: only the order of the completions differs, no output is lost, split or taken for that of another machine.
  The iterator returns, it has started one process per machine in order, and it has left none behind.
\<close>

theorem futures_as_asked_in_turn:
  assumes "regular_kernel K out exits" and "finishes type fin"
    and "wf_os w" and "children w = []" and "distinct (map fst tgts)" and "u0 \<in> U"
    and "serves type cmd may step U tgts f c" and "\<forall>e \<in> set tgts. may e (answer type fin out exits (cmd e))"
    and "length tgts < fuel" and "sum_list (map (\<lambda>e. Suc (length (out (cmd e)))) tgts) < fuel"
  shows "\<exists>it' w' new log. procreact_fork_in_parallel_buffer_and_wait K fuel (create_target_future_iterator K tgts f c u0) w = Inr (it', w')
    \<and> future_user_data (future_data it') = foldl (\<lambda>u (e, r). step u e r) u0 log
    \<and> mset log = mset (fst (ask_in_turn K cmd type tgts w))
    \<and> children w' = [] \<and> trace w' = new @ trace w \<and> spawned new = map cmd tgts"
proof -
  from target_futures_return [OF assms(1-2) assms(3-8) assms(9,10)] obtain it' w' new log where
    r: "procreact_fork_in_parallel_buffer_and_wait K fuel (create_target_future_iterator K tgts f c u0) w = Inr (it', w')"
      "children w' = []" "trace w' = new @ trace w" "spawned new = map cmd tgts"
      "future_user_data (future_data it') = foldl (\<lambda>u (e, r). step u e r) u0 log"
      "mset (map fst log) = mset tgts" "\<forall>(e, r) \<in> set log. r = answer type fin out exits (cmd e)" .
  have "map (\<lambda>e. (e, answer type fin out exits (cmd e))) (map fst log) = log"
    using r(7) by (auto intro!: map_idI simp: case_prod_unfold)
  then have "mset log = mset (map (\<lambda>e. (e, answer type fin out exits (cmd e))) tgts)"
    using r(6) by (metis mset_map)
  then have "mset log = mset (fst (ask_in_turn K cmd type tgts w))" by (simp only: ask_in_turn_answers [OF assms(1-4)])
  with r(1-5) show ?thesis by blast
qed

text \<open>Two machines, one of which prints its text in two pieces.\<close>

definition echo_kernel :: kernel where
  "echo_kernel = regular_demo (\<lambda>c. if c = Exec [''a''] [] then [''on'', ''e''] else [''two'']) (\<lambda>c. Exited 0)"

definition echo_target :: "string \<Rightarrow> Target" where
  "echo_target interface = create_target_from_element\<lparr>client_interface := Some interface\<rparr>"

definition echo_child :: "string \<times> Target \<Rightarrow> child" where
  "echo_child e = execvp [client_interface (snd e)]"

theorem futures_as_asked_in_turn_witness:
  "\<exists>it' w' new log. procreact_fork_in_parallel_buffer_and_wait echo_kernel 10
      (create_target_future_iterator echo_kernel [(''m'', echo_target ''a''), (''n'', echo_target ''b'')]
        (\<lambda>K u n t w. Inr (procreact_initialize_future K procreact_create_bytes_type (echo_child (n, t)) w))
        (\<lambda>u n t future outcome. Inr ((the n, future_result future) # u)) []) \<lparr>children = [], trace = []\<rparr> = Inr (it', w')
    \<and> future_user_data (future_data it') = foldl (\<lambda>u (e, r). (fst e, r) # u) [] log
    \<and> mset log = mset (fst (ask_in_turn echo_kernel echo_child procreact_create_bytes_type
        [(''m'', echo_target ''a''), (''n'', echo_target ''b'')] \<lparr>children = [], trace = []\<rparr>))
    \<and> children w' = [] \<and> spawned new = [Exec [''a''] [], Exec [''b''] []] \<and> trace w' = new"
proof -
  let ?out = "\<lambda>c. if c = Exec [''a''] [] then [''on'', ''e''] else [''two'']"
  let ?tgts = "[(''m'', echo_target ''a''), (''n'', echo_target ''b'')]"
  have K: "regular_kernel echo_kernel ?out (\<lambda>c. Exited 0)" unfolding echo_kernel_def by (rule regular_demo_regular) simp
  have s: "serves procreact_create_bytes_type echo_child (\<lambda>_ _. True) (\<lambda>u e r. (fst e, r) # u) UNIV ?tgts
      (\<lambda>K u n t w. Inr (procreact_initialize_future K procreact_create_bytes_type (echo_child (n, t)) w))
      (\<lambda>u n t future outcome. Inr ((the n, future_result future) # u))" by (simp add: serves_def)
  have w: "wf_os \<lparr>children = [], trace = []\<rparr>" "children \<lparr>children = [], trace = []\<rparr> = []" by (simp_all add: wf_os_def)
  have cmds: "map echo_child ?tgts = [Exec [''a''] [], Exec [''b''] []]" by (simp add: echo_child_def echo_target_def execvp_def)
  have fuel: "length ?tgts < 10" "sum_list (map (\<lambda>e. Suc (length (?out (echo_child e)))) ?tgts) < 10"
    by (simp_all add: echo_child_def echo_target_def execvp_def)
  have d: "distinct (map fst ?tgts)" and u: "[] \<in> UNIV" by simp_all
  from futures_as_asked_in_turn [OF K finishes_types(1) w d u s _ fuel, unfolded cmds] show ?thesis by auto
qed

end
