(* ===== verification/Deploy.thy ===== *)
theory Deploy
  imports Transition Deploy_Locking Package_Management Migration
begin

text \<open>
  The deployment of a configuration (\<open>libdeploy/deploy.c\<close>): distribute the closures, lock the machines,
  make the transition, migrate the data, set the profiles and unlock the machines; with the
  operations it is made of (\<open>distribute.c\<close>, \<open>activate.c\<close>, \<open>set-profiles.c\<close>). The messages on the
  progress are left out. The hooks that catch an interrupt are part of the kernel parameter.
\<close>

section \<open>Distributing the closures (distribute.c)\<close>

definition transfer_profile_mapping_to ::
  "kernel \<Rightarrow> cstr \<Rightarrow> string \<Rightarrow> string \<Rightarrow> Target option \<Rightarrow> os \<Rightarrow> (int \<times> os) result" where
  "transfer_profile_mapping_to K tmpdir target_name profile_path tgt w =
     bindr (deref tgt) (\<lambda>t.
     bindr (find_target_key t) (\<lambda>target_key.
       Inr (copy_closure_to K (client_interface t) target_key tmpdir [profile_path] w)))"

definition complete_transfer_profile_mapping_to ::
  "cstr \<Rightarrow> cstr \<Rightarrow> string option \<Rightarrow> Target option \<Rightarrow> ProcReact_Status \<Rightarrow> int \<Rightarrow> cstr result" where
  "complete_transfer_profile_mapping_to tmpdir target_name profile_path tgt outcome result = Inr tmpdir"

definition distribute ::
  "kernel \<Rightarrow> nat \<Rightarrow> string hashtable \<Rightarrow> Target hashtable \<Rightarrow> nat \<Rightarrow> cstr \<Rightarrow> os \<Rightarrow> (bool \<times> os) result" where
  "distribute K fuel profiles tgts max_concurrent_transfers tmpdir w =
     bindr (procreact_fork_and_wait_in_parallel_limit K fuel
              (create_profile_mapping_iterator K profiles tgts transfer_profile_mapping_to
                 complete_transfer_profile_mapping_to tmpdir) max_concurrent_transfers w)
       (\<lambda>(iterator, w). Inr (profile_mapping_iterator_has_succeeded iterator, w))"

section \<open>Setting the profiles (set-profiles.c)\<close>

definition SET_NO_COORDINATOR_PROFILE :: flags where "SET_NO_COORDINATOR_PROFILE = 0x1"
definition SET_NO_TARGET_PROFILES :: flags where "SET_NO_TARGET_PROFILES = 0x2"

definition set_profile_mapping ::
  "kernel \<Rightarrow> cstr \<Rightarrow> string \<Rightarrow> string \<Rightarrow> Target option \<Rightarrow> os \<Rightarrow> (int \<times> os) result" where
  "set_profile_mapping K profile target_name profile_path tgt w =
     bindr (deref tgt) (\<lambda>t.
     bindr (find_target_key t) (\<lambda>target_key.
       Inr (pkgmgmt_remote_set K (client_interface t) target_key profile (Some profile_path) w)))"

definition complete_set_profile_mapping ::
  "cstr \<Rightarrow> cstr \<Rightarrow> string option \<Rightarrow> Target option \<Rightarrow> ProcReact_Status \<Rightarrow> int \<Rightarrow> cstr result" where
  "complete_set_profile_mapping profile target_name profile_path tgt outcome result = Inr profile"

definition set_target_profiles ::
  "kernel \<Rightarrow> nat \<Rightarrow> string hashtable \<Rightarrow> Target hashtable \<Rightarrow> cstr \<Rightarrow> os \<Rightarrow> (bool \<times> os) result" where
  "set_target_profiles K fuel profiles tgts profile w =
     bindr (procreact_fork_in_parallel_and_wait K fuel
              (create_profile_mapping_iterator K profiles tgts set_profile_mapping
                 complete_set_profile_mapping profile) w)
       (\<lambda>(iterator, w). Inr (profile_mapping_iterator_has_succeeded iterator, w))"

definition set_profiles ::
  "kernel \<Rightarrow> posix \<Rightarrow> nat \<Rightarrow> string \<Rightarrow> string hashtable \<Rightarrow> Target hashtable \<Rightarrow> string \<Rightarrow> cstr \<Rightarrow> string \<Rightarrow> flags \<Rightarrow> os
    \<Rightarrow> (bool \<times> os) result" where
  "set_profiles K P fuel localstatedir profiles tgts manifest_file coordinator_profile_path profile flags =
     also_if (unless (has_flag flags SET_NO_TARGET_PROFILES)
                (set_target_profiles K fuel profiles tgts (Some profile)))
       (unless (has_flag flags SET_NO_COORDINATOR_PROFILE)
          (pkgmgmt_set_coordinator_profile K P localstatedir coordinator_profile_path manifest_file profile))"

section \<open>Activation (activate.c)\<close>

definition activate_system ::
  "kernel \<Rightarrow> ServiceMapping sort_function \<Rightarrow> nat \<Rightarrow> nat \<Rightarrow> Manifest \<Rightarrow> Manifest option \<Rightarrow> flags \<Rightarrow> os
    \<Rightarrow> (TransitionStatus \<times> traverse_state) result" where
  "activate_system K srt depth rounds manifest previous_manifest flags w =
     (let previous_manifest = (if has_flag flags FLAG_NO_UPGRADE then None else previous_manifest) in
      transition K srt depth rounds manifest previous_manifest flags w)"

definition newline :: string where "newline = [CHR 10]"

definition print_transition_status :: "TransitionStatus \<Rightarrow> cstr \<Rightarrow> string \<Rightarrow> cstr \<Rightarrow> string \<Rightarrow> string" where
  "print_transition_status outcome old_manifest_file new_manifest_file coordinator_profile_path profile =
     (if outcome = TRANSITION_SUCCESS
      then ''[coordinator]: The new configuration has been successfully activated!'' @ newline
      else ''[coordinator]: ERROR: Transition phase execution failed!'' @ newline @
        (case old_manifest_file of
           None \<Rightarrow> ''''
         | Some old_file \<Rightarrow>
             if outcome = TRANSITION_NEW_MAPPINGS_ROLLBACK_FAILED
             then newline @ ''The new mappings rollback failed! This means the system is now inconsistent!'' @ newline
               @ ''Please manually diagnose the errors before doing another redeployment!'' @ newline @ newline
               @ ''When the problems have been solved, the rollback can be triggered again, by'' @ newline
               @ ''running:'' @ newline @ newline
               @ ''$ disnix-activate --no-rollback -p '' @ profile @ '' ''
               @ (case coordinator_profile_path of None \<Rightarrow> '''' | Some p \<Rightarrow> ''--coordinator-profile-path '' @ p @ '' '')
               @ ''-o '' @ new_manifest_file @ '' '' @ old_file @ newline @ newline
             else if outcome = TRANSITION_OBSOLETE_MAPPINGS_ROLLBACK_FAILED
             then newline @ ''The obsolete mappings rollback failed! This means the system is now'' @ newline
               @ ''inconsistent! Please manually diagnose the errors before doing another'' @ newline
               @ ''redeployment!'' @ newline @ newline
               @ ''When the problems have been solved, the rollback can be triggered again, by'' @ newline
               @ ''running:'' @ newline @ newline
               @ ''$ disnix-activate --no-upgrade --no-rollback -p '' @ profile @ '' ''
               @ (case coordinator_profile_path of None \<Rightarrow> '''' | Some p \<Rightarrow> ''--coordinator-profile-path '' @ p @ '' '')
               @ old_file @ newline @ newline
             else ''''))"

section \<open>The whole deployment (deploy.c)\<close>

datatype DeployStatus = DEPLOY_OK | DEPLOY_FAIL | DEPLOY_STATE_FAIL

text \<open>What a deployment changes.\<close>

record deploy_state =
  deploy_machines :: "Target hashtable"
  deploy_mappings :: "ServiceMapping list"
  deploy_new_snapshots :: "SnapshotMapping list"
  deploy_old_snapshots :: "SnapshotMapping list"
  deploy_world :: os

definition acquire_locks ::
  "kernel \<Rightarrow> nat \<Rightarrow> string hashtable \<Rightarrow> Target hashtable \<Rightarrow> flags \<Rightarrow> string \<Rightarrow> os \<Rightarrow> (bool \<times> os) result" where
  "acquire_locks K fuel profiles tgts flags profile w =
     (if has_flag flags FLAG_NO_LOCK then Inr (True, w)
      else lock K fuel profiles tgts (Some profile) w)"

definition release_locks ::
  "kernel \<Rightarrow> nat \<Rightarrow> string hashtable \<Rightarrow> Target hashtable \<Rightarrow> flags \<Rightarrow> string \<Rightarrow> os \<Rightarrow> (bool \<times> os) result" where
  "release_locks K fuel profiles tgts flags profile w =
     (if has_flag flags FLAG_NO_LOCK then Inr (True, w)
      else unlock K fuel profiles tgts (Some profile) w)"

definition migrate_data ::
  "kernel \<Rightarrow> nat \<Rightarrow> Manifest \<Rightarrow> Manifest option \<Rightarrow> nat \<Rightarrow> flags \<Rightarrow> int \<Rightarrow> migration_state \<Rightarrow> (bool \<times> migration_state) result" where
  "migrate_data K fuel manifest old_manifest max_concurrent_transfers flags keep s =
     (if has_flag flags FLAG_NO_MIGRATION then Inr (True, s)
      else migrate K fuel manifest old_manifest max_concurrent_transfers flags keep s)"

definition set_all_profiles ::
  "kernel \<Rightarrow> posix \<Rightarrow> nat \<Rightarrow> string \<Rightarrow> string hashtable \<Rightarrow> Target hashtable \<Rightarrow> string \<Rightarrow> cstr \<Rightarrow> string \<Rightarrow> os \<Rightarrow> (bool \<times> os) result" where
  "set_all_profiles K P fuel localstatedir profiles tgts new_manifest coordinator_profile_path profile w =
     set_profiles K P fuel localstatedir profiles tgts new_manifest coordinator_profile_path profile 0 w"

text \<open>The part between taking the locks and giving them back; its outcome and the state in which they are given back.\<close>

definition deploy_locked ::
  "kernel \<Rightarrow> posix \<Rightarrow> ServiceMapping sort_function \<Rightarrow> nat \<Rightarrow> nat \<Rightarrow> nat \<Rightarrow> string \<Rightarrow> string \<Rightarrow> Manifest \<Rightarrow> Manifest option
    \<Rightarrow> string \<Rightarrow> cstr \<Rightarrow> nat \<Rightarrow> int \<Rightarrow> flags \<Rightarrow> os \<Rightarrow> (DeployStatus \<times> deploy_state) result" where
  "deploy_locked K P srt depth rounds fuel localstatedir new_manifest_file manifest old_manifest profile coordinator_profile_path
     max_concurrent_transfers keep flags w =
     bindr (activate_system K srt depth rounds manifest old_manifest flags w) (\<lambda>(transition_status, st).
     let s = \<lparr>deploy_machines = targets st, deploy_mappings = unified st,
              deploy_new_snapshots = snapshot_mapping_array manifest,
              deploy_old_snapshots = (case old_manifest of None \<Rightarrow> [] | Some p \<Rightarrow> snapshot_mapping_array p),
              deploy_world = world st\<rparr> in
     if transition_status \<noteq> TRANSITION_SUCCESS then Inr (DEPLOY_FAIL, s)
     else
       bindr (migrate_data K fuel manifest old_manifest max_concurrent_transfers flags keep
                \<lparr>new_snapshots = deploy_new_snapshots s, old_snapshots = deploy_old_snapshots s,
                 all_machines = deploy_machines s, migration_world = deploy_world s\<rparr>) (\<lambda>(migrated, ms).
       let s = s\<lparr>deploy_machines := all_machines ms, deploy_new_snapshots := new_snapshots ms,
                 deploy_old_snapshots := old_snapshots ms, deploy_world := migration_world ms\<rparr> in
       if \<not> migrated then Inr (DEPLOY_STATE_FAIL, s)
       else
         bindr (set_all_profiles K P fuel localstatedir (profile_mapping_table manifest) (deploy_machines s) new_manifest_file
                  coordinator_profile_path profile (deploy_world s)) (\<lambda>(profiles_set, w).
         Inr (if profiles_set then DEPLOY_OK else DEPLOY_FAIL, s\<lparr>deploy_world := w\<rparr>))))"

definition deploy ::
  "kernel \<Rightarrow> posix \<Rightarrow> ServiceMapping sort_function \<Rightarrow> nat \<Rightarrow> nat \<Rightarrow> nat \<Rightarrow> string \<Rightarrow> string \<Rightarrow> Manifest \<Rightarrow> Manifest option
    \<Rightarrow> string \<Rightarrow> cstr \<Rightarrow> nat \<Rightarrow> cstr \<Rightarrow> int \<Rightarrow> flags \<Rightarrow> os \<Rightarrow> (DeployStatus \<times> os) result" where
  "deploy K P srt depth rounds fuel localstatedir new_manifest_file manifest old_manifest profile coordinator_profile_path
     max_concurrent_transfers tmpdir keep flags w =
     bindr (distribute K fuel (profile_mapping_table manifest) (targets_table manifest) max_concurrent_transfers tmpdir w)
       (\<lambda>(distributed, w).
     if \<not> distributed then Inr (DEPLOY_FAIL, w)
     else bindr (acquire_locks K fuel (profile_mapping_table manifest) (targets_table manifest) flags profile w) (\<lambda>(locked, w).
     if \<not> locked then Inr (DEPLOY_FAIL, w)
     else bindr (deploy_locked K P srt depth rounds fuel localstatedir new_manifest_file manifest old_manifest profile
                   coordinator_profile_path max_concurrent_transfers keep flags w) (\<lambda>(outcome, s).
     bindr (release_locks K fuel (profile_mapping_table manifest) (deploy_machines s) flags profile (deploy_world s)) (\<lambda>(released, w).
       Inr (if outcome = DEPLOY_OK \<and> \<not> released then DEPLOY_FAIL else outcome, w)))))"

end
