(* ===== verification/Coordinator_Runs.thy ===== *)
theory Coordinator_Runs
  imports Deploy Default_Options
begin

text \<open>
  What the tools of the coordinator do once their options are known (\<open>deploy/run-deploy.c\<close>,
  \<open>migrate/run-migrate.c\<close>, \<open>snapshot/run-snapshot.c\<close>, \<open>restore/run-restore.c\<close>, \<open>activate/run-activate.c\<close>,
  \<open>distribute/run-distribute.c\<close>, \<open>lock/lock-or-unlock.c\<close>, \<open>set/run-set-profiles.c\<close> and
  \<open>delete-state/run-delete-state.c\<close>): open the manifests, check them and call the library. The messages on the
  standard error are not modelled, except that of a transition.
\<close>

section \<open>The coordinator\<close>

text \<open>
  What a tool finds on the coordinator, and the bounds of the loops: the depth of the dependencies, the
  rounds of a traversal and the turns of an iterator.
\<close>

record coordinator =
  c_kernel :: kernel
  c_posix :: posix
  c_getenv :: environment
  c_sorts :: sorts
  c_readable :: "string \<Rightarrow> bool"
  c_parse :: "string \<Rightarrow> xmlNode option option"
  c_username :: string
  c_hostname :: string
  c_localstatedir :: string
  c_depth :: nat
  c_rounds :: nat
  c_fuel :: nat

abbreviation open_manifest :: "coordinator \<Rightarrow> string \<Rightarrow> flags \<Rightarrow> cstr \<Rightarrow> cstr \<Rightarrow> Manifest option result" where
  "open_manifest C \<equiv> create_manifest (c_parse C) (c_hostname C) (c_sorts C)"

abbreviation open_provided_or_previous :: "coordinator \<Rightarrow> cstr \<Rightarrow> cstr \<Rightarrow> cstr \<Rightarrow> flags \<Rightarrow> cstr \<Rightarrow> cstr \<Rightarrow> Manifest option result" where
  "open_provided_or_previous C \<equiv> open_provided_or_previous_manifest_file (c_readable C) (c_localstatedir C) (c_username C)
     (c_parse C) (c_hostname C) (c_sorts C)"

abbreviation manifest_to_open :: "coordinator \<Rightarrow> cstr \<Rightarrow> cstr \<Rightarrow> cstr \<Rightarrow> cstr" where
  "manifest_to_open C \<equiv> determine_manifest_to_open (c_readable C) (c_localstatedir C) (c_username C)"

abbreviation open_previous :: "coordinator \<Rightarrow> cstr \<Rightarrow> flags \<Rightarrow> Manifest option result" where
  "open_previous C f flags \<equiv> open_previous_manifest (c_parse C) (c_hostname C) (c_sorts C) f flags None None"

text \<open>
  The shape all tools share: without a manifest, or with one that fails its checks, the exit status is 1
  and nothing is done.
\<close>

definition with_manifest :: "Manifest option result \<Rightarrow> (Manifest \<Rightarrow> os \<Rightarrow> (int \<times> os) result) \<Rightarrow> os \<Rightarrow> (int \<times> os) result" where
  "with_manifest opened run w =
     bindr opened (\<lambda>manifest. case manifest of
       None \<Rightarrow> Inr (1, w)
     | Some manifest \<Rightarrow> bindr (check_manifest manifest) (\<lambda>good. if good then run manifest w else Inr (1, w)))"

definition exit_unless :: "(bool \<times> os) result \<Rightarrow> (int \<times> os) result" where
  "exit_unless r = bindr r (\<lambda>(good, w). Inr (if good then 0 else 1, w))"

text \<open>A previous manifest may be missing, but when it is there it must be good.\<close>

definition previous_good :: "Manifest option \<Rightarrow> bool result" where
  "previous_good previous_manifest = (case previous_manifest of None \<Rightarrow> Inr True | Some p \<Rightarrow> check_manifest p)"

definition migration_of :: "Manifest \<Rightarrow> Manifest option \<Rightarrow> os \<Rightarrow> migration_state" where
  "migration_of manifest previous_manifest w =
     \<lparr>new_snapshots = snapshot_mapping_array manifest,
      old_snapshots = (case previous_manifest of None \<Rightarrow> [] | Some p \<Rightarrow> snapshot_mapping_array p),
      all_machines = targets_table manifest, migration_world = w\<rparr>"

definition exit_migration :: "(bool \<times> migration_state) result \<Rightarrow> (int \<times> os) result" where
  "exit_migration r = bindr r (\<lambda>(good, s). Inr (if good then 0 else 1, migration_world s))"

section \<open>The runs\<close>

definition run_distribute :: "coordinator \<Rightarrow> string \<Rightarrow> nat \<Rightarrow> cstr \<Rightarrow> os \<Rightarrow> (int \<times> os) result" where
  "run_distribute C manifest_file max_concurrent_transfers tmpdir =
     with_manifest (open_manifest C manifest_file (MANIFEST_PROFILES_FLAG OR MANIFEST_INFRASTRUCTURE_FLAG) None None)
       (\<lambda>manifest w. exit_unless (distribute (c_kernel C) (c_fuel C) (profile_mapping_table manifest)
          (targets_table manifest) max_concurrent_transfers tmpdir w))"

definition lock_or_unlock :: "coordinator \<Rightarrow> bool \<Rightarrow> cstr \<Rightarrow> cstr \<Rightarrow> string \<Rightarrow> os \<Rightarrow> (int \<times> os) result" where
  "lock_or_unlock C do_lock manifest_file coordinator_profile_path profile =
     with_manifest (open_provided_or_previous C manifest_file coordinator_profile_path (Some profile)
         (MANIFEST_PROFILES_FLAG OR MANIFEST_INFRASTRUCTURE_FLAG) None None)
       (\<lambda>manifest w.
          if do_lock
          then exit_unless (lock (c_kernel C) (c_fuel C) (profile_mapping_table manifest) (targets_table manifest) (Some profile) w)
          else exit_unless (unlock (c_kernel C) (c_fuel C) (profile_mapping_table manifest) (targets_table manifest) (Some profile) w))"

definition run_set_profiles :: "coordinator \<Rightarrow> string \<Rightarrow> cstr \<Rightarrow> string \<Rightarrow> flags \<Rightarrow> os \<Rightarrow> (int \<times> os) result" where
  "run_set_profiles C manifest_file coordinator_profile_path profile flags =
     with_manifest (open_manifest C manifest_file (MANIFEST_PROFILES_FLAG OR MANIFEST_INFRASTRUCTURE_FLAG) None None)
       (\<lambda>manifest w. exit_unless (set_profiles (c_kernel C) (c_posix C) (c_fuel C) (c_localstatedir C)
          (profile_mapping_table manifest) (targets_table manifest) manifest_file coordinator_profile_path profile flags w))"

definition run_delete_state :: "coordinator \<Rightarrow> cstr \<Rightarrow> cstr \<Rightarrow> string \<Rightarrow> cstr \<Rightarrow> cstr \<Rightarrow> os \<Rightarrow> (int \<times> os) result" where
  "run_delete_state C manifest_file coordinator_profile_path profile cont cmpt =
     with_manifest (open_provided_or_previous C manifest_file coordinator_profile_path (Some profile)
         (MANIFEST_SNAPSHOT_MAPPINGS_FLAG OR MANIFEST_INFRASTRUCTURE_FLAG) cont cmpt)
       (\<lambda>manifest w. bindr (delete_obsolete_state (c_kernel C) (services_table manifest)
            \<lparr>snapshots = snapshot_mapping_array manifest, machines = targets_table manifest, snapshot_pids = [], snapshot_world = w\<rparr>)
          (\<lambda>(good, st). Inr (if good then 0 else 1, snapshot_world st)))"

text \<open>The previous manifest of a transition is not checked.\<close>

fun transition_exit_status :: "TransitionStatus \<Rightarrow> int" where
  "transition_exit_status TRANSITION_SUCCESS = 0"
| "transition_exit_status TRANSITION_FAILED = 1"
| "transition_exit_status TRANSITION_OBSOLETE_MAPPINGS_ROLLBACK_FAILED = 2"
| "transition_exit_status TRANSITION_NEW_MAPPINGS_ROLLBACK_FAILED = 3"

definition run_activate_system :: "coordinator \<Rightarrow> string \<Rightarrow> cstr \<Rightarrow> cstr \<Rightarrow> string \<Rightarrow> flags \<Rightarrow> os \<Rightarrow> (int \<times> os) result" where
  "run_activate_system C new_manifest old_manifest coordinator_profile_path profile flags =
     with_manifest (open_manifest C new_manifest (MANIFEST_SERVICE_MAPPINGS_FLAG OR MANIFEST_INFRASTRUCTURE_FLAG) None None)
       (\<lambda>manifest w.
          let old_manifest_file = manifest_to_open C old_manifest coordinator_profile_path (Some profile) in
          bindr (open_previous C old_manifest_file MANIFEST_SERVICE_MAPPINGS_FLAG) (\<lambda>previous_manifest.
          bindr (activate_system (c_kernel C) (sort_service_mappings (c_sorts C)) (c_depth C) (c_rounds C) manifest
                   previous_manifest flags w) (\<lambda>(outcome, st).
            Inr (transition_exit_status outcome, world st))))"

text \<open>
  The manifest of the previous configuration that a migration starts from. It is opened for its snapshot
  mappings only, so its table of targets stays empty.
\<close>

definition open_previous_snapshots :: "coordinator \<Rightarrow> flags \<Rightarrow> cstr \<Rightarrow> cstr \<Rightarrow> string \<Rightarrow> cstr \<Rightarrow> cstr \<Rightarrow> Manifest option result" where
  "open_previous_snapshots C flags old_manifest coordinator_profile_path profile container_filter component_filter =
     (if has_flag flags FLAG_NO_UPGRADE then Inr None
      else open_provided_or_previous C old_manifest coordinator_profile_path (Some profile)
             MANIFEST_SNAPSHOT_MAPPINGS_FLAG container_filter component_filter)"

definition from_previous ::
  "(Manifest option \<Rightarrow> migration_state \<Rightarrow> (bool \<times> migration_state) result) \<Rightarrow> Manifest option result
    \<Rightarrow> Manifest \<Rightarrow> os \<Rightarrow> (int \<times> os) result" where
  "from_previous operation previous manifest w =
     bindr previous (\<lambda>previous_manifest.
     bindr (previous_good previous_manifest) (\<lambda>good.
       if good then exit_migration (operation previous_manifest (migration_of manifest previous_manifest w)) else Inr (1, w)))"

definition run_migrate ::
  "coordinator \<Rightarrow> cstr \<Rightarrow> nat \<Rightarrow> flags \<Rightarrow> int \<Rightarrow> cstr \<Rightarrow> cstr \<Rightarrow> string \<Rightarrow> cstr \<Rightarrow> cstr \<Rightarrow> os \<Rightarrow> (int \<times> os) result" where
  "run_migrate C manifest_file max_concurrent_transfers flags keep old_manifest coordinator_profile_path profile
     container_filter component_filter =
     with_manifest (open_provided_or_previous C manifest_file coordinator_profile_path (Some profile)
         (MANIFEST_SNAPSHOT_MAPPINGS_FLAG OR MANIFEST_INFRASTRUCTURE_FLAG) container_filter component_filter)
       (\<lambda>manifest. from_previous
          (\<lambda>previous_manifest. migrate (c_kernel C) (c_fuel C) manifest previous_manifest max_concurrent_transfers flags keep)
          (open_previous_snapshots C flags old_manifest coordinator_profile_path profile container_filter component_filter) manifest)"

definition run_snapshot ::
  "coordinator \<Rightarrow> cstr \<Rightarrow> nat \<Rightarrow> flags \<Rightarrow> int \<Rightarrow> cstr \<Rightarrow> cstr \<Rightarrow> string \<Rightarrow> cstr \<Rightarrow> cstr \<Rightarrow> os \<Rightarrow> (int \<times> os) result" where
  "run_snapshot C manifest_file max_concurrent_transfers flags keep old_manifest coordinator_profile_path profile
     container_filter component_filter =
     with_manifest (open_provided_or_previous C manifest_file coordinator_profile_path (Some profile)
         (MANIFEST_SNAPSHOT_MAPPINGS_FLAG OR MANIFEST_INFRASTRUCTURE_FLAG) container_filter component_filter)
       (\<lambda>manifest w.
          if manifest_file = None
          then exit_migration (snapshot (c_kernel C) (c_fuel C) manifest None max_concurrent_transfers (flags OR FLAG_NO_UPGRADE)
                 keep (migration_of manifest None w))
          else from_previous
            (\<lambda>previous_manifest. snapshot (c_kernel C) (c_fuel C) manifest previous_manifest max_concurrent_transfers flags keep)
            (open_previous_snapshots C flags old_manifest coordinator_profile_path profile container_filter component_filter) manifest w)"

definition run_restore ::
  "coordinator \<Rightarrow> cstr \<Rightarrow> nat \<Rightarrow> flags \<Rightarrow> int \<Rightarrow> cstr \<Rightarrow> cstr \<Rightarrow> string \<Rightarrow> cstr \<Rightarrow> cstr \<Rightarrow> os \<Rightarrow> (int \<times> os) result" where
  "run_restore C manifest_file max_concurrent_transfers flags keep old_manifest coordinator_profile_path profile
     container_filter component_filter =
     with_manifest (open_provided_or_previous C manifest_file coordinator_profile_path (Some profile)
         (MANIFEST_SNAPSHOT_MAPPINGS_FLAG OR MANIFEST_INFRASTRUCTURE_FLAG) container_filter component_filter)
       (\<lambda>manifest. from_previous
          (\<lambda>previous_manifest. restore (c_kernel C) (c_fuel C) manifest previous_manifest max_concurrent_transfers flags keep)
          (open_previous_snapshots C flags old_manifest coordinator_profile_path profile container_filter component_filter) manifest)"

fun deploy_exit_status :: "DeployStatus \<Rightarrow> int" where
  "deploy_exit_status DEPLOY_OK = 0"
| "deploy_exit_status DEPLOY_FAIL = 1"
| "deploy_exit_status DEPLOY_STATE_FAIL = 2"

definition run_deploy ::
  "coordinator \<Rightarrow> string \<Rightarrow> cstr \<Rightarrow> cstr \<Rightarrow> string \<Rightarrow> nat \<Rightarrow> int \<Rightarrow> flags \<Rightarrow> cstr \<Rightarrow> os \<Rightarrow> (int \<times> os) result" where
  "run_deploy C new_manifest old_manifest coordinator_profile_path profile max_concurrent_transfers keep flags tmpdir =
     with_manifest (open_manifest C new_manifest MANIFEST_ALL_FLAGS None None)
       (\<lambda>manifest w.
          let old_manifest_file = manifest_to_open C old_manifest coordinator_profile_path (Some profile) in
          bindr (open_previous C old_manifest_file MANIFEST_ALL_FLAGS) (\<lambda>previous_manifest.
          bindr (previous_good previous_manifest) (\<lambda>good.
            if good
            then bindr (check_safe_data_migration previous_manifest manifest (has_flag flags FLAG_NO_MIGRATION)) (\<lambda>safe.
                 if \<not> safe then Inr (1, w)
                 else bindr (deploy (c_kernel C) (c_posix C) (sort_service_mappings (c_sorts C)) (c_depth C) (c_rounds C) (c_fuel C)
                        (c_localstatedir C) new_manifest manifest previous_manifest profile coordinator_profile_path
                        max_concurrent_transfers tmpdir keep flags w) (\<lambda>(outcome, w). Inr (deploy_exit_status outcome, w)))
            else Inr (1, w))))"

section \<open>The previous manifest of a migration\<close>

text \<open>
  A manifest that was opened without its infrastructure has no targets, so a snapshot mapping in it refers
  to a target that is not there.
\<close>

lemma parse_without_infrastructure:
  assumes "parse_manifest S flags cf mf u element = Inr m" and "\<not> has_flag flags MANIFEST_INFRASTRUCTURE_FLAG"
  shows "targets_table m = []"
proof -
  have child: "infrastructure_part p' = infrastructure_part p" if "parse_manifest_child S flags cf mf u child p = Inr p'" for child p p'
    using that assms(2) by (auto simp: parse_manifest_child_def Let_def bindr_eq_Inr split: if_splits)
  have "infrastructure_part p' = infrastructure_part p" if "parse_manifest_children S flags cf mf u children p = Inr p'" for children p p'
    using that by (induction children arbitrary: p) (auto simp: bindr_eq_Inr dest: child)
  with assms(1) show ?thesis by (auto simp: parse_manifest_def bindr_eq_Inr or_empty_def split: if_splits)
qed

lemma references_without_targets:
  assumes "check_snapshot_mapping_array_references ms services [] = Inr good" and "ms \<noteq> []"
  shows "\<not> good"
  using assms by (cases ms) (auto simp: bindr_eq_Inr Let_def g_hash_table_contains_def split: option.splits if_splits)

lemma check_without_targets:
  assumes "check_manifest m = Inr good" and "targets_table m = []" and "snapshot_mapping_array m \<noteq> []"
  shows "\<not> good"
  using assms by (auto simp: check_manifest_def bindr_eq_Inr Let_def split: if_splits dest: references_without_targets)

lemma create_manifest_parsed:
  assumes "create_manifest parse hostname S f flags cf mf = Inr (Some m)"
  shows "\<exists>element. parse_manifest S flags cf mf (Some hostname) element = Inr m"
  using assms by (auto simp: create_manifest_def bindr_eq_Inr split: option.splits)

lemma open_provided_created:
  assumes "open_provided_or_previous C f path profile flags cf mf = Inr (Some m)"
  shows "\<exists>element. parse_manifest (c_sorts C) flags cf mf (Some (c_hostname C)) element = Inr m"
  using assms by (auto simp: open_provided_or_previous_manifest_file_def dest: create_manifest_parsed split: option.splits)

lemma with_manifest_refused:
  assumes S: "sorts_ok (c_sorts C)" and "open_provided_or_previous C f path profile flags cf mf = Inr opened" and "\<And>m w. run m w = Inr (1, w)"
  shows "with_manifest (open_provided_or_previous C f path profile flags cf mf) run w = Inr (1, w)"
proof (cases opened)
  case None
  with assms show ?thesis by (simp add: with_manifest_def)
next
  case (Some m)
  then obtain element where "parse_manifest (c_sorts C) flags cf mf (Some (c_hostname C)) element = Inr m"
    using open_provided_created assms(2) by metis
  then obtain b where "check_manifest m = Inr b" using check_manifest_total [OF parse_manifest_ok] S by blast
  with assms Some show ?thesis by (simp add: with_manifest_def)
qed

lemma previous_snapshots_bad:
  assumes S: "sorts_ok (c_sorts C)" and "\<not> has_flag flags FLAG_NO_UPGRADE"
    and "open_provided_or_previous C old_manifest path (Some profile) MANIFEST_SNAPSHOT_MAPPINGS_FLAG cf mf = Inr (Some p)"
    and "snapshot_mapping_array p \<noteq> []"
  shows "from_previous operation (open_previous_snapshots C flags old_manifest path profile cf mf) m w = Inr (1, w)"
proof -
  obtain element where parsed: "parse_manifest (c_sorts C) MANIFEST_SNAPSHOT_MAPPINGS_FLAG cf mf (Some (c_hostname C)) element = Inr p"
    using open_provided_created [OF assms(3)] by blast
  obtain b where b: "check_manifest p = Inr b" using check_manifest_total [OF parse_manifest_ok [OF S parsed]] by blast
  have "targets_table p = []"
    using parse_without_infrastructure [OF parsed] by (simp add: has_flag_def MANIFEST_SNAPSHOT_MAPPINGS_FLAG_def MANIFEST_INFRASTRUCTURE_FLAG_def)
  from check_without_targets [OF b this assms(4)] b assms(2,3) show ?thesis
    by (simp add: from_previous_def open_previous_snapshots_def previous_good_def)
qed

text \<open>
  C40: Moving state away from a previous configuration fails before it starts. When the previous manifest has a snapshot mapping, disnix-migrate,
  disnix-restore and disnix-snapshot of a given manifest exit with 1 and start no process, whatever the manifests are, unless they are told
  not to upgrade. They open the previous manifest without its infrastructure and then check that the targets of its mappings are in there.
\<close>

theorem previous_state_rejected:
  assumes "sorts_ok (c_sorts C)" and "\<not> has_flag flags FLAG_NO_UPGRADE"
    and "open_provided_or_previous C old_manifest path (Some profile) MANIFEST_SNAPSHOT_MAPPINGS_FLAG cf mf = Inr (Some p)"
    and "snapshot_mapping_array p \<noteq> []"
    and "open_provided_or_previous C (Some file_name) path (Some profile) (MANIFEST_SNAPSHOT_MAPPINGS_FLAG OR MANIFEST_INFRASTRUCTURE_FLAG) cf mf = Inr opened"
  shows "run_migrate C (Some file_name) l flags keep old_manifest path profile cf mf w = Inr (1, w)
    \<and> run_restore C (Some file_name) l flags keep old_manifest path profile cf mf w = Inr (1, w)
    \<and> run_snapshot C (Some file_name) l flags keep old_manifest path profile cf mf w = Inr (1, w)"
  unfolding run_migrate_def run_restore_def run_snapshot_def
  by (intro conjI with_manifest_refused [OF assms(1,5)]) (simp_all add: previous_snapshots_bad [OF assms(1-4)])

text \<open>A manifest with one stateful service.\<close>

definition text_element :: "string \<Rightarrow> string \<Rightarrow> xmlNode" where
  "text_element n v = XML_ELEMENT_NODE n [] [XML_TEXT_NODE v]"

definition stateful_xml :: xmlNode where
  "stateful_xml = XML_ELEMENT_NODE ''manifest'' [(''version'', Some ''2'')]
     [XML_ELEMENT_NODE ''services'' []
        [XML_ELEMENT_NODE ''service'' [(''name'', Some ''db'')]
           [text_element ''name'' ''db'', text_element ''pkg'' ''/nix/store/db'', text_element ''type'' ''mysql'']],
      XML_ELEMENT_NODE ''snapshotMappings'' []
        [XML_ELEMENT_NODE ''mapping'' []
           [text_element ''service'' ''db'', text_element ''component'' ''db'', text_element ''container'' ''mysql'',
            text_element ''target'' ''m'']],
      XML_ELEMENT_NODE ''infrastructure'' []
        [XML_ELEMENT_NODE ''target'' [(''name'', Some ''m'')]
           [XML_ELEMENT_NODE ''properties'' [] [XML_ELEMENT_NODE ''property'' [(''name'', Some ''hostname''), (''type'', Some ''string'')] [XML_TEXT_NODE ''h'']],
            text_element ''clientInterface'' ''i'', text_element ''targetProperty'' ''hostname'']]]"

definition stateful_coordinator :: coordinator where
  "stateful_coordinator = \<lparr>c_kernel = demo_kernel (\<lambda>_. Exited 0), c_posix = demo_posix (\<lambda>_. None), c_getenv = (\<lambda>_. None),
     c_sorts = \<lparr>sort_dependencies = isort_by, sort_service_mappings = isort_by, sort_snapshot_mappings = isort_by\<rparr>,
     c_readable = (\<lambda>_. True), c_parse = (\<lambda>_. Some (Some stateful_xml)), c_username = ''root'', c_hostname = ''c'',
     c_localstatedir = ''/var'', c_depth = 1, c_rounds = 10, c_fuel = 10\<rparr>"

definition stateful_previous :: Manifest where
  "stateful_previous = (case open_provided_or_previous stateful_coordinator None None (Some ''default'') MANIFEST_SNAPSHOT_MAPPINGS_FLAG None None of
     Inr (Some p) \<Rightarrow> p | _ \<Rightarrow> undefined)"

lemma stateful_opened:
  "open_provided_or_previous stateful_coordinator None None (Some ''default'') MANIFEST_SNAPSHOT_MAPPINGS_FLAG None None = Inr (Some stateful_previous)
   \<and> snapshot_mapping_array stateful_previous \<noteq> []"
  by code_simp

theorem previous_state_rejected_witness:
  "\<forall>w. run_migrate stateful_coordinator (Some ''new'') 2 0 1 None None ''default'' None None w = Inr (1, w)"
proof -
  have "sorts_ok (c_sorts stateful_coordinator)" "\<not> has_flag 0 FLAG_NO_UPGRADE"
    by (simp_all add: stateful_coordinator_def sorts_ok_def dependency_order.isort_by_sorts service_order.isort_by_sorts snapshot_order.isort_by_sorts has_flag_def)
  moreover obtain opened where "open_provided_or_previous stateful_coordinator (Some ''new'') None (Some ''default'')
      (MANIFEST_SNAPSHOT_MAPPINGS_FLAG OR MANIFEST_INFRASTRUCTURE_FLAG) None None = Inr opened"
  proof -
    have "case open_provided_or_previous stateful_coordinator (Some ''new'') None (Some ''default'')
      (MANIFEST_SNAPSHOT_MAPPINGS_FLAG OR MANIFEST_INFRASTRUCTURE_FLAG) None None of Inl _ \<Rightarrow> False | Inr _ \<Rightarrow> True"
      by code_simp
    then show ?thesis using that by (auto split: sum.splits)
  qed
  ultimately show ?thesis using previous_state_rejected stateful_opened by blast
qed

section \<open>What every tool can rely on in a manifest\<close>


text \<open>A manifest with one mapping, all of whose parts are there.\<close>

definition mapped_xml :: xmlNode where
  "mapped_xml = XML_ELEMENT_NODE ''manifest'' [(''version'', Some ''2'')]
     [XML_ELEMENT_NODE ''serviceMappings'' []
        [XML_ELEMENT_NODE ''mapping'' []
           [text_element ''service'' ''db'', text_element ''container'' ''mysql'', text_element ''target'' ''m'']],
      XML_ELEMENT_NODE ''services'' []
        [XML_ELEMENT_NODE ''service'' [(''name'', Some ''db'')]
           [text_element ''name'' ''db'', text_element ''pkg'' ''/nix/store/db'', text_element ''type'' ''mysql'']],
      XML_ELEMENT_NODE ''infrastructure'' []
        [XML_ELEMENT_NODE ''target'' [(''name'', Some ''m'')]
           [XML_ELEMENT_NODE ''properties'' [] [XML_ELEMENT_NODE ''property'' [(''name'', Some ''hostname''), (''type'', Some ''string'')] [XML_TEXT_NODE ''h'']],
            text_element ''clientInterface'' ''i'', text_element ''targetProperty'' ''hostname'', text_element ''numOfCores'' ''2'']]]"

definition mapped_manifest :: Manifest where
  "mapped_manifest = (case parse_manifest (c_sorts stateful_coordinator) MANIFEST_ALL_FLAGS None None None mapped_xml of
     Inr m \<Rightarrow> m | Inl e \<Rightarrow> undefined)"


end
