(* ===== verification/Coordinator_Tools.thy ===== *)
theory Coordinator_Tools
  imports Coordinator_Runs
begin

text \<open>
  The option tables and main programs of the tools of the coordinator. Each has its table of long options, its
  switch and its main program; what the switches do to the variables is shared. The usage and version texts and
  the messages on the standard error are not modelled.
\<close>

section \<open>The options of all tools (defaultoptions.h)\<close>

definition DISNIX_OPTION_HELP :: int where "DISNIX_OPTION_HELP = option_char CHR ''h''"
definition DISNIX_OPTION_VERSION :: int where "DISNIX_OPTION_VERSION = option_char CHR ''v''"
definition DISNIX_OPTION_MAX_CONCURRENT_TRANSFERS :: int where "DISNIX_OPTION_MAX_CONCURRENT_TRANSFERS = option_char CHR ''m''"
definition DISNIX_OPTION_PROFILE :: int where "DISNIX_OPTION_PROFILE = option_char CHR ''p''"
definition DISNIX_OPTION_OLD_MANIFEST :: int where "DISNIX_OPTION_OLD_MANIFEST = option_char CHR ''o''"
definition DISNIX_OPTION_COMPONENT :: int where "DISNIX_OPTION_COMPONENT = option_char CHR ''C''"
definition DISNIX_OPTION_CONTAINER :: int where "DISNIX_OPTION_CONTAINER = option_char CHR ''c''"
definition DISNIX_OPTION_UNLOCK :: int where "DISNIX_OPTION_UNLOCK = option_char CHR ''u''"
definition DISNIX_OPTION_FORMAT :: int where "DISNIX_OPTION_FORMAT = option_char CHR ''f''"
definition DISNIX_OPTION_DELETE_OLD :: int where "DISNIX_OPTION_DELETE_OLD = option_char CHR ''d''"
definition DISNIX_OPTION_SERVICE :: int where "DISNIX_OPTION_SERVICE = option_char CHR ''S''"
definition DISNIX_OPTION_TARGET :: int where "DISNIX_OPTION_TARGET = option_char CHR ''t''"
definition DISNIX_OPTION_INTERFACE :: int where "DISNIX_OPTION_INTERFACE = 256"
definition DISNIX_OPTION_TARGET_PROPERTY :: int where "DISNIX_OPTION_TARGET_PROPERTY = 257"
definition DISNIX_OPTION_NO_UPGRADE :: int where "DISNIX_OPTION_NO_UPGRADE = 258"
definition DISNIX_OPTION_NO_ROLLBACK :: int where "DISNIX_OPTION_NO_ROLLBACK = 259"
definition DISNIX_OPTION_NO_MIGRATION :: int where "DISNIX_OPTION_NO_MIGRATION = 260"
definition DISNIX_OPTION_NO_LOCK :: int where "DISNIX_OPTION_NO_LOCK = 261"
definition DISNIX_OPTION_DRY_RUN :: int where "DISNIX_OPTION_DRY_RUN = 252"
definition DISNIX_OPTION_XML :: int where "DISNIX_OPTION_XML = 263"
definition DISNIX_OPTION_KEEP :: int where "DISNIX_OPTION_KEEP = 264"
definition DISNIX_OPTION_DELETE_STATE :: int where "DISNIX_OPTION_DELETE_STATE = 265"
definition DISNIX_OPTION_TRANSFER_ONLY :: int where "DISNIX_OPTION_TRANSFER_ONLY = 266"
definition DISNIX_OPTION_DEPTH_FIRST :: int where "DISNIX_OPTION_DEPTH_FIRST = 267"
definition DISNIX_OPTION_ALL :: int where "DISNIX_OPTION_ALL = 268"
definition DISNIX_OPTION_SHOW_MAPPINGS :: int where "DISNIX_OPTION_SHOW_MAPPINGS = 269"
definition DISNIX_OPTION_COMMAND :: int where "DISNIX_OPTION_COMMAND = 270"
definition DISNIX_OPTION_COORDINATOR_PROFILE_PATH :: int where "DISNIX_OPTION_COORDINATOR_PROFILE_PATH = 271"
definition DISNIX_OPTION_NO_COORDINATOR_PROFILE :: int where "DISNIX_OPTION_NO_COORDINATOR_PROFILE = 272"
definition DISNIX_OPTION_NO_TARGET_PROFILES :: int where "DISNIX_OPTION_NO_TARGET_PROFILES = 273"
definition DISNIX_OPTION_NO_CONTAINERS :: int where "DISNIX_OPTION_NO_CONTAINERS = 274"
definition DISNIX_OPTION_INFRASTRUCTURE :: int where "DISNIX_OPTION_INFRASTRUCTURE = option_char CHR ''i''"

lemmas option_codes = DISNIX_OPTION_HELP_def DISNIX_OPTION_VERSION_def DISNIX_OPTION_MAX_CONCURRENT_TRANSFERS_def DISNIX_OPTION_PROFILE_def
  DISNIX_OPTION_OLD_MANIFEST_def DISNIX_OPTION_COMPONENT_def DISNIX_OPTION_CONTAINER_def DISNIX_OPTION_UNLOCK_def
  DISNIX_OPTION_FORMAT_def DISNIX_OPTION_DELETE_OLD_def DISNIX_OPTION_SERVICE_def DISNIX_OPTION_TARGET_def
  DISNIX_OPTION_INTERFACE_def DISNIX_OPTION_TARGET_PROPERTY_def DISNIX_OPTION_NO_UPGRADE_def DISNIX_OPTION_NO_ROLLBACK_def
  DISNIX_OPTION_NO_MIGRATION_def DISNIX_OPTION_NO_LOCK_def DISNIX_OPTION_DRY_RUN_def DISNIX_OPTION_XML_def
  DISNIX_OPTION_KEEP_def DISNIX_OPTION_DELETE_STATE_def DISNIX_OPTION_TRANSFER_ONLY_def DISNIX_OPTION_DEPTH_FIRST_def
  DISNIX_OPTION_ALL_def DISNIX_OPTION_SHOW_MAPPINGS_def DISNIX_OPTION_COMMAND_def DISNIX_OPTION_COORDINATOR_PROFILE_PATH_def
  DISNIX_OPTION_NO_COORDINATOR_PROFILE_def DISNIX_OPTION_NO_TARGET_PROFILES_def DISNIX_OPTION_NO_CONTAINERS_def DISNIX_OPTION_INFRASTRUCTURE_def

section \<open>The variables of the tools\<close>

text \<open>The formats of disnix-query (query/query-installed.h).\<close>

datatype OutputFormat = FORMAT_SERVICES | FORMAT_CONTAINERS | FORMAT_NIX | FORMAT_XML

record tool_options =
  t_profile :: cstr
  t_coordinator_profile_path :: cstr
  t_old_manifest :: cstr
  t_container :: cstr
  t_component :: cstr
  t_interface :: cstr
  t_target_property :: cstr
  t_target :: cstr
  t_service_name :: cstr
  t_command :: cstr
  t_infrastructure_file :: cstr
  t_flags :: flags
  t_keep :: int
  t_max_concurrent_transfers :: nat
  t_lock :: bool
  t_xml :: bool
  t_show_mappings :: bool
  t_no_containers :: bool
  t_from :: bool
  t_to :: bool
  t_all :: bool
  t_format :: OutputFormat

definition initial_options :: tool_options where
  "initial_options = \<lparr>t_profile = None, t_coordinator_profile_path = None, t_old_manifest = None, t_container = None,
     t_component = None, t_interface = None, t_target_property = None, t_target = None, t_service_name = None, t_command = None,
     t_infrastructure_file = None, t_flags = 0, t_keep = DISNIX_DEFAULT_KEEP,
     t_max_concurrent_transfers = DISNIX_DEFAULT_MAX_NUM_OF_CONCURRENT_TRANSFERS, t_lock = True, t_xml = DISNIX_DEFAULT_XML,
     t_show_mappings = False, t_no_containers = False, t_from = False, t_to = False, t_all = False,
     t_format = FORMAT_SERVICES\<rparr>"

text \<open>What a case of a switch does with its argument, and a switch made of such cases.\<close>

type_synonym option_case = "cstr \<Rightarrow> tool_options \<Rightarrow> tool_options"

definition opt_profile :: option_case where "opt_profile optarg opts = opts\<lparr>t_profile := optarg\<rparr>"
definition opt_coordinator_profile_path :: option_case where
  "opt_coordinator_profile_path optarg opts = opts\<lparr>t_coordinator_profile_path := optarg\<rparr>"
definition opt_old_manifest :: option_case where "opt_old_manifest optarg opts = opts\<lparr>t_old_manifest := optarg\<rparr>"
definition opt_container :: option_case where "opt_container optarg opts = opts\<lparr>t_container := optarg\<rparr>"
definition opt_component :: option_case where "opt_component optarg opts = opts\<lparr>t_component := optarg\<rparr>"
definition opt_flag :: "flags \<Rightarrow> option_case" where "opt_flag f optarg opts = opts\<lparr>t_flags := t_flags opts OR f\<rparr>"
definition opt_keep :: option_case where
  "opt_keep optarg opts = (case optarg of None \<Rightarrow> opts | Some a \<Rightarrow> opts\<lparr>t_keep := atoi a\<rparr>)"
definition opt_max_concurrent_transfers :: option_case where
  "opt_max_concurrent_transfers optarg opts =
     (case optarg of None \<Rightarrow> opts | Some a \<Rightarrow> opts\<lparr>t_max_concurrent_transfers := unsigned_of (atoi a)\<rparr>)"

definition switch_on :: "(int \<times> option_case) list \<Rightarrow> int \<Rightarrow> cstr \<Rightarrow> tool_options \<Rightarrow> int + tool_options" where
  "switch_on cases c optarg opts =
     (case map_of cases c of
        Some f \<Rightarrow> Inr (f optarg opts)
      | None \<Rightarrow> if c = DISNIX_OPTION_HELP then Inl 0 else if c = DISNIX_OPTION_VERSION then Inl 0 else Inl 1)"

text \<open>The options in order, then the rest of the program with the variables and the operands.\<close>

definition parse_options ::
  "string \<Rightarrow> long_option list \<Rightarrow> (int \<times> option_case) list \<Rightarrow> string list
    \<Rightarrow> (tool_options \<Rightarrow> string list \<Rightarrow> 'w \<Rightarrow> (int \<times> 'w) result) \<Rightarrow> 'w \<Rightarrow> (int \<times> 'w) result" where
  "parse_options shorts longs cases args run w =
     (case getopt_long shorts longs args of (os, operands) \<Rightarrow>
      case option_loop (switch_on cases) os initial_options of
        Inl code \<Rightarrow> Inr (code, w)
      | Inr opts \<Rightarrow> run opts operands w)"

definition first_operand :: "string list \<Rightarrow> cstr" where
  "first_operand operands = (case operands of [] \<Rightarrow> None | a # _ \<Rightarrow> Some a)"

definition profile_option :: "coordinator \<Rightarrow> tool_options \<Rightarrow> string" where
  "profile_option C opts = (case check_profile_option (c_getenv C) (t_profile opts) of None \<Rightarrow> [] | Some p \<Rightarrow> p)"

definition global_flags :: "coordinator \<Rightarrow> tool_options \<Rightarrow> flags" where
  "global_flags C opts = (if check_global_delete_state (c_getenv C) then t_flags opts OR FLAG_DELETE_STATE else t_flags opts)"

definition opt_unlock :: option_case where "opt_unlock optarg opts = opts\<lparr>t_lock := False\<rparr>"

section \<open>disnix-deploy (deploy/main.c)\<close>

definition deploy_long_options :: "long_option list" where
  "deploy_long_options =
     [(''coordinator-profile-path'', True, DISNIX_OPTION_COORDINATOR_PROFILE_PATH),
      (''profile'', True, DISNIX_OPTION_PROFILE),
      (''old-manifest'', True, DISNIX_OPTION_OLD_MANIFEST),
      (''no-upgrade'', False, DISNIX_OPTION_NO_UPGRADE),
      (''no-migration'', False, DISNIX_OPTION_NO_MIGRATION),
      (''no-lock'', False, DISNIX_OPTION_NO_LOCK),
      (''delete-state'', False, DISNIX_OPTION_DELETE_STATE),
      (''transfer-only'', False, DISNIX_OPTION_TRANSFER_ONLY),
      (''depth-first'', False, DISNIX_OPTION_DEPTH_FIRST),
      (''all'', False, DISNIX_OPTION_ALL),
      (''keep'', True, DISNIX_OPTION_KEEP),
      (''max-concurrent-transfers'', True, DISNIX_OPTION_MAX_CONCURRENT_TRANSFERS),
      (''help'', False, DISNIX_OPTION_HELP),
      (''version'', False, DISNIX_OPTION_VERSION)]"

definition deploy_cases :: "(int \<times> option_case) list" where
  "deploy_cases =
     [(DISNIX_OPTION_PROFILE, opt_profile),
      (DISNIX_OPTION_COORDINATOR_PROFILE_PATH, opt_coordinator_profile_path),
      (DISNIX_OPTION_OLD_MANIFEST, opt_old_manifest),
      (DISNIX_OPTION_NO_UPGRADE, opt_flag FLAG_NO_UPGRADE),
      (DISNIX_OPTION_NO_MIGRATION, opt_flag FLAG_NO_MIGRATION),
      (DISNIX_OPTION_DELETE_STATE, opt_flag FLAG_DELETE_STATE),
      (DISNIX_OPTION_NO_LOCK, opt_flag FLAG_NO_LOCK),
      (DISNIX_OPTION_ALL, opt_flag FLAG_ALL),
      (DISNIX_OPTION_KEEP, opt_keep),
      (DISNIX_OPTION_TRANSFER_ONLY, opt_flag FLAG_TRANSFER_ONLY),
      (DISNIX_OPTION_DEPTH_FIRST, opt_flag FLAG_DEPTH_FIRST),
      (DISNIX_OPTION_MAX_CONCURRENT_TRANSFERS, opt_max_concurrent_transfers)]"

definition deploy_main :: "coordinator \<Rightarrow> string list \<Rightarrow> os \<Rightarrow> (int \<times> os) result" where
  "deploy_main C args =
     parse_options ''m:o:p:hv'' deploy_long_options deploy_cases args (\<lambda>opts operands w.
        (case first_operand operands of
           None \<Rightarrow> Inr (1, w)
         | Some manifest_file \<Rightarrow>
             run_deploy C manifest_file (t_old_manifest opts) (t_coordinator_profile_path opts) (profile_option C opts)
               (t_max_concurrent_transfers opts) (t_keep opts) (global_flags C opts) (check_tmpdir (c_getenv C) None) w))"

section \<open>disnix-migrate (migrate/main.c)\<close>

definition migrate_long_options :: "long_option list" where
  "migrate_long_options =
     [(''container'', True, DISNIX_OPTION_CONTAINER),
      (''component'', True, DISNIX_OPTION_COMPONENT),
      (''coordinator-profile-path'', True, DISNIX_OPTION_COORDINATOR_PROFILE_PATH),
      (''profile'', True, DISNIX_OPTION_PROFILE),
      (''old-manifest'', True, DISNIX_OPTION_OLD_MANIFEST),
      (''no-upgrade'', False, DISNIX_OPTION_NO_UPGRADE),
      (''delete-state'', False, DISNIX_OPTION_DELETE_STATE),
      (''transfer-only'', False, DISNIX_OPTION_TRANSFER_ONLY),
      (''depth-first'', False, DISNIX_OPTION_DEPTH_FIRST),
      (''all'', False, DISNIX_OPTION_ALL),
      (''keep'', True, DISNIX_OPTION_KEEP),
      (''max-concurrent-transfers'', True, DISNIX_OPTION_MAX_CONCURRENT_TRANSFERS),
      (''help'', False, DISNIX_OPTION_HELP),
      (''version'', False, DISNIX_OPTION_VERSION)]"

definition migrate_cases :: "(int \<times> option_case) list" where
  "migrate_cases =
     [(DISNIX_OPTION_CONTAINER, opt_container),
      (DISNIX_OPTION_COMPONENT, opt_component),
      (DISNIX_OPTION_PROFILE, opt_profile),
      (DISNIX_OPTION_COORDINATOR_PROFILE_PATH, opt_coordinator_profile_path),
      (DISNIX_OPTION_OLD_MANIFEST, opt_old_manifest),
      (DISNIX_OPTION_NO_UPGRADE, opt_flag FLAG_NO_UPGRADE),
      (DISNIX_OPTION_DELETE_STATE, opt_flag FLAG_DELETE_STATE),
      (DISNIX_OPTION_ALL, opt_flag FLAG_ALL),
      (DISNIX_OPTION_KEEP, opt_keep),
      (DISNIX_OPTION_TRANSFER_ONLY, opt_flag FLAG_TRANSFER_ONLY),
      (DISNIX_OPTION_DEPTH_FIRST, opt_flag FLAG_DEPTH_FIRST),
      (DISNIX_OPTION_MAX_CONCURRENT_TRANSFERS, opt_max_concurrent_transfers)]"

definition migrate_main :: "coordinator \<Rightarrow> string list \<Rightarrow> os \<Rightarrow> (int \<times> os) result" where
  "migrate_main C args =
     parse_options ''c:C:m:o:p:hv'' migrate_long_options migrate_cases args (\<lambda>opts operands w.
        run_migrate C (first_operand operands) (t_max_concurrent_transfers opts) (global_flags C opts) (t_keep opts)
          (t_old_manifest opts) (t_coordinator_profile_path opts) (profile_option C opts) (t_container opts) (t_component opts) w)"

section \<open>disnix-snapshot (snapshot/main.c)\<close>

definition snapshot_long_options :: "long_option list" where
  "snapshot_long_options =
     [(''container'', True, DISNIX_OPTION_CONTAINER),
      (''component'', True, DISNIX_OPTION_COMPONENT),
      (''coordinator-profile-path'', True, DISNIX_OPTION_COORDINATOR_PROFILE_PATH),
      (''profile'', True, DISNIX_OPTION_PROFILE),
      (''old-manifest'', True, DISNIX_OPTION_OLD_MANIFEST),
      (''no-upgrade'', False, DISNIX_OPTION_NO_UPGRADE),
      (''transfer-only'', False, DISNIX_OPTION_TRANSFER_ONLY),
      (''depth-first'', False, DISNIX_OPTION_DEPTH_FIRST),
      (''all'', False, DISNIX_OPTION_ALL),
      (''keep'', True, DISNIX_OPTION_KEEP),
      (''max-concurrent-transfers'', True, DISNIX_OPTION_MAX_CONCURRENT_TRANSFERS),
      (''help'', False, DISNIX_OPTION_HELP),
      (''version'', False, DISNIX_OPTION_VERSION)]"

definition snapshot_cases :: "(int \<times> option_case) list" where
  "snapshot_cases =
     [(DISNIX_OPTION_CONTAINER, opt_container),
      (DISNIX_OPTION_COMPONENT, opt_component),
      (DISNIX_OPTION_PROFILE, opt_profile),
      (DISNIX_OPTION_COORDINATOR_PROFILE_PATH, opt_coordinator_profile_path),
      (DISNIX_OPTION_OLD_MANIFEST, opt_old_manifest),
      (DISNIX_OPTION_NO_UPGRADE, opt_flag FLAG_NO_UPGRADE),
      (DISNIX_OPTION_ALL, opt_flag FLAG_ALL),
      (DISNIX_OPTION_KEEP, opt_keep),
      (DISNIX_OPTION_TRANSFER_ONLY, opt_flag FLAG_TRANSFER_ONLY),
      (DISNIX_OPTION_DEPTH_FIRST, opt_flag FLAG_DEPTH_FIRST),
      (DISNIX_OPTION_MAX_CONCURRENT_TRANSFERS, opt_max_concurrent_transfers)]"

definition snapshot_main :: "coordinator \<Rightarrow> string list \<Rightarrow> os \<Rightarrow> (int \<times> os) result" where
  "snapshot_main C args =
     parse_options ''c:C:m:o:p:hv'' snapshot_long_options snapshot_cases args (\<lambda>opts operands w.
        run_snapshot C (first_operand operands) (t_max_concurrent_transfers opts) (t_flags opts) (t_keep opts)
          (t_old_manifest opts) (t_coordinator_profile_path opts) (profile_option C opts) (t_container opts) (t_component opts) w)"

section \<open>disnix-restore (restore/main.c)\<close>

definition restore_long_options :: "long_option list" where
  "restore_long_options =
     [(''container'', True, DISNIX_OPTION_CONTAINER),
      (''component'', True, DISNIX_OPTION_COMPONENT),
      (''coordinator-profile-path'', True, DISNIX_OPTION_COORDINATOR_PROFILE_PATH),
      (''profile'', True, DISNIX_OPTION_PROFILE),
      (''old-manifest'', True, DISNIX_OPTION_OLD_MANIFEST),
      (''transfer-only'', False, DISNIX_OPTION_TRANSFER_ONLY),
      (''depth-first'', False, DISNIX_OPTION_DEPTH_FIRST),
      (''no-upgrade'', False, DISNIX_OPTION_NO_UPGRADE),
      (''all'', False, DISNIX_OPTION_ALL),
      (''keep'', True, DISNIX_OPTION_KEEP),
      (''max-concurrent-transfers'', True, DISNIX_OPTION_MAX_CONCURRENT_TRANSFERS),
      (''help'', False, DISNIX_OPTION_HELP),
      (''version'', False, DISNIX_OPTION_VERSION)]"

definition restore_cases :: "(int \<times> option_case) list" where
  "restore_cases =
     [(DISNIX_OPTION_CONTAINER, opt_container),
      (DISNIX_OPTION_COMPONENT, opt_component),
      (DISNIX_OPTION_PROFILE, opt_profile),
      (DISNIX_OPTION_COORDINATOR_PROFILE_PATH, opt_coordinator_profile_path),
      (DISNIX_OPTION_OLD_MANIFEST, opt_old_manifest),
      (DISNIX_OPTION_NO_UPGRADE, opt_flag FLAG_NO_UPGRADE),
      (DISNIX_OPTION_ALL, opt_flag FLAG_ALL),
      (DISNIX_OPTION_KEEP, opt_keep),
      (DISNIX_OPTION_TRANSFER_ONLY, opt_flag FLAG_TRANSFER_ONLY),
      (DISNIX_OPTION_DEPTH_FIRST, opt_flag FLAG_DEPTH_FIRST),
      (DISNIX_OPTION_MAX_CONCURRENT_TRANSFERS, opt_max_concurrent_transfers)]"

definition restore_main :: "coordinator \<Rightarrow> string list \<Rightarrow> os \<Rightarrow> (int \<times> os) result" where
  "restore_main C args =
     parse_options ''c:C:m:o:p:hv'' restore_long_options restore_cases args (\<lambda>opts operands w.
        run_restore C (first_operand operands) (t_max_concurrent_transfers opts) (t_flags opts) (t_keep opts)
          (t_old_manifest opts) (t_coordinator_profile_path opts) (profile_option C opts) (t_container opts) (t_component opts) w)"

section \<open>disnix-activate (activate/main.c)\<close>

definition activate_long_options :: "long_option list" where
  "activate_long_options =
     [(''old-manifest'', True, DISNIX_OPTION_OLD_MANIFEST),
      (''coordinator-profile-path'', True, DISNIX_OPTION_COORDINATOR_PROFILE_PATH),
      (''profile'', True, DISNIX_OPTION_PROFILE),
      (''no-upgrade'', False, DISNIX_OPTION_NO_UPGRADE),
      (''no-rollback'', False, DISNIX_OPTION_NO_ROLLBACK),
      (''dry-run'', False, DISNIX_OPTION_DRY_RUN),
      (''help'', False, DISNIX_OPTION_HELP),
      (''version'', False, DISNIX_OPTION_VERSION)]"

definition activate_cases :: "(int \<times> option_case) list" where
  "activate_cases =
     [(DISNIX_OPTION_OLD_MANIFEST, opt_old_manifest),
      (DISNIX_OPTION_PROFILE, opt_profile),
      (DISNIX_OPTION_COORDINATOR_PROFILE_PATH, opt_coordinator_profile_path),
      (DISNIX_OPTION_NO_ROLLBACK, opt_flag FLAG_NO_ROLLBACK),
      (DISNIX_OPTION_NO_UPGRADE, opt_flag FLAG_NO_UPGRADE),
      (DISNIX_OPTION_DRY_RUN, opt_flag FLAG_DRY_RUN)]"

definition activate_main :: "coordinator \<Rightarrow> string list \<Rightarrow> os \<Rightarrow> (int \<times> os) result" where
  "activate_main C args =
     parse_options ''o:p:hv'' activate_long_options activate_cases args (\<lambda>opts operands w.
        (case first_operand operands of
           None \<Rightarrow> Inr (1, w)
         | Some manifest_file \<Rightarrow> run_activate_system C manifest_file (t_old_manifest opts)
             (t_coordinator_profile_path opts) (profile_option C opts) (t_flags opts) w))"

section \<open>disnix-delete-state (delete-state/main.c)\<close>

definition delete_state_long_options :: "long_option list" where
  "delete_state_long_options =
     [(''container'', True, DISNIX_OPTION_CONTAINER),
      (''component'', True, DISNIX_OPTION_COMPONENT),
      (''coordinator-profile-path'', True, DISNIX_OPTION_COORDINATOR_PROFILE_PATH),
      (''profile'', True, DISNIX_OPTION_PROFILE),
      (''help'', False, DISNIX_OPTION_HELP),
      (''version'', False, DISNIX_OPTION_VERSION)]"

definition delete_state_cases :: "(int \<times> option_case) list" where
  "delete_state_cases =
     [(DISNIX_OPTION_CONTAINER, opt_container),
      (DISNIX_OPTION_COMPONENT, opt_component),
      (DISNIX_OPTION_PROFILE, opt_profile),
      (DISNIX_OPTION_COORDINATOR_PROFILE_PATH, opt_coordinator_profile_path)]"

definition delete_state_main :: "coordinator \<Rightarrow> string list \<Rightarrow> os \<Rightarrow> (int \<times> os) result" where
  "delete_state_main C args =
     parse_options ''c:C:p:hv'' delete_state_long_options delete_state_cases args (\<lambda>opts operands w.
        run_delete_state C (first_operand operands) (t_coordinator_profile_path opts) (profile_option C opts)
          (t_container opts) (t_component opts) w)"

section \<open>disnix-distribute (distribute/main.c)\<close>

definition distribute_long_options :: "long_option list" where
  "distribute_long_options =
     [(''max-concurrent-transfers'', True, DISNIX_OPTION_MAX_CONCURRENT_TRANSFERS),
      (''help'', False, DISNIX_OPTION_HELP),
      (''version'', False, DISNIX_OPTION_VERSION)]"

definition distribute_cases :: "(int \<times> option_case) list" where
  "distribute_cases =
     [(DISNIX_OPTION_MAX_CONCURRENT_TRANSFERS, opt_max_concurrent_transfers)]"

definition distribute_main :: "coordinator \<Rightarrow> string list \<Rightarrow> os \<Rightarrow> (int \<times> os) result" where
  "distribute_main C args =
     parse_options ''m:hv'' distribute_long_options distribute_cases args (\<lambda>opts operands w.
        (case first_operand operands of
           None \<Rightarrow> Inr (1, w)
         | Some manifest_file \<Rightarrow>
             run_distribute C manifest_file (t_max_concurrent_transfers opts) (check_tmpdir (c_getenv C) None) w))"

section \<open>disnix-lock (lock/main.c)\<close>

definition lock_long_options :: "long_option list" where
  "lock_long_options =
     [(''unlock'', False, DISNIX_OPTION_UNLOCK),
      (''coordinator-profile-path'', True, DISNIX_OPTION_COORDINATOR_PROFILE_PATH),
      (''profile'', True, DISNIX_OPTION_PROFILE),
      (''help'', False, DISNIX_OPTION_HELP),
      (''version'', False, DISNIX_OPTION_VERSION)]"

definition lock_cases :: "(int \<times> option_case) list" where
  "lock_cases =
     [(DISNIX_OPTION_UNLOCK, opt_unlock),
      (DISNIX_OPTION_COORDINATOR_PROFILE_PATH, opt_coordinator_profile_path),
      (DISNIX_OPTION_PROFILE, opt_profile)]"

definition lock_main :: "coordinator \<Rightarrow> string list \<Rightarrow> os \<Rightarrow> (int \<times> os) result" where
  "lock_main C args =
     parse_options ''up:hv'' lock_long_options lock_cases args (\<lambda>opts operands w.
        lock_or_unlock C (t_lock opts) (first_operand operands) (t_coordinator_profile_path opts) (profile_option C opts) w)"

section \<open>disnix-set (set/main.c)\<close>

definition set_long_options :: "long_option list" where
  "set_long_options =
     [(''profile'', True, DISNIX_OPTION_PROFILE),
      (''coordinator-profile-path'', True, DISNIX_OPTION_COORDINATOR_PROFILE_PATH),
      (''no-coordinator-profile'', False, DISNIX_OPTION_NO_COORDINATOR_PROFILE),
      (''no-target-profiles'', False, DISNIX_OPTION_NO_TARGET_PROFILES),
      (''help'', False, DISNIX_OPTION_HELP),
      (''version'', False, DISNIX_OPTION_VERSION)]"

definition set_cases :: "(int \<times> option_case) list" where
  "set_cases =
     [(DISNIX_OPTION_PROFILE, opt_profile),
      (DISNIX_OPTION_COORDINATOR_PROFILE_PATH, opt_coordinator_profile_path),
      (DISNIX_OPTION_NO_COORDINATOR_PROFILE, opt_flag SET_NO_COORDINATOR_PROFILE),
      (DISNIX_OPTION_NO_TARGET_PROFILES, opt_flag SET_NO_TARGET_PROFILES)]"

definition set_main :: "coordinator \<Rightarrow> string list \<Rightarrow> os \<Rightarrow> (int \<times> os) result" where
  "set_main C args =
     parse_options ''p:hv'' set_long_options set_cases args (\<lambda>opts operands w.
        (case first_operand operands of
           None \<Rightarrow> Inr (1, w)
         | Some manifest_file \<Rightarrow> run_set_profiles C manifest_file (t_coordinator_profile_path opts)
             (profile_option C opts) (t_flags opts) w))"

end
