(* ===== verification/Machine_Tools.thy ===== *)
theory Machine_Tools
  imports Coordinator_Tools Snapshot_Transfer
begin

text \<open>
  The tools of the coordinator that address machines rather than deploy a manifest: collecting garbage and
  cleaning snapshots on all machines of an infrastructure model, diagnosing a service, copying closures and
  snapshots, and comparing two manifests; with the opening of an infrastructure model
  (\<open>libinfrastructure/targetstable.c\<close>).
\<close>

section \<open>Opening an infrastructure model (targetstable.c)\<close>

text \<open>
  A document is NULL or has a root, which may be NULL. Parsing a text and applying the style sheet
  \<open>infrastructure.xsl\<close> to it is a parameter.
\<close>

type_synonym document = "xmlNode option option"

definition create_targets_table_from_doc :: "document \<Rightarrow> Target hashtable option result" where
  "create_targets_table_from_doc doc =
     (case doc of
        None \<Rightarrow> Inr None
      | Some None \<Rightarrow> Inr None
      | Some (Some node_root) \<Rightarrow> bindr (parse_targets_table node_root) (\<lambda>t. Inr (Some t)))"

text \<open>Without a table the default properties are added to NULL.\<close>

definition create_targets_table_from_xml ::
  "(string \<Rightarrow> document) \<Rightarrow> string \<Rightarrow> cstr \<Rightarrow> cstr \<Rightarrow> Target hashtable option result" where
  "create_targets_table_from_xml xmlParseFile infrastructure_xml def_target_property def_client_interface =
     (case xmlParseFile infrastructure_xml of
        None \<Rightarrow> Inr None
      | doc \<Rightarrow> bindr (create_targets_table_from_doc doc) (\<lambda>table.
               bindr (deref table) (\<lambda>t.
                 Inr (Some (augment_default_properties t def_target_property def_client_interface)))))"

definition create_targets_table_from_nix ::
  "kernel \<Rightarrow> (string \<Rightarrow> document) \<Rightarrow> string \<Rightarrow> cstr \<Rightarrow> cstr \<Rightarrow> os \<Rightarrow> (Target hashtable option \<times> os) result" where
  "create_targets_table_from_nix K create_infrastructure_doc infrastructure_expr def_target_property def_client_interface w =
     (case pkgmgmt_normalize_infrastructure_sync K (Some infrastructure_expr) def_target_property def_client_interface w of
        (None, w) \<Rightarrow> Inr (None, w)
      | (Some infrastructureXML, w) \<Rightarrow>
          (case create_infrastructure_doc infrastructureXML of
             None \<Rightarrow> Inr (None, w)
           | doc \<Rightarrow> bindr (create_targets_table_from_doc doc) (\<lambda>t. Inr (t, w))))"

definition create_targets_table ::
  "kernel \<Rightarrow> (string \<Rightarrow> document) \<Rightarrow> (string \<Rightarrow> document) \<Rightarrow> string \<Rightarrow> bool \<Rightarrow> cstr \<Rightarrow> cstr \<Rightarrow> os
    \<Rightarrow> (Target hashtable option \<times> os) result" where
  "create_targets_table K xmlParseFile create_infrastructure_doc infrastructure_expr xml def_target_property
     def_client_interface w =
     (if xml
      then bindr (create_targets_table_from_xml xmlParseFile infrastructure_expr def_target_property def_client_interface)
             (\<lambda>t. Inr (t, w))
      else create_targets_table_from_nix K create_infrastructure_doc infrastructure_expr def_target_property
             def_client_interface w)"

text \<open>The shape of the tools that visit all machines: the exit status is 1 without a table or with a bad one.\<close>

record infrastructure_coordinator = coordinator +
  c_infrastructure_doc :: "string \<Rightarrow> document"

definition with_targets ::
  "infrastructure_coordinator \<Rightarrow> cstr \<Rightarrow> cstr \<Rightarrow> string \<Rightarrow> bool \<Rightarrow> (Target hashtable \<Rightarrow> os \<Rightarrow> (int \<times> os) result) \<Rightarrow> os
    \<Rightarrow> (int \<times> os) result" where
  "with_targets C interface prop infrastructure_expr xml run w =
     bindr (create_targets_table (c_kernel C) (c_parse C) (c_infrastructure_doc C) infrastructure_expr xml prop interface w)
       (\<lambda>(table, w). case table of
          None \<Rightarrow> Inr (1, w)
        | Some tgts \<Rightarrow> bindr (check_targets_table tgts) (\<lambda>good. if good then run tgts w else Inr (1, w)))"

section \<open>Collecting garbage (collect-garbage.c)\<close>

definition FLAG_COLLECT_GARBAGE_DELETE_OLD :: flags where "FLAG_COLLECT_GARBAGE_DELETE_OLD = 0x1"
definition FLAG_COLLECT_GARBAGE_XML :: flags where "FLAG_COLLECT_GARBAGE_XML = 0x2"

definition collect_garbage_on_target :: "kernel \<Rightarrow> bool \<Rightarrow> string \<Rightarrow> Target \<Rightarrow> os \<Rightarrow> (int \<times> os) result" where
  "collect_garbage_on_target K delete_old target_name tgt w =
     bindr (find_target_key tgt) (\<lambda>target_key.
       Inr (pkgmgmt_remote_collect_garbage K (client_interface tgt) target_key delete_old w))"

definition complete_collect_garbage_on_target :: "bool \<Rightarrow> cstr \<Rightarrow> Target option \<Rightarrow> ProcReact_Status \<Rightarrow> int \<Rightarrow> bool result" where
  "complete_collect_garbage_on_target delete_old target_name tgt outcome result = Inr delete_old"

text \<open>Running one process on every machine in parallel.\<close>

definition on_all_targets ::
  "coordinator \<Rightarrow> (kernel \<Rightarrow> 'u \<Rightarrow> string \<Rightarrow> Target \<Rightarrow> os \<Rightarrow> (int \<times> os) result)
    \<Rightarrow> ('u \<Rightarrow> cstr \<Rightarrow> Target option \<Rightarrow> ProcReact_Status \<Rightarrow> int \<Rightarrow> 'u result) \<Rightarrow> 'u \<Rightarrow> Target hashtable \<Rightarrow> os \<Rightarrow> (int \<times> os) result" where
  "on_all_targets C f c u tgts w =
     bindr (procreact_fork_in_parallel_and_wait (c_kernel C) (c_fuel C) (create_target_pid_iterator (c_kernel C) tgts f c u) w)
       (\<lambda>(iterator, w). Inr (if target_iterator_has_succeeded iterator then 0 else 1, w))"

definition collect_garbage ::
  "infrastructure_coordinator \<Rightarrow> cstr \<Rightarrow> cstr \<Rightarrow> string \<Rightarrow> flags \<Rightarrow> os \<Rightarrow> (int \<times> os) result" where
  "collect_garbage C interface prop infrastructure_expr flags =
     with_targets C interface prop infrastructure_expr (has_flag flags FLAG_COLLECT_GARBAGE_XML)
       (on_all_targets (coordinator.truncate C) collect_garbage_on_target complete_collect_garbage_on_target
          (has_flag flags FLAG_COLLECT_GARBAGE_DELETE_OLD))"

section \<open>Cleaning snapshots (clean-snapshots.c)\<close>

record CleanSnapshotsData =
  clean_keep :: int
  clean_container :: cstr
  clean_component :: cstr

definition clean_snapshots_on_target :: "kernel \<Rightarrow> CleanSnapshotsData \<Rightarrow> string \<Rightarrow> Target \<Rightarrow> os \<Rightarrow> (int \<times> os) result" where
  "clean_snapshots_on_target K d target_name tgt w =
     bindr (find_target_key tgt) (\<lambda>target_key.
       Inr (statemgmt_remote_clean_snapshots K (client_interface tgt) target_key (clean_keep d) (clean_container d) (clean_component d) w))"

definition complete_clean_snapshots_on_target ::
  "CleanSnapshotsData \<Rightarrow> cstr \<Rightarrow> Target option \<Rightarrow> ProcReact_Status \<Rightarrow> int \<Rightarrow> CleanSnapshotsData result" where
  "complete_clean_snapshots_on_target d target_name tgt outcome result = Inr d"

definition clean_snapshots ::
  "infrastructure_coordinator \<Rightarrow> cstr \<Rightarrow> cstr \<Rightarrow> string \<Rightarrow> int \<Rightarrow> cstr \<Rightarrow> cstr \<Rightarrow> bool \<Rightarrow> os \<Rightarrow> (int \<times> os) result" where
  "clean_snapshots C interface prop infrastructure_expr keep cont cmpt xml =
     with_targets C interface prop infrastructure_expr xml
       (on_all_targets (coordinator.truncate C) clean_snapshots_on_target complete_clean_snapshots_on_target
          \<lparr>clean_keep = keep, clean_container = cont, clean_component = cmpt\<rparr>)"

section \<open>Diagnosing a service (diagnose.c)\<close>

definition spawn_shell ::
  "kernel \<Rightarrow> services_table \<Rightarrow> Target hashtable \<Rightarrow> ServiceMapping \<Rightarrow> cstr \<Rightarrow> os \<Rightarrow> (int \<times> os) result" where
  "spawn_shell K services tgts mapping command w =
     bindr (g_hash_table_lookup tgts (target mapping)) (\<lambda>found.
     bindr (deref found) (\<lambda>tgt.
     bindr (find_target_key tgt) (\<lambda>target_key.
     bindr (create_mapping_parameters (service mapping) (container mapping) (target mapping)
              (container_provided_by_service mapping) services tgt) (\<lambda>params.
     bindr (deref (params_service params)) (\<lambda>svc.
       case statemgmt_remote_shell K (client_interface tgt) target_key (container mapping) (params_type params)
              (params_arguments params) (params_arguments_size params) (pkg svc) command w of
         (pid, w) \<Rightarrow> (case procreact_wait_for_exit_status K pid w of ((outcome, code), w) \<Rightarrow> Inr (code, w)))))))"

text \<open>All mappings of the service, of a container and a target if these are given.\<close>

fun candidate_mappings ::
  "services_table \<Rightarrow> string \<Rightarrow> cstr \<Rightarrow> cstr \<Rightarrow> ServiceMapping list \<Rightarrow> ServiceMapping list result" where
  "candidate_mappings services service_name container_filter target_filter [] = Inr []"
| "candidate_mappings services service_name container_filter target_filter (mapping # rest) =
     bindr (g_hash_table_lookup services (service mapping)) (\<lambda>found.
     bindr (deref found) (\<lambda>svc.
     bindr (candidate_mappings services service_name container_filter target_filter rest) (\<lambda>others.
       Inr (if xmlStrcmp (Some service_name) (name svc) = 0
              \<and> (container_filter = None \<or> xmlStrcmp container_filter (container mapping) = 0)
              \<and> (target_filter = None \<or> xmlStrcmp target_filter (target mapping) = 0)
            then mapping # others else others))))"

text \<open>A shell per mapping, until one fails.\<close>

fun shell_each ::
  "kernel \<Rightarrow> services_table \<Rightarrow> Target hashtable \<Rightarrow> cstr \<Rightarrow> ServiceMapping list \<Rightarrow> int \<Rightarrow> os \<Rightarrow> (int \<times> os) result" where
  "shell_each K services tgts command [] exit_status w = Inr (exit_status, w)"
| "shell_each K services tgts command (mapping # rest) exit_status w =
     bindr (spawn_shell K services tgts mapping command w) (\<lambda>(code, w).
       if code \<noteq> 0 then Inr (code, w) else shell_each K services tgts command rest code w)"

definition diagnose ::
  "coordinator \<Rightarrow> string \<Rightarrow> bool \<Rightarrow> cstr \<Rightarrow> cstr \<Rightarrow> string \<Rightarrow> cstr \<Rightarrow> cstr \<Rightarrow> cstr \<Rightarrow> os \<Rightarrow> (int \<times> os) result" where
  "diagnose C service_name show_mappings manifest_file coordinator_profile_path profile container_filter target_filter command =
     with_manifest (open_provided_or_previous C manifest_file coordinator_profile_path (Some profile)
         (MANIFEST_SERVICE_MAPPINGS_FLAG OR MANIFEST_INFRASTRUCTURE_FLAG) None None)
       (\<lambda>manifest w.
          bindr (candidate_mappings (services_table manifest) service_name container_filter target_filter
                   (service_mapping_array manifest)) (\<lambda>candidates.
          if show_mappings then Inr (0, w)
          else case candidates of
            [] \<Rightarrow> Inr (1, w)
          | [mapping] \<Rightarrow> spawn_shell (c_kernel C) (services_table manifest) (targets_table manifest) mapping command w
          | _ \<Rightarrow> if command = None then Inr (1, w)
                 else shell_each (c_kernel C) (services_table manifest) (targets_table manifest) command candidates 0 w))"

section \<open>Comparing manifests (compare-manifest.c)\<close>

text \<open>The new manifest may be missing on the command line; no file can be opened then.\<close>

definition compare_manifest :: "coordinator \<Rightarrow> cstr \<Rightarrow> cstr \<Rightarrow> cstr \<Rightarrow> string \<Rightarrow> int result" where
  "compare_manifest C new_manifest old_manifest coordinator_profile_path profile =
     bindr (case new_manifest of None \<Rightarrow> Inr None | Some f \<Rightarrow> open_manifest C f MANIFEST_ALL_FLAGS None None) (\<lambda>opened.
     case opened of
       None \<Rightarrow> Inr 1
     | Some manifest \<Rightarrow> bindr (check_manifest manifest) (\<lambda>good.
         if good
         then bindr (open_previous C (manifest_to_open C old_manifest coordinator_profile_path (Some profile)) MANIFEST_ALL_FLAGS)
                (\<lambda>previous_manifest. case previous_manifest of
                   None \<Rightarrow> Inr 1
                 | Some p \<Rightarrow> bindr (check_manifest p) (\<lambda>previous_ok.
                     if previous_ok then bindr (compare_manifests manifest p) (\<lambda>same. Inr (if same then 0 else 1))
                     else Inr 2))
         else Inr 2))"

section \<open>The options of these tools\<close>

definition opt_interface :: option_case where "opt_interface optarg opts = opts\<lparr>t_interface := optarg\<rparr>"
definition opt_target_property :: option_case where "opt_target_property optarg opts = opts\<lparr>t_target_property := optarg\<rparr>"
definition opt_target :: option_case where "opt_target optarg opts = opts\<lparr>t_target := optarg\<rparr>"
definition opt_service :: option_case where "opt_service optarg opts = opts\<lparr>t_service_name := optarg\<rparr>"
definition opt_command :: option_case where "opt_command optarg opts = opts\<lparr>t_command := optarg\<rparr>"
definition opt_xml :: option_case where "opt_xml optarg opts = opts\<lparr>t_xml := True\<rparr>"
definition opt_show_mappings :: option_case where "opt_show_mappings optarg opts = opts\<lparr>t_show_mappings := True\<rparr>"
definition opt_from :: option_case where "opt_from optarg opts = opts\<lparr>t_from := True\<rparr>"
definition opt_to :: option_case where "opt_to optarg opts = opts\<lparr>t_to := True\<rparr>"
definition opt_all :: option_case where "opt_all optarg opts = opts\<lparr>t_all := True\<rparr>"

definition interface_option :: "coordinator \<Rightarrow> tool_options \<Rightarrow> cstr" where
  "interface_option C opts = check_interface_option (c_getenv C) (t_interface opts)"

definition target_property_option :: "coordinator \<Rightarrow> tool_options \<Rightarrow> cstr" where
  "target_property_option C opts = check_target_property_option (c_getenv C) (t_target_property opts)"

section \<open>disnix-collect-garbage (collect-garbage/main.c)\<close>

definition collect_garbage_long_options :: "long_option list" where
  "collect_garbage_long_options =
     [(''interface'', True, DISNIX_OPTION_INTERFACE),
      (''target-property'', True, DISNIX_OPTION_TARGET_PROPERTY),
      (''delete-old'', False, DISNIX_OPTION_DELETE_OLD),
      (''xml'', False, DISNIX_OPTION_XML),
      (''help'', False, DISNIX_OPTION_HELP),
      (''version'', False, DISNIX_OPTION_VERSION)]"

definition collect_garbage_cases :: "(int \<times> option_case) list" where
  "collect_garbage_cases =
     [(DISNIX_OPTION_INTERFACE, opt_interface),
      (DISNIX_OPTION_TARGET_PROPERTY, opt_target_property),
      (DISNIX_OPTION_DELETE_OLD, opt_flag FLAG_COLLECT_GARBAGE_DELETE_OLD),
      (DISNIX_OPTION_XML, opt_flag FLAG_COLLECT_GARBAGE_XML)]"

definition collect_garbage_main :: "infrastructure_coordinator \<Rightarrow> string list \<Rightarrow> os \<Rightarrow> (int \<times> os) result" where
  "collect_garbage_main C args =
     parse_options ''dhv'' collect_garbage_long_options collect_garbage_cases args (\<lambda>opts operands w.
        (case first_operand operands of
           None \<Rightarrow> Inr (1, w)
         | Some infrastructure_expr \<Rightarrow> collect_garbage C (interface_option (coordinator.truncate C) opts)
             (target_property_option (coordinator.truncate C) opts) infrastructure_expr (t_flags opts) w))"

section \<open>disnix-clean-snapshots (clean-snapshots/main.c)\<close>

definition clean_snapshots_long_options :: "long_option list" where
  "clean_snapshots_long_options =
     [(''interface'', True, DISNIX_OPTION_INTERFACE),
      (''target-property'', True, DISNIX_OPTION_TARGET_PROPERTY),
      (''keep'', True, DISNIX_OPTION_KEEP),
      (''container'', True, DISNIX_OPTION_CONTAINER),
      (''component'', True, DISNIX_OPTION_COMPONENT),
      (''xml'', False, DISNIX_OPTION_XML),
      (''version'', False, DISNIX_OPTION_VERSION),
      (''help'', False, DISNIX_OPTION_HELP)]"

definition clean_snapshots_cases :: "(int \<times> option_case) list" where
  "clean_snapshots_cases =
     [(DISNIX_OPTION_INTERFACE, opt_interface),
      (DISNIX_OPTION_TARGET_PROPERTY, opt_target_property),
      (DISNIX_OPTION_KEEP, opt_keep),
      (DISNIX_OPTION_CONTAINER, opt_container),
      (DISNIX_OPTION_COMPONENT, opt_component),
      (DISNIX_OPTION_XML, opt_xml)]"

definition clean_snapshots_main :: "infrastructure_coordinator \<Rightarrow> string list \<Rightarrow> os \<Rightarrow> (int \<times> os) result" where
  "clean_snapshots_main C args =
     parse_options ''c:C:hv'' clean_snapshots_long_options clean_snapshots_cases args (\<lambda>opts operands w.
        (case first_operand operands of
           None \<Rightarrow> Inr (1, w)
         | Some infrastructure_expr \<Rightarrow> clean_snapshots C (interface_option (coordinator.truncate C) opts)
             (target_property_option (coordinator.truncate C) opts) infrastructure_expr (t_keep opts) (t_container opts)
             (t_component opts) (t_xml opts) w))"

section \<open>disnix-diagnose (diagnose/main.c)\<close>

definition diagnose_long_options :: "long_option list" where
  "diagnose_long_options =
     [(''service'', True, DISNIX_OPTION_SERVICE),
      (''show-mappings'', False, DISNIX_OPTION_SHOW_MAPPINGS),
      (''container'', True, DISNIX_OPTION_CONTAINER),
      (''target'', True, DISNIX_OPTION_TARGET),
      (''command'', True, DISNIX_OPTION_COMMAND),
      (''coordinator-profile-path'', True, DISNIX_OPTION_COORDINATOR_PROFILE_PATH),
      (''profile'', True, DISNIX_OPTION_PROFILE),
      (''help'', False, DISNIX_OPTION_HELP),
      (''version'', False, DISNIX_OPTION_VERSION)]"

definition diagnose_cases :: "(int \<times> option_case) list" where
  "diagnose_cases =
     [(DISNIX_OPTION_SERVICE, opt_service),
      (DISNIX_OPTION_SHOW_MAPPINGS, opt_show_mappings),
      (DISNIX_OPTION_CONTAINER, opt_container),
      (DISNIX_OPTION_TARGET, opt_target),
      (DISNIX_OPTION_COMMAND, opt_command),
      (DISNIX_OPTION_COORDINATOR_PROFILE_PATH, opt_coordinator_profile_path),
      (DISNIX_OPTION_PROFILE, opt_profile)]"

definition diagnose_main :: "coordinator \<Rightarrow> string list \<Rightarrow> os \<Rightarrow> (int \<times> os) result" where
  "diagnose_main C args =
     parse_options ''S:c:t:p:hv'' diagnose_long_options diagnose_cases args (\<lambda>opts operands w.
        (case t_service_name opts of
           None \<Rightarrow> Inr (1, w)
         | Some service_name \<Rightarrow> diagnose C service_name (t_show_mappings opts) (first_operand operands)
             (t_coordinator_profile_path opts) (profile_option C opts) (t_container opts) (t_target opts) (t_command opts) w))"

section \<open>disnix-compare-manifest (compare-manifest/main.c)\<close>

definition compare_manifest_long_options :: "long_option list" where
  "compare_manifest_long_options =
     [(''coordinator-profile-path'', True, DISNIX_OPTION_COORDINATOR_PROFILE_PATH),
      (''profile'', True, DISNIX_OPTION_PROFILE),
      (''old-manifest'', True, DISNIX_OPTION_OLD_MANIFEST),
      (''help'', False, DISNIX_OPTION_HELP),
      (''version'', False, DISNIX_OPTION_VERSION)]"

definition compare_manifest_cases :: "(int \<times> option_case) list" where
  "compare_manifest_cases =
     [(DISNIX_OPTION_PROFILE, opt_profile),
      (DISNIX_OPTION_COORDINATOR_PROFILE_PATH, opt_coordinator_profile_path),
      (DISNIX_OPTION_OLD_MANIFEST, opt_old_manifest)]"

definition compare_manifest_main :: "coordinator \<Rightarrow> string list \<Rightarrow> os \<Rightarrow> (int \<times> os) result" where
  "compare_manifest_main C args =
     parse_options ''m:o:p:hv'' compare_manifest_long_options compare_manifest_cases args (\<lambda>opts operands w.
        bindr (compare_manifest C (first_operand operands) (t_old_manifest opts) (t_coordinator_profile_path opts)
                 (profile_option C opts)) (\<lambda>code. Inr (code, w)))"

section \<open>disnix-copy-closure (copy-closure/main.c)\<close>

definition copy_closure_long_options :: "long_option list" where
  "copy_closure_long_options =
     [(''from'', False, option_char CHR ''F''),
      (''to'', False, option_char CHR ''T''),
      (''target'', True, option_char CHR ''t''),
      (''interface'', True, DISNIX_OPTION_INTERFACE),
      (''help'', False, DISNIX_OPTION_HELP),
      (''version'', False, DISNIX_OPTION_VERSION)]"

definition copy_closure_cases :: "(int \<times> option_case) list" where
  "copy_closure_cases =
     [(option_char CHR ''F'', opt_from),
      (option_char CHR ''T'', opt_to),
      (option_char CHR ''t'', opt_target),
      (DISNIX_OPTION_INTERFACE, opt_interface)]"

definition copy_closure_main :: "coordinator \<Rightarrow> string list \<Rightarrow> os \<times> files \<Rightarrow> (int \<times> os \<times> files) result" where
  "copy_closure_main C args =
     parse_options ''t:hv'' copy_closure_long_options copy_closure_cases args (\<lambda>opts operands w.
        (case w of (w, l) \<Rightarrow>
         let tmpdir = (case c_getenv C ''TMPDIR'' of None \<Rightarrow> ''/tmp'' | Some t \<Rightarrow> t);
             exit_copy = (\<lambda>r. bindr r (\<lambda>(good, w, l). Inr (if good then 0 else 1, w, l))) in
         if operands = [] then Inr (1, w, l)
         else if t_from opts \<and> t_to opts then Inr (1, w, l)
         else if t_to opts
         then exit_copy (copy_closure_to_sync (c_kernel C) (c_posix C) (interface_option C opts) (t_target opts) tmpdir operands w l)
         else if t_from opts
         then exit_copy (copy_closure_from_sync (c_kernel C) (c_posix C) (interface_option C opts) (t_target opts) operands w l)
         else Inr (0, w, l)))"

section \<open>disnix-copy-snapshots (copy-snapshots/main.c)\<close>

definition copy_snapshots_long_options :: "long_option list" where
  "copy_snapshots_long_options =
     [(''from'', False, option_char CHR ''F''),
      (''to'', False, option_char CHR ''T''),
      (''target'', True, option_char CHR ''t''),
      (''container'', True, DISNIX_OPTION_CONTAINER),
      (''component'', True, DISNIX_OPTION_COMPONENT),
      (''all'', False, DISNIX_OPTION_ALL),
      (''interface'', True, DISNIX_OPTION_INTERFACE),
      (''help'', False, DISNIX_OPTION_HELP),
      (''version'', False, DISNIX_OPTION_VERSION)]"

definition copy_snapshots_cases :: "(int \<times> option_case) list" where
  "copy_snapshots_cases =
     [(option_char CHR ''F'', opt_from),
      (option_char CHR ''T'', opt_to),
      (option_char CHR ''t'', opt_target),
      (DISNIX_OPTION_CONTAINER, opt_container),
      (DISNIX_OPTION_COMPONENT, opt_component),
      (DISNIX_OPTION_ALL, opt_all),
      (DISNIX_OPTION_INTERFACE, opt_interface)]"

definition copy_snapshots_main :: "coordinator \<Rightarrow> string list \<Rightarrow> os \<times> files \<Rightarrow> (int \<times> os \<times> files) result" where
  "copy_snapshots_main C args =
     parse_options ''t:C:c:hv'' copy_snapshots_long_options copy_snapshots_cases args (\<lambda>opts operands w.
        (case w of (w, l) \<Rightarrow>
         if t_container opts = None then Inr (1, w, l)
         else if t_component opts = None then Inr (1, w, l)
         else if t_from opts \<and> t_to opts then Inr (1, w, l)
         else if t_to opts
         then bindr (copy_snapshots_to_sync (c_kernel C) (interface_option C opts) (t_target opts) (t_container opts)
                       (t_component opts) (t_all opts) w) (\<lambda>(good, w). Inr (if good then 0 else 1, w, l))
         else if t_from opts
         then bindr (copy_snapshots_from_sync (c_kernel C) (c_posix C) (interface_option C opts) (t_target opts) (t_container opts)
                       (t_component opts) (t_all opts) w l) (\<lambda>(good, w, l). Inr (if good then 0 else 1, w, l))
         else Inr (0, w, l)))"

end
