(* ===== verification/Manifest_Print.thy ===== *)
theory Manifest_Print
  imports Profile_Manifest "HOL-Library.Sublist"
begin

text \<open>
  Printing manifests, profile manifests and infrastructure models as Nix expressions and as XML (the
  \<open>print_\<close> functions of \<open>libinfrastructure\<close>, \<open>libmanifest\<close> and \<open>libprofilemanifest\<close>), on top of the printers of
  \<open>libnixxml\<close>. Printing a member that is NULL dereferences it. What the XML printers produce for
  target properties is no XML: the last section proves it.
\<close>

section \<open>Printers that dereference their value\<close>

text \<open>
  A printer receives the indentation level and the value; the XML printers of the models pass
  NULL for the name of the type property. The members of a composite are printed one level deeper.
\<close>

fun collect :: "'a result list \<Rightarrow> 'a list result" where
  "collect [] = Inr []"
| "collect (r # rs) = bindr r (\<lambda>x. bindr (collect rs) (\<lambda>xs. Inr (x # xs)))"

definition attribute_nix :: "string \<Rightarrow> (int \<Rightarrow> 'a \<Rightarrow> string result) \<Rightarrow> int \<Rightarrow> 'a \<Rightarrow> string result" where
  "attribute_nix attr_name print_value indent_level v =
     bindr (print_value indent_level v) (\<lambda>text. Inr (NixXML_print_attribute_nix indent_level (\<lambda>_ t. t) attr_name text))"

definition attributes_nix :: "int \<Rightarrow> (int \<Rightarrow> string result) list \<Rightarrow> string result" where
  "attributes_nix indent_level members =
     bindr (collect (map (\<lambda>m. m (inner_level indent_level)) members)) (\<lambda>texts.
       Inr (NixXML_print_attrset_nix indent_level (\<lambda>_ t. t) (concat texts)))"

definition string_nix :: "int \<Rightarrow> cstr \<Rightarrow> string result" where
  "string_nix indent_level v = bindr (deref v) (\<lambda>s. Inr (NixXML_print_string_nix s))"

definition array_nix :: "(int \<Rightarrow> 'a \<Rightarrow> string result) \<Rightarrow> int \<Rightarrow> 'a list option \<Rightarrow> string result" where
  "array_nix print_value indent_level v =
     bindr (deref v) (\<lambda>array.
     bindr (collect (map (print_value (inner_level indent_level)) array)) (\<lambda>texts.
       Inr (NixXML_print_g_ptr_array_nix indent_level (\<lambda>_ t. t) texts)))"

definition table_nix :: "(int \<Rightarrow> 'a \<Rightarrow> string result) \<Rightarrow> int \<Rightarrow> 'a hashtable option \<Rightarrow> string result" where
  "table_nix print_value indent_level v =
     bindr (deref v) (\<lambda>table.
     bindr (collect (map (\<lambda>(key, x). print_value (inner_level indent_level) x) table)) (\<lambda>texts.
       Inr (NixXML_print_g_hash_table_nix indent_level (\<lambda>_ t. t) (zip (map fst table) texts))))"

text \<open>The members of an optional attribute: nothing if it is NULL.\<close>

definition unless_null :: "cstr \<Rightarrow> (int \<Rightarrow> cstr \<Rightarrow> string result) \<Rightarrow> int \<Rightarrow> string result" where
  "unless_null v print_attribute indent_level = (if v \<noteq> None then print_attribute indent_level v else Inr '''')"

definition attribute_xml :: "string \<Rightarrow> (int \<Rightarrow> 'a \<Rightarrow> string result) \<Rightarrow> int \<Rightarrow> 'a \<Rightarrow> string result" where
  "attribute_xml attr_name print_value indent_level v =
     bindr (print_value indent_level v) (\<lambda>text. Inr (NixXML_print_simple_attribute_xml indent_level None (\<lambda>_ _ t. t) attr_name text))"

definition attributes_xml :: "int \<Rightarrow> (int \<Rightarrow> string result) list \<Rightarrow> string result" where
  "attributes_xml indent_level members =
     bindr (collect (map (\<lambda>m. m (inner_level indent_level)) members)) (\<lambda>texts.
       Inr (NixXML_print_simple_attrset_xml indent_level None (\<lambda>_ t. t) (concat texts)))"

definition string_xml :: "int \<Rightarrow> cstr \<Rightarrow> string result" where
  "string_xml indent_level v = bindr (deref v) (\<lambda>s. Inr (NixXML_print_string_xml None s))"

definition array_xml :: "string \<Rightarrow> (int \<Rightarrow> 'a \<Rightarrow> string result) \<Rightarrow> int \<Rightarrow> 'a list option \<Rightarrow> string result" where
  "array_xml child_element_name print_value indent_level v =
     bindr (deref v) (\<lambda>array.
     bindr (collect (map (print_value (inner_level indent_level)) array)) (\<lambda>texts.
       Inr (NixXML_print_g_ptr_array_xml indent_level None child_element_name (\<lambda>_ _ t. t) texts)))"

definition table_xml :: "string \<Rightarrow> (int \<Rightarrow> 'a \<Rightarrow> string result) \<Rightarrow> int \<Rightarrow> 'a hashtable option \<Rightarrow> string result" where
  "table_xml child_element_name print_value indent_level v =
     bindr (deref v) (\<lambda>table.
     bindr (collect (map (\<lambda>(key, x). print_value (inner_level indent_level) x) table)) (\<lambda>texts.
       Inr (NixXML_print_g_hash_table_verbose_xml indent_level None child_element_name ''name'' (\<lambda>_ _ t. t)
              (zip (map fst table) texts))))"

text \<open>The entries of a table in the order of their keys, as the ordered iterator visits them.\<close>

definition in_key_order :: "'a hashtable \<Rightarrow> ('a option) hashtable" where
  "in_key_order table = ordered_entries (NixXML_g_hash_table_ordered_iter_init table)"

definition ordered :: "(int \<Rightarrow> 'a \<Rightarrow> string result) \<Rightarrow> int \<Rightarrow> 'a option \<Rightarrow> string result" where
  "ordered print_value indent_level v = bindr (deref v) (print_value indent_level)"

section \<open>Infrastructure models (targetpropertiestable.c, containerstable.c, target.c, targetstable.c)\<close>

definition print_target_properties_table_nix :: "int \<Rightarrow> properties option \<Rightarrow> string result" where
  "print_target_properties_table_nix =
     table_nix (\<lambda>indent_level value. Inr (NixXML_print_expr_nix indent_level value))"

definition print_generic_expr_xml :: "int \<Rightarrow> NixXML_Node \<Rightarrow> string result" where
  "print_generic_expr_xml indent_level value =
     Inr (NixXML_print_generic_expr_verbose_xml indent_level ''property'' ''list'' ''attr'' ''name'' (Some ''type'') value)"

definition print_target_properties_table_xml :: "int \<Rightarrow> properties option \<Rightarrow> string result" where
  "print_target_properties_table_xml = table_xml ''property'' print_generic_expr_xml"

definition print_containers_table_nix :: "int \<Rightarrow> containers option \<Rightarrow> string result" where
  "print_containers_table_nix = table_nix (\<lambda>indent_level t. print_target_properties_table_nix indent_level (Some t))"

definition print_containers_table_xml :: "int \<Rightarrow> containers option \<Rightarrow> string result" where
  "print_containers_table_xml =
     table_xml ''container'' (\<lambda>indent_level t. print_target_properties_table_xml indent_level (Some t))"

definition print_target_nix :: "int \<Rightarrow> Target \<Rightarrow> string result" where
  "print_target_nix indent_level tgt =
     attributes_nix indent_level
       [\<lambda>i. attribute_nix ''properties'' print_target_properties_table_nix i (properties_table tgt),
        \<lambda>i. attribute_nix ''containers'' print_containers_table_nix i (containers_table tgt),
        unless_null (system tgt) (attribute_nix ''system'' string_nix),
        unless_null (client_interface tgt) (attribute_nix ''clientInterface'' string_nix),
        unless_null (target_property tgt) (attribute_nix ''targetProperty'' string_nix),
        \<lambda>i. attribute_nix ''numOfCores'' (\<lambda>_ n. Inr (NixXML_print_int_nix n)) i (num_of_cores tgt)]"

definition print_target_xml :: "int \<Rightarrow> Target \<Rightarrow> string result" where
  "print_target_xml indent_level tgt =
     attributes_xml indent_level
       [\<lambda>i. attribute_xml ''properties'' print_target_properties_table_xml i (properties_table tgt),
        \<lambda>i. attribute_xml ''containers'' print_containers_table_xml i (containers_table tgt),
        unless_null (system tgt) (attribute_xml ''system'' string_xml),
        unless_null (client_interface tgt) (attribute_xml ''clientInterface'' string_xml),
        unless_null (target_property tgt) (attribute_xml ''targetProperty'' string_xml),
        \<lambda>i. attribute_xml ''numOfCores'' (\<lambda>_ n. Inr (NixXML_print_int_xml None n)) i (num_of_cores tgt)]"

definition print_targets_table_nix :: "int \<Rightarrow> Target hashtable \<Rightarrow> string result" where
  "print_targets_table_nix indent_level table = table_nix print_target_nix indent_level (Some table)"

definition print_targets_table_xml :: "int \<Rightarrow> Target hashtable \<Rightarrow> string result" where
  "print_targets_table_xml indent_level table = table_xml ''target'' print_target_xml indent_level (Some table)"

section \<open>Services and mappings (interdependencymapping.c, manifestservice.c, servicemapping.c and their collections)\<close>

definition print_interdependency_mapping_nix :: "int \<Rightarrow> 'a InterDependencyMapping_scheme \<Rightarrow> string result" where
  "print_interdependency_mapping_nix indent_level mapping =
     attributes_nix indent_level
       [\<lambda>i. attribute_nix ''service'' string_nix i (service mapping),
        \<lambda>i. attribute_nix ''container'' string_nix i (container mapping),
        \<lambda>i. attribute_nix ''target'' string_nix i (target mapping)]"

definition print_interdependency_mapping_xml :: "int \<Rightarrow> 'a InterDependencyMapping_scheme \<Rightarrow> string result" where
  "print_interdependency_mapping_xml indent_level mapping =
     attributes_xml indent_level
       [\<lambda>i. attribute_xml ''service'' string_xml i (service mapping),
        \<lambda>i. attribute_xml ''container'' string_xml i (container mapping),
        \<lambda>i. attribute_xml ''target'' string_xml i (target mapping)]"

definition print_interdependency_mapping_array_nix :: "int \<Rightarrow> InterDependencyMapping list option \<Rightarrow> string result" where
  "print_interdependency_mapping_array_nix = array_nix print_interdependency_mapping_nix"

definition print_interdependency_mapping_array_xml :: "int \<Rightarrow> InterDependencyMapping list option \<Rightarrow> string result" where
  "print_interdependency_mapping_array_xml = array_xml ''mapping'' print_interdependency_mapping_xml"

definition print_manifest_service_nix :: "int \<Rightarrow> ManifestService \<Rightarrow> string result" where
  "print_manifest_service_nix indent_level svc =
     attributes_nix indent_level
       [\<lambda>i. attribute_nix ''name'' string_nix i (name svc),
        \<lambda>i. attribute_nix ''pkg'' (\<lambda>_ v. bindr (deref v) (\<lambda>s. Inr (NixXML_print_store_path_nix s))) i (pkg svc),
        \<lambda>i. attribute_nix ''type'' string_nix i (type_of svc),
        \<lambda>i. attribute_nix ''dependsOn'' print_interdependency_mapping_array_nix i (depends_on svc),
        \<lambda>i. attribute_nix ''connectsTo'' print_interdependency_mapping_array_nix i (connects_to svc),
        \<lambda>i. attribute_nix ''providesContainers'' print_containers_table_nix i (provides_containers_table svc)]"

definition print_manifest_service_xml :: "int \<Rightarrow> ManifestService \<Rightarrow> string result" where
  "print_manifest_service_xml indent_level svc =
     attributes_xml indent_level
       [\<lambda>i. attribute_xml ''name'' string_xml i (name svc),
        \<lambda>i. attribute_xml ''pkg'' string_xml i (pkg svc),
        \<lambda>i. attribute_xml ''type'' string_xml i (type_of svc),
        \<lambda>i. attribute_xml ''dependsOn'' print_interdependency_mapping_array_xml i (depends_on svc),
        \<lambda>i. attribute_xml ''connectsTo'' print_interdependency_mapping_array_xml i (connects_to svc),
        \<lambda>i. attribute_xml ''providesContainers'' print_containers_table_xml i (provides_containers_table svc)]"

definition print_services_table_nix :: "int \<Rightarrow> ManifestService hashtable option \<Rightarrow> string result" where
  "print_services_table_nix indent_level v =
     bindr (deref v) (\<lambda>table. table_nix (ordered print_manifest_service_nix) indent_level (Some (in_key_order table)))"

definition print_services_table_xml :: "int \<Rightarrow> ManifestService hashtable option \<Rightarrow> string result" where
  "print_services_table_xml indent_level v =
     bindr (deref v) (\<lambda>table. table_xml ''service'' (ordered print_manifest_service_xml) indent_level (Some (in_key_order table)))"

definition print_service_mapping_nix :: "int \<Rightarrow> ServiceMapping \<Rightarrow> string result" where
  "print_service_mapping_nix indent_level mapping =
     attributes_nix indent_level
       [\<lambda>i. attribute_nix ''service'' string_nix i (service mapping),
        \<lambda>i. attribute_nix ''container'' string_nix i (container mapping),
        \<lambda>i. attribute_nix ''target'' string_nix i (target mapping),
        unless_null (container_provided_by_service mapping) (attribute_nix ''containerProvidedByService'' string_nix)]"

definition print_service_mapping_xml :: "int \<Rightarrow> ServiceMapping \<Rightarrow> string result" where
  "print_service_mapping_xml indent_level mapping =
     attributes_xml indent_level
       [\<lambda>i. attribute_xml ''service'' string_xml i (service mapping),
        \<lambda>i. attribute_xml ''container'' string_xml i (container mapping),
        \<lambda>i. attribute_xml ''target'' string_xml i (target mapping),
        unless_null (container_provided_by_service mapping) (attribute_xml ''containerProvidedByService'' string_xml)]"

definition print_service_mapping_array_nix :: "int \<Rightarrow> ServiceMapping list option \<Rightarrow> string result" where
  "print_service_mapping_array_nix = array_nix print_service_mapping_nix"

definition print_service_mapping_array_xml :: "int \<Rightarrow> ServiceMapping list option \<Rightarrow> string result" where
  "print_service_mapping_array_xml = array_xml ''mapping'' print_service_mapping_xml"

definition print_snapshot_mapping_nix :: "int \<Rightarrow> SnapshotMapping \<Rightarrow> string result" where
  "print_snapshot_mapping_nix indent_level mapping =
     attributes_nix indent_level [\<lambda>i. print_snapshot_mapping_attributes_nix i mapping]"

definition print_snapshot_mapping_xml :: "int \<Rightarrow> SnapshotMapping \<Rightarrow> string result" where
  "print_snapshot_mapping_xml indent_level mapping =
     attributes_xml indent_level [\<lambda>i. print_snapshot_mapping_attributes_xml i mapping]"

definition print_snapshot_mapping_array_nix :: "int \<Rightarrow> SnapshotMapping list option \<Rightarrow> string result" where
  "print_snapshot_mapping_array_nix = array_nix print_snapshot_mapping_nix"

definition print_snapshot_mapping_array_xml :: "int \<Rightarrow> SnapshotMapping list option \<Rightarrow> string result" where
  "print_snapshot_mapping_array_xml = array_xml ''mapping'' print_snapshot_mapping_xml"

section \<open>Manifests and profile manifests (profilemappingtable.c, manifest.c, profilemanifest.c, profilemanifesttarget.c)\<close>

definition print_manifest_nix :: "int \<Rightarrow> Manifest \<Rightarrow> string result" where
  "print_manifest_nix indent_level manifest =
     attributes_nix indent_level
       [\<lambda>i. attribute_nix ''profiles'' (\<lambda>i table. Inr (print_profile_mapping_table_nix i table)) i (profile_mapping_table manifest),
        \<lambda>i. attribute_nix ''services'' print_services_table_nix i (Some (services_table manifest)),
        \<lambda>i. attribute_nix ''serviceMappings'' print_service_mapping_array_nix i (Some (service_mapping_array manifest)),
        \<lambda>i. attribute_nix ''snapshotMappings'' print_snapshot_mapping_array_nix i (Some (snapshot_mapping_array manifest)),
        \<lambda>i. attribute_nix ''infrastructure'' print_targets_table_nix i (targets_table manifest)]"

definition print_manifest_xml :: "int \<Rightarrow> Manifest \<Rightarrow> string result" where
  "print_manifest_xml indent_level manifest =
     attributes_xml indent_level
       [\<lambda>i. attribute_xml ''profiles'' (\<lambda>i table. Inr (print_profile_mapping_table_xml i table)) i (profile_mapping_table manifest),
        \<lambda>i. attribute_xml ''services'' print_services_table_xml i (Some (services_table manifest)),
        \<lambda>i. attribute_xml ''serviceMappings'' print_service_mapping_array_xml i (Some (service_mapping_array manifest)),
        \<lambda>i. attribute_xml ''snapshotMappings'' print_snapshot_mapping_array_xml i (Some (snapshot_mapping_array manifest)),
        \<lambda>i. attribute_xml ''infrastructure'' print_targets_table_xml i (targets_table manifest)]"

definition print_profile_manifest_nix :: "int \<Rightarrow> ProfileManifest option \<Rightarrow> string result" where
  "print_profile_manifest_nix indent_level v =
     bindr (deref v) (\<lambda>pm. attributes_nix indent_level
       [\<lambda>i. attribute_nix ''services'' print_services_table_nix i (services_part pm),
        \<lambda>i. attribute_nix ''serviceMappings'' print_service_mapping_array_nix i (service_mappings_part pm),
        \<lambda>i. attribute_nix ''snapshotMappings'' print_snapshot_mapping_array_nix i (snapshot_mappings_part pm)])"

definition print_profile_manifest_xml :: "int \<Rightarrow> ProfileManifest option \<Rightarrow> string result" where
  "print_profile_manifest_xml indent_level v =
     bindr (deref v) (\<lambda>pm. attributes_xml indent_level
       [\<lambda>i. attribute_xml ''services'' print_services_table_xml i (services_part pm),
        \<lambda>i. attribute_xml ''serviceMappings'' print_service_mapping_array_xml i (service_mappings_part pm),
        \<lambda>i. attribute_xml ''snapshotMappings'' print_snapshot_mapping_array_xml i (snapshot_mappings_part pm)])"

definition print_profile_manifest_target_nix :: "int \<Rightarrow> ProfileManifestTarget \<Rightarrow> string result" where
  "print_profile_manifest_target_nix indent_level t =
     attributes_nix indent_level
       [unless_null (profile t) (attribute_nix ''profile'' (\<lambda>_ v. bindr (deref v) (\<lambda>s. Inr (NixXML_print_store_path_nix s)))),
        \<lambda>i. attribute_nix ''profileManifest'' print_profile_manifest_nix i (profile_manifest t)]"

definition print_profile_manifest_target_xml :: "int \<Rightarrow> ProfileManifestTarget \<Rightarrow> string result" where
  "print_profile_manifest_target_xml indent_level t =
     attributes_xml indent_level
       [unless_null (profile t) (attribute_xml ''profile'' string_xml),
        \<lambda>i. attribute_xml ''profileManifest'' print_profile_manifest_xml i (profile_manifest t)]"

definition print_profile_manifest_target_table_nix :: "ProfileManifestTarget hashtable \<Rightarrow> string result" where
  "print_profile_manifest_target_table_nix table = table_nix print_profile_manifest_target_nix 0 (Some table)"

definition print_profile_manifest_target_table_xml :: "ProfileManifestTarget hashtable \<Rightarrow> string result" where
  "print_profile_manifest_target_table_xml table =
     bindr (table_xml ''target'' print_profile_manifest_target_xml 0 (Some table)) (\<lambda>text.
       Inr (NixXML_print_open_root_tag ''profileManifestTargets'' @ text @ NixXML_print_close_root_tag ''profileManifestTargets''))"

text \<open>What the two plain formats print for a table of profile manifests.\<close>

fun print_services_in_profile_manifest_target_table :: "ProfileManifestTarget hashtable \<Rightarrow> string result" where
  "print_services_in_profile_manifest_target_table [] = Inr ''''"
| "print_services_in_profile_manifest_target_table ((key, t) # rest) =
     bindr (deref (profile_manifest t)) (\<lambda>pm.
     bindr (print_services_in_profile_manifest pm) (\<lambda>text.
     bindr (print_services_in_profile_manifest_target_table rest) (\<lambda>out.
       Inr ([newline] @ ''Services on: '' @ key @ [newline, newline] @ text @ out))))"

fun print_services_per_container_in_profile_manifest_target_table ::
  "ServiceMapping sort_function \<Rightarrow> ProfileManifestTarget hashtable \<Rightarrow> (string \<times> ProfileManifestTarget hashtable) result" where
  "print_services_per_container_in_profile_manifest_target_table srt [] = Inr ('''', [])"
| "print_services_per_container_in_profile_manifest_target_table srt ((key, t) # rest) =
     bindr (deref (profile_manifest t)) (\<lambda>pm.
     bindr (print_services_per_container_in_profile_manifest srt pm) (\<lambda>(text, pm).
     bindr (print_services_per_container_in_profile_manifest_target_table srt rest) (\<lambda>(out, rest).
       Inr ([newline] @ ''Services on: '' @ key @ [newline, newline] @ text @ out,
         (key, t\<lparr>profile_manifest := Some pm\<rparr>) # rest))))"

section \<open>What the XML printers make of target properties\<close>

text \<open>
  Reading a text tag by tag: whether it ends inside a tag, and nothing if a tag is opened inside another, which
  no XML document does.
\<close>

fun scan_tags :: "bool \<Rightarrow> string \<Rightarrow> bool option" where
  "scan_tags inside [] = Some inside"
| "scan_tags inside (c # cs) =
     (if c = CHR ''<'' then (if inside then None else scan_tags True cs)
      else if c = CHR ''>'' then scan_tags False cs
      else scan_tags inside cs)"

definition well_tagged :: "string \<Rightarrow> bool" where
  "well_tagged text \<longleftrightarrow> scan_tags False text = Some False"

definition broken :: "string \<Rightarrow> bool" where
  "broken text \<longleftrightarrow> (\<forall>inside. scan_tags inside text = None)"

lemma scan_tags_append: "scan_tags inside (xs @ ys) = Option.bind (scan_tags inside xs) (\<lambda>inside. scan_tags inside ys)"
  by (induction xs arbitrary: inside) auto

lemma scan_tags_plain: "CHR ''<'' \<notin> set xs \<Longrightarrow> CHR ''>'' \<notin> set xs \<Longrightarrow> scan_tags inside xs = Some inside"
  by (induction xs arbitrary: inside) auto

lemma broken_sublist: "broken t \<Longrightarrow> sublist t text \<Longrightarrow> broken text"
  by (auto simp: broken_def sublist_def scan_tags_append)

lemma broken_not_tagged: "broken text \<Longrightarrow> \<not> well_tagged text"
  by (simp add: broken_def well_tagged_def)

lemma collect_member: "collect rs = Inr xs \<Longrightarrow> r \<in> set rs \<Longrightarrow> \<exists>x \<in> set xs. r = Inr x"
  by (induction rs arbitrary: xs) (auto simp: result_simps)

lemma collect_length: "collect rs = Inr xs \<Longrightarrow> length xs = length rs"
  by (induction rs arbitrary: xs) (auto simp: result_simps)

lemma sublist_concat: "x \<in> set xs \<Longrightarrow> sublist t x \<Longrightarrow> sublist t (concat xs)"
  by (induction xs) (auto simp: sublist_appendI sublist_append)

lemma sublist_inside: "sublist t x \<Longrightarrow> sublist t (ps @ x @ ss)"
  by (meson sublist_appendI sublist_order.order_trans)

lemma sublist_value: "sublist t (a @ b @ c @ t @ d)"
  by (metis append_assoc sublist_appendI)

text \<open>The text of a member occurs in the text of the whole.\<close>

lemma attributes_xml_member:
  assumes "attributes_xml i ms = Inr text" and "m \<in> set ms"
  shows "\<exists>t. m (inner_level i) = Inr t \<and> sublist t text"
proof -
  from assms(1) obtain ts where ts: "collect (map (\<lambda>m. m (inner_level i)) ms) = Inr ts"
    "text = NixXML_print_simple_attrset_xml i None (\<lambda>_ t. t) (concat ts)" by (auto simp: attributes_xml_def result_simps)
  from collect_member [OF ts(1), of "m (inner_level i)"] assms(2) obtain t where "t \<in> set ts" "m (inner_level i) = Inr t" by auto
  moreover from this(1) have "sublist t text"
    unfolding ts(2) NixXML_print_simple_attrset_xml_def by (intro sublist_inside sublist_concat) auto
  ultimately show ?thesis by blast
qed

lemma attribute_xml_value:
  assumes "attribute_xml nm p i v = Inr text"
  shows "\<exists>t. p i v = Inr t \<and> sublist t text"
proof -
  from assms obtain t where t: "p i v = Inr t" "text = NixXML_print_simple_attribute_xml i None (\<lambda>_ _ t. t) nm t"
    by (auto simp: attribute_xml_def result_simps)
  have "sublist t text" unfolding t(2) NixXML_print_simple_attribute_xml_def by (rule sublist_value)
  with t(1) show ?thesis by blast
qed

lemma table_xml_entry:
  assumes "table_xml ch p i (Some table) = Inr text" and "(k, x) \<in> set table"
  shows "\<exists>t. p (inner_level i) x = Inr t \<and> sublist t text"
proof -
  from assms(1) obtain ts where ts: "collect (map (\<lambda>(k, x). p (inner_level i) x) table) = Inr ts"
    "text = NixXML_print_g_hash_table_verbose_xml i None ch ''name'' (\<lambda>_ _ t. t) (zip (map fst table) ts)"
    by (auto simp: table_xml_def result_simps)
  from collect_member [OF ts(1), of "p (inner_level i) x"] assms(2) obtain t where t: "t \<in> set ts" "p (inner_level i) x = Inr t" by force
  have "length ts = length (map fst table)" using collect_length [OF ts(1)] by simp
  with t(1) obtain k' where "(k', t) \<in> set (zip (map fst table) ts)" by (metis in_set_impl_in_set_zip2)
  moreover have "sublist t (NixXML_print_verbose_attribute_xml (inner_level i) None ch ''name'' (\<lambda>_ _ t. t) k' t)"
    unfolding NixXML_print_verbose_attribute_xml_def by (rule sublist_value)
  ultimately have "sublist t (concat (map (\<lambda>(key, obj). NixXML_print_verbose_attribute_xml (inner_level i) None ch ''name''
      (\<lambda>_ _ t. t) key obj) (zip (map fst table) ts)))"
    by (intro sublist_concat [of "NixXML_print_verbose_attribute_xml (inner_level i) None ch ''name'' (\<lambda>_ _ t. t) k' t"]) force+
  then have "sublist t text" unfolding ts(2) NixXML_print_g_hash_table_verbose_xml_def NixXML_print_verbose_attrset_xml_def
      NixXML_print_g_hash_table_verbose_attributes_xml_def by (intro sublist_inside)
  with t(2) show ?thesis by blast
qed

text \<open>
  A property is printed as an element whose start tag is not closed before the start tag of a second
  element of the same name.
\<close>

lemma properties_broken:
  assumes "print_target_properties_table_xml i (Some props) = Inr text" and "props \<noteq> []"
  shows "broken text"
proof -
  from assms(2) obtain k v rest where props: "props = (k, v) # rest" by (cases props) auto
  from assms(1) obtain rest' where eq: "text = [CHR ''>''] @ [newline] @ NixXML_print_indentation (inner_level i)
      @ [CHR ''<''] @ ''property name='' @ [quote] @ print_string_xml k @ [quote] @ [CHR ''<''] @ rest'"
    by (auto simp: props print_target_properties_table_xml_def table_xml_def result_simps print_generic_expr_xml_def
        NixXML_print_g_hash_table_verbose_xml_def NixXML_print_verbose_attrset_xml_def print_type_suffix_def
        NixXML_print_g_hash_table_verbose_attributes_xml_def NixXML_print_verbose_attribute_xml_def
        NixXML_print_open_verbose_attr_tag_def NixXML_print_generic_expr_verbose_xml_def NixXML_print_open_root_tag_def)
  have "scan_tags b (NixXML_print_indentation j) = Some b" for b j
    by (rule scan_tags_plain) (auto simp: NixXML_print_indentation_def)
  moreover have "scan_tags b (print_string_xml k) = Some b" for b
    by (rule scan_tags_plain) (auto simp: print_string_xml_def escape_xml_def split: if_splits)
  ultimately show ?thesis unfolding broken_def eq
    by (simp add: scan_tags_append newline_def quote_def)
qed

lemma services_table_broken:
  assumes "print_services_table_xml i (Some services) = Inr text" and "(n, svc) \<in> set services" and "wf_table services"
    and "provides_containers_table svc = Some cs" and "(c, props) \<in> set cs" and "props \<noteq> []"
  shows "broken text"
proof -
  from assms(2,3) have "(n, Some svc) \<in> set (in_key_order services)"
    by (force simp: in_key_order_def ordered_iteration)
  with assms(1) obtain t1 where 1: "ordered print_manifest_service_xml (inner_level i) (Some svc) = Inr t1" "sublist t1 text"
    unfolding print_services_table_xml_def by (auto dest!: table_xml_entry)
  let ?provides = "\<lambda>i. attribute_xml ''providesContainers'' print_containers_table_xml i (provides_containers_table svc)"
  from 1(1) have "print_manifest_service_xml (inner_level i) svc = Inr t1" by (simp add: ordered_def)
  from attributes_xml_member [OF this [unfolded print_manifest_service_xml_def], of ?provides] obtain t2 where
    2: "attribute_xml ''providesContainers'' print_containers_table_xml (inner_level (inner_level i)) (Some cs) = Inr t2" "sublist t2 t1"
    by (auto simp only: list.set insert_iff assms(4))
  from attribute_xml_value [OF 2(1)] obtain t3 where 3: "print_containers_table_xml (inner_level (inner_level i)) (Some cs) = Inr t3"
    "sublist t3 t2" by blast
  from table_xml_entry [OF 3(1) [unfolded print_containers_table_xml_def] assms(5)] obtain t4 where
    4: "print_target_properties_table_xml (inner_level (inner_level (inner_level i))) (Some props) = Inr t4" "sublist t4 t3" by blast
  show ?thesis by (rule broken_sublist [OF _ 1(2)], rule broken_sublist [OF _ 2(2)], rule broken_sublist [OF _ 3(2)],
        rule broken_sublist [OF _ 4(2)], rule properties_broken [OF 4(1) assms(6)])
qed

text \<open>
  C38: The XML that disnix-query prints is no XML as soon as an installed service provides a container with properties: the text
  opens a tag inside another tag. The printer of the table writes the start of an element for every property and leaves closing
  the tag to the printer of the value, which writes the start of an element of its own.
\<close>

theorem query_xml_malformed:
  assumes "print_profile_manifest_target_table_xml table = Inr text" and "(machine, t) \<in> set table"
    and "profile_manifest t = Some pm" and "services_part pm = Some services" and "(n, svc) \<in> set services" and "wf_table services"
    and "provides_containers_table svc = Some cs" and "(c, props) \<in> set cs" and "props \<noteq> []"
  shows "\<not> well_tagged text"
proof -
  from assms(1) obtain t0 where 0: "table_xml ''target'' print_profile_manifest_target_xml 0 (Some table) = Inr t0" "sublist t0 text"
    by (auto simp: print_profile_manifest_target_table_xml_def result_simps)
  from table_xml_entry [OF 0(1) assms(2)] obtain t1 where
    1: "print_profile_manifest_target_xml (inner_level 0) t = Inr t1" "sublist t1 t0" by blast
  from attributes_xml_member [OF 1(1) [unfolded print_profile_manifest_target_xml_def],
      of "\<lambda>i. attribute_xml ''profileManifest'' print_profile_manifest_xml i (profile_manifest t)"] obtain t2 where
    2: "attribute_xml ''profileManifest'' print_profile_manifest_xml (inner_level (inner_level 0)) (Some pm) = Inr t2" "sublist t2 t1"
    by (auto simp only: list.set insert_iff assms(3))
  from attribute_xml_value [OF 2(1)] obtain t3 where 3: "print_profile_manifest_xml (inner_level (inner_level 0)) (Some pm) = Inr t3" "sublist t3 t2"
    by blast
  from attributes_xml_member [OF 3(1) [unfolded print_profile_manifest_xml_def deref_simps bindr_simps],
      of "\<lambda>i. attribute_xml ''services'' print_services_table_xml i (services_part pm)"] obtain t4 where
    4: "attribute_xml ''services'' print_services_table_xml (inner_level (inner_level (inner_level 0))) (Some services) = Inr t4" "sublist t4 t3"
    by (auto simp only: list.set insert_iff assms(4))
  from attribute_xml_value [OF 4(1)] obtain t5 where
    5: "print_services_table_xml (inner_level (inner_level (inner_level 0))) (Some services) = Inr t5" "sublist t5 t4" by blast
  show ?thesis by (rule broken_not_tagged, rule broken_sublist [OF _ 0(2)], rule broken_sublist [OF _ 1(2)], rule broken_sublist [OF _ 2(2)],
        rule broken_sublist [OF _ 3(2)], rule broken_sublist [OF _ 4(2)], rule broken_sublist [OF _ 5(2)],
        rule services_table_broken [OF 5(1) assms(5-9)])
qed

definition providing_manifest :: ProfileManifest where
  "providing_manifest =
     \<lparr>services_part = Some [(''db'', \<lparr>name = Some ''mysql'', pkg = Some ''/nix/store/mysql'', type_of = Some ''process'',
        depends_on = Some [], connects_to = Some [],
        provides_containers_table = Some [(''mysql-database'', [(''port'', NIX_XML_TYPE_INT ''3306'')])]\<rparr>)],
      service_mappings_part = Some [], snapshot_mappings_part = Some []\<rparr>"

theorem query_xml_malformed_witness:
  "case print_profile_manifest_target_table_xml [(''m'', \<lparr>profile = None, profile_manifest = Some providing_manifest\<rparr>)] of
     Inl e \<Rightarrow> False | Inr text \<Rightarrow> \<not> well_tagged text"
proof -
  let ?t = "[(''m'', \<lparr>profile = None, profile_manifest = Some providing_manifest\<rparr>)]"
  have "case print_profile_manifest_target_table_xml ?t of Inl e \<Rightarrow> False | Inr text \<Rightarrow> True" by code_simp
  then obtain out where x: "print_profile_manifest_target_table_xml ?t = Inr out" by (auto split: sum.splits)
  have "\<not> well_tagged out"
    using query_xml_malformed [OF x, of "''m''" _ providing_manifest] by (simp add: providing_manifest_def)
  with x show ?thesis by simp
qed

end
