(* ===== verification/Query_Tools.thy ===== *)
theory Query_Tools
  imports Future_Iterator Machine_Tools Manifest_Print
begin

text \<open>
  The tools that ask all machines of an infrastructure model and print what they answer: disnix-query
  (\<open>query/query-installed.c\<close>, \<open>query/main.c\<close>) and disnix-capture-infra (\<open>capture-infra/capture-infra.c\<close>,
  \<open>capture-infra/main.c\<close>), both on the future iterator. A tool returns its exit status and what it has printed to the
  standard output.
\<close>

section \<open>Querying the installed services (query-installed.c)\<close>

record QueryInstalledServicesData =
  query_profile :: string
  profile_manifest_target_table :: "ProfileManifestTarget hashtable"

definition query_installed_services_on_target ::
  "kernel \<Rightarrow> QueryInstalledServicesData \<Rightarrow> string \<Rightarrow> Target \<Rightarrow> os \<Rightarrow> (string_future \<times> os) result" where
  "query_installed_services_on_target K d target_name tgt w =
     bindr (find_target_key tgt) (\<lambda>target_key.
       Inr (pkgmgmt_remote_query_installed K (client_interface tgt) target_key (Some (query_profile d)) w))"

definition complete_query_installed_services_on_target ::
  "(string \<Rightarrow> xmlNode option option) \<Rightarrow> sorts \<Rightarrow> QueryInstalledServicesData \<Rightarrow> cstr \<Rightarrow> Target option \<Rightarrow> string_future
    \<Rightarrow> ProcReact_Status \<Rightarrow> QueryInstalledServicesData result" where
  "complete_query_installed_services_on_target xmlParseDoc S d target_name tgt future outcome =
     (if outcome \<noteq> PROCREACT_STATUS_OK \<or> future_result future = None then Inr d
      else bindr (deref (future_result future)) (\<lambda>text.
           bindr (create_profile_manifest_from_string xmlParseDoc S text target_name) (\<lambda>pm.
           bindr (deref target_name) (\<lambda>key.
             Inr (d\<lparr>profile_manifest_target_table :=
               g_hash_table_insert key \<lparr>profile = None, profile_manifest = pm\<rparr> (profile_manifest_target_table d)\<rparr>)))))"

definition print_installed_services ::
  "ServiceMapping sort_function \<Rightarrow> ProfileManifestTarget hashtable \<Rightarrow> OutputFormat \<Rightarrow> string result" where
  "print_installed_services srt table format =
     (case format of
        FORMAT_SERVICES \<Rightarrow> print_services_in_profile_manifest_target_table table
      | FORMAT_CONTAINERS \<Rightarrow> bindr (print_services_per_container_in_profile_manifest_target_table srt table) (\<lambda>(text, _). Inr text)
      | FORMAT_NIX \<Rightarrow> print_profile_manifest_target_table_nix table
      | FORMAT_XML \<Rightarrow> print_profile_manifest_target_table_xml table)"

text \<open>\<open>xmlParseDoc\<close> is a parameter of the tool besides those every tool on an infrastructure model has.\<close>

record query_coordinator = infrastructure_coordinator +
  c_parse_text :: "string \<Rightarrow> xmlNode option option"
  c_sort_output :: "ServiceMapping sort_function"

definition print_checked ::
  "ServiceMapping sort_function \<Rightarrow> OutputFormat \<Rightarrow> ProfileManifestTarget hashtable \<Rightarrow> os \<Rightarrow> (int \<times> string \<times> os) result" where
  "print_checked srt format table w =
     bindr (check_profile_manifest_target_table table) (\<lambda>good.
     if good then bindr (print_installed_services srt table format) (\<lambda>text. Inr (0, text, w))
     else Inr (1, [], w))"

definition query_all_targets ::
  "query_coordinator \<Rightarrow> string \<Rightarrow> OutputFormat \<Rightarrow> Target hashtable \<Rightarrow> os \<Rightarrow> (int \<times> string \<times> os) result" where
  "query_all_targets C prof format tgts w =
     bindr (procreact_fork_in_parallel_buffer_and_wait (c_kernel C) (c_fuel C)
              (create_target_future_iterator (c_kernel C) tgts query_installed_services_on_target
                 (complete_query_installed_services_on_target (c_parse_text C) (c_sorts C))
                 \<lparr>query_profile = prof, profile_manifest_target_table = []\<rparr>) w) (\<lambda>(iterator, w).
     if target_future_iterator_has_succeeded iterator
     then print_checked (c_sort_output C) format (profile_manifest_target_table (future_user_data (future_data iterator))) w
     else Inr (1, [], w))"

definition with_printed_targets ::
  "query_coordinator \<Rightarrow> cstr \<Rightarrow> cstr \<Rightarrow> string \<Rightarrow> bool \<Rightarrow> (Target hashtable \<Rightarrow> os \<Rightarrow> (int \<times> string \<times> os) result) \<Rightarrow> os
    \<Rightarrow> (int \<times> string \<times> os) result" where
  "with_printed_targets C interface prop infrastructure_expr xml run w =
     bindr (create_targets_table (c_kernel C) (c_parse C) (c_infrastructure_doc C) infrastructure_expr xml prop interface w)
       (\<lambda>(table, w). case table of
          None \<Rightarrow> Inr (1, [], w)
        | Some tgts \<Rightarrow> bindr (check_targets_table tgts) (\<lambda>good. if good then run tgts w else Inr (1, [], w)))"

definition query_installed ::
  "query_coordinator \<Rightarrow> cstr \<Rightarrow> cstr \<Rightarrow> string \<Rightarrow> string \<Rightarrow> OutputFormat \<Rightarrow> bool \<Rightarrow> os \<Rightarrow> (int \<times> string \<times> os) result" where
  "query_installed C interface prop infrastructure_expr prof format xml =
     with_printed_targets C interface prop infrastructure_expr xml (query_all_targets C prof format)"

section \<open>Capturing the configurations of the machines (capture-infra.c)\<close>

type_synonym configs_table = "cstr list hashtable"

definition capture_infra_on_target :: "kernel \<Rightarrow> configs_table \<Rightarrow> string \<Rightarrow> Target \<Rightarrow> os \<Rightarrow> (strings_future \<times> os) result" where
  "capture_infra_on_target K configs target_name tgt w =
     bindr (find_target_key tgt) (\<lambda>target_key.
       Inr (statemgmt_remote_capture_config K (client_interface tgt) target_key w))"

definition complete_capture_infra_on_target ::
  "configs_table \<Rightarrow> cstr \<Rightarrow> Target option \<Rightarrow> strings_future \<Rightarrow> ProcReact_Status \<Rightarrow> configs_table result" where
  "complete_capture_infra_on_target configs target_name tgt future outcome =
     (if outcome \<noteq> PROCREACT_STATUS_OK \<or> future_result future = None then Inr configs
      else bindr (deref (future_result future)) (\<lambda>lines. bindr (deref target_name) (\<lambda>key.
        Inr (g_hash_table_insert key lines configs))))"

text \<open>The array ends with NULL.\<close>

fun print_config_lines :: "cstr list \<Rightarrow> string result" where
  "print_config_lines [] = Inl Out_Of_Bounds"
| "print_config_lines (None # rest) = Inr []"
| "print_config_lines (Some line # rest) =
     bindr (print_config_lines rest) (\<lambda>out.
       Inr (line @ (case rest of Some next_line # _ \<Rightarrow> [NixXML_Print.newline] @ ''  '' | _ \<Rightarrow> []) @ out))"

definition print_config :: "string \<times> (cstr list) option \<Rightarrow> string result" where
  "print_config e =
     (case e of (key, config) \<Rightarrow>
        bindr (deref config) (\<lambda>lines. bindr (print_config_lines lines) (\<lambda>text.
          Inr (''  '' @ [quote] @ key @ [quote] @ '' = '' @ text @ '';'' @ [NixXML_Print.newline]))))"

definition print_configs_table :: "configs_table \<Rightarrow> string result" where
  "print_configs_table configs =
     bindr (collect (map print_config (in_key_order configs))) (\<lambda>texts.
       Inr (''{'' @ [NixXML_Print.newline] @ concat texts @ ''}'' @ [NixXML_Print.newline]))"

definition capture_all_targets :: "query_coordinator \<Rightarrow> Target hashtable \<Rightarrow> os \<Rightarrow> (int \<times> string \<times> os) result" where
  "capture_all_targets C tgts w =
     bindr (procreact_fork_in_parallel_buffer_and_wait (c_kernel C) (c_fuel C)
              (create_target_future_iterator (c_kernel C) tgts capture_infra_on_target complete_capture_infra_on_target []) w)
       (\<lambda>(iterator, w).
     bindr (print_configs_table (future_user_data (future_data iterator))) (\<lambda>text.
       Inr (if target_future_iterator_has_succeeded iterator then 0 else 1, text, w)))"

definition capture_infra :: "query_coordinator \<Rightarrow> cstr \<Rightarrow> cstr \<Rightarrow> string \<Rightarrow> bool \<Rightarrow> os \<Rightarrow> (int \<times> string \<times> os) result" where
  "capture_infra C interface prop infrastructure_expr xml =
     with_printed_targets C interface prop infrastructure_expr xml (capture_all_targets C)"

section \<open>The main programs (query/main.c, capture-infra/main.c)\<close>

definition opt_format :: option_case where
  "opt_format optarg opts =
     (if optarg = Some ''services'' then opts\<lparr>t_format := FORMAT_SERVICES\<rparr>
      else if optarg = Some ''containers'' then opts\<lparr>t_format := FORMAT_CONTAINERS\<rparr>
      else if optarg = Some ''nix'' then opts\<lparr>t_format := FORMAT_NIX\<rparr>
      else if optarg = Some ''xml'' then opts\<lparr>t_format := FORMAT_XML\<rparr>
      else opts)"

definition query_long_options :: "long_option list" where
  "query_long_options =
     [(''format'', True, DISNIX_OPTION_FORMAT),
      (''interface'', True, DISNIX_OPTION_INTERFACE),
      (''target-property'', True, DISNIX_OPTION_TARGET_PROPERTY),
      (''profile'', True, DISNIX_OPTION_PROFILE),
      (''xml'', False, DISNIX_OPTION_XML),
      (''help'', False, DISNIX_OPTION_HELP),
      (''version'', False, DISNIX_OPTION_VERSION)]"

definition query_cases :: "(int \<times> option_case) list" where
  "query_cases =
     [(DISNIX_OPTION_FORMAT, opt_format),
      (DISNIX_OPTION_INTERFACE, opt_interface),
      (DISNIX_OPTION_TARGET_PROPERTY, opt_target_property),
      (DISNIX_OPTION_PROFILE, opt_profile),
      (DISNIX_OPTION_XML, opt_xml)]"

definition query_main :: "query_coordinator \<Rightarrow> string list \<Rightarrow> string \<times> os \<Rightarrow> (int \<times> string \<times> os) result" where
  "query_main C args =
     parse_options ''f:p:hv'' query_long_options query_cases args (\<lambda>opts operands (out, w).
        (case first_operand operands of
           None \<Rightarrow> Inr (1, out, w)
         | Some infrastructure_expr \<Rightarrow>
             bindr (query_installed C (interface_option (coordinator.truncate C) opts) (target_property_option (coordinator.truncate C) opts)
                infrastructure_expr (profile_option (coordinator.truncate C) opts) (t_format opts) (t_xml opts) w)
               (\<lambda>(code, text, w). Inr (code, out @ text, w))))"

definition capture_infra_long_options :: "long_option list" where
  "capture_infra_long_options =
     [(''interface'', True, DISNIX_OPTION_INTERFACE),
      (''target-property'', True, DISNIX_OPTION_TARGET_PROPERTY),
      (''xml'', False, DISNIX_OPTION_XML),
      (''help'', False, DISNIX_OPTION_HELP),
      (''version'', False, DISNIX_OPTION_VERSION)]"

definition capture_infra_cases :: "(int \<times> option_case) list" where
  "capture_infra_cases =
     [(DISNIX_OPTION_INTERFACE, opt_interface),
      (DISNIX_OPTION_TARGET_PROPERTY, opt_target_property),
      (DISNIX_OPTION_XML, opt_xml)]"

definition capture_infra_main :: "query_coordinator \<Rightarrow> string list \<Rightarrow> string \<times> os \<Rightarrow> (int \<times> string \<times> os) result" where
  "capture_infra_main C args =
     parse_options ''hv'' capture_infra_long_options capture_infra_cases args (\<lambda>opts operands (out, w).
        (case first_operand operands of
           None \<Rightarrow> Inr (1, out, w)
         | Some infrastructure_expr \<Rightarrow>
             bindr (capture_infra C (interface_option (coordinator.truncate C) opts) (target_property_option (coordinator.truncate C) opts)
                infrastructure_expr (t_xml opts) w)
               (\<lambda>(code, text, w). Inr (code, out @ text, w))))"

end
