(* ===== verification/Deploy_Correct.thy ===== *)
theory Deploy_Correct
  imports Deploy Transition_Properties Migration_Correct
begin

text \<open>
  What a deployment guarantees: it returns, and whatever fails after the machines have been locked, every
  machine is told to unlock; when it succeeds the new configuration is active.
\<close>

section \<open>The phases over the profile mappings\<close>

definition copy_request :: "Target hashtable \<Rightarrow> cstr \<Rightarrow> string \<times> string \<Rightarrow> child" where
  "copy_request ts tmpdir e = (case map_of ts (fst e) of
     None \<Rightarrow> Exec [] []
   | Some t \<Rightarrow> (case find_target_key t of
       Inl e \<Rightarrow> Exec [] []
     | Inr k \<Rightarrow> Run ''copy_closure_to'' [client_interface t, k, tmpdir, Some (snd e)]))"

definition set_request :: "Target hashtable \<Rightarrow> cstr \<Rightarrow> string \<times> string \<Rightarrow> child" where
  "set_request ts profile e = (case map_of ts (fst e) of
     None \<Rightarrow> Exec [] []
   | Some t \<Rightarrow> (case find_target_key t of
       Inl e \<Rightarrow> Exec [] []
     | Inr k \<Rightarrow> execvp [client_interface t, Some ''--target'', k, Some ''--profile'', profile, Some ''--set'', Some (snd e), None]))"

definition reachable_profiles :: "Target hashtable \<Rightarrow> string hashtable \<Rightarrow> bool" where
  "reachable_profiles ts profiles \<longleftrightarrow> (\<forall>e \<in> set profiles. reachable_target ts (fst e))"

lemma distribute_returns:
  assumes K: "kernel_live K" and w: "resting_world w" and fuel: "length profiles + 1 < fuel" and l: "0 < l"
    and reach: "reachable_profiles ts profiles"
  shows "\<exists>w' new. distribute K fuel profiles ts l tmpdir w = Inr (all_succeeded new, w') \<and> resting_world w'
    \<and> trace w' = new @ trace w \<and> spawned new = map (copy_request ts tmpdir) profiles \<and> peak new \<le> l"
proof -
  have f: "starts transfer_profile_mapping_to tmpdir ts profiles (\<lambda>n v. copy_request ts tmpdir (n, v))"
    using reach unfolding starts_def reachable_profiles_def
    by (force simp: reachable_target_def transfer_profile_mapping_to_def copy_request_def copy_closure_to_def)
  have c: "keeps complete_transfer_profile_mapping_to tmpdir profiles"
    by (simp add: keeps_def complete_transfer_profile_mapping_to_def)
  have w': "wf_os w" "children w = []" using w by (simp_all add: resting_world_def)
  obtain it' w1 new where "procreact_fork_and_wait_in_parallel_limit K fuel (create_profile_mapping_iterator K profiles ts
        transfer_profile_mapping_to complete_transfer_profile_mapping_to tmpdir) l w = Inr (it', w1)"
      "children w1 = []" "wf_os w1" "trace w1 = new @ trace w"
      "spawned new = map (\<lambda>(n, v). copy_request ts tmpdir (n, v)) profiles"
      "profile_mapping_iterator_has_succeeded it' \<longleftrightarrow> all_succeeded new" "peak new \<le> l"
    by (rule limited_phase_returns [OF K w' fuel l f c])
  then show ?thesis
    by (intro exI [of _ w1] exI [of _ new]) (simp add: distribute_def resting_world_def case_prod_unfold)
qed

lemma set_target_profiles_returns:
  assumes K: "kernel_live K" and w: "resting_world w" and fuel: "length profiles < fuel" and reach: "reachable_profiles ts profiles"
  shows "\<exists>w' new. set_target_profiles K fuel profiles ts profile w = Inr (all_succeeded new, w') \<and> resting_world w'
    \<and> trace w' = new @ trace w \<and> spawned new = map (set_request ts profile) profiles"
proof -
  have f: "starts set_profile_mapping profile ts profiles (\<lambda>n v. set_request ts profile (n, v))"
    using reach unfolding starts_def reachable_profiles_def
    by (force simp: reachable_target_def set_profile_mapping_def set_request_def pkgmgmt_remote_set_def)
  have c: "keeps complete_set_profile_mapping profile profiles"
    by (simp add: keeps_def complete_set_profile_mapping_def)
  have w': "wf_os w" "children w = []" using w by (simp_all add: resting_world_def)
  obtain it' w1 new where "procreact_fork_in_parallel_and_wait K fuel (create_profile_mapping_iterator K profiles ts
        set_profile_mapping complete_set_profile_mapping profile) w = Inr (it', w1)"
      "children w1 = []" "wf_os w1" "trace w1 = new @ trace w"
      "spawned new = map (\<lambda>(n, v). set_request ts profile (n, v)) profiles"
      "profile_mapping_iterator_has_succeeded it' \<longleftrightarrow> all_succeeded new"
    by (rule parallel_phase_returns [OF K w' fuel f c])
  then show ?thesis
    by (intro exI [of _ w1] exI [of _ new]) (simp add: set_target_profiles_def resting_world_def case_prod_unfold)
qed

text \<open>No symlink fills the buffer it is read into.\<close>

definition short_links :: "posix \<Rightarrow> bool" where
  "short_links P \<longleftrightarrow> (\<forall>p s. p_readlink P p = Some s \<longrightarrow> length s < RESOLVED_PATH_MAX_SIZE)"

lemma set_coordinator_profile_returns:
  assumes K: "kernel_live K" and w: "resting_world w" and links: "short_links P"
  shows "\<exists>good w' new. pkgmgmt_set_coordinator_profile K P localstatedir path manifest_file prof w = Inr (good, w')
    \<and> resting_world w' \<and> trace w' = new @ trace w \<and> (good \<longrightarrow> all_succeeded new)"
proof (cases "compose_coordinator_profile_basedir P localstatedir path")
  case (Some dir)
  show ?thesis
  proof (cases "p_mkdir P dir")
    case True
    have "\<exists>r. resolve_profile_symlink P (dir @ ''/'' @ prof) dir = Inr r"
      using links by (auto simp: resolve_profile_symlink_def sys_readlink_def short_links_def split: option.split)
    then obtain r where r: "resolve_profile_symlink P (dir @ ''/'' @ prof) dir = Inr r" ..
    obtain good w' where run: "wait_if_ok K (execute_set_coordinator_profile K (dir @ ''/'' @ prof)
        (normalize_manifest_path manifest_file) w) = (good, w')" by fastforce
    have wf: "wf_os w" "children w = []" using w by (simp_all add: resting_world_def)
    from wait_if_ok_live [OF K wf(1) run [unfolded execute_set_coordinator_profile_def]] obtain new where
      "trace w' = new @ trace w" "good \<longleftrightarrow> all_succeeded new" "wf_os w'" "children w' = children w" by blast
    with run wf have "\<exists>good w' new. Inr (wait_if_ok K (execute_set_coordinator_profile K (dir @ ''/'' @ prof)
        (normalize_manifest_path manifest_file) w)) = (Inr (good, w') :: (bool \<times> os) result)
      \<and> resting_world w' \<and> trace w' = new @ trace w \<and> (good \<longrightarrow> all_succeeded new)" by (auto simp: resting_world_def)
    then show ?thesis using Some True r w
      by (cases "case r of None \<Rightarrow> True | Some p \<Rightarrow> \<not> compare_profile_paths manifest_file p")
        (auto simp: pkgmgmt_set_coordinator_profile_def)
  next
    case False
    with Some w show ?thesis
      by (intro exI [of _ False] exI [of _ w] exI [of _ "[]"]) (simp add: pkgmgmt_set_coordinator_profile_def)
  qed
next
  case None
  with w show ?thesis
    by (intro exI [of _ False] exI [of _ w] exI [of _ "[]"]) (simp add: pkgmgmt_set_coordinator_profile_def)
qed

lemma set_all_profiles_returns:
  assumes K: "kernel_live K" and w: "resting_world w" and fuel: "length profiles < fuel" and reach: "reachable_profiles ts profiles"
    and links: "short_links P"
  shows "\<exists>good w' sets rest. set_all_profiles K P fuel localstatedir profiles ts manifest_file path prof w = Inr (good, w')
    \<and> resting_world w' \<and> trace w' = rest @ sets @ trace w \<and> spawned sets = map (set_request ts (Some prof)) profiles
    \<and> (good \<longrightarrow> all_succeeded (rest @ sets)) \<and> (\<not> all_succeeded sets \<longrightarrow> rest = [])"
proof -
  from set_target_profiles_returns [OF K w fuel reach, of "Some prof"] obtain w1 sets where
    1: "set_target_profiles K fuel profiles ts (Some prof) w = Inr (all_succeeded sets, w1)" "resting_world w1"
      "trace w1 = sets @ trace w" "spawned sets = map (set_request ts (Some prof)) profiles" by blast
  have zero: "\<not> has_flag 0 SET_NO_TARGET_PROFILES" "\<not> has_flag 0 SET_NO_COORDINATOR_PROFILE" by (simp_all add: has_flag_def)
  from set_coordinator_profile_returns [OF K 1(2) links, of localstatedir path manifest_file prof] obtain good w2 rest where
    2: "pkgmgmt_set_coordinator_profile K P localstatedir path manifest_file prof w1 = Inr (good, w2)"
      "resting_world w2" "trace w2 = rest @ trace w1" "good \<longrightarrow> all_succeeded rest" by blast
  show ?thesis
  proof (cases "all_succeeded sets")
    case True
    with 1 2 zero show ?thesis
      by (intro exI [of _ good] exI [of _ w2] exI [of _ sets] exI [of _ rest])
        (simp add: set_all_profiles_def set_profiles_def also_if_def unless_def)
  next
    case False
    with 1 zero show ?thesis
      by (intro exI [of _ False] exI [of _ w1] exI [of _ sets] exI [of _ "[]"])
        (simp add: set_all_profiles_def set_profiles_def also_if_def unless_def)
  qed
qed

section \<open>The machines after a transition\<close>

lemma rollbacks_machines:
  shows "rollback_to_old_mappings K fuel rounds services arr f st = Inr (s, st') \<Longrightarrow> same_machines (targets st) (targets st')"
    and "rollback_new_mappings K fuel rounds services arr f st = Inr (s, st') \<Longrightarrow> same_machines (targets st) (targets st')"
  using machines.traversals_related unfolding rollback_to_old_mappings_def rollback_new_mappings_def
  by (metis mark_erroneous_mappings_simps(2))+

lemma deactivate_obsolete_machines:
  assumes "deactivate_obsolete_mappings K fuel rounds services arr olds flags f g st = Inr (outcome, st')"
  shows "same_machines (targets st) (targets st')"
proof (cases arr)
  case (Some array)
  with assms obtain s1 st1 where 1: "traverse_service_mappings K rounds services
      (traverse_interdependent_mappings services g fuel) complete_deactivation array st = Inr (s1, st1)"
    and "st' = st1 \<or> (\<exists>old s2. rollback_to_old_mappings K fuel rounds services old f st1 = Inr (s2, st'))"
    by (auto simp: deactivate_obsolete_mappings_def bindr_eq_Inr split: if_splits)
  with machines.traversals_related(2) [OF 1] rollbacks_machines(1) same_machines_trans show ?thesis by blast
qed (use assms in \<open>simp add: deactivate_obsolete_mappings_def\<close>)

lemma activate_new_machines:
  assumes "activate_new_mappings K fuel rounds services arr olds flags f g st = Inr (outcome, st')"
  shows "same_machines (targets st) (targets st')"
proof -
  from assms obtain s1 st1 where 1: "traverse_service_mappings K rounds services
      (traverse_inter_dependency_mappings services f fuel) complete_activation arr st = Inr (s1, st1)"
    and rest: "st' = st1 \<or> (\<exists>s2 st2. rollback_new_mappings K fuel rounds services arr g st1 = Inr (s2, st2)
      \<and> (st' = st2 \<or> (\<exists>old s3. rollback_to_old_mappings K fuel rounds services old f st2 = Inr (s3, st'))))"
    by (auto simp: activate_new_mappings_def bindr_eq_Inr split: if_splits option.splits) blast+
  from rest machines.traversals_related(1) [OF 1] rollbacks_machines same_machines_trans show ?thesis by metis
qed

lemma transition_machines:
  assumes "transition K srt fuel rounds manifest previous flags w = Inr (outcome, st')"
  shows "same_machines (targets_table manifest) (targets st')"
proof -
  obtain f g where fg: "mapping_functions K flags = (f, g)" by fastforce
  let ?plan = "plan_transition srt manifest previous"
  let ?st = "\<lparr>unified = plan_unified ?plan, targets = targets_table manifest, pid_table = [], world = w\<rparr>"
  from assms fg obtain o1 st1 where
    1: "deactivate_obsolete_mappings K fuel rounds (plan_services ?plan) (plan_deactivation ?plan)
          (plan_previous ?plan) flags f g ?st = Inr (o1, st1)"
    and 2: "st' = st1 \<or> (\<exists>o2. activate_new_mappings K fuel rounds (plan_services ?plan) (plan_activation ?plan)
             (plan_previous ?plan) flags f g st1 = Inr (o2, st'))"
    by (auto simp: transition_def Let_def bindr_eq_Inr split: if_splits)
  from deactivate_obsolete_machines [OF 1] 2 activate_new_machines same_machines_trans show ?thesis by fastforce
qed

text \<open>After a success all cores are free again, so the machines are as before.\<close>

lemma prepared_machines:
  assumes "prepared services (available_capacity ts) rank fuel rounds st" and "same_machines ts (targets st)" and "wf_table ts"
  shows "targets st = ts"
proof (rule map_of_keys_eqI)
  show "map fst (targets st) = map fst ts" using assms(2) by (simp add: same_machines_def)
  show "map_of (targets st) = map_of ts"
  proof
    fix n
    show "map_of (targets st) n = map_of ts n"
    proof (cases "map_of (targets st) n")
      case None
      with same_machines_lookup [OF assms(2), of n] show ?thesis by simp
    next
      case (Some t')
      from same_machines_cores [OF assms(2) this] obtain t where
        t: "map_of ts n = Some t" "t' = t\<lparr>available_cores := available_cores t'\<rparr>" .
      have "available_cores t' = available_capacity ts n" using assms(1) Some by (simp add: prepared_def resting_def)
      also have "\<dots> = available_cores t" using t(1) by (simp add: available_capacity_def)
      finally have "t' = t" using t(2) by simp
      with Some t(1) show ?thesis by simp
    qed
  qed
qed (rule assms(3))

lemma same_machines_requests:
  assumes "same_machines ts ts'"
  shows "target_request op ts' profile n = target_request op ts profile n" "reachable_target ts' n = reachable_target ts n"
proof -
  have key: "find_target_key (t\<lparr>available_cores := c\<rparr>) = find_target_key t" for t :: Target and c
    by (simp add: find_target_key_def find_target_property_def)
  have "target_request op ts' profile n = target_request op ts profile n \<and> reachable_target ts' n = reachable_target ts n"
  proof (cases "map_of ts' n")
    case None
    then have "map_of ts n = None" using same_machines_lookup [OF assms, of n] by simp
    with None show ?thesis by (simp add: target_request_def reachable_target_def)
  next
    case (Some t')
    from same_machines_cores [OF assms this] obtain t :: Target and c where t: "map_of ts n = Some t" "t' = t\<lparr>available_cores := c\<rparr>" by blast
    with Some show ?thesis by (cases "find_target_key t") (simp_all add: target_request_def reachable_target_def key)
  qed
  then show "target_request op ts' profile n = target_request op ts profile n" "reachable_target ts' n = reachable_target ts n"
    by blast+
qed

section \<open>Between locking and unlocking\<close>

definition snapshots_of :: "Manifest option \<Rightarrow> SnapshotMapping list" where
  "snapshots_of previous = (case previous of None \<Rightarrow> [] | Some p \<Rightarrow> snapshot_mapping_array p)"

definition migration_start :: "Manifest \<Rightarrow> Manifest option \<Rightarrow> os \<Rightarrow> migration_state" where
  "migration_start manifest previous w = \<lparr>new_snapshots = snapshot_mapping_array manifest, old_snapshots = snapshots_of previous,
     all_machines = targets_table manifest, migration_world = w\<rparr>"

text \<open>
  A deployment that can be carried out: the transition can be made, the machines of the profiles can be
  reached, and unless no data is to be migrated, it is an upgrade of machines with one core.
\<close>

definition effective_previous :: "flags \<Rightarrow> Manifest option \<Rightarrow> Manifest option" where
  "effective_previous flags previous = (if has_flag flags FLAG_NO_UPGRADE then None else previous)"

definition deploy_ready ::
  "ServiceMapping sort_function \<Rightarrow> (key \<Rightarrow> nat) \<Rightarrow> nat \<Rightarrow> Manifest \<Rightarrow> Manifest option \<Rightarrow> flags \<Rightarrow> bool" where
  "deploy_ready srt rank depth manifest previous flags \<longleftrightarrow>
     transition_ready srt rank depth manifest (effective_previous flags previous)
     \<and> wf_table (targets_table manifest) \<and> reachable_profiles (targets_table manifest) (profile_mapping_table manifest)
     \<and> (has_flag flags FLAG_NO_MIGRATION \<or> (\<exists>p. previous = Some p \<and> upgrade_flags flags
          \<and> (\<forall>w. resting_world w \<longrightarrow> upgrade_ready manifest p (migration_start manifest previous w))))"

text \<open>The fuel covers a round per profile and per machine, and twice the mappings.\<close>

definition enough_fuel :: "ServiceMapping sort_function \<Rightarrow> Manifest \<Rightarrow> Manifest option \<Rightarrow> flags \<Rightarrow> nat \<Rightarrow> nat \<Rightarrow> bool" where
  "enough_fuel srt manifest previous flags rounds fuel \<longleftrightarrow>
     2 * length (plan_unified (plan_transition srt manifest (effective_previous flags previous))) < rounds
     \<and> length (profile_mapping_table manifest) + 1 < fuel \<and> length (targets_table manifest) + 1 < fuel"

lemma migrate_data_returns:
  assumes K: "kernel_live K" and ready: "deploy_ready srt rank depth manifest previous flags" and w: "resting_world w"
    and fuel: "enough_fuel srt manifest previous flags rounds fuel" and l: "0 < l"
  shows "\<exists>good s' new. migrate_data K fuel manifest previous l flags keep (migration_start manifest previous w) = Inr (good, s')
    \<and> resting_world (migration_world s') \<and> all_machines s' = targets_table manifest \<and> trace (migration_world s') = new @ trace w
    \<and> (good \<longleftrightarrow> all_succeeded new)"
proof (cases "has_flag flags FLAG_NO_MIGRATION")
  case True
  with w show ?thesis
    by (intro exI [of _ True] exI [of _ "migration_start manifest previous w"] exI [of _ "[]"])
      (simp add: migrate_data_def migration_start_def)
next
  case False
  with ready w obtain p where p: "previous = Some p" "upgrade_flags flags" "upgrade_ready manifest p (migration_start manifest previous w)"
    unfolding deploy_ready_def by blast
  have "length (all_machines (migration_start manifest previous w)) + 1 < fuel"
    using fuel by (simp add: enough_fuel_def migration_start_def)
  from upgrade_stages [OF K p(3,2) this l, of keep] obtain good s' news css where
    "migrate K fuel manifest (Some p) l flags keep (migration_start manifest previous w) = Inr (good, s')"
    "stages (migration_start manifest previous w) css good s' news" by blast
  moreover have "all_succeeded (concat (rev xs)) = all_succeeded (concat xs)" for xs :: "event list list"
    by (induction xs) auto
  ultimately show ?thesis using False p(1)
    by (intro exI [of _ good] exI [of _ s'] exI [of _ "concat (rev news)"])
      (simp add: migrate_data_def stages_def migration_start_def)
qed

definition new_configuration_active :: "Manifest \<Rightarrow> ServiceMapping list \<Rightarrow> bool" where
  "new_configuration_active manifest ms \<longleftrightarrow> (\<forall>m \<in> set ms. status m =
     (if mapping_key m \<in> keys_of (service_mapping_array manifest) then SERVICE_MAPPING_ACTIVATED else SERVICE_MAPPING_DEACTIVATED))"

lemma activate_system_returns:
  assumes K: "kernel_live K" and ready: "deploy_ready srt rank depth manifest previous flags" and w: "resting_world w"
    and fuel: "enough_fuel srt manifest previous flags rounds fuel"
  shows "\<exists>outcome st' new. activate_system K srt depth rounds manifest previous flags w = Inr (outcome, st')
    \<and> resting_world (world st') \<and> trace (world st') = new @ trace w \<and> same_machines (targets_table manifest) (targets st')
    \<and> (outcome = TRANSITION_SUCCESS \<longrightarrow> targets st' = targets_table manifest \<and> new_configuration_active manifest (unified st'))"
proof -
  have w': "wf_os w" "children w = []" using w by (simp_all add: resting_world_def)
  have tr: "transition_ready srt rank depth manifest (effective_previous flags previous)" "wf_table (targets_table manifest)"
    and rounds: "2 * length (plan_unified (plan_transition srt manifest (effective_previous flags previous))) < rounds"
    using ready fuel by (simp_all add: deploy_ready_def enough_fuel_def)
  from transition_returns_all [OF K tr(1) w' rounds] obtain outcome st' where
    1: "transition K srt depth rounds manifest (effective_previous flags previous) flags w = Inr (outcome, st')"
      "sequential w (world st')"
      "outcome = TRANSITION_SUCCESS \<longrightarrow> prepared (plan_services (plan_transition srt manifest (effective_previous flags previous)))
         (available_capacity (targets_table manifest)) rank depth rounds st'" by blast
  note same = transition_machines [OF 1(1)]
  have inputs: "transition_inputs srt manifest (effective_previous flags previous)"
    using tr(1) by (simp add: transition_ready_def Let_def)
  have "new_configuration_active manifest (unified st')" if "outcome = TRANSITION_SUCCESS"
    using transition_correct [OF kernel_live_ok [OF K] w'(1) inputs 1(1)] that
    by (auto simp: new_configuration_active_def all_at_def)
  moreover have "targets st' = targets_table manifest" if "outcome = TRANSITION_SUCCESS"
    using prepared_machines [OF _ same tr(2)] 1(3) that by blast
  moreover from 1(2) obtain new where "trace (world st') = new @ trace w" "children (world st') = []"
    unfolding sequential_def by blast
  ultimately show ?thesis using 1(1) same
    by (intro exI [of _ outcome] exI [of _ st'] exI [of _ new])
      (simp add: activate_system_def effective_previous_def resting_world_def wf_os_def)
qed

text \<open>The outcomes other than a plain failure come from a configuration that is active.\<close>

lemma deploy_locked_returns:
  assumes K: "kernel_live K" and links: "short_links P" and ready: "deploy_ready srt rank depth manifest previous flags"
    and w: "resting_world w" and fuel: "enough_fuel srt manifest previous flags rounds fuel" and l: "0 < l"
  shows "\<exists>outcome s work. deploy_locked K P srt depth rounds fuel localstatedir new_file manifest previous profile path l keep flags w
      = Inr (outcome, s)
    \<and> resting_world (deploy_world s) \<and> trace (deploy_world s) = work @ trace w
    \<and> same_machines (targets_table manifest) (deploy_machines s)
    \<and> (outcome \<noteq> DEPLOY_FAIL \<longrightarrow> new_configuration_active manifest (deploy_mappings s))
    \<and> (outcome = DEPLOY_OK \<longrightarrow> (\<forall>e \<in> set (profile_mapping_table manifest).
         set_request (targets_table manifest) (Some profile) e \<in> set (spawned work)))"
proof -
  from activate_system_returns [OF K ready w fuel] obtain t st1 new1 where
    1: "activate_system K srt depth rounds manifest previous flags w = Inr (t, st1)"
      "resting_world (world st1)" "trace (world st1) = new1 @ trace w" "same_machines (targets_table manifest) (targets st1)"
      "t = TRANSITION_SUCCESS \<longrightarrow> targets st1 = targets_table manifest \<and> new_configuration_active manifest (unified st1)" by blast
  show ?thesis
  proof (cases "t = TRANSITION_SUCCESS")
    case False
    with 1 show ?thesis
      by (intro exI [of _ DEPLOY_FAIL] exI [of _ "\<lparr>deploy_machines = targets st1, deploy_mappings = unified st1,
          deploy_new_snapshots = snapshot_mapping_array manifest, deploy_old_snapshots = snapshots_of previous,
          deploy_world = world st1\<rparr>"] exI [of _ new1]) (simp add: deploy_locked_def snapshots_of_def)
  next
    case True
    with 1(5) have active: "targets st1 = targets_table manifest" "new_configuration_active manifest (unified st1)" by simp_all
    from migrate_data_returns [OF K ready 1(2) fuel l, of keep] obtain good2 s2 new2 where
      2: "migrate_data K fuel manifest previous l flags keep (migration_start manifest previous (world st1)) = Inr (good2, s2)"
        "resting_world (migration_world s2)" "all_machines s2 = targets_table manifest"
        "trace (migration_world s2) = new2 @ trace (world st1)" by blast
    let ?s = "\<lparr>deploy_machines = all_machines s2, deploy_mappings = unified st1, deploy_new_snapshots = new_snapshots s2,
      deploy_old_snapshots = old_snapshots s2, deploy_world = migration_world s2\<rparr>"
    have go: "deploy_locked K P srt depth rounds fuel localstatedir new_file manifest previous profile path l keep flags w
        = (if \<not> good2 then Inr (DEPLOY_STATE_FAIL, ?s)
           else bindr (set_all_profiles K P fuel localstatedir (profile_mapping_table manifest) (targets_table manifest) new_file
                  path profile (migration_world s2)) (\<lambda>(profiles_set, w).
             Inr (if profiles_set then DEPLOY_OK else DEPLOY_FAIL, ?s\<lparr>deploy_world := w\<rparr>)))"
      using 1(1) True active(1) 2(1,3) by (simp add: deploy_locked_def migration_start_def snapshots_of_def)
    show ?thesis
    proof (cases good2)
      case False
      with go 1 2 active show ?thesis
        by (intro exI [of _ DEPLOY_STATE_FAIL] exI [of _ ?s] exI [of _ "new2 @ new1"]) simp
    next
      case good: True
      have "length (profile_mapping_table manifest) < fuel"
        and "reachable_profiles (targets_table manifest) (profile_mapping_table manifest)"
        using fuel ready by (simp_all add: enough_fuel_def deploy_ready_def)
      from set_all_profiles_returns [OF K 2(2) this links, of localstatedir new_file path profile] obtain good3 w3 sets rest where
        3: "set_all_profiles K P fuel localstatedir (profile_mapping_table manifest) (targets_table manifest) new_file path profile
             (migration_world s2) = Inr (good3, w3)"
          "resting_world w3" "trace w3 = rest @ sets @ trace (migration_world s2)"
          "spawned sets = map (set_request (targets_table manifest) (Some profile)) (profile_mapping_table manifest)" by blast
      show ?thesis
        by (intro exI [of _ "if good3 then DEPLOY_OK else DEPLOY_FAIL"] exI [of _ "?s\<lparr>deploy_world := w3\<rparr>"]
            exI [of _ "rest @ sets @ new2 @ new1"])
          (use go good 1 2 3 active in \<open>auto simp: spawned_append\<close>)
    qed
  qed
qed

section \<open>The whole deployment\<close>

definition profile_requests :: "string \<Rightarrow> Manifest \<Rightarrow> string \<Rightarrow> string list \<Rightarrow> child list" where
  "profile_requests operation manifest profile names =
     map (target_request operation (targets_table manifest) (Some profile)) names"

abbreviation profile_names :: "Manifest \<Rightarrow> string list" where
  "profile_names manifest \<equiv> map fst (profile_mapping_table manifest)"

lemma deploy_returns:
  assumes K: "kernel_live K" and links: "short_links P" and ready: "deploy_ready srt rank depth manifest previous flags"
    and w: "resting_world w" and fuel: "enough_fuel srt manifest previous flags rounds fuel" and l: "0 < l"
    and flags: "\<not> has_flag flags FLAG_NO_LOCK"
  shows "\<exists>outcome w' copies locks rest. deploy K P srt depth rounds fuel localstatedir new_file manifest previous profile path l
        tmpdir keep flags w = Inr (outcome, w')
    \<and> resting_world w' \<and> trace w' = rest @ locks @ copies @ trace w
    \<and> spawned copies = map (copy_request (targets_table manifest) tmpdir) (profile_mapping_table manifest) \<and> peak copies \<le> l
    \<and> spawned locks = (if all_succeeded copies then profile_requests ''--lock'' manifest profile (profile_names manifest) else [])
    \<and> ((outcome = DEPLOY_FAIL \<and> (\<exists>given. spawned rest = profile_requests ''--unlock'' manifest profile given
          \<and> set (profile_requests ''--lock'' manifest profile given) = set (reaped_ok locks)))
       \<or> (all_succeeded (locks @ copies) \<and> (\<exists>unlocks work inner s. rest = unlocks @ work
         \<and> spawned unlocks = profile_requests ''--unlock'' manifest profile (profile_names manifest)
         \<and> outcome = (if inner = DEPLOY_OK \<and> \<not> all_succeeded unlocks then DEPLOY_FAIL else inner)
         \<and> (inner \<noteq> DEPLOY_FAIL \<longrightarrow> new_configuration_active manifest (deploy_mappings s))
         \<and> (inner = DEPLOY_OK \<longrightarrow> (\<forall>e \<in> set (profile_mapping_table manifest).
              set_request (targets_table manifest) (Some profile) e \<in> set (spawned work)))
         \<and> (\<exists>wl. deploy_locked K P srt depth rounds fuel localstatedir new_file manifest previous profile path l keep flags wl
             = Inr (inner, s) \<and> trace wl = locks @ copies @ trace w))))"
proof -
  let ?profiles = "profile_mapping_table manifest" and ?ts = "targets_table manifest"
  have len: "length ?profiles + 1 < fuel" "length ?profiles < fuel" using fuel by (simp_all add: enough_fuel_def)
  have reach: "reachable_profiles ?ts ?profiles" using ready by (simp add: deploy_ready_def)
  from distribute_returns [OF K w len(1) l reach, of tmpdir] obtain w1 copies where
    1: "distribute K fuel ?profiles ?ts l tmpdir w = Inr (all_succeeded copies, w1)" "resting_world w1"
      "trace w1 = copies @ trace w" "spawned copies = map (copy_request ?ts tmpdir) ?profiles" "peak copies \<le> l" by blast
  show ?thesis
  proof (cases "all_succeeded copies")
    case False
    then have "deploy K P srt depth rounds fuel localstatedir new_file manifest previous profile path l tmpdir keep flags w
        = Inr (DEPLOY_FAIL, w1)" using 1(1) by (simp add: deploy_def)
    moreover have "spawned [] = profile_requests ''--unlock'' manifest profile []"
      "set (profile_requests ''--lock'' manifest profile []) = set (reaped_ok [])" by (simp_all add: profile_requests_def)
    ultimately show ?thesis using False 1
      by (intro exI [of _ DEPLOY_FAIL] exI [of _ w1] exI [of _ copies] exI [of _ "[]"] exI [of _ "[]"] conjI disjI1) auto
  next
    case copied: True
    have w1: "wf_os w1" "children w1 = []" using 1(2) by (simp_all add: resting_world_def)
    have reach': "\<forall>e \<in> set ?profiles. reachable_target ?ts (fst e)" using reach by (simp add: reachable_profiles_def)
    from lock_returns [OF K w1 len(2) reach', of "Some profile"] obtain s w2 locks unlocks given where
      lock: "lock K fuel ?profiles ?ts (Some profile) w1 = Inr (s, w2)" "children w2 = []" "wf_os w2"
        "trace w2 = unlocks @ locks @ trace w1"
      and reqs: "spawned locks = map (\<lambda>e. target_request ''--lock'' ?ts (Some profile) (fst e)) ?profiles"
        "target_request ''--lock'' ?ts (Some profile) ` set given = set (reaped_ok locks)"
        "spawned unlocks = (if s then [] else map (target_request ''--unlock'' ?ts (Some profile)) given)"
        "s \<longrightarrow> all_succeeded locks \<and> unlocks = []" by blast
    have locks: "spawned locks = profile_requests ''--lock'' manifest profile (profile_names manifest)"
      "set (profile_requests ''--lock'' manifest profile given) = set (reaped_ok locks)"
      using reqs(1,2) by (simp_all add: profile_requests_def)
    have acquire: "acquire_locks K fuel ?profiles ?ts flags profile w1 = Inr (s, w2)" using lock(1) flags by (simp add: acquire_locks_def)
    have w2: "resting_world w2" using lock(2,3) by (simp add: resting_world_def)
    show ?thesis
    proof (cases s)
      case False
      then have "deploy K P srt depth rounds fuel localstatedir new_file manifest previous profile path l tmpdir keep flags w
          = Inr (DEPLOY_FAIL, w2)" using 1(1) copied acquire by (simp add: deploy_def)
      moreover have "spawned unlocks = profile_requests ''--unlock'' manifest profile given"
        using False reqs(3) by (simp add: profile_requests_def)
      ultimately show ?thesis using w2 1(3-5) lock(4) copied locks
        by (intro exI [of _ DEPLOY_FAIL] exI [of _ w2] exI [of _ copies] exI [of _ locks] exI [of _ unlocks] conjI disjI1) auto
    next
      case True
      then have none: "unlocks = []" "all_succeeded locks" using reqs(4) by simp_all
      from deploy_locked_returns [OF K links ready w2 fuel l, of localstatedir new_file profile path keep] obtain inner st work where
        3: "deploy_locked K P srt depth rounds fuel localstatedir new_file manifest previous profile path l keep flags w2 = Inr (inner, st)"
          "resting_world (deploy_world st)" "trace (deploy_world st) = work @ trace w2" "same_machines ?ts (deploy_machines st)"
          "inner \<noteq> DEPLOY_FAIL \<longrightarrow> new_configuration_active manifest (deploy_mappings st)"
          "inner = DEPLOY_OK \<longrightarrow> (\<forall>e \<in> set ?profiles. set_request ?ts (Some profile) e \<in> set (spawned work))" by blast
      have w3: "wf_os (deploy_world st)" "children (deploy_world st) = []" using 3(2) by (simp_all add: resting_world_def)
      have reach3: "\<forall>e \<in> set ?profiles. reachable_target (deploy_machines st) (fst e)"
        using reach' same_machines_requests(2) [OF 3(4)] by simp
      from unlock_returns [OF K w3 len(2) reach3, of "Some profile"] obtain r w4 rel where
        4: "unlock K fuel ?profiles (deploy_machines st) (Some profile) (deploy_world st) = Inr (r, w4)" "children w4 = []" "wf_os w4"
          "trace w4 = rel @ trace (deploy_world st)" "r \<longleftrightarrow> all_succeeded rel"
          "spawned rel = map (\<lambda>e. target_request ''--unlock'' (deploy_machines st) (Some profile) (fst e)) ?profiles" by blast
      have rel: "spawned rel = profile_requests ''--unlock'' manifest profile (profile_names manifest)"
        using 4(6) same_machines_requests(1) [OF 3(4)] by (simp add: profile_requests_def)
      let ?outcome = "if inner = DEPLOY_OK \<and> \<not> all_succeeded rel then DEPLOY_FAIL else inner"
      have run: "deploy K P srt depth rounds fuel localstatedir new_file manifest previous profile path l tmpdir keep flags w
          = Inr (?outcome, w4)" using 1(1) copied acquire True 3(1) 4(1,5) flags by (simp add: deploy_def release_locks_def)
      have tr: "trace w4 = (rel @ work) @ locks @ copies @ trace w" "trace w2 = locks @ copies @ trace w" "resting_world w4"
        using 4(2-4) 3(3) lock(4) 1(3) none by (simp_all add: resting_world_def)
      have "all_succeeded (locks @ copies) \<and> (\<exists>unlocks work' inner' s. rel @ work = unlocks @ work'
         \<and> spawned unlocks = profile_requests ''--unlock'' manifest profile (profile_names manifest)
         \<and> ?outcome = (if inner' = DEPLOY_OK \<and> \<not> all_succeeded unlocks then DEPLOY_FAIL else inner')
         \<and> (inner' \<noteq> DEPLOY_FAIL \<longrightarrow> new_configuration_active manifest (deploy_mappings s))
         \<and> (inner' = DEPLOY_OK \<longrightarrow> (\<forall>e \<in> set (profile_mapping_table manifest).
              set_request (targets_table manifest) (Some profile) e \<in> set (spawned work')))
         \<and> (\<exists>wl. deploy_locked K P srt depth rounds fuel localstatedir new_file manifest previous profile path l keep flags wl
             = Inr (inner', s) \<and> trace wl = locks @ copies @ trace w))"
        using none(2) copied rel 3(1,5,6) tr(2)
        by (intro conjI exI [of _ rel] exI [of _ work] exI [of _ inner] exI [of _ st] exI [of _ w2]) simp_all
      with run tr(1,3) 1(4,5) copied locks(1) show ?thesis
        by (intro exI [of _ ?outcome] exI [of _ w4] exI [of _ copies] exI [of _ locks] exI [of _ "rel @ work"]) simp
    qed
  qed
qed


text \<open>An upgrade from one user of the service \<open>d\<close> to another one.\<close>

lemma example_deploy_ready:
  "deploy_ready isort_by example_rank 2 (example_manifest [''w'']) (Some (example_manifest [''a''])) 0"
proof -
  have "upgrade_flags 0" "\<not> has_flag 0 FLAG_NO_UPGRADE" by (simp_all add: upgrade_flags_def has_flag_def)
  moreover have "reachable_profiles (targets_table (example_manifest [''w''])) (profile_mapping_table (example_manifest [''w'']))"
    by (simp add: reachable_profiles_def reachable_target_def example_manifest_def example_target_def find_target_key_def
        find_target_property_def)
  moreover have "upgrade_ready (example_manifest [''w'']) (example_manifest [''a''])
      (migration_start (example_manifest [''w'']) (Some (example_manifest [''a''])) w)" if "resting_world w" for w
    using that by (simp add: upgrade_ready_def migration_start_def snapshots_of_def example_manifest_def items_ready_def unmarked_def)
  moreover have "wf_table (targets_table (example_manifest [''w'']))" by (simp add: example_manifest_def)
  ultimately show ?thesis using example_ready unfolding deploy_ready_def effective_previous_def by simp
qed

lemma example_deploy_fuel: "enough_fuel isort_by (example_manifest [''w'']) (Some (example_manifest [''a''])) 0 8 3"
  using example_rounds by (simp add: enough_fuel_def effective_previous_def has_flag_def example_manifest_def)

lemma example_resting: "resting_world example_world"
  by (simp add: resting_world_def)

lemma short_demo_links: "short_links (demo_posix (\<lambda>p. None))"
  by (simp add: short_links_def demo_posix_def)

abbreviation example_deploy :: "(os \<Rightarrow> wstatus) \<Rightarrow> (DeployStatus \<times> os) result" where
  "example_deploy exits \<equiv> deploy (demo_kernel exits) (demo_posix (\<lambda>p. None)) isort_by 2 8 3 ''/var'' ''new.xml''
     (example_manifest [''w'']) (Some (example_manifest [''a''])) ''default'' None 1 (Some ''/tmp'') 1 0 example_world"


text \<open>
  C10: When a deployment succeeds, or fails in the migration of the data only, exactly the services of the new
  configuration are active. When it succeeds, every machine has been given its new profile and has released its lock.
\<close>

theorem deploy_outcome_active:
  assumes "kernel_live K" and "short_links P" and "deploy_ready srt rank depth manifest previous flags"
    and "resting_world w" and "enough_fuel srt manifest previous flags rounds fuel" and "0 < l"
    and "\<not> has_flag flags FLAG_NO_LOCK"
    and "deploy K P srt depth rounds fuel localstatedir new_file manifest previous profile path l tmpdir keep flags w = Inr (outcome, w')"
    and "outcome \<noteq> DEPLOY_FAIL"
  shows "\<exists>unlocks work before wl s. trace w' = unlocks @ work @ before @ trace w
    \<and> deploy_locked K P srt depth rounds fuel localstatedir new_file manifest previous profile path l keep flags wl = Inr (outcome, s)
    \<and> trace wl = before @ trace w \<and> new_configuration_active manifest (deploy_mappings s)
    \<and> spawned unlocks = profile_requests ''--unlock'' manifest profile (profile_names manifest)
    \<and> (outcome = DEPLOY_OK \<longrightarrow> all_succeeded unlocks
         \<and> (\<forall>e \<in> set (profile_mapping_table manifest). set_request (targets_table manifest) (Some profile) e \<in> set (spawned work)))"
proof -
  from deploy_returns [OF assms(1-7), of localstatedir new_file profile path tmpdir keep] obtain outcome' w'' copies locks rest where
    run: "deploy K P srt depth rounds fuel localstatedir new_file manifest previous profile path l tmpdir keep flags w = Inr (outcome', w'')"
    and tr: "trace w'' = rest @ locks @ copies @ trace w"
    and branches: "(outcome' = DEPLOY_FAIL \<and> (\<exists>given. spawned rest = profile_requests ''--unlock'' manifest profile given
          \<and> set (profile_requests ''--lock'' manifest profile given) = set (reaped_ok locks)))
       \<or> (all_succeeded (locks @ copies) \<and> (\<exists>unlocks work inner s. rest = unlocks @ work
         \<and> spawned unlocks = profile_requests ''--unlock'' manifest profile (profile_names manifest)
         \<and> outcome' = (if inner = DEPLOY_OK \<and> \<not> all_succeeded unlocks then DEPLOY_FAIL else inner)
         \<and> (inner \<noteq> DEPLOY_FAIL \<longrightarrow> new_configuration_active manifest (deploy_mappings s))
         \<and> (inner = DEPLOY_OK \<longrightarrow> (\<forall>e \<in> set (profile_mapping_table manifest).
              set_request (targets_table manifest) (Some profile) e \<in> set (spawned work)))
         \<and> (\<exists>wl. deploy_locked K P srt depth rounds fuel localstatedir new_file manifest previous profile path l keep flags wl
             = Inr (inner, s) \<and> trace wl = locks @ copies @ trace w)))" by blast
  from run assms(8) have same: "outcome' = outcome" "w'' = w'" by simp_all
  from branches assms(9) obtain unlocks work inner s wl where
    1: "rest = unlocks @ work" "outcome = (if inner = DEPLOY_OK \<and> \<not> all_succeeded unlocks then DEPLOY_FAIL else inner)"
      "spawned unlocks = profile_requests ''--unlock'' manifest profile (profile_names manifest)"
      "inner \<noteq> DEPLOY_FAIL \<longrightarrow> new_configuration_active manifest (deploy_mappings s)"
      "inner = DEPLOY_OK \<longrightarrow> (\<forall>e \<in> set (profile_mapping_table manifest).
              set_request (targets_table manifest) (Some profile) e \<in> set (spawned work))"
      "deploy_locked K P srt depth rounds fuel localstatedir new_file manifest previous profile path l keep flags wl = Inr (inner, s)"
      "trace wl = locks @ copies @ trace w" unfolding same by blast
  from 1(2) assms(9) have "inner = outcome" "outcome = DEPLOY_OK \<longrightarrow> all_succeeded unlocks" by (auto split: if_splits)
  with 1 tr same assms(9) show ?thesis
    by (intro exI [of _ unlocks] exI [of _ work] exI [of _ "locks @ copies"] exI [of _ wl] exI [of _ s]) auto
qed

lemma example_deploy_ok: "map_sum id fst (example_deploy (\<lambda>_. Exited 0)) = Inr DEPLOY_OK"
  by code_simp

theorem deploy_outcome_active_witness:
  "\<exists>w' unlocks work before. example_deploy (\<lambda>_. Exited 0) = Inr (DEPLOY_OK, w') \<and> trace w' = unlocks @ work @ before
    \<and> all_succeeded unlocks
    \<and> Exec [''i'', ''--target'', ''h'', ''--profile'', ''default'', ''--set'', ''p''] [] \<in> set (spawned work)"
proof -
  from fst_result [OF example_deploy_ok] obtain w' where run: "example_deploy (\<lambda>_. Exited 0) = Inr (DEPLOY_OK, w')" by blast
  have "\<not> has_flag 0 FLAG_NO_LOCK" "0 < (1 :: nat)" by (simp_all add: has_flag_def)
  from deploy_outcome_active [OF demo_kernel_live short_demo_links example_deploy_ready example_resting example_deploy_fuel this(2,1) run]
  obtain unlocks work before where "trace w' = unlocks @ work @ before @ trace example_world" "all_succeeded unlocks"
    "\<forall>e \<in> set (profile_mapping_table (example_manifest [''w''])).
       set_request (targets_table (example_manifest [''w''])) (Some ''default'') e \<in> set (spawned work)" by blast
  moreover have "set_request (targets_table (example_manifest [''w''])) (Some ''default'') (''m'', ''p'')
      = Exec [''i'', ''--target'', ''h'', ''--profile'', ''default'', ''--set'', ''p''] []" by code_simp
  moreover have "(''m'', ''p'') \<in> set (profile_mapping_table (example_manifest [''w'']))" by (simp add: example_manifest_def)
  ultimately show ?thesis using run by (fastforce simp: example_world_def)
qed

end
