(* ===== verification/Coordinator_Correct.thy ===== *)
theory Coordinator_Correct
  imports Machine_Tools Deploy_Correct
begin

text \<open>
  The tools as a whole: what the exit status of a deployment says, how many transfers run at a time, and that a
  limit of zero, which is what \<open>atoi\<close> makes of a word that is no number, is never left.
\<close>

section \<open>The deployment tool\<close>

lemma containers_still_provided_total: "\<exists>b. containers_still_provided ms services = Inr b"
proof (induction ms)
  case (Cons x ms)
  then obtain b where "containers_still_provided ms services = Inr b" by blast
  then show ?case by (cases "snapshot_container_provided_by_service x") (simp_all add: g_hash_table_contains_def)
qed simp

lemma check_safe_data_migration_total: "\<exists>b. check_safe_data_migration previous m no_migration = Inr b"
  using containers_still_provided_total by (auto simp: check_safe_data_migration_def split: option.split)

lemma previous_good_total:
  assumes "sorts_ok (c_sorts C)" and "open_previous C f flags = Inr previous"
  shows "\<exists>b. previous_good previous = Inr b"
proof (cases previous)
  case None
  then show ?thesis by (simp add: previous_good_def)
next
  case (Some p)
  with assms(2) obtain element where "parse_manifest (c_sorts C) flags None None (Some (c_hostname C)) element = Inr p"
    by (auto simp: open_previous_manifest_def split: option.splits dest!: create_manifest_parsed)
  then obtain b where "check_manifest p = Inr b" using check_manifest_total [OF parse_manifest_ok] assms(1) by blast
  with Some show ?thesis by (simp add: previous_good_def)
qed

text \<open>What has happened when a deployment is over.\<close>

definition deployed ::
  "coordinator \<Rightarrow> string \<Rightarrow> Manifest \<Rightarrow> Manifest option \<Rightarrow> string \<Rightarrow> cstr \<Rightarrow> nat \<Rightarrow> int \<Rightarrow> flags \<Rightarrow> DeployStatus \<Rightarrow> os \<Rightarrow> os \<Rightarrow> bool" where
  "deployed C f m previous prof path l keep flags outcome w w' \<longleftrightarrow> (\<exists>unlocks work before wl s.
     trace w' = unlocks @ work @ before @ trace w
     \<and> spawned unlocks = profile_requests ''--unlock'' m prof (profile_names m)
     \<and> trace wl = before @ trace w
     \<and> deploy_locked (c_kernel C) (c_posix C) (sort_service_mappings (c_sorts C)) (c_depth C) (c_rounds C) (c_fuel C)
         (c_localstatedir C) f m previous prof path l keep flags wl = Inr (outcome, s)
     \<and> new_configuration_active m (deploy_mappings s)
     \<and> (outcome = DEPLOY_OK \<longrightarrow> all_succeeded unlocks
          \<and> (\<forall>e \<in> set (profile_mapping_table m). set_request (targets_table m) (Some prof) e \<in> set (spawned work))))"

text \<open>
  C5: The exit status of disnix-deploy can be trusted. With a good manifest the tool returns and leaves no process behind. If it exits with 0,
  exactly the services of the new manifest are active, every machine has been given its new profile and all locks have been released;
  if it exits with 2, the services are active but their data could not be migrated; otherwise it exits with 1.
\<close>

theorem run_deploy_outcome:
  assumes "kernel_live (c_kernel C)" and "short_links (c_posix C)" and "sorts_ok (c_sorts C)" and "resting_world w"
    and "open_manifest C f MANIFEST_ALL_FLAGS None None = Inr (Some m)"
    and "open_previous C (manifest_to_open C old path (Some prof)) MANIFEST_ALL_FLAGS = Inr previous"
    and "deploy_ready (sort_service_mappings (c_sorts C)) rank (c_depth C) m previous flags"
    and "enough_fuel (sort_service_mappings (c_sorts C)) m previous flags (c_rounds C) (c_fuel C)" and "0 < l"
    and "\<not> has_flag flags FLAG_NO_LOCK"
  shows "\<exists>code w'. run_deploy C f old path prof l keep flags tmpdir w = Inr (code, w') \<and> children w' = [] \<and> code \<in> {0, 1, 2}
    \<and> (code = 0 \<longrightarrow> deployed C f m previous prof path l keep flags DEPLOY_OK w w')
    \<and> (code = 2 \<longrightarrow> deployed C f m previous prof path l keep flags DEPLOY_STATE_FAIL w w')"
proof -
  obtain good where good: "previous_good previous = Inr good" using previous_good_total [OF assms(3,6)] by blast
  obtain safe where safe: "check_safe_data_migration previous m (has_flag flags FLAG_NO_MIGRATION) = Inr safe"
    using check_safe_data_migration_total by blast
  have "check_manifest m = Inr True" using assms(7) by (simp add: deploy_ready_def transition_ready_def Let_def)
  note run = run_deploy_def with_manifest_def assms(5,6) this good safe Let_def
  show ?thesis
  proof (cases "good \<and> safe")
    case False
    then have "run_deploy C f old path prof l keep flags tmpdir w = Inr (1, w)" by (auto simp: run)
    with assms(4) show ?thesis by (simp add: resting_world_def)
  next
    case True
    from deploy_returns [OF assms(1,2,7,4,8,9,10), of "c_localstatedir C" f prof path tmpdir keep]
    obtain outcome w' copies locks rest where
      d: "deploy (c_kernel C) (c_posix C) (sort_service_mappings (c_sorts C)) (c_depth C) (c_rounds C) (c_fuel C) (c_localstatedir C) f m
            previous prof path l tmpdir keep flags w = Inr (outcome, w')" "resting_world w'" "trace w' = rest @ locks @ copies @ trace w"
      and branches: "outcome = DEPLOY_FAIL \<or> (\<exists>unlocks work inner s wl. rest = unlocks @ work
         \<and> spawned unlocks = profile_requests ''--unlock'' m prof (profile_names m)
         \<and> outcome = (if inner = DEPLOY_OK \<and> \<not> all_succeeded unlocks then DEPLOY_FAIL else inner)
         \<and> (inner \<noteq> DEPLOY_FAIL \<longrightarrow> new_configuration_active m (deploy_mappings s))
         \<and> (inner = DEPLOY_OK \<longrightarrow> (\<forall>e \<in> set (profile_mapping_table m). set_request (targets_table m) (Some prof) e \<in> set (spawned work)))
         \<and> deploy_locked (c_kernel C) (c_posix C) (sort_service_mappings (c_sorts C)) (c_depth C) (c_rounds C) (c_fuel C)
             (c_localstatedir C) f m previous prof path l keep flags wl = Inr (inner, s) \<and> trace wl = locks @ copies @ trace w)" by blast
    have returns: "run_deploy C f old path prof l keep flags tmpdir w = Inr (deploy_exit_status outcome, w')"
      using True d(1) by (simp add: run)
    have over: "deployed C f m previous prof path l keep flags outcome w w'" if "outcome \<noteq> DEPLOY_FAIL"
    proof -
      from branches that obtain unlocks work inner s wl where 1: "rest = unlocks @ work"
         "spawned unlocks = profile_requests ''--unlock'' m prof (profile_names m)"
         "outcome = (if inner = DEPLOY_OK \<and> \<not> all_succeeded unlocks then DEPLOY_FAIL else inner)"
         "inner \<noteq> DEPLOY_FAIL \<longrightarrow> new_configuration_active m (deploy_mappings s)"
         "inner = DEPLOY_OK \<longrightarrow> (\<forall>e \<in> set (profile_mapping_table m). set_request (targets_table m) (Some prof) e \<in> set (spawned work))"
         "deploy_locked (c_kernel C) (c_posix C) (sort_service_mappings (c_sorts C)) (c_depth C) (c_rounds C) (c_fuel C)
             (c_localstatedir C) f m previous prof path l keep flags wl = Inr (inner, s)" "trace wl = locks @ copies @ trace w"
        by blast
      from 1(3) that have "inner = outcome" "outcome = DEPLOY_OK \<longrightarrow> all_succeeded unlocks" by (auto split: if_splits)
      with 1 that d(3) show ?thesis unfolding deployed_def
        by (intro exI [of _ unlocks] exI [of _ work] exI [of _ "locks @ copies"] exI [of _ wl] exI [of _ s]) auto
    qed
    have "deploy_exit_status outcome \<in> {0, 1, 2}" "deploy_exit_status outcome = 0 \<longrightarrow> outcome = DEPLOY_OK"
      "deploy_exit_status outcome = 2 \<longrightarrow> outcome = DEPLOY_STATE_FAIL" by (cases outcome; simp)+
    with returns over d(2) show ?thesis unfolding resting_world_def
      by (intro exI [of _ "deploy_exit_status outcome"] exI [of _ w']) auto
  qed
qed

text \<open>A configuration that consists of an empty profile for one machine, deployed for the first time.\<close>

definition first_xml :: xmlNode where
  "first_xml = XML_ELEMENT_NODE ''manifest'' [(''version'', Some ''2'')]
     [XML_ELEMENT_NODE ''profiles'' [] [XML_ELEMENT_NODE ''profile'' [(''name'', Some ''m'')] [XML_TEXT_NODE ''p'']],
      XML_ELEMENT_NODE ''infrastructure'' []
        [XML_ELEMENT_NODE ''target'' [(''name'', Some ''m'')]
           [XML_ELEMENT_NODE ''properties'' [] [XML_ELEMENT_NODE ''property'' [(''name'', Some ''h''), (''type'', Some ''string'')] [XML_TEXT_NODE ''h'']],
            text_element ''clientInterface'' ''i'', text_element ''targetProperty'' ''h'', text_element ''numOfCores'' ''1'']]]"

definition first_manifest :: Manifest where
  "first_manifest = \<lparr>profile_mapping_table = [(''m'', ''p'')], services_table = [], service_mapping_array = [],
     snapshot_mapping_array = [], targets_table = [(''m'', example_target)], correct_version = True\<rparr>"

definition first_coordinator :: "(os \<Rightarrow> wstatus) \<Rightarrow> coordinator" where
  "first_coordinator exits = stateful_coordinator\<lparr>c_kernel := demo_kernel exits, c_readable := (\<lambda>_. False),
     c_parse := (\<lambda>_. Some (Some first_xml))\<rparr>"

lemma first_opened: "open_manifest (first_coordinator exits) f MANIFEST_ALL_FLAGS None None = Inr (Some first_manifest)"
  by (simp add: create_manifest_def first_coordinator_def stateful_coordinator_def) code_simp

lemma first_deploy_ready:
  "deploy_ready isort_by (\<lambda>_. 0) 1 first_manifest None FLAG_NO_MIGRATION"
proof -
  have "has_flag FLAG_NO_MIGRATION FLAG_NO_MIGRATION" by (simp add: has_flag_def FLAG_NO_MIGRATION_def)
  moreover have "check_manifest first_manifest = Inr True" by code_simp
  moreover have "reachable_profiles (targets_table first_manifest) (profile_mapping_table first_manifest)"
    by (simp add: reachable_profiles_def reachable_target_def first_manifest_def example_target_def find_target_key_def find_target_property_def)
  moreover have "transition_inputs isort_by first_manifest None"
    by (simp add: transition_inputs_def service_order.isort_by_sorts plan_transition_def first_manifest_def sorted_services_def
        consistent_mappings_def previous_mappings_def)
  ultimately show ?thesis
    by (simp add: deploy_ready_def effective_previous_def transition_ready_def plan_transition_def Let_def ranked_def
        first_manifest_def example_target_def)
qed

theorem run_deploy_outcome_witness:
  "\<exists>code w'. run_deploy (first_coordinator (\<lambda>_. Exited 0)) ''new'' None None ''default'' 1 1 FLAG_NO_MIGRATION (Some ''/tmp'') example_world
      = Inr (code, w') \<and> children w' = [] \<and> code \<in> {0, 1, 2}
    \<and> (code = 0 \<longrightarrow> deployed (first_coordinator (\<lambda>_. Exited 0)) ''new'' first_manifest None ''default'' None 1 1 FLAG_NO_MIGRATION DEPLOY_OK example_world w')"
proof -
  let ?C = "first_coordinator (\<lambda>_. Exited 0)"
  note C = first_coordinator_def stateful_coordinator_def
  have live: "kernel_live (c_kernel ?C)" and links: "short_links (c_posix ?C)" by (simp_all add: C demo_kernel_live short_demo_links)
  have sorts: "sorts_ok (c_sorts ?C)"
    by (simp add: C sorts_ok_def dependency_order.isort_by_sorts service_order.isort_by_sorts snapshot_order.isort_by_sorts)
  have previous: "open_previous ?C (manifest_to_open ?C None None (Some ''default'')) MANIFEST_ALL_FLAGS = Inr None"
    by (simp add: C determine_manifest_to_open_def determine_previous_manifest_file_def open_previous_manifest_def)
  have ready: "deploy_ready (sort_service_mappings (c_sorts ?C)) (\<lambda>_. 0) (c_depth ?C) first_manifest None FLAG_NO_MIGRATION"
    using first_deploy_ready by (simp add: C)
  have fuel: "enough_fuel (sort_service_mappings (c_sorts ?C)) first_manifest None FLAG_NO_MIGRATION (c_rounds ?C) (c_fuel ?C)"
    by (simp add: C enough_fuel_def effective_previous_def plan_transition_def first_manifest_def)
  have flag: "\<not> has_flag FLAG_NO_MIGRATION FLAG_NO_LOCK" by (simp add: has_flag_def FLAG_NO_MIGRATION_def FLAG_NO_LOCK_def)
  have one: "0 < (1 :: nat)" by simp
  from run_deploy_outcome [OF live links sorts example_resting first_opened previous ready fuel one flag] show ?thesis by blast
qed

section \<open>The number of transfers at a time\<close>

text \<open>
  C26: The number of concurrent transfers is respected: disnix-distribute of a good manifest starts one copy per profile, never
  has more of them running at a time than the limit it was given, returns when all have ended, and exits with 0 exactly if all of
  them succeeded.
\<close>

theorem run_distribute_bounded:
  assumes "kernel_live (c_kernel C)" and "resting_world w" and "0 < l"
    and "open_manifest C f (MANIFEST_PROFILES_FLAG OR MANIFEST_INFRASTRUCTURE_FLAG) None None = Inr (Some m)"
    and "check_manifest m = Inr True" and "reachable_profiles (targets_table m) (profile_mapping_table m)"
    and "length (profile_mapping_table m) + 1 < c_fuel C"
  shows "\<exists>new w'. run_distribute C f l tmpdir w = Inr (if all_succeeded new then 0 else 1, w') \<and> children w' = []
    \<and> trace w' = new @ trace w \<and> peak new \<le> l
    \<and> spawned new = map (copy_request (targets_table m) tmpdir) (profile_mapping_table m)"
proof -
  from distribute_returns [OF assms(1,2,7,3,6), of tmpdir] obtain w' new where
    "distribute (c_kernel C) (c_fuel C) (profile_mapping_table m) (targets_table m) l tmpdir w = Inr (all_succeeded new, w')"
    "resting_world w'" "trace w' = new @ trace w" "spawned new = map (copy_request (targets_table m) tmpdir) (profile_mapping_table m)"
    "peak new \<le> l" by blast
  then show ?thesis by (simp add: run_distribute_def with_manifest_def assms(4,5) exit_unless_def resting_world_def)
qed

theorem run_distribute_bounded_witness:
  "\<exists>new w'. run_distribute (first_coordinator (\<lambda>_. Killed)) ''new'' 1 None example_world = Inr (if all_succeeded new then 0 else 1, w')
    \<and> children w' = [] \<and> trace w' = new @ trace example_world \<and> peak new \<le> 1
    \<and> spawned new = map (copy_request [(''m'', example_target)] None) [(''m'', ''p'')]"
proof -
  let ?C = "first_coordinator (\<lambda>_. Killed)"
  note C = first_coordinator_def stateful_coordinator_def
  have "kernel_live (c_kernel ?C)" by (simp add: C demo_kernel_live)
  moreover have "open_manifest ?C ''new'' (MANIFEST_PROFILES_FLAG OR MANIFEST_INFRASTRUCTURE_FLAG) None None = Inr (Some first_manifest)"
    by (simp add: create_manifest_def C) code_simp
  moreover have "check_manifest first_manifest = Inr True" by code_simp
  moreover have "reachable_profiles (targets_table first_manifest) (profile_mapping_table first_manifest)"
    using first_deploy_ready by (simp add: deploy_ready_def)
  moreover have "length (profile_mapping_table first_manifest) + 1 < c_fuel ?C" by (simp add: C first_manifest_def)
  ultimately show ?thesis using run_distribute_bounded [of ?C example_world 1 "''new''" first_manifest None] example_resting
    by (simp add: first_manifest_def)
qed

text \<open>
  A limit that is no number makes disnix-distribute hang: atoi turns it into zero, with which the loop that starts and waits for copies
  does neither, whatever number of turns it is given. Nothing checks the argument of the option.
\<close>

theorem zero_transfers_hang:
  assumes "atoi s = 0" and "profile_mapping_table m \<noteq> []" and "check_manifest m = Inr True" and "take 1 f \<noteq> ''-''"
    and "open_manifest C f (MANIFEST_PROFILES_FLAG OR MANIFEST_INFRASTRUCTURE_FLAG) None None = Inr (Some m)"
  shows "distribute_main (C\<lparr>c_fuel := fuel\<rparr>) [''-m'', s, f] w = Inl Fuel_Exhausted"
proof -
  have f: "classify ''m:hv'' longs f = Operand f" for longs
    using assms(4) by (cases f) (auto simp: classify_def split: list.split)
  have m: "classify ''m:hv'' longs ''-m'' = Needs_Argument [] (option_char CHR ''m'')" for longs
    by (simp add: classify_def)
  have "procreact_fork_and_wait_in_parallel_limit K fuel
      (create_profile_mapping_iterator K (profile_mapping_table m) ts transfer_profile_mapping_to complete_transfer_profile_mapping_to tmpdir) 0 w
      = Inl Fuel_Exhausted" for K ts tmpdir
    using assms(2) by (intro limit_zero_loops)
      (simp_all add: create_profile_mapping_iterator_def has_next_profile_mapping_def procreact_initialize_pid_iterator_def
          init_model_iterator_data_def has_next_iteration_process_def)
  then show ?thesis using assms(1,3,5)
    by (simp add: distribute_main_def parse_options_def f m switch_on_def distribute_cases_def opt_max_concurrent_transfers_def
        option_codes option_char_def unsigned_of_def first_operand_def run_distribute_def with_manifest_def exit_unless_def distribute_def)
qed

theorem zero_transfers_hang_witness:
  "\<forall>fuel w. distribute_main ((first_coordinator (\<lambda>_. Exited 0))\<lparr>c_fuel := fuel\<rparr>) [''-m'', ''many'', ''new''] w = Inl Fuel_Exhausted"
proof (intro allI)
  fix fuel w
  have "atoi ''many'' = 0" by code_simp
  moreover have "profile_mapping_table first_manifest \<noteq> []" by (simp add: first_manifest_def)
  moreover have "check_manifest first_manifest = Inr True" by code_simp
  moreover have "take 1 ''new'' \<noteq> ''-''" by simp
  moreover have "open_manifest (first_coordinator (\<lambda>_. Exited 0)) ''new'' (MANIFEST_PROFILES_FLAG OR MANIFEST_INFRASTRUCTURE_FLAG) None None
      = Inr (Some first_manifest)"
    by (simp add: create_manifest_def first_coordinator_def stateful_coordinator_def) code_simp
  ultimately show "distribute_main ((first_coordinator (\<lambda>_. Exited 0))\<lparr>c_fuel := fuel\<rparr>) [''-m'', ''many'', ''new''] w = Inl Fuel_Exhausted"
    by (rule zero_transfers_hang)
qed

section \<open>All machines of an infrastructure model\<close>

lemma on_all_targets_returns:
  assumes K: "kernel_live (c_kernel C)" and w: "resting_world w" and fuel: "length tgts < c_fuel C"
    and f: "\<And>K n t w. (n, t) \<in> set tgts \<Longrightarrow> f K u n t w = Inr (sys_fork K (req t) w)"
    and c: "\<And>n t outcome result. c u n t outcome result = Inr u"
  shows "\<exists>new w'. on_all_targets C f c u tgts w = Inr (if all_succeeded new then 0 else 1, w') \<and> resting_world w'
    \<and> trace w' = new @ trace w \<and> spawned new = map (req \<circ> snd) tgts"
proof -
  have "starts (\<lambda>K u n t _. f K u n t) u tgts tgts (\<lambda>n t. req t)" using f by (simp add: starts_def)
  moreover have "keeps (\<lambda>u n _ t. c u n t) u tgts" using c by (simp add: keeps_def)
  ultimately obtain it' w' new where
    "procreact_fork_in_parallel_and_wait (c_kernel C) (c_fuel C) (create_target_pid_iterator (c_kernel C) tgts f c u) w = Inr (it', w')"
    "children w' = []" "wf_os w'" "trace w' = new @ trace w" "spawned new = map (\<lambda>(n, t). req t) tgts"
    "profile_mapping_iterator_has_succeeded it' \<longleftrightarrow> all_succeeded new"
    using parallel_phase_returns [of "c_kernel C" w tgts "c_fuel C" "\<lambda>K u n t _. f K u n t" u tgts "\<lambda>n t. req t" "\<lambda>u n _ t. c u n t"]
      K w fuel unfolding target_iterator_eq resting_world_def by blast
  then show ?thesis
    by (intro exI [of _ new] exI [of _ w'])
      (auto simp: on_all_targets_def target_iterator_has_succeeded_def profile_mapping_iterator_has_succeeded_def resting_world_def)
qed

definition target_key :: "Target \<Rightarrow> cstr" where
  "target_key t = (case find_target_key t of Inr k \<Rightarrow> k | Inl _ \<Rightarrow> None)"

lemma checked_target_key:
  assumes "check_targets_table tgts = Inr True" and "(n, t) \<in> set tgts"
  shows "find_target_key t = Inr (target_key t)"
proof -
  from assms have "check_target t = Inr True" by (auto simp: check_targets_table_iff)
  from check_target_find_key [OF this] show ?thesis by (auto simp: target_key_def)
qed

text \<open>
  C33: Garbage is collected on every machine: when the infrastructure model can be opened and is good, disnix-collect-garbage starts one process for each of
  its machines, in order, which asks the client interface of that machine to collect garbage at the key of the machine, and to delete old generations
  exactly if it was told to. It returns when all have ended and exits with 0 exactly if all have succeeded.
\<close>

theorem collect_garbage_everywhere:
  fixes C :: infrastructure_coordinator
  assumes "kernel_live (c_kernel C)" and "resting_world w1" and "length tgts < c_fuel C"
    and "create_targets_table (c_kernel C) (c_parse C) (c_infrastructure_doc C) expr (has_flag flags FLAG_COLLECT_GARBAGE_XML) prop interface w
      = Inr (Some tgts, w1)"
    and "check_targets_table tgts = Inr True"
  shows "\<exists>new w'. collect_garbage C interface prop expr flags w = Inr (if all_succeeded new then 0 else 1, w') \<and> children w' = []
    \<and> trace w' = new @ trace w1
    \<and> spawned new = map (\<lambda>(n, t). execvp ([client_interface t, Some ''--target'', target_key t, Some ''--collect-garbage'']
        @ (if has_flag flags FLAG_COLLECT_GARBAGE_DELETE_OLD then [Some ''-d''] else []))) tgts"
proof -
  let ?old = "has_flag flags FLAG_COLLECT_GARBAGE_DELETE_OLD"
  let ?req = "\<lambda>t. execvp ([client_interface t, Some ''--target'', target_key t, Some ''--collect-garbage'']
        @ (if ?old then [Some ''-d''] else []))"
  have "execvp [a, Some x, b, Some y, if o1 then Some z else None, None] = execvp ([a, Some x, b, Some y] @ (if o1 then [Some z] else []))" for a b x y z o1
    by (cases a; cases b) (simp_all add: execvp_def)
  then have "collect_garbage_on_target K ?old n t w = Inr (sys_fork K (?req t) w)" if "(n, t) \<in> set tgts" for K n t w
    using checked_target_key [OF assms(5) that] by (simp add: collect_garbage_on_target_def pkgmgmt_remote_collect_garbage_def)
  then have "\<exists>new w'. on_all_targets (coordinator.truncate C) collect_garbage_on_target complete_collect_garbage_on_target ?old tgts w1
      = Inr (if all_succeeded new then 0 else 1, w') \<and> resting_world w' \<and> trace w' = new @ trace w1 \<and> spawned new = map (?req \<circ> snd) tgts"
    using assms(1-3) by (intro on_all_targets_returns) (simp_all add: coordinator.defs complete_collect_garbage_on_target_def)
  then show ?thesis
    unfolding collect_garbage_def with_targets_def assms(4)
    by (auto simp: assms(5) resting_world_def comp_def case_prod_unfold)
qed

definition example_infrastructure :: xmlNode where
  "example_infrastructure = XML_ELEMENT_NODE ''infrastructure'' []
     [XML_ELEMENT_NODE ''target'' [(''name'', Some ''m'')]
        [XML_ELEMENT_NODE ''properties'' [] [XML_ELEMENT_NODE ''property'' [(''name'', Some ''h''), (''type'', Some ''string'')] [XML_TEXT_NODE ''h'']],
         text_element ''clientInterface'' ''i'', text_element ''targetProperty'' ''h'', text_element ''numOfCores'' ''1'']]"

definition infrastructure_example :: infrastructure_coordinator where
  "infrastructure_example = coordinator.extend ((first_coordinator (\<lambda>_. Killed))\<lparr>c_parse := (\<lambda>_. Some (Some example_infrastructure))\<rparr>)
     \<lparr>c_infrastructure_doc = (\<lambda>_. None)\<rparr>"

theorem collect_garbage_everywhere_witness:
  "\<exists>new w'. collect_garbage infrastructure_example None None ''infrastructure.xml'' (FLAG_COLLECT_GARBAGE_XML OR FLAG_COLLECT_GARBAGE_DELETE_OLD)
       example_world = Inr (if all_succeeded new then 0 else 1, w') \<and> children w' = []
     \<and> spawned new = [Exec [''i'', ''--target'', ''h'', ''--collect-garbage'', ''-d''] []]"
proof -
  note C = infrastructure_example_def coordinator.defs first_coordinator_def stateful_coordinator_def
  let ?flags = "FLAG_COLLECT_GARBAGE_XML OR FLAG_COLLECT_GARBAGE_DELETE_OLD"
  have flags: "has_flag ?flags FLAG_COLLECT_GARBAGE_XML" "has_flag ?flags FLAG_COLLECT_GARBAGE_DELETE_OLD" by code_simp+
  have live: "kernel_live (c_kernel infrastructure_example)" by (simp add: C demo_kernel_live)
  have fuel: "length [(''m'', example_target)] < c_fuel infrastructure_example" by (simp add: C)
  have xml: "create_targets_table_from_xml (\<lambda>_. Some (Some example_infrastructure)) ''infrastructure.xml'' None None = Inr (Some [(''m'', example_target)])"
    by code_simp
  have tab: "create_targets_table (c_kernel infrastructure_example) (c_parse infrastructure_example) (c_infrastructure_doc infrastructure_example)
      ''infrastructure.xml'' (has_flag ?flags FLAG_COLLECT_GARBAGE_XML) None None example_world = Inr (Some [(''m'', example_target)], example_world)"
    unfolding create_targets_table_def by (simp add: flags(1) C xml)
  have good: "check_targets_table [(''m'', example_target)] = Inr True" by code_simp
  have req: "execvp ([client_interface example_target, Some ''--target'', target_key example_target, Some ''--collect-garbage''] @ [Some ''-d''])
      = Exec [''i'', ''--target'', ''h'', ''--collect-garbage'', ''-d''] []" by code_simp
  from collect_garbage_everywhere [OF live example_resting fuel tab good] show ?thesis using req by (auto simp: flags(2))
qed

end
