(* ===== verification/Query_Correct.thy ===== *)
theory Query_Correct
  imports Query_Tools Coordinator_Correct
begin

text \<open>
  What disnix-query and disnix-capture-infra do with all machines: which processes they start, what they make of
  the outputs and what they exit with. Both rest on the contract of the future iterator.
\<close>

section \<open>Tables filled as processes end\<close>

text \<open>
  A completion function that inserts an entry for its machine when there is a result. The machines have
  different names, so every insertion adds an entry.
\<close>

definition insert_result :: "(string \<times> Target \<Rightarrow> 'r \<Rightarrow> 'v) \<Rightarrow> 'v hashtable \<Rightarrow> string \<times> Target \<Rightarrow> 'r option \<Rightarrow> 'v hashtable" where
  "insert_result g table e r = (case r of None \<Rightarrow> table | Some x \<Rightarrow> g_hash_table_insert (fst e) (g e x) table)"

lemma insert_results:
  assumes "distinct (map (fst \<circ> fst) log)" and "fst ` set table \<inter> (fst \<circ> fst) ` set log = {}"
    and "\<forall>(e, r) \<in> set log. r = (if good e then Some (f e) else None)"
  shows "foldl (\<lambda>table (e, r). insert_result g table e r) table log
    = table @ map (\<lambda>e. (fst e, g e (f e))) (filter good (map fst log))"
  using assms
proof (induction log arbitrary: table)
  case (Cons x log)
  obtain e r where x: "x = (e, r)" by fastforce
  have new: "fst e \<notin> fst ` set table" using Cons.prems(2) x by auto
  have r: "r = (if good e then Some (f e) else None)" using Cons.prems(3) x by auto
  let ?t = "insert_result g table e r"
  have t: "?t = table @ (if good e then [(fst e, g e (f e))] else [])"
    using new by (simp add: insert_result_def r g_hash_table_insert_def alist_update_new)
  have "fst e \<notin> (fst \<circ> fst) ` set log" using Cons.prems(1) x by simp
  with Cons.prems(2) have "fst ` set ?t \<inter> (fst \<circ> fst) ` set log = {}" by (cases "good e") (auto simp: t)
  with Cons.IH [of ?t] Cons.prems
  have "foldl (\<lambda>table (e, r). insert_result g table e r) ?t log = ?t @ map (\<lambda>e. (fst e, g e (f e))) (filter good (map fst log))" by simp
  then show ?case by (simp add: x) (simp add: t)
qed simp

lemma insert_results_machines:
  assumes log: "mset (map fst log) = mset tgts" and d: "wf_table tgts"
    and r: "\<forall>(e, r) \<in> set log. r = (if good e then Some (f e) else None)"
  shows "mset (foldl (\<lambda>table (e, r). insert_result g table e r) [] log) = mset (map (\<lambda>e. (fst e, g e (f e))) (filter good tgts))"
proof -
  have log': "image_mset fst (mset log) = mset tgts" using log by simp
  then have "mset (map (fst \<circ> fst) log) = mset (map fst tgts)" by (simp flip: image_mset.compositionality add: multiset.map_comp [symmetric])
  with d have "distinct (map (fst \<circ> fst) log)" using mset_eq_imp_distinct_iff by blast
  with r have "foldl (\<lambda>table (e, r). insert_result g table e r) [] log = map (\<lambda>e. (fst e, g e (f e))) (filter good (map fst log))"
    by (subst insert_results) auto
  then show ?thesis by (simp add: log')
qed

lemma appended_pieces: "foldl procreact_type_append_bytes s pieces = s @ concat pieces"
  by (induction pieces arbitrary: s) (simp_all add: procreact_type_append_bytes_def)

section \<open>Asking for the installed services\<close>

definition query_request :: "string \<Rightarrow> Target \<Rightarrow> child" where
  "query_request prof t = execvp [client_interface t, Some ''--target'', target_key t, Some ''--profile'', Some prof,
     Some ''--query-installed'', None]"

text \<open>The text of a machine, up to a NUL, and the profile manifest it stands for.\<close>

definition printed_text :: "(child \<Rightarrow> string list) \<Rightarrow> child \<Rightarrow> string" where
  "printed_text out c = takeWhile (\<lambda>c. c \<noteq> CHR 0x00) (concat (out c))"

definition queried_manifest :: "query_coordinator \<Rightarrow> string \<Rightarrow> string \<Rightarrow> ProfileManifestTarget" where
  "queried_manifest C machine text =
     \<lparr>profile = None, profile_manifest = (case create_profile_manifest_from_string (c_parse_text C) (c_sorts C) text (Some machine) of
        Inl e \<Rightarrow> None | Inr pm \<Rightarrow> pm)\<rparr>"

definition readable :: "query_coordinator \<Rightarrow> string \<Rightarrow> string \<Rightarrow> bool" where
  "readable C machine text \<longleftrightarrow>
     (case create_profile_manifest_from_string (c_parse_text C) (c_sorts C) text (Some machine) of Inl e \<Rightarrow> False | Inr pm \<Rightarrow> True)"

definition query_step :: "query_coordinator \<Rightarrow> QueryInstalledServicesData \<Rightarrow> string \<times> Target \<Rightarrow> string option \<Rightarrow> QueryInstalledServicesData" where
  "query_step C d e r = d\<lparr>profile_manifest_target_table :=
     insert_result (\<lambda>e text. queried_manifest C (fst e) text) (profile_manifest_target_table d) e r\<rparr>"

lemma query_serves:
  assumes "check_targets_table tgts = Inr True"
  shows "serves procreact_create_string_type (\<lambda>e. query_request prof (snd e)) (\<lambda>e r. \<forall>text. r = Some text \<longrightarrow> readable C (fst e) text)
    (query_step C) {d. query_profile d = prof} tgts query_installed_services_on_target
    (complete_query_installed_services_on_target (c_parse_text C) (c_sorts C))"
  unfolding serves_def
proof (intro ballI allI impI conjI; (elim conjE)?)
  fix d :: QueryInstalledServicesData and n t K w assume d: "d \<in> {d. query_profile d = prof}" and t: "(n, t) \<in> set tgts"
  then show "query_installed_services_on_target K d n t w = Inr (procreact_initialize_future K procreact_create_string_type (query_request prof (snd (n, t))) w)"
    using checked_target_key [OF assms t]
    by (simp add: query_installed_services_on_target_def pkgmgmt_remote_query_installed_def query_request_def)
next
  fix d :: QueryInstalledServicesData and n and t :: Target and outcome and future :: string_future
  assume "d \<in> {d. query_profile d = prof}" and may: "\<forall>text. future_result future = Some text \<longrightarrow> readable C (fst (n, t)) text"
    and "future_result future \<noteq> None \<longrightarrow> outcome = PROCREACT_STATUS_OK"
  then show "complete_query_installed_services_on_target (c_parse_text C) (c_sorts C) d (Some n) (Some t) future outcome
      = Inr (query_step C d (n, t) (future_result future))"
    by (cases "future_result future")
      (auto simp: complete_query_installed_services_on_target_def query_step_def insert_result_def readable_def queried_manifest_def
          split: sum.splits)
next
  fix d :: QueryInstalledServicesData and n and t :: Target and outcome and future :: string_future
  assume "d \<in> {d. query_profile d = prof}"
  then show "query_step C d (n, t) (future_result future) \<in> {d. query_profile d = prof}" by (simp add: query_step_def)
qed

lemma query_steps:
  "foldl (\<lambda>d (e, r). query_step C d e r) d log = d\<lparr>profile_manifest_target_table :=
     foldl (\<lambda>table (e, r). insert_result (\<lambda>e text. queried_manifest C (fst e) text) table e r) (profile_manifest_target_table d) log\<rparr>"
  by (induction log arbitrary: d) (auto simp: query_step_def)

text \<open>
  C14: What disnix-query does with an infrastructure model that is good: it starts one process per machine, in order, which asks the
  client interface of the machine for what is installed in the profile, and returns when all have ended. If one of them fails it prints nothing
  and exits with 1. Otherwise it checks and prints, in the format it was told, a table that has for every machine exactly the profile manifest
  that the output of this machine stands for, in whatever pieces the outputs arrived.
\<close>

theorem query_installed_outcome:
  fixes C :: query_coordinator
  assumes K: "regular_kernel (c_kernel C) out exits" and w: "resting_world w1"
    and tab: "create_targets_table (c_kernel C) (c_parse C) (c_infrastructure_doc C) expr xml prop interface w = Inr (Some tgts, w1)"
    and good: "check_targets_table tgts = Inr True" and wf: "wf_table tgts"
    and read: "\<forall>(n, t) \<in> set tgts. exits (query_request prof t) = Exited 0 \<longrightarrow> readable C n (printed_text out (query_request prof t))"
    and fuel: "length tgts < c_fuel C" "sum_list (map (\<lambda>(n, t). Suc (length (out (query_request prof t)))) tgts) < c_fuel C"
  shows "\<exists>new w' table. children w' = [] \<and> trace w' = new @ trace w1 \<and> spawned new = map (\<lambda>(n, t). query_request prof t) tgts
    \<and> query_installed C interface prop expr prof format xml w =
        (if \<forall>(n, t) \<in> set tgts. exits (query_request prof t) = Exited 0 then print_checked (c_sort_output C) format table w' else Inr (1, [], w'))
    \<and> ((\<forall>(n, t) \<in> set tgts. exits (query_request prof t) = Exited 0) \<longrightarrow>
         mset table = mset (map (\<lambda>(n, t). (n, queried_manifest C n (printed_text out (query_request prof t)))) tgts))"
proof -
  let ?cmd = "\<lambda>e. query_request prof (snd e)" and ?d = "\<lparr>query_profile = prof, profile_manifest_target_table = []\<rparr>"
  have ans: "answer procreact_create_string_type (takeWhile (\<lambda>c. c \<noteq> CHR 0x00)) out exits c
      = (if exits c = Exited 0 then Some (printed_text out c) else None)" for c
    by (simp add: answer_def procreact_create_string_type_def appended_pieces procreact_type_initialize_bytes_def printed_text_def)
  have w': "wf_os w1" "children w1 = []" using w by (simp_all add: resting_world_def)
  have may: "\<forall>e \<in> set tgts. \<forall>text. answer procreact_create_string_type (takeWhile (\<lambda>c. c \<noteq> CHR 0x00)) out exits (?cmd e) = Some text
      \<longrightarrow> readable C (fst e) text"
    using read by (auto simp: ans)
  have fuel2: "sum_list (map (\<lambda>e. Suc (length (out (?cmd e)))) tgts) < c_fuel C"
    using fuel(2) by (simp add: case_prod_unfold)
  have d: "?d \<in> {d. query_profile d = prof}" by simp
  from target_futures_return [OF K finishes_types(2) w' wf d query_serves [OF good] may fuel(1) fuel2] obtain it' w' new log where
    r: "procreact_fork_in_parallel_buffer_and_wait (c_kernel C) (c_fuel C) (create_target_future_iterator (c_kernel C) tgts
        query_installed_services_on_target (complete_query_installed_services_on_target (c_parse_text C) (c_sorts C)) ?d) w1 = Inr (it', w')"
      "children w' = []" "trace w' = new @ trace w1" "spawned new = map ?cmd tgts"
      "future_user_data (future_data it') = foldl (\<lambda>d (e, r). query_step C d e r) ?d log"
      "mset (map fst log) = mset tgts"
      "\<forall>(e, r) \<in> set log. r = answer procreact_create_string_type (takeWhile (\<lambda>c. c \<noteq> CHR 0x00)) out exits (?cmd e)"
      "target_future_iterator_has_succeeded it' \<longleftrightarrow> (\<forall>e \<in> set tgts. exits (?cmd e) = Exited 0)" .
  let ?table = "profile_manifest_target_table (future_user_data (future_data it'))"
  have "mset ?table = mset (map (\<lambda>e. (fst e, queried_manifest C (fst e) (printed_text out (?cmd e)))) (filter (\<lambda>e. exits (?cmd e) = Exited 0) tgts))"
    using insert_results_machines [OF r(6) wf, of "\<lambda>e. exits (?cmd e) = Exited 0" "\<lambda>e. printed_text out (?cmd e)"
        "\<lambda>e. queried_manifest C (fst e)"] r(7) by (simp add: r(5) query_steps ans)
  moreover have "filter (\<lambda>e. exits (?cmd e) = Exited 0) tgts = tgts" if "\<forall>(n, t) \<in> set tgts. exits (query_request prof t) = Exited 0"
    using that by (auto simp: filter_id_conv)
  ultimately have m: "(\<forall>(n, t) \<in> set tgts. exits (query_request prof t) = Exited 0) \<longrightarrow>
      mset ?table = mset (map (\<lambda>(n, t). (n, queried_manifest C n (printed_text out (query_request prof t)))) tgts)"
    by (simp only: case_prod_unfold) simp
  have q: "query_installed C interface prop expr prof format xml w =
      (if \<forall>(n, t) \<in> set tgts. exits (query_request prof t) = Exited 0 then print_checked (c_sort_output C) format ?table w' else Inr (1, [], w'))"
    using r(8) by (simp add: query_installed_def with_printed_targets_def tab good query_all_targets_def r(1) case_prod_unfold)
  have "spawned new = map (\<lambda>(n, t). query_request prof t) tgts" using r(4) by (simp add: case_prod_unfold)
  with q m r(2,3) show ?thesis by (intro exI [of _ new] exI [of _ w'] exI [of _ ?table] conjI)
qed

text \<open>One machine, whose client interface prints an empty profile manifest in two pieces.\<close>

definition query_example :: query_coordinator where
  "query_example = infrastructure_coordinator.extend
     (infrastructure_example\<lparr>c_kernel := regular_demo (\<lambda>_. [''on'', ''e'']) (\<lambda>_. Exited 0)\<rparr>)
     \<lparr>c_parse_text = (\<lambda>s. if s = ''one'' then Some (Some (XML_ELEMENT_NODE ''profilemanifest'' [] [])) else None),
      c_sort_output = isort_by\<rparr>"

theorem query_installed_outcome_witness:
  "\<exists>new w'. query_installed query_example None None ''infrastructure.xml'' ''default'' FORMAT_SERVICES True example_world
      = print_checked isort_by FORMAT_SERVICES [(''m'', queried_manifest query_example ''m'' ''one'')] w'
    \<and> children w' = [] \<and> spawned new = [Exec [''i'', ''--target'', ''h'', ''--profile'', ''default'', ''--query-installed''] []]
    \<and> trace w' = new @ trace example_world"
proof -
  note C = query_example_def infrastructure_example_def infrastructure_coordinator.defs coordinator.defs first_coordinator_def
    stateful_coordinator_def
  let ?C = query_example and ?out = "\<lambda>_. [''on'', ''e'']" and ?tgts = "[(''m'', example_target)]"
  have K: "regular_kernel (c_kernel ?C) ?out (\<lambda>_. Exited 0)"
    unfolding query_example_def by (simp add: infrastructure_coordinator.defs) (rule regular_demo_regular, simp)
  have xml: "create_targets_table_from_xml (\<lambda>_. Some (Some example_infrastructure)) ''infrastructure.xml'' None None = Inr (Some ?tgts)"
    by code_simp
  have tab: "create_targets_table (c_kernel ?C) (c_parse ?C) (c_infrastructure_doc ?C) ''infrastructure.xml'' True None None example_world
      = Inr (Some ?tgts, example_world)" unfolding create_targets_table_def by (simp add: C xml)
  have good: "check_targets_table ?tgts = Inr True" by code_simp
  have req: "query_request ''default'' example_target = Exec [''i'', ''--target'', ''h'', ''--profile'', ''default'', ''--query-installed''] []"
    by code_simp
  have one: "printed_text ?out c = ''one''" for c by (simp add: printed_text_def)
  have "create_profile_manifest_from_string (c_parse_text ?C) (c_sorts ?C) ''one'' (Some ''m'')
      = create_profile_manifest_from_string (\<lambda>_. Some (Some (XML_ELEMENT_NODE ''profilemanifest'' [] []))) (c_sorts stateful_coordinator) ''one'' (Some ''m'')"
    by (simp add: create_profile_manifest_from_string_def C)
  moreover have "\<not> isl (create_profile_manifest_from_string (\<lambda>_. Some (Some (XML_ELEMENT_NODE ''profilemanifest'' [] []))) (c_sorts stateful_coordinator) ''one'' (Some ''m''))"
    by (simp add: stateful_coordinator_def) code_simp
  ultimately have "readable ?C ''m'' ''one''" by (auto simp: readable_def split: sum.splits)
  then have read: "\<forall>(n, t) \<in> set ?tgts. Exited 0 = Exited 0 \<longrightarrow> readable ?C n (printed_text ?out (query_request ''default'' t))"
    by (simp add: one)
  have wf: "wf_table ?tgts" by simp
  have fuel: "length ?tgts < c_fuel ?C" "sum_list (map (\<lambda>(n, t). Suc (length (?out (query_request ''default'' t)))) ?tgts) < c_fuel ?C"
    by (simp_all add: C)
  have "c_sort_output ?C = isort_by" by (simp add: C)
  with query_installed_outcome [OF K example_resting tab good wf read fuel, of FORMAT_SERVICES] req show ?thesis
    by (auto simp: one)
qed

end
