(* ===== verification/Distributed_Build.thy ===== *)
theory Distributed_Build
  imports Future_Iterator Package_Management Coordinator_Tools
begin

text \<open>
  Building on the machines: distributed derivations (\<open>libdistderivation\<close>), the three phases of a build
  (\<open>libbuild/build.c\<close>) and the tool disnix-build (\<open>build/run-build.c\<close>, \<open>build/main.c\<close>). The store derivations are copied to
  the machines, realised there, and what the machines print is copied back.
\<close>

section \<open>Interfaces and derivation mappings (interface.c, interfacestable.c, derivationmapping.c, derivationmappingarray.c)\<close>

record Interface =
  target_address :: cstr
  address_interface :: cstr

record DerivationMapping =
  derivation :: cstr
  interface :: cstr
  build_result :: "cstr list option"

definition insert_interface_attributes :: "Interface \<Rightarrow> string \<Rightarrow> cstr \<Rightarrow> Interface" where
  "insert_interface_attributes i key v =
     (if xmlStrcmp (Some key) (Some ''targetAddress'') = 0 then i\<lparr>target_address := v\<rparr>
      else if xmlStrcmp (Some key) (Some ''clientInterface'') = 0 then i\<lparr>address_interface := v\<rparr>
      else i)"

definition parse_interface :: "xmlNode \<Rightarrow> Interface result" where
  "parse_interface element =
     NixXML_parse_simple_attrset element \<lparr>target_address = None, address_interface = None\<rparr>
       parse_mapping_value insert_interface_attributes"

definition check_interface :: "Interface \<Rightarrow> bool" where
  "check_interface i =
     (let status = True;
          status = (if target_address i = None then False else status)
      in if address_interface i = None then False else status)"

definition parse_interfaces_table :: "xmlNode \<Rightarrow> Interface hashtable result" where
  "parse_interfaces_table element =
     NixXML_parse_g_hash_table_verbose element ''interface'' ''name''
       (\<lambda>child. bindr (parse_interface child) (\<lambda>i. Inr (Some i)))"

definition check_interfaces_table :: "Interface hashtable \<Rightarrow> bool" where
  "check_interfaces_table table = NixXML_check_g_hash_table check_interface table"

definition insert_derivation_mapping_attributes :: "DerivationMapping \<Rightarrow> string \<Rightarrow> cstr \<Rightarrow> DerivationMapping" where
  "insert_derivation_mapping_attributes mapping key v =
     (if xmlStrcmp (Some key) (Some ''derivation'') = 0 then mapping\<lparr>derivation := v\<rparr>
      else if xmlStrcmp (Some key) (Some ''interface'') = 0 then mapping\<lparr>interface := v\<rparr>
      else mapping)"

definition parse_derivation_mapping :: "xmlNode \<Rightarrow> DerivationMapping result" where
  "parse_derivation_mapping element =
     NixXML_parse_simple_attrset element \<lparr>derivation = None, interface = None, build_result = None\<rparr>
       parse_mapping_value insert_derivation_mapping_attributes"

definition check_derivation_mapping :: "DerivationMapping \<Rightarrow> bool" where
  "check_derivation_mapping mapping =
     (let status = True;
          status = (if derivation mapping = None then False else status)
      in if interface mapping = None then False else status)"

definition parse_derivation_mapping_array :: "xmlNode \<Rightarrow> DerivationMapping list result" where
  "parse_derivation_mapping_array element =
     NixXML_parse_g_ptr_array element (Some ''mapping'') (\<lambda>child. bindr (parse_derivation_mapping child) (\<lambda>m. Inr (Some m)))"

definition check_derivation_mapping_array :: "DerivationMapping list \<Rightarrow> bool" where
  "check_derivation_mapping_array array = NixXML_check_g_ptr_array check_derivation_mapping array"

section \<open>Distributed derivations (distributedderivation.c)\<close>

record DistributedDerivation =
  derivation_mapping_array :: "DerivationMapping list option"
  interfaces_table :: "Interface hashtable option"

definition parse_and_insert_distributed_derivation_attributes ::
  "xmlNode \<Rightarrow> string \<Rightarrow> DistributedDerivation \<Rightarrow> DistributedDerivation result" where
  "parse_and_insert_distributed_derivation_attributes element key d =
     (if xmlStrcmp (Some (xml_name element)) (Some ''derivationMappings'') = 0
      then bindr (parse_derivation_mapping_array element) (\<lambda>a. Inr (d\<lparr>derivation_mapping_array := Some a\<rparr>))
      else if xmlStrcmp (Some (xml_name element)) (Some ''interfaces'') = 0
      then bindr (parse_interfaces_table element) (\<lambda>t. Inr (d\<lparr>interfaces_table := Some t\<rparr>))
      else Inr d)"

text \<open>A table gets its default only if the array did not: a document with neither leaves the table NULL.\<close>

definition parse_distributed_derivation :: "xmlNode \<Rightarrow> DistributedDerivation result" where
  "parse_distributed_derivation element =
     bindr (NixXML_parse_simple_heterogeneous_attrset element \<lparr>derivation_mapping_array = None, interfaces_table = None\<rparr>
              parse_and_insert_distributed_derivation_attributes) (\<lambda>d.
       Inr (if derivation_mapping_array d = None then d\<lparr>derivation_mapping_array := Some []\<rparr>
            else if interfaces_table d = None then d\<lparr>interfaces_table := Some []\<rparr>
            else d))"

definition create_distributed_derivation ::
  "(string \<Rightarrow> xmlNode option option) \<Rightarrow> string \<Rightarrow> DistributedDerivation option result" where
  "create_distributed_derivation xmlParseFile distributed_derivation_file =
     (case xmlParseFile distributed_derivation_file of
        None \<Rightarrow> Inr None
      | Some None \<Rightarrow> Inr None
      | Some (Some node_root) \<Rightarrow> bindr (parse_distributed_derivation node_root) (\<lambda>d. Inr (Some d)))"

fun check_derivation_mapping_array_references :: "DerivationMapping list \<Rightarrow> Interface hashtable \<Rightarrow> bool result" where
  "check_derivation_mapping_array_references [] table = Inr True"
| "check_derivation_mapping_array_references (mapping # rest) table =
     bindr (g_hash_table_contains table (interface mapping)) (\<lambda>found.
     bindr (check_derivation_mapping_array_references rest table) (\<lambda>status.
       Inr (if \<not> found then False else status)))"

definition check_distributed_derivation :: "DistributedDerivation \<Rightarrow> bool result" where
  "check_distributed_derivation d =
     bindr (deref (derivation_mapping_array d)) (\<lambda>array.
     let status = True;
         status = (if \<not> check_derivation_mapping_array array then False else status) in
     bindr (deref (interfaces_table d)) (\<lambda>table.
     let status = (if \<not> check_interfaces_table table then False else status) in
     if status
     then bindr (check_derivation_mapping_array_references array table) (\<lambda>resolve.
          Inr (if \<not> resolve then False else status))
     else Inr status))"

section \<open>The iterators over derivation mappings (derivationmapping-iterator.c)\<close>

text \<open>
  The pointer to a mapping that the iterator keeps for a process is its index in the array. The functions
  for processes change no mapping; the completion of a future returns the mapping as it leaves it.
\<close>

record 'u DerivationMappingIteratorData =
  derivation_iterator_data :: "nat ModelIteratorData"
  iterated_mappings :: "DerivationMapping list"
  iterated_interfaces :: "Interface hashtable"
  map_derivation_mapping :: "kernel \<Rightarrow> 'u \<Rightarrow> DerivationMapping \<Rightarrow> Interface option \<Rightarrow> os \<Rightarrow> (int \<times> os) result"
  complete_derivation_mapping :: "'u \<Rightarrow> DerivationMapping option \<Rightarrow> ProcReact_Status \<Rightarrow> int \<Rightarrow> 'u result"
  derivation_user_data :: 'u

definition mapping_at :: "DerivationMapping list \<Rightarrow> nat \<Rightarrow> DerivationMapping result" where
  "mapping_at array i = (if i < length array then Inr (array ! i) else Inl Out_Of_Bounds)"

definition has_next_derivation_mapping :: "'u DerivationMappingIteratorData \<Rightarrow> bool" where
  "has_next_derivation_mapping d = has_next_iteration_process (derivation_iterator_data d)"

definition next_derivation_mapping_process ::
  "kernel \<Rightarrow> 'u DerivationMappingIteratorData \<Rightarrow> os \<Rightarrow> (int \<times> 'u DerivationMappingIteratorData \<times> os) result" where
  "next_derivation_mapping_process K d w =
     (let i = index (derivation_iterator_data d) in
      bindr (mapping_at (iterated_mappings d) i) (\<lambda>mapping.
      bindr (g_hash_table_lookup (iterated_interfaces d) (interface mapping)) (\<lambda>iface.
      bindr (map_derivation_mapping d K (derivation_user_data d) mapping iface w) (\<lambda>(pid, w).
        Inr (pid, d\<lparr>derivation_iterator_data := next_iteration_process (derivation_iterator_data d) pid i\<rparr>, w)))))"

definition complete_derivation_mapping_process ::
  "'u DerivationMappingIteratorData \<Rightarrow> int \<Rightarrow> ProcReact_Status \<Rightarrow> int \<Rightarrow> 'u DerivationMappingIteratorData result" where
  "complete_derivation_mapping_process d pid outcome result =
     (case complete_iteration_process (derivation_iterator_data d) pid outcome result of (item, m) \<Rightarrow>
        bindr (complete_derivation_mapping d (derivation_user_data d) (map_option ((!) (iterated_mappings d)) item) outcome result) (\<lambda>u.
          Inr (d\<lparr>derivation_iterator_data := m, derivation_user_data := u\<rparr>)))"

definition create_derivation_mapping_pid_iterator ::
  "kernel \<Rightarrow> DerivationMapping list \<Rightarrow> Interface hashtable
    \<Rightarrow> (kernel \<Rightarrow> 'u \<Rightarrow> DerivationMapping \<Rightarrow> Interface option \<Rightarrow> os \<Rightarrow> (int \<times> os) result)
    \<Rightarrow> ('u \<Rightarrow> DerivationMapping option \<Rightarrow> ProcReact_Status \<Rightarrow> int \<Rightarrow> 'u result) \<Rightarrow> 'u
    \<Rightarrow> 'u DerivationMappingIteratorData ProcReact_PidIterator" where
  "create_derivation_mapping_pid_iterator K array table f c u =
     procreact_initialize_pid_iterator has_next_derivation_mapping (next_derivation_mapping_process K)
       procreact_retrieve_boolean complete_derivation_mapping_process
       \<lparr>derivation_iterator_data = init_model_iterator_data (length array), iterated_mappings = array, iterated_interfaces = table,
        map_derivation_mapping = f, complete_derivation_mapping = c, derivation_user_data = u\<rparr>"

definition derivation_mapping_iterator_has_succeeded :: "'u DerivationMappingIteratorData ProcReact_PidIterator \<Rightarrow> bool" where
  "derivation_mapping_iterator_has_succeeded it = success (derivation_iterator_data (data it))"

record ('s, 'r) DerivationFutureIteratorData =
  future_derivation_data :: "nat ModelIteratorData"
  future_mappings :: "DerivationMapping list"
  future_interfaces :: "Interface hashtable"
  map_derivation_future :: "kernel \<Rightarrow> DerivationMapping \<Rightarrow> Interface option \<Rightarrow> os \<Rightarrow> (('s, 'r) ProcReact_Future \<times> os) result"
  complete_derivation_future ::
    "DerivationMapping option \<Rightarrow> ('s, 'r) ProcReact_Future \<Rightarrow> ProcReact_Status \<Rightarrow> DerivationMapping result"

definition has_next_derivation_future :: "('s, 'r) DerivationFutureIteratorData \<Rightarrow> bool" where
  "has_next_derivation_future d = has_next_iteration_process (future_derivation_data d)"

definition next_derivation_mapping_future ::
  "kernel \<Rightarrow> ('s, 'r) DerivationFutureIteratorData \<Rightarrow> os
    \<Rightarrow> (('s, 'r) ProcReact_Future \<times> ('s, 'r) DerivationFutureIteratorData \<times> os) result" where
  "next_derivation_mapping_future K d w =
     (let i = index (future_derivation_data d) in
      bindr (mapping_at (future_mappings d) i) (\<lambda>mapping.
      bindr (g_hash_table_lookup (future_interfaces d) (interface mapping)) (\<lambda>iface.
      bindr (map_derivation_future d K mapping iface w) (\<lambda>(future, w).
        Inr (future, d\<lparr>future_derivation_data := next_iteration_future (future_derivation_data d) future i\<rparr>, w)))))"

definition complete_derivation_mapping_future ::
  "('s, 'r) DerivationFutureIteratorData \<Rightarrow> ('s, 'r) ProcReact_Future \<Rightarrow> ProcReact_Status
    \<Rightarrow> ('s, 'r) DerivationFutureIteratorData result" where
  "complete_derivation_mapping_future d future outcome =
     (case complete_iteration_future (future_derivation_data d) future outcome of (item, m) \<Rightarrow>
        bindr (complete_derivation_future d (map_option ((!) (future_mappings d)) item) future outcome) (\<lambda>mapping.
          Inr (d\<lparr>future_derivation_data := m,
                future_mappings := (case item of None \<Rightarrow> future_mappings d | Some i \<Rightarrow> (future_mappings d)[i := mapping])\<rparr>)))"

definition create_derivation_mapping_future_iterator ::
  "kernel \<Rightarrow> DerivationMapping list \<Rightarrow> Interface hashtable
    \<Rightarrow> (kernel \<Rightarrow> DerivationMapping \<Rightarrow> Interface option \<Rightarrow> os \<Rightarrow> (('s, 'r) ProcReact_Future \<times> os) result)
    \<Rightarrow> (DerivationMapping option \<Rightarrow> ('s, 'r) ProcReact_Future \<Rightarrow> ProcReact_Status \<Rightarrow> DerivationMapping result)
    \<Rightarrow> (('s, 'r) DerivationFutureIteratorData, 's, 'r) ProcReact_FutureIterator" where
  "create_derivation_mapping_future_iterator K array table f c =
     procreact_initialize_future_iterator has_next_derivation_future (next_derivation_mapping_future K)
       complete_derivation_mapping_future
       \<lparr>future_derivation_data = init_model_iterator_data (length array), future_mappings = array, future_interfaces = table,
        map_derivation_future = f, complete_derivation_future = c\<rparr>"

section \<open>The phases of a build (build.c)\<close>

definition copy_derivation_mapping_to ::
  "kernel \<Rightarrow> cstr \<Rightarrow> DerivationMapping \<Rightarrow> Interface option \<Rightarrow> os \<Rightarrow> (int \<times> os) result" where
  "copy_derivation_mapping_to K tmpdir mapping iface w =
     bindr (deref iface) (\<lambda>i.
       Inr (copy_closure_to K (address_interface i) (target_address i) tmpdir
              (case derivation mapping of None \<Rightarrow> [] | Some path \<Rightarrow> [path]) w))"

text \<open>A failure is reported with the name of the interface and the derivation of the mapping.\<close>

definition complete_copy_derivation_mapping_to ::
  "cstr \<Rightarrow> DerivationMapping option \<Rightarrow> ProcReact_Status \<Rightarrow> int \<Rightarrow> cstr result" where
  "complete_copy_derivation_mapping_to tmpdir mapping outcome result =
     (if outcome \<noteq> PROCREACT_STATUS_OK \<or> result = 0 then bindr (deref mapping) (\<lambda>m. Inr tmpdir) else Inr tmpdir)"

definition distribute_derivation_mappings ::
  "kernel \<Rightarrow> nat \<Rightarrow> DerivationMapping list \<Rightarrow> Interface hashtable \<Rightarrow> nat \<Rightarrow> cstr \<Rightarrow> os \<Rightarrow> (bool \<times> os) result" where
  "distribute_derivation_mappings K fuel array table max_concurrent_transfers tmpdir w =
     bindr (procreact_fork_and_wait_in_parallel_limit K fuel
              (create_derivation_mapping_pid_iterator K array table copy_derivation_mapping_to complete_copy_derivation_mapping_to tmpdir)
              max_concurrent_transfers w)
       (\<lambda>(iterator, w). Inr (derivation_mapping_iterator_has_succeeded iterator, w))"

definition realise_derivation_mapping ::
  "kernel \<Rightarrow> DerivationMapping \<Rightarrow> Interface option \<Rightarrow> os \<Rightarrow> (strings_future \<times> os) result" where
  "realise_derivation_mapping K mapping iface w =
     bindr (deref iface) (\<lambda>i. Inr (pkgmgmt_remote_realise K (address_interface i) (target_address i) (derivation mapping) w))"

definition complete_realise_derivation_mapping ::
  "DerivationMapping option \<Rightarrow> strings_future \<Rightarrow> ProcReact_Status \<Rightarrow> DerivationMapping result" where
  "complete_realise_derivation_mapping mapping future outcome =
     bindr (deref mapping) (\<lambda>m.
       Inr (if outcome = PROCREACT_STATUS_OK \<and> future_result future \<noteq> None then m\<lparr>build_result := future_result future\<rparr> else m))"

definition realise ::
  "kernel \<Rightarrow> nat \<Rightarrow> DerivationMapping list \<Rightarrow> Interface hashtable \<Rightarrow> os \<Rightarrow> (bool \<times> DerivationMapping list \<times> os) result" where
  "realise K fuel array table w =
     bindr (procreact_fork_in_parallel_buffer_and_wait K fuel
              (create_derivation_mapping_future_iterator K array table realise_derivation_mapping complete_realise_derivation_mapping) w)
       (\<lambda>(iterator, w). Inr (success (future_derivation_data (future_data iterator)), future_mappings (future_data iterator), w))"

text \<open>The paths of a result end with NULL; a mapping that has none is NULL itself.\<close>

fun paths_until_null :: "cstr list \<Rightarrow> string list result" where
  "paths_until_null [] = Inl Out_Of_Bounds"
| "paths_until_null (None # rest) = Inr []"
| "paths_until_null (Some path # rest) = bindr (paths_until_null rest) (\<lambda>paths. Inr (path # paths))"

definition copy_result_from ::
  "kernel \<Rightarrow> unit \<Rightarrow> DerivationMapping \<Rightarrow> Interface option \<Rightarrow> os \<Rightarrow> (int \<times> os) result" where
  "copy_result_from K u mapping iface w =
     bindr (deref (build_result mapping)) (\<lambda>result.
     bindr (paths_until_null result) (\<lambda>paths.
     bindr (deref iface) (\<lambda>i.
       Inr (copy_closure_from K (address_interface i) (target_address i) paths w))))"

definition complete_copy_result_from ::
  "unit \<Rightarrow> DerivationMapping option \<Rightarrow> ProcReact_Status \<Rightarrow> int \<Rightarrow> unit result" where
  "complete_copy_result_from u mapping outcome result =
     (if outcome \<noteq> PROCREACT_STATUS_OK \<or> result = 0 then bindr (deref mapping) (\<lambda>m. Inr u) else Inr u)"

definition retrieve_results ::
  "kernel \<Rightarrow> nat \<Rightarrow> DerivationMapping list \<Rightarrow> Interface hashtable \<Rightarrow> nat \<Rightarrow> os \<Rightarrow> (bool \<times> os) result" where
  "retrieve_results K fuel array table max_concurrent_transfers w =
     bindr (procreact_fork_and_wait_in_parallel_limit K fuel
              (create_derivation_mapping_pid_iterator K array table copy_result_from complete_copy_result_from ())
              max_concurrent_transfers w)
       (\<lambda>(iterator, w). Inr (derivation_mapping_iterator_has_succeeded iterator, w))"

text \<open>Each phase starts only when the one before it has succeeded.\<close>

definition build ::
  "kernel \<Rightarrow> nat \<Rightarrow> DistributedDerivation \<Rightarrow> nat \<Rightarrow> cstr \<Rightarrow> os \<Rightarrow> (bool \<times> os) result" where
  "build K fuel d max_concurrent_transfers tmpdir w =
     bindr (deref (derivation_mapping_array d)) (\<lambda>array.
     bindr (deref (interfaces_table d)) (\<lambda>table.
     bindr (distribute_derivation_mappings K fuel array table max_concurrent_transfers tmpdir w) (\<lambda>(good, w).
     if \<not> good then Inr (False, w)
     else bindr (realise K fuel array table w) (\<lambda>(good, array, w).
     if \<not> good then Inr (False, w)
     else retrieve_results K fuel array table max_concurrent_transfers w))))"

section \<open>The tool (run-build.c, main.c)\<close>

definition run_build :: "coordinator \<Rightarrow> string \<Rightarrow> nat \<Rightarrow> cstr \<Rightarrow> os \<Rightarrow> (int \<times> os) result" where
  "run_build C distributed_derivation_file max_concurrent_transfers tmpdir w =
     bindr (create_distributed_derivation (c_parse C) distributed_derivation_file) (\<lambda>opened.
     case opened of
       None \<Rightarrow> Inr (1, w)
     | Some d \<Rightarrow>
         bindr (check_distributed_derivation d) (\<lambda>valid.
         if valid
         then bindr (build (c_kernel C) (c_fuel C) d max_concurrent_transfers tmpdir w) (\<lambda>(good, w). Inr (if good then 0 else 1, w))
         else Inr (1, w)))"

definition build_long_options :: "long_option list" where
  "build_long_options =
     [(''max-concurrent-transfers'', True, DISNIX_OPTION_MAX_CONCURRENT_TRANSFERS),
      (''help'', False, DISNIX_OPTION_HELP),
      (''version'', False, DISNIX_OPTION_VERSION)]"

definition build_cases :: "(int \<times> option_case) list" where
  "build_cases = [(DISNIX_OPTION_MAX_CONCURRENT_TRANSFERS, opt_max_concurrent_transfers)]"

definition build_main :: "coordinator \<Rightarrow> string list \<Rightarrow> os \<Rightarrow> (int \<times> os) result" where
  "build_main C args =
     parse_options ''m:hv'' build_long_options build_cases args (\<lambda>opts operands w.
        (case first_operand operands of
           None \<Rightarrow> Inr (1, w)
         | Some distributed_derivation_file \<Rightarrow>
             run_build C distributed_derivation_file (t_max_concurrent_transfers opts) (check_tmpdir (c_getenv C) None) w))"

end
