(* ===== verification/Build_Correct.thy ===== *)
theory Build_Correct
  imports Distributed_Build Query_Correct
begin

text \<open>
  What a build does: the processes of its three phases, that a phase starts only when the one before it has succeeded, and
  that exactly the paths a machine printed for a derivation are copied back from this machine. Both iterators over derivation
  mappings interpret the contracts of \<open>libprocreact\<close>.
\<close>

section \<open>Processes\<close>

text \<open>The two functions of a phase on the mappings \<open>d\<close> has: each forks the process \<open>cmd\<close> says, and each completion returns.\<close>

definition derivation_callbacks :: "(DerivationMapping \<Rightarrow> child) \<Rightarrow> 'u DerivationMappingIteratorData \<Rightarrow> bool" where
  "derivation_callbacks cmd d \<longleftrightarrow> (\<forall>m \<in> set (iterated_mappings d). \<exists>iface.
     g_hash_table_lookup (iterated_interfaces d) (interface m) = Inr iface
     \<and> (\<forall>K w. map_derivation_mapping d K (derivation_user_data d) m iface w = Inr (sys_fork K (cmd m) w))
     \<and> (\<forall>outcome result. complete_derivation_mapping d (derivation_user_data d) (Some m) outcome result = Inr (derivation_user_data d)))"

definition derivation_todo :: "(DerivationMapping \<Rightarrow> child) \<Rightarrow> 'u DerivationMappingIteratorData \<Rightarrow> child list" where
  "derivation_todo cmd d = map cmd (drop (index (derivation_iterator_data d)) (iterated_mappings d))"

definition derivation_inv :: "(DerivationMapping \<Rightarrow> child) \<Rightarrow> 'u DerivationMappingIteratorData \<Rightarrow> int set \<Rightarrow> bool" where
  "derivation_inv cmd d P \<longleftrightarrow> total (derivation_iterator_data d) = length (iterated_mappings d)
     \<and> knows {..<length (iterated_mappings d)} (derivation_iterator_data d) P \<and> derivation_callbacks cmd d"

definition derivation_ok :: "'u DerivationMappingIteratorData \<Rightarrow> bool" where
  "derivation_ok d = success (derivation_iterator_data d)"

lemma derivation_next:
  assumes inv: "derivation_inv cmd d P" and t: "derivation_todo cmd d = c # cs" and f: "sys_fork K c w = (pid, w')"
    and p: "0 < pid" "pid \<notin> P"
  shows "\<exists>d'. next_derivation_mapping_process K d w = Inr (pid, d', w') \<and> derivation_todo cmd d' = cs
    \<and> derivation_inv cmd d' (insert pid P) \<and> (derivation_ok d' \<longleftrightarrow> derivation_ok d)"
proof -
  let ?i = "index (derivation_iterator_data d)" and ?ms = "iterated_mappings d"
  let ?m = "next_iteration_process (derivation_iterator_data d) pid ?i"
  note inv = inv [unfolded derivation_inv_def]
  have i: "?i < length ?ms" using t by (cases "?i < length ?ms") (simp_all add: derivation_todo_def)
  from t Cons_nth_drop_Suc [OF i, symmetric] have c: "c = cmd (?ms ! ?i)" "cs = map cmd (drop (Suc ?i) ?ms)"
    by (simp_all add: derivation_todo_def)
  have "?ms ! ?i \<in> set ?ms" using i by simp
  with inv obtain iface where "g_hash_table_lookup (iterated_interfaces d) (interface (?ms ! ?i)) = Inr iface"
    "map_derivation_mapping d K (derivation_user_data d) (?ms ! ?i) iface w = Inr (sys_fork K (cmd (?ms ! ?i)) w)"
    unfolding derivation_callbacks_def by blast
  then have "next_derivation_mapping_process K d w = Inr (pid, d\<lparr>derivation_iterator_data := ?m\<rparr>, w')"
    using i f by (simp add: next_derivation_mapping_process_def mapping_at_def c)
  moreover have "derivation_inv cmd (d\<lparr>derivation_iterator_data := ?m\<rparr>) (insert pid P)"
    using inv knows_next [of "{..<length ?ms}" "derivation_iterator_data d" P ?i pid] i p
    by (simp add: derivation_inv_def derivation_callbacks_def)
  ultimately show ?thesis by (intro exI [of _ "d\<lparr>derivation_iterator_data := ?m\<rparr>"]) (simp add: derivation_todo_def derivation_ok_def c)
qed

lemma derivation_complete:
  assumes inv: "derivation_inv cmd d P" and p: "pid \<in> P" and good: "succeeded (outcome, result) = (ws = Exited 0)"
  shows "\<exists>d'. complete_derivation_mapping_process d pid outcome result = Inr d' \<and> derivation_todo cmd d' = derivation_todo cmd d
    \<and> derivation_inv cmd d' (P - {pid}) \<and> (derivation_ok d' \<longleftrightarrow> derivation_ok d \<and> ws = Exited 0)"
proof -
  let ?m = "(derivation_iterator_data d)\<lparr>success := success (derivation_iterator_data d) \<and> succeeded (outcome, result)\<rparr>"
  note inv = inv [unfolded derivation_inv_def]
  from inv have known: "knows {..<length (iterated_mappings d)} (derivation_iterator_data d) P" by simp
  from knows_complete(1) [OF this p, of outcome result] obtain i where i: "i < length (iterated_mappings d)"
    "complete_iteration_process (derivation_iterator_data d) pid outcome result = (Some i, ?m)" by auto
  from i(1) have "iterated_mappings d ! i \<in> set (iterated_mappings d)" by simp
  with inv have "complete_derivation_mapping d (derivation_user_data d) (Some (iterated_mappings d ! i)) outcome result = Inr (derivation_user_data d)"
    unfolding derivation_callbacks_def by blast
  then have "complete_derivation_mapping_process d pid outcome result = Inr (d\<lparr>derivation_iterator_data := ?m\<rparr>)"
    by (simp add: complete_derivation_mapping_process_def i(2))
  moreover have "derivation_inv cmd (d\<lparr>derivation_iterator_data := ?m\<rparr>) (P - {pid})"
    using inv knows_complete(2) [OF known p, of outcome result] i(2) by (simp add: derivation_inv_def derivation_callbacks_def)
  ultimately show ?thesis using good
    by (intro exI [of _ "d\<lparr>derivation_iterator_data := ?m\<rparr>"]) (simp add: derivation_todo_def derivation_ok_def)
qed

interpretation derivation_iteration: pid_iteration has_next_derivation_mapping next_derivation_mapping_process
  complete_derivation_mapping_process "derivation_todo cmd" "\<lambda>d P new. derivation_inv cmd d P" derivation_ok for cmd
proof
  fix d :: "'u DerivationMappingIteratorData" and P assume "derivation_inv cmd d P"
  then show "has_next_derivation_mapping d \<longleftrightarrow> derivation_todo cmd d \<noteq> []"
    by (auto simp: derivation_inv_def has_next_derivation_mapping_def has_next_iteration_process_def derivation_todo_def)
qed (rule derivation_next derivation_complete; assumption)+

text \<open>A whole phase: one process per mapping in order, no more than the limit at a time.\<close>

lemma derivation_phase_returns:
  fixes u :: 'u
  assumes K: "kernel_live K" and w: "wf_os w" "children w = []" and fuel: "length array + 1 < fuel" and l: "0 < l"
    and calls: "derivation_callbacks cmd (data (create_derivation_mapping_pid_iterator K array table f c u))"
  obtains it' w' new where
    "procreact_fork_and_wait_in_parallel_limit K fuel (create_derivation_mapping_pid_iterator K array table f c u) l w = Inr (it', w')"
    "children w' = []" "wf_os w'" "trace w' = new @ trace w" "spawned new = map cmd array"
    "derivation_mapping_iterator_has_succeeded it' \<longleftrightarrow> all_succeeded new" "peak new \<le> l"
proof -
  let ?it = "create_derivation_mapping_pid_iterator K array table f c u"
  note it = create_derivation_mapping_pid_iterator_def procreact_initialize_pid_iterator_def init_model_iterator_data_def
  have todo: "derivation_todo cmd (data ?it) = map cmd array" by (simp add: it derivation_todo_def)
  have iter: "derivation_iteration.iterates K ?it w"
    unfolding create_derivation_mapping_pid_iterator_def by (rule derivation_iteration.initialized_iterates [OF w])
  have inv: "derivation_inv cmd (data ?it) {}" using calls by (simp add: derivation_inv_def knows_def) (simp add: it)
  have "derivation_ok (data ?it)" by (simp add: it derivation_ok_def)
  moreover have "length (derivation_todo cmd (data ?it)) + 1 < fuel" using fuel by (simp add: todo)
  note derivation_iteration.fork_limit_total [OF K iter w(2) inv l this]
  ultimately show ?thesis using that unfolding derivation_mapping_iterator_has_succeeded_def derivation_ok_def todo by metis
qed

section \<open>Futures\<close>

text \<open>What a machine has printed for a mapping is its result.\<close>

definition realised :: "DerivationMapping \<Rightarrow> cstr list option \<Rightarrow> DerivationMapping" where
  "realised m r = (if r \<noteq> None then m\<lparr>build_result := r\<rparr> else m)"

definition realise_results :: "DerivationMapping list \<Rightarrow> (nat \<times> cstr list option) list \<Rightarrow> DerivationMapping list" where
  "realise_results = foldl (\<lambda>ms (i, r). ms[i := realised (ms ! i) r])"

lemma realise_results_simps [simp]:
  "realise_results ms [] = ms"
  "realise_results ms (log @ [(i, r)]) = (realise_results ms log)[i := realised (realise_results ms log ! i) r]"
  by (simp_all add: realise_results_def)

lemma realised_interface [simp]: "interface (realised m r) = interface m" "derivation (realised m r) = derivation m"
  by (simp_all add: realised_def)

lemma nth_update_self: "i < length xs \<Longrightarrow> xs[j := f (xs ! j)] ! i = (if i = j then f (xs ! i) else xs ! i)"
  by (cases "i = j") auto

lemma realise_results_parts:
  "length (realise_results ms log) = length ms
   \<and> (\<forall>i < length ms. interface (realise_results ms log ! i) = interface (ms ! i) \<and> derivation (realise_results ms log ! i) = derivation (ms ! i)
        \<and> (i \<notin> fst ` set log \<longrightarrow> realise_results ms log ! i = ms ! i))"
proof (induction log rule: rev_induct)
  case (snoc x log)
  obtain j r where x: "x = (j, r)" by fastforce
  from snoc show ?case by (auto simp: x nth_update_self [where f = "\<lambda>m. realised m r"])
qed simp

lemma realise_results_all:
  assumes "distinct (map fst log)" and "\<forall>(i, r) \<in> set log. i < length ms \<and> r = res i" and "i \<in> fst ` set log"
  shows "realise_results ms log ! i = realised (ms ! i) (res i)"
  using assms
proof (induction log rule: rev_induct)
  case (snoc x log)
  obtain j r where x: "x = (j, r)" by fastforce
  with snoc.prems have j: "j < length ms" "r = res j" "j \<notin> fst ` set log" by auto
  have len: "length (realise_results ms log) = length ms" using realise_results_parts by blast
  show ?case
  proof (cases "i = j")
    case True
    have "realise_results ms log ! j = ms ! j" using realise_results_parts [of ms log] j by blast
    with j len True show ?thesis by (simp add: x)
  next
    case False
    with snoc x have "realise_results ms log ! i = realised (ms ! i) (res i)" by auto
    with False show ?thesis by (simp add: x)
  qed
qed simp

definition realise_request :: "Interface hashtable \<Rightarrow> DerivationMapping \<Rightarrow> child" where
  "realise_request table m = (case interface m of None \<Rightarrow> Exec [] [] | Some k \<Rightarrow> (case map_of table k of
       None \<Rightarrow> Exec [] []
     | Some i \<Rightarrow> execvp [address_interface i, Some ''--realise'', Some ''--target'', target_address i, derivation m, None]))"

text \<open>Every mapping names an interface of the table, which is what the check of a distributed derivation establishes.\<close>

definition resolved :: "Interface hashtable \<Rightarrow> DerivationMapping \<Rightarrow> bool" where
  "resolved table m \<longleftrightarrow> (\<exists>k i. interface m = Some k \<and> map_of table k = Some i) \<and> derivation m \<noteq> None"

lemma resolvedE:
  assumes "resolved table m"
  obtains k i path where "interface m = Some k" "map_of table k = Some i" "derivation m = Some path"
    "g_hash_table_lookup table (interface m) = Inr (Some i)"
  using assms by (auto simp: resolved_def)

lemma check_derivation_references_iff:
  "check_derivation_mapping_array_references array table = Inr True \<longleftrightarrow>
     (\<forall>m \<in> set array. \<exists>k i. interface m = Some k \<and> map_of table k = Some i)"
  by (induction array) (auto simp: result_simps g_hash_table_contains_def split: if_splits)

lemma checked_derivation_resolves:
  assumes "check_distributed_derivation \<lparr>derivation_mapping_array = Some array, interfaces_table = Some table\<rparr> = Inr True"
  shows "\<forall>m \<in> set array. resolved table m"
proof -
  from assms have "check_derivation_mapping_array array" "check_derivation_mapping_array_references array table = Inr True"
    by (auto simp: check_distributed_derivation_def Let_def result_simps split: if_splits)
  then show ?thesis
    by (auto simp: check_derivation_references_iff check_derivation_mapping_array_def check_derivation_mapping_def Let_def resolved_def
        split: if_splits)
qed

abbreviation lines_type :: "(cstr list, cstr list) ProcReact_Type" where
  "lines_type \<equiv> procreact_create_string_array_type (CHR 10)"

type_synonym realise_data = "(cstr list, cstr list) DerivationFutureIteratorData"

definition realise_todo :: "realise_data \<Rightarrow> nat list" where
  "realise_todo d = [index (future_derivation_data d)..<length (future_mappings d)]"

definition realise_inv :: "DerivationMapping list \<Rightarrow> Interface hashtable \<Rightarrow> realise_data \<Rightarrow> (int \<times> nat) set \<Rightarrow> (nat \<times> cstr list option) list \<Rightarrow> bool" where
  "realise_inv ms table d R log \<longleftrightarrow> total (future_derivation_data d) = length ms
     \<and> (\<forall>(p, i) \<in> R. i < length ms \<and> map_of (item_table (future_derivation_data d)) p = Some i)
     \<and> (\<forall>m \<in> set ms. resolved table m) \<and> future_interfaces d = table \<and> (\<forall>(i, r) \<in> set log. i < length ms)
     \<and> map_derivation_future d = realise_derivation_mapping \<and> complete_derivation_future d = complete_realise_derivation_mapping
     \<and> future_mappings d = realise_results ms log
     \<and> (success (future_derivation_data d) \<longleftrightarrow> (\<forall>(i, r) \<in> set log. r \<noteq> None))"

abbreviation realise_cmd :: "DerivationMapping list \<Rightarrow> Interface hashtable \<Rightarrow> nat \<Rightarrow> child" where
  "realise_cmd ms table i \<equiv> realise_request table (ms ! i)"

lemma realise_next:
  assumes inv: "realise_inv ms table d R log" and t: "realise_todo d = i # is"
    and f: "procreact_initialize_future K lines_type (realise_cmd ms table i) w = (future, w')"
    and p: "0 < future_pid future" "future_pid future \<notin> fst ` R"
  shows "\<exists>d'. next_derivation_mapping_future K d w = Inr (future, d', w') \<and> realise_todo d' = is
    \<and> realise_inv ms table d' (insert (future_pid future, i) R) log"
proof -
  let ?m = "next_iteration_future (future_derivation_data d) future i"
  note inv = inv [unfolded realise_inv_def]
  note parts = realise_results_parts [of ms log]
  from inv have ms: "future_mappings d = realise_results ms log" "length (future_mappings d) = length ms" using parts by auto
  from t have i: "i = index (future_derivation_data d)" "i < length ms" "is = [Suc i..<length ms]"
    by (auto simp: realise_todo_def ms(2) upt_eq_Cons_conv)
  have m: "interface (future_mappings d ! i) = interface (ms ! i)" "derivation (future_mappings d ! i) = derivation (ms ! i)"
    using parts i(2) by (simp_all add: ms(1))
  from inv have given: "future_interfaces d = table" "map_derivation_future d = realise_derivation_mapping" by simp_all
  from inv i(2) have "resolved table (ms ! i)" by simp
  then obtain k iface where "interface (ms ! i) = Some k" "map_of table k = Some iface"
    "g_hash_table_lookup table (interface (ms ! i)) = Inr (Some iface)" by (rule resolvedE)
  then have "next_derivation_mapping_future K d w = Inr (future, d\<lparr>future_derivation_data := ?m\<rparr>, w')"
    using i(2) f by (simp add: next_derivation_mapping_future_def mapping_at_def ms(2) i(1) [symmetric] m given realise_derivation_mapping_def
        pkgmgmt_remote_realise_def realise_request_def)
  moreover have "realise_inv ms table (d\<lparr>future_derivation_data := ?m\<rparr>) (insert (future_pid future, i) R) log"
  proof -
    have "map_of (item_table ?m) q = (if q = future_pid future then Some i else map_of (item_table (future_derivation_data d)) q)" for q
      using p by (simp add: next_iteration_future_def next_iteration_process_def update_conv')
    moreover have "q \<noteq> future_pid future" if "(q, x) \<in> R" for q x using that p(2) by force
    ultimately show ?thesis using inv i(2) by (auto simp: realise_inv_def next_iteration_future_def)
  qed
  moreover have "realise_todo (d\<lparr>future_derivation_data := ?m\<rparr>) = is"
    using i ms(2) by (simp add: realise_todo_def next_iteration_future_def)
  ultimately show ?thesis by blast
qed

lemma realise_complete:
  assumes inv: "realise_inv ms table d R log" and p: "(future_pid future, i) \<in> R"
    and o: "future_result future \<noteq> None \<longrightarrow> outcome = PROCREACT_STATUS_OK"
  shows "\<exists>d'. complete_derivation_mapping_future d future outcome = Inr d' \<and> realise_todo d' = realise_todo d
    \<and> realise_inv ms table d' (R - {(future_pid future, i)}) (log @ [(i, future_result future)])"
proof -
  let ?r = "future_result future" and ?ms = "future_mappings d"
  let ?m = "(future_derivation_data d)\<lparr>success := success (future_derivation_data d) \<and> ?r \<noteq> None\<rparr>"
  note inv = inv [unfolded realise_inv_def]
  from inv p have i: "i < length ms" "map_of (item_table (future_derivation_data d)) (future_pid future) = Some i" by auto
  have "complete_iteration_future (future_derivation_data d) future outcome = (Some i, ?m)"
    using i(2) o by (auto simp: complete_iteration_future_def)
  moreover have "complete_realise_derivation_mapping (Some (?ms ! i)) future outcome = Inr (realised (?ms ! i) ?r)"
    using o by (auto simp: complete_realise_derivation_mapping_def realised_def)
  ultimately have "complete_derivation_mapping_future d future outcome
      = Inr (d\<lparr>future_derivation_data := ?m, future_mappings := ?ms[i := realised (?ms ! i) ?r]\<rparr>)"
    using inv by (simp add: complete_derivation_mapping_future_def)
  moreover from inv have "success ?m \<longleftrightarrow> (\<forall>(j, r) \<in> set (log @ [(i, ?r)]). r \<noteq> None)" by auto
  moreover from inv have "\<forall>(q, j) \<in> R - {(future_pid future, i)}. j < length ms
      \<and> map_of (item_table (future_derivation_data d)) q = Some j" by blast
  ultimately show ?thesis using inv i(1)
    by (intro exI [of _ "d\<lparr>future_derivation_data := ?m, future_mappings := ?ms[i := realised (?ms ! i) ?r]\<rparr>"])
      (simp add: realise_inv_def realise_todo_def)
qed

interpretation realisation: future_iteration has_next_derivation_future next_derivation_mapping_future complete_derivation_mapping_future
  realise_todo "realise_inv ms table" "realise_cmd ms table" lines_type "\<lambda>i r. True" for ms table
proof
  fix d R log assume "realise_inv ms table d R log"
  then show "has_next_derivation_future d \<longleftrightarrow> realise_todo d \<noteq> []"
    using realise_results_parts [of ms log]
    by (auto simp: realise_inv_def has_next_derivation_future_def has_next_iteration_process_def realise_todo_def)
qed (rule realise_next realise_complete; assumption)+

text \<open>The whole phase: one process per mapping in order, and every mapping with the lines its process printed.\<close>

definition printed_lines :: "(child \<Rightarrow> string list) \<Rightarrow> child \<Rightarrow> string list" where
  "printed_lines out c = lines_of (CHR 10) (concat (out c))"

definition built :: "(child \<Rightarrow> string list) \<Rightarrow> Interface hashtable \<Rightarrow> DerivationMapping \<Rightarrow> DerivationMapping" where
  "built out table m = m\<lparr>build_result := Some (map Some (printed_lines out (realise_request table m)) @ [None])\<rparr>"

lemma lines_answer:
  assumes "\<forall>p \<in> set (out c). CHR 0x00 \<notin> set p"
  shows "answer lines_type finish_string_array out exits c
    = (if exits c = Exited 0 then Some (map Some (printed_lines out c) @ [None]) else None)"
proof -
  have "foldl (append_piece lines_type) (initialize lines_type) (out c) = tokens_of (CHR 10) (concat (out c))"
    using append_pieces_push [OF _ assms, of "[None]" "CHR 10"]
    by (simp add: procreact_create_string_array_type_def procreact_type_initialize_string_array_def increase_tokens_array_def tokens_of_foldl)
  then show ?thesis by (simp only: answer_def finish_string_array_def printed_lines_def finalized_tokens)
qed

lemma realise_log:
  assumes log: "mset (map fst log) = mset [0..<length ms]"
    and r: "\<forall>(i, r) \<in> set log. r = (if good (ms ! i) then Some (res (ms ! i)) else None)"
  shows "(\<forall>(i, r) \<in> set log. r \<noteq> None) \<longleftrightarrow> (\<forall>m \<in> set ms. good m)"
    and "\<forall>m \<in> set ms. good m \<Longrightarrow> realise_results ms log = map (\<lambda>m. m\<lparr>build_result := Some (res m)\<rparr>) ms"
proof -
  let ?r = "\<lambda>i. if good (ms ! i) then Some (res (ms ! i)) else None"
  from mset_eq_setD [OF log] have idx: "fst ` set log = {..<length ms}" by (simp add: atLeast0LessThan)
  have "(\<forall>x \<in> set log. snd x \<noteq> None) \<longleftrightarrow> (\<forall>x \<in> set log. good (ms ! fst x))"
  proof (intro ball_cong refl)
    fix x assume "x \<in> set log"
    with r have "case x of (i, r) \<Rightarrow> r = ?r i" by blast
    then have "snd x = ?r (fst x)" by (simp add: case_prod_unfold)
    then show "snd x \<noteq> None \<longleftrightarrow> good (ms ! fst x)" by simp
  qed
  also have "\<dots> \<longleftrightarrow> (\<forall>i \<in> fst ` set log. good (ms ! i))" by simp
  also have "\<dots> \<longleftrightarrow> (\<forall>m \<in> set ms. good m)" unfolding idx by (auto simp: all_set_conv_all_nth)
  finally show "(\<forall>(i, r) \<in> set log. r \<noteq> None) \<longleftrightarrow> (\<forall>m \<in> set ms. good m)" by (simp add: case_prod_unfold)
  assume good: "\<forall>m \<in> set ms. good m"
  have d: "distinct (map fst log)" using log mset_eq_imp_distinct_iff by fastforce
  have "i < length ms" if "(i, r) \<in> set log" for i r using that idx by (metis fst_conv imageI lessThan_iff)
  with r have all: "\<forall>(i, r) \<in> set log. i < length ms \<and> r = ?r i" by blast
  show "realise_results ms log = map (\<lambda>m. m\<lparr>build_result := Some (res m)\<rparr>) ms"
  proof (rule nth_equalityI)
    show "length (realise_results ms log) = length (map (\<lambda>m. m\<lparr>build_result := Some (res m)\<rparr>) ms)" using realise_results_parts by simp
    fix i assume "i < length (realise_results ms log)"
    then have i: "i < length ms" using realise_results_parts by simp
    with idx realise_results_all [OF d all, of i] have "realise_results ms log ! i = realised (ms ! i) (?r i)" by blast
    with i good show "realise_results ms log ! i = map (\<lambda>m. m\<lparr>build_result := Some (res m)\<rparr>) ms ! i" by (simp add: realised_def)
  qed
qed

lemma realise_returns:
  assumes K: "regular_kernel K out exits" and plain: "\<forall>c. \<forall>p \<in> set (out c). CHR 0x00 \<notin> set p" and w: "resting_world w"
    and res: "\<forall>m \<in> set ms. resolved table m"
    and fuel: "length ms < fuel" "sum_list (map (\<lambda>m. Suc (length (out (realise_request table m)))) ms) < fuel"
  defines "all \<equiv> \<forall>m \<in> set ms. exits (realise_request table m) = Exited 0"
  shows "\<exists>ms' w' new. realise K fuel ms table w = Inr (all, ms', w') \<and> resting_world w' \<and> trace w' = new @ trace w
    \<and> spawned new = map (realise_request table) ms \<and> (all \<longrightarrow> ms' = map (built out table) ms)"
proof -
  let ?it = "create_derivation_mapping_future_iterator K ms table realise_derivation_mapping complete_realise_derivation_mapping"
  note it = create_derivation_mapping_future_iterator_def procreact_initialize_future_iterator_def init_model_iterator_data_def
  have w': "wf_os w" "children w = []" using w by (simp_all add: resting_world_def)
  have iter: "realisation.iterates K ?it" and none: "futures ?it = []" and todo: "realise_todo (future_data ?it) = [0..<length ms]"
    by (simp_all add: it realisation.iterates_def realise_todo_def)
  have inv: "realise_inv ms table (future_data ?it) {} []" using res by (simp add: realise_inv_def it)
  have cmds: "map (realise_cmd ms table) [0..<length ms] = map (realise_request table) ms"
    and "map (\<lambda>i. Suc (length (out (realise_cmd ms table i)))) [0..<length ms] = map (\<lambda>m. Suc (length (out (realise_request table m)))) ms"
    by (intro nth_equalityI; simp)+
  then have f: "length [0..<length ms] < fuel" "sum_list (map (\<lambda>i. Suc (length (out (realise_cmd ms table i)))) [0..<length ms]) < fuel"
    using fuel by simp_all
  have "\<forall>i \<in> set [0..<length ms]. True" by simp
  from realisation.fork_in_parallel_buffer_total [unfolded realisation.answers_def, OF K finishes_types(3) iter _ w' none inv,
      unfolded todo, OF this f] obtain it' w1 new log where
    r: "procreact_fork_in_parallel_buffer_and_wait K fuel ?it w = Inr (it', w1)" "children w1 = []" "wf_os w1"
      "trace w1 = new @ trace w" "spawned new = map (realise_cmd ms table) [0..<length ms]" "realise_inv ms table (future_data it') {} log"
      "mset (map fst log) = mset [0..<length ms]"
      "\<forall>(i, r) \<in> set log. r = answer lines_type finish_string_array out exits (realise_cmd ms table i)" .
  have a: "answer lines_type finish_string_array out exits (realise_cmd ms table i) = (if exits (realise_cmd ms table i) = Exited 0
      then Some (map Some (printed_lines out (realise_request table (ms ! i))) @ [None]) else None)" for i
    using lines_answer [of out] plain by simp
  note log = realise_log [OF r(7) r(8) [unfolded a]]
  have "realise_results ms log = map (built out table) ms" if "all"
    using log(2) that by (simp add: all_def built_def)
  moreover have "realise K fuel ms table w = Inr (all, realise_results ms log, w1)"
    using r(6) log(1) by (simp add: realise_def r(1) realise_inv_def all_def)
  ultimately show ?thesis using r(2-5) cmds by (auto simp: resting_world_def)
qed

section \<open>The build as a whole\<close>

definition derivation_copy_request :: "Interface hashtable \<Rightarrow> cstr \<Rightarrow> DerivationMapping \<Rightarrow> child" where
  "derivation_copy_request table tmpdir m = (case interface m of None \<Rightarrow> Exec [] [] | Some k \<Rightarrow> (case map_of table k of
       None \<Rightarrow> Exec [] []
     | Some i \<Rightarrow> Run ''copy_closure_to'' [address_interface i, target_address i, tmpdir, derivation m]))"

definition result_request :: "Interface hashtable \<Rightarrow> string list \<Rightarrow> DerivationMapping \<Rightarrow> child" where
  "result_request table paths m = (case interface m of None \<Rightarrow> Exec [] [] | Some k \<Rightarrow> (case map_of table k of
       None \<Rightarrow> Exec [] []
     | Some i \<Rightarrow> Run ''copy_closure_from'' ([address_interface i, target_address i] @ map Some paths)))"

lemma distribute_derivations_returns:
  assumes K: "kernel_live K" and w: "resting_world w" and fuel: "length ms + 1 < fuel" and l: "0 < l"
    and res: "\<forall>m \<in> set ms. resolved table m"
  shows "\<exists>w' new. distribute_derivation_mappings K fuel ms table l tmpdir w = Inr (all_succeeded new, w') \<and> resting_world w'
    \<and> trace w' = new @ trace w \<and> spawned new = map (derivation_copy_request table tmpdir) ms \<and> peak new \<le> l"
proof -
  have w': "wf_os w" "children w = []" using w by (simp_all add: resting_world_def)
  have "derivation_callbacks (derivation_copy_request table tmpdir) (data (create_derivation_mapping_pid_iterator K ms table
      copy_derivation_mapping_to complete_copy_derivation_mapping_to tmpdir))"
    unfolding derivation_callbacks_def create_derivation_mapping_pid_iterator_def procreact_initialize_pid_iterator_def
    using res by (auto simp: resolved_def copy_derivation_mapping_to_def complete_copy_derivation_mapping_to_def
        derivation_copy_request_def copy_closure_to_def)
  from derivation_phase_returns [OF K w' fuel l this] show ?thesis
    unfolding distribute_derivation_mappings_def resting_world_def by (smt (verit) bindr_simps case_prod_conv)
qed

lemma paths_until_null_lines: "paths_until_null (map Some paths @ [None]) = Inr paths"
  by (induction paths) simp_all

lemma retrieve_results_returns:
  assumes K: "kernel_live K" and w: "resting_world w" and fuel: "length ms + 1 < fuel" and l: "0 < l"
    and res: "\<forall>m \<in> set ms. resolved table m"
  shows "\<exists>w' new. retrieve_results K fuel (map (built out table) ms) table l w = Inr (all_succeeded new, w') \<and> resting_world w'
    \<and> trace w' = new @ trace w \<and> peak new \<le> l
    \<and> spawned new = map (\<lambda>m. result_request table (printed_lines out (realise_request table m)) m) ms"
proof -
  have w': "wf_os w" "children w = []" using w by (simp_all add: resting_world_def)
  let ?req = "\<lambda>m. result_request table (case build_result m of Some r \<Rightarrow> argv r | None \<Rightarrow> []) m" and ?ms = "map (built out table) ms"
  have "derivation_callbacks ?req (data (create_derivation_mapping_pid_iterator K ?ms table copy_result_from complete_copy_result_from ()))"
    unfolding derivation_callbacks_def create_derivation_mapping_pid_iterator_def procreact_initialize_pid_iterator_def
    using res by (auto simp: resolved_def copy_result_from_def complete_copy_result_from_def built_def
        result_request_def copy_closure_from_def paths_until_null_lines)
  moreover have "(case build_result (built out table m) of Some r \<Rightarrow> argv r | None \<Rightarrow> []) = printed_lines out (realise_request table m)"
    "result_request table paths (built out table m) = result_request table paths m" for m paths
    by (simp add: built_def) (simp add: built_def result_request_def)
  then have "map ?req ?ms = map (\<lambda>m. result_request table (printed_lines out (realise_request table m)) m) ms" by simp
  moreover have "length ?ms + 1 < fuel" using fuel by simp
  ultimately show ?thesis using derivation_phase_returns [OF K w' _ l, of ?ms fuel ?req table copy_result_from complete_copy_result_from "()"]
    unfolding retrieve_results_def resting_world_def by (smt (verit) bindr_simps case_prod_conv)
qed

text \<open>
  C19: What disnix-build does with a distributed derivation that it accepts: it copies every store derivation to its machine, then has
  every machine realise its own, then copies back from every machine exactly the paths that this machine printed for the derivation, in the order of
  the mappings and with no more transfers at a time than the limit. A phase starts only if all processes of the one before it have succeeded;
  the build succeeds if the last one does too. It returns and leaves no process behind.
\<close>

theorem build_outcome:
  assumes K: "regular_kernel K out exits" and plain: "\<forall>c. \<forall>p \<in> set (out c). CHR 0x00 \<notin> set p" and w: "resting_world w"
    and good: "check_distributed_derivation \<lparr>derivation_mapping_array = Some ms, interfaces_table = Some table\<rparr> = Inr True"
    and fuel: "length ms + 1 < fuel" "sum_list (map (\<lambda>m. Suc (length (out (realise_request table m)))) ms) < fuel" and l: "0 < l"
  shows "\<exists>w' copies builds results.
    build K fuel \<lparr>derivation_mapping_array = Some ms, interfaces_table = Some table\<rparr> l tmpdir w
      = Inr (all_succeeded copies \<and> (\<forall>m \<in> set ms. exits (realise_request table m) = Exited 0) \<and> all_succeeded results, w')
    \<and> children w' = [] \<and> trace w' = results @ builds @ copies @ trace w
    \<and> spawned copies = map (derivation_copy_request table tmpdir) ms \<and> peak copies \<le> l
    \<and> spawned builds = (if all_succeeded copies then map (realise_request table) ms else [])
    \<and> spawned results = (if all_succeeded copies \<and> (\<forall>m \<in> set ms. exits (realise_request table m) = Exited 0)
        then map (\<lambda>m. result_request table (printed_lines out (realise_request table m)) m) ms else []) \<and> peak results \<le> l"
proof -
  let ?d = "\<lparr>derivation_mapping_array = Some ms, interfaces_table = Some table\<rparr>"
  let ?all = "\<forall>m \<in> set ms. exits (realise_request table m) = Exited 0"
  note res = checked_derivation_resolves [OF good]
  from K have live: "kernel_live K" by (simp add: regular_kernel_def)
  from distribute_derivations_returns [OF live w fuel(1) l res, of tmpdir] obtain w1 copies where
    1: "distribute_derivation_mappings K fuel ms table l tmpdir w = Inr (all_succeeded copies, w1)" "resting_world w1"
      "trace w1 = copies @ trace w" "spawned copies = map (derivation_copy_request table tmpdir) ms" "peak copies \<le> l" by blast
  have "length ms < fuel" using fuel(1) by simp
  from realise_returns [OF K plain 1(2) res this fuel(2)] obtain ms' w2 builds where
    2: "realise K fuel ms table w1 = Inr (?all, ms', w2)" "resting_world w2" "trace w2 = builds @ trace w1"
      "spawned builds = map (realise_request table) ms" "?all \<longrightarrow> ms' = map (built out table) ms" by blast
  from retrieve_results_returns [OF live 2(2) fuel(1) l res, of out] obtain w3 results where
    3: "retrieve_results K fuel (map (built out table) ms) table l w2 = Inr (all_succeeded results, w3)" "resting_world w3"
      "trace w3 = results @ trace w2" "peak results \<le> l"
      "spawned results = map (\<lambda>m. result_request table (printed_lines out (realise_request table m)) m) ms" by blast
  consider "\<not> all_succeeded copies" | "all_succeeded copies" "\<not> ?all" | "all_succeeded copies" "?all" by blast
  then show ?thesis
  proof cases
    case 1
    with \<open>distribute_derivation_mappings _ _ _ _ _ _ _ = _\<close> have "build K fuel ?d l tmpdir w = Inr (False, w1)" by (simp add: build_def)
    with 1 show ?thesis
      using \<open>resting_world w1\<close> \<open>trace w1 = _\<close> \<open>spawned copies = _\<close> \<open>peak copies \<le> l\<close>
      by (intro exI [of _ w1] exI [of _ copies] exI [of _ "[]"]) (simp add: resting_world_def)
  next
    case 2
    with \<open>distribute_derivation_mappings _ _ _ _ _ _ _ = _\<close> \<open>realise _ _ _ _ _ = _\<close>
    have "build K fuel ?d l tmpdir w = Inr (False, w2)" by (auto simp: build_def)
    with 2 show ?thesis
      using \<open>resting_world w2\<close> \<open>trace w1 = _\<close> \<open>trace w2 = _\<close> \<open>spawned copies = _\<close> \<open>spawned builds = _\<close> \<open>peak copies \<le> l\<close>
      by (intro exI [of _ w2] exI [of _ copies] exI [of _ builds] exI [of _ "[]"]) (auto simp: resting_world_def)
  next
    case 3
    with 1 2 \<open>retrieve_results _ _ _ _ _ _ = _\<close> have "build K fuel ?d l tmpdir w = Inr (all_succeeded results, w3)"
      by (simp add: build_def)
    with 3 show ?thesis
      using \<open>resting_world w3\<close> \<open>trace w1 = _\<close> \<open>trace w2 = _\<close> \<open>trace w3 = _\<close> \<open>spawned copies = _\<close> \<open>spawned builds = _\<close>
        \<open>spawned results = _\<close> \<open>peak copies \<le> l\<close> \<open>peak results \<le> l\<close>
      by (intro exI [of _ w3] exI [of _ copies] exI [of _ builds] exI [of _ results]) (simp add: resting_world_def)
  qed
qed

text \<open>
  A document with neither part: the default for the table is in the wrong branch, so that the check of the tool dereferences NULL.
\<close>

lemma empty_derivation_dereferences_null:
  assumes "c_parse C file = Some (Some (XML_ELEMENT_NODE n [] []))"
  shows "run_build C file l tmpdir w = Inl Null_Deref"
  using assms
  by (simp add: run_build_def create_distributed_derivation_def parse_distributed_derivation_def
      NixXML_parse_simple_heterogeneous_attrset_def parse_simple_attrset_def check_distributed_derivation_def)

text \<open>One derivation on one machine, which prints the path it has built in two pieces.\<close>

definition build_example :: DistributedDerivation where
  "build_example = \<lparr>derivation_mapping_array = Some [\<lparr>derivation = Some ''a.drv'', interface = Some ''m'', build_result = None\<rparr>],
     interfaces_table = Some [(''m'', \<lparr>target_address = Some ''h'', address_interface = Some ''i''\<rparr>)]\<rparr>"

definition build_example_kernel :: kernel where
  "build_example_kernel = (regular_demo (\<lambda>c. [''/nix/sto'', ''re/a'' @ [CHR 10]]) (\<lambda>c. Exited 0))\<lparr>k_wait := k_wait (demo_kernel (\<lambda>_. Exited 0))\<rparr>"

lemma build_example_kernel_regular:
  "regular_kernel build_example_kernel (\<lambda>c. [''/nix/sto'', ''re/a'' @ [CHR 10]]) (\<lambda>c. Exited 0)"
proof -
  have K: "regular_kernel (regular_demo (\<lambda>c. [''/nix/sto'', ''re/a'' @ [CHR 10]]) (\<lambda>c. Exited 0))
      (\<lambda>c. [''/nix/sto'', ''re/a'' @ [CHR 10]]) (\<lambda>c. Exited 0)" by (rule regular_demo_regular) simp
  moreover have "kernel_live build_example_kernel"
    using K demo_kernel_live [of "\<lambda>_. Exited 0"]
    by (auto simp: regular_kernel_def build_example_kernel_def kernel_live_def kernel_ok_def)
  ultimately show ?thesis by (simp add: regular_kernel_def build_example_kernel_def)
qed

theorem build_outcome_witness:
  "\<exists>w'. build build_example_kernel 10 build_example 1 (Some ''/tmp'') \<lparr>children = [], trace = []\<rparr> = Inr (True, w')
    \<and> children w' = [] \<and> spawned (trace w') = [Run ''copy_closure_to'' [Some ''i'', Some ''h'', Some ''/tmp'', Some ''a.drv''],
        Exec [''i'', ''--realise'', ''--target'', ''h'', ''a.drv''] [],
        Run ''copy_closure_from'' [Some ''i'', Some ''h'', Some ''/nix/store/a'']]"
proof -
  let ?ms = "[\<lparr>derivation = Some ''a.drv'', interface = Some ''m'', build_result = None\<rparr>]"
  let ?table = "[(''m'', \<lparr>target_address = Some ''h'', address_interface = Some ''i''\<rparr>)]"
  let ?out = "\<lambda>c :: child. [''/nix/sto'', ''re/a'' @ [CHR 10]]" and ?w = "\<lparr>children = [], trace = []\<rparr> :: os"
  have plain: "\<forall>c. \<forall>p \<in> set (?out c). CHR 0x00 \<notin> set p" by simp
  have w: "resting_world ?w" by (simp add: resting_world_def wf_os_def)
  have good: "check_distributed_derivation \<lparr>derivation_mapping_array = Some ?ms, interfaces_table = Some ?table\<rparr> = Inr True" by code_simp
  have fuel: "length ?ms + 1 < 10" "sum_list (map (\<lambda>m. Suc (length (?out (realise_request ?table m)))) ?ms) < 10" by simp_all
  have one: "0 < (1 :: nat)" by simp
  have req: "map (derivation_copy_request ?table (Some ''/tmp'')) ?ms = [Run ''copy_closure_to'' [Some ''i'', Some ''h'', Some ''/tmp'', Some ''a.drv'']]"
    "map (realise_request ?table) ?ms = [Exec [''i'', ''--realise'', ''--target'', ''h'', ''a.drv''] []]"
    "map (\<lambda>m. result_request ?table (printed_lines ?out (realise_request ?table m)) m) ?ms
       = [Run ''copy_closure_from'' [Some ''i'', Some ''h'', Some ''/nix/store/a'']]"
    by code_simp+
  have "case build build_example_kernel 10 build_example 1 (Some ''/tmp'') ?w of Inl e \<Rightarrow> False | Inr (g, w') \<Rightarrow> g" by code_simp
  then have "\<exists>w'. build build_example_kernel 10 build_example 1 (Some ''/tmp'') ?w = Inr (True, w')" by (auto split: sum.splits)
  then show ?thesis
    using build_outcome [OF build_example_kernel_regular plain w good fuel one, of "Some ''/tmp''", unfolded req]
    by (fastforce simp: build_example_def spawned_append)
qed

end
