(* ===== verification/Spec2Isabelle.thy ===== *)
theory Spec2Isabelle
  imports Transition_Properties Profile_Manifest Deploy_Locking Package_Management Profile_Locking Snapshot_Transfer
    Migration_Correct Migration_Children Disnix_Client Query_Correct Build_Correct
begin

text \<open>
  Disnix: the coordinator tools, the libraries they are made of and the program that carries out their requests on a
  machine, translated from the C code under \<open>src/src\<close>. All paths below are relative to that directory.

  \<^bold>\<open>The program\<close>

  Disnix deploys services to a network of machines. A manifest says which packages make up the profile of every machine,
  which services there are, where each is to be activated and on what each depends, whose state has to be moved,
  and how every machine is reached. The coordinator never acts on a machine directly: it starts one process per request, the client
  interface of the machine with words such as \<open>--activate\<close>, and reads its exit status or its output. On the machine
  \<open>disnix-run-activity\<close> turns the words into calls of Nix and Dysnomia. A deployment distributes closures, locks the machines, deactivates
  what is obsolete and activates what is new in the order of the dependencies, moves state, sets the profiles and unlocks.

  \<^bold>\<open>How C is modelled\<close>

  Every function returns a value of \<open>fault + 'a\<close>: \<open>Inr\<close> with what it returns and the state after it, or \<open>Inl\<close> where
  C has no defined result (a NULL pointer is dereferenced, an array is read past its end, a loop has used up its fuel). A
  pointer that may be NULL is an option, a \<open>GPtrArray\<close> a list, a hash table with string keys an association list in the order in which it is
  iterated, a bit field of flags a word of 32 bits, and a callback with its \<open>void\<close> pointer a function argument with its state.
  A struct is a record and an enumeration a datatype, with the names of the source where Isabelle allows them. Pointers into an array that
  the program uses to update an element are indices.

  The world outside is a parameter, never a definition: a kernel decides what fork, wait, waitpid and reading a pipe give from the trace
  of everything that has happened (\<open>Disnix_OS\<close>), a file system what opening, creating, removing and resolving a name gives
  (\<open>Disnix_Files\<close>), and libxml2 is a function from a file or a text to a document. \<open>execvp\<close> turns the argument vector of the
  code into the words of the process; the trace lists every process with its words, and what ended it. So theorems about what the
  program executes speak of the trace. \<open>kernel_ok\<close> says what every kernel does, \<open>kernel_live\<close> in addition that forks succeed and waits are not
  interrupted, \<open>regular_kernel\<close> that the output and the exit status of a process depend on its words; each has an instance on which the witnesses
  run.

  \<^bold>\<open>The theories\<close>

  \<^item> \<open>Disnix_Prelude\<close>: failures, C strings, the GLib containers, \<open>bsearch\<close> and the contract of \<open>qsort\<close>. The locale \<open>key_comparison\<close>
    states what a comparison function has to promise for a binary search to be right, \<open>element_comparison\<close> for a sort.
  \<^item> \<open>NixXML\<close>, \<open>NixXML_Print\<close>, \<open>NixXML_Parse\<close>: \<open>libnixxml\<close> and \<open>libnixxml-glib\<close>. Nodes, comparison, both output formats,
    and the parsers of attribute sets, lists and typed expressions. What the printers write reads back as it was under the conditions the lemmas state.
  \<^item> \<open>Infrastructure\<close>, \<open>Manifest_Data\<close>, \<open>Services\<close>, \<open>Snapshot_Data\<close>, \<open>Manifest\<close>, \<open>Profile_Manifest\<close>, \<open>Manifest_Print\<close>:
    \<open>libinfrastructure\<close>, \<open>libmanifest\<close> and \<open>libprofilemanifest\<close>. Data, parsing, checking, searching, the set operations, and printing. The lemmas say
    what the parser establishes (\<open>parsed_manifest\<close>) and what the check adds (\<open>check_manifest_iff\<close>).
  \<^item> \<open>Disnix_OS\<close>, \<open>Procreact_Iterator\<close>, \<open>Procreact_Types\<close>, \<open>Future_Iterator\<close>, \<open>Process_Commands\<close>: \<open>libprocreact\<close>. Waiting for
    one process, running a collection of processes in parallel with and without a limit, and collecting their output. The locales \<open>pid_iteration\<close> and
    \<open>future_iteration\<close> are the contracts of the two iterators: callbacks that offer one element after the other get every element
    completed exactly once, with no process left. \<open>Model_Iterator\<close> interprets them for \<open>libmodel\<close>, the profile mappings and the targets, \<open>Deploy_Locking\<close>
    and \<open>Profile_Manifest\<close> for their own.
  \<^item> \<open>Remote_Management\<close>, \<open>Package_Management\<close>, \<open>Snapshot_Transfer\<close>: \<open>libpkgmgmt\<close> and \<open>libstatemgmt\<close>, the words of every request and the local
    operations on packages, profiles and snapshots. The locale \<open>closure_copy\<close> is what copying to and from a machine have in common.
  \<^item> \<open>Service_Traverse\<close>, \<open>Traverse_Safety\<close>, \<open>Traverse_Correct\<close>, \<open>Traverse_Liveness\<close>: \<open>libmanifest/servicemapping-traverse.c\<close>. The specification is
    the step relation \<open>phase_step\<close>; both strategies are interpretations of \<open>iterate_strategy\<close> and \<open>live_strategy\<close>, from which safety, the outcome
    and termination of the loop follow once for both.
  \<^item> \<open>Transition\<close>, \<open>Transition_Correct\<close>, \<open>Transition_Liveness\<close>, \<open>Transition_Properties\<close>: \<open>libdeploy/transition.c\<close>, refined against
    the relation \<open>transition_step\<close>, with its invariants, its outcomes and its termination.
  \<^item> \<open>Snapshot_Traverse\<close>, \<open>Migration\<close>, \<open>Migration_Correct\<close>, \<open>Migration_Children\<close>: \<open>libmigrate\<close> and the traversal of snapshot mappings.
  \<^item> \<open>Deploy_Locking\<close>, \<open>Deploy\<close>, \<open>Deploy_Correct\<close>: the rest of \<open>libdeploy\<close>, and a deployment as a whole: it returns, its locks are released, and
    what its result says.
  \<^item> \<open>Profile_Locking\<close>, \<open>Run_Activity\<close>: the machine's side, \<open>libprofilemanifest/profilelocking.c\<close> and \<open>run-activity\<close>. The lemmas on \<open>activity_main\<close> close
    the circle: what \<open>Remote_Management\<close> asks for is what is carried out.
  \<^item> \<open>Disnix_Service\<close>, \<open>Service_Correct\<close>, \<open>Disnix_Client\<close>: \<open>dbus-service\<close>, the service that the client \<open>disnix-client\<close> calls when no other interface is used.
    The service is the step relation \<open>service_step\<close>: it assigns a job id, handles a method, or one of the threads that wait for a process ends and emits
    a signal. By induction over \<open>service_run\<close> every call is accounted for, no process is left behind, and the service can come to rest; a
    client that is alone with it gets what \<open>disnix-run-activity\<close> would answer. \<open>Disnix_Client\<close> has the options of the client and follows a request through
    client and service to Dysnomia.
  \<^item> \<open>Default_Options\<close>, \<open>Coordinator_Runs\<close>, \<open>Coordinator_Tools\<close>, \<open>Machine_Tools\<close>, \<open>Query_Tools\<close>, \<open>Coordinator_Correct\<close>, \<open>Query_Correct\<close>:
    the tools from their argument vectors to their exit statuses, with what \<open>getopt_long\<close> does with the tables and what \<open>atoi\<close> does with a word.
  \<^item> \<open>Distributed_Build\<close>, \<open>Build_Correct\<close>: \<open>libdistderivation\<close>, \<open>libbuild\<close> and disnix-build. The iterators over derivation mappings interpret both contracts of
    \<open>libprocreact\<close> once more, now with results written back into the array.

  \<^bold>\<open>Bounds and fuel\<close>

  Three loops of the program end only if the world plays along, and these have fuel: the iterators (more than one round per element, and in a
  buffering iterator per piece of output), the rounds of a traversal (two per mapping), and the recursion along dependencies (the length of the longest
  chain). \<open>enough_fuel\<close> and the fuel premises of the theorems say how much is enough; the theorems then give \<open>Inr\<close>, so that they prove termination, and no
  theorem says only what holds if the result is there. Where a loop does not end, no fuel is enough, and the theorem says so: a limit of zero
  transfers (\<open>zero_transfers_hang\<close>). Machine words appear where the code relies on their width: flags, statuses of \<open>wait\<close>, and numbers of cores.

  \<^bold>\<open>Not modelled\<close>

  Usage and version texts and the messages on the standard error, the release of memory, and the installation of signal handlers (the interrupt flag
  they set is part of the kernel). Of the D-Bus service daemonisation, the contents of the log files and the set-up of the bus; the calls are
  steps of the service, and neither D-Bus nor the main loop of GLib is. The tools that only convert formats (\<open>capture-manifest\<close>, \<open>convert-manifest\<close>,
  \<open>visualize\<close>). Nix expressions, XSL stylesheets and shell scripts. What Nix, Dysnomia and a client interface do is their own.
\<close>

end
